(* ===== verification/Prelude.thy ===== *)
theory Prelude
  imports
    Main
    "HOL-Library.Word"
    "HOL-Library.AList"
    "HOL-Library.State_Monad"
    "HOL-Library.Sublist"
    "HOL-Library.Char_ord"
    "HOL-Library.List_Lexorder"
    "HOL-Library.Option_ord"
    "HOL-Library.Product_Lexorder"
begin

text \<open>
  What the components share: machine integers, Rust's strings as their UTF-8 bytes, the
  collections of \<^verbatim>\<open>std::collections\<close> as association lists and sets, and the lemmas on lists,
  options and maps that carry the component proofs.

  \<^item> A Rust \<^verbatim>\<open>String\<close> or \<^verbatim>\<open>&str\<close> is a \<open>string\<close> whose characters are the bytes of
    its UTF-8 encoding: \<^verbatim>\<open>len\<close>, \<^verbatim>\<open>find\<close>, \<^verbatim>\<open>contains\<close>, \<^verbatim>\<open>starts_with\<close>, slicing and the
    derived order all work on bytes in Rust too. What Rust does on \<^verbatim>\<open>char\<close>s goes through
    \<open>utf8_chars\<close>; the Unicode tables of the standard library beyond ASCII are a
    parameter, the record \<open>unicode\<close>.
  \<^item> \<^verbatim>\<open>HashMap\<close> is an association list with \<open>map_of\<close> and \<open>hm_put\<close> (no code below depends on
    a hash map's iteration order without sorting afterwards), \<^verbatim>\<open>BTreeMap\<close> an association list
    kept in key order by \<open>bt_put\<close>, \<^verbatim>\<open>HashSet\<close> a set.
  \<^item> \<^verbatim>\<open>usize\<close> counts and indices are \<open>nat\<close>, \<^verbatim>\<open>u32\<close> and \<^verbatim>\<open>i64\<close> are words.
\<close>

type_synonym u32 = "32 word"
type_synonym i64 = "64 word"

named_theorems option_list_simps \<open>identities of map on lists, options and pairs\<close>
named_theorems store_simps \<open>what a lookup returns after an update\<close>

section \<open>Lists and options\<close>

lemma map_option_idI [option_list_simps]: "(\<And>x. y = Some x \<Longrightarrow> f x = x) \<Longrightarrow> map_option f y = y"
  by (cases y) auto

lemma map_prod_idI: "f (fst p) = fst p \<Longrightarrow> g (snd p) = snd p \<Longrightarrow> map_prod f g p = p"
  by (cases p) auto

lemma find_Some_in_set: "List.find P xs = Some x \<Longrightarrow> x \<in> set xs \<and> P x"
  by (auto simp: find_Some_iff)

lemma find_None_all: "List.find P xs = None \<Longrightarrow> x \<in> set xs \<Longrightarrow> \<not> P x"
  by (auto simp: find_None_iff)

lemma find_append:
  "List.find P (xs @ ys) = (case List.find P xs of None \<Rightarrow> List.find P ys | Some y \<Rightarrow> Some y)"
  by (induction xs) auto

text \<open>\<^verbatim>\<open>Iterator::find_map\<close>: the first \<open>Some\<close> the function gives.\<close>

primrec find_map :: "('a \<Rightarrow> 'b option) \<Rightarrow> 'a list \<Rightarrow> 'b option" where
  "find_map f [] = None"
| "find_map f (x # xs) = (case f x of None \<Rightarrow> find_map f xs | Some y \<Rightarrow> Some y)"

lemma find_map_SomeD: "find_map f xs = Some y \<Longrightarrow> \<exists>x \<in> set xs. f x = Some y"
  by (induction xs) (auto split: option.splits)

lemma find_map_NoneD: "find_map f xs = None \<Longrightarrow> x \<in> set xs \<Longrightarrow> f x = None"
  by (induction xs) (auto split: option.splits)

lemma find_map_cong [fundef_cong]:
  "xs = ys \<Longrightarrow> (\<And>x. x \<in> set ys \<Longrightarrow> f x = g x) \<Longrightarrow> find_map f xs = find_map g ys"
  by (induction ys arbitrary: xs) (auto split: option.splits)

text \<open>\<^verbatim>\<open>Iterator::filter_map\<close>.\<close>

definition filter_map :: "('a \<Rightarrow> 'b option) \<Rightarrow> 'a list \<Rightarrow> 'b list" where
  "filter_map f xs = List.map_filter f xs"

lemma filter_map_simps [simp]:
  "filter_map f [] = []"
  "filter_map f (x # xs) = (case f x of None \<Rightarrow> filter_map f xs | Some y \<Rightarrow> y # filter_map f xs)"
  by (simp_all add: filter_map_def map_filter_simps split: option.splits)

lemma filter_map_append: "filter_map f (xs @ ys) = filter_map f xs @ filter_map f ys"
  by (induction xs) (auto split: option.splits)

lemma set_filter_map: "set (filter_map f xs) = {y. \<exists>x \<in> set xs. f x = Some y}"
  by (induction xs) (auto split: option.splits)

subsection \<open>Reachability\<close>

lemma closed_contains_rtrancl:
  assumes "(a, v) \<in> E\<^sup>*" and "a \<in> S" and "E `` S \<subseteq> S"
  shows "v \<in> S"
  using assms by (induction) auto

subsection \<open>Sorting and removing duplicates\<close>

lemma remdups_adj_sort:
  fixes xs :: "'a::linorder list"
  shows "remdups_adj (sort xs) = sorted_list_of_set (set xs)"
proof -
  have strict: "sorted_wrt (<) (remdups_adj ys)" if "sorted ys" for ys :: "'a list"
    using that by (induction ys rule: remdups_adj.induct) (auto simp: order.strict_iff_order)
  then show ?thesis
    by (intro sorted_distinct_set_unique) (auto simp: strict_sorted_iff)
qed

lemma insort_key_map: "insort_key f (g x) (map g xs) = map g (insort_key (\<lambda>x. f (g x)) x xs)"
  by (induction xs) auto

lemma sort_key_map: "sort_key f (map g xs) = map g (sort_key (\<lambda>x. f (g x)) xs)"
  by (induction xs) (simp_all add: insort_key_map)

lemma sort_distinct: "distinct xs \<Longrightarrow> sort xs = sorted_list_of_set (set xs)"
  by (simp add: sorted_list_of_set_sort_remdups distinct_remdups_id)

section \<open>Numbers as text\<close>

definition digit_char :: "nat \<Rightarrow> char" where
  "digit_char d = char_of (48 + d)"

text \<open>\<^verbatim>\<open>usize\<close>'s \<^verbatim>\<open>Display\<close>: decimal, no leading zero.\<close>

fun show_nat :: "nat \<Rightarrow> string" where
  "show_nat n = (if n < 10 then [digit_char n] else show_nat (n div 10) @ [digit_char (n mod 10)])"

declare show_nat.simps [simp del]

definition is_digit :: "char \<Rightarrow> bool" where
  "is_digit c \<longleftrightarrow> 48 \<le> (of_char c :: nat) \<and> (of_char c :: nat) \<le> 57"

lemma is_digit_digit_char [simp]: "d < 10 \<Longrightarrow> is_digit (digit_char d)"
  by (simp add: is_digit_def digit_char_def of_char_of take_bit_eq_mod)

lemma digit_char_inj: "a < 10 \<Longrightarrow> b < 10 \<Longrightarrow> digit_char a = digit_char b \<Longrightarrow> a = b"
  unfolding digit_char_def
  by (drule arg_cong [where f = "of_char :: char \<Rightarrow> nat"])
    (simp add: of_char_of take_bit_eq_mod)

lemma show_nat_nonempty [simp]: "show_nat n \<noteq> []"
  by (subst show_nat.simps) simp

lemma show_nat_digits: "list_all is_digit (show_nat n)"
  by (induction n rule: show_nat.induct) (subst show_nat.simps, simp)

lemma show_nat_inj: "show_nat m = show_nat n \<Longrightarrow> m = n"
proof (induction m arbitrary: n rule: show_nat.induct)
  case (1 m)
  note unf = show_nat.simps [of m] show_nat.simps [of n]
  show ?case
  proof (cases "m < 10 \<or> n < 10")
    case True
    with 1 show ?thesis
      by (auto simp: unf append_eq_Cons_conv Cons_eq_append_conv split: if_splits dest: digit_char_inj)
  next
    case False
    with 1 have "m div 10 = n div 10" and "digit_char (m mod 10) = digit_char (n mod 10)"
      by (auto simp: unf)
    moreover from this have "m mod 10 = n mod 10" by (auto intro: digit_char_inj)
    ultimately show ?thesis by (metis div_mult_mod_eq)
  qed
qed

text \<open>
  Two texts that end in decimal numbers and agree up to a non-digit in front of them agree in
  both parts: what keeps generated suffixes apart.
\<close>

lemma append_digits_eqD:
  assumes "xs @ ds = ys @ es" and "list_all is_digit ds" and "list_all is_digit es"
    and "\<not> is_digit (last xs)" and "xs \<noteq> []" and "\<not> is_digit (last ys)" and "ys \<noteq> []"
  shows "xs = ys \<and> ds = es"
proof -
  have tw: "takeWhile is_digit (rev (zs @ fs)) = rev fs"
    if "list_all is_digit fs" "zs \<noteq> []" "\<not> is_digit (last zs)" for zs fs :: string
  proof -
    have "takeWhile is_digit (rev fs @ rev zs) = rev fs @ takeWhile is_digit (rev zs)"
      using that(1) by (intro takeWhile_append2) (auto simp: list_all_iff)
    moreover have "takeWhile is_digit (rev zs) = []"
      using that(2,3) by (cases zs rule: rev_cases) auto
    ultimately show ?thesis by simp
  qed
  from assms have "rev ds = rev es"
    by (metis tw)
  with assms(1) show ?thesis by simp
qed

section \<open>Strings\<close>

abbreviation str_starts_with :: "string \<Rightarrow> string \<Rightarrow> bool" where
  "str_starts_with s p \<equiv> prefix p s"

abbreviation str_ends_with :: "string \<Rightarrow> string \<Rightarrow> bool" where
  "str_ends_with s p \<equiv> suffix p s"

text \<open>\<^verbatim>\<open>str::strip_prefix\<close>.\<close>

definition strip_prefix :: "string \<Rightarrow> string \<Rightarrow> string option" where
  "strip_prefix s p = (if prefix p s then Some (drop (length p) s) else None)"

lemma strip_prefix_Some: "strip_prefix s p = Some r \<longleftrightarrow> s = p @ r"
  by (auto simp: strip_prefix_def prefix_def)

text \<open>\<^verbatim>\<open>str::find\<close> with a string pattern: the byte offset of the first occurrence.\<close>

fun str_find :: "string \<Rightarrow> string \<Rightarrow> nat option" where
  "str_find [] p = (if p = [] then Some 0 else None)"
| "str_find (c # s) p = (if prefix p (c # s) then Some 0 else map_option Suc (str_find s p))"

text \<open>\<^verbatim>\<open>str::contains\<close>.\<close>

definition str_contains :: "string \<Rightarrow> string \<Rightarrow> bool" where
  "str_contains s p \<longleftrightarrow> str_find s p \<noteq> None"

lemma str_find_None_iff: "str_find s p = None \<longleftrightarrow> \<not> sublist p s"
  by (induction s) (auto simp: sublist_Cons_right)

lemma str_contains_iff: "str_contains s p \<longleftrightarrow> sublist p s"
  by (simp add: str_contains_def str_find_None_iff)

lemma str_find_SomeD: "str_find s p = Some i \<Longrightarrow> i + length p \<le> length s \<and> prefix p (drop i s)"
proof (induction s arbitrary: i)
  case Nil
  then show ?case by (auto split: if_splits)
next
  case (Cons c s)
  show ?case
  proof (cases "prefix p (c # s)")
    case True
    with Cons.prems show ?thesis by (auto dest: prefix_length_le)
  next
    case False
    with Cons.prems obtain j where "str_find s p = Some j" "i = Suc j" by auto
    with Cons.IH show ?thesis by auto
  qed
qed

lemma str_find_least: "str_find s p = Some i \<Longrightarrow> j < i \<Longrightarrow> \<not> prefix p (drop j s)"
proof (induction s arbitrary: i j)
  case Nil
  then show ?case by (auto split: if_splits)
next
  case (Cons c s)
  then show ?case by (cases j) (auto split: if_splits)
qed

text \<open>\<^verbatim>\<open>str::rfind\<close> with a single-byte pattern.\<close>

primrec str_rfind_char :: "string \<Rightarrow> char \<Rightarrow> nat option" where
  "str_rfind_char [] c = None"
| "str_rfind_char (x # s) c =
     (case str_rfind_char s c of Some i \<Rightarrow> Some (Suc i) | None \<Rightarrow> if x = c then Some 0 else None)"

lemma str_rfind_char_SomeD:
  "str_rfind_char s c = Some i \<Longrightarrow> i < length s \<and> s ! i = c \<and> c \<notin> set (drop (Suc i) s)"
proof (induction s arbitrary: i)
  case (Cons x s)
  have "c \<notin> set s" if "str_rfind_char s c = None"
    using that by (induction s) (auto split: option.splits if_splits)
  with Cons show ?case by (auto split: option.splits if_splits)
qed simp

text \<open>\<^verbatim>\<open>[T]::join\<close> on strings.\<close>

fun str_join :: "string \<Rightarrow> string list \<Rightarrow> string" where
  "str_join sep [] = []"
| "str_join sep [s] = s"
| "str_join sep (s # t # ss) = s @ sep @ str_join sep (t # ss)"

subsection \<open>Characters\<close>

text \<open>
  \<^verbatim>\<open>str::chars\<close>: the UTF-8 sequences of a string, each as its bytes. The lead byte tells the
  width. A Rust string is always valid UTF-8.
\<close>

definition utf8_width :: "char \<Rightarrow> nat" where
  "utf8_width b = (let n = (of_char b :: nat) in
     if n < 128 then 1 else if n < 224 then 2 else if n < 240 then 3 else 4)"

fun utf8_chars :: "string \<Rightarrow> string list" where
  "utf8_chars [] = []"
| "utf8_chars (b # bs) =
     (b # take (utf8_width b - 1) bs) # utf8_chars (drop (utf8_width b - 1) bs)"

lemma concat_utf8_chars [simp]: "concat (utf8_chars s) = s"
  by (induction s rule: utf8_chars.induct) auto

text \<open>The tables of \<^verbatim>\<open>core::unicode\<close> for characters beyond ASCII.\<close>

record unicode =
  u_alphanumeric :: "string \<Rightarrow> bool"
  u_to_uppercase :: "string \<Rightarrow> string"

text \<open>Tables that know no character beyond ASCII, for concrete instances.\<close>

definition ascii_tables :: unicode where
  "ascii_tables = \<lparr>u_alphanumeric = \<lambda>_. False, u_to_uppercase = \<lambda>c. c\<rparr>"

definition ascii_upper :: "char \<Rightarrow> bool" where
  "ascii_upper b \<longleftrightarrow> (let n = (of_char b :: nat) in 65 \<le> n \<and> n \<le> 90)"

definition ascii_lower :: "char \<Rightarrow> bool" where
  "ascii_lower b \<longleftrightarrow> (let n = (of_char b :: nat) in 97 \<le> n \<and> n \<le> 122)"

definition ascii_alnum :: "char \<Rightarrow> bool" where
  "ascii_alnum b \<longleftrightarrow> ascii_upper b \<or> ascii_lower b \<or> is_digit b"

definition is_ascii :: "char \<Rightarrow> bool" where
  "is_ascii b \<longleftrightarrow> (of_char b :: nat) < 128"

text \<open>\<^verbatim>\<open>char::is_alphanumeric\<close> and \<^verbatim>\<open>char::to_uppercase\<close>.\<close>

definition char_is_alphanumeric :: "unicode \<Rightarrow> string \<Rightarrow> bool" where
  "char_is_alphanumeric U c =
     (case c of [b] \<Rightarrow> (if is_ascii b then ascii_alnum b else u_alphanumeric U c)
      | _ \<Rightarrow> u_alphanumeric U c)"

definition char_to_uppercase :: "unicode \<Rightarrow> string \<Rightarrow> string" where
  "char_to_uppercase U c =
     (case c of
        [b] \<Rightarrow> (if is_ascii b
                then (if ascii_lower b then [char_of ((of_char b :: nat) - 32)] else [b])
                else u_to_uppercase U c)
      | _ \<Rightarrow> u_to_uppercase U c)"

text \<open>
  \<^verbatim>\<open>char::is_whitespace\<close>: the property \<^verbatim>\<open>White_Space\<close> of Unicode, which is this list of
  code points, U+0009 to U+000D, U+0020, U+0085, U+00A0, U+1680, U+2000 to U+200A, U+2028,
  U+2029, U+202F, U+205F and U+3000, as UTF-8.
\<close>

definition white_space :: "nat list list" where
  "white_space = map (\<lambda>n. [n]) [9, 10, 11, 12, 13, 32] @
     [[194, 133], [194, 160], [225, 154, 128]] @
     map (\<lambda>n. [226, 128, n]) [128, 129, 130, 131, 132, 133, 134, 135, 136, 137, 138, 168, 169, 175] @
     [[226, 129, 159], [227, 128, 128]]"

definition char_is_whitespace :: "string \<Rightarrow> bool" where
  "char_is_whitespace c \<longleftrightarrow> map of_char c \<in> set white_space"

text \<open>\<^verbatim>\<open>str::trim_start\<close>, \<^verbatim>\<open>trim_end\<close> and \<^verbatim>\<open>trim\<close>.\<close>

definition str_trim_start :: "string \<Rightarrow> string" where
  "str_trim_start s = concat (dropWhile char_is_whitespace (utf8_chars s))"

definition str_trim_end :: "string \<Rightarrow> string" where
  "str_trim_end s = concat (rev (dropWhile char_is_whitespace (rev (utf8_chars s))))"

definition str_trim :: "string \<Rightarrow> string" where
  "str_trim s = str_trim_end (str_trim_start s)"

text \<open>\<^verbatim>\<open>str::split\<close> by a predicate on characters: every segment, the empty ones too.\<close>

fun split_chars :: "(string \<Rightarrow> bool) \<Rightarrow> string list \<Rightarrow> string list" where
  "split_chars P [] = [[]]"
| "split_chars P (c # cs) =
     (if P c then [] # split_chars P cs
      else (case split_chars P cs of [] \<Rightarrow> [c] | seg # segs \<Rightarrow> (c @ seg) # segs))"

definition str_split :: "(string \<Rightarrow> bool) \<Rightarrow> string \<Rightarrow> string list" where
  "str_split P s = split_chars P (utf8_chars s)"

lemma split_chars_nonempty [simp]: "split_chars P cs \<noteq> []"
  by (induction cs) (auto split: list.splits)

text \<open>\<^verbatim>\<open>str::split\<close> by a non-empty string pattern.\<close>

function str_split_on :: "string \<Rightarrow> string \<Rightarrow> string list" where
  "str_split_on p s =
     (case str_find s p of
        None \<Rightarrow> [s]
      | Some i \<Rightarrow> if p = [] then [s] else take i s # str_split_on p (drop (i + length p) s))"
  by pat_completeness auto
termination
  by (relation "measure (\<lambda>(p, s). length s)")
    (auto dest!: str_find_SomeD simp flip: length_greater_0_conv)

declare str_split_on.simps [simp del]

text \<open>
  \<^verbatim>\<open>str::lines\<close>: a line ends after a newline, which is stripped together with a carriage
  return right before it; a last line without a newline is kept as it is.
\<close>

fun split_inclusive :: "string \<Rightarrow> string list" where
  "split_inclusive [] = []"
| "split_inclusive (c # s) =
     (if c = CHR 0x0A then [c] # split_inclusive s
      else (case split_inclusive s of [] \<Rightarrow> [[c]] | l # ls \<Rightarrow> (c # l) # ls))"

definition line_content :: "string \<Rightarrow> string" where
  "line_content l =
     (if suffix [CHR 0x0A] l
      then (let k = butlast l in if suffix [CHR 0x0D] k then butlast k else k)
      else l)"

definition str_lines :: "string \<Rightarrow> string list" where
  "str_lines s = map line_content (split_inclusive s)"

section \<open>Collections\<close>

text \<open>\<^verbatim>\<open>HashMap::insert\<close> and \<^verbatim>\<open>HashMap::entry(k).or_insert(v)\<close> on an association list.\<close>

definition hm_put :: "'k \<Rightarrow> 'v \<Rightarrow> ('k \<times> 'v) list \<Rightarrow> ('k \<times> 'v) list" where
  "hm_put k v m = AList.update k v m"

definition hm_or_insert :: "'k \<Rightarrow> 'v \<Rightarrow> ('k \<times> 'v) list \<Rightarrow> ('k \<times> 'v) list" where
  "hm_or_insert k v m = (if map_of m k = None then hm_put k v m else m)"

lemma map_of_hm_put [simp, store_simps]: "map_of (hm_put k v m) = (map_of m)(k \<mapsto> v)"
  by (simp add: hm_put_def update_conv')

lemma map_of_hm_or_insert [store_simps]:
  "map_of (hm_or_insert k v m) = (if map_of m k = None then (map_of m)(k \<mapsto> v) else map_of m)"
  by (simp add: hm_or_insert_def)

lemma distinct_hm_put: "distinct (map fst m) \<Longrightarrow> distinct (map fst (hm_put k v m))"
  by (simp add: hm_put_def distinct_update)

lemma hm_put_nonempty [simp]: "hm_put k v m \<noteq> []"
  by (cases m) (auto simp: hm_put_def)

text \<open>\<^verbatim>\<open>BTreeMap::insert\<close>: the list stays in key order, which is the order of iteration.\<close>

fun bt_put :: "'k::linorder \<Rightarrow> 'v \<Rightarrow> ('k \<times> 'v) list \<Rightarrow> ('k \<times> 'v) list" where
  "bt_put k v [] = [(k, v)]"
| "bt_put k v ((k', v') # m) =
     (if k < k' then (k, v) # (k', v') # m
      else if k = k' then (k, v) # m
      else (k', v') # bt_put k v m)"

lemma map_of_bt_put [simp, store_simps]: "map_of (bt_put k v m) = (map_of m)(k \<mapsto> v)"
  by (induction k v m rule: bt_put.induct) (auto simp: fun_eq_iff)

definition bt_ok :: "('k::linorder \<times> 'v) list \<Rightarrow> bool" where
  "bt_ok m \<longleftrightarrow> sorted_wrt (<) (map fst m)"

lemma set_bt_put: "fst ` set (bt_put k v m) = insert k (fst ` set m)"
  by (induction k v m rule: bt_put.induct) auto

lemma bt_ok_put: "bt_ok m \<Longrightarrow> bt_ok (bt_put k v m)"
proof (induction k v m rule: bt_put.induct)
  case (2 k v k' v' m)
  have "\<forall>x \<in> fst ` set (bt_put k v m). k' < x" if "k' < k"
    using that "2.prems" by (auto simp: set_bt_put bt_ok_def)
  with 2 show ?case by (auto simp: bt_ok_def dest: less_trans)
qed (simp add: bt_ok_def)

lemma bt_ok_distinct: "bt_ok m \<Longrightarrow> distinct (map fst m)"
  by (simp add: bt_ok_def strict_sorted_iff)

text \<open>
  The pattern \<^verbatim>\<open>map.entry(key).or_default().push(value)\<close>, over the two operations of the map it
  is used with.
\<close>

definition entry_push ::
  "('m \<Rightarrow> 'k \<Rightarrow> 'v list option) \<Rightarrow> ('k \<Rightarrow> 'v list \<Rightarrow> 'm \<Rightarrow> 'm) \<Rightarrow> 'k \<Rightarrow> 'v \<Rightarrow> 'm \<Rightarrow> 'm" where
  "entry_push get put k v m = put k ((case get m k of None \<Rightarrow> [] | Some vs \<Rightarrow> vs) @ [v]) m"

text \<open>
  The interface of a map, as its clients use it: what a lookup returns after an insertion, and
  an invariant that insertion keeps. The clients group values by key; what they rely on is proved
  once here, for both maps.
\<close>

locale keyed_store =
  fixes get :: "'m \<Rightarrow> 'k \<Rightarrow> 'v option"
    and put :: "'k \<Rightarrow> 'v \<Rightarrow> 'm \<Rightarrow> 'm"
    and ok :: "'m \<Rightarrow> bool"
    and empty_map :: "'m"
  assumes get_empty: "get empty_map k = None"
    and ok_empty: "ok empty_map"
    and get_put: "ok m \<Longrightarrow> get (put k v m) k' = (if k' = k then Some v else get m k')"
    and ok_put: "ok m \<Longrightarrow> ok (put k v m)"
begin

lemma get_put_fold:
  assumes "ok m"
  shows "get (fold (\<lambda>x. put (key x) (val x)) xs m) k =
    (case find (\<lambda>x. key x = k) (rev xs) of None \<Rightarrow> get m k | Some x \<Rightarrow> Some (val x))"
  using assms
proof (induction xs arbitrary: m)
  case (Cons x xs)
  then have "get (fold (\<lambda>x. put (key x) (val x)) xs (put (key x) (val x) m)) k =
    (case find (\<lambda>x. key x = k) (rev xs) of
       None \<Rightarrow> get (put (key x) (val x) m) k | Some y \<Rightarrow> Some (val y))"
    by (simp add: ok_put)
  with Cons.prems show ?case
    by (auto simp: get_put find_append split: option.splits)
qed simp

lemma ok_put_fold: "ok m \<Longrightarrow> ok (fold (\<lambda>x. put (key x) (val x)) xs m)"
  by (induction xs arbitrary: m) (auto intro: ok_put)

end

locale multi_store = keyed_store get put ok empty_map
  for get :: "'m \<Rightarrow> 'k \<Rightarrow> 'v list option"
    and put :: "'k \<Rightarrow> 'v list \<Rightarrow> 'm \<Rightarrow> 'm"
    and ok :: "'m \<Rightarrow> bool"
    and empty_map :: "'m"
begin

lemma ok_entry_push: "ok m \<Longrightarrow> ok (entry_push get put k v m)"
  by (simp add: entry_push_def ok_put)

lemma get_entry_push:
  "ok m \<Longrightarrow> get (entry_push get put k v m) k' =
    (if k' = k then Some ((case get m k of None \<Rightarrow> [] | Some vs \<Rightarrow> vs) @ [v]) else get m k')"
  by (simp add: entry_push_def get_put)

lemma ok_group: "ok m \<Longrightarrow> ok (fold (\<lambda>x. entry_push get put (key x) (val x)) xs m)"
  by (induction xs arbitrary: m) (auto intro: ok_entry_push)

lemma get_group_from:
  assumes "ok m"
  shows "get (fold (\<lambda>x. entry_push get put (key x) (val x)) xs m) k =
    (let vs = map val (filter (\<lambda>x. key x = k) xs)
     in case get m k of
          None \<Rightarrow> (if vs = [] then None else Some vs)
        | Some ws \<Rightarrow> Some (ws @ vs))"
  using assms
proof (induction xs arbitrary: m)
  case (Cons x xs)
  then show ?case
    by (auto simp: ok_entry_push get_entry_push Let_def split: option.splits)
qed (auto simp: Let_def split: option.splits)

text \<open>Grouping a list by a key stores, under each key, its values in the list's order.\<close>

lemma get_group:
  "get (fold (\<lambda>x. entry_push get put (key x) (val x)) xs empty_map) k =
    (let vs = map val (filter (\<lambda>x. key x = k) xs) in if vs = [] then None else Some vs)"
  by (simp add: get_group_from [OF ok_empty] get_empty Let_def)

end

interpretation hm: keyed_store map_of hm_put "\<lambda>_. True" "[]"
  by unfold_locales auto

interpretation hmm: multi_store map_of hm_put "\<lambda>_. True" "[]"
  by unfold_locales

interpretation bt: keyed_store map_of bt_put bt_ok "[]"
  by unfold_locales (auto simp: bt_ok_put, simp add: bt_ok_def)

interpretation btm: multi_store map_of bt_put bt_ok "[]"
  by unfold_locales

end
