(* ===== verification/Ir.thy ===== *)
theory Ir
  imports Prelude
begin

text \<open>
  The intermediate representation between the C++ analysis and the Dart emitter, of
  \<^verbatim>\<open>crates/server/src/ir/mod.rs\<close>: types, expressions, statements, declarations, each with the
  constructors and fields of the source in the source's order. Constructors carry a prefix, \<open>T\<close> for
  \<^verbatim>\<open>Type\<close>, \<open>Op\<close> for the operators, \<open>E\<close> for \<^verbatim>\<open>Expr\<close>, \<open>S\<close> for \<^verbatim>\<open>Stmt\<close>. Expressions, statements,
  parameters (a lambda has some) and switch cases are one mutual recursion. An \<^verbatim>\<open>f64\<close> literal is its
  64 bits: no pass here computes with it.
\<close>

section \<open>Types and operators\<close>

record origin =
  o_file :: string
  o_line :: u32
  o_column :: u32

record base_class =
  bc_usr :: string
  bc_name :: string

datatype ty =
  TInt | TBool | TDouble | TVoid
| TRecord string string
| TEnum string string
| TStr | TBytes
| TList ty | TSet ty | TMap ty ty | TPair ty ty | TListCursor ty | TByteCursor
| TCallback ty "ty list"
| TTuple "ty list"
| TNullable ty | TObject | TUnsupported string

datatype binary_op = OpAdd | OpSub | OpMul | OpDiv | OpMod | OpLt | OpLe | OpGt | OpGe | OpEq | OpNe | OpAnd | OpOr
  | OpShiftLeft | OpShiftRight | OpBitAnd | OpBitXor | OpBitOr
datatype unary_op = OpNeg | OpNot | OpPreIncrement | OpPreDecrement | OpPostIncrement | OpPostDecrement

section \<open>Expressions and statements\<close>

datatype expr =
  EIntLiteral i64 origin
| EDoubleLiteral "64 word" origin
| EBoolLiteral bool origin
| ENullLiteral origin
| EStringLiteral string origin
| ERef string ty origin
| EBinary binary_op expr expr ty origin
| EConditional expr expr expr ty origin
| EUnary unary_op expr ty origin
| ELambda "param list" "stmt list" ty origin
| EListLiteral "expr list" ty origin
| EMapLiteral "(expr \<times> expr) list" ty origin
| EIs expr ty origin
| EAs expr ty origin
| EAssign expr expr ty origin
| EConvert expr ty origin
| ECall "expr option" "base_class option" string string "expr list" ty origin
| EFieldAccess expr string ty origin
| ERecordConstruct string string "(string \<times> expr) list" origin
| ERecordCopy expr string string origin
| EConstructorCall string string nat "expr list" origin
| EThis ty origin
| EIndex expr expr ty origin
| EMapIndexOrInsert expr expr expr ty origin
| EStringByteLength expr origin
| EStringByteIndexOf expr expr "expr option" origin
| EStringByteAt expr expr ty origin
| ETuple "expr list" origin
| ENamedArg string expr
| EUnsupported string origin
| EUnsupportedTyped string ty origin
and stmt =
  SReturn "expr option" origin
| SVarDecl string ty "expr option" origin
| SAssign string expr origin
| SFieldAssign expr string expr origin
| SExprAssign expr expr origin
| SIf expr "stmt list" "stmt list" origin
| SWhile expr "stmt list" origin
| SDoWhile "stmt list" expr origin
| SFor "stmt option" "expr option" "stmt option" "stmt list" origin
| SForEach string ty bool bool expr "stmt list" origin
| SBreak origin
| SContinue origin
| SContinueLabel string origin
| SExprStmt expr origin
| SThrow expr origin
| STryCatch "stmt list" ty string "stmt list" origin
| STryFinally "stmt list" "stmt list" origin
| STupleAssign "expr list" expr origin
| SSwitch expr "switch_case list" "stmt list option" origin
| SUnsupported string origin
and param = Param (p_name: string) (p_ty: ty) (p_default: "expr option")
and switch_case = SwitchCase (sc_values: "expr list") (sc_body: "stmt list") (sc_label: "string option")


section \<open>Declarations\<close>

record ir_function =
  f_name :: string
  f_usr :: string
  f_params :: "param list"
  f_return_type :: ty
  f_body :: "stmt list"
  f_origin :: origin

record ir_field =
  fl_name :: string
  fl_ty :: ty

record ir_method =
  m_name :: string
  m_usr :: string
  m_params :: "param list"
  m_return_type :: ty
  m_body :: "stmt list option"
  m_is_static :: bool
  m_is_override :: bool
  m_origin :: origin

datatype constructor_init =
  CField string expr
| CBase string string "expr list"

record ir_constructor =
  c_usr :: string
  c_index :: nat
  c_params :: "param list"
  c_inits :: "constructor_init list"
  c_body :: "stmt list"
  c_origin :: origin

record ir_record =
  r_name :: string
  r_usr :: string
  r_namespace :: string
  r_fields :: "ir_field list"
  r_static_fields :: "ir_field list"
  r_constructors :: "ir_constructor list"
  r_methods :: "ir_method list"
  r_base_class :: "base_class option"
  r_mixins :: "base_class list"
  r_library_base :: "ty option"
  r_destructor :: "stmt list option"
  r_origin :: origin

record ir_enum =
  en_name :: string
  en_usr :: string
  en_variants :: "string list"
  en_values :: "i64 list"
  en_origin :: origin

record ir_module =
  md_functions :: "ir_function list"
  md_records :: "ir_record list"
  md_enums :: "ir_enum list"

section \<open>Accessors\<close>

text \<open>\<^verbatim>\<open>Expr::origin\<close>: every node has one, a named argument that of its value.\<close>

primrec expr_origin :: "expr \<Rightarrow> origin" where
  "expr_origin (EIntLiteral v og) = og"
| "expr_origin (EDoubleLiteral v og) = og"
| "expr_origin (EBoolLiteral v og) = og"
| "expr_origin (ENullLiteral og) = og"
| "expr_origin (EStringLiteral v og) = og"
| "expr_origin (ERef n t og) = og"
| "expr_origin (EBinary op l r t og) = og"
| "expr_origin (EConditional c a b t og) = og"
| "expr_origin (EUnary op e t og) = og"
| "expr_origin (ELambda ps b t og) = og"
| "expr_origin (EListLiteral xs t og) = og"
| "expr_origin (EMapLiteral es t og) = og"
| "expr_origin (EIs e t og) = og"
| "expr_origin (EAs e t og) = og"
| "expr_origin (EAssign tg v t og) = og"
| "expr_origin (EConvert e t og) = og"
| "expr_origin (ECall tg bq cu cn args t og) = og"
| "expr_origin (EFieldAccess tg f t og) = og"
| "expr_origin (ERecordConstruct u n fs og) = og"
| "expr_origin (ERecordCopy tg u n og) = og"
| "expr_origin (EConstructorCall u n i args og) = og"
| "expr_origin (EThis t og) = og"
| "expr_origin (EIndex tg i t og) = og"
| "expr_origin (EMapIndexOrInsert tg i d t og) = og"
| "expr_origin (EStringByteLength tg og) = og"
| "expr_origin (EStringByteIndexOf tg nd fr og) = og"
| "expr_origin (EStringByteAt tg i t og) = og"
| "expr_origin (ETuple vs og) = og"
| "expr_origin (EUnsupported r og) = og"
| "expr_origin (EUnsupportedTyped r t og) = og"
| "expr_origin (ENamedArg n v) = expr_origin v"

text \<open>\<^verbatim>\<open>Expr::is_assignable_lvalue\<close>: what Dart allows on the left of an assignment.\<close>

fun is_assignable_lvalue :: "expr \<Rightarrow> bool" where
  "is_assignable_lvalue (ERef _ _ _) = True"
| "is_assignable_lvalue (EFieldAccess _ _ _ _) = True"
| "is_assignable_lvalue (EIndex _ _ _ _) = True"
| "is_assignable_lvalue _ = False"

text \<open>\<^verbatim>\<open>Expr::ty\<close>: the static type a node carries, if it carries one.\<close>

primrec expr_ty :: "expr \<Rightarrow> ty option" where
  "expr_ty (ENamedArg n v) = expr_ty v"
| "expr_ty (ERef n t og) = Some t"
| "expr_ty (EBinary op l r t og) = Some t"
| "expr_ty (EConditional c a b t og) = Some t"
| "expr_ty (EUnary op e t og) = Some t"
| "expr_ty (ELambda ps b t og) = Some t"
| "expr_ty (EListLiteral xs t og) = Some t"
| "expr_ty (EMapLiteral es t og) = Some t"
| "expr_ty (EAssign tg v t og) = Some t"
| "expr_ty (EConvert e t og) = Some t"
| "expr_ty (EAs e t og) = Some t"
| "expr_ty (ECall tg bq cu cn args t og) = Some t"
| "expr_ty (EFieldAccess tg f t og) = Some t"
| "expr_ty (EThis t og) = Some t"
| "expr_ty (EIndex tg i t og) = Some t"
| "expr_ty (EMapIndexOrInsert tg i d t og) = Some t"
| "expr_ty (EStringByteAt tg i t og) = Some t"
| "expr_ty (EUnsupportedTyped r t og) = Some t"
| "expr_ty (EIntLiteral v og) = None"
| "expr_ty (EDoubleLiteral v og) = None"
| "expr_ty (EBoolLiteral v og) = None"
| "expr_ty (ENullLiteral og) = None"
| "expr_ty (EStringLiteral v og) = None"
| "expr_ty (ERecordConstruct u n fs og) = None"
| "expr_ty (ERecordCopy tg u n og) = None"
| "expr_ty (EConstructorCall u n i args og) = None"
| "expr_ty (EStringByteLength tg og) = None"
| "expr_ty (EStringByteIndexOf tg nd fr og) = None"
| "expr_ty (ETuple vs og) = None"
| "expr_ty (EIs e t og) = None"
| "expr_ty (EUnsupported r og) = None"

text \<open>\<^verbatim>\<open>Stmt::origin\<close>.\<close>

primrec stmt_origin :: "stmt \<Rightarrow> origin" where
  "stmt_origin (SReturn v og) = og"
| "stmt_origin (SVarDecl n t i og) = og"
| "stmt_origin (SAssign n v og) = og"
| "stmt_origin (SFieldAssign tg f v og) = og"
| "stmt_origin (SExprAssign tg v og) = og"
| "stmt_origin (SIf c a b og) = og"
| "stmt_origin (SWhile c b og) = og"
| "stmt_origin (SDoWhile b c og) = og"
| "stmt_origin (SFor i c n b og) = og"
| "stmt_origin (SForEach n t f w it b og) = og"
| "stmt_origin (SBreak og) = og"
| "stmt_origin (SContinue og) = og"
| "stmt_origin (SContinueLabel l og) = og"
| "stmt_origin (SExprStmt e og) = og"
| "stmt_origin (SThrow e og) = og"
| "stmt_origin (STryCatch b t v c og) = og"
| "stmt_origin (STryFinally b f og) = og"
| "stmt_origin (STupleAssign ts v og) = og"
| "stmt_origin (SSwitch s cs d og) = og"
| "stmt_origin (SUnsupported r og) = og"

end
