(* ===== verification/Ir_Nodes.thy ===== *)
theory Ir_Nodes
  imports Ir
begin

text \<open>
  The nodes of a piece of IR: every expression, statement and parameter nested anywhere in it, a
  node before its children. The specifications of the passes speak of all nodes of a body, where
  each pass of the source walks the body in its own recursion.
\<close>

datatype ir_node = NExpr expr | NStmt stmt | NParam param

definition opt_nodes :: "'a list option \<Rightarrow> 'a list" where
  "opt_nodes x = (case x of None \<Rightarrow> [] | Some xs \<Rightarrow> xs)"

lemma opt_nodes_simps [simp]: "opt_nodes None = []" "opt_nodes (Some xs) = xs"
  by (simp_all add: opt_nodes_def)

lemma map_opt_nodes: "map f (opt_nodes x) = opt_nodes (map_option (map f) x)"
  by (cases x) simp_all

lemma set_opt_nodes: "set (opt_nodes x) = (case x of None \<Rightarrow> {} | Some xs \<Rightarrow> set xs)"
  by (cases x) simp_all

primrec nodes_expr :: "expr \<Rightarrow> ir_node list"
  and nodes_stmt :: "stmt \<Rightarrow> ir_node list"
  and nodes_param :: "param \<Rightarrow> ir_node list"
  and nodes_case :: "switch_case \<Rightarrow> ir_node list" where
  "nodes_expr (EIntLiteral v og) = [NExpr (EIntLiteral v og)]"
| "nodes_expr (EDoubleLiteral v og) = [NExpr (EDoubleLiteral v og)]"
| "nodes_expr (EBoolLiteral v og) = [NExpr (EBoolLiteral v og)]"
| "nodes_expr (ENullLiteral og) = [NExpr (ENullLiteral og)]"
| "nodes_expr (EStringLiteral v og) = [NExpr (EStringLiteral v og)]"
| "nodes_expr (ERef n t og) = [NExpr (ERef n t og)]"
| "nodes_expr (EBinary op l r t og) = [NExpr (EBinary op l r t og)] @ nodes_expr l @ nodes_expr r"
| "nodes_expr (EConditional c a b t og) =
     [NExpr (EConditional c a b t og)] @ nodes_expr c @ nodes_expr a @ nodes_expr b"
| "nodes_expr (EUnary op e t og) = [NExpr (EUnary op e t og)] @ nodes_expr e"
| "nodes_expr (ELambda ps b t og) =
     [NExpr (ELambda ps b t og)] @ concat (map nodes_param ps) @ concat (map nodes_stmt b)"
| "nodes_expr (EListLiteral xs t og) = [NExpr (EListLiteral xs t og)] @
       concat (map nodes_expr xs)"
| "nodes_expr (EMapLiteral es t og) = [NExpr (EMapLiteral es t og)] @
       concat (map (\<lambda>(k, v). k @ v) (map (map_prod nodes_expr nodes_expr) es))"
| "nodes_expr (EIs e t og) = [NExpr (EIs e t og)] @ nodes_expr e"
| "nodes_expr (EAs e t og) = [NExpr (EAs e t og)] @ nodes_expr e"
| "nodes_expr (EAssign tg v t og) = [NExpr (EAssign tg v t og)] @ nodes_expr tg @ nodes_expr v"
| "nodes_expr (EConvert e t og) = [NExpr (EConvert e t og)] @ nodes_expr e"
| "nodes_expr (ECall tg bq cu cn args t og) =
     [NExpr (ECall tg bq cu cn args t og)] @ opt_nodes (map_option nodes_expr tg) @
       concat (map nodes_expr args)"
| "nodes_expr (EFieldAccess tg f t og) = [NExpr (EFieldAccess tg f t og)] @ nodes_expr tg"
| "nodes_expr (ERecordConstruct u n fs og) = [NExpr (ERecordConstruct u n fs og)] @
       concat (map snd (map (map_prod id nodes_expr) fs))"
| "nodes_expr (ERecordCopy tg u n og) = [NExpr (ERecordCopy tg u n og)] @ nodes_expr tg"
| "nodes_expr (EConstructorCall u n i args og) =
     [NExpr (EConstructorCall u n i args og)] @ concat (map nodes_expr args)"
| "nodes_expr (EThis t og) = [NExpr (EThis t og)]"
| "nodes_expr (EIndex tg i t og) = [NExpr (EIndex tg i t og)] @ nodes_expr tg @ nodes_expr i"
| "nodes_expr (EMapIndexOrInsert tg i d t og) =
     [NExpr (EMapIndexOrInsert tg i d t og)] @ nodes_expr tg @ nodes_expr i @ nodes_expr d"
| "nodes_expr (EStringByteLength tg og) = [NExpr (EStringByteLength tg og)] @ nodes_expr tg"
| "nodes_expr (EStringByteIndexOf tg nd fr og) =
     [NExpr (EStringByteIndexOf tg nd fr og)] @ nodes_expr tg @ nodes_expr nd @
       opt_nodes (map_option nodes_expr fr)"
| "nodes_expr (EStringByteAt tg i t og) =
     [NExpr (EStringByteAt tg i t og)] @ nodes_expr tg @ nodes_expr i"
| "nodes_expr (ETuple vs og) = [NExpr (ETuple vs og)] @ concat (map nodes_expr vs)"
| "nodes_expr (ENamedArg n v) = [NExpr (ENamedArg n v)] @ nodes_expr v"
| "nodes_expr (EUnsupported r og) = [NExpr (EUnsupported r og)]"
| "nodes_expr (EUnsupportedTyped r t og) = [NExpr (EUnsupportedTyped r t og)]"
| "nodes_stmt (SReturn v og) = [NStmt (SReturn v og)] @ opt_nodes (map_option nodes_expr v)"
| "nodes_stmt (SVarDecl n t i og) =
     [NStmt (SVarDecl n t i og)] @ opt_nodes (map_option nodes_expr i)"
| "nodes_stmt (SAssign n v og) = [NStmt (SAssign n v og)] @ nodes_expr v"
| "nodes_stmt (SFieldAssign tg f v og) =
     [NStmt (SFieldAssign tg f v og)] @ nodes_expr tg @ nodes_expr v"
| "nodes_stmt (SExprAssign tg v og) = [NStmt (SExprAssign tg v og)] @ nodes_expr tg @
       nodes_expr v"
| "nodes_stmt (SIf c a b og) =
     [NStmt (SIf c a b og)] @ nodes_expr c @ concat (map nodes_stmt a) @
       concat (map nodes_stmt b)"
| "nodes_stmt (SWhile c b og) = [NStmt (SWhile c b og)] @ nodes_expr c @
       concat (map nodes_stmt b)"
| "nodes_stmt (SDoWhile b c og) =
     [NStmt (SDoWhile b c og)] @ concat (map nodes_stmt b) @ nodes_expr c"
| "nodes_stmt (SFor i c n b og) =
     [NStmt (SFor i c n b og)] @ opt_nodes (map_option nodes_stmt i) @
       opt_nodes (map_option nodes_expr c) @ opt_nodes (map_option nodes_stmt n) @
       concat (map nodes_stmt b)"
| "nodes_stmt (SForEach n t f w it b og) =
     [NStmt (SForEach n t f w it b og)] @ nodes_expr it @ concat (map nodes_stmt b)"
| "nodes_stmt (SBreak og) = [NStmt (SBreak og)]"
| "nodes_stmt (SContinue og) = [NStmt (SContinue og)]"
| "nodes_stmt (SContinueLabel l og) = [NStmt (SContinueLabel l og)]"
| "nodes_stmt (SExprStmt e og) = [NStmt (SExprStmt e og)] @ nodes_expr e"
| "nodes_stmt (SThrow e og) = [NStmt (SThrow e og)] @ nodes_expr e"
| "nodes_stmt (STryCatch b t v c og) =
     [NStmt (STryCatch b t v c og)] @ concat (map nodes_stmt b) @ concat (map nodes_stmt c)"
| "nodes_stmt (STryFinally b f og) =
     [NStmt (STryFinally b f og)] @ concat (map nodes_stmt b) @ concat (map nodes_stmt f)"
| "nodes_stmt (STupleAssign ts v og) =
     [NStmt (STupleAssign ts v og)] @ concat (map nodes_expr ts) @ nodes_expr v"
| "nodes_stmt (SSwitch s cs d og) =
     [NStmt (SSwitch s cs d og)] @ nodes_expr s @ concat (map nodes_case cs) @
       concat (opt_nodes (map_option (map nodes_stmt) d))"
| "nodes_stmt (SUnsupported r og) = [NStmt (SUnsupported r og)]"
| "nodes_param (Param n t d) = [NParam (Param n t d)] @ opt_nodes (map_option nodes_expr d)"
| "nodes_case (SwitchCase vs b l) = concat (map nodes_expr vs) @ concat (map nodes_stmt b)"

definition nodes_stmts :: "stmt list \<Rightarrow> ir_node list" where
  "nodes_stmts ss = concat (map nodes_stmt ss)"

definition nodes_params :: "param list \<Rightarrow> ir_node list" where
  "nodes_params ps = concat (map nodes_param ps)"

primrec nodes_init :: "constructor_init \<Rightarrow> ir_node list" where
  "nodes_init (CField n v) = nodes_expr v"
| "nodes_init (CBase u n args) = concat (map nodes_expr args)"

lemma nodes_expr_self [simp]: "NExpr e \<in> set (nodes_expr e)"
  by (cases e) auto

lemma nodes_stmt_self [simp]: "NStmt s \<in> set (nodes_stmt s)"
  by (cases s) auto

lemma nodes_param_self [simp]: "NParam p \<in> set (nodes_param p)"
  by (cases p) auto

text \<open>
  The lowering gives no parameter of a lambda a default value (\<^verbatim>\<open>lower_lambda_expr\<close> in
  \<^verbatim>\<open>lower/cpp.rs\<close> always stores \<^verbatim>\<open>None\<close>), and several passes rely on it by not walking a lambda's
  parameters. \<open>plain_node\<close> is that fact about one node.
\<close>

definition no_default :: "param \<Rightarrow> bool" where
  "no_default p \<longleftrightarrow> p_default p = None"

fun plain_node :: "ir_node \<Rightarrow> bool" where
  "plain_node (NExpr (ELambda ps b t og)) = list_all no_default ps"
| "plain_node _ = True"

abbreviation plain :: "ir_node list \<Rightarrow> bool" where
  "plain ns \<equiv> list_all plain_node ns"

lemma nodes_no_default: "no_default p \<Longrightarrow> nodes_param p = [NParam p]"
  by (cases p) (simp add: no_default_def)

lemma nodes_params_no_default:
  "list_all no_default ps \<Longrightarrow> concat (map nodes_param ps) = map NParam ps"
  by (induction ps) (auto simp: nodes_no_default)

lemma plain_concat_mapD:
  "list_all P (concat (map f xs)) \<Longrightarrow> x \<in> set xs \<Longrightarrow> list_all P (f x)"
  by (auto simp: list_all_iff)

lemma plain_opt_nodesD:
  "list_all P (opt_nodes (map_option f y)) \<Longrightarrow> y = Some x \<Longrightarrow> list_all P (f x)"
  by simp

section \<open>Passes that keep the shape of a body\<close>

lemma concat_map_hom:
  assumes "\<And>x. x \<in> set xs \<Longrightarrow> list_all P (h x) \<Longrightarrow> h (g x) = map r (h x)"
    and "list_all P (concat (map h xs))"
  shows "concat (map h (map g xs)) = map r (concat (map h xs))"
  using assms by (induction xs) auto

lemma concat_map_hom_comp:
  assumes "\<And>x. x \<in> set xs \<Longrightarrow> list_all P (h x) \<Longrightarrow> h (g x) = map r (h x)"
    and "list_all P (concat (map h xs))"
  shows "concat (map (h \<circ> g) xs) = map r (concat (map h xs))"
  using concat_map_hom [OF assms] by simp

lemma opt_nodes_hom:
  assumes "\<And>x. y = Some x \<Longrightarrow> list_all P (h x) \<Longrightarrow> h (g x) = map r (h x)"
    and "list_all P (opt_nodes (map_option h y))"
  shows "opt_nodes (map_option (h \<circ> g) y) = map r (opt_nodes (map_option h y))"
  using assms by (cases y) auto

lemma concat_pairs_hom:
  assumes "\<And>p x. p \<in> set es \<Longrightarrow> x \<in> Basic_BNFs.fsts p
      \<Longrightarrow> list_all P (h x) \<Longrightarrow> h (g x) = map r (h x)"
    and "\<And>p x. p \<in> set es \<Longrightarrow> x \<in> Basic_BNFs.snds p
      \<Longrightarrow> list_all P (h x) \<Longrightarrow> h (g x) = map r (h x)"
    and "list_all P (concat (map ((\<lambda>(x, y). x @ y) \<circ> map_prod h h) es))"
  shows "concat (map ((\<lambda>(x, y). x @ y) \<circ> (map_prod h h \<circ> map_prod g g)) es) =
    map r (concat (map ((\<lambda>(x, y). x @ y) \<circ> map_prod h h) es))"
  using assms
proof (induction es)
  case (Cons p es)
  obtain a b where p: "p = (a, b)" by (cases p)
  have "h (g a) = map r (h a)" "h (g b) = map r (h b)"
    using Cons.prems(1) [of p a] Cons.prems(2) [of p b] Cons.prems(3)
    by (simp_all add: p fsts.simps snds.simps)
  moreover have "concat (map ((\<lambda>(x, y). x @ y) \<circ> (map_prod h h \<circ> map_prod g g)) es) =
    map r (concat (map ((\<lambda>(x, y). x @ y) \<circ> map_prod h h) es))"
  proof (rule Cons.IH)
    fix q x
    show "q \<in> set es \<Longrightarrow> x \<in> Basic_BNFs.fsts q \<Longrightarrow> list_all P (h x) \<Longrightarrow> h (g x) = map r (h x)"
      by (rule Cons.prems(1) [of q]) simp_all
    show "q \<in> set es \<Longrightarrow> x \<in> Basic_BNFs.snds q \<Longrightarrow> list_all P (h x) \<Longrightarrow> h (g x) = map r (h x)"
      by (rule Cons.prems(2) [of q]) simp_all
  qed (use Cons.prems(3) in simp)
  ultimately show ?case by (simp add: p comp_def)
qed simp

lemma opt_concat_hom:
  assumes "\<And>ys x. y = Some ys \<Longrightarrow> x \<in> set ys
      \<Longrightarrow> list_all P (h x) \<Longrightarrow> h (g x) = map r (h x)"
    and "list_all P (concat (opt_nodes (map_option (map h) y)))"
  shows "concat (opt_nodes (map_option (map (h \<circ> g)) y)) =
    map r (concat (opt_nodes (map_option (map h) y)))"
  using assms by (cases y) (auto simp: concat_map_hom_comp [where P = P])

lemma concat_named_hom:
  assumes "\<And>p x. p \<in> set fs \<Longrightarrow> x \<in> Basic_BNFs.snds p
      \<Longrightarrow> list_all P (h x) \<Longrightarrow> h (g x) = map r (h x)"
    and "list_all P (concat (map (snd \<circ> map_prod id h) fs))"
  shows "concat (map (snd \<circ> (map_prod id h \<circ> map_prod id g)) fs) =
    map r (concat (map (snd \<circ> map_prod id h) fs))"
  using assms by (induction fs) (auto simp: snds.simps)

lemmas node_homs = concat_map_hom_comp [where P = plain_node] opt_nodes_hom [where P = plain_node]
  concat_pairs_hom [where P = plain_node] opt_concat_hom [where P = plain_node]
  concat_named_hom [where P = plain_node]

text \<open>
  The contract of a pass that rewrites a body in place and keeps its shape: the nodes of the
  result are the rewritten nodes, one for one and in order. What follows for lists of statements,
  parameters and constructor initialisers is proved once.
\<close>

locale body_pass =
  fixes pass_expr :: "expr \<Rightarrow> expr"
    and pass_stmt :: "stmt \<Rightarrow> stmt"
    and pass_param :: "param \<Rightarrow> param"
    and pass_node :: "ir_node \<Rightarrow> ir_node"
  assumes expr_nodes:
      "plain (nodes_expr e) \<Longrightarrow> nodes_expr (pass_expr e) = map pass_node (nodes_expr e)"
    and stmt_nodes:
      "plain (nodes_stmt s) \<Longrightarrow> nodes_stmt (pass_stmt s) = map pass_node (nodes_stmt s)"
    and param_nodes:
      "plain (nodes_param p) \<Longrightarrow> nodes_param (pass_param p) = map pass_node (nodes_param p)"
begin

lemma stmts_nodes:
  "plain (nodes_stmts ss) \<Longrightarrow> nodes_stmts (map pass_stmt ss) = map pass_node (nodes_stmts ss)"
  by (induction ss) (auto simp: nodes_stmts_def stmt_nodes)

lemma params_nodes:
  "plain (nodes_params ps) \<Longrightarrow> nodes_params (map pass_param ps) = map pass_node (nodes_params ps)"
  by (induction ps) (auto simp: nodes_params_def param_nodes)

lemma exprs_nodes:
  "plain (concat (map nodes_expr es)) \<Longrightarrow>
    concat (map nodes_expr (map pass_expr es)) = map pass_node (concat (map nodes_expr es))"
  by (induction es) (auto simp: expr_nodes)

end

section \<open>Modules\<close>

text \<open>The nodes of the bodies of functions, methods, constructors and destructors.\<close>

definition function_nodes :: "ir_function \<Rightarrow> ir_node list" where
  "function_nodes f = nodes_params (f_params f) @ nodes_stmts (f_body f)"

definition method_nodes :: "ir_method \<Rightarrow> ir_node list" where
  "method_nodes m = nodes_params (m_params m) @ nodes_stmts (opt_nodes (m_body m))"

definition constructor_nodes :: "ir_constructor \<Rightarrow> ir_node list" where
  "constructor_nodes c =
     nodes_params (c_params c) @ concat (map nodes_init (c_inits c)) @ nodes_stmts (c_body c)"

definition destructor_nodes :: "ir_record \<Rightarrow> ir_node list" where
  "destructor_nodes r = nodes_stmts (opt_nodes (r_destructor r))"

definition record_nodes :: "ir_record \<Rightarrow> ir_node list" where
  "record_nodes r =
     concat (map method_nodes (r_methods r)) @ concat (map constructor_nodes (r_constructors r))"

definition module_nodes :: "ir_function list \<Rightarrow> ir_record list \<Rightarrow> ir_node list" where
  "module_nodes fs rs = concat (map function_nodes fs) @ concat (map record_nodes rs)"

end
