(* ===== verification/Renames.thy ===== *)
theory Renames
  imports Ir_Nodes
begin

text \<open>
  The renaming passes that are keyed by a declaration's USR, of
  \<^verbatim>\<open>crates/server/src/function_catalog.rs\<close>: \<open>rename_calls_in_expr\<close> and \<open>rename_calls_in_stmt\<close>
  rewrite the call sites of a body, \<open>apply_renames\<close> every declaration and every body it walks, and
  \<open>apply_reserved_word_renames\<close> is its client for names Dart reserves (with \<open>dart_safe_identifier\<close>
  of \<^verbatim>\<open>lower/cpp.rs\<close>). The lemmas describe a renamed body by its nodes: a pass changes the callee
  names of its call sites and nothing else, so a call and its declaration stay in agreement.
\<close>

section \<open>Call sites\<close>

type_synonym renames = "(string \<times> string) list"

primrec rename_calls_in_expr :: "renames \<Rightarrow> expr \<Rightarrow> expr"
  and rename_calls_in_stmt :: "renames \<Rightarrow> stmt \<Rightarrow> stmt"
  and rename_calls_in_param :: "renames \<Rightarrow> param \<Rightarrow> param"
  and rename_calls_in_case :: "renames \<Rightarrow> switch_case \<Rightarrow> switch_case" where
  "rename_calls_in_expr rn (EIntLiteral v og) = EIntLiteral v og"
| "rename_calls_in_expr rn (EDoubleLiteral v og) = EDoubleLiteral v og"
| "rename_calls_in_expr rn (EBoolLiteral v og) = EBoolLiteral v og"
| "rename_calls_in_expr rn (ENullLiteral og) = ENullLiteral og"
| "rename_calls_in_expr rn (EStringLiteral v og) = EStringLiteral v og"
| "rename_calls_in_expr rn (ERef n t og) = ERef n t og"
| "rename_calls_in_expr rn (EBinary op l r t og) =
     EBinary op (rename_calls_in_expr rn l) (rename_calls_in_expr rn r) t og"
| "rename_calls_in_expr rn (EConditional c a b t og) =
     EConditional (rename_calls_in_expr rn c) (rename_calls_in_expr rn a)
       (rename_calls_in_expr rn b) t og"
| "rename_calls_in_expr rn (EUnary op e t og) = EUnary op (rename_calls_in_expr rn e) t og"
| "rename_calls_in_expr rn (ELambda ps b t og) = ELambda ps (map (rename_calls_in_stmt rn) b) t og"
| "rename_calls_in_expr rn (EListLiteral xs t og) =
     EListLiteral (map (rename_calls_in_expr rn) xs) t og"
| "rename_calls_in_expr rn (EMapLiteral es t og) =
     EMapLiteral (map (map_prod (rename_calls_in_expr rn) (rename_calls_in_expr rn)) es) t og"
| "rename_calls_in_expr rn (EIs e t og) = EIs (rename_calls_in_expr rn e) t og"
| "rename_calls_in_expr rn (EAs e t og) = EAs (rename_calls_in_expr rn e) t og"
| "rename_calls_in_expr rn (EAssign tg v t og) =
     EAssign (rename_calls_in_expr rn tg) (rename_calls_in_expr rn v) t og"
| "rename_calls_in_expr rn (EConvert e t og) = EConvert (rename_calls_in_expr rn e) t og"
| "rename_calls_in_expr rn (ECall tg bq cu cn args t og) =
     ECall (map_option (rename_calls_in_expr rn) tg) bq cu
       (case map_of rn cu of Some new_name \<Rightarrow> new_name | None \<Rightarrow> cn)
       (map (rename_calls_in_expr rn) args) t og"
| "rename_calls_in_expr rn (EFieldAccess tg f t og) =
     EFieldAccess (rename_calls_in_expr rn tg) f t og"
| "rename_calls_in_expr rn (ERecordConstruct u n fs og) =
     ERecordConstruct u n (map (map_prod id (rename_calls_in_expr rn)) fs) og"
| "rename_calls_in_expr rn (ERecordCopy tg u n og) =
     ERecordCopy (rename_calls_in_expr rn tg) u n og"
| "rename_calls_in_expr rn (EConstructorCall u n i args og) =
     EConstructorCall u n i (map (rename_calls_in_expr rn) args) og"
| "rename_calls_in_expr rn (EThis t og) = EThis t og"
| "rename_calls_in_expr rn (EIndex tg i t og) =
     EIndex (rename_calls_in_expr rn tg) (rename_calls_in_expr rn i) t og"
| "rename_calls_in_expr rn (EMapIndexOrInsert tg i d t og) =
     EMapIndexOrInsert (rename_calls_in_expr rn tg) (rename_calls_in_expr rn i)
       (rename_calls_in_expr rn d) t og"
| "rename_calls_in_expr rn (EStringByteLength tg og) =
     EStringByteLength (rename_calls_in_expr rn tg) og"
| "rename_calls_in_expr rn (EStringByteIndexOf tg nd fr og) =
     EStringByteIndexOf (rename_calls_in_expr rn tg) (rename_calls_in_expr rn nd)
       (map_option (rename_calls_in_expr rn) fr) og"
| "rename_calls_in_expr rn (EStringByteAt tg i t og) =
     EStringByteAt (rename_calls_in_expr rn tg) (rename_calls_in_expr rn i) t og"
| "rename_calls_in_expr rn (ETuple vs og) = ETuple (map (rename_calls_in_expr rn) vs) og"
| "rename_calls_in_expr rn (ENamedArg n v) = ENamedArg n (rename_calls_in_expr rn v)"
| "rename_calls_in_expr rn (EUnsupported r og) = EUnsupported r og"
| "rename_calls_in_expr rn (EUnsupportedTyped r t og) = EUnsupportedTyped r t og"
| "rename_calls_in_stmt rn (SReturn v og) = SReturn (map_option (rename_calls_in_expr rn) v) og"
| "rename_calls_in_stmt rn (SVarDecl n t i og) =
     SVarDecl n t (map_option (rename_calls_in_expr rn) i) og"
| "rename_calls_in_stmt rn (SAssign n v og) = SAssign n (rename_calls_in_expr rn v) og"
| "rename_calls_in_stmt rn (SFieldAssign tg f v og) =
     SFieldAssign (rename_calls_in_expr rn tg) f (rename_calls_in_expr rn v) og"
| "rename_calls_in_stmt rn (SExprAssign tg v og) =
     SExprAssign (rename_calls_in_expr rn tg) (rename_calls_in_expr rn v) og"
| "rename_calls_in_stmt rn (SIf c a b og) =
     SIf (rename_calls_in_expr rn c) (map (rename_calls_in_stmt rn) a)
       (map (rename_calls_in_stmt rn) b) og"
| "rename_calls_in_stmt rn (SWhile c b og) =
     SWhile (rename_calls_in_expr rn c) (map (rename_calls_in_stmt rn) b) og"
| "rename_calls_in_stmt rn (SDoWhile b c og) =
     SDoWhile (map (rename_calls_in_stmt rn) b) (rename_calls_in_expr rn c) og"
| "rename_calls_in_stmt rn (SFor i c n b og) =
     SFor (map_option (rename_calls_in_stmt rn) i) (map_option (rename_calls_in_expr rn) c)
       (map_option (rename_calls_in_stmt rn) n) (map (rename_calls_in_stmt rn) b) og"
| "rename_calls_in_stmt rn (SForEach n t f w it b og) =
     SForEach n t f w (rename_calls_in_expr rn it) (map (rename_calls_in_stmt rn) b) og"
| "rename_calls_in_stmt rn (SBreak og) = SBreak og"
| "rename_calls_in_stmt rn (SContinue og) = SContinue og"
| "rename_calls_in_stmt rn (SContinueLabel l og) = SContinueLabel l og"
| "rename_calls_in_stmt rn (SExprStmt e og) = SExprStmt (rename_calls_in_expr rn e) og"
| "rename_calls_in_stmt rn (SThrow e og) = SThrow (rename_calls_in_expr rn e) og"
| "rename_calls_in_stmt rn (STryCatch b t v c og) =
     STryCatch (map (rename_calls_in_stmt rn) b) t v (map (rename_calls_in_stmt rn) c) og"
| "rename_calls_in_stmt rn (STryFinally b f og) =
     STryFinally (map (rename_calls_in_stmt rn) b) (map (rename_calls_in_stmt rn) f) og"
| "rename_calls_in_stmt rn (STupleAssign ts v og) =
     STupleAssign (map (rename_calls_in_expr rn) ts) (rename_calls_in_expr rn v) og"
| "rename_calls_in_stmt rn (SSwitch s cs d og) =
     SSwitch (rename_calls_in_expr rn s) (map (rename_calls_in_case rn) cs)
       (map_option (map (rename_calls_in_stmt rn)) d) og"
| "rename_calls_in_stmt rn (SUnsupported r og) = SUnsupported r og"
| "rename_calls_in_param rn (Param n t d) = Param n t (map_option (rename_calls_in_expr rn) d)"
| "rename_calls_in_case rn (SwitchCase vs b l) =
     SwitchCase (map (rename_calls_in_expr rn) vs) (map (rename_calls_in_stmt rn) b) l"


abbreviation rename_calls_in_stmts :: "renames \<Rightarrow> stmt list \<Rightarrow> stmt list" where
  "rename_calls_in_stmts rn \<equiv> map (rename_calls_in_stmt rn)"

definition rename_calls_in_params :: "renames \<Rightarrow> param list \<Rightarrow> param list" where
  "rename_calls_in_params rn ps = map (rename_calls_in_param rn) ps"

section \<open>Declarations\<close>

text \<open>The new name of a declaration: \<^verbatim>\<open>renames.get(&usr)\<close>, else the name it has.\<close>

definition renamed :: "renames \<Rightarrow> string \<Rightarrow> string \<Rightarrow> string" where
  "renamed rn u n = (case map_of rn u of Some new_name \<Rightarrow> new_name | None \<Rightarrow> n)"

definition rename_function :: "renames \<Rightarrow> ir_function \<Rightarrow> ir_function" where
  "rename_function rn f =
     f\<lparr>f_name := renamed rn (f_usr f) (f_name f),
       f_params := rename_calls_in_params rn (f_params f),
       f_body := rename_calls_in_stmts rn (f_body f)\<rparr>"

definition rename_method :: "renames \<Rightarrow> ir_method \<Rightarrow> ir_method" where
  "rename_method rn m =
     m\<lparr>m_name := renamed rn (m_usr m) (m_name m),
       m_params := rename_calls_in_params rn (m_params m),
       m_body := map_option (rename_calls_in_stmts rn) (m_body m)\<rparr>"

primrec rename_init :: "renames \<Rightarrow> constructor_init \<Rightarrow> constructor_init" where
  "rename_init rn (CField n v) = CField n (rename_calls_in_expr rn v)"
| "rename_init rn (CBase u n args) = CBase u n (map (rename_calls_in_expr rn) args)"

definition rename_constructor :: "renames \<Rightarrow> ir_constructor \<Rightarrow> ir_constructor" where
  "rename_constructor rn c =
     c\<lparr>c_params := rename_calls_in_params rn (c_params c),
       c_inits := map (rename_init rn) (c_inits c),
       c_body := rename_calls_in_stmts rn (c_body c)\<rparr>"

definition rename_record :: "renames \<Rightarrow> ir_record \<Rightarrow> ir_record" where
  "rename_record rn r =
     r\<lparr>r_methods := map (rename_method rn) (r_methods r),
       r_constructors := map (rename_constructor rn) (r_constructors r)\<rparr>"

definition apply_renames ::
  "ir_function list \<Rightarrow> ir_record list \<Rightarrow> renames \<Rightarrow> ir_function list \<times> ir_record list" where
  "apply_renames fs rs rn =
     (if rn = [] then (fs, rs) else (map (rename_function rn) fs, map (rename_record rn) rs))"

section \<open>Reserved words\<close>

definition RESERVED_WORDS :: "string list" where
  "RESERVED_WORDS =
    [''assert'', ''break'', ''case'', ''catch'', ''class'', ''const'', ''continue'', ''default'',
     ''do'', ''dynamic'', ''else'', ''enum'', ''extends'', ''false'', ''final'', ''finally'',
     ''for'', ''if'', ''in'', ''is'', ''new'', ''null'', ''rethrow'', ''return'', ''super'',
     ''switch'', ''this'', ''throw'', ''true'', ''try'', ''var'', ''void'', ''while'', ''with'']"

definition dart_safe_identifier :: "string \<Rightarrow> string" where
  "dart_safe_identifier name = (if name \<in> set RESERVED_WORDS then name @ ''_'' else name)"

text \<open>The map \<^verbatim>\<open>apply_reserved_word_renames\<close> collects: functions first, then every method.\<close>

definition put_unsafe :: "string \<times> string \<Rightarrow> renames \<Rightarrow> renames" where
  "put_unsafe d rn =
     (let safe_name = dart_safe_identifier (snd d)
      in if safe_name \<noteq> snd d then hm_put (fst d) safe_name rn else rn)"

definition function_decls :: "ir_function list \<Rightarrow> (string \<times> string) list" where
  "function_decls fs = map (\<lambda>f. (f_usr f, f_name f)) fs"

definition method_decls :: "ir_record list \<Rightarrow> (string \<times> string) list" where
  "method_decls rs = concat (map (\<lambda>r. map (\<lambda>m. (m_usr m, m_name m)) (r_methods r)) rs)"

definition apply_reserved_word_renames ::
  "ir_function list \<Rightarrow> ir_record list \<Rightarrow> ir_function list \<times> ir_record list" where
  "apply_reserved_word_renames fs rs =
     apply_renames fs rs (fold put_unsafe (method_decls rs) (fold put_unsafe (function_decls fs) []))"

section \<open>What a renamed body is\<close>

primrec rename_node :: "renames \<Rightarrow> ir_node \<Rightarrow> ir_node" where
  "rename_node rn (NExpr e) = NExpr (rename_calls_in_expr rn e)"
| "rename_node rn (NStmt s) = NStmt (rename_calls_in_stmt rn s)"
| "rename_node rn (NParam p) = NParam (rename_calls_in_param rn p)"

lemma rename_param_no_default: "no_default p \<Longrightarrow> rename_calls_in_param rn p = p"
  by (cases p) (simp add: no_default_def)

lemma rename_params_no_default:
  "list_all no_default ps \<Longrightarrow> map (rename_node rn) (map NParam ps) = map NParam ps"
  by (induction ps) (auto simp: rename_param_no_default)

lemma nodes_rename_raw:
  "plain (nodes_expr e) \<Longrightarrow>
    nodes_expr (rename_calls_in_expr rn e) = map (rename_node rn) (nodes_expr e)"
  "plain (nodes_stmt s) \<Longrightarrow>
    nodes_stmt (rename_calls_in_stmt rn s) = map (rename_node rn) (nodes_stmt s)"
  "plain (nodes_param p) \<Longrightarrow>
    nodes_param (rename_calls_in_param rn p) = map (rename_node rn) (nodes_param p)"
  "plain (nodes_case c) \<Longrightarrow>
    nodes_case (rename_calls_in_case rn c) = map (rename_node rn) (nodes_case c)"
proof (induction e and s and p and c)
  case (ELambda ps b t og)
  then show ?case
    by (simp add: nodes_params_no_default rename_params_no_default [unfolded map_map] node_homs [where r = "rename_node rn"] option.map_comp
        del: map_eq_conv)
qed (simp_all add: node_homs [where r = "rename_node rn"] option.map_comp)

interpretation rename_calls: body_pass "rename_calls_in_expr rn" "rename_calls_in_stmt rn"
  "rename_calls_in_param rn" "rename_node rn" for rn
  by unfold_locales (simp_all only: nodes_rename_raw)

lemma init_rename:
  "plain (nodes_init i) \<Longrightarrow> nodes_init (rename_init rn i) = map (rename_node rn) (nodes_init i)"
  by (cases i) (simp_all add: nodes_rename_raw rename_calls.exprs_nodes del: map_map)

lemma inits_rename:
  "plain (concat (map nodes_init xs)) \<Longrightarrow>
    concat (map nodes_init (map (rename_init rn) xs)) = map (rename_node rn) (concat (map nodes_init xs))"
  by (induction xs) (auto simp: init_rename)

lemma stmts_opt_rename:
  "plain (nodes_stmts (opt_nodes b)) \<Longrightarrow>
    nodes_stmts (opt_nodes (map_option (rename_calls_in_stmts rn) b)) =
    map (rename_node rn) (nodes_stmts (opt_nodes b))"
  by (cases b) (simp_all add: rename_calls.stmts_nodes nodes_stmts_def [of "[]"])

lemmas rename_parts = rename_calls.stmts_nodes rename_calls.params_nodes inits_rename
  stmts_opt_rename rename_calls_in_params_def

lemma function_rename:
  "plain (function_nodes f) \<Longrightarrow>
    function_nodes (rename_function rn f) = map (rename_node rn) (function_nodes f)"
  by (simp add: function_nodes_def rename_function_def rename_parts)

lemma method_rename:
  "plain (method_nodes m) \<Longrightarrow>
    method_nodes (rename_method rn m) = map (rename_node rn) (method_nodes m)"
  by (simp add: method_nodes_def rename_method_def rename_parts)

lemma constructor_rename:
  "plain (constructor_nodes c) \<Longrightarrow>
    constructor_nodes (rename_constructor rn c) = map (rename_node rn) (constructor_nodes c)"
  by (simp add: constructor_nodes_def rename_constructor_def rename_parts del: map_map)

lemma record_rename:
  assumes "plain (record_nodes r)"
  shows "record_nodes (rename_record rn r) = map (rename_node rn) (record_nodes r)"
proof -
  have "concat (map method_nodes (map (rename_method rn) ms)) =
      map (rename_node rn) (concat (map method_nodes ms))"
    if "plain (concat (map method_nodes ms))" for ms
    using that by (induction ms) (auto simp: method_rename)
  moreover have "concat (map constructor_nodes (map (rename_constructor rn) cs)) =
      map (rename_node rn) (concat (map constructor_nodes cs))"
    if "plain (concat (map constructor_nodes cs))" for cs
    using that by (induction cs) (auto simp: constructor_rename)
  ultimately show ?thesis
    using assms by (simp add: record_nodes_def rename_record_def del: map_map)
qed

lemma module_rename:
  assumes "plain (module_nodes fs rs)"
  shows "module_nodes (map (rename_function rn) fs) (map (rename_record rn) rs) =
    map (rename_node rn) (module_nodes fs rs)"
proof -
  have "concat (map function_nodes (map (rename_function rn) fs)) =
      map (rename_node rn) (concat (map function_nodes fs))"
    if "plain (concat (map function_nodes fs))" for fs
    using that by (induction fs) (auto simp: function_rename)
  moreover have "concat (map record_nodes (map (rename_record rn) rs)) =
      map (rename_node rn) (concat (map record_nodes rs))"
    if "plain (concat (map record_nodes rs))" for rs
    using that by (induction rs) (auto simp: record_rename)
  ultimately show ?thesis
    using assms by (simp add: module_nodes_def del: map_map)
qed

section \<open>Declarations and calls of a module\<close>

text \<open>What a module declares, by USR, and what its bodies call.\<close>

definition module_decls :: "ir_function list \<times> ir_record list \<Rightarrow> (string \<times> string) list" where
  "module_decls m = function_decls (fst m) @ method_decls (snd m)"

fun call_site :: "ir_node \<Rightarrow> (string \<times> string) option" where
  "call_site (NExpr (ECall tg bq cu cn args t og)) = Some (cu, cn)"
| "call_site _ = None"

definition call_sites :: "ir_node list \<Rightarrow> (string \<times> string) list" where
  "call_sites ns = filter_map call_site ns"

definition module_calls :: "ir_function list \<times> ir_record list \<Rightarrow> (string \<times> string) list" where
  "module_calls m = call_sites (module_nodes (fst m) (snd m))"

text \<open>Every call site spells its callee as some declaration of the callee's USR does.\<close>

definition names_agree :: "(string \<times> string) list \<Rightarrow> (string \<times> string) list \<Rightarrow> bool" where
  "names_agree decls calls \<longleftrightarrow>
     list_all (\<lambda>(u, n). list_all (\<lambda>(u', n'). u' = u \<longrightarrow> n' = n) decls) calls"

definition rename_pair :: "renames \<Rightarrow> string \<times> string \<Rightarrow> string \<times> string" where
  "rename_pair rn d = (fst d, renamed rn (fst d) (snd d))"

lemma call_site_rename: "call_site (rename_node rn nd) = map_option (rename_pair rn) (call_site nd)"
proof (cases nd)
  case (NExpr e)
  then show ?thesis by (cases e) (simp_all add: rename_pair_def renamed_def)
qed simp_all

lemma call_sites_rename:
  "call_sites (map (rename_node rn) ns) = map (rename_pair rn) (call_sites ns)"
  by (induction ns) (auto simp: call_sites_def call_site_rename split: option.splits)

lemma function_decls_rename:
  "function_decls (map (rename_function rn) fs) = map (rename_pair rn) (function_decls fs)"
  by (simp add: function_decls_def rename_function_def rename_pair_def)

lemma method_decls_rename:
  "method_decls (map (rename_record rn) rs) = map (rename_pair rn) (method_decls rs)"
  by (induction rs)
    (simp_all add: method_decls_def rename_record_def rename_method_def rename_pair_def)

lemma rename_pair_Nil [simp]: "rename_pair [] = id"
  by (simp add: rename_pair_def renamed_def fun_eq_iff)

text \<open>An empty map renames nothing, so the early return changes no result.\<close>

lemma rename_calls_Nil:
  "rename_calls_in_expr [] e = e"
  "rename_calls_in_stmt [] s = s"
  "rename_calls_in_param [] p = p"
  "rename_calls_in_case [] c = c"
  by (induction e and s and p and c)
    (auto simp: map_option_idI map_idI fsts.simps snds.simps
      intro!: map_option_idI map_idI map_prod_idI)

lemma rename_node_Nil [simp]: "rename_node [] = id"
proof
  show "rename_node [] nd = id nd" for nd by (cases nd) (simp_all add: rename_calls_Nil)
qed

lemma module_nodes_apply_renames:
  "plain (module_nodes fs rs) \<Longrightarrow>
    module_nodes (fst (apply_renames fs rs rn)) (snd (apply_renames fs rs rn)) =
    map (rename_node rn) (module_nodes fs rs)"
  by (simp add: apply_renames_def module_rename)

lemma module_decls_apply_renames:
  "module_decls (apply_renames fs rs rn) = map (rename_pair rn) (module_decls (fs, rs))"
  by (simp add: module_decls_def apply_renames_def function_decls_rename method_decls_rename
      cong: map_cong)

lemma module_calls_apply_renames:
  "plain (module_nodes fs rs) \<Longrightarrow>
    module_calls (apply_renames fs rs rn) = map (rename_pair rn) (module_calls (fs, rs))"
  by (simp add: module_calls_def module_nodes_apply_renames call_sites_rename)

lemma names_agree_rename:
  "names_agree decls calls \<Longrightarrow>
    names_agree (map (rename_pair rn) decls) (map (rename_pair rn) calls)"
  by (fastforce simp: names_agree_def list_all_iff rename_pair_def renamed_def)

subsection \<open>Reserved words\<close>

definition reserved :: "string \<Rightarrow> bool" where
  "reserved n \<longleftrightarrow> n \<in> set RESERVED_WORDS"

lemma reserved_last: "reserved n \<Longrightarrow> last n \<noteq> CHR ''_''"
proof -
  have "list_all (\<lambda>w. last w \<noteq> CHR ''_'') RESERVED_WORDS"
    by code_simp
  then show "reserved n \<Longrightarrow> last n \<noteq> CHR ''_''"
    by (simp add: reserved_def list_all_iff)
qed

lemma dart_safe_not_reserved: "\<not> reserved (dart_safe_identifier n)"
  using reserved_last [of "n @ ''_''"] by (auto simp: dart_safe_identifier_def reserved_def)

lemma dart_safe_id_iff: "dart_safe_identifier n = n \<longleftrightarrow> \<not> reserved n"
  by (simp add: dart_safe_identifier_def reserved_def)

lemma dart_safe_inj_safe:
  "dart_safe_identifier a = dart_safe_identifier b \<Longrightarrow>
    reserved a = reserved b \<Longrightarrow> a = b"
  by (auto simp: dart_safe_identifier_def reserved_def split: if_splits)

lemma fold_put_unsafe:
  "fold put_unsafe ds rn =
    fold (\<lambda>d. hm_put (fst d) (dart_safe_identifier (snd d)))
      (filter (\<lambda>d. reserved (snd d)) ds) rn"
  by (induction ds arbitrary: rn) (auto simp: put_unsafe_def dart_safe_id_iff)

lemma reserved_renames:
  "map_of (fold put_unsafe es (fold put_unsafe ds [])) u =
    map_option (\<lambda>d. dart_safe_identifier (snd d))
      (List.find (\<lambda>d. fst d = u) (rev (filter (\<lambda>d. reserved (snd d)) (ds @ es))))"
  by (simp add: fold_put_unsafe hm.get_put_fold find_append split: option.splits)

lemma renamed_not_reserved:
  assumes "d \<in> set (ds @ es)"
  shows "\<not> reserved (renamed (fold put_unsafe es (fold put_unsafe ds [])) (fst d) (snd d))"
proof (cases "map_of (fold put_unsafe es (fold put_unsafe ds [])) (fst d)")
  case None
  then have "\<not> reserved (snd d)"
    using assms by (auto simp: reserved_renames find_None_iff)
  with None show ?thesis by (simp add: renamed_def)
next
  case (Some n)
  then show ?thesis by (auto simp: renamed_def reserved_renames dart_safe_not_reserved)
qed

lemma reserved_word_decls:
  assumes "d \<in> set (module_decls (apply_reserved_word_renames fs rs))"
  shows "snd d \<notin> set RESERVED_WORDS"
proof -
  let ?rn = "fold put_unsafe (method_decls rs) (fold put_unsafe (function_decls fs) [])"
  from assms obtain e where e: "e \<in> set (module_decls (fs, rs))" "d = rename_pair ?rn e"
    by (auto simp: apply_reserved_word_renames_def module_decls_apply_renames)
  then show ?thesis
    using renamed_not_reserved [of e "function_decls fs" "method_decls rs"]
    by (simp add: module_decls_def rename_pair_def reserved_def)
qed

lemma reserved_word_calls:
  assumes "plain (module_nodes fs rs)"
    and "names_agree (module_decls (fs, rs)) (module_calls (fs, rs))"
    and "c \<in> set (module_calls (apply_reserved_word_renames fs rs))"
    and "fst c \<in> fst ` set (module_decls (fs, rs))"
  shows "snd c \<notin> set RESERVED_WORDS"
proof -
  let ?m = "apply_reserved_word_renames fs rs"
  have "fst ` set (module_decls ?m) = fst ` set (module_decls (fs, rs))"
    by (auto simp: apply_reserved_word_renames_def module_decls_apply_renames rename_pair_def
        image_image)
  with assms(4) obtain d where "d \<in> set (module_decls ?m)" "fst d = fst c"
    by (metis imageE)
  moreover have "names_agree (module_decls ?m) (module_calls ?m)"
    using assms(1,2)
    by (simp add: apply_reserved_word_renames_def module_decls_apply_renames
        module_calls_apply_renames names_agree_rename)
  ultimately show ?thesis
    using assms(3) reserved_word_decls [of d fs rs]
    by (fastforce simp: names_agree_def list_all_iff case_prod_beta')
qed

section \<open>Properties\<close>

text \<open>A module of one function named \<^verbatim>\<open>is\<close>, a method that calls it, and a destructor that does.\<close>

definition sample_origin :: origin where
  "sample_origin = \<lparr>o_file = ''a.cpp'', o_line = 1, o_column = 1\<rparr>"

definition sample_call :: "stmt" where
  "sample_call = SExprStmt (ECall None None ''c:@F@is'' ''is'' [] TVoid sample_origin) sample_origin"

definition sample_functions :: "ir_function list" where
  "sample_functions =
    [\<lparr>f_name = ''is'', f_usr = ''c:@F@is'', f_params = [], f_return_type = TVoid,
      f_body = [SReturn None sample_origin], f_origin = sample_origin\<rparr>]"

definition sample_records :: "ir_record list" where
  "sample_records =
    [\<lparr>r_name = ''A'', r_usr = ''c:@S@A'', r_namespace = [], r_fields = [], r_static_fields = [],
      r_constructors = [],
      r_methods =
        [\<lparr>m_name = ''run'', m_usr = ''c:@S@A@F@run'', m_params = [], m_return_type = TVoid,
          m_body = Some [sample_call], m_is_static = False, m_is_override = False,
          m_origin = sample_origin\<rparr>],
      r_base_class = None, r_mixins = [], r_library_base = None,
      r_destructor = Some [sample_call], r_origin = sample_origin\<rparr>]"

text \<open>
  C1. \<open>apply_renames\<close> rewrites the parameters' default values and the bodies of all functions, methods
  and constructors node for node, every call site takes the name its USR is mapped to and keeps
  its name otherwise, and so does every declaration.
\<close>

theorem apply_renames_rewrites:
  assumes "plain (module_nodes fs rs)"
  shows "module_nodes (fst (apply_renames fs rs rn)) (snd (apply_renames fs rs rn)) =
      map (rename_node rn) (module_nodes fs rs) \<and>
    module_calls (apply_renames fs rs rn) =
      map (\<lambda>(u, n). (u, renamed rn u n)) (module_calls (fs, rs)) \<and>
    module_decls (apply_renames fs rs rn) =
      map (\<lambda>(u, n). (u, renamed rn u n)) (module_decls (fs, rs))"
  using assms module_nodes_apply_renames module_calls_apply_renames module_decls_apply_renames
  by (simp add: rename_pair_def [abs_def] case_prod_beta')

theorem apply_renames_rewrites_witness:
  "module_calls (apply_renames sample_functions sample_records [(''c:@F@is'', ''is_'')]) =
    [(''c:@F@is'', ''is_'')]"
proof -
  have "plain (module_nodes sample_functions sample_records)" by code_simp
  from apply_renames_rewrites [OF this, THEN conjunct2, THEN conjunct1]
  have "module_calls (apply_renames sample_functions sample_records [(''c:@F@is'', ''is_'')]) =
    map (\<lambda>(u, n). (u, renamed [(''c:@F@is'', ''is_'')] u n))
      (module_calls (sample_functions, sample_records))" .
  moreover have "\<dots> = [(''c:@F@is'', ''is_'')]" by code_simp
  ultimately show ?thesis by simp
qed

text \<open>
  When every call in a walked body spells its callee as the declarations of that USR do, it still does
  after any renaming. Destructors are not walked, and a call there goes stale; see the end of the theory.
\<close>

theorem apply_renames_keeps_agreement:
  assumes "plain (module_nodes fs rs)"
    and "names_agree (module_decls (fs, rs)) (module_calls (fs, rs))"
  shows "names_agree (module_decls (apply_renames fs rs rn)) (module_calls (apply_renames fs rs rn))"
  using assms
  by (simp add: module_decls_apply_renames module_calls_apply_renames names_agree_rename)

theorem apply_renames_keeps_agreement_witness:
  "names_agree
     (module_decls (apply_renames sample_functions sample_records [(''c:@F@is'', ''is_'')]))
     (module_calls (apply_renames sample_functions sample_records [(''c:@F@is'', ''is_'')]))"
  by (rule apply_renames_keeps_agreement) code_simp+

text \<open>
  After \<open>apply_reserved_word_renames\<close> no function and no method has a name Dart reserves, and
  where the calls agreed with the declarations, no call of a declared function has one either.
\<close>

theorem apply_reserved_word_renames_safe:
  assumes "plain (module_nodes fs rs)"
    and "names_agree (module_decls (fs, rs)) (module_calls (fs, rs))"
  shows "list_all (\<lambda>(u, n). n \<notin> set RESERVED_WORDS)
      (module_decls (apply_reserved_word_renames fs rs)) \<and>
    list_all (\<lambda>(u, n). u \<in> fst ` set (module_decls (fs, rs)) \<longrightarrow> n \<notin> set RESERVED_WORDS)
      (module_calls (apply_reserved_word_renames fs rs))"
  using reserved_word_decls reserved_word_calls [OF assms]
  by (simp add: list_all_iff case_prod_beta')

theorem apply_reserved_word_renames_safe_witness:
  "module_calls (apply_reserved_word_renames sample_functions sample_records) = [(''c:@F@is'', ''is_'')]
   \<and> ''is'' \<in> set RESERVED_WORDS
   \<and> ''is_'' \<notin> set RESERVED_WORDS"
proof -
  have "plain (module_nodes sample_functions sample_records)"
    and "names_agree (module_decls (sample_functions, sample_records))
      (module_calls (sample_functions, sample_records))"
    by code_simp+
  from apply_reserved_word_renames_safe [OF this]
  have "list_all (\<lambda>(u, n). u \<in> fst ` set (module_decls (sample_functions, sample_records))
      \<longrightarrow> n \<notin> set RESERVED_WORDS)
    (module_calls (apply_reserved_word_renames sample_functions sample_records))" ..
  moreover have "module_calls (apply_reserved_word_renames sample_functions sample_records) =
      [(''c:@F@is'', ''is_'')]"
    and "''c:@F@is'' \<in> fst ` set (module_decls (sample_functions, sample_records))"
    and "''is'' \<in> set RESERVED_WORDS"
    by code_simp+
  ultimately show ?thesis by simp
qed

text \<open>
  Destructors are the one place that holds a body and is not walked: a call in one keeps the old
  name while the declaration takes the new one.
\<close>

lemma apply_renames_destructors:
  "map r_destructor (snd (apply_renames fs rs rn)) = map r_destructor rs"
  by (simp add: apply_renames_def rename_record_def)

lemma destructor_call_goes_stale:
  "call_sites (concat (map destructor_nodes (snd (apply_reserved_word_renames sample_functions sample_records)))) =
      [(''c:@F@is'', ''is'')] \<and>
   module_decls (apply_reserved_word_renames sample_functions sample_records) =
      [(''c:@F@is'', ''is_''), (''c:@S@A@F@run'', ''run'')]"
  by code_simp

end
