(* ===== verification/Ir_Visitor.thy ===== *)
theory Ir_Visitor
  imports Ir_Nodes
begin

text \<open>
  \<^verbatim>\<open>IrRefVisitor\<close> of \<^verbatim>\<open>crates/server/src/function_catalog.rs\<close>, the one traversal every later pass
  borrows: three hooks, for each type, each construction site and each expression, the last after
  its children. The hooks are \<^verbatim>\<open>FnMut\<close> closures that rewrite what they are given in place and may
  keep state, so they are computations of the state monad. Two characterisations carry the clients:
  a visitor whose hooks only rewrite computes \<open>walk_expr\<close>, and a visitor whose hooks only look
  folds its hook over \<open>visits_expr\<close>, the visits in their order.
\<close>

section \<open>Hooks and sequencing\<close>

record 's visitor =
  on_type :: "ty \<Rightarrow> ('s, ty) state"
  on_record_construct :: "string \<Rightarrow> string \<Rightarrow> nat option \<Rightarrow> ('s, string \<times> nat option) state"
  on_expr :: "expr \<Rightarrow> ('s, expr) state"

primrec seq :: "('s, 'a) state list \<Rightarrow> ('s, 'a list) state" where
  "seq [] = State_Monad.return []"
| "seq (c # cs) = do { x \<leftarrow> c; xs \<leftarrow> seq cs; State_Monad.return (x # xs) }"

definition seq_option :: "('s, 'a) state option \<Rightarrow> ('s, 'a option) state" where
  "seq_option c =
     (case c of None \<Rightarrow> State_Monad.return None
      | Some c \<Rightarrow> do { x \<leftarrow> c; State_Monad.return (Some x) })"

definition seq_named :: "'k \<times> ('s, 'a) state \<Rightarrow> ('s, 'k \<times> 'a) state" where
  "seq_named c = do { x \<leftarrow> snd c; State_Monad.return (fst c, x) }"

definition seq_pair :: "('s, 'a) state \<times> ('s, 'b) state \<Rightarrow> ('s, 'a \<times> 'b) state" where
  "seq_pair c = do { x \<leftarrow> fst c; y \<leftarrow> snd c; State_Monad.return (x, y) }"

section \<open>The traversal\<close>

text \<open>The parts of a composite type come before the type itself.\<close>

primrec visit_type :: "'s visitor \<Rightarrow> ty \<Rightarrow> ('s, ty) state" where
  "visit_type V TInt = on_type V TInt"
| "visit_type V TBool = on_type V TBool"
| "visit_type V TDouble = on_type V TDouble"
| "visit_type V TVoid = on_type V TVoid"
| "visit_type V (TRecord u n) = on_type V (TRecord u n)"
| "visit_type V (TEnum u n) = on_type V (TEnum u n)"
| "visit_type V TStr = on_type V TStr"
| "visit_type V TBytes = on_type V TBytes"
| "visit_type V (TList t) = do { t' \<leftarrow> visit_type V t; on_type V (TList t') }"
| "visit_type V (TSet t) = do { t' \<leftarrow> visit_type V t; on_type V (TSet t') }"
| "visit_type V (TMap k v) =
     do { k' \<leftarrow> visit_type V k; v' \<leftarrow> visit_type V v; on_type V (TMap k' v') }"
| "visit_type V (TPair a b) =
     do { a' \<leftarrow> visit_type V a; b' \<leftarrow> visit_type V b; on_type V (TPair a' b') }"
| "visit_type V (TListCursor t) = do { t' \<leftarrow> visit_type V t; on_type V (TListCursor t') }"
| "visit_type V TByteCursor = on_type V TByteCursor"
| "visit_type V (TCallback r ps) =
     do { r' \<leftarrow> visit_type V r; ps' \<leftarrow> seq (map (visit_type V) ps); on_type V (TCallback r' ps') }"
| "visit_type V (TTuple ts) = do { ts' \<leftarrow> seq (map (visit_type V) ts); on_type V (TTuple ts') }"
| "visit_type V (TNullable t) = do { t' \<leftarrow> visit_type V t; on_type V (TNullable t') }"
| "visit_type V TObject = on_type V TObject"
| "visit_type V (TUnsupported s) = on_type V (TUnsupported s)"

primrec visit_expr :: "'s visitor \<Rightarrow> expr \<Rightarrow> ('s, expr) state"
  and visit_stmt :: "'s visitor \<Rightarrow> stmt \<Rightarrow> ('s, stmt) state"
  and visit_param :: "'s visitor \<Rightarrow> param \<Rightarrow> ('s, param) state"
  and visit_case :: "'s visitor \<Rightarrow> switch_case \<Rightarrow> ('s, switch_case) state" where
  "visit_expr V (EIntLiteral v og) = on_expr V (EIntLiteral v og)"
| "visit_expr V (EDoubleLiteral v og) = on_expr V (EDoubleLiteral v og)"
| "visit_expr V (EBoolLiteral v og) = on_expr V (EBoolLiteral v og)"
| "visit_expr V (ENullLiteral og) = on_expr V (ENullLiteral og)"
| "visit_expr V (EStringLiteral v og) = on_expr V (EStringLiteral v og)"
| "visit_expr V (ERef n t og) =
     do { t' \<leftarrow> visit_type V t; on_expr V (ERef n t' og) }"
| "visit_expr V (EBinary op l r t og) =
     do {
       t' \<leftarrow> visit_type V t;
       l' \<leftarrow> visit_expr V l;
       r' \<leftarrow> visit_expr V r;
       on_expr V (EBinary op l' r' t' og) }"
| "visit_expr V (EConditional c a b t og) =
     do {
       t' \<leftarrow> visit_type V t;
       c' \<leftarrow> visit_expr V c;
       a' \<leftarrow> visit_expr V a;
       b' \<leftarrow> visit_expr V b;
       on_expr V (EConditional c' a' b' t' og) }"
| "visit_expr V (EUnary op e t og) =
     do {
       t' \<leftarrow> visit_type V t;
       e' \<leftarrow> visit_expr V e;
       on_expr V (EUnary op e' t' og) }"
| "visit_expr V (ELambda ps b t og) =
     do {
       t' \<leftarrow> visit_type V t;
       ps' \<leftarrow> seq (map (visit_param V) ps);
       b' \<leftarrow> seq (map (visit_stmt V) b);
       on_expr V (ELambda ps' b' t' og) }"
| "visit_expr V (EListLiteral xs t og) =
     do {
       t' \<leftarrow> visit_type V t;
       xs' \<leftarrow> seq (map (visit_expr V) xs);
       on_expr V (EListLiteral xs' t' og) }"
| "visit_expr V (EMapLiteral es t og) =
     do {
       t' \<leftarrow> visit_type V t;
       es' \<leftarrow> seq (map seq_pair (map (map_prod (visit_expr V) (visit_expr V)) es));
       on_expr V (EMapLiteral es' t' og) }"
| "visit_expr V (EIs e t og) =
     do {
       t' \<leftarrow> visit_type V t;
       e' \<leftarrow> visit_expr V e;
       on_expr V (EIs e' t' og) }"
| "visit_expr V (EAs e t og) =
     do {
       t' \<leftarrow> visit_type V t;
       e' \<leftarrow> visit_expr V e;
       on_expr V (EAs e' t' og) }"
| "visit_expr V (EAssign tg v t og) =
     do {
       t' \<leftarrow> visit_type V t;
       tg' \<leftarrow> visit_expr V tg;
       v' \<leftarrow> visit_expr V v;
       on_expr V (EAssign tg' v' t' og) }"
| "visit_expr V (EConvert e t og) =
     do {
       t' \<leftarrow> visit_type V t;
       e' \<leftarrow> visit_expr V e;
       on_expr V (EConvert e' t' og) }"
| "visit_expr V (ECall tg bq cu cn args t og) =
     do {
       t' \<leftarrow> visit_type V t;
       tg' \<leftarrow> seq_option (map_option (visit_expr V) tg);
       args' \<leftarrow> seq (map (visit_expr V) args);
       on_expr V (ECall tg' bq cu cn args' t' og) }"
| "visit_expr V (EFieldAccess tg f t og) =
     do {
       t' \<leftarrow> visit_type V t;
       tg' \<leftarrow> visit_expr V tg;
       on_expr V (EFieldAccess tg' f t' og) }"
| "visit_expr V (ERecordConstruct u n fs og) =
     do {
       (n', _) \<leftarrow> on_record_construct V u n None;
       fs' \<leftarrow> seq (map seq_named (map (map_prod id (visit_expr V)) fs));
       on_expr V (ERecordConstruct u n' fs' og) }"
| "visit_expr V (ERecordCopy tg u n og) =
     do { tg' \<leftarrow> visit_expr V tg; on_expr V (ERecordCopy tg' u n og) }"
| "visit_expr V (EConstructorCall u n i args og) =
     do {
       (n', i') \<leftarrow> on_record_construct V u n (Some i);
       args' \<leftarrow> seq (map (visit_expr V) args);
       on_expr V (EConstructorCall u n' (case i' of None \<Rightarrow> i | Some j \<Rightarrow> j) args' og) }"
| "visit_expr V (EThis t og) =
     do { t' \<leftarrow> visit_type V t; on_expr V (EThis t' og) }"
| "visit_expr V (EIndex tg i t og) =
     do {
       t' \<leftarrow> visit_type V t;
       tg' \<leftarrow> visit_expr V tg;
       i' \<leftarrow> visit_expr V i;
       on_expr V (EIndex tg' i' t' og) }"
| "visit_expr V (EMapIndexOrInsert tg i d t og) =
     do {
       t' \<leftarrow> visit_type V t;
       tg' \<leftarrow> visit_expr V tg;
       i' \<leftarrow> visit_expr V i;
       d' \<leftarrow> visit_expr V d;
       on_expr V (EMapIndexOrInsert tg' i' d' t' og) }"
| "visit_expr V (EStringByteLength tg og) =
     do { tg' \<leftarrow> visit_expr V tg; on_expr V (EStringByteLength tg' og) }"
| "visit_expr V (EStringByteIndexOf tg nd fr og) =
     do {
       tg' \<leftarrow> visit_expr V tg;
       nd' \<leftarrow> visit_expr V nd;
       fr' \<leftarrow> seq_option (map_option (visit_expr V) fr);
       on_expr V (EStringByteIndexOf tg' nd' fr' og) }"
| "visit_expr V (EStringByteAt tg i t og) =
     do {
       t' \<leftarrow> visit_type V t;
       tg' \<leftarrow> visit_expr V tg;
       i' \<leftarrow> visit_expr V i;
       on_expr V (EStringByteAt tg' i' t' og) }"
| "visit_expr V (ETuple vs og) =
     do { vs' \<leftarrow> seq (map (visit_expr V) vs); on_expr V (ETuple vs' og) }"
| "visit_expr V (ENamedArg n v) =
     do { v' \<leftarrow> visit_expr V v; on_expr V (ENamedArg n v') }"
| "visit_expr V (EUnsupported r og) = on_expr V (EUnsupported r og)"
| "visit_expr V (EUnsupportedTyped r t og) =
     do { t' \<leftarrow> visit_type V t; on_expr V (EUnsupportedTyped r t' og) }"
| "visit_stmt V (SReturn v og) =
     do {
       v' \<leftarrow> seq_option (map_option (visit_expr V) v);
       State_Monad.return (SReturn v' og) }"
| "visit_stmt V (SVarDecl n t i og) =
     do {
       t' \<leftarrow> visit_type V t;
       i' \<leftarrow> seq_option (map_option (visit_expr V) i);
       State_Monad.return (SVarDecl n t' i' og) }"
| "visit_stmt V (SAssign n v og) =
     do { v' \<leftarrow> visit_expr V v; State_Monad.return (SAssign n v' og) }"
| "visit_stmt V (SFieldAssign tg f v og) =
     do {
       tg' \<leftarrow> visit_expr V tg;
       v' \<leftarrow> visit_expr V v;
       State_Monad.return (SFieldAssign tg' f v' og) }"
| "visit_stmt V (SExprAssign tg v og) =
     do {
       tg' \<leftarrow> visit_expr V tg;
       v' \<leftarrow> visit_expr V v;
       State_Monad.return (SExprAssign tg' v' og) }"
| "visit_stmt V (SIf c a b og) =
     do {
       c' \<leftarrow> visit_expr V c;
       a' \<leftarrow> seq (map (visit_stmt V) a);
       b' \<leftarrow> seq (map (visit_stmt V) b);
       State_Monad.return (SIf c' a' b' og) }"
| "visit_stmt V (SWhile c b og) =
     do {
       c' \<leftarrow> visit_expr V c;
       b' \<leftarrow> seq (map (visit_stmt V) b);
       State_Monad.return (SWhile c' b' og) }"
| "visit_stmt V (SDoWhile b c og) =
     do {
       b' \<leftarrow> seq (map (visit_stmt V) b);
       c' \<leftarrow> visit_expr V c;
       State_Monad.return (SDoWhile b' c' og) }"
| "visit_stmt V (SFor i c n b og) =
     do {
       i' \<leftarrow> seq_option (map_option (visit_stmt V) i);
       c' \<leftarrow> seq_option (map_option (visit_expr V) c);
       n' \<leftarrow> seq_option (map_option (visit_stmt V) n);
       b' \<leftarrow> seq (map (visit_stmt V) b);
       State_Monad.return (SFor i' c' n' b' og) }"
| "visit_stmt V (SForEach n t f w it b og) =
     do {
       t' \<leftarrow> visit_type V t;
       it' \<leftarrow> visit_expr V it;
       b' \<leftarrow> seq (map (visit_stmt V) b);
       State_Monad.return (SForEach n t' f w it' b' og) }"
| "visit_stmt V (SBreak og) = State_Monad.return (SBreak og)"
| "visit_stmt V (SContinue og) = State_Monad.return (SContinue og)"
| "visit_stmt V (SContinueLabel l og) = State_Monad.return (SContinueLabel l og)"
| "visit_stmt V (SExprStmt e og) =
     do { e' \<leftarrow> visit_expr V e; State_Monad.return (SExprStmt e' og) }"
| "visit_stmt V (SThrow e og) =
     do { e' \<leftarrow> visit_expr V e; State_Monad.return (SThrow e' og) }"
| "visit_stmt V (STryCatch b t v c og) =
     do {
       b' \<leftarrow> seq (map (visit_stmt V) b);
       t' \<leftarrow> visit_type V t;
       c' \<leftarrow> seq (map (visit_stmt V) c);
       State_Monad.return (STryCatch b' t' v c' og) }"
| "visit_stmt V (STryFinally b f og) =
     do {
       b' \<leftarrow> seq (map (visit_stmt V) b);
       f' \<leftarrow> seq (map (visit_stmt V) f);
       State_Monad.return (STryFinally b' f' og) }"
| "visit_stmt V (STupleAssign ts v og) =
     do {
       ts' \<leftarrow> seq (map (visit_expr V) ts);
       v' \<leftarrow> visit_expr V v;
       State_Monad.return (STupleAssign ts' v' og) }"
| "visit_stmt V (SSwitch s cs d og) =
     do {
       s' \<leftarrow> visit_expr V s;
       cs' \<leftarrow> seq (map (visit_case V) cs);
       d' \<leftarrow> seq_option (map_option seq (map_option (map (visit_stmt V)) d));
       State_Monad.return (SSwitch s' cs' d' og) }"
| "visit_stmt V (SUnsupported r og) = State_Monad.return (SUnsupported r og)"
| "visit_param V (Param n t d) =
     do {
       t' \<leftarrow> visit_type V t;
       d' \<leftarrow> seq_option (map_option (visit_expr V) d);
       State_Monad.return (Param n t' d') }"
| "visit_case V (SwitchCase vs b l) =
     do {
       vs' \<leftarrow> seq (map (visit_expr V) vs);
       b' \<leftarrow> seq (map (visit_stmt V) b);
       State_Monad.return (SwitchCase vs' b' l) }"


definition visit_stmts :: "'s visitor \<Rightarrow> stmt list \<Rightarrow> ('s, stmt list) state" where
  "visit_stmts V ss = seq (map (visit_stmt V) ss)"

section \<open>Visitors that only rewrite\<close>

record walker =
  w_type :: "ty \<Rightarrow> ty"
  w_construct :: "string \<Rightarrow> string \<Rightarrow> nat option \<Rightarrow> string \<times> nat option"
  w_expr :: "expr \<Rightarrow> expr"

definition rewriting :: "walker \<Rightarrow> 's visitor" where
  "rewriting F =
    \<lparr>on_type = \<lambda>t. State_Monad.return (w_type F t),
     on_record_construct = \<lambda>u n i. State_Monad.return (w_construct F u n i),
     on_expr = \<lambda>e. State_Monad.return (w_expr F e)\<rparr>"

primrec walk_type :: "walker \<Rightarrow> ty \<Rightarrow> ty" where
  "walk_type F TInt = w_type F TInt"
| "walk_type F TBool = w_type F TBool"
| "walk_type F TDouble = w_type F TDouble"
| "walk_type F TVoid = w_type F TVoid"
| "walk_type F (TRecord u n) = w_type F (TRecord u n)"
| "walk_type F (TEnum u n) = w_type F (TEnum u n)"
| "walk_type F TStr = w_type F TStr"
| "walk_type F TBytes = w_type F TBytes"
| "walk_type F (TList t) = w_type F (TList (walk_type F t))"
| "walk_type F (TSet t) = w_type F (TSet (walk_type F t))"
| "walk_type F (TMap k v) = w_type F (TMap (walk_type F k) (walk_type F v))"
| "walk_type F (TPair a b) = w_type F (TPair (walk_type F a) (walk_type F b))"
| "walk_type F (TListCursor t) = w_type F (TListCursor (walk_type F t))"
| "walk_type F TByteCursor = w_type F TByteCursor"
| "walk_type F (TCallback r ps) = w_type F (TCallback (walk_type F r) (map (walk_type F) ps))"
| "walk_type F (TTuple ts) = w_type F (TTuple (map (walk_type F) ts))"
| "walk_type F (TNullable t) = w_type F (TNullable (walk_type F t))"
| "walk_type F TObject = w_type F TObject"
| "walk_type F (TUnsupported s) = w_type F (TUnsupported s)"

primrec walk_expr :: "walker \<Rightarrow> expr \<Rightarrow> expr"
  and walk_stmt :: "walker \<Rightarrow> stmt \<Rightarrow> stmt"
  and walk_param :: "walker \<Rightarrow> param \<Rightarrow> param"
  and walk_case :: "walker \<Rightarrow> switch_case \<Rightarrow> switch_case" where
  "walk_expr F (EIntLiteral v og) = w_expr F (EIntLiteral v og)"
| "walk_expr F (EDoubleLiteral v og) = w_expr F (EDoubleLiteral v og)"
| "walk_expr F (EBoolLiteral v og) = w_expr F (EBoolLiteral v og)"
| "walk_expr F (ENullLiteral og) = w_expr F (ENullLiteral og)"
| "walk_expr F (EStringLiteral v og) = w_expr F (EStringLiteral v og)"
| "walk_expr F (ERef n t og) = w_expr F (ERef n (walk_type F t) og)"
| "walk_expr F (EBinary op l r t og) =
     w_expr F (EBinary op (walk_expr F l) (walk_expr F r) (walk_type F t) og)"
| "walk_expr F (EConditional c a b t og) =
     w_expr F (EConditional (walk_expr F c) (walk_expr F a) (walk_expr F b) (walk_type F t) og)"
| "walk_expr F (EUnary op e t og) = w_expr F (EUnary op (walk_expr F e) (walk_type F t) og)"
| "walk_expr F (ELambda ps b t og) =
     w_expr F (ELambda (map (walk_param F) ps) (map (walk_stmt F) b) (walk_type F t) og)"
| "walk_expr F (EListLiteral xs t og) = w_expr F (EListLiteral (map (walk_expr F) xs) (walk_type F t) og)"
| "walk_expr F (EMapLiteral es t og) =
     w_expr F (EMapLiteral (map (map_prod (walk_expr F) (walk_expr F)) es) (walk_type F t) og)"
| "walk_expr F (EIs e t og) = w_expr F (EIs (walk_expr F e) (walk_type F t) og)"
| "walk_expr F (EAs e t og) = w_expr F (EAs (walk_expr F e) (walk_type F t) og)"
| "walk_expr F (EAssign tg v t og) = w_expr F (EAssign (walk_expr F tg) (walk_expr F v) (walk_type F t) og)"
| "walk_expr F (EConvert e t og) = w_expr F (EConvert (walk_expr F e) (walk_type F t) og)"
| "walk_expr F (ECall tg bq cu cn args t og) =
     w_expr F (ECall (map_option (walk_expr F) tg) bq cu cn (map (walk_expr F) args) (walk_type F t) og)"
| "walk_expr F (EFieldAccess tg f t og) = w_expr F (EFieldAccess (walk_expr F tg) f (walk_type F t) og)"
| "walk_expr F (ERecordConstruct u n fs og) =
     w_expr F (ERecordConstruct u (fst (w_construct F u n None)) (map (map_prod id (walk_expr F)) fs) og)"
| "walk_expr F (ERecordCopy tg u n og) = w_expr F (ERecordCopy (walk_expr F tg) u n og)"
| "walk_expr F (EConstructorCall u n i args og) =
     w_expr F (EConstructorCall u (fst (w_construct F u n (Some i)))
       (case snd (w_construct F u n (Some i)) of None \<Rightarrow> i | Some j \<Rightarrow> j)
       (map (walk_expr F) args) og)"
| "walk_expr F (EThis t og) = w_expr F (EThis (walk_type F t) og)"
| "walk_expr F (EIndex tg i t og) = w_expr F (EIndex (walk_expr F tg) (walk_expr F i) (walk_type F t) og)"
| "walk_expr F (EMapIndexOrInsert tg i d t og) =
     w_expr F (EMapIndexOrInsert (walk_expr F tg) (walk_expr F i) (walk_expr F d) (walk_type F t) og)"
| "walk_expr F (EStringByteLength tg og) = w_expr F (EStringByteLength (walk_expr F tg) og)"
| "walk_expr F (EStringByteIndexOf tg nd fr og) =
     w_expr F (EStringByteIndexOf (walk_expr F tg) (walk_expr F nd) (map_option (walk_expr F) fr) og)"
| "walk_expr F (EStringByteAt tg i t og) =
     w_expr F (EStringByteAt (walk_expr F tg) (walk_expr F i) (walk_type F t) og)"
| "walk_expr F (ETuple vs og) = w_expr F (ETuple (map (walk_expr F) vs) og)"
| "walk_expr F (ENamedArg n v) = w_expr F (ENamedArg n (walk_expr F v))"
| "walk_expr F (EUnsupported r og) = w_expr F (EUnsupported r og)"
| "walk_expr F (EUnsupportedTyped r t og) = w_expr F (EUnsupportedTyped r (walk_type F t) og)"
| "walk_stmt F (SReturn v og) = SReturn (map_option (walk_expr F) v) og"
| "walk_stmt F (SVarDecl n t i og) = SVarDecl n (walk_type F t) (map_option (walk_expr F) i) og"
| "walk_stmt F (SAssign n v og) = SAssign n (walk_expr F v) og"
| "walk_stmt F (SFieldAssign tg f v og) = SFieldAssign (walk_expr F tg) f (walk_expr F v) og"
| "walk_stmt F (SExprAssign tg v og) = SExprAssign (walk_expr F tg) (walk_expr F v) og"
| "walk_stmt F (SIf c a b og) = SIf (walk_expr F c) (map (walk_stmt F) a) (map (walk_stmt F) b) og"
| "walk_stmt F (SWhile c b og) = SWhile (walk_expr F c) (map (walk_stmt F) b) og"
| "walk_stmt F (SDoWhile b c og) = SDoWhile (map (walk_stmt F) b) (walk_expr F c) og"
| "walk_stmt F (SFor i c n b og) =
     SFor (map_option (walk_stmt F) i) (map_option (walk_expr F) c) (map_option (walk_stmt F) n)
       (map (walk_stmt F) b) og"
| "walk_stmt F (SForEach n t f w it b og) =
     SForEach n (walk_type F t) f w (walk_expr F it) (map (walk_stmt F) b) og"
| "walk_stmt F (SBreak og) = SBreak og"
| "walk_stmt F (SContinue og) = SContinue og"
| "walk_stmt F (SContinueLabel l og) = SContinueLabel l og"
| "walk_stmt F (SExprStmt e og) = SExprStmt (walk_expr F e) og"
| "walk_stmt F (SThrow e og) = SThrow (walk_expr F e) og"
| "walk_stmt F (STryCatch b t v c og) =
     STryCatch (map (walk_stmt F) b) (walk_type F t) v (map (walk_stmt F) c) og"
| "walk_stmt F (STryFinally b f og) = STryFinally (map (walk_stmt F) b) (map (walk_stmt F) f) og"
| "walk_stmt F (STupleAssign ts v og) = STupleAssign (map (walk_expr F) ts) (walk_expr F v) og"
| "walk_stmt F (SSwitch s cs d og) =
     SSwitch (walk_expr F s) (map (walk_case F) cs) (map_option (map (walk_stmt F)) d) og"
| "walk_stmt F (SUnsupported r og) = SUnsupported r og"
| "walk_param F (Param n t d) = Param n (walk_type F t) (map_option (walk_expr F) d)"
| "walk_case F (SwitchCase vs b l) = SwitchCase (map (walk_expr F) vs) (map (walk_stmt F) b) l"


lemma seq_returns:
  assumes "\<And>x. x \<in> set xs \<Longrightarrow> f x = State_Monad.return (g x)"
  shows "seq (map f xs) = State_Monad.return (map g xs)"
  using assms by (induction xs) simp_all

lemma seq_option_returns:
  assumes "\<And>x. y = Some x \<Longrightarrow> f x = State_Monad.return (g x)"
  shows "seq_option (map_option f y) = State_Monad.return (map_option g y)"
  using assms by (cases y) (simp_all add: seq_option_def)

lemma seq_named_returns:
  assumes "\<And>p x. p \<in> set fs \<Longrightarrow> x \<in> Basic_BNFs.snds p \<Longrightarrow> f x = State_Monad.return (g x)"
  shows "seq (map (seq_named \<circ> map_prod id f) fs) = State_Monad.return (map (map_prod id g) fs)"
  using assms by (induction fs) (auto simp: seq_named_def snds.simps)

lemma seq_pair_returns:
  assumes "\<And>p x. p \<in> set es \<Longrightarrow> x \<in> Basic_BNFs.fsts p \<Longrightarrow> f x = State_Monad.return (g x)"
    and "\<And>p x. p \<in> set es \<Longrightarrow> x \<in> Basic_BNFs.snds p \<Longrightarrow> f x = State_Monad.return (g x)"
  shows "seq (map (seq_pair \<circ> map_prod f f) es) = State_Monad.return (map (map_prod g g) es)"
  using assms by (induction es) (force simp: seq_pair_def fsts.simps snds.simps)+

lemma seq_option_seq_returns:
  assumes "\<And>ys x. y = Some ys \<Longrightarrow> x \<in> set ys \<Longrightarrow> f x = State_Monad.return (g x)"
  shows "seq_option (map_option (seq \<circ> map f) y) = State_Monad.return (map_option (map g) y)"
  using assms by (cases y) (simp_all add: seq_option_def seq_returns [where g = g])

lemmas returns = seq_returns seq_option_returns seq_named_returns seq_pair_returns
  seq_option_seq_returns

lemma rewriting_simps [simp]:
  "on_type (rewriting F) t = State_Monad.return (w_type F t)"
  "on_record_construct (rewriting F) u n i = State_Monad.return (w_construct F u n i)"
  "on_expr (rewriting F) e = State_Monad.return (w_expr F e)"
  by (simp_all add: rewriting_def)

lemma visit_type_rewriting [simp]:
  "visit_type (rewriting F) t = State_Monad.return (walk_type F t)"
  by (induction t) (simp_all add: returns [where g = "walk_type F"])

lemma visit_rewriting:
  "visit_expr (rewriting F :: 's visitor) e = State_Monad.return (walk_expr F e)"
  "visit_stmt (rewriting F :: 's visitor) s = State_Monad.return (walk_stmt F s)"
  "visit_param (rewriting F :: 's visitor) p = State_Monad.return (walk_param F p)"
  "visit_case (rewriting F :: 's visitor) c = State_Monad.return (walk_case F c)"
  by (induction e and s and p and c)
    (simp_all add: returns [where g = "walk_expr F"] returns [where g = "walk_stmt F"]
      returns [where g = "walk_param F"] returns [where g = "walk_case F"] option.map_comp
      case_prod_beta')

lemma visit_stmts_rewriting:
  "visit_stmts (rewriting F) ss = State_Monad.return (map (walk_stmt F) ss)"
  by (simp add: visit_stmts_def returns [where g = "walk_stmt F"] visit_rewriting)

section \<open>Visitors that only look\<close>

datatype visit = VType ty | VConstruct string string "nat option" | VExpr expr

definition observing :: "(visit \<Rightarrow> 's \<Rightarrow> 's) \<Rightarrow> 's visitor" where
  "observing k =
    \<lparr>on_type = \<lambda>t. State (\<lambda>s. (t, k (VType t) s)),
     on_record_construct = \<lambda>u n i. State (\<lambda>s. ((n, i), k (VConstruct u n i) s)),
     on_expr = \<lambda>e. State (\<lambda>s. (e, k (VExpr e) s))\<rparr>"

primrec visits_type :: "ty \<Rightarrow> visit list" where
  "visits_type TInt = [VType TInt]"
| "visits_type TBool = [VType TBool]"
| "visits_type TDouble = [VType TDouble]"
| "visits_type TVoid = [VType TVoid]"
| "visits_type (TRecord u n) = [VType (TRecord u n)]"
| "visits_type (TEnum u n) = [VType (TEnum u n)]"
| "visits_type TStr = [VType TStr]"
| "visits_type TBytes = [VType TBytes]"
| "visits_type (TList t) = visits_type t @ [VType (TList t)]"
| "visits_type (TSet t) = visits_type t @ [VType (TSet t)]"
| "visits_type (TMap k v) = visits_type k @ visits_type v @ [VType (TMap k v)]"
| "visits_type (TPair a b) = visits_type a @ visits_type b @ [VType (TPair a b)]"
| "visits_type (TListCursor t) = visits_type t @ [VType (TListCursor t)]"
| "visits_type TByteCursor = [VType TByteCursor]"
| "visits_type (TCallback r ps) =
     visits_type r @ concat (map visits_type ps) @ [VType (TCallback r ps)]"
| "visits_type (TTuple ts) = concat (map visits_type ts) @ [VType (TTuple ts)]"
| "visits_type (TNullable t) = visits_type t @ [VType (TNullable t)]"
| "visits_type TObject = [VType TObject]"
| "visits_type (TUnsupported s) = [VType (TUnsupported s)]"

primrec visits_expr :: "expr \<Rightarrow> visit list"
  and visits_stmt :: "stmt \<Rightarrow> visit list"
  and visits_param :: "param \<Rightarrow> visit list"
  and visits_case :: "switch_case \<Rightarrow> visit list" where
  "visits_expr (EIntLiteral v og) = [VExpr (EIntLiteral v og)]"
| "visits_expr (EDoubleLiteral v og) = [VExpr (EDoubleLiteral v og)]"
| "visits_expr (EBoolLiteral v og) = [VExpr (EBoolLiteral v og)]"
| "visits_expr (ENullLiteral og) = [VExpr (ENullLiteral og)]"
| "visits_expr (EStringLiteral v og) = [VExpr (EStringLiteral v og)]"
| "visits_expr (ERef n t og) = visits_type t @ [VExpr (ERef n t og)]"
| "visits_expr (EBinary op l r t og) =
     visits_type t @ visits_expr l @ visits_expr r @ [VExpr (EBinary op l r t og)]"
| "visits_expr (EConditional c a b t og) =
     visits_type t @ visits_expr c @ visits_expr a @ visits_expr b @
       [VExpr (EConditional c a b t og)]"
| "visits_expr (EUnary op e t og) = visits_type t @ visits_expr e @ [VExpr (EUnary op e t og)]"
| "visits_expr (ELambda ps b t og) =
     visits_type t @ concat (map visits_param ps) @ concat (map visits_stmt b) @
       [VExpr (ELambda ps b t og)]"
| "visits_expr (EListLiteral xs t og) =
     visits_type t @ concat (map visits_expr xs) @ [VExpr (EListLiteral xs t og)]"
| "visits_expr (EMapLiteral es t og) =
     visits_type t @
       concat (map (\<lambda>(k, v). k @ v) (map (map_prod visits_expr visits_expr) es)) @
       [VExpr (EMapLiteral es t og)]"
| "visits_expr (EIs e t og) = visits_type t @ visits_expr e @ [VExpr (EIs e t og)]"
| "visits_expr (EAs e t og) = visits_type t @ visits_expr e @ [VExpr (EAs e t og)]"
| "visits_expr (EAssign tg v t og) =
     visits_type t @ visits_expr tg @ visits_expr v @ [VExpr (EAssign tg v t og)]"
| "visits_expr (EConvert e t og) = visits_type t @ visits_expr e @ [VExpr (EConvert e t og)]"
| "visits_expr (ECall tg bq cu cn args t og) =
     visits_type t @ opt_nodes (map_option visits_expr tg) @ concat (map visits_expr args) @
       [VExpr (ECall tg bq cu cn args t og)]"
| "visits_expr (EFieldAccess tg f t og) =
     visits_type t @ visits_expr tg @ [VExpr (EFieldAccess tg f t og)]"
| "visits_expr (ERecordConstruct u n fs og) =
     [VConstruct u n None] @ concat (map snd (map (map_prod id visits_expr) fs)) @
       [VExpr (ERecordConstruct u n fs og)]"
| "visits_expr (ERecordCopy tg u n og) = visits_expr tg @ [VExpr (ERecordCopy tg u n og)]"
| "visits_expr (EConstructorCall u n i args og) =
     [VConstruct u n (Some i)] @ concat (map visits_expr args) @
       [VExpr (EConstructorCall u n i args og)]"
| "visits_expr (EThis t og) = visits_type t @ [VExpr (EThis t og)]"
| "visits_expr (EIndex tg i t og) =
     visits_type t @ visits_expr tg @ visits_expr i @ [VExpr (EIndex tg i t og)]"
| "visits_expr (EMapIndexOrInsert tg i d t og) =
     visits_type t @ visits_expr tg @ visits_expr i @ visits_expr d @
       [VExpr (EMapIndexOrInsert tg i d t og)]"
| "visits_expr (EStringByteLength tg og) = visits_expr tg @ [VExpr (EStringByteLength tg og)]"
| "visits_expr (EStringByteIndexOf tg nd fr og) =
     visits_expr tg @ visits_expr nd @ opt_nodes (map_option visits_expr fr) @
       [VExpr (EStringByteIndexOf tg nd fr og)]"
| "visits_expr (EStringByteAt tg i t og) =
     visits_type t @ visits_expr tg @ visits_expr i @ [VExpr (EStringByteAt tg i t og)]"
| "visits_expr (ETuple vs og) = concat (map visits_expr vs) @ [VExpr (ETuple vs og)]"
| "visits_expr (ENamedArg n v) = visits_expr v @ [VExpr (ENamedArg n v)]"
| "visits_expr (EUnsupported r og) = [VExpr (EUnsupported r og)]"
| "visits_expr (EUnsupportedTyped r t og) = visits_type t @ [VExpr (EUnsupportedTyped r t og)]"
| "visits_stmt (SReturn v og) = opt_nodes (map_option visits_expr v)"
| "visits_stmt (SVarDecl n t i og) = visits_type t @ opt_nodes (map_option visits_expr i)"
| "visits_stmt (SAssign n v og) = visits_expr v"
| "visits_stmt (SFieldAssign tg f v og) = visits_expr tg @ visits_expr v"
| "visits_stmt (SExprAssign tg v og) = visits_expr tg @ visits_expr v"
| "visits_stmt (SIf c a b og) =
     visits_expr c @ concat (map visits_stmt a) @ concat (map visits_stmt b)"
| "visits_stmt (SWhile c b og) = visits_expr c @ concat (map visits_stmt b)"
| "visits_stmt (SDoWhile b c og) = concat (map visits_stmt b) @ visits_expr c"
| "visits_stmt (SFor i c n b og) =
     opt_nodes (map_option visits_stmt i) @ opt_nodes (map_option visits_expr c) @
       opt_nodes (map_option visits_stmt n) @ concat (map visits_stmt b)"
| "visits_stmt (SForEach n t f w it b og) =
     visits_type t @ visits_expr it @ concat (map visits_stmt b)"
| "visits_stmt (SBreak og) = []"
| "visits_stmt (SContinue og) = []"
| "visits_stmt (SContinueLabel l og) = []"
| "visits_stmt (SExprStmt e og) = visits_expr e"
| "visits_stmt (SThrow e og) = visits_expr e"
| "visits_stmt (STryCatch b t v c og) =
     concat (map visits_stmt b) @ visits_type t @ concat (map visits_stmt c)"
| "visits_stmt (STryFinally b f og) = concat (map visits_stmt b) @ concat (map visits_stmt f)"
| "visits_stmt (STupleAssign ts v og) = concat (map visits_expr ts) @ visits_expr v"
| "visits_stmt (SSwitch s cs d og) =
     visits_expr s @ concat (map visits_case cs) @
       concat (opt_nodes (map_option (map visits_stmt) d))"
| "visits_stmt (SUnsupported r og) = []"
| "visits_param (Param n t d) = visits_type t @ opt_nodes (map_option visits_expr d)"
| "visits_case (SwitchCase vs b l) = concat (map visits_expr vs) @ concat (map visits_stmt b)"


text \<open>A computation that leaves its value alone and folds the hook over some visits.\<close>

definition logs :: "(visit \<Rightarrow> 's \<Rightarrow> 's) \<Rightarrow> visit list \<Rightarrow> 'a \<Rightarrow> ('s, 'a) state" where
  "logs k vs x = State (\<lambda>s. (x, fold k vs s))"

lemma bind_logs [simp]:
  "State_Monad.bind (logs k vs x) f = State (\<lambda>s. run_state (f x) (fold k vs s))"
  by (simp add: logs_def State_Monad.bind_def)

lemma run_logs [simp]: "run_state (logs k vs x) s = (x, fold k vs s)"
  by (simp add: logs_def)

lemma return_logs: "State_Monad.return x = logs k [] x"
  by (simp add: logs_def State_Monad.return_def)

lemma run_return_state [simp]: "run_state (State_Monad.return x) s = (x, s)"
  by (simp add: State_Monad.return_def)

lemma seq_logs:
  assumes "\<And>x. x \<in> set xs \<Longrightarrow> f x = logs k (v x) x"
  shows "seq (map f xs) = logs k (concat (map v xs)) xs"
  using assms
  by (induction xs) (simp_all add: return_logs [of _ k] logs_def State_Monad.bind_def)

lemma seq_option_logs:
  assumes "\<And>x. y = Some x \<Longrightarrow> f x = logs k (v x) x"
  shows "seq_option (map_option f y) = logs k (opt_nodes (map_option v y)) y"
  using assms
  by (cases y) (simp_all add: seq_option_def return_logs [of _ k] logs_def State_Monad.bind_def)

lemma seq_named_logs:
  assumes "\<And>p x. p \<in> set fs \<Longrightarrow> x \<in> Basic_BNFs.snds p \<Longrightarrow> f x = logs k (v x) x"
  shows "seq (map (seq_named \<circ> map_prod id f) fs) = logs k (concat (map (snd \<circ> map_prod id v) fs)) fs"
  using assms
proof (induction fs)
  case (Cons p fs)
  then have "f (snd p) = logs k (v (snd p)) (snd p)" by (simp add: snds.simps)
  with Cons show ?case
    by (auto simp: seq_named_def snds.simps logs_def State_Monad.bind_def State_Monad.return_def)
qed (simp add: return_logs)

lemma seq_pair_logs:
  assumes "\<And>p x. p \<in> set es \<Longrightarrow> x \<in> Basic_BNFs.fsts p \<Longrightarrow> f x = logs k (v x) x"
    and "\<And>p x. p \<in> set es \<Longrightarrow> x \<in> Basic_BNFs.snds p \<Longrightarrow> f x = logs k (v x) x"
  shows "seq (map (seq_pair \<circ> map_prod f f) es) =
    logs k (concat (map ((\<lambda>(x, y). x @ y) \<circ> map_prod v v) es)) es"
  using assms
proof (induction es)
  case (Cons p es)
  then have "f (fst p) = logs k (v (fst p)) (fst p)" "f (snd p) = logs k (v (snd p)) (snd p)"
    by (simp_all add: fsts.simps snds.simps)
  with Cons show ?case
    by (auto simp: seq_pair_def fsts.simps snds.simps logs_def State_Monad.bind_def
        State_Monad.return_def case_prod_beta')
qed (simp add: return_logs)

lemma seq_option_seq_logs:
  assumes "\<And>ys x. y = Some ys \<Longrightarrow> x \<in> set ys \<Longrightarrow> f x = logs k (v x) x"
  shows "seq_option (map_option (seq \<circ> map f) y) =
    logs k (concat (opt_nodes (map_option (map v) y))) y"
  using assms
  by (cases y) (simp_all add: seq_option_def seq_logs [where v = v and k = k] return_logs [of _ k]
      logs_def State_Monad.bind_def)

lemmas logged = seq_logs seq_option_logs seq_named_logs seq_pair_logs seq_option_seq_logs

lemma observing_simps [simp]:
  "on_type (observing k) t = logs k [VType t] t"
  "on_record_construct (observing k) u n i = logs k [VConstruct u n i] (n, i)"
  "on_expr (observing k) e = logs k [VExpr e] e"
  by (simp_all add: observing_def logs_def)

lemma visit_type_observing [simp]:
  "visit_type (observing k) t = logs k (visits_type t) t"
  by (induction t) (simp_all add: logged [where k = k and v = visits_type], simp_all add: logs_def)

lemma visit_observing:
  "visit_expr (observing k :: 's visitor) e = logs k (visits_expr e) e"
  "visit_stmt (observing k :: 's visitor) s = logs k (visits_stmt s) s"
  "visit_param (observing k :: 's visitor) p = logs k (visits_param p) p"
  "visit_case (observing k :: 's visitor) c = logs k (visits_case c) c"
  by (induction e and s and p and c)
    (simp_all add: logged [where k = k and v = visits_expr] logged [where k = k and v = visits_stmt]
      logged [where k = k and v = visits_param] logged [where k = k and v = visits_case]
      option.map_comp case_prod_beta', simp_all add: logs_def State_Monad.return_def)

section \<open>Nothing is left out\<close>

text \<open>The types an IR node holds itself, and all types nested in a type.\<close>

definition own_types :: "ir_node \<Rightarrow> ty list" where
  "own_types nd =
     (case nd of
        NExpr (EIs e t og) \<Rightarrow> [t]
      | NExpr (ENamedArg n v) \<Rightarrow> []
      | NExpr e \<Rightarrow> (case expr_ty e of None \<Rightarrow> [] | Some t \<Rightarrow> [t])
      | NStmt (SVarDecl n t i og) \<Rightarrow> [t]
      | NStmt (SForEach n t f w it b og) \<Rightarrow> [t]
      | NStmt (STryCatch b t v c og) \<Rightarrow> [t]
      | NStmt s \<Rightarrow> []
      | NParam p \<Rightarrow> [p_ty p])"

primrec subtypes :: "ty \<Rightarrow> ty set" where
  "subtypes TInt = {TInt}"
| "subtypes TBool = {TBool}"
| "subtypes TDouble = {TDouble}"
| "subtypes TVoid = {TVoid}"
| "subtypes (TRecord u n) = {TRecord u n}"
| "subtypes (TEnum u n) = {TEnum u n}"
| "subtypes TStr = {TStr}"
| "subtypes TBytes = {TBytes}"
| "subtypes (TList t) = insert (TList t) (subtypes t)"
| "subtypes (TSet t) = insert (TSet t) (subtypes t)"
| "subtypes (TMap k v) = insert (TMap k v) (subtypes k \<union> subtypes v)"
| "subtypes (TPair a b) = insert (TPair a b) (subtypes a \<union> subtypes b)"
| "subtypes (TListCursor t) = insert (TListCursor t) (subtypes t)"
| "subtypes TByteCursor = {TByteCursor}"
| "subtypes (TCallback r ps) =
     insert (TCallback r ps) (subtypes r \<union> \<Union> (set (map subtypes ps)))"
| "subtypes (TTuple ts) = insert (TTuple ts) (\<Union> (set (map subtypes ts)))"
| "subtypes (TNullable t) = insert (TNullable t) (subtypes t)"
| "subtypes TObject = {TObject}"
| "subtypes (TUnsupported s) = {TUnsupported s}"

definition visited_types :: "visit list \<Rightarrow> ty set" where
  "visited_types vs = {t. VType t \<in> set vs}"

definition visited_exprs :: "visit list \<Rightarrow> expr set" where
  "visited_exprs vs = {e. VExpr e \<in> set vs}"

definition node_exprs :: "ir_node list \<Rightarrow> expr set" where
  "node_exprs ns = {e. NExpr e \<in> set ns}"

definition node_types :: "ir_node list \<Rightarrow> ty set" where
  "node_types ns = (\<Union>nd \<in> set ns. \<Union>t \<in> set (own_types nd). subtypes t)"

lemma visited_types_simps [simp]:
  "visited_types [] = {}"
  "visited_types (VType t # vs) = insert t (visited_types vs)"
  "visited_types (VConstruct u n i # vs) = visited_types vs"
  "visited_types (VExpr e # vs) = visited_types vs"
  "visited_types (vs @ ws) = visited_types vs \<union> visited_types ws"
  by (auto simp: visited_types_def)

lemma visited_exprs_simps [simp]:
  "visited_exprs [] = {}"
  "visited_exprs (VType t # vs) = visited_exprs vs"
  "visited_exprs (VConstruct u n i # vs) = visited_exprs vs"
  "visited_exprs (VExpr e # vs) = insert e (visited_exprs vs)"
  "visited_exprs (vs @ ws) = visited_exprs vs \<union> visited_exprs ws"
  by (auto simp: visited_exprs_def)

lemma visited_concat_map:
  "visited_types (concat (map f xs)) = (\<Union>x \<in> set xs. visited_types (f x))"
  "visited_exprs (concat (map f xs)) = (\<Union>x \<in> set xs. visited_exprs (f x))"
  by (auto simp: visited_types_def visited_exprs_def)

lemma visited_opt_nodes:
  "visited_types (opt_nodes (map_option f y)) = (\<Union>x \<in> set_option y. visited_types (f x))"
  "visited_exprs (opt_nodes (map_option f y)) = (\<Union>x \<in> set_option y. visited_exprs (f x))"
  by (cases y; simp)+

lemma visited_opt_concat:
  "visited_types (concat (opt_nodes (map_option (map f) y))) =
    (\<Union>ys \<in> set_option y. \<Union>x \<in> set ys. visited_types (f x))"
  "visited_exprs (concat (opt_nodes (map_option (map f) y))) =
    (\<Union>ys \<in> set_option y. \<Union>x \<in> set ys. visited_exprs (f x))"
  by (cases y; simp add: visited_concat_map)+

lemma node_simps [simp]:
  "node_types [] = {}"
  "node_types (nd # ns) = (\<Union>t \<in> set (own_types nd). subtypes t) \<union> node_types ns"
  "node_types (ns @ ms) = node_types ns \<union> node_types ms"
  "node_exprs [] = {}"
  "node_exprs (NExpr e # ns) = insert e (node_exprs ns)"
  "node_exprs (NStmt s # ns) = node_exprs ns"
  "node_exprs (NParam p # ns) = node_exprs ns"
  "node_exprs (ns @ ms) = node_exprs ns \<union> node_exprs ms"
  by (auto simp: node_types_def node_exprs_def)

lemma node_concat_map:
  "node_types (concat (map f xs)) = (\<Union>x \<in> set xs. node_types (f x))"
  "node_exprs (concat (map f xs)) = (\<Union>x \<in> set xs. node_exprs (f x))"
  by (auto simp: node_types_def node_exprs_def)

lemma node_opt_nodes:
  "node_types (opt_nodes (map_option f y)) = (\<Union>x \<in> set_option y. node_types (f x))"
  "node_exprs (opt_nodes (map_option f y)) = (\<Union>x \<in> set_option y. node_exprs (f x))"
  by (cases y; simp)+

lemma node_opt_concat:
  "node_types (concat (opt_nodes (map_option (map f) y))) =
    (\<Union>ys \<in> set_option y. \<Union>x \<in> set ys. node_types (f x))"
  "node_exprs (concat (opt_nodes (map_option (map f) y))) =
    (\<Union>ys \<in> set_option y. \<Union>x \<in> set ys. node_exprs (f x))"
  by (cases y; simp add: node_concat_map)+

lemmas visited = visited_concat_map visited_opt_nodes visited_opt_concat
  node_concat_map node_opt_nodes node_opt_concat

lemma visited_types_type: "visited_types (visits_type t) = subtypes t"
  by (induction t) (auto simp: visited)

lemma visited_pairs:
  "visited_types (concat (map ((\<lambda>(x, y). x @ y) \<circ> map_prod f g) es)) =
    (\<Union>p \<in> set es. visited_types (f (fst p)) \<union> visited_types (g (snd p)))"
  "visited_exprs (concat (map ((\<lambda>(x, y). x @ y) \<circ> map_prod f g) es)) =
    (\<Union>p \<in> set es. visited_exprs (f (fst p)) \<union> visited_exprs (g (snd p)))"
  by (induction es) (auto simp: case_prod_beta')

lemma node_pairs:
  "node_types (concat (map ((\<lambda>(x, y). x @ y) \<circ> map_prod f g) es)) =
    (\<Union>p \<in> set es. node_types (f (fst p)) \<union> node_types (g (snd p)))"
  "node_exprs (concat (map ((\<lambda>(x, y). x @ y) \<circ> map_prod f g) es)) =
    (\<Union>p \<in> set es. node_exprs (f (fst p)) \<union> node_exprs (g (snd p)))"
  by (induction es) (auto simp: case_prod_beta')

lemma visited_exprs_type: "visited_exprs (visits_type t) = {}"
  by (induction t) (auto simp: visited)

lemma visited_all:
  "visited_exprs (visits_expr e) = node_exprs (nodes_expr e) \<and>
    visited_types (visits_expr e) = node_types (nodes_expr e)"
  "visited_exprs (visits_stmt s) = node_exprs (nodes_stmt s) \<and>
    visited_types (visits_stmt s) = node_types (nodes_stmt s)"
  "visited_exprs (visits_param p) = node_exprs (nodes_param p) \<and>
    visited_types (visits_param p) = node_types (nodes_param p)"
  "visited_exprs (visits_case c) = node_exprs (nodes_case c) \<and>
    visited_types (visits_case c) = node_types (nodes_case c)"
  by (induction e and s and p and c)
    (auto simp: visited visited_pairs node_pairs visited_types_type visited_exprs_type
      own_types_def fsts.simps snds.simps)

section \<open>Rewrites that change nothing\<close>

text \<open>A walk leaves a body alone when no hook changes what it is given there.\<close>

primrec fixes_visit :: "walker \<Rightarrow> visit \<Rightarrow> bool" where
  "fixes_visit F (VType t) = (w_type F t = t)"
| "fixes_visit F (VConstruct u n i) = (w_construct F u n i = (n, i))"
| "fixes_visit F (VExpr e) = (w_expr F e = e)"

lemma list_all_concat_mapD:
  "list_all P (concat (map f xs)) \<Longrightarrow> x \<in> set xs \<Longrightarrow> list_all P (f x)"
  by (auto simp: list_all_iff)

lemma map_fixed:
  assumes "\<And>x. x \<in> set xs \<Longrightarrow> list_all P (v x) \<Longrightarrow> f x = x"
    and "list_all P (concat (map v xs))"
  shows "map f xs = xs"
  using assms by (auto simp: list_all_iff intro!: map_idI)

lemma map_option_fixed:
  assumes "\<And>x. y = Some x \<Longrightarrow> list_all P (v x) \<Longrightarrow> f x = x"
    and "list_all P (opt_nodes (map_option v y))"
  shows "map_option f y = y"
  using assms by (cases y) auto

lemma map_named_fixed:
  assumes "\<And>p x. p \<in> set fs \<Longrightarrow> x \<in> Basic_BNFs.snds p \<Longrightarrow> list_all P (v x) \<Longrightarrow> f x = x"
    and "list_all P (concat (map (snd \<circ> map_prod id v) fs))"
  shows "map (map_prod id f) fs = fs"
  using assms by (fastforce simp: list_all_iff snds.simps intro!: map_idI map_prod_idI)

lemma map_pairs_fixed:
  assumes "\<And>p x. p \<in> set es \<Longrightarrow> x \<in> Basic_BNFs.fsts p \<Longrightarrow> list_all P (v x) \<Longrightarrow> f x = x"
    and "\<And>p x. p \<in> set es \<Longrightarrow> x \<in> Basic_BNFs.snds p \<Longrightarrow> list_all P (v x) \<Longrightarrow> f x = x"
    and "list_all P (concat (map ((\<lambda>(x, y). x @ y) \<circ> map_prod v v) es))"
  shows "map (map_prod f f) es = es"
proof (rule map_idI)
  fix p assume p: "p \<in> set es"
  then have "list_all P (v (fst p))" "list_all P (v (snd p))"
    using assms(3) by (fastforce simp: list_all_iff case_prod_beta')+
  then show "map_prod f f p = p"
    using assms(1,2) [OF p] by (intro map_prod_idI) (simp_all add: fsts.simps snds.simps)
qed

lemma map_opt_map_fixed:
  assumes "\<And>ys x. y = Some ys \<Longrightarrow> x \<in> set ys \<Longrightarrow> list_all P (v x) \<Longrightarrow> f x = x"
    and "list_all P (concat (opt_nodes (map_option (map v) y)))"
  shows "map_option (map f) y = y"
  using assms by (cases y) (auto simp: list_all_iff intro!: map_idI)

lemmas fixed_parts = map_fixed [where P = "fixes_visit F" for F]
  map_option_fixed [where P = "fixes_visit F" for F]
  map_named_fixed [where P = "fixes_visit F" for F]
  map_pairs_fixed [where P = "fixes_visit F" for F]
  map_opt_map_fixed [where P = "fixes_visit F" for F]

lemma walk_type_fixed: "list_all (fixes_visit F) (visits_type t) \<Longrightarrow> walk_type F t = t"
  by (induction t) (simp_all add: fixed_parts [where F = F and v = visits_type])

lemma walk_fixed:
  "list_all (fixes_visit F) (visits_expr e) \<Longrightarrow> walk_expr F e = e"
  "list_all (fixes_visit F) (visits_stmt s) \<Longrightarrow> walk_stmt F s = s"
  "list_all (fixes_visit F) (visits_param p) \<Longrightarrow> walk_param F p = p"
  "list_all (fixes_visit F) (visits_case c) \<Longrightarrow> walk_case F c = c"
  by (induction e and s and p and c)
    (simp_all add: walk_type_fixed fixed_parts [where F = F and v = visits_expr]
      fixed_parts [where F = F and v = visits_stmt] fixed_parts [where F = F and v = visits_param]
      fixed_parts [where F = F and v = visits_case])

section \<open>Rewrites that keep the shape\<close>

primrec walk_visit :: "walker \<Rightarrow> visit \<Rightarrow> visit" where
  "walk_visit F (VType t) = VType (walk_type F t)"
| "walk_visit F (VConstruct u n i) = VConstruct u (fst (w_construct F u n i)) (snd (w_construct F u n i))"
| "walk_visit F (VExpr e) = VExpr (walk_expr F e)"

definition visits_stmts :: "stmt list \<Rightarrow> visit list" where
  "visits_stmts ss = concat (map visits_stmt ss)"

lemma concat_map_visits:
  assumes "\<And>x. x \<in> set xs \<Longrightarrow> h (g x) = map r (h x)"
  shows "concat (map (h \<circ> g) xs) = map r (concat (map h xs))"
  using assms by (induction xs) auto

lemma opt_nodes_visits:
  assumes "\<And>x. y = Some x \<Longrightarrow> h (g x) = map r (h x)"
  shows "opt_nodes (map_option (h \<circ> g) y) = map r (opt_nodes (map_option h y))"
  using assms by (cases y) auto

lemma concat_named_visits:
  assumes "\<And>p x. p \<in> set fs \<Longrightarrow> x \<in> Basic_BNFs.snds p \<Longrightarrow> h (g x) = map r (h x)"
  shows "concat (map (snd \<circ> (map_prod id h \<circ> map_prod id g)) fs) =
    map r (concat (map (snd \<circ> map_prod id h) fs))"
  using concat_named_hom [where P = "\<lambda>_. True"] assms by (auto simp: list_all_iff)

lemma concat_pairs_visits:
  assumes "\<And>p x. p \<in> set es \<Longrightarrow> x \<in> Basic_BNFs.fsts p \<Longrightarrow> h (g x) = map r (h x)"
    and "\<And>p x. p \<in> set es \<Longrightarrow> x \<in> Basic_BNFs.snds p \<Longrightarrow> h (g x) = map r (h x)"
  shows "concat (map ((\<lambda>(x, y). x @ y) \<circ> (map_prod h h \<circ> map_prod g g)) es) =
    map r (concat (map ((\<lambda>(x, y). x @ y) \<circ> map_prod h h) es))"
  by (rule concat_pairs_hom [where P = "\<lambda>_. True"]) (auto simp: list_all_iff intro: assms)

lemma opt_concat_visits:
  assumes "\<And>ys x. y = Some ys \<Longrightarrow> x \<in> set ys \<Longrightarrow> h (g x) = map r (h x)"
  shows "concat (opt_nodes (map_option (map (h \<circ> g)) y)) =
    map r (concat (opt_nodes (map_option (map h) y)))"
  using assms by (cases y) (auto simp: concat_map_visits)

lemmas visit_homs = concat_map_visits opt_nodes_visits concat_named_visits concat_pairs_visits
  opt_concat_visits

lemma butlast_visits_type: "butlast (visits_type t) @ [VType t] = visits_type t"
  by (cases t) (simp_all add: butlast_append)

lemma butlast_visits_expr: "butlast (visits_expr e) @ [VExpr e] = visits_expr e"
  by (cases e) (simp_all add: butlast_append)

text \<open>
  The contract of a rewrite that replaces no node by one of another shape: what a hook returns has
  the parts of what it was given. Then the result is visited as the original was, each visit
  rewritten.
\<close>

locale shape_walk =
  fixes F :: walker
  assumes type_shape: "visits_type (w_type F t) = butlast (visits_type t) @ [VType (w_type F t)]"
    and expr_shape: "visits_expr (w_expr F e) = butlast (visits_expr e) @ [VExpr (w_expr F e)]"
    and construct_index: "(snd (w_construct F u n i) = None) = (i = None)"
begin

lemma construct_index_simps [simp]:
  "snd (w_construct F u n None) = None"
  "Some (case snd (w_construct F u n (Some i)) of None \<Rightarrow> i | Some j \<Rightarrow> j) = snd (w_construct F u n (Some i))"
  using construct_index [of u n "Some i"] by (auto simp: construct_index split: option.splits)

lemma visits_walk_type: "visits_type (walk_type F t) = map (walk_visit F) (visits_type t)"
  by (induction t)
    (simp_all add: type_shape butlast_append visit_homs [where r = "walk_visit F"])

lemma visits_walk:
  "visits_expr (walk_expr F e) = map (walk_visit F) (visits_expr e)"
  "visits_stmt (walk_stmt F s) = map (walk_visit F) (visits_stmt s)"
  "visits_param (walk_param F p) = map (walk_visit F) (visits_param p)"
  "visits_case (walk_case F c) = map (walk_visit F) (visits_case c)"
  by (induction e and s and p and c)
    (simp_all add: expr_shape butlast_append visits_walk_type option.map_comp
      visit_homs [where r = "walk_visit F"])

lemma visits_walk_stmts:
  "visits_stmts (map (walk_stmt F) ss) = map (walk_visit F) (visits_stmts ss)"
  by (induction ss) (simp_all add: visits_stmts_def visits_walk)

lemma visits_walk_params:
  "concat (map visits_param (map (walk_param F) ps)) =
    map (walk_visit F) (concat (map visits_param ps))"
  by (induction ps) (simp_all add: visits_walk)

lemma visits_walk_exprs:
  "concat (map visits_expr (map (walk_expr F) es)) =
    map (walk_visit F) (concat (map visits_expr es))"
  by (induction es) (simp_all add: visits_walk)

end

section \<open>Rewrites that ensure something\<close>

text \<open>Every construction among some visits.\<close>

fun construct_visit :: "(string \<Rightarrow> string \<Rightarrow> nat option \<Rightarrow> bool) \<Rightarrow> visit \<Rightarrow> bool" where
  "construct_visit P (VConstruct u n i) = P u n i"
| "construct_visit P v = True"

lemma list_all_concat_map [simp]: "list_all Q (concat (map f xs)) \<longleftrightarrow> (\<forall>x \<in> set xs. list_all Q (f x))"
  by (auto simp: list_all_iff)

lemma list_all_opt: "list_all Q (opt_nodes y) \<longleftrightarrow> (\<forall>xs. y = Some xs \<longrightarrow> list_all Q xs)"
  by (cases y) auto

lemma list_all_opt_concat:
  "list_all Q (concat (opt_nodes z)) \<longleftrightarrow> (\<forall>xss. z = Some xss \<longrightarrow> (\<forall>xs \<in> set xss. list_all Q xs))"
  by (cases z) (auto simp: list_all_iff)

lemma list_all_pair:
  "list_all Q (case map_prod f g p of (x, y) \<Rightarrow> x @ y) \<longleftrightarrow> list_all Q (f (fst p)) \<and> list_all Q (g (snd p))"
  by (cases p) auto

lemmas list_all_parts = list_all_opt list_all_opt_concat list_all_pair

text \<open>
  The contract of a rewrite after which something holds of every visit, when it holds of what a hook
  returns as soon as it holds of the parts of what the hook is given. Of the body before the walk only
  the constructions matter.
\<close>

locale ensuring_walk =
  fixes F :: walker and P :: "string \<Rightarrow> string \<Rightarrow> nat option \<Rightarrow> bool" and Q :: "visit \<Rightarrow> bool"
  assumes type_parts: "list_all Q (butlast (visits_type t)) \<Longrightarrow> list_all Q (visits_type (w_type F t))"
    and expr_parts: "list_all Q (butlast (visits_expr e)) \<Longrightarrow> list_all Q (visits_expr (w_expr F e))"
    and construct_part: "P u n i \<Longrightarrow> Q (VConstruct u (fst (w_construct F u n i)) (snd (w_construct F u n i)))"
    and construct_kind: "(snd (w_construct F u n i) = None) = (i = None)"
begin

lemma construct_parts:
  "P u n None \<Longrightarrow> Q (VConstruct u (fst (w_construct F u n None)) None)"
  "P u n (Some i) \<Longrightarrow> Q (VConstruct u (fst (w_construct F u n (Some i)))
    (Some (case snd (w_construct F u n (Some i)) of None \<Rightarrow> i | Some j \<Rightarrow> j)))"
  using construct_part [of u n None] construct_part [of u n "Some i"] construct_kind [of u n None]
    construct_kind [of u n "Some i"]
  by (auto split: option.splits)

lemma ensured_type: "list_all Q (visits_type (walk_type F t))"
  by (induction t) (auto intro!: type_parts simp: butlast_append)

lemma ensured:
  "list_all (construct_visit P) (visits_expr e) \<Longrightarrow> list_all Q (visits_expr (walk_expr F e))"
  "list_all (construct_visit P) (visits_stmt s) \<Longrightarrow> list_all Q (visits_stmt (walk_stmt F s))"
  "list_all (construct_visit P) (visits_param p) \<Longrightarrow> list_all Q (visits_param (walk_param F p))"
  "list_all (construct_visit P) (visits_case c) \<Longrightarrow> list_all Q (visits_case (walk_case F c))"
  by (induction e and s and p and c)
    (auto intro!: expr_parts construct_parts simp: ensured_type butlast_append list_all_parts
      fsts.simps snds.simps)

lemma ensured_stmts:
  "list_all (construct_visit P) (visits_stmts ss) \<Longrightarrow> list_all Q (visits_stmts (map (walk_stmt F) ss))"
  by (simp add: visits_stmts_def ensured)

end

section \<open>Properties\<close>

text \<open>
  A visitor whose hooks only rewrite computes \<open>walk_stmt\<close>: types before the expression that
  holds them, an expression after its children, whatever the state, which it does not touch.
\<close>

theorem visitor_rewrites:
  "run_state (visit_stmts (rewriting F) ss) s = (map (walk_stmt F) ss, s)"
  by (simp add: visit_stmts_rewriting)

text \<open>
  A visitor whose hooks only look sees every expression of a body, and every type any node of
  it holds with all types nested in that one, and it leaves the body as it is.
\<close>

theorem visitor_visits_everything:
  "run_state (visit_stmts (observing k) ss) s = (ss, fold k (visits_stmts ss) s) \<and>
    visited_exprs (visits_stmts ss) = node_exprs (nodes_stmts ss) \<and>
    visited_types (visits_stmts ss) = node_types (nodes_stmts ss)"
  by (simp add: visit_stmts_def visits_stmts_def nodes_stmts_def visit_observing visited visited_all
      seq_logs [where k = k and v = visits_stmt])

end
