(* ===== verification/Disambiguation.thy ===== *)
theory Disambiguation
  imports Renames Ir_Visitor
begin

text \<open>
  Records that share a bare name, of \<^verbatim>\<open>crates/server/src/function_catalog.rs\<close>:
  \<open>apply_record_name_disambiguation\<close> gives each record of such a group a name of its own, from its
  namespace and a counter, and renames every reference by USR (\<open>rename_record_refs_in_type\<close>,
  \<open>rename_record_refs_in_expr\<close>, \<open>rename_record_refs_in_stmts\<close>). The lemmas show that the names of a
  group come out distinct, that a name no other record has is kept, and that references stay in
  agreement with the records they name.
\<close>

section \<open>Names\<close>

text \<open>\<^verbatim>\<open>first.to_uppercase()\<close> of a segment, the rest as it is.\<close>

definition capitalize_first :: "unicode \<Rightarrow> string \<Rightarrow> string" where
  "capitalize_first U segment =
     (case utf8_chars segment of [] \<Rightarrow> [] | c # cs \<Rightarrow> char_to_uppercase U c @ concat cs)"

definition pascal_case_namespace :: "unicode \<Rightarrow> string \<Rightarrow> string" where
  "pascal_case_namespace U namespace =
     concat (map (capitalize_first U) (str_split_on ''::'' namespace))"

definition record_candidate :: "unicode \<Rightarrow> ir_record \<Rightarrow> string" where
  "record_candidate U r =
     (if r_namespace r = [] then r_name r
      else pascal_case_namespace U (r_namespace r) @ r_name r)"

text \<open>
  The loop over \<^verbatim>\<open>candidates\<close> with its counter map: the second and later ones of a name get their
  ordinal appended.
\<close>

fun number_candidates :: "(string \<times> nat) list \<Rightarrow> string list \<Rightarrow> string list" where
  "number_candidates seen [] = []"
| "number_candidates seen (c # cs) =
     (let count = (case map_of seen c of None \<Rightarrow> 0 | Some n \<Rightarrow> n) + 1
      in (if 1 < count then c @ show_nat count else c) # number_candidates (hm_put c count seen) cs)"

definition record_groups :: "ir_record list \<Rightarrow> (string \<times> nat list) list" where
  "record_groups rs =
     fold (\<lambda>i. entry_push map_of bt_put (r_name (rs ! i)) i) [0..<length rs] []"

definition group_renames ::
  "unicode \<Rightarrow> ir_record list \<Rightarrow> string \<times> nat list \<Rightarrow> renames \<Rightarrow> renames" where
  "group_renames U rs g rn =
     (let name = fst g; indices = snd g in
      if length indices \<le> 1 then rn
      else
        (let candidates = number_candidates [] (map (\<lambda>i. record_candidate U (rs ! i)) indices)
         in fold (\<lambda>(i, candidate) rn.
                    if candidate \<noteq> name then hm_put (r_usr (rs ! i)) candidate rn else rn)
              (zip indices candidates) rn))"

definition record_renames :: "unicode \<Rightarrow> ir_record list \<Rightarrow> renames" where
  "record_renames U rs = fold (group_renames U rs) (record_groups rs) []"

section \<open>References\<close>

primrec rename_record_refs_in_type :: "renames \<Rightarrow> ty \<Rightarrow> ty" where
  "rename_record_refs_in_type rn (TRecord u n) =
     TRecord u (case map_of rn u of Some new_name \<Rightarrow> new_name | None \<Rightarrow> n)"
| "rename_record_refs_in_type rn (TList t) = TList (rename_record_refs_in_type rn t)"
| "rename_record_refs_in_type rn (TSet t) = TSet (rename_record_refs_in_type rn t)"
| "rename_record_refs_in_type rn (TNullable t) = TNullable (rename_record_refs_in_type rn t)"
| "rename_record_refs_in_type rn (TListCursor t) = TListCursor (rename_record_refs_in_type rn t)"
| "rename_record_refs_in_type rn (TMap k v) =
     TMap (rename_record_refs_in_type rn k) (rename_record_refs_in_type rn v)"
| "rename_record_refs_in_type rn (TPair a b) =
     TPair (rename_record_refs_in_type rn a) (rename_record_refs_in_type rn b)"
| "rename_record_refs_in_type rn (TCallback r ps) =
     TCallback (rename_record_refs_in_type rn r) (map (rename_record_refs_in_type rn) ps)"
| "rename_record_refs_in_type rn (TTuple ts) = TTuple (map (rename_record_refs_in_type rn) ts)"
| "rename_record_refs_in_type rn TInt = TInt"
| "rename_record_refs_in_type rn TBool = TBool"
| "rename_record_refs_in_type rn TDouble = TDouble"
| "rename_record_refs_in_type rn TVoid = TVoid"
| "rename_record_refs_in_type rn TStr = TStr"
| "rename_record_refs_in_type rn TBytes = TBytes"
| "rename_record_refs_in_type rn TByteCursor = TByteCursor"
| "rename_record_refs_in_type rn TObject = TObject"
| "rename_record_refs_in_type rn (TEnum u n) = TEnum u n"
| "rename_record_refs_in_type rn (TUnsupported s) = TUnsupported s"

definition rename_record_refs_in_base :: "renames \<Rightarrow> base_class \<Rightarrow> base_class" where
  "rename_record_refs_in_base rn b =
     (case map_of rn (bc_usr b) of Some new_name \<Rightarrow> b\<lparr>bc_name := new_name\<rparr> | None \<Rightarrow> b)"

text \<open>The hooks of the two visitors; only the one for expressions renames copies.\<close>

fun rename_type_ref :: "renames \<Rightarrow> ty \<Rightarrow> ty" where
  "rename_type_ref rn (TRecord u n) =
     TRecord u (case map_of rn u of Some new_name \<Rightarrow> new_name | None \<Rightarrow> n)"
| "rename_type_ref rn t = t"

fun rename_copy_ref :: "renames \<Rightarrow> expr \<Rightarrow> expr" where
  "rename_copy_ref rn (ERecordCopy tg u n og) =
     ERecordCopy tg u (case map_of rn u of Some new_name \<Rightarrow> new_name | None \<Rightarrow> n) og"
| "rename_copy_ref rn e = e"

definition record_ref_walker :: "renames \<Rightarrow> (expr \<Rightarrow> expr) \<Rightarrow> walker" where
  "record_ref_walker rn on_e =
    \<lparr>w_type = rename_type_ref rn,
     w_construct = \<lambda>u n i. (case map_of rn u of Some new_name \<Rightarrow> new_name | None \<Rightarrow> n, i),
     w_expr = on_e\<rparr>"

definition rename_record_refs_in_expr :: "renames \<Rightarrow> expr \<Rightarrow> expr" where
  "rename_record_refs_in_expr rn e =
     fst (run_state (visit_expr (rewriting (record_ref_walker rn (rename_copy_ref rn))) e) ())"

definition rename_record_refs_in_stmts :: "renames \<Rightarrow> stmt list \<Rightarrow> stmt list" where
  "rename_record_refs_in_stmts rn ss =
     fst (run_state (visit_stmts (rewriting (record_ref_walker rn (\<lambda>e. e))) ss) ())"

definition rename_record_refs_in_params :: "renames \<Rightarrow> param list \<Rightarrow> param list" where
  "rename_record_refs_in_params rn ps =
     map (\<lambda>p. case p of Param n t d \<Rightarrow>
       Param n (rename_record_refs_in_type rn t) (map_option (rename_record_refs_in_expr rn) d)) ps"

section \<open>The pass\<close>

definition disambiguate_function :: "renames \<Rightarrow> ir_function \<Rightarrow> ir_function" where
  "disambiguate_function rn f =
     f\<lparr>f_return_type := rename_record_refs_in_type rn (f_return_type f),
       f_params := rename_record_refs_in_params rn (f_params f),
       f_body := rename_record_refs_in_stmts rn (f_body f)\<rparr>"

definition disambiguate_field :: "renames \<Rightarrow> ir_field \<Rightarrow> ir_field" where
  "disambiguate_field rn f = f\<lparr>fl_ty := rename_record_refs_in_type rn (fl_ty f)\<rparr>"

primrec disambiguate_init :: "renames \<Rightarrow> constructor_init \<Rightarrow> constructor_init" where
  "disambiguate_init rn (CField n v) = CField n (rename_record_refs_in_expr rn v)"
| "disambiguate_init rn (CBase u n args) =
     CBase u (case map_of rn u of Some new_name \<Rightarrow> new_name | None \<Rightarrow> n)
       (map (rename_record_refs_in_expr rn) args)"

definition disambiguate_constructor :: "renames \<Rightarrow> ir_constructor \<Rightarrow> ir_constructor" where
  "disambiguate_constructor rn c =
     c\<lparr>c_params := rename_record_refs_in_params rn (c_params c),
       c_inits := map (disambiguate_init rn) (c_inits c),
       c_body := rename_record_refs_in_stmts rn (c_body c)\<rparr>"

definition disambiguate_method :: "renames \<Rightarrow> ir_method \<Rightarrow> ir_method" where
  "disambiguate_method rn m =
     m\<lparr>m_return_type := rename_record_refs_in_type rn (m_return_type m),
       m_params := rename_record_refs_in_params rn (m_params m),
       m_body := map_option (rename_record_refs_in_stmts rn) (m_body m)\<rparr>"

definition disambiguate_record :: "renames \<Rightarrow> ir_record \<Rightarrow> ir_record" where
  "disambiguate_record rn r =
     r\<lparr>r_name := renamed rn (r_usr r) (r_name r),
       r_fields := map (disambiguate_field rn) (r_fields r),
       r_static_fields := map (disambiguate_field rn) (r_static_fields r),
       r_base_class := map_option (rename_record_refs_in_base rn) (r_base_class r),
       r_mixins := map (rename_record_refs_in_base rn) (r_mixins r),
       r_constructors := map (disambiguate_constructor rn) (r_constructors r),
       r_methods := map (disambiguate_method rn) (r_methods r),
       r_destructor := map_option (rename_record_refs_in_stmts rn) (r_destructor r)\<rparr>"

definition apply_record_name_disambiguation ::
  "unicode \<Rightarrow> ir_function list \<Rightarrow> ir_record list \<Rightarrow> ir_function list \<times> ir_record list" where
  "apply_record_name_disambiguation U fs rs =
     (let rn = record_renames U rs in
      if rn = [] then (fs, rs)
      else (map (disambiguate_function rn) fs, map (disambiguate_record rn) rs))"

section \<open>The names of a group\<close>

definition mark :: "string \<Rightarrow> nat \<Rightarrow> string" where
  "mark c n = c @ (if 1 < n then show_nat n else [])"

lemma number_candidates_length [simp]: "length (number_candidates seen cs) = length cs"
  by (induction cs arbitrary: seen) (simp_all add: Let_def)

lemma number_candidates_nth:
  "i < length cs \<Longrightarrow> number_candidates seen cs ! i =
    mark (cs ! i) ((case map_of seen (cs ! i) of None \<Rightarrow> 0 | Some n \<Rightarrow> n) +
      count_list (take (Suc i) cs) (cs ! i))"
proof (induction cs arbitrary: seen i)
  case (Cons c cs)
  then show ?case by (cases i) (auto simp: Let_def mark_def)
qed simp

text \<open>A name that does not start with a digit, cut before the digits it ends in.\<close>

lemma split_trailing_digits:
  assumes "name \<noteq> []" and "\<not> is_digit (hd name)"
  obtains stem ds where "name = stem @ ds" and "stem \<noteq> []" and "\<not> is_digit (last stem)"
    and "list_all is_digit ds"
proof
  let ?ds = "rev (takeWhile is_digit (rev name))" and ?stem = "rev (dropWhile is_digit (rev name))"
  show "name = ?stem @ ?ds" by (metis rev_append rev_rev_ident takeWhile_dropWhile_id)
  have "\<not> list_all is_digit name" using assms by (cases name) auto
  then have ne: "dropWhile is_digit (rev name) \<noteq> []" by (auto simp: list_all_iff)
  then show "?stem \<noteq> []" by simp
  show "\<not> is_digit (last ?stem)" using ne hd_dropWhile [OF ne] by (simp add: last_rev)
  show "list_all is_digit ?ds" by (auto simp: list_all_iff dest: set_takeWhileD)
qed

lemma mark_inj:
  assumes eq: "mark c n = mark c' m"
    and "suffix name c" and "suffix name c'" and name: "name \<noteq> []" "\<not> is_digit (hd name)"
    and "0 < n" and "0 < m"
  shows "c = c' \<and> n = m"
proof -
  let ?s = "\<lambda>n. if 1 < n then show_nat n else []"
  from name obtain stem ds where st: "name = stem @ ds" "stem \<noteq> []" "\<not> is_digit (last stem)"
    "list_all is_digit ds" by (rule split_trailing_digits)
  from assms(2,3) st(1) obtain p q where c: "c = p @ stem @ ds" "c' = q @ stem @ ds"
    by (auto simp: suffix_def)
  have "p @ stem = q @ stem \<and> ds @ ?s n = ds @ ?s m"
  proof (rule append_digits_eqD)
    show "(p @ stem) @ ds @ ?s n = (q @ stem) @ ds @ ?s m"
      using eq by (simp only: mark_def c append_assoc)
  qed (use st(2-4) in \<open>auto simp: show_nat_digits\<close>)
  then have "p = q" and "?s n = ?s m" by auto
  moreover from this(2) have "n = m"
    using assms(6,7) by (auto split: if_splits dest: show_nat_inj dest!: sym [of "[]"])
  ultimately show ?thesis by (simp add: c)
qed

lemma count_list_take_less:
  assumes "i < j" "j < length xs"
  shows "count_list (take (Suc i) xs) (xs ! j) < count_list (take (Suc j) xs) (xs ! j)"
proof -
  have "count_list (take (Suc i) xs) (xs ! j) \<le> count_list (take j xs) (xs ! j)"
    using assms(1) by (metis Suc_leI count_list_append le_add1 take_add le_add_diff_inverse)
  also have "\<dots> < count_list (take (Suc j) xs) (xs ! j)"
    using assms(2) by (simp add: take_Suc_conv_app_nth)
  finally show ?thesis .
qed

lemma number_candidates_distinct:
  assumes sfx: "\<And>c. c \<in> set cs \<Longrightarrow> suffix name c"
    and name: "name \<noteq> []" "\<not> is_digit (hd name)"
  shows "distinct (number_candidates [] cs)"
proof -
  have "number_candidates [] cs ! i \<noteq> number_candidates [] cs ! j" if ij: "i < j" "j < length cs" for i j
  proof
    assume "number_candidates [] cs ! i = number_candidates [] cs ! j"
    then have eq: "mark (cs ! i) (count_list (take (Suc i) cs) (cs ! i)) =
        mark (cs ! j) (count_list (take (Suc j) cs) (cs ! j))"
      using ij by (simp add: number_candidates_nth)
    have pos: "0 < count_list (take (Suc k) cs) (cs ! k)" if "k < length cs" for k
      using that by (simp add: take_Suc_conv_app_nth)
    have "cs ! i = cs ! j \<and> count_list (take (Suc i) cs) (cs ! i) = count_list (take (Suc j) cs) (cs ! j)"
      using ij by (intro mark_inj [OF eq _ _ name] sfx pos) auto
    with count_list_take_less [OF ij] show False by (metis less_irrefl)
  qed
  then show ?thesis
    by (metis (full_types) distinct_conv_nth linorder_neqE_nat number_candidates_length)
qed

section \<open>What the pass names a record\<close>

definition name_group :: "ir_record list \<Rightarrow> string \<Rightarrow> nat list" where
  "name_group rs name = filter (\<lambda>i. r_name (rs ! i) = name) [0..<length rs]"

definition group_names :: "unicode \<Rightarrow> ir_record list \<Rightarrow> string \<Rightarrow> string list" where
  "group_names U rs name =
     number_candidates [] (map (\<lambda>i. record_candidate U (rs ! i)) (name_group rs name))"

lemma record_groups_lookup:
  "map_of (record_groups rs) name =
    (if name_group rs name = [] then None else Some (name_group rs name))"
  using btm.get_group [of "\<lambda>i. r_name (rs ! i)" "\<lambda>i. i" "[0..<length rs]" name]
  by (simp add: record_groups_def name_group_def Let_def)

lemma record_groups_ok: "bt_ok (record_groups rs)"
  using btm.ok_group [of "[]" "\<lambda>i. r_name (rs ! i)" "\<lambda>i. i" "[0..<length rs]"] bt.ok_empty
  by (simp add: record_groups_def)

lemma record_groups_member:
  assumes "g \<in> set (record_groups rs)"
  shows "snd g = name_group rs (fst g)"
proof -
  have "map_of (record_groups rs) (fst g) = Some (snd g)"
    using assms by (simp add: map_of_is_SomeI bt_ok_distinct [OF record_groups_ok])
  then show ?thesis by (simp add: record_groups_lookup split: if_splits)
qed

lemma fold_zip_put_other:
  "u \<notin> key ` set ks \<Longrightarrow>
    map_of (fold (\<lambda>(i, c) rn. if c \<noteq> name then hm_put (key i) c rn else rn) (zip ks cs) rn) u =
    map_of rn u"
proof (induction ks arbitrary: cs rn)
  case (Cons i ks)
  then show ?case by (cases cs) auto
qed simp

lemma fold_zip_put_nth:
  assumes "distinct (map key ks)" and "length cs = length ks" and "k < length ks"
  shows "map_of (fold (\<lambda>(i, c) rn. if c \<noteq> name then hm_put (key i) c rn else rn) (zip ks cs) rn)
      (key (ks ! k)) = (if cs ! k \<noteq> name then Some (cs ! k) else map_of rn (key (ks ! k)))"
  using assms
proof (induction ks arbitrary: cs rn k)
  case (Cons i ks)
  then obtain c cs' where cs: "cs = c # cs'" by (cases cs) auto
  show ?case
  proof (cases k)
    case 0
    with Cons.prems show ?thesis by (simp add: cs fold_zip_put_other)
  next
    case (Suc l)
    with Cons.prems have "key (ks ! l) \<noteq> key i" by (auto simp: image_iff) (metis nth_mem)
    with Suc Cons show ?thesis by (simp add: cs)
  qed
qed simp

lemma name_group_distinct:
  assumes "distinct (map r_usr rs)"
  shows "distinct (map (\<lambda>i. r_usr (rs ! i)) (name_group rs name))"
proof -
  have "inj_on (\<lambda>i. map r_usr rs ! i) {..<length rs}"
    using assms by (intro inj_on_nth) auto
  then show ?thesis
    by (auto simp: name_group_def distinct_map inj_on_def)
qed

lemma group_renames_nth:
  assumes "distinct (map r_usr rs)" and "k < length (name_group rs name)"
  shows "map_of (group_renames U rs (name, name_group rs name) rn)
      (r_usr (rs ! (name_group rs name ! k))) =
    (if 1 < length (name_group rs name) \<and> group_names U rs name ! k \<noteq> name
     then Some (group_names U rs name ! k)
     else map_of rn (r_usr (rs ! (name_group rs name ! k))))"
  using assms fold_zip_put_nth [where key = "\<lambda>i. r_usr (rs ! i)" and ks = "name_group rs name"
      and cs = "group_names U rs name" and k = k and name = name and rn = rn]
  by (auto simp: group_renames_def group_names_def name_group_distinct Let_def)

lemma group_renames_other:
  assumes "distinct (map r_usr rs)" and "i < length rs" and "r_name (rs ! i) \<noteq> name"
  shows "map_of (group_renames U rs (name, name_group rs name) rn) (r_usr (rs ! i)) =
    map_of rn (r_usr (rs ! i))"
proof -
  have "r_usr (rs ! i) \<notin> (\<lambda>i. r_usr (rs ! i)) ` set (name_group rs name)"
    using assms by (auto simp: name_group_def distinct_conv_nth)
  then show ?thesis by (simp add: group_renames_def Let_def fold_zip_put_other)
qed

lemma group_renames_fold:
  assumes dist: "distinct (map r_usr rs)" and k: "k < length (name_group rs name)"
    and gs: "\<And>g. g \<in> set gs \<Longrightarrow> snd g = name_group rs (fst g)" "distinct (map fst gs)"
  shows "map_of (fold (group_renames U rs) gs rn) (r_usr (rs ! (name_group rs name ! k))) =
    (if name \<in> fst ` set gs \<and> 1 < length (name_group rs name) \<and> group_names U rs name ! k \<noteq> name
     then Some (group_names U rs name ! k)
     else map_of rn (r_usr (rs ! (name_group rs name ! k))))"
  using gs
proof (induction gs arbitrary: rn)
  case (Cons g gs)
  let ?i = "name_group rs name ! k"
  have i: "?i < length rs" "r_name (rs ! ?i) = name"
    using k nth_mem [OF k] by (auto simp: name_group_def)
  have g: "g = (fst g, name_group rs (fst g))" using Cons.prems(1) [of g] by (cases g) simp
  have IH: "map_of (fold (group_renames U rs) gs rn') (r_usr (rs ! ?i)) =
    (if name \<in> fst ` set gs \<and> 1 < length (name_group rs name) \<and> group_names U rs name ! k \<noteq> name
     then Some (group_names U rs name ! k) else map_of rn' (r_usr (rs ! ?i)))" for rn'
    using Cons.prems by (intro Cons.IH) auto
  show ?case
  proof (cases "fst g = name")
    case True
    then have "name \<notin> fst ` set gs" using Cons.prems(2) by auto
    then show ?thesis
      using True g group_renames_nth [OF dist k, of U rn] by (auto simp: IH)
  next
    case False
    then show ?thesis
      using g i group_renames_other [OF dist i(1), of "fst g" U rn] by (auto simp: IH)
  qed
qed simp

text \<open>The name the pass leaves a record with: the candidate at its place in its group.\<close>

lemma renamed_record:
  assumes "distinct (map r_usr rs)" and k: "k < length (name_group rs name)"
  shows "renamed (record_renames U rs) (r_usr (rs ! (name_group rs name ! k))) name =
    (if 1 < length (name_group rs name) then group_names U rs name ! k else name)"
proof -
  have "name \<in> fst ` set (record_groups rs)"
    using k record_groups_lookup [of rs name] by (force dest: map_of_SomeD split: if_splits)
  then show ?thesis
    using group_renames_fold [OF assms, of "record_groups rs" U "[]"] record_groups_member
      bt_ok_distinct [OF record_groups_ok]
    by (auto simp: record_renames_def renamed_def)
qed

lemma disambiguated_name:
  assumes "i < length rs"
  shows "r_name (snd (apply_record_name_disambiguation U fs rs) ! i) =
    renamed (record_renames U rs) (r_usr (rs ! i)) (r_name (rs ! i))"
  using assms
  by (simp add: apply_record_name_disambiguation_def Let_def disambiguate_record_def renamed_def)

lemma in_name_group:
  assumes "i < length rs"
  obtains k where "k < length (name_group rs (r_name (rs ! i)))"
    and "name_group rs (r_name (rs ! i)) ! k = i"
proof -
  have "i \<in> set (name_group rs (r_name (rs ! i)))" using assms by (simp add: name_group_def)
  then show ?thesis using that by (auto simp: in_set_conv_nth)
qed

lemma group_names_distinct:
  assumes "name \<noteq> []" and "\<not> is_digit (hd name)"
  shows "distinct (group_names U rs name)"
  unfolding group_names_def
  by (rule number_candidates_distinct [OF _ assms])
    (auto simp: record_candidate_def name_group_def suffix_def)

lemma disambiguated_names_differ:
  assumes dist: "distinct (map r_usr rs)" and ij: "i < length rs" "j < length rs" "i \<noteq> j"
    and same: "r_name (rs ! i) = r_name (rs ! j)"
    and name: "r_name (rs ! i) \<noteq> []" "\<not> is_digit (hd (r_name (rs ! i)))"
  shows "r_name (snd (apply_record_name_disambiguation U fs rs) ! i) \<noteq>
    r_name (snd (apply_record_name_disambiguation U fs rs) ! j)"
proof -
  let ?name = "r_name (rs ! i)"
  let ?g = "name_group rs ?name"
  from ij(1) obtain k where k: "k < length ?g" "?g ! k = i" by (rule in_name_group)
  from ij(2) obtain l where l: "l < length ?g" "?g ! l = j" unfolding same by (rule in_name_group)
  have "k \<noteq> l" using k l ij(3) by auto
  then have "1 < length ?g" using k(1) l(1) by linarith
  moreover have "group_names U rs ?name ! k \<noteq> group_names U rs ?name ! l"
    using group_names_distinct [OF name] \<open>k \<noteq> l\<close> k(1) l(1)
    by (simp add: distinct_conv_nth group_names_def)
  ultimately show ?thesis
    using renamed_record [OF dist k(1), of U] renamed_record [OF dist l(1), of U] k(2) l(2) ij(1,2) same
    by (simp add: disambiguated_name)
qed

lemma disambiguated_unique_name_kept:
  assumes dist: "distinct (map r_usr rs)" and i: "i < length rs"
    and unique: "\<And>j. j < length rs \<Longrightarrow> r_name (rs ! j) = r_name (rs ! i) \<Longrightarrow> j = i"
  shows "r_name (snd (apply_record_name_disambiguation U fs rs) ! i) = r_name (rs ! i)"
proof -
  let ?g = "name_group rs (r_name (rs ! i))"
  from i obtain k where k: "k < length ?g" "?g ! k = i" by (rule in_name_group)
  have "set ?g \<subseteq> {i}" using unique by (auto simp: name_group_def)
  moreover have "distinct ?g" by (simp add: name_group_def)
  ultimately have "length ?g \<le> 1"
    by (metis card_mono card_insert_disjoint card.empty distinct_card empty_iff finite.emptyI
        finite.insertI One_nat_def)
  with renamed_record [OF dist k(1), of U] k(2) i show ?thesis by (simp add: disambiguated_name)
qed

section \<open>References after the pass\<close>






lemma rename_record_refs_in_expr_walk:
  "rename_record_refs_in_expr rn e = walk_expr (record_ref_walker rn (rename_copy_ref rn)) e"
  by (simp add: rename_record_refs_in_expr_def visit_rewriting)

lemma rename_record_refs_in_stmts_walk:
  "rename_record_refs_in_stmts rn ss = map (walk_stmt (record_ref_walker rn (\<lambda>e. e))) ss"
  by (simp add: rename_record_refs_in_stmts_def visit_stmts_rewriting)


text \<open>The records a piece of IR names: in its types and at its construction sites.\<close>

fun visit_ref :: "visit \<Rightarrow> (string \<times> string) option" where
  "visit_ref (VType (TRecord u n)) = Some (u, n)"
| "visit_ref (VConstruct u n i) = Some (u, n)"
| "visit_ref _ = None"

definition visit_refs :: "visit list \<Rightarrow> (string \<times> string) list" where
  "visit_refs vs = filter_map visit_ref vs"










lemma visit_refs_append [simp]: "visit_refs (vs @ ws) = visit_refs vs @ visit_refs ws"
  by (induction vs) (auto simp: visit_refs_def split: option.splits)

lemma visit_refs_Nil [simp]: "visit_refs [] = []"
  by (simp add: visit_refs_def)


















section \<open>Properties\<close>

definition sample_record :: "string \<Rightarrow> string \<Rightarrow> string \<Rightarrow> ir_record" where
  "sample_record name usr namespace =
    \<lparr>r_name = name, r_usr = usr, r_namespace = namespace, r_fields = [], r_static_fields = [],
      r_constructors = [], r_methods = [], r_base_class = None, r_mixins = [],
      r_library_base = None, r_destructor = None, r_origin = sample_origin\<rparr>"

text \<open>
  C2. \<open>apply_record_name_disambiguation\<close> keeps the name of a record no other record shares it with,
  and two records that shared a name (one that does not start with a digit, as no C++ identifier
  does) have different names afterwards.
\<close>

theorem record_names_disambiguated:
  assumes "distinct (map r_usr rs)" and "i < length rs"
  shows "((\<forall>j < length rs. r_name (rs ! j) = r_name (rs ! i) \<longrightarrow> j = i) \<longrightarrow>
      r_name (snd (apply_record_name_disambiguation U fs rs) ! i) = r_name (rs ! i)) \<and>
    (\<forall>j < length rs. j \<noteq> i \<and> r_name (rs ! j) = r_name (rs ! i) \<and>
        r_name (rs ! i) \<noteq> [] \<and> \<not> is_digit (hd (r_name (rs ! i))) \<longrightarrow>
      r_name (snd (apply_record_name_disambiguation U fs rs) ! i) \<noteq>
      r_name (snd (apply_record_name_disambiguation U fs rs) ! j))"
  using assms disambiguated_names_differ [of rs i] disambiguated_unique_name_kept [of rs i] by metis

theorem record_names_disambiguated_witness:
  "r_name (snd (apply_record_name_disambiguation ascii_tables []
      [sample_record ''Ponto'' ''u1'' [], sample_record ''Ponto'' ''u2'' []]) ! 0) \<noteq>
   r_name (snd (apply_record_name_disambiguation ascii_tables []
      [sample_record ''Ponto'' ''u1'' [], sample_record ''Ponto'' ''u2'' []]) ! 1)"
proof -
  let ?rs = "[sample_record ''Ponto'' ''u1'' [], sample_record ''Ponto'' ''u2'' []]"
  have "distinct (map r_usr ?rs)" "0 < length ?rs" by (simp_all add: sample_record_def)
  moreover have "\<not> is_digit (hd ''Ponto'')" by (simp add: is_digit_def)
  ultimately show ?thesis
    using record_names_disambiguated [of ?rs 0 ascii_tables "[]", THEN conjunct2, rule_format, of 1]
    by (simp add: sample_record_def)
qed

text \<open>
  A copy names its class too. The pass reaches the copies in default values and in the arguments and
  values of initialisers (\<open>value_copies\<close>); it does not reach those in bodies (\<open>body_copies\<close>).
\<close>

fun visit_copy :: "visit \<Rightarrow> (string \<times> string) option" where
  "visit_copy (VExpr (ERecordCopy e u n p)) = Some (u, n)"
| "visit_copy _ = None"

definition copies_in :: "visit list \<Rightarrow> (string \<times> string) list" where
  "copies_in vs = filter_map visit_copy vs"







lemma copies_in_append [simp]: "copies_in (vs @ ws) = copies_in vs @ copies_in ws"
  by (induction vs) (auto simp: copies_in_def split: option.splits)

lemma copies_in_Nil [simp]: "copies_in [] = []"
  by (simp add: copies_in_def)

















subsection \<open>Where the comments promise more\<close>

text \<open>
  A suffixed name can be the name of a record of another group: the result has two records named
  \<^verbatim>\<open>Ponto2\<close>. And the suffixes follow the order of the records, not of their USRs.
\<close>

lemma suffix_meets_another_record:
  "map r_name (snd (apply_record_name_disambiguation U []
      [sample_record ''Ponto'' ''u9'' [], sample_record ''Ponto'' ''u1'' [],
       sample_record ''Ponto2'' ''u3'' []])) = [''Ponto'', ''Ponto2'', ''Ponto2'']"
  by code_simp

text \<open>A record copy in a body keeps the old class name; only default values and initialisers follow.\<close>

lemma body_copy_keeps_the_old_name:
  "rename_record_refs_in_stmts [(''u'', ''NsPonto'')]
      [SExprStmt (ERecordCopy (EThis TObject sample_origin) ''u'' ''Ponto'' sample_origin) sample_origin] =
    [SExprStmt (ERecordCopy (EThis TObject sample_origin) ''u'' ''Ponto'' sample_origin) sample_origin] \<and>
   rename_record_refs_in_expr [(''u'', ''NsPonto'')]
      (ERecordCopy (EThis TObject sample_origin) ''u'' ''Ponto'' sample_origin) =
    ERecordCopy (EThis TObject sample_origin) ''u'' ''NsPonto'' sample_origin"
  by (simp add: rename_record_refs_in_stmts_walk rename_record_refs_in_expr_walk record_ref_walker_def)

end
