(* ===== verification/Enum_Refs.thy ===== *)
theory Enum_Refs
  imports Ir_Visitor Renames
begin

text \<open>
  \<open>reject_undeclared_enum_refs\<close> of \<^verbatim>\<open>crates/server/src/function_catalog.rs\<close>: a type that names an
  enum the finished catalog does not declare becomes an unsupported type, so that no body refers to
  a Dart class no file declares. The lemmas show that no type in a body, at any depth, is an
  undeclared enum afterwards, and that a module whose enums are all declared is left as it is.
\<close>

section \<open>The pass\<close>

fun reject :: "string set \<Rightarrow> ty \<Rightarrow> ty" where
  "reject declared (TEnum u n) = (if u \<in> declared then TEnum u n else TUnsupported n)"
| "reject declared t = t"

definition reject_walker :: "string set \<Rightarrow> walker" where
  "reject_walker declared =
    \<lparr>w_type = reject declared, w_construct = \<lambda>u n i. (n, i), w_expr = \<lambda>e. e\<rparr>"

definition reject_in_expr :: "string set \<Rightarrow> expr \<Rightarrow> expr" where
  "reject_in_expr declared e = fst (run_state (visit_expr (rewriting (reject_walker declared)) e) ())"

definition reject_in_stmts :: "string set \<Rightarrow> stmt list \<Rightarrow> stmt list" where
  "reject_in_stmts declared ss =
     fst (run_state (visit_stmts (rewriting (reject_walker declared)) ss) ())"

text \<open>A parameter's type is only looked at itself; its default value is walked.\<close>

definition reject_in_params :: "string set \<Rightarrow> param list \<Rightarrow> param list" where
  "reject_in_params declared ps =
     map (\<lambda>p. case p of Param n t d \<Rightarrow>
       Param n (reject declared t) (map_option (reject_in_expr declared) d)) ps"

definition reject_in_function :: "string set \<Rightarrow> ir_function \<Rightarrow> ir_function" where
  "reject_in_function declared f =
     f\<lparr>f_return_type := reject declared (f_return_type f),
       f_params := reject_in_params declared (f_params f),
       f_body := reject_in_stmts declared (f_body f)\<rparr>"

definition reject_in_field :: "string set \<Rightarrow> ir_field \<Rightarrow> ir_field" where
  "reject_in_field declared f = f\<lparr>fl_ty := reject declared (fl_ty f)\<rparr>"

primrec reject_in_init :: "string set \<Rightarrow> constructor_init \<Rightarrow> constructor_init" where
  "reject_in_init declared (CField n v) = CField n (reject_in_expr declared v)"
| "reject_in_init declared (CBase u n args) = CBase u n (map (reject_in_expr declared) args)"

definition reject_in_constructor :: "string set \<Rightarrow> ir_constructor \<Rightarrow> ir_constructor" where
  "reject_in_constructor declared c =
     c\<lparr>c_params := reject_in_params declared (c_params c),
       c_inits := map (reject_in_init declared) (c_inits c),
       c_body := reject_in_stmts declared (c_body c)\<rparr>"

definition reject_in_method :: "string set \<Rightarrow> ir_method \<Rightarrow> ir_method" where
  "reject_in_method declared m =
     m\<lparr>m_return_type := reject declared (m_return_type m),
       m_params := reject_in_params declared (m_params m),
       m_body := map_option (reject_in_stmts declared) (m_body m)\<rparr>"

definition reject_in_record :: "string set \<Rightarrow> ir_record \<Rightarrow> ir_record" where
  "reject_in_record declared r =
     r\<lparr>r_fields := map (reject_in_field declared) (r_fields r),
       r_static_fields := map (reject_in_field declared) (r_static_fields r),
       r_constructors := map (reject_in_constructor declared) (r_constructors r),
       r_methods := map (reject_in_method declared) (r_methods r),
       r_destructor := map_option (reject_in_stmts declared) (r_destructor r)\<rparr>"

definition reject_undeclared_enum_refs ::
  "ir_function list \<Rightarrow> ir_record list \<Rightarrow> ir_enum list \<Rightarrow> ir_function list \<times> ir_record list" where
  "reject_undeclared_enum_refs fs rs es =
     (let declared = set (map en_usr es)
      in (map (reject_in_function declared) fs, map (reject_in_record declared) rs))"

section \<open>Bodies after the pass\<close>

lemma reject_shape: "visits_type (reject d t) = butlast (visits_type t) @ [VType (reject d t)]"
  by (cases t) (simp_all add: butlast_append)

interpretation reject: shape_walk "reject_walker d" for d
  by unfold_locales (simp_all add: reject_walker_def reject_shape butlast_visits_expr)

lemma reject_in_expr_walk: "reject_in_expr d e = walk_expr (reject_walker d) e"
  by (simp add: reject_in_expr_def visit_rewriting)

lemma reject_in_stmts_walk: "reject_in_stmts d ss = map (walk_stmt (reject_walker d)) ss"
  by (simp add: reject_in_stmts_def visit_stmts_rewriting)

text \<open>What a body, and a signature, shows of enums: a visit that is fine, a type that is.\<close>

fun declared_type :: "string set \<Rightarrow> ty \<Rightarrow> bool" where
  "declared_type d (TEnum u n) = (u \<in> d)"
| "declared_type d t = True"

fun declared_visit :: "string set \<Rightarrow> visit \<Rightarrow> bool" where
  "declared_visit d (VType t) = declared_type d t"
| "declared_visit d v = True"

abbreviation declared_visits :: "string set \<Rightarrow> visit list \<Rightarrow> bool" where
  "declared_visits d vs \<equiv> list_all (declared_visit d) vs"

definition param_ok :: "string set \<Rightarrow> param \<Rightarrow> bool" where
  "param_ok d p \<longleftrightarrow>
     declared_type d (p_ty p) \<and>
     declared_visits d (opt_nodes (map_option visits_expr (p_default p)))"

primrec init_visits :: "constructor_init \<Rightarrow> visit list" where
  "init_visits (CField n v) = visits_expr v"
| "init_visits (CBase u n args) = concat (map visits_expr args)"

definition function_ok :: "string set \<Rightarrow> ir_function \<Rightarrow> bool" where
  "function_ok d f \<longleftrightarrow>
     declared_type d (f_return_type f) \<and> list_all (param_ok d) (f_params f) \<and>
     declared_visits d (visits_stmts (f_body f))"

definition constructor_ok :: "string set \<Rightarrow> ir_constructor \<Rightarrow> bool" where
  "constructor_ok d c \<longleftrightarrow>
     list_all (param_ok d) (c_params c) \<and>
     list_all (\<lambda>i. declared_visits d (init_visits i)) (c_inits c) \<and>
     declared_visits d (visits_stmts (c_body c))"

definition method_ok :: "string set \<Rightarrow> ir_method \<Rightarrow> bool" where
  "method_ok d m \<longleftrightarrow>
     declared_type d (m_return_type m) \<and> list_all (param_ok d) (m_params m) \<and>
     declared_visits d (visits_stmts (opt_nodes (m_body m)))"

definition record_ok :: "string set \<Rightarrow> ir_record \<Rightarrow> bool" where
  "record_ok d r \<longleftrightarrow>
     list_all (\<lambda>f. declared_type d (fl_ty f)) (r_fields r @ r_static_fields r) \<and>
     list_all (constructor_ok d) (r_constructors r) \<and> list_all (method_ok d) (r_methods r) \<and>
     declared_visits d (visits_stmts (opt_nodes (r_destructor r)))"

lemma declared_reject [simp]: "declared_type d (reject d t)"
  by (cases t) simp_all

lemma reject_declared: "declared_type d t \<Longrightarrow> reject d t = t"
  by (cases t) simp_all

lemma declared_walk_type: "declared_type d (walk_type (reject_walker d) t)"
  by (cases t) (simp_all add: reject_walker_def)

lemma declared_walk_visits: "declared_visits d (map (walk_visit (reject_walker d)) vs)"
proof -
  have "declared_visit d (walk_visit (reject_walker d) v)" for v
    by (cases v) (simp_all add: declared_walk_type)
  then show ?thesis by (simp add: list_all_iff)
qed

lemma rejected_expr: "declared_visits d (visits_expr (reject_in_expr d e))"
  by (simp add: reject_in_expr_walk reject.visits_walk declared_walk_visits)

lemma rejected_stmts: "declared_visits d (visits_stmts (reject_in_stmts d ss))"
  by (simp add: reject_in_stmts_walk reject.visits_walk_stmts declared_walk_visits)

lemma rejected_params: "list_all (param_ok d) (reject_in_params d ps)"
proof -
  have "param_ok d (case p of Param n t df \<Rightarrow> Param n (reject d t) (map_option (reject_in_expr d) df))"
    for p
    by (cases p; cases "p_default p") (auto simp: param_ok_def rejected_expr)
  then show ?thesis by (simp add: reject_in_params_def list_all_iff)
qed

lemma rejected_opt_stmts:
  "declared_visits d (visits_stmts (opt_nodes (map_option (reject_in_stmts d) b)))"
  by (cases b) (simp_all add: rejected_stmts visits_stmts_def [of "[]"])

lemma rejected_init: "declared_visits d (init_visits (reject_in_init d i))"
  by (cases i) (auto simp: rejected_expr list_all_iff rejected_expr [unfolded list_all_iff])

lemmas rejected = rejected_stmts rejected_params rejected_opt_stmts rejected_init

lemma rejected_function: "function_ok d (reject_in_function d f)"
  by (simp add: function_ok_def reject_in_function_def rejected)

lemma rejected_constructor: "constructor_ok d (reject_in_constructor d c)"
  by (simp add: constructor_ok_def reject_in_constructor_def rejected list_all_iff)
    (simp add: rejected [unfolded list_all_iff])

lemma rejected_method: "method_ok d (reject_in_method d m)"
  by (simp add: method_ok_def reject_in_method_def rejected)

lemma rejected_field: "declared_type d (fl_ty (reject_in_field d f))"
  by (simp add: reject_in_field_def)

lemma rejected_record: "record_ok d (reject_in_record d r)"
  by (simp add: record_ok_def reject_in_record_def rejected list.pred_map list.pred_True comp_def rejected_field
      rejected_constructor rejected_method)

section \<open>Modules that declare their enums\<close>

lemma fixes_declared: "declared_visits d vs \<Longrightarrow> list_all (fixes_visit (reject_walker d)) vs"
proof -
  have "declared_visit d v \<Longrightarrow> fixes_visit (reject_walker d) v" for v
    by (cases v) (simp_all add: reject_walker_def reject_declared)
  then show "declared_visits d vs \<Longrightarrow> list_all (fixes_visit (reject_walker d)) vs"
    by (simp add: list_all_iff)
qed

lemma reject_expr_id: "declared_visits d (visits_expr e) \<Longrightarrow> reject_in_expr d e = e"
  by (simp add: reject_in_expr_walk walk_fixed fixes_declared)

lemma reject_stmts_id: "declared_visits d (visits_stmts ss) \<Longrightarrow> reject_in_stmts d ss = ss"
  by (auto simp: reject_in_stmts_walk visits_stmts_def intro!: map_idI walk_fixed fixes_declared
      dest: list_all_concat_mapD)

lemma reject_params_id: "list_all (param_ok d) ps \<Longrightarrow> reject_in_params d ps = ps"
  by (auto simp: reject_in_params_def param_ok_def list_all_iff [of "param_ok d"] reject_declared
      intro!: map_idI map_option_idI reject_expr_id split: param.splits dest!: bspec)

lemma reject_opt_stmts_id:
  "declared_visits d (visits_stmts (opt_nodes b)) \<Longrightarrow> map_option (reject_in_stmts d) b = b"
  by (cases b) (simp_all add: reject_stmts_id)

lemma reject_init_id: "declared_visits d (init_visits i) \<Longrightarrow> reject_in_init d i = i"
  by (cases i) (auto simp: reject_expr_id intro!: map_idI dest: list_all_concat_mapD)

lemmas reject_ids = reject_declared reject_stmts_id reject_params_id reject_opt_stmts_id

lemma reject_function_id: "function_ok d f \<Longrightarrow> reject_in_function d f = f"
  by (simp add: function_ok_def reject_in_function_def reject_ids)

lemma reject_constructor_id: "constructor_ok d c \<Longrightarrow> reject_in_constructor d c = c"
  by (simp add: constructor_ok_def reject_in_constructor_def reject_ids list_all_iff [of _ "c_inits c"]
      reject_init_id map_idI)

lemma reject_method_id: "method_ok d m \<Longrightarrow> reject_in_method d m = m"
  by (simp add: method_ok_def reject_in_method_def reject_ids)

lemma reject_field_id: "declared_type d (fl_ty f) \<Longrightarrow> reject_in_field d f = f"
  by (simp add: reject_in_field_def reject_declared)

lemma map_id_list_all: "(\<And>x. P x \<Longrightarrow> f x = x) \<Longrightarrow> list_all P xs \<Longrightarrow> map f xs = xs"
  by (auto simp: list_all_iff intro!: map_idI)

lemma reject_record_id: "record_ok d r \<Longrightarrow> reject_in_record d r = r"
  by (simp add: record_ok_def reject_in_record_def reject_ids
      map_id_list_all [OF reject_field_id] map_id_list_all [OF reject_constructor_id]
      map_id_list_all [OF reject_method_id])

section \<open>Properties\<close>

text \<open>
  After \<open>reject_undeclared_enum_refs\<close> no return type, parameter type or field type is an enum
  the catalog does not declare, and in the bodies, default values and initialisers no type at any
  depth is one.
\<close>

theorem undeclared_enums_rejected:
  "list_all (function_ok (set (map en_usr es))) (fst (reject_undeclared_enum_refs fs rs es)) \<and>
    list_all (record_ok (set (map en_usr es))) (snd (reject_undeclared_enum_refs fs rs es))"
  by (simp add: reject_undeclared_enum_refs_def Let_def list.pred_map comp_def rejected_function
      rejected_record list.pred_True)

text \<open>
  A module in which every such type is declared is returned as it is: the pass only removes
  what is undeclared.
\<close>

theorem declared_enums_kept:
  assumes "list_all (function_ok (set (map en_usr es))) fs"
    and "list_all (record_ok (set (map en_usr es))) rs"
  shows "reject_undeclared_enum_refs fs rs es = (fs, rs)"
  using assms
  by (simp add: reject_undeclared_enum_refs_def Let_def map_id_list_all [OF reject_function_id]
      map_id_list_all [OF reject_record_id])

definition sample_enum :: ir_enum where
  "sample_enum = \<lparr>en_name = ''Cor'', en_usr = ''c:@E@Cor'', en_variants = [''Azul''],
     en_values = [0], en_origin = sample_origin\<rparr>"

definition sample_enum_user :: "ty \<Rightarrow> ir_function" where
  "sample_enum_user t = \<lparr>f_name = ''f'', f_usr = ''c:@F@f'', f_params = [Param ''x'' t None],
     f_return_type = t, f_body = [SVarDecl ''y'' t None sample_origin], f_origin = sample_origin\<rparr>"

theorem declared_enums_kept_witness:
  "reject_undeclared_enum_refs [sample_enum_user (TEnum ''c:@E@Cor'' ''Cor'')] [] [sample_enum] =
    ([sample_enum_user (TEnum ''c:@E@Cor'' ''Cor'')], [])"
  by (rule declared_enums_kept) code_simp+

text \<open>
  The comment promises every reference; in a signature only the type itself is looked at, so an
  undeclared enum inside a list survives there while the same type in the body is rewritten.
\<close>

lemma nested_enum_survives_in_signature:
  "reject_undeclared_enum_refs [sample_enum_user (TList (TEnum ''u'' ''Ext''))] [] [] =
    ([(sample_enum_user (TList (TEnum ''u'' ''Ext'')))
        \<lparr>f_body := [SVarDecl ''y'' (TList (TUnsupported ''Ext'')) None sample_origin]\<rparr>], [])"
  by (simp add: reject_undeclared_enum_refs_def sample_enum_user_def reject_in_function_def
      reject_in_params_def reject_in_stmts_walk reject_walker_def)

end
