(* ===== verification/Catalog.thy ===== *)
theory Catalog
  imports Prelude
begin

text \<open>
  The catalogs the analysis produces and every later decision reads: types and their uses
  (\<^verbatim>\<open>type_catalog.rs\<close>), functions and calls (\<^verbatim>\<open>function_catalog.rs\<close>), pointers
  (\<^verbatim>\<open>pointer_catalog.rs\<close>), all under \<^verbatim>\<open>crates/server/src\<close>. Each kind has a spelling that is stored
  in the project database and parsed back; the two are inverse.
\<close>

section \<open>Kinds and their spellings\<close>

datatype type_declaration_kind =
  TdStruct | TdClass | TdUnion | TdEnum
| TdTypedef | TdTypeAlias | TdConstantMacro | TdFunctionMacro
| TdHeaderGuard | TdAnnotationMacro

fun tdk_as_str :: "type_declaration_kind \<Rightarrow> string" where
  "tdk_as_str TdStruct = ''struct''"
| "tdk_as_str TdClass = ''class''"
| "tdk_as_str TdUnion = ''union''"
| "tdk_as_str TdEnum = ''enum''"
| "tdk_as_str TdTypedef = ''typedef''"
| "tdk_as_str TdTypeAlias = ''type_alias''"
| "tdk_as_str TdConstantMacro = ''constant_macro''"
| "tdk_as_str TdFunctionMacro = ''function_macro''"
| "tdk_as_str TdHeaderGuard = ''header_guard''"
| "tdk_as_str TdAnnotationMacro = ''annotation_macro''"

definition tdk_parse :: "string \<Rightarrow> type_declaration_kind option" where
  "tdk_parse value =
     (if value = ''struct'' then Some TdStruct
      else if value = ''class'' then Some TdClass
      else if value = ''union'' then Some TdUnion
      else if value = ''enum'' then Some TdEnum
      else if value = ''typedef'' then Some TdTypedef
      else if value = ''type_alias'' then Some TdTypeAlias
      else if value = ''constant_macro'' then Some TdConstantMacro
      else if value = ''function_macro'' then Some TdFunctionMacro
      else if value = ''header_guard'' then Some TdHeaderGuard
      else if value = ''annotation_macro'' then Some TdAnnotationMacro
      else None)"

datatype type_usage_kind =
  TuVariableDeclaration | TuParameter | TuField | TuReturnType
| TuInheritance | TuTypedefMention

fun tuk_as_str :: "type_usage_kind \<Rightarrow> string" where
  "tuk_as_str TuVariableDeclaration = ''variable_declaration''"
| "tuk_as_str TuParameter = ''parameter''"
| "tuk_as_str TuField = ''field''"
| "tuk_as_str TuReturnType = ''return_type''"
| "tuk_as_str TuInheritance = ''inheritance''"
| "tuk_as_str TuTypedefMention = ''typedef_mention''"

definition tuk_parse :: "string \<Rightarrow> type_usage_kind option" where
  "tuk_parse value =
     (if value = ''variable_declaration'' then Some TuVariableDeclaration
      else if value = ''parameter'' then Some TuParameter
      else if value = ''field'' then Some TuField
      else if value = ''return_type'' then Some TuReturnType
      else if value = ''inheritance'' then Some TuInheritance
      else if value = ''typedef_mention'' then Some TuTypedefMention
      else None)"

datatype function_declaration_kind =
  FdFreeFunction | FdMethod | FdConstructor | FdDestructor
| FdFunctionMacro | FdFunctionTemplate

fun fdk_as_str :: "function_declaration_kind \<Rightarrow> string" where
  "fdk_as_str FdFreeFunction = ''free_function''"
| "fdk_as_str FdMethod = ''method''"
| "fdk_as_str FdConstructor = ''constructor''"
| "fdk_as_str FdDestructor = ''destructor''"
| "fdk_as_str FdFunctionMacro = ''function_macro''"
| "fdk_as_str FdFunctionTemplate = ''function_template''"

definition fdk_parse :: "string \<Rightarrow> function_declaration_kind option" where
  "fdk_parse value =
     (if value = ''free_function'' then Some FdFreeFunction
      else if value = ''method'' then Some FdMethod
      else if value = ''constructor'' then Some FdConstructor
      else if value = ''destructor'' then Some FdDestructor
      else if value = ''function_macro'' then Some FdFunctionMacro
      else if value = ''function_template'' then Some FdFunctionTemplate
      else None)"

datatype pointer_declaration_kind =
  PdParameter | PdField | PdLocal | PdReturnType

fun pdk_as_str :: "pointer_declaration_kind \<Rightarrow> string" where
  "pdk_as_str PdParameter = ''parameter''"
| "pdk_as_str PdField = ''field''"
| "pdk_as_str PdLocal = ''local''"
| "pdk_as_str PdReturnType = ''return_type''"

definition pdk_parse :: "string \<Rightarrow> pointer_declaration_kind option" where
  "pdk_parse value =
     (if value = ''parameter'' then Some PdParameter
      else if value = ''field'' then Some PdField
      else if value = ''local'' then Some PdLocal
      else if value = ''return_type'' then Some PdReturnType
      else None)"

datatype pointer_shape =
  PsScalar | PsDoublePointer | PsFunctionPointer

fun psh_as_str :: "pointer_shape \<Rightarrow> string" where
  "psh_as_str PsScalar = ''scalar''"
| "psh_as_str PsDoublePointer = ''double_pointer''"
| "psh_as_str PsFunctionPointer = ''function_pointer''"

definition psh_parse :: "string \<Rightarrow> pointer_shape option" where
  "psh_parse value =
     (if value = ''scalar'' then Some PsScalar
      else if value = ''double_pointer'' then Some PsDoublePointer
      else if value = ''function_pointer'' then Some PsFunctionPointer
      else None)"


text \<open>How \<^verbatim>\<open>{:?}\<close> prints the kinds.\<close>

primrec kind_debug :: "type_declaration_kind \<Rightarrow> string" where
  "kind_debug TdStruct = ''Struct''"
| "kind_debug TdClass = ''Class''"
| "kind_debug TdUnion = ''Union''"
| "kind_debug TdEnum = ''Enum''"
| "kind_debug TdTypedef = ''Typedef''"
| "kind_debug TdTypeAlias = ''TypeAlias''"
| "kind_debug TdConstantMacro = ''ConstantMacro''"
| "kind_debug TdFunctionMacro = ''FunctionMacro''"
| "kind_debug TdHeaderGuard = ''HeaderGuard''"
| "kind_debug TdAnnotationMacro = ''AnnotationMacro''"

primrec function_kind_debug :: "function_declaration_kind \<Rightarrow> string" where
  "function_kind_debug FdFreeFunction = ''FreeFunction''"
| "function_kind_debug FdMethod = ''Method''"
| "function_kind_debug FdConstructor = ''Constructor''"
| "function_kind_debug FdDestructor = ''Destructor''"
| "function_kind_debug FdFunctionMacro = ''FunctionMacro''"
| "function_kind_debug FdFunctionTemplate = ''FunctionTemplate''"

primrec pointer_kind_debug :: "pointer_declaration_kind \<Rightarrow> string" where
  "pointer_kind_debug PdParameter = ''Parameter''"
| "pointer_kind_debug PdField = ''Field''"
| "pointer_kind_debug PdLocal = ''Local''"
| "pointer_kind_debug PdReturnType = ''ReturnType''"

section \<open>Catalog entries\<close>

record type_declaration =
  td_name :: string
  td_kind :: type_declaration_kind
  td_namespace :: string
  td_file :: string
  td_line :: u32
  td_column :: u32
  td_end_line :: u32
  td_end_column :: u32
  td_usr :: string

record type_usage =
  tu_type_usr :: string
  tu_kind :: type_usage_kind
  tu_file :: string
  tu_line :: u32
  tu_column :: u32

record function_declaration =
  fd_name :: string
  fd_kind :: function_declaration_kind
  fd_namespace :: string
  fd_owning_class_usr :: "string option"
  fd_signature :: string
  fd_file :: string
  fd_line :: u32
  fd_column :: u32
  fd_end_line :: u32
  fd_end_column :: u32
  fd_usr :: string
  fd_is_static :: bool
  fd_is_virtual :: bool
  fd_is_pure_virtual :: bool
  fd_is_defaulted :: bool
  fd_overridden_usrs :: "string list"
  fd_has_definition :: bool

datatype call_resolution = Resolved string bool | Unresolved string

record call_edge =
  ce_caller_usr :: string
  ce_resolution :: call_resolution
  ce_file :: string
  ce_line :: u32
  ce_column :: u32

record pointer_declaration =
  pd_kind :: pointer_declaration_kind
  pd_shape :: pointer_shape
  pd_name :: string
  pd_pointee_type_name :: string
  pd_pointee_usr :: string
  pd_file :: string
  pd_line :: u32
  pd_column :: u32
  pd_usr :: string

section \<open>The spellings are inverse\<close>

lemma tdk_inverse: "tdk_parse s = Some k \<longleftrightarrow> s = tdk_as_str k"
  by (cases k) (auto simp: tdk_parse_def)

lemma tuk_inverse: "tuk_parse s = Some k \<longleftrightarrow> s = tuk_as_str k"
  by (cases k) (auto simp: tuk_parse_def)

lemma fdk_inverse: "fdk_parse s = Some k \<longleftrightarrow> s = fdk_as_str k"
  by (cases k) (auto simp: fdk_parse_def)

lemma pdk_inverse: "pdk_parse s = Some k \<longleftrightarrow> s = pdk_as_str k"
  by (cases k) (auto simp: pdk_parse_def)

lemma psh_inverse: "psh_parse s = Some k \<longleftrightarrow> s = psh_as_str k"
  by (cases k) (auto simp: psh_parse_def)

text \<open>
  Every kind of the catalogs is read back from the spelling it is stored under, and from no
  other: the parsers accept exactly the spellings.
\<close>

theorem kinds_roundtrip:
  "(tdk_parse s = Some a \<longleftrightarrow> s = tdk_as_str a) \<and> (tuk_parse s = Some b \<longleftrightarrow> s = tuk_as_str b) \<and>
    (fdk_parse s = Some c \<longleftrightarrow> s = fdk_as_str c) \<and> (pdk_parse s = Some d \<longleftrightarrow> s = pdk_as_str d) \<and>
    (psh_parse s = Some e \<longleftrightarrow> s = psh_as_str e)"
  by (simp only: tdk_inverse tuk_inverse fdk_inverse pdk_inverse psh_inverse)

end
