(* ===== verification/Externals.thy ===== *)
theory Externals
  imports Catalog
begin

text \<open>
  Which declarations are external, that is left untranslated and mocked:
  \<^verbatim>\<open>crates/server/src/externals.rs\<close>. Rules by name and path, marks on files, functions nothing
  defines, and the user's own marks each contribute a source; \<open>effective_external_set\<close> combines
  them. Regular expressions are of a third-party crate: \<open>regex_new\<close> stands for \<^verbatim>\<open>Regex::new\<close>, an error
  message or the compiled expression, given by what it matches. The main lemma describes the result
  completely.
\<close>

section \<open>Rules, marks and sources\<close>

record external_mark =
  xm_usr :: string
  xm_external :: bool
  xm_decided_at :: string

record name_regex_rule =
  nr_id :: i64
  nr_pattern :: string
  nr_created_at :: string

record path_regex_rule =
  pr_id :: i64
  pr_pattern :: string
  pr_created_at :: string

record file_mark =
  fm_file :: string
  fm_decided_at :: string

datatype external_source =
  ManualInclude | ManualExclude
| NameRegex string | PathRegex string
| FileMark string
| AutoUndefinedFunction

record external_status =
  es_usr :: string
  es_effective :: bool
  es_sources :: "external_source list"

text \<open>The derived order: by variant, then by the text it carries.\<close>

primrec source_key :: "external_source \<Rightarrow> nat \<times> string" where
  "source_key ManualInclude = (0, [])"
| "source_key ManualExclude = (1, [])"
| "source_key (NameRegex p) = (2, p)"
| "source_key (PathRegex p) = (3, p)"
| "source_key (FileMark f) = (4, f)"
| "source_key AutoUndefinedFunction = (5, [])"

lemma source_key_inj: "source_key a = source_key b \<Longrightarrow> a = b"
  by (cases a; cases b) simp_all

instantiation external_source :: linorder
begin

definition less_eq_external_source :: "external_source \<Rightarrow> external_source \<Rightarrow> bool" where
  "a \<le> b \<longleftrightarrow> source_key a \<le> source_key b"

definition less_external_source :: "external_source \<Rightarrow> external_source \<Rightarrow> bool" where
  "a < b \<longleftrightarrow> source_key a < source_key b"

instance
  by standard (auto simp: less_eq_external_source_def less_external_source_def less_le_not_le
      intro: order_trans source_key_inj antisym)

end

section \<open>Names and undefined functions\<close>

definition qualified_type_name :: "type_declaration \<Rightarrow> string" where
  "qualified_type_name d =
     (if td_namespace d = [] then td_name d else td_namespace d @ ''::'' @ td_name d)"

definition types_by_usr :: "type_declaration list \<Rightarrow> (string \<times> type_declaration) list" where
  "types_by_usr ds = fold (\<lambda>d. hm_put (td_usr d) d) ds []"

definition qualified_function_name ::
  "function_declaration \<Rightarrow> (string \<times> type_declaration) list \<Rightarrow> string" where
  "qualified_function_name d types =
     (let segments = (if fd_namespace d = [] then [] else [fd_namespace d]);
          owning_class_name =
            map_option td_name (Option.bind (fd_owning_class_usr d) (map_of types))
      in str_join ''::''
           (segments @ (case owning_class_name of None \<Rightarrow> [] | Some name \<Rightarrow> [name]) @ [fd_name d]))"

definition resolved_callee :: "call_edge \<Rightarrow> string option" where
  "resolved_callee edge =
     (case ce_resolution edge of Resolved callee_usr _ \<Rightarrow> Some callee_usr | Unresolved _ \<Rightarrow> None)"

text \<open>A \<^verbatim>\<open>HashSet\<close>, as the list of its elements.\<close>

definition auto_undefined_function_usrs ::
  "function_declaration list \<Rightarrow> call_edge list \<Rightarrow> string list" where
  "auto_undefined_function_usrs fds edges =
     (let defined_usrs = set (map fd_usr (filter fd_has_definition fds))
      in remdups (filter (\<lambda>u. u \<notin> defined_usrs) (filter_map resolved_callee edges)))"

section \<open>The effective set\<close>

type_synonym compiled = "(string \<Rightarrow> bool) \<times> string"

definition compile_rules ::
  "(string \<Rightarrow> string + (string \<Rightarrow> bool)) \<Rightarrow> string list \<Rightarrow> compiled list" where
  "compile_rules regex_new patterns =
     filter_map (\<lambda>p. case regex_new p of Inl _ \<Rightarrow> None | Inr re \<Rightarrow> Some (re, p)) patterns"

type_synonym source_map = "(string \<times> external_source list) list"

abbreviation push_source :: "string \<Rightarrow> external_source \<Rightarrow> source_map \<Rightarrow> source_map" where
  "push_source \<equiv> entry_push map_of hm_put"

definition push_rules ::
  "(string \<Rightarrow> external_source) \<Rightarrow> compiled list \<Rightarrow> string \<Rightarrow> string \<Rightarrow> source_map \<Rightarrow> source_map" where
  "push_rules source rules text usr m =
     fold (\<lambda>(re, p) m. if re text then push_source usr (source p) m else m) rules m"

definition push_file_mark :: "string set \<Rightarrow> string \<Rightarrow> string \<Rightarrow> source_map \<Rightarrow> source_map" where
  "push_file_mark marked file usr m =
     (if file \<in> marked then push_source usr (FileMark file) m else m)"

definition push_type_sources ::
  "compiled list \<Rightarrow> compiled list \<Rightarrow> string set \<Rightarrow> type_declaration \<Rightarrow> source_map \<Rightarrow> source_map" where
  "push_type_sources names paths marked d m =
     push_file_mark marked (td_file d) (td_usr d)
       (push_rules PathRegex paths (td_file d) (td_usr d)
         (push_rules NameRegex names (qualified_type_name d) (td_usr d) m))"

definition push_function_sources ::
  "compiled list \<Rightarrow> compiled list \<Rightarrow> string set \<Rightarrow> string list \<Rightarrow>
   (string \<times> type_declaration) list \<Rightarrow> function_declaration \<Rightarrow> source_map \<Rightarrow> source_map" where
  "push_function_sources names paths marked auto types d m =
     (let m = push_file_mark marked (fd_file d) (fd_usr d)
                (push_rules PathRegex paths (fd_file d) (fd_usr d)
                  (push_rules NameRegex names (qualified_function_name d types) (fd_usr d) m))
      in if fd_usr d \<in> set auto then push_source (fd_usr d) AutoUndefinedFunction m else m)"

definition push_mark :: "external_mark \<Rightarrow> source_map \<Rightarrow> source_map" where
  "push_mark mark m =
     push_source (xm_usr mark) (if xm_external mark then ManualInclude else ManualExclude) m"

fun is_manual :: "external_source \<Rightarrow> bool" where
  "is_manual ManualInclude = True"
| "is_manual ManualExclude = True"
| "is_manual _ = False"

definition status_of :: "(string \<times> bool) list \<Rightarrow> string \<times> external_source list \<Rightarrow> external_status" where
  "status_of manual_by_usr entry =
     (let sources = remdups_adj (sort (snd entry));
          non_manual_match = list_ex (\<lambda>s. \<not> is_manual s) sources
      in \<lparr>es_usr = fst entry,
          es_effective = (case map_of manual_by_usr (fst entry) of
            Some forced \<Rightarrow> forced | None \<Rightarrow> non_manual_match),
          es_sources = sources\<rparr>)"

definition effective_external_set ::
  "(string \<Rightarrow> string + (string \<Rightarrow> bool)) \<Rightarrow> type_declaration list \<Rightarrow> function_declaration list \<Rightarrow>
   call_edge list \<Rightarrow> name_regex_rule list \<Rightarrow> path_regex_rule list \<Rightarrow> file_mark list \<Rightarrow>
   external_mark list \<Rightarrow> external_status list" where
  "effective_external_set regex_new tds fds edges name_rules path_rules file_marks marks =
     (let types = types_by_usr tds;
          names = compile_rules regex_new (map nr_pattern name_rules);
          paths = compile_rules regex_new (map pr_pattern path_rules);
          auto = auto_undefined_function_usrs fds edges;
          marked = set (map fm_file file_marks);
          m = fold (push_type_sources names paths marked) tds [];
          m = fold (push_function_sources names paths marked auto types) fds m;
          m = fold (\<lambda>u. push_source u AutoUndefinedFunction) auto m;
          m = fold push_mark marks m;
          manual_by_usr = fold (\<lambda>mark. hm_put (xm_usr mark) (xm_external mark)) marks []
      in sort_key es_usr (map (status_of manual_by_usr) m))"

definition expand_type_mark :: "string \<Rightarrow> function_declaration list \<Rightarrow> string list" where
  "expand_type_mark type_usr fds =
     remdups_adj (sort
       (type_usr # map fd_usr (filter (\<lambda>d. fd_owning_class_usr d = Some type_usr) fds)))"

definition validate_regex_pattern ::
  "(string \<Rightarrow> string + (string \<Rightarrow> bool)) \<Rightarrow> string \<Rightarrow> string + unit" where
  "validate_regex_pattern regex_new pattern =
     (case regex_new pattern of Inl message \<Rightarrow> Inl message | Inr _ \<Rightarrow> Inr ())"

section \<open>The pushes in order\<close>

definition push_event :: "string \<times> external_source \<Rightarrow> source_map \<Rightarrow> source_map" where
  "push_event e = push_source (fst e) (snd e)"

definition rule_events ::
  "(string \<Rightarrow> external_source) \<Rightarrow> compiled list \<Rightarrow> string \<Rightarrow> string \<Rightarrow>
   (string \<times> external_source) list" where
  "rule_events source rules text usr =
     map (\<lambda>r. (usr, source (snd r))) (filter (\<lambda>r. fst r text) rules)"

definition file_events :: "string set \<Rightarrow> string \<Rightarrow> string \<Rightarrow> (string \<times> external_source) list" where
  "file_events marked file usr = (if file \<in> marked then [(usr, FileMark file)] else [])"

definition type_events ::
  "compiled list \<Rightarrow> compiled list \<Rightarrow> string set \<Rightarrow> type_declaration \<Rightarrow>
   (string \<times> external_source) list" where
  "type_events names paths marked d =
     rule_events NameRegex names (qualified_type_name d) (td_usr d) @
     rule_events PathRegex paths (td_file d) (td_usr d) @
     file_events marked (td_file d) (td_usr d)"

definition function_events ::
  "compiled list \<Rightarrow> compiled list \<Rightarrow> string set \<Rightarrow> string list \<Rightarrow>
   (string \<times> type_declaration) list \<Rightarrow> function_declaration \<Rightarrow>
   (string \<times> external_source) list" where
  "function_events names paths marked auto types d =
     rule_events NameRegex names (qualified_function_name d types) (fd_usr d) @
     rule_events PathRegex paths (fd_file d) (fd_usr d) @
     file_events marked (fd_file d) (fd_usr d) @
     (if fd_usr d \<in> set auto then [(fd_usr d, AutoUndefinedFunction)] else [])"

definition mark_event :: "external_mark \<Rightarrow> string \<times> external_source" where
  "mark_event mark = (xm_usr mark, if xm_external mark then ManualInclude else ManualExclude)"

lemma push_rules_events:
  "push_rules source rules text usr m = fold push_event (rule_events source rules text usr) m"
  by (induction rules arbitrary: m)
    (auto simp: push_rules_def rule_events_def push_event_def case_prod_beta')

lemma push_file_events:
  "push_file_mark marked file usr m = fold push_event (file_events marked file usr) m"
  by (simp add: push_file_mark_def file_events_def push_event_def)

lemma push_type_events:
  "push_type_sources names paths marked d m = fold push_event (type_events names paths marked d) m"
  by (simp add: push_type_sources_def type_events_def push_rules_events push_file_events)

lemma push_function_events:
  "push_function_sources names paths marked auto types d m =
    fold push_event (function_events names paths marked auto types d) m"
  by (simp add: push_function_sources_def function_events_def push_rules_events push_file_events
      Let_def push_event_def)

lemma push_mark_event: "push_mark mark m = fold push_event [mark_event mark] m"
  by (simp add: push_mark_def mark_event_def push_event_def)

lemma fold_events:
  assumes "\<And>x m. f x m = fold g (h x) m"
  shows "fold f xs m = fold g (concat (map h xs)) m"
  using assms by (induction xs arbitrary: m) auto

text \<open>All pushes of a run, in their order.\<close>

definition all_events ::
  "(string \<Rightarrow> string + (string \<Rightarrow> bool)) \<Rightarrow> type_declaration list \<Rightarrow> function_declaration list \<Rightarrow>
   call_edge list \<Rightarrow> name_regex_rule list \<Rightarrow> path_regex_rule list \<Rightarrow> file_mark list \<Rightarrow>
   external_mark list \<Rightarrow> (string \<times> external_source) list" where
  "all_events regex_new tds fds edges name_rules path_rules file_marks marks =
     (let types = types_by_usr tds;
          names = compile_rules regex_new (map nr_pattern name_rules);
          paths = compile_rules regex_new (map pr_pattern path_rules);
          auto = auto_undefined_function_usrs fds edges;
          marked = set (map fm_file file_marks)
      in concat (map (type_events names paths marked) tds) @
         concat (map (function_events names paths marked auto types) fds) @
         map (\<lambda>u. (u, AutoUndefinedFunction)) auto @ map mark_event marks)"

definition manual_mark :: "external_mark list \<Rightarrow> string \<Rightarrow> bool option" where
  "manual_mark marks u = map_option xm_external (List.find (\<lambda>mark. xm_usr mark = u) (rev marks))"

lemma manual_lookup:
  "map_of (fold (\<lambda>mark. hm_put (xm_usr mark) (xm_external mark)) marks []) u = manual_mark marks u"
  by (simp add: hm.get_put_fold manual_mark_def split: option.splits)

lemma effective_external_set_events:
  "effective_external_set regex_new tds fds edges name_rules path_rules file_marks marks =
    sort_key es_usr (map (status_of (fold (\<lambda>mark. hm_put (xm_usr mark) (xm_external mark)) marks []))
      (fold push_event (all_events regex_new tds fds edges name_rules path_rules file_marks marks) []))"
proof -
  have marks: "fold push_mark marks m = fold push_event (map mark_event marks) m" for m
    by (induction marks arbitrary: m) (simp_all add: push_mark_event)
  have auto: "fold (\<lambda>u. push_source u AutoUndefinedFunction) us m =
      fold push_event (map (\<lambda>u. (u, AutoUndefinedFunction)) us) m" for us m
    by (induction us arbitrary: m) (simp_all add: push_event_def)
  show ?thesis
    by (simp add: effective_external_set_def all_events_def Let_def marks auto
        fold_events [OF push_type_events] fold_events [OF push_function_events])
qed

section \<open>The result\<close>

definition events_of :: "(string \<times> external_source) list \<Rightarrow> string \<Rightarrow> external_source list" where
  "events_of es u = map snd (filter (\<lambda>e. fst e = u) es)"

lemma fold_push_lookup:
  "map_of (fold push_event es []) u = (if events_of es u = [] then None else Some (events_of es u))"
  unfolding push_event_def [abs_def] events_of_def
  by (simp add: hmm.get_group [of fst snd es u] Let_def)

lemma fold_push_distinct: "distinct (map fst (fold push_event es []))"
proof -
  have "distinct (map fst m) \<Longrightarrow> distinct (map fst (fold push_event es m))" for m
    by (induction es arbitrary: m) (simp_all add: push_event_def entry_push_def distinct_hm_put)
  then show ?thesis by simp
qed

lemma events_of_empty: "events_of es u = [] \<longleftrightarrow> u \<notin> fst ` set es"
  by (auto simp: events_of_def filter_empty_conv)

lemma fold_push_entries:
  "fold push_event es [] = map (\<lambda>u. (u, events_of es u)) (map fst (fold push_event es []))"
proof -
  have "x = (fst x, events_of es (fst x))" if "x \<in> set (fold push_event es [])" for x
  proof -
    have "map_of (fold push_event es []) (fst x) = Some (snd x)"
      using that by (simp add: map_of_is_SomeI [OF fold_push_distinct])
    then show ?thesis
      by (simp add: fold_push_lookup prod_eq_iff split: if_splits)
  qed
  then show ?thesis by (simp add: map_idI)
qed

lemma fold_push_keys: "set (map fst (fold push_event es [])) = fst ` set es"
proof -
  have "u \<in> set (map fst (fold push_event es [])) \<longleftrightarrow> u \<in> fst ` set es" for u
    using fold_push_lookup [of es u] events_of_empty [of es u]
    by (metis list.set_map map_of_eq_None_iff option.distinct(1))
  then show ?thesis by blast
qed

lemma effective_by_events:
  "effective_external_set regex_new tds fds edges name_rules path_rules file_marks marks =
    (let es = all_events regex_new tds fds edges name_rules path_rules file_marks marks
     in map (\<lambda>u. status_of (fold (\<lambda>mark. hm_put (xm_usr mark) (xm_external mark)) marks [])
                  (u, events_of es u)) (sorted_list_of_set (fst ` set es)))"
proof -
  let ?es = "all_events regex_new tds fds edges name_rules path_rules file_marks marks"
  let ?st = "status_of (fold (\<lambda>mark. hm_put (xm_usr mark) (xm_external mark)) marks [])"
  have "sort_key es_usr (map ?st (fold push_event ?es [])) =
    sort_key es_usr (map (\<lambda>u. ?st (u, events_of ?es u)) (map fst (fold push_event ?es [])))"
    by (subst fold_push_entries) (simp add: comp_def)
  also have "\<dots> = map (\<lambda>u. ?st (u, events_of ?es u)) (sort (map fst (fold push_event ?es [])))"
    by (subst sort_key_map) (simp add: status_of_def Let_def)
  also have "sort (map fst (fold push_event ?es [])) = sorted_list_of_set (fst ` set ?es)"
    by (simp only: sort_distinct [OF fold_push_distinct] fold_push_keys)
  finally show ?thesis by (simp only: effective_external_set_events Let_def)
qed

section \<open>What is external, and why\<close>

text \<open>The sources of a USR, straight from the rules, the marks and the catalogs.\<close>

definition rule_applies :: "(string \<Rightarrow> string + (string \<Rightarrow> bool)) \<Rightarrow> string \<Rightarrow> string \<Rightarrow> bool" where
  "rule_applies regex_new p text = (case regex_new p of Inl _ \<Rightarrow> False | Inr re \<Rightarrow> re text)"

definition declared_names ::
  "type_declaration list \<Rightarrow> function_declaration list \<Rightarrow> string \<Rightarrow> string set" where
  "declared_names tds fds u =
     {qualified_type_name d | d. d \<in> set tds \<and> td_usr d = u} \<union>
     {qualified_function_name d (types_by_usr tds) | d. d \<in> set fds \<and> fd_usr d = u}"

definition declared_files ::
  "type_declaration list \<Rightarrow> function_declaration list \<Rightarrow> string \<Rightarrow> string set" where
  "declared_files tds fds u =
     {td_file d | d. d \<in> set tds \<and> td_usr d = u} \<union> {fd_file d | d. d \<in> set fds \<and> fd_usr d = u}"

definition auto_undefined :: "function_declaration list \<Rightarrow> call_edge list \<Rightarrow> string \<Rightarrow> bool" where
  "auto_undefined fds edges u \<longleftrightarrow>
     (\<exists>edge \<in> set edges. resolved_callee edge = Some u) \<and>
     \<not> (\<exists>d \<in> set fds. fd_usr d = u \<and> fd_has_definition d)"

definition external_sources ::
  "(string \<Rightarrow> string + (string \<Rightarrow> bool)) \<Rightarrow> type_declaration list \<Rightarrow> function_declaration list \<Rightarrow>
   call_edge list \<Rightarrow> name_regex_rule list \<Rightarrow> path_regex_rule list \<Rightarrow> file_mark list \<Rightarrow>
   external_mark list \<Rightarrow> string \<Rightarrow> external_source set" where
  "external_sources regex_new tds fds edges name_rules path_rules file_marks marks u =
     {NameRegex (nr_pattern r) | r n. r \<in> set name_rules \<and> n \<in> declared_names tds fds u \<and>
       rule_applies regex_new (nr_pattern r) n} \<union>
     {PathRegex (pr_pattern r) | r f. r \<in> set path_rules \<and> f \<in> declared_files tds fds u \<and>
       rule_applies regex_new (pr_pattern r) f} \<union>
     {FileMark f | f. f \<in> declared_files tds fds u \<and> (\<exists>k \<in> set file_marks. f = fm_file k)} \<union>
     {AutoUndefinedFunction | x. x \<in> {()} \<and> auto_undefined fds edges u} \<union>
     {ManualInclude | k. k \<in> set marks \<and> xm_usr k = u \<and> xm_external k} \<union>
     {ManualExclude | k. k \<in> set marks \<and> xm_usr k = u \<and> \<not> xm_external k}"

lemma set_compile_rules:
  "(re, p) \<in> set (compile_rules regex_new ps) \<longleftrightarrow> p \<in> set ps \<and> regex_new p = Inr re"
proof -
  have "(case regex_new x of Inl _ \<Rightarrow> None | Inr re \<Rightarrow> Some (re, x)) = Some (re, p) \<longleftrightarrow>
      x = p \<and> regex_new x = Inr re" for x
    by (cases "regex_new x") auto
  then show ?thesis by (auto simp: compile_rules_def set_filter_map)
qed

lemma rule_applies_iff: "rule_applies regex_new p t \<longleftrightarrow> (\<exists>re. regex_new p = Inr re \<and> re t)"
  by (cases "regex_new p") (auto simp: rule_applies_def)

lemma rule_events_iff:
  "(u, s) \<in> set (rule_events source (compile_rules regex_new ps) text v) \<longleftrightarrow>
    u = v \<and> (\<exists>p \<in> set ps. s = source p \<and> rule_applies regex_new p text)"
proof -
  have "(u, s) \<in> set (rule_events source (compile_rules regex_new ps) text v) \<longleftrightarrow>
    (\<exists>re p. (re, p) \<in> set (compile_rules regex_new ps) \<and> re text \<and> u = v \<and> s = source p)"
    by (force simp: rule_events_def)
  then show ?thesis
    unfolding set_compile_rules rule_applies_iff by blast
qed

lemma auto_undefined_iff:
  "u \<in> set (auto_undefined_function_usrs fds edges) \<longleftrightarrow> auto_undefined fds edges u"
  by (auto simp: auto_undefined_function_usrs_def auto_undefined_def Let_def set_filter_map)

lemma events_sources:
  "set (events_of (all_events regex_new tds fds edges name_rules path_rules file_marks marks) u) =
    external_sources regex_new tds fds edges name_rules path_rules file_marks marks u"
  (is "?L = ?R")
proof -
  have "?L = {s. (u, s) \<in> set (all_events regex_new tds fds edges name_rules path_rules file_marks marks)}"
    by (force simp: events_of_def)
  also have "\<dots> = ?R"
  proof (rule set_eqI)
    fix s
    show "s \<in> {s. (u, s) \<in> set (all_events regex_new tds fds edges name_rules path_rules file_marks marks)} \<longleftrightarrow>
        s \<in> ?R"
      by (cases s; simp add: all_events_def Let_def type_events_def function_events_def rule_events_iff
          file_events_def mark_event_def auto_undefined_iff external_sources_def declared_names_def
          declared_files_def bex_Un image_iff split: if_splits; (blast | metis)?)
  qed
  finally show ?thesis .
qed

lemma events_keys:
  "fst ` set (all_events regex_new tds fds edges name_rules path_rules file_marks marks) =
    {u. external_sources regex_new tds fds edges name_rules path_rules file_marks marks u \<noteq> {}}"
  by (rule set_eqI) (metis events_of_empty events_sources mem_Collect_eq set_empty)

lemma finite_external_sources:
  "finite (external_sources regex_new tds fds edges name_rules path_rules file_marks marks u)"
  by (simp flip: events_sources)

lemma effective_set_description:
  "effective_external_set regex_new tds fds edges name_rules path_rules file_marks marks =
    (let sources = external_sources regex_new tds fds edges name_rules path_rules file_marks marks
     in map (\<lambda>u. \<lparr>es_usr = u,
              es_effective = (case manual_mark marks u of
                Some forced \<Rightarrow> forced | None \<Rightarrow> (\<exists>s \<in> sources u. \<not> is_manual s)),
              es_sources = sorted_list_of_set (sources u)\<rparr>)
          (sorted_list_of_set {u. sources u \<noteq> {}}))"
  by (simp add: effective_by_events Let_def status_of_def remdups_adj_sort events_sources events_keys
      manual_lookup list_ex_iff finite_external_sources cong: option.case_cong)

lemma finite_external_usrs:
  "finite {u. external_sources regex_new tds fds edges name_rules path_rules file_marks marks u \<noteq> {}}"
  by (simp flip: events_keys)

lemma non_manual_source_iff:
  "(\<exists>s \<in> external_sources regex_new tds fds edges name_rules path_rules file_marks marks u.
      \<not> is_manual s) \<longleftrightarrow>
    (\<exists>r \<in> set name_rules. \<exists>n \<in> declared_names tds fds u. rule_applies regex_new (nr_pattern r) n) \<or>
    (\<exists>r \<in> set path_rules. \<exists>f \<in> declared_files tds fds u. rule_applies regex_new (pr_pattern r) f) \<or>
    (\<exists>k \<in> set file_marks. fm_file k \<in> declared_files tds fds u) \<or> auto_undefined fds edges u"
  (is "(\<exists>s \<in> ?S. _) \<longleftrightarrow> ?N \<or> ?P \<or> ?F \<or> ?A")
proof -
  have "(\<exists>p. NameRegex p \<in> ?S) \<longleftrightarrow> ?N" "(\<exists>p. PathRegex p \<in> ?S) \<longleftrightarrow> ?P"
    "(\<exists>f. FileMark f \<in> ?S) \<longleftrightarrow> ?F" "AutoUndefinedFunction \<in> ?S \<longleftrightarrow> ?A"
    by (auto simp: external_sources_def)
  moreover have "(\<exists>s \<in> X. \<not> is_manual s) \<longleftrightarrow> (\<exists>p. NameRegex p \<in> X) \<or> (\<exists>p. PathRegex p \<in> X) \<or>
      (\<exists>f. FileMark f \<in> X) \<or> AutoUndefinedFunction \<in> X" for X
    by (metis external_source.exhaust is_manual.simps)
  ultimately show ?thesis by simp
qed

lemma manual_mark_None: "manual_mark marks u = None \<longleftrightarrow> \<not> (\<exists>k \<in> set marks. xm_usr k = u)"
  by (auto simp: manual_mark_def find_None_iff)

lemma manual_mark_Some:
  "manual_mark marks u = Some b \<Longrightarrow> \<exists>k \<in> set marks. xm_usr k = u \<and> xm_external k = b"
  by (auto simp: manual_mark_def dest!: find_Some_in_set)

lemma manual_source_nonempty:
  "(\<exists>k \<in> set marks. xm_usr k = u) \<Longrightarrow>
    external_sources regex_new tds fds edges name_rules path_rules file_marks marks u \<noteq> {}"
proof -
  have "ManualInclude \<in> external_sources regex_new tds fds edges name_rules path_rules file_marks marks u \<longleftrightarrow>
      (\<exists>k \<in> set marks. xm_usr k = u \<and> xm_external k)"
    and "ManualExclude \<in> external_sources regex_new tds fds edges name_rules path_rules file_marks marks u \<longleftrightarrow>
      (\<exists>k \<in> set marks. xm_usr k = u \<and> \<not> xm_external k)"
    by (auto simp: external_sources_def)
  then show "(\<exists>k \<in> set marks. xm_usr k = u) \<Longrightarrow>
      external_sources regex_new tds fds edges name_rules path_rules file_marks marks u \<noteq> {}"
    by (metis empty_iff)
qed

lemma effective_usr_iff:
  "(\<exists>st \<in> set (effective_external_set regex_new tds fds edges name_rules path_rules file_marks marks).
      es_usr st = u \<and> es_effective st) \<longleftrightarrow>
    (case manual_mark marks u of Some forced \<Rightarrow> forced
     | None \<Rightarrow> (\<exists>s \<in> external_sources regex_new tds fds edges name_rules path_rules file_marks marks u.
          \<not> is_manual s))"
proof -
  have set_statuses: "(\<exists>st \<in> set (map (\<lambda>u. \<lparr>es_usr = u, es_effective = e u, es_sources = f u\<rparr>) xs).
      es_usr st = u \<and> es_effective st) \<longleftrightarrow> u \<in> set xs \<and> e u" for e f xs
    by auto
  have "external_sources regex_new tds fds edges name_rules path_rules file_marks marks u \<noteq> {}"
    if "manual_mark marks u = Some b" for b
    using that by (intro manual_source_nonempty) (auto dest: manual_mark_Some)
  then show ?thesis
    unfolding effective_set_description Let_def set_statuses
    by (auto simp: finite_external_usrs split: option.splits)
qed

section \<open>Properties\<close>

text \<open>
  C4. The result of \<open>effective_external_set\<close> is one status for every USR that has a source at all,
  in the order of the USRs; it lists exactly the sources the rules, marks and catalogs give that
  USR, sorted and each once; and it is effective as the USR's last manual mark says, without one
  when any source is left.
\<close>

theorem effective_external_set_complete:
  "effective_external_set regex_new tds fds edges name_rules path_rules file_marks marks =
    (let sources = external_sources regex_new tds fds edges name_rules path_rules file_marks marks
     in map (\<lambda>u. \<lparr>es_usr = u,
              es_effective = (case manual_mark marks u of
                Some forced \<Rightarrow> forced | None \<Rightarrow> (\<exists>s \<in> sources u. \<not> is_manual s)),
              es_sources = sorted_list_of_set (sources u)\<rparr>)
          (sorted_list_of_set {u. sources u \<noteq> {}}))"
  by (rule effective_set_description)

text \<open>
  C5. The formula of the design: a USR is external when a name rule, a path rule, a mark on its
  file, the detection of undefined functions or a manual mark says so, and no manual mark excludes
  it. Marks are stored per USR, so no two marks of a USR differ.
\<close>

theorem external_formula:
  assumes "\<And>k l. k \<in> set marks \<Longrightarrow> l \<in> set marks \<Longrightarrow> xm_usr k = xm_usr l \<Longrightarrow>
    xm_external k = xm_external l"
  shows "(\<exists>st \<in> set (effective_external_set regex_new tds fds edges name_rules path_rules file_marks marks).
      es_usr st = u \<and> es_effective st) \<longleftrightarrow>
    ((\<exists>r \<in> set name_rules. \<exists>n \<in> declared_names tds fds u. rule_applies regex_new (nr_pattern r) n) \<or>
     (\<exists>r \<in> set path_rules. \<exists>f \<in> declared_files tds fds u. rule_applies regex_new (pr_pattern r) f) \<or>
     (\<exists>k \<in> set file_marks. fm_file k \<in> declared_files tds fds u) \<or>
     auto_undefined fds edges u \<or>
     (\<exists>k \<in> set marks. xm_usr k = u \<and> xm_external k)) \<and>
    \<not> (\<exists>k \<in> set marks. xm_usr k = u \<and> \<not> xm_external k)"
proof (cases "manual_mark marks u")
  case None
  then have "\<And>k. k \<in> set marks \<Longrightarrow> xm_usr k \<noteq> u" by (auto simp: manual_mark_None)
  then show ?thesis by (auto simp: effective_usr_iff None non_manual_source_iff)
next
  case (Some b)
  then obtain k where k: "k \<in> set marks" "xm_usr k = u" "xm_external k = b"
    by (blast dest: manual_mark_Some)
  with assms have "\<And>l. l \<in> set marks \<Longrightarrow> xm_usr l = u \<Longrightarrow> xm_external l = b" by blast
  with k Some show ?thesis by (auto simp: effective_usr_iff)
qed

definition sample_method :: "string \<Rightarrow> string \<Rightarrow> function_declaration" where
  "sample_method usr file =
    \<lparr>fd_name = ''g'', fd_kind = FdMethod, fd_namespace = [], fd_owning_class_usr = Some ''c:@S@A'',
      fd_signature = ''void A::g()'', fd_file = file, fd_line = 3, fd_column = 1, fd_end_line = 5,
      fd_end_column = 2, fd_usr = usr, fd_is_static = False, fd_is_virtual = False,
      fd_is_pure_virtual = False, fd_is_defaulted = False, fd_overridden_usrs = [],
      fd_has_definition = True\<rparr>"

definition sample_edge :: "string \<Rightarrow> string \<Rightarrow> call_edge" where
  "sample_edge caller callee =
    \<lparr>ce_caller_usr = caller, ce_resolution = Resolved callee False, ce_file = ''a.cpp'',
      ce_line = 4, ce_column = 3\<rparr>"

text \<open>
  The method is in a marked file but excluded by hand, and calls a function nothing defines: the
  function is external, the method is not.
\<close>

theorem external_formula_witness:
  "let statuses = effective_external_set (\<lambda>p. Inr (\<lambda>t. t = p)) [] [sample_method ''v'' ''a.h'']
         [sample_edge ''v'' ''printf''] [] [] [\<lparr>fm_file = ''a.h'', fm_decided_at = []\<rparr>]
         [\<lparr>xm_usr = ''v'', xm_external = False, xm_decided_at = []\<rparr>]
   in (\<exists>st \<in> set statuses. es_usr st = ''printf'' \<and> es_effective st) \<and>
      \<not> (\<exists>st \<in> set statuses. es_usr st = ''v'' \<and> es_effective st)"
  unfolding Let_def
  by (subst (1 2) external_formula)
    (auto simp: sample_method_def sample_edge_def auto_undefined_def resolved_callee_def)

lemma expand_type_mark_set:
  "expand_type_mark type_usr fds =
    sorted_list_of_set (insert type_usr {fd_usr d | d. d \<in> set fds \<and> fd_owning_class_usr d = Some type_usr})"
proof -
  have "set (type_usr # map fd_usr (filter (\<lambda>d. fd_owning_class_usr d = Some type_usr) fds)) =
      insert type_usr {fd_usr d | d. d \<in> set fds \<and> fd_owning_class_usr d = Some type_usr}"
    by auto
  then show ?thesis unfolding expand_type_mark_def remdups_adj_sort by (rule arg_cong)
qed

end
