(* ===== verification/Facts.thy ===== *)
theory Facts
  imports Catalog
begin

text \<open>
  \<open>ProjectFacts\<close> of \<^verbatim>\<open>crates/server/src/mapping.rs\<close>: the catalogs the mapping decisions read, with
  four indexes computed once by \<open>new_full\<close>, and the lookups over them. The lemmas show that each
  index answers what a scan of the catalogs would.
\<close>

section \<open>Options\<close>

record consequence =
  cq_affected_type_usr :: string
  cq_description :: string

record mapping_option =
  mo_id :: string
  mo_label :: string
  mo_description :: string
  mo_consequences :: "consequence list"

record mapping_decision =
  de_type_usr :: string
  de_option_id :: string
  de_decided_at :: string

section \<open>Facts and their indexes\<close>

record project_facts =
  pf_declarations :: "type_declaration list"
  pf_usages :: "type_usage list"
  pf_functions :: "function_declaration list"
  pf_calls :: "call_edge list"
  pf_bases_by_decl_usr :: "(string \<times> string list) list"
  pf_subclasses_by_base_usr :: "(string \<times> type_declaration list) list"
  pf_calls_by_caller_usr :: "(string \<times> call_edge list) list"
  pf_functions_by_usr :: "(string \<times> function_declaration) list"

definition declarations_by_file ::
  "type_declaration list \<Rightarrow> (string \<times> type_declaration list) list" where
  "declarations_by_file ds = fold (\<lambda>d. entry_push map_of hm_put (td_file d) d) ds []"

definition usage_within :: "type_usage \<Rightarrow> type_declaration \<Rightarrow> bool" where
  "usage_within u d \<longleftrightarrow> td_line d \<le> tu_line u \<and> tu_line u \<le> td_end_line d"

text \<open>The loop over the usages, which fills both indexes of the inheritance edges.\<close>

definition index_usage ::
  "(string \<times> type_declaration list) list \<Rightarrow> type_usage \<Rightarrow>
   (string \<times> string list) list \<times> (string \<times> type_declaration list) list \<Rightarrow>
   (string \<times> string list) list \<times> (string \<times> type_declaration list) list" where
  "index_usage by_file u ix =
     (if tu_kind u \<noteq> TuInheritance then ix
      else case map_of by_file (tu_file u) of
        None \<Rightarrow> ix
      | Some candidates \<Rightarrow>
          fold (\<lambda>d (bases, subclasses).
                  if usage_within u d
                  then (entry_push map_of hm_put (td_usr d) (tu_type_usr u) bases,
                        entry_push map_of hm_put (tu_type_usr u) d subclasses)
                  else (bases, subclasses)) candidates ix)"

definition new_full ::
  "type_declaration list \<Rightarrow> type_usage list \<Rightarrow> function_declaration list \<Rightarrow> call_edge list \<Rightarrow>
   project_facts" where
  "new_full declarations usages functions calls =
     (let ix = fold (index_usage (declarations_by_file declarations)) usages ([], [])
      in \<lparr>pf_declarations = declarations, pf_usages = usages, pf_functions = functions,
          pf_calls = calls,
          pf_bases_by_decl_usr = fst ix,
          pf_subclasses_by_base_usr = snd ix,
          pf_calls_by_caller_usr = fold (\<lambda>e. entry_push map_of hm_put (ce_caller_usr e) e) calls [],
          pf_functions_by_usr = fold (\<lambda>f. hm_or_insert (fd_usr f) f) functions []\<rparr>)"

definition facts_new :: "type_declaration list \<Rightarrow> project_facts" where
  "facts_new declarations = new_full declarations [] [] []"

definition base_usrs_of :: "type_declaration \<Rightarrow> project_facts \<Rightarrow> string list" where
  "base_usrs_of d facts =
     (case map_of (pf_bases_by_decl_usr facts) (td_usr d) of None \<Rightarrow> [] | Some bases \<Rightarrow> bases)"

definition methods_of :: "type_declaration \<Rightarrow> project_facts \<Rightarrow> function_declaration list" where
  "methods_of d facts =
     filter (\<lambda>f. fd_owning_class_usr f = Some (td_usr d)) (pf_functions facts)"

section \<open>The inheritance edges by scanning\<close>

text \<open>Every pair of a usage that names a base and a declaration it lies within.\<close>

definition inheritance_edges ::
  "type_declaration list \<Rightarrow> type_usage list \<Rightarrow> (type_declaration \<times> type_usage) list" where
  "inheritance_edges declarations usages =
     concat (map (\<lambda>u. map (\<lambda>d. (d, u))
       (filter (\<lambda>d. td_file d = tu_file u \<and> usage_within u d) declarations))
       (filter (\<lambda>u. tu_kind u = TuInheritance) usages))"

lemma declarations_by_file_lookup:
  "map_of (declarations_by_file ds) f =
    (let xs = filter (\<lambda>d. td_file d = f) ds in if xs = [] then None else Some xs)"
  using hmm.get_group [of td_file "\<lambda>d. d" ds f] by (simp add: declarations_by_file_def Let_def)

definition push_edge ::
  "type_declaration \<times> type_usage \<Rightarrow>
   (string \<times> string list) list \<times> (string \<times> type_declaration list) list \<Rightarrow>
   (string \<times> string list) list \<times> (string \<times> type_declaration list) list" where
  "push_edge e ix =
     (entry_push map_of hm_put (td_usr (fst e)) (tu_type_usr (snd e)) (fst ix),
      entry_push map_of hm_put (tu_type_usr (snd e)) (fst e) (snd ix))"

lemma index_usage_edges:
  "index_usage (declarations_by_file ds) u ix = fold push_edge (inheritance_edges ds [u]) ix"
proof (cases "tu_kind u = TuInheritance")
  case True
  have "fold (\<lambda>d (bases, subclasses). if usage_within u d
        then (entry_push map_of hm_put (td_usr d) (tu_type_usr u) bases,
              entry_push map_of hm_put (tu_type_usr u) d subclasses)
        else (bases, subclasses)) cs ix =
      fold push_edge (map (\<lambda>d. (d, u)) (filter (usage_within u) cs)) ix" for cs
    by (induction cs arbitrary: ix) (auto simp: push_edge_def)
  with True show ?thesis
    by (auto simp: index_usage_def declarations_by_file_lookup inheritance_edges_def Let_def
        filter_empty_conv split: option.splits)
qed (simp add: index_usage_def inheritance_edges_def)

lemma fold_index_usage:
  "fold (index_usage (declarations_by_file ds)) us ix = fold push_edge (inheritance_edges ds us) ix"
proof (induction us arbitrary: ix)
  case (Cons u us)
  have "inheritance_edges ds (u # us) = inheritance_edges ds [u] @ inheritance_edges ds us"
    by (simp add: inheritance_edges_def)
  with Cons show ?case by (simp add: index_usage_edges)
qed (simp add: inheritance_edges_def)

lemma fold_push_edge:
  "fold push_edge es ix =
    (fold (\<lambda>e. entry_push map_of hm_put (td_usr (fst e)) (tu_type_usr (snd e))) es (fst ix),
     fold (\<lambda>e. entry_push map_of hm_put (tu_type_usr (snd e)) (fst e)) es (snd ix))"
  by (induction es arbitrary: ix) (simp_all add: push_edge_def)

lemma bases_index:
  "map_of (pf_bases_by_decl_usr (new_full ds us fs cs)) u =
    (let xs = map (\<lambda>e. tu_type_usr (snd e)) (filter (\<lambda>e. td_usr (fst e) = u) (inheritance_edges ds us))
     in if xs = [] then None else Some xs)"
  by (simp add: new_full_def Let_def fold_index_usage fold_push_edge
      hmm.get_group [where key = "\<lambda>e. td_usr (fst e)" and val = "\<lambda>e. tu_type_usr (snd e)"])

lemma subclasses_index:
  "map_of (pf_subclasses_by_base_usr (new_full ds us fs cs)) u =
    (let xs = map fst (filter (\<lambda>e. tu_type_usr (snd e) = u) (inheritance_edges ds us))
     in if xs = [] then None else Some xs)"
  by (simp add: new_full_def Let_def fold_index_usage fold_push_edge
      hmm.get_group [where key = "\<lambda>e. tu_type_usr (snd e)" and val = fst])

lemma calls_index:
  "map_of (pf_calls_by_caller_usr (new_full ds us fs cs)) u =
    (let xs = filter (\<lambda>e. ce_caller_usr e = u) cs in if xs = [] then None else Some xs)"
  using hmm.get_group [of ce_caller_usr "\<lambda>e. e" cs u] by (simp add: new_full_def Let_def)

lemma functions_index:
  "map_of (pf_functions_by_usr (new_full ds us fs cs)) u = List.find (\<lambda>f. fd_usr f = u) fs"
proof -
  have "map_of (fold (\<lambda>f. hm_or_insert (fd_usr f) f) fs m) u =
      (case map_of m u of None \<Rightarrow> List.find (\<lambda>f. fd_usr f = u) fs | Some f \<Rightarrow> Some f)" for m
    by (induction fs arbitrary: m) (auto simp: map_of_hm_or_insert split: option.splits)
  from this [of "[]"] show ?thesis by (simp add: new_full_def Let_def)
qed

lemma new_full_catalogs [simp]:
  "pf_declarations (new_full ds us fs cs) = ds"
  "pf_usages (new_full ds us fs cs) = us"
  "pf_functions (new_full ds us fs cs) = fs"
  "pf_calls (new_full ds us fs cs) = cs"
  by (simp_all add: new_full_def Let_def)

lemma base_usrs_of_scan:
  "base_usrs_of d (new_full ds us fs cs) =
    map (\<lambda>e. tu_type_usr (snd e)) (filter (\<lambda>e. td_usr (fst e) = td_usr d) (inheritance_edges ds us))"
  by (simp add: base_usrs_of_def bases_index Let_def)

lemma edges_scan:
  "map g (filter Q (inheritance_edges ds us)) =
    [g (d, b). b \<leftarrow> us, d \<leftarrow> ds,
      tu_kind b = TuInheritance \<and> td_file d = tu_file b \<and> usage_within b d \<and> Q (d, b)]"
proof (induction us)
  case (Cons b us)
  have "map g (filter Q (map (\<lambda>d. (d, b)) (filter R ds))) =
      concat (map (\<lambda>d. if R d \<and> Q (d, b) then [g (d, b)] else []) ds)" for R
    by (induction ds) auto
  with Cons show ?case by (auto simp: inheritance_edges_def)
qed (simp add: inheritance_edges_def)

lemma bases_lookup:
  "(case map_of (pf_bases_by_decl_usr (new_full ds us fs cs)) u of None \<Rightarrow> [] | Some xs \<Rightarrow> xs) =
    map (\<lambda>e. tu_type_usr (snd e)) (filter (\<lambda>e. td_usr (fst e) = u) (inheritance_edges ds us))"
  by (simp add: bases_index Let_def)

lemma subclasses_lookup:
  "(case map_of (pf_subclasses_by_base_usr (new_full ds us fs cs)) u of None \<Rightarrow> [] | Some xs \<Rightarrow> xs) =
    map fst (filter (\<lambda>e. tu_type_usr (snd e) = u) (inheritance_edges ds us))"
  by (simp add: subclasses_index Let_def)

lemma calls_lookup:
  "(case map_of (pf_calls_by_caller_usr (new_full ds us fs cs)) u of None \<Rightarrow> [] | Some xs \<Rightarrow> xs) =
    filter (\<lambda>e. ce_caller_usr e = u) cs"
  by (simp add: calls_index Let_def)

section \<open>Properties\<close>

text \<open>
  The four indexes of \<open>new_full\<close> answer every lookup as a scan of the catalogs does: the bases
  and the subclasses of a type from the inheritance usages within the declarations, in the order of
  the scan, the calls of a caller, and the first function of a USR.
\<close>

theorem indexes_answer_as_scans:
  "(case map_of (pf_bases_by_decl_usr (new_full ds us fs cs)) u of None \<Rightarrow> [] | Some xs \<Rightarrow> xs) =
      [tu_type_usr b. b \<leftarrow> us, d \<leftarrow> ds,
        tu_kind b = TuInheritance \<and> td_file d = tu_file b \<and> usage_within b d \<and> td_usr d = u] \<and>
    (case map_of (pf_subclasses_by_base_usr (new_full ds us fs cs)) u of None \<Rightarrow> [] | Some xs \<Rightarrow> xs) =
      [d. b \<leftarrow> us, d \<leftarrow> ds,
        tu_kind b = TuInheritance \<and> td_file d = tu_file b \<and> usage_within b d \<and> tu_type_usr b = u] \<and>
    (case map_of (pf_calls_by_caller_usr (new_full ds us fs cs)) u of None \<Rightarrow> [] | Some xs \<Rightarrow> xs) =
      filter (\<lambda>e. ce_caller_usr e = u) cs \<and>
    map_of (pf_functions_by_usr (new_full ds us fs cs)) u = List.find (\<lambda>f. fd_usr f = u) fs"
proof (intro conjI)
  show "map_of (pf_functions_by_usr (new_full ds us fs cs)) u = List.find (\<lambda>f. fd_usr f = u) fs"
    by (rule functions_index)
qed (simp_all only: bases_lookup subclasses_lookup calls_lookup edges_scan fst_conv snd_conv)

end
