(* ===== verification/Type_Options.thy ===== *)
theory Type_Options
  imports Facts
begin

text \<open>
  Which Dart representation a C++ type is offered, of \<^verbatim>\<open>crates/server/src/mapping.rs\<close>: \<open>options_for\<close>
  and the rules it tries in order, and \<open>feasible_options\<close>, which takes an option back when another
  type's choice makes it impossible. Reading a source file is a parameter, \<open>read_file\<close>, for
  \<^verbatim>\<open>fs::read_to_string\<close>. The texts shown to the user are part of the model: one decision searches
  them. The lemmas give the conditions of each decision in terms of the catalogs alone.
\<close>

section \<open>Evidence in source text\<close>

type_synonym file_reader = "string \<Rightarrow> string option"

definition has_conditional_compilation :: "file_reader \<Rightarrow> string \<Rightarrow> bool" where
  "has_conditional_compilation read_file file =
     (case read_file file of
        None \<Rightarrow> False
      | Some contents \<Rightarrow>
          list_ex (\<lambda>line. let trimmed = str_trim_start line in
            str_starts_with trimmed ''#ifdef'' \<or> str_starts_with trimmed ''#ifndef'' \<or>
            str_starts_with trimmed ''#if '' \<or> str_starts_with trimmed ''#elif'')
          (str_lines contents))"

text \<open>The search loop of \<open>contains_non_const_reference\<close>, from a byte offset on.\<close>

function non_const_reference_from :: "string \<Rightarrow> string \<Rightarrow> nat \<Rightarrow> bool" where
  "non_const_reference_from signature needle search_from =
     (if needle = [] \<or> length signature < search_from then False
      else case str_find (drop search_from signature) needle of
        None \<Rightarrow> False
      | Some relative_index \<Rightarrow>
          (let index = search_from + relative_index in
           if \<not> str_ends_with (str_trim_end (take index signature)) ''const'' then True
           else non_const_reference_from signature needle (index + length needle)))"
  by pat_completeness auto
termination
  by (relation "measure (\<lambda>(signature, needle, search_from). Suc (length signature) - search_from)")
    (auto dest!: str_find_SomeD simp flip: length_greater_0_conv)

declare non_const_reference_from.simps [simp del]

definition contains_non_const_reference :: "string \<Rightarrow> string \<Rightarrow> bool" where
  "contains_non_const_reference signature type_name =
     non_const_reference_from signature (type_name @ '' &'') 0"

definition external_mutating_reference ::
  "type_declaration \<Rightarrow> project_facts \<Rightarrow> function_declaration option" where
  "external_mutating_reference d facts =
     List.find (\<lambda>f. fd_owning_class_usr f \<noteq> Some (td_usr d) \<and>
       contains_non_const_reference (fd_signature f) (td_name d)) (pf_functions facts)"

section \<open>The rules\<close>

definition non_record_options :: "type_declaration \<Rightarrow> mapping_option list" where
  "non_record_options d =
     (if td_kind d = TdUnion then
        [\<lparr>mo_id = ''uniao-com-tag'',
          mo_label = (''C'' @ [CHR 0xC3, CHR 0xB3] @ ''digo ponte: classe com tag''),
          mo_description =
            (''`'' @ td_name d @ ''` '' @ [CHR 0xC3, CHR 0xA9] @
            '' `union`: os campos nunca compartilham mem'' @ [CHR 0xC3, CHR 0xB3] @
            ''ria em Dart. C'' @ [CHR 0xC3, CHR 0xB3] @ ''digo ponte necess'' @
            [CHR 0xC3, CHR 0xA1] @ ''rio '' @ [CHR 0xE2, CHR 0x80, CHR 0x94] @
            '' uma classe com uma tag mais um campo por alternativa, ou um wrapper sobre '' @
            ''bytes crus se a sobreposi'' @ [CHR 0xC3, CHR 0xA7, CHR 0xC3, CHR 0xA3] @
            ''o bin'' @ [CHR 0xC3, CHR 0xA1] @ ''ria em si importar.''),
          mo_consequences = []\<rparr>]
      else
        [\<lparr>mo_id = ''codigo-ponte'',
          mo_label = (''C'' @ [CHR 0xC3, CHR 0xB3] @ ''digo ponte''),
          mo_description =
            (''Nenhum mapeamento direto existe ainda para `'' @ td_name d @ ''` ('' @
            kind_debug (td_kind d) @ '') '' @ [CHR 0xE2, CHR 0x80, CHR 0x94] @ '' c'' @
            [CHR 0xC3, CHR 0xB3] @ ''digo ponte mant'' @ [CHR 0xC3, CHR 0xA9] @
            ''m a convers'' @ [CHR 0xC3, CHR 0xA3] @ ''o poss'' @ [CHR 0xC3, CHR 0xAD] @
            ''vel at'' @ [CHR 0xC3, CHR 0xA9] @
            '' que um mapeamento dedicado seja implementado.''),
          mo_consequences = []\<rparr>])"

text \<open>The name of a base, or its USR where the project does not declare it.\<close>

definition base_name :: "project_facts \<Rightarrow> string \<Rightarrow> string" where
  "base_name facts usr =
     (case List.find (\<lambda>d. td_usr d = usr) (pf_declarations facts) of
        Some d \<Rightarrow> td_name d | None \<Rightarrow> usr)"

definition owners_among_bases ::
  "project_facts \<Rightarrow> string list \<Rightarrow> function_declaration \<Rightarrow> string list" where
  "owners_among_bases facts bases f =
     remdups (filter (\<lambda>owner. owner \<in> set bases)
       (filter_map fd_owning_class_usr
         (filter_map (\<lambda>usr. List.find (\<lambda>g. fd_usr g = usr) (pf_functions facts))
           (fd_overridden_usrs f))))"

definition conflicting_diamond_override ::
  "type_declaration \<Rightarrow> project_facts \<Rightarrow> string list \<Rightarrow> function_declaration option" where
  "conflicting_diamond_override d facts bases =
     List.find (\<lambda>m. 2 \<le> length (owners_among_bases facts bases m)) (methods_of d facts)"

definition mixin_consequence ::
  "project_facts \<Rightarrow> type_declaration \<Rightarrow> string \<Rightarrow> consequence" where
  "mixin_consequence facts d base =
     \<lparr>cq_affected_type_usr = base,
      cq_description = (''`'' @ base_name facts base @ ''` vira mixin aplicado via `with` em `'' @ td_name d @
          ''`'')\<rparr>"

definition multiple_inheritance_option ::
  "type_declaration \<Rightarrow> project_facts \<Rightarrow> string list \<Rightarrow> mapping_option" where
  "multiple_inheritance_option d facts bases =
     (case conflicting_diamond_override d facts bases of
        Some conflict \<Rightarrow>
          (let conflicting_bases = filter (\<lambda>usr. usr \<in> set bases) (fd_overridden_usrs conflict);
               consequences = map (mixin_consequence facts d) bases @
                 [\<lparr>cq_affected_type_usr = td_usr d,
                   cq_description =
                     (''`'' @ td_name d @ ''` precisa sobrescrever `'' @ fd_name conflict @
                      ''` explicitamente '' @ [CHR 0xE2, CHR 0x80, CHR 0x94] @ '' '' @
                      str_join '' e '' (map (\<lambda>usr. ''`'' @ base_name facts usr @ ''`'') conflicting_bases) @
                      '' declaram o m'' @ [CHR 0xC3, CHR 0xA9] @ ''todo de forma incompat'' @
                      [CHR 0xC3, CHR 0xAD] @ ''vel, e `with` sozinho (que s'' @
                      [CHR 0xC3, CHR 0xB3] @ '' usa a '' @ [CHR 0xC3, CHR 0xBA] @
                      ''ltima declara'' @ [CHR 0xC3, CHR 0xA7, CHR 0xC3, CHR 0xA3] @
                      ''o da lista) produziria um resultado diferente do C++ original'')\<rparr>]
           in \<lparr>mo_id = ''mixins-com-sobrescrita-explicita'',
                mo_label = (''Classe com mixins e sobrescrita expl'' @ [CHR 0xC3, CHR 0xAD] @ ''cita''),
                mo_description =
                  (''`'' @ td_name d @ ''` combina '' @ show_nat (length bases) @
                  '' bases via heran'' @ [CHR 0xC3, CHR 0xA7] @ ''a m'' @ [CHR 0xC3, CHR 0xBA] @
                  ''ltipla; pelo menos um m'' @ [CHR 0xC3, CHR 0xA9] @ ''todo '' @
                  [CHR 0xC3, CHR 0xA9] @ '' declarado de forma conflitante entre elas, ent'' @
                  [CHR 0xC3, CHR 0xA3] @ ''o a classe Dart precisa sobrescrever esse m'' @
                  [CHR 0xC3, CHR 0xA9] @
                  ''todo explicitamente em vez de confiar na ordem de `with`.''),
                mo_consequences = consequences\<rparr>)
      | None \<Rightarrow>
          \<lparr>mo_id = ''classe-com-mixins'',
            mo_label = ''Classe com mixins'',
            mo_description =
              (''`'' @ td_name d @ ''` combina '' @ show_nat (length bases) @
              '' bases via heran'' @ [CHR 0xC3, CHR 0xA7] @ ''a m'' @ [CHR 0xC3, CHR 0xBA] @
              ''ltipla, sem conflito de nomes entre elas: cada base vira um mixin aplicado '' @
              ''via `with`.''),
            mo_consequences = map (mixin_consequence facts d) bases\<rparr>)"

definition has_user_destructor :: "function_declaration list \<Rightarrow> bool" where
  "has_user_destructor methods =
     list_ex (\<lambda>m. fd_kind m = FdDestructor \<and> \<not> fd_is_defaulted m) methods"

definition has_copy_constructor :: "type_declaration \<Rightarrow> function_declaration list \<Rightarrow> bool" where
  "has_copy_constructor d methods =
     list_ex (\<lambda>m. fd_kind m = FdConstructor \<and>
       str_contains (fd_signature m) (''(const '' @ td_name d @ '' &'')) methods"

definition has_copy_assignment :: "function_declaration list \<Rightarrow> bool" where
  "has_copy_assignment methods =
     list_ex (\<lambda>m. fd_name m = ''operator='' \<and> fd_kind m = FdMethod) methods"

definition value_semantics_option ::
  "type_declaration \<Rightarrow> project_facts \<Rightarrow> mapping_option option" where
  "value_semantics_option d facts =
     (let methods = methods_of d facts in
      if \<not> has_user_destructor methods then None
      else if has_copy_constructor d methods \<and> has_copy_assignment methods then
        Some \<lparr>mo_id = ''clonagem-explicita-valor'',
              mo_label = (''C'' @ [CHR 0xC3, CHR 0xB3] @ ''digo ponte: clonagem expl'' @ [CHR 0xC3, CHR 0xAD] @
        ''cita''),
              mo_description =
                (''`'' @ td_name d @ ''` segue a Regra dos Tr'' @ [CHR 0xC3, CHR 0xAA] @
                ''s (construtor de c'' @ [CHR 0xC3, CHR 0xB3] @
                ''pia, `operator=` e destrutor fazem c'' @ [CHR 0xC3, CHR 0xB3] @
                ''pia profunda de um recurso pr'' @ [CHR 0xC3, CHR 0xB3] @ ''prio). Dart n'' @
                [CHR 0xC3, CHR 0xA3] @ ''o tem construtor de c'' @ [CHR 0xC3, CHR 0xB3] @
                ''pia nem destrutor determin'' @ [CHR 0xC3, CHR 0xAD] @ ''stico '' @
                [CHR 0xE2, CHR 0x80, CHR 0x94] @ '' atribui'' @
                [CHR 0xC3, CHR 0xA7, CHR 0xC3, CHR 0xA3] @ ''o '' @ [CHR 0xC3, CHR 0xA9] @
                '' sempre refer'' @ [CHR 0xC3, CHR 0xAA] @ ''ncia. C'' @ [CHR 0xC3, CHR 0xB3] @
                ''digo ponte necess'' @ [CHR 0xC3, CHR 0xA1] @ ''rio: um m'' @
                [CHR 0xC3, CHR 0xA9] @ ''todo `clonar()` expl'' @ [CHR 0xC3, CHR 0xAD] @
                ''cito, chamado em todo call site do C++ original que copiava implicitamente.''),
              mo_consequences = []\<rparr>
      else
        Some \<lparr>mo_id = ''dispose-explicito-raii'',
              mo_label = (''C'' @ [CHR 0xC3, CHR 0xB3] @ ''digo ponte: dispose() expl'' @ [CHR 0xC3, CHR 0xAD] @
        ''cito''),
              mo_description =
                (''`'' @ td_name d @ ''` declara um destrutor pr'' @ [CHR 0xC3, CHR 0xB3] @
                ''prio (RAII): libera um recurso de forma determin'' @ [CHR 0xC3, CHR 0xAD] @
                ''stica, no ponto exato em que o objeto sai de escopo. Dart n'' @
                [CHR 0xC3, CHR 0xA3] @ ''o tem destrutor determin'' @ [CHR 0xC3, CHR 0xAD] @
                ''stico (`Finalizer` roda depois do GC, tarde demais para um recurso do '' @
                ''sistema operacional). C'' @ [CHR 0xC3, CHR 0xB3] @ ''digo ponte necess'' @
                [CHR 0xC3, CHR 0xA1] @ ''rio: `dispose()`/`close()` expl'' @
                [CHR 0xC3, CHR 0xAD] @
                ''cito, com todo escopo que dependia do RAII reescrito para cham'' @
                [CHR 0xC3, CHR 0xA1] @ ''-lo.''),
              mo_consequences = []\<rparr>)"

definition virtual_methods :: "function_declaration list \<Rightarrow> function_declaration list" where
  "virtual_methods methods = filter (\<lambda>m. fd_kind m = FdMethod \<and> fd_is_virtual m) methods"

definition body_consequence :: "type_declaration \<Rightarrow> function_declaration \<Rightarrow> consequence" where
  "body_consequence d m =
     \<lparr>cq_affected_type_usr = fd_usr m,
      cq_description = (''`'' @ fd_name m @ ''` tem corpo pr'' @ [CHR 0xC3, CHR 0xB3] @ ''prio (n'' @
          [CHR 0xC3, CHR 0xA3] @ ''o '' @ [CHR 0xC3, CHR 0xA9] @ '' puro) '' @
          [CHR 0xE2, CHR 0x80, CHR 0x94] @ '' uma `abstract interface class` Dart n'' @
          [CHR 0xC3, CHR 0xA3] @ ''o carrega implementa'' @
          [CHR 0xC3, CHR 0xA7, CHR 0xC3, CHR 0xA3] @ ''o herd'' @ [CHR 0xC3, CHR 0xA1] @
          ''vel, ent'' @ [CHR 0xC3, CHR 0xA3] @ ''o esse corpo obriga `'' @ td_name d @
          ''` a virar mixin, ou obriga o corpo a ser duplicado em cada implementador'')\<rparr>"

definition interface_candidate_option ::
  "type_declaration \<Rightarrow> project_facts \<Rightarrow> mapping_option option" where
  "interface_candidate_option d facts =
     (let virtuals = virtual_methods (methods_of d facts);
          non_pure = filter (\<lambda>m. \<not> fd_is_pure_virtual m) virtuals
      in
      if virtuals = [] then None
      else if non_pure = [] then
        Some \<lparr>mo_id = ''interface-pura'',
              mo_label = ''Interface pura (`abstract interface class`)'',
              mo_description =
                (''Todo m'' @ [CHR 0xC3, CHR 0xA9] @ ''todo virtual de `'' @ td_name d @ ''` '' @
                [CHR 0xC3, CHR 0xA9] @ '' puro (sem corpo pr'' @ [CHR 0xC3, CHR 0xB3] @
                ''prio): mapeia direto para `abstract interface class` em Dart, sem implementa'' @
                [CHR 0xC3, CHR 0xA7, CHR 0xC3, CHR 0xA3] @ ''o herd'' @ [CHR 0xC3, CHR 0xA1] @
                ''vel para carregar.''),
              mo_consequences = []\<rparr>
      else
        Some \<lparr>mo_id = ''mixin-com-implementacao-padrao'',
              mo_label = (''Mixin com implementa'' @ [CHR 0xC3, CHR 0xA7, CHR 0xC3, CHR 0xA3] @ ''o padr'' @
        [CHR 0xC3, CHR 0xA3] @ ''o''),
              mo_description =
                (''`'' @ td_name d @ ''` parece uma interface, mas pelo menos um m'' @
                [CHR 0xC3, CHR 0xA9] @ ''todo virtual tem corpo pr'' @ [CHR 0xC3, CHR 0xB3] @
                ''prio (n'' @ [CHR 0xC3, CHR 0xA3] @ ''o '' @ [CHR 0xC3, CHR 0xA9] @
                '' puro) '' @ [CHR 0xE2, CHR 0x80, CHR 0x94] @ '' precisa virar mixin, n'' @
                [CHR 0xC3, CHR 0xA3] @ ''o `abstract interface class`, para que a implementa'' @
                [CHR 0xC3, CHR 0xA7, CHR 0xC3, CHR 0xA3] @ ''o padr'' @ [CHR 0xC3, CHR 0xA3] @
                ''o sobreviva.''),
              mo_consequences = map (body_consequence d) non_pure\<rparr>)"

definition default_class_option :: "type_declaration \<Rightarrow> project_facts \<Rightarrow> mapping_option" where
  "default_class_option d facts =
     (let consequences =
        (case external_mutating_reference d facts of
           None \<Rightarrow> []
         | Some mutator \<Rightarrow>
             [\<lparr>cq_affected_type_usr = td_usr d,
               cq_description =
                 (''permanece uma classe Dart com campos mut'' @ [CHR 0xC3, CHR 0xA1] @
                  ''veis porque `'' @ fd_signature mutator @ ''` (`'' @ fd_file mutator @
                  ''`) escreve em `'' @ td_name d @ ''` atrav'' @ [CHR 0xC3, CHR 0xA9] @
                  ''s de uma refer'' @ [CHR 0xC3, CHR 0xAA] @ ''ncia n'' @
                  [CHR 0xC3, CHR 0xA3] @ ''o-const'')\<rparr>])
      in \<lparr>mo_id = ''classe-direta'',
           mo_label = (''Classe Dart `'' @ td_name d @ ''`''),
           mo_description =
             (''Mapeamento direto: `'' @ td_name d @
             ''` vira uma classe Dart com os mesmos campos.''),
           mo_consequences = consequences\<rparr>)"

definition conditional_compilation_option :: "type_declaration \<Rightarrow> mapping_option" where
  "conditional_compilation_option d =
     \<lparr>mo_id = ''decisao-de-produto-compilacao-condicional'',
       mo_label = (''Decis'' @ [CHR 0xC3, CHR 0xA3] @ ''o de produto: compila'' @
        [CHR 0xC3, CHR 0xA7, CHR 0xC3, CHR 0xA3] @ ''o condicional''),
       mo_description =
         (''`'' @ td_name d @ ''` est'' @ [CHR 0xC3, CHR 0xA1] @ '' em um arquivo com compila'' @
         [CHR 0xC3, CHR 0xA7, CHR 0xC3, CHR 0xA3] @
         ''o condicional (`#ifdef`/`#ifndef`/`#if`). `libclang` s'' @ [CHR 0xC3, CHR 0xB3] @
         '' enxerga o ramo que foi de fato compilado nesta configura'' @
         [CHR 0xC3, CHR 0xA7, CHR 0xC3, CHR 0xA3] @ ''o '' @ [CHR 0xE2, CHR 0x80, CHR 0x94] @
         '' o outro ramo '' @ [CHR 0xC3, CHR 0xA9] @ '' texto morto para a an'' @
         [CHR 0xC3, CHR 0xA1] @
         ''lise, mesmo que o produto real precise converter para as duas configura'' @
         [CHR 0xC3, CHR 0xA7, CHR 0xC3, CHR 0xB5] @ ''es. N'' @ [CHR 0xC3, CHR 0xA3] @ ''o h'' @
         [CHR 0xC3, CHR 0xA1] @ '' op'' @ [CHR 0xC3, CHR 0xA7, CHR 0xC3, CHR 0xA3] @
         ''o de mapeamento de tipo que resolva isto: '' @ [CHR 0xC3, CHR 0xA9] @
         '' uma decis'' @ [CHR 0xC3, CHR 0xA3] @ ''o de produto (gerar as duas variantes atr'' @
         [CHR 0xC3, CHR 0xA1] @ ''s de uma flag, ou perguntar ao usu'' @ [CHR 0xC3, CHR 0xA1] @
         ''rio qual configura'' @ [CHR 0xC3, CHR 0xA7, CHR 0xC3, CHR 0xA3] @
         ''o converter), n'' @ [CHR 0xC3, CHR 0xA3] @ ''o uma escolha entre representa'' @
         [CHR 0xC3, CHR 0xA7, CHR 0xC3, CHR 0xB5] @ ''es Dart.''),
       mo_consequences = []\<rparr>"

definition options_for ::
  "file_reader \<Rightarrow> type_declaration \<Rightarrow> project_facts \<Rightarrow> mapping_decision list \<Rightarrow>
   mapping_option list" where
  "options_for read_file d facts decisions =
     (if td_kind d \<noteq> TdStruct \<and> td_kind d \<noteq> TdClass then non_record_options d
      else if has_conditional_compilation read_file (td_file d)
      then [conditional_compilation_option d]
      else
        (let bases = base_usrs_of d facts in
         if 2 \<le> length bases then [multiple_inheritance_option d facts bases]
         else case value_semantics_option d facts of
           Some option \<Rightarrow> [option]
         | None \<Rightarrow>
             (case (if bases = [] then interface_candidate_option d facts else None) of
                Some option \<Rightarrow> [option]
              | None \<Rightarrow> [default_class_option d facts])))"

section \<open>Feasibility\<close>

definition forces_mixin ::
  "file_reader \<Rightarrow> project_facts \<Rightarrow> type_declaration \<Rightarrow> type_declaration \<Rightarrow> bool" where
  "forces_mixin read_file facts d other =
     list_ex (\<lambda>option. list_ex (\<lambda>c. cq_affected_type_usr c = td_usr d \<and>
         str_contains (cq_description c) ''vira mixin'') (mo_consequences option))
       (options_for read_file other facts [])"

definition mixin_forced_on ::
  "file_reader \<Rightarrow> type_declaration \<Rightarrow> project_facts \<Rightarrow> (string \<times> string) option" where
  "mixin_forced_on read_file d facts =
     find_map (\<lambda>other. if td_usr other = td_usr d then None
       else if forces_mixin read_file facts d other then Some (td_usr other, td_name other)
       else None) (pf_declarations facts)"

definition is_directly_value_constructed :: "type_declaration \<Rightarrow> project_facts \<Rightarrow> bool" where
  "is_directly_value_constructed d facts =
     list_ex (\<lambda>u. tu_type_usr u = td_usr d \<and> tu_kind u = TuVariableDeclaration) (pf_usages facts)"

definition infeasible_mixin_option :: "type_declaration \<Rightarrow> string \<times> string \<Rightarrow> mapping_option" where
  "infeasible_mixin_option d forcing =
     \<lparr>mo_id = ''ponte-mixin-inviavel'',
       mo_label = (''C'' @ [CHR 0xC3, CHR 0xB3] @ ''digo ponte: mixin invi'' @ [CHR 0xC3, CHR 0xA1] @
        ''vel''),
       mo_description =
         (''`'' @ td_name d @ ''` precisaria virar `mixin` para satisfazer a composi'' @
         [CHR 0xC3, CHR 0xA7, CHR 0xC3, CHR 0xA3] @ ''o de heran'' @ [CHR 0xC3, CHR 0xA7] @
         ''a m'' @ [CHR 0xC3, CHR 0xBA] @ ''ltipla de `'' @ snd forcing @ ''` '' @
         [CHR 0xE2, CHR 0x80, CHR 0x94] @ '' mas `'' @ td_name d @ ''` tamb'' @
         [CHR 0xC3, CHR 0xA9] @ ''m '' @ [CHR 0xC3, CHR 0xA9] @
         '' instanciado diretamente como valor em algum outro lugar do projeto, e um '' @
         ''`mixin` em Dart nunca pode ser instanciado sozinho. As duas exig'' @
         [CHR 0xC3, CHR 0xAA] @ ''ncias n'' @ [CHR 0xC3, CHR 0xA3] @ ''o s'' @
         [CHR 0xC3, CHR 0xA3] @ ''o simultaneamente satisfaz'' @ [CHR 0xC3, CHR 0xAD] @
         ''veis por uma '' @ [CHR 0xC3, CHR 0xBA] @ ''nica classe/mixin: precisa de c'' @
         [CHR 0xC3, CHR 0xB3] @ ''digo ponte (composi'' @
         [CHR 0xC3, CHR 0xA7, CHR 0xC3, CHR 0xA3] @ ''o em vez de mixin, ou duas representa'' @
         [CHR 0xC3, CHR 0xA7, CHR 0xC3, CHR 0xB5] @ ''es).''),
       mo_consequences = [\<lparr>cq_affected_type_usr = fst forcing,
         cq_description =
           (''`'' @ snd forcing @ ''` n'' @ [CHR 0xC3, CHR 0xA3] @ ''o pode mais compor `'' @
            td_name d @ ''` via `with` '' @ [CHR 0xE2, CHR 0x80, CHR 0x94] @ '' `'' @
            td_name d @ ''` precisa continuar instanci'' @ [CHR 0xC3, CHR 0xA1] @
            ''vel diretamente em algum outro lugar do projeto'')\<rparr>]\<rparr>"

definition feasible_options ::
  "file_reader \<Rightarrow> type_declaration \<Rightarrow> project_facts \<Rightarrow> mapping_decision list \<Rightarrow>
   mapping_option list" where
  "feasible_options read_file d facts decisions =
     (let default = options_for read_file d facts decisions in
      case mixin_forced_on read_file d facts of
        None \<Rightarrow> default
      | Some forcing \<Rightarrow>
          if \<not> is_directly_value_constructed d facts then default
          else [infeasible_mixin_option d forcing])"

section \<open>What the rules decide\<close>

lemmas rule_defs = non_record_options_def multiple_inheritance_option_def value_semantics_option_def
  interface_candidate_option_def default_class_option_def conditional_compilation_option_def

lemma options_for_single: "\<exists>option. options_for read_file d facts decisions = [option]"
  by (auto simp: options_for_def non_record_options_def Let_def split: option.splits)

lemma length_remdups_2: "2 \<le> length (remdups xs) \<longleftrightarrow> (\<exists>x \<in> set xs. \<exists>y \<in> set xs. x \<noteq> y)"
proof -
  have "2 \<le> card A \<longleftrightarrow> (\<exists>x \<in> A. \<exists>y \<in> A. x \<noteq> y)" if "finite A" for A :: "'a set"
    using that card_le_Suc0_iff_eq [of A] by (auto simp: not_less_eq_eq [symmetric] numeral_2_eq_2)
  from this [of "set xs"] show ?thesis by (simp add: length_remdups_card_conv)
qed

text \<open>A method that overrides methods of two of the bases.\<close>

definition overrides_owner ::
  "project_facts \<Rightarrow> function_declaration \<Rightarrow> string \<Rightarrow> bool" where
  "overrides_owner facts m owner \<longleftrightarrow>
     (\<exists>usr \<in> set (fd_overridden_usrs m). \<exists>g. List.find (\<lambda>g. fd_usr g = usr) (pf_functions facts) = Some g \<and>
       fd_owning_class_usr g = Some owner)"

definition has_conflict :: "project_facts \<Rightarrow> type_declaration \<Rightarrow> string list \<Rightarrow> bool" where
  "has_conflict facts d bases \<longleftrightarrow>
     (\<exists>m \<in> set (methods_of d facts). \<exists>a \<in> set bases. \<exists>b \<in> set bases.
        a \<noteq> b \<and> overrides_owner facts m a \<and> overrides_owner facts m b)"

lemma set_owners_among_bases:
  "owner \<in> set (owners_among_bases facts bases m) \<longleftrightarrow> owner \<in> set bases \<and> overrides_owner facts m owner"
  by (auto simp: owners_among_bases_def set_filter_map overrides_owner_def)

lemma conflicting_diamond_override_None:
  "conflicting_diamond_override d facts bases = None \<longleftrightarrow> \<not> has_conflict facts d bases"
proof -
  have "2 \<le> length (owners_among_bases facts bases m) \<longleftrightarrow>
    (\<exists>a \<in> set bases. \<exists>b \<in> set bases. a \<noteq> b \<and> overrides_owner facts m a \<and> overrides_owner facts m b)" for m
    using length_remdups_2 [of "filter (\<lambda>owner. owner \<in> set bases)
       (filter_map fd_owning_class_usr
         (filter_map (\<lambda>usr. List.find (\<lambda>g. fd_usr g = usr) (pf_functions facts)) (fd_overridden_usrs m)))"]
      set_owners_among_bases [of _ facts bases m]
    by (fastforce simp: owners_among_bases_def)
  then show ?thesis
    by (auto simp: conflicting_diamond_override_def find_None_iff has_conflict_def)
qed

lemma multiple_inheritance_id:
  "mo_id (multiple_inheritance_option d facts bases) =
    (if has_conflict facts d bases then ''mixins-com-sobrescrita-explicita'' else ''classe-com-mixins'')"
  using conflicting_diamond_override_None [of d facts bases]
  by (auto simp: multiple_inheritance_option_def Let_def split: option.splits)

lemma value_semantics_id:
  "map_option mo_id (value_semantics_option d facts) =
    (if has_user_destructor (methods_of d facts) then
       Some (if has_copy_constructor d (methods_of d facts) \<and> has_copy_assignment (methods_of d facts)
         then ''clonagem-explicita-valor'' else ''dispose-explicito-raii'')
     else None)"
  by (simp add: value_semantics_option_def Let_def)

lemma interface_candidate_id:
  "map_option mo_id (interface_candidate_option d facts) =
    (if virtual_methods (methods_of d facts) = [] then None
     else Some (if list_all fd_is_pure_virtual (virtual_methods (methods_of d facts))
       then ''interface-pura'' else ''mixin-com-implementacao-padrao''))"
  by (simp add: interface_candidate_option_def Let_def filter_empty_conv list_all_iff)

lemma default_class_id: "mo_id (default_class_option d facts) = ''classe-direta''"
  by (simp add: default_class_option_def Let_def)

section \<open>Who forces a mixin\<close>

text \<open>A record type with several bases, this one among them.\<close>

definition composes ::
  "file_reader \<Rightarrow> project_facts \<Rightarrow> type_declaration \<Rightarrow> type_declaration \<Rightarrow> bool" where
  "composes read_file facts d other \<longleftrightarrow>
     (td_kind other = TdStruct \<or> td_kind other = TdClass) \<and>
     \<not> has_conditional_compilation read_file (td_file other) \<and>
     2 \<le> length (base_usrs_of other facts) \<and> td_usr d \<in> set (base_usrs_of other facts)"

lemma mixin_consequence_text: "str_contains (cq_description (mixin_consequence facts d base)) ''vira mixin''"
proof -
  have "cq_description (mixin_consequence facts d base) =
    (''`'' @ base_name facts base @ ''` '') @ ''vira mixin'' @ ('' aplicado via `with` em `'' @ td_name d @ ''`'')"
    by (simp add: mixin_consequence_def)
  then show ?thesis unfolding str_contains_iff sublist_def by blast
qed

lemma mixin_consequence_affected [simp]: "cq_affected_type_usr (mixin_consequence facts d base) = base"
  by (simp add: mixin_consequence_def)

lemma multiple_inheritance_consequences:
  "\<exists>extra. mo_consequences (multiple_inheritance_option d facts bases) =
      map (mixin_consequence facts d) bases @ extra \<and>
    (\<forall>c \<in> set extra. cq_affected_type_usr c = td_usr d)"
  by (cases "conflicting_diamond_override d facts bases")
    (simp_all add: multiple_inheritance_option_def Let_def)

lemma forces_mixin_iff:
  assumes "td_usr other \<noteq> td_usr d" and fns: "\<And>f. f \<in> set (pf_functions facts) \<Longrightarrow> fd_usr f \<noteq> td_usr d"
  shows "forces_mixin read_file facts d other \<longleftrightarrow> composes read_file facts d other"
proof -
  have methods: "fd_usr m \<noteq> td_usr d" if "m \<in> set (methods_of other facts)" for m
    using that fns by (simp add: methods_of_def)
  have multi: "list_ex (\<lambda>c. cq_affected_type_usr c = td_usr d \<and> str_contains (cq_description c) ''vira mixin'')
      (mo_consequences (multiple_inheritance_option other facts bases)) \<longleftrightarrow> td_usr d \<in> set bases" for bases
  proof -
    obtain extra where "mo_consequences (multiple_inheritance_option other facts bases) =
        map (mixin_consequence facts other) bases @ extra"
      and "\<forall>c \<in> set extra. cq_affected_type_usr c = td_usr other"
      using multiple_inheritance_consequences [of other facts bases] by blast
    then show ?thesis
      using assms(1) by (auto simp: list_ex_iff mixin_consequence_text bex_Un)
  qed
  have semantics: "mo_consequences opt = []" if "value_semantics_option other facts = Some opt" for opt
    using that by (auto simp: value_semantics_option_def Let_def split: if_splits)
  have iface: "cq_affected_type_usr c \<noteq> td_usr d"
    if "interface_candidate_option other facts = Some opt" "c \<in> set (mo_consequences opt)" for opt c
    using that methods
    by (auto simp: interface_candidate_option_def virtual_methods_def body_consequence_def Let_def
        split: if_splits)
  have default: "cq_affected_type_usr c \<noteq> td_usr d"
    if "c \<in> set (mo_consequences (default_class_option other facts))" for c
    using that assms(1) by (auto simp: default_class_option_def Let_def split: option.splits)
  show ?thesis
    using multi semantics iface default
    by (auto simp: forces_mixin_def composes_def options_for_def non_record_options_def
        conditional_compilation_option_def Let_def list_ex_iff split: option.splits if_splits)
qed

lemma find_map_if:
  "find_map (\<lambda>x. if P x then None else if Q x then Some (f x) else None) xs =
    map_option f (List.find (\<lambda>x. \<not> P x \<and> Q x) xs)"
  by (induction xs) auto

lemma mixin_forced_on_find:
  assumes "\<And>f. f \<in> set (pf_functions facts) \<Longrightarrow> fd_usr f \<noteq> td_usr d"
  shows "mixin_forced_on read_file d facts =
    map_option (\<lambda>other. (td_usr other, td_name other))
      (List.find (\<lambda>other. td_usr other \<noteq> td_usr d \<and> composes read_file facts d other) (pf_declarations facts))"
proof -
  have "(\<lambda>other. td_usr other \<noteq> td_usr d \<and> forces_mixin read_file facts d other) =
      (\<lambda>other. td_usr other \<noteq> td_usr d \<and> composes read_file facts d other)"
    using forces_mixin_iff [OF _ assms] by blast
  then show ?thesis by (simp add: mixin_forced_on_def find_map_if)
qed

section \<open>References by non-const\<close>

text \<open>Two occurrences of a text that has its last byte only at its end do not overlap.\<close>

lemma occurrences_apart:
  assumes "prefix (p @ [c]) (drop i s)" and "prefix (p @ [c]) (drop j s)" and "i < j" and "c \<notin> set p"
  shows "i + length (p @ [c]) \<le> j"
proof (rule ccontr)
  assume "\<not> i + length (p @ [c]) \<le> j"
  define k where "k = i + length p - j"
  have k: "k < length p" "j + k = i + length p"
    using \<open>\<not> i + length (p @ [c]) \<le> j\<close> \<open>i < j\<close> by (auto simp: k_def)
  have nth: "s ! (m + l) = (p @ [c]) ! l" if "prefix (p @ [c]) (drop m s)" "l \<le> length p" for m l
  proof -
    have "m \<le> length s" using that(1) by (auto simp: prefix_def not_less_eq_eq elim: contrapos_pp)
    then have "s ! (m + l) = drop m s ! l" by simp
    also have "\<dots> = (p @ [c]) ! l" using that by (auto simp: prefix_def nth_append)
    finally show ?thesis .
  qed
  have "c = s ! (i + length p)" using nth [OF assms(1), of "length p"] by simp
  also have "\<dots> = p ! k" using nth [OF assms(2), of k] k by (simp add: nth_append)
  finally show False using k(1) assms(4) by (metis nth_mem)
qed

lemma non_const_reference_from_iff:
  assumes "needle = p @ [c]" and "c \<notin> set p" and "search_from \<le> length signature"
  shows "non_const_reference_from signature needle search_from \<longleftrightarrow>
    (\<exists>i \<ge> search_from. prefix needle (drop i signature) \<and>
      \<not> suffix ''const'' (str_trim_end (take i signature)))"
  using assms
proof (induction signature needle search_from rule: non_const_reference_from.induct)
  case (1 signature needle search_from)
  note unf = non_const_reference_from.simps [of signature needle search_from]
  have start: "needle \<noteq> []" "\<not> length signature < search_from" using "1.prems" by auto
  show ?case
  proof (cases "str_find (drop search_from signature) needle")
    case None
    have "\<not> prefix needle (drop i signature)" if "search_from \<le> i" for i
    proof
      assume "prefix needle (drop i signature)"
      then have "sublist needle (drop (i - search_from) (drop search_from signature))"
        using that by (simp add: prefix_imp_sublist)
      then have "sublist needle (drop search_from signature)"
        by (metis sublist_drop sublist_order.order_trans)
      with None show False by (simp add: str_find_None_iff)
    qed
    with None start show ?thesis by (auto simp: unf)
  next
    case (Some rel)
    let ?index = "search_from + rel"
    from str_find_SomeD [OF Some] have at: "prefix needle (drop ?index signature)"
      and len: "?index + length needle \<le> length signature"
      using start by (auto simp: add.commute)
    have least: "?index \<le> i" if "search_from \<le> i" "prefix needle (drop i signature)" for i
      using str_find_least [OF Some, of "i - search_from"] that by (force simp: not_less)
    show ?thesis
    proof (cases "suffix ''const'' (str_trim_end (take ?index signature))")
      case False
      with at start show ?thesis by (auto simp: unf Some intro: le_add1)
    next
      case True
      have IH: "non_const_reference_from signature needle (?index + length needle) \<longleftrightarrow>
        (\<exists>i \<ge> ?index + length needle. prefix needle (drop i signature) \<and>
          \<not> suffix ''const'' (str_trim_end (take i signature)))"
        using "1.IH" [OF _ Some refl] start True "1.prems" len by simp
      have "?index + length needle \<le> i"
        if "search_from \<le> i" "prefix needle (drop i signature)"
          "\<not> suffix ''const'' (str_trim_end (take i signature))" for i
      proof -
        from that True have "?index < i" using least [of i] by (cases "i = ?index") auto
        with occurrences_apart [of p c ?index signature i] at that(2) "1.prems"
        show ?thesis by simp
      qed
      then have "(\<exists>i \<ge> search_from. prefix needle (drop i signature) \<and>
          \<not> suffix ''const'' (str_trim_end (take i signature))) \<longleftrightarrow>
        (\<exists>i \<ge> ?index + length needle. prefix needle (drop i signature) \<and>
          \<not> suffix ''const'' (str_trim_end (take i signature)))"
        by (metis add_leD1)
      then show ?thesis using start True IH by (simp add: unf Some)
    qed
  qed
qed

section \<open>Properties\<close>

text \<open>
  \<open>feasible_options\<close> offers exactly one option, and withdraws the default one exactly for a type
  that is the type of some variable and at the same time one of several bases of another record
  type: found by searching the other types' texts for the words \<^verbatim>\<open>vira mixin\<close>, which no other text
  about a type carries. No function has the USR of a type.
\<close>

theorem feasible_options_decides:
  assumes "\<forall>f \<in> set (pf_functions facts). fd_usr f \<noteq> td_usr d"
  shows "feasible_options read_file d facts decisions =
      (case List.find (\<lambda>other. td_usr other \<noteq> td_usr d \<and> composes read_file facts d other)
              (pf_declarations facts) of
         Some other \<Rightarrow>
           if \<exists>u \<in> set (pf_usages facts). tu_type_usr u = td_usr d \<and> tu_kind u = TuVariableDeclaration
           then [infeasible_mixin_option d (td_usr other, td_name other)]
           else options_for read_file d facts decisions
       | None \<Rightarrow> options_for read_file d facts decisions) \<and>
    length (feasible_options read_file d facts decisions) = 1"
  using options_for_single [of read_file d facts decisions] assms
  by (auto simp: feasible_options_def mixin_forced_on_find is_directly_value_constructed_def list_ex_iff
      Let_def split: option.splits)

text \<open>
  \<open>contains_non_const_reference\<close> finds every place where the type's name is followed by a
  reference mark and not preceded by \<^verbatim>\<open>const\<close>, and nothing else; the search loop ends.
\<close>

theorem non_const_reference_found:
  assumes "CHR ''&'' \<notin> set type_name"
  shows "contains_non_const_reference signature type_name \<longleftrightarrow>
    (\<exists>i. prefix (type_name @ '' &'') (drop i signature) \<and>
      \<not> suffix ''const'' (str_trim_end (take i signature)))"
  using non_const_reference_from_iff [of "type_name @ '' &''" "type_name @ '' ''" "CHR ''&''" 0 signature]
    assms
  by (simp add: contains_non_const_reference_def)

theorem non_const_reference_found_witness:
  "contains_non_const_reference ''void f(const P & a, P & b)'' ''P'' \<and>
   \<not> contains_non_const_reference ''void f(const P & a)'' ''P''"
proof
  have "prefix ''P &'' (drop 20 ''void f(const P & a, P & b)'')"
    and "\<not> suffix ''const'' (str_trim_end (take 20 ''void f(const P & a, P & b)''))"
    by code_simp+
  then show "contains_non_const_reference ''void f(const P & a, P & b)'' ''P''"
    by (subst non_const_reference_found)
      (simp, simp only: append_Cons append_Nil, blast)
  show "\<not> contains_non_const_reference ''void f(const P & a)'' ''P''" by code_simp
qed

subsection \<open>Instances\<close>

definition sample_type :: "string \<Rightarrow> u32 \<Rightarrow> u32 \<Rightarrow> type_declaration" where
  "sample_type name line end_line =
    \<lparr>td_name = name, td_kind = TdStruct, td_namespace = [], td_file = ''a.h'', td_line = line,
      td_column = 1, td_end_line = end_line, td_end_column = 2, td_usr = ''c:@S@'' @ name\<rparr>"

definition sample_usage :: "type_usage_kind \<Rightarrow> string \<Rightarrow> u32 \<Rightarrow> type_usage" where
  "sample_usage kind name line =
    \<lparr>tu_type_usr = ''c:@S@'' @ name, tu_kind = kind, tu_file = ''a.h'', tu_line = line, tu_column = 1\<rparr>"

definition sample_nome :: "string \<Rightarrow> string list \<Rightarrow> function_declaration" where
  "sample_nome owner overridden =
    \<lparr>fd_name = ''nome'', fd_kind = FdMethod, fd_namespace = [],
      fd_owning_class_usr = Some (''c:@S@'' @ owner), fd_signature = ''int nome()'', fd_file = ''a.h'',
      fd_line = 2, fd_column = 1, fd_end_line = 2, fd_end_column = 9,
      fd_usr = ''c:@S@'' @ owner @ ''@F@nome'', fd_is_static = False, fd_is_virtual = True,
      fd_is_pure_virtual = False, fd_is_defaulted = False, fd_overridden_usrs = overridden,
      fd_has_definition = True\<rparr>"

text \<open>\<^verbatim>\<open>D\<close> has the bases \<^verbatim>\<open>A\<close> and \<^verbatim>\<open>B\<close>; a variable has type \<^verbatim>\<open>A\<close>; \<^verbatim>\<open>D\<close> overrides a method of both.\<close>

definition sample_facts :: project_facts where
  "sample_facts =
    new_full [sample_type ''A'' 1 3, sample_type ''B'' 4 6, sample_type ''D'' 7 9]
      [sample_usage TuInheritance ''A'' 7, sample_usage TuInheritance ''B'' 7,
       sample_usage TuVariableDeclaration ''A'' 20]
      [sample_nome ''A'' [], sample_nome ''B'' [],
       sample_nome ''D'' [''c:@S@A@F@nome'', ''c:@S@B@F@nome'']] []"

theorem feasible_options_decides_witness:
  "map mo_id (feasible_options (\<lambda>_. None) (sample_type ''A'' 1 3) sample_facts []) =
     [''ponte-mixin-inviavel'']"
proof -
  let ?other = "sample_type ''D'' 7 9" and ?d = "sample_type ''A'' 1 3"
  have "\<forall>f \<in> set (pf_functions sample_facts). fd_usr f \<noteq> td_usr ?d" by code_simp
  note rule = feasible_options_decides [OF this, THEN conjunct1, of "\<lambda>_. None" "[]"]
  have "composes (\<lambda>_. None) sample_facts ?d ?other"
    and "\<not> composes (\<lambda>_. None) sample_facts ?d (sample_type ''B'' 4 6)"
    and "td_usr ?other \<noteq> td_usr ?d"
    and "pf_declarations sample_facts = [?d, sample_type ''B'' 4 6, ?other]"
    and "\<exists>u \<in> set (pf_usages sample_facts). tu_type_usr u = td_usr ?d \<and> tu_kind u = TuVariableDeclaration"
    by code_simp+
  then show ?thesis by (simp add: rule infeasible_mixin_option_def)
qed

text \<open>
  The explanation of a conflicting override means to list the bases that declare the method, but
  looks for the USRs of the overridden methods among the USRs of the bases: the list is empty.
\<close>

lemma conflict_text_names_no_base:
  "map cq_description (drop 2 (mo_consequences (multiple_inheritance_option (sample_type ''D'' 7 9)
      sample_facts [''c:@S@A'', ''c:@S@B'']))) =
    [(''`D` precisa sobrescrever `nome` explicitamente '' @ [CHR 0xE2, CHR 0x80, CHR 0x94] @
       ''  declaram o m'' @ [CHR 0xC3, CHR 0xA9] @ ''todo de forma incompat'' @
       [CHR 0xC3, CHR 0xAD] @ ''vel, e `with` sozinho (que s'' @ [CHR 0xC3, CHR 0xB3] @
       '' usa a '' @ [CHR 0xC3, CHR 0xBA] @ ''ltima declara'' @
       [CHR 0xC3, CHR 0xA7, CHR 0xC3, CHR 0xA3] @
       ''o da lista) produziria um resultado diferente do C++ original'')]"
  by code_simp

text \<open>
  A class is taken for an interface when all its virtual methods are pure, whatever else it has: with a plain
  method beside a pure virtual one it is offered as an interface, which carries no implementation.
\<close>

lemma plain_method_beside_a_pure_one:
  "map mo_id (options_for (\<lambda>_. None) (sample_type ''S'' 1 3)
      (new_full [sample_type ''S'' 1 3] []
        [(sample_nome ''S'' [])\<lparr>fd_is_pure_virtual := True\<rparr>,
         (sample_nome ''S'' [])\<lparr>fd_name := ''plain'', fd_usr := ''c:@S@S@F@plain'', fd_is_virtual := False\<rparr>] []) []) =
    [''interface-pura'']"
  by code_simp

end
