(* ===== verification/Overload_Options.thy ===== *)
theory Overload_Options
  imports Type_Options
begin

text \<open>
  How a group of overloads, an operator, a template and a single signature map to Dart, of
  \<^verbatim>\<open>crates/server/src/mapping.rs\<close>: \<open>overload_options_for\<close>, \<open>operator_option\<close>,
  \<open>template_options_for\<close>, \<open>signature_options_for\<close>, \<open>string_usage_conflict\<close> and the text
  measures of a signature they use. The lemmas show when overloads are folded into one member, and
  that each caller of a renamed group is named once.
\<close>

section \<open>Signatures as text\<close>

definition parameter_list_text :: "string \<Rightarrow> string" where
  "parameter_list_text signature =
     (case str_find signature ''('' of
        None \<Rightarrow> []
      | Some open_at \<Rightarrow>
          (case str_rfind_char signature (CHR '')'') of
             None \<Rightarrow> []
           | Some close_at \<Rightarrow>
               if close_at \<le> open_at then []
               else str_trim (drop (open_at + 1) (take close_at signature))))"

definition count_parameters :: "string \<Rightarrow> nat" where
  "count_parameters signature =
     (let inner = parameter_list_text signature
      in if inner = [] then 0 else length (str_split_on '','' inner))"

definition signature_is_const :: "string \<Rightarrow> bool" where
  "signature_is_const signature = str_ends_with (str_trim_end signature) ''const''"

text \<open>The text before the last white space, for \<^verbatim>\<open>rfind(char::is_whitespace)\<close>.\<close>

definition before_last_whitespace :: "string \<Rightarrow> string option" where
  "before_last_whitespace s =
     (case dropWhile (\<lambda>c. \<not> char_is_whitespace c) (rev (utf8_chars s)) of
        [] \<Rightarrow> None | _ # front \<Rightarrow> Some (concat (rev front)))"

definition return_type_text :: "string \<Rightarrow> string" where
  "return_type_text signature =
     (case str_find signature ''('' of
        None \<Rightarrow> str_trim signature
      | Some open_at \<Rightarrow>
          (case before_last_whitespace (str_trim_end (take open_at signature)) of
             Some front \<Rightarrow> str_trim front | None \<Rightarrow> []))"

section \<open>Call sites of a group\<close>

definition index_functions :: "function_declaration list \<Rightarrow> (string \<times> function_declaration) list" where
  "index_functions fs = fold (\<lambda>f. hm_or_insert (fd_usr f) f) fs []"

definition call_site_consequence :: "function_declaration \<Rightarrow> consequence" where
  "call_site_consequence caller =
     \<lparr>cq_affected_type_usr = fd_usr caller,
      cq_description = (''call site em `'' @ fd_name caller @ ''` (`'' @ fd_file caller @
          ''`) precisa ser reescrito para o nome renomeado'')\<rparr>"

fun call_site_loop ::
  "string list \<Rightarrow> (string \<times> function_declaration) list \<Rightarrow> string set \<Rightarrow> call_edge list \<Rightarrow>
   consequence list" where
  "call_site_loop usrs functions seen [] = []"
| "call_site_loop usrs functions seen (edge # edges) =
     (case ce_resolution edge of
        Unresolved _ \<Rightarrow> call_site_loop usrs functions seen edges
      | Resolved callee_usr _ \<Rightarrow>
          if callee_usr \<notin> set usrs then call_site_loop usrs functions seen edges
          else (case map_of functions (ce_caller_usr edge) of
                  None \<Rightarrow> call_site_loop usrs functions seen edges
                | Some caller \<Rightarrow>
                    if fd_usr caller \<in> seen then call_site_loop usrs functions seen edges
                    else call_site_consequence caller #
                           call_site_loop usrs functions (insert (fd_usr caller) seen) edges))"

definition call_site_consequences :: "string list \<Rightarrow> project_facts \<Rightarrow> consequence list" where
  "call_site_consequences usrs facts =
     call_site_loop usrs (index_functions (pf_functions facts)) {} (pf_calls facts)"

section \<open>Operators\<close>

definition DART_OPERATOR_SYMBOLS :: "string list" where
  "DART_OPERATOR_SYMBOLS =
     [''+'', ''-'', ''*'', ''/'', ''=='', ''[]'', ''[]='', ''unary-'', ''<'', ''<='', ''>'', ''>='']"

definition operator_consequence :: "string \<Rightarrow> string list \<Rightarrow> consequence" where
  "operator_consequence symbol usrs =
     \<lparr>cq_affected_type_usr = (case usrs of [] \<Rightarrow> [] | u # _ \<Rightarrow> u),
      cq_description = (''`'' @ symbol @ ''` n'' @ [CHR 0xC3, CHR 0xA3] @ ''o est'' @ [CHR 0xC3, CHR 0xA1] @
          '' no subconjunto de operadores sobrecarreg'' @ [CHR 0xC3, CHR 0xA1] @
          ''veis de Dart (ou tem mais de uma sobrecarga) '' @ [CHR 0xE2, CHR 0x80, CHR 0x94] @
          '' precisa de um m'' @ [CHR 0xC3, CHR 0xA9] @ ''todo nomeado, n'' @
          [CHR 0xC3, CHR 0xA3] @ ''o de um operador'')\<rparr>"

definition operator_option ::
  "string \<Rightarrow> string \<Rightarrow> nat \<Rightarrow> string list \<Rightarrow> project_facts \<Rightarrow> mapping_option" where
  "operator_option name symbol overload_count usrs facts =
     (if overload_count = 1 \<and> symbol \<in> set DART_OPERATOR_SYMBOLS then
        \<lparr>mo_id = ''operador-direto'',
          mo_label = (''Operador Dart `'' @ symbol @ ''`''),
          mo_description =
            (''`'' @ name @ ''` '' @ [CHR 0xC3, CHR 0xA9] @ '' um operador bin'' @
            [CHR 0xC3, CHR 0xA1] @ ''rio sem estado externo envolvido, e `'' @ symbol @
            ''` est'' @ [CHR 0xC3, CHR 0xA1] @ '' no subconjunto de operadores que Dart tamb'' @
            [CHR 0xC3, CHR 0xA9] @ ''m sobrecarrega: mapeamento direto.''),
          mo_consequences = []\<rparr>
      else
        \<lparr>mo_id = ''operador-sem-equivalente-direto'',
          mo_label = (''C'' @ [CHR 0xC3, CHR 0xB3] @ ''digo ponte: m'' @ [CHR 0xC3, CHR 0xA9] @
        ''todo nomeado''),
          mo_description =
            (''`'' @ name @ ''` n'' @ [CHR 0xC3, CHR 0xA3] @
            ''o mapeia direto para um operador Dart '' @ [CHR 0xE2, CHR 0x80, CHR 0x94] @
            '' c'' @ [CHR 0xC3, CHR 0xB3] @ ''digo ponte necess'' @ [CHR 0xC3, CHR 0xA1] @
            ''rio: um m'' @ [CHR 0xC3, CHR 0xA9] @ ''todo nomeado no lugar do operador.''),
          mo_consequences = call_site_consequences usrs facts @ [operator_consequence symbol usrs]\<rparr>)"

section \<open>Overloads\<close>

definition own_name_consequence :: "string \<Rightarrow> function_declaration \<Rightarrow> consequence" where
  "own_name_consequence name f =
     \<lparr>cq_affected_type_usr = fd_usr f,
      cq_description = (''precisa de um nome pr'' @ [CHR 0xC3, CHR 0xB3] @ ''prio, distinto de `'' @ name @
          ''`: `'' @ fd_signature f @ ''`'')\<rparr>"

definition static_consequence :: "string \<Rightarrow> function_declaration \<Rightarrow> consequence" where
  "static_consequence name f =
     \<lparr>cq_affected_type_usr = fd_usr f,
      cq_description =
        (''precisa de um nome pr'' @ [CHR 0xC3, CHR 0xB3] @ ''prio, distinto de `'' @ name @
          ''`: `'' @ fd_signature f @ ''` ('' @
          (if fd_is_static f then (''est'' @ [CHR 0xC3, CHR 0xA1] @ ''tico'') else (''inst'' @ [CHR 0xC3, CHR 0xA2] @ ''ncia'')) @
          '')'')\<rparr>"

definition optional_consequence :: "string \<Rightarrow> function_declaration \<Rightarrow> consequence" where
  "optional_consequence name f =
     \<lparr>cq_affected_type_usr = fd_usr f,
      cq_description = (''mapeia para `'' @ name @ ''` com par'' @ [CHR 0xC3, CHR 0xA2] @
          ''metro(s) opcional(is): `'' @ fd_signature f @ ''`'')\<rparr>"

definition overload_group ::
  "string option \<Rightarrow> string \<Rightarrow> project_facts \<Rightarrow> function_declaration list" where
  "overload_group owning_class_usr name facts =
     filter (\<lambda>f. fd_owning_class_usr f = owning_class_usr \<and> fd_name f = name) (pf_functions facts)"

definition single_signature_option :: "string \<Rightarrow> mapping_option" where
  "single_signature_option name =
     \<lparr>mo_id = ''assinatura-unica'',
       mo_label = (''`'' @ name @ ''` sem sobrecarga''),
       mo_description =
         (''`'' @ name @ ''` n'' @ [CHR 0xC3, CHR 0xA3] @
         ''o tem sobrecarga: mapeia direto, sem renomear.''),
       mo_consequences = []\<rparr>"

definition static_instance_option ::
  "string \<Rightarrow> function_declaration list \<Rightarrow> project_facts \<Rightarrow> mapping_option" where
  "static_instance_option name members facts =
     \<lparr>mo_id = ''renomear-estatico-instancia'',
       mo_label = (''Renomear (est'' @ [CHR 0xC3, CHR 0xA1] @ ''tico vs. inst'' @ [CHR 0xC3, CHR 0xA2] @
        ''ncia)''),
       mo_description =
         (''`'' @ name @ ''` tem uma vers'' @ [CHR 0xC3, CHR 0xA3] @ ''o est'' @
         [CHR 0xC3, CHR 0xA1] @ ''tica e uma de inst'' @ [CHR 0xC3, CHR 0xA2] @ ''ncia '' @
         [CHR 0xE2, CHR 0x80, CHR 0x94] @ '' Dart pro'' @ [CHR 0xC3, CHR 0xAD] @
         ''be um membro est'' @ [CHR 0xC3, CHR 0xA1] @ ''tico e um de inst'' @
         [CHR 0xC3, CHR 0xA2] @ ''ncia com o mesmo nome na mesma classe, ent'' @
         [CHR 0xC3, CHR 0xA3] @ ''o a vers'' @ [CHR 0xC3, CHR 0xA3] @ ''o est'' @
         [CHR 0xC3, CHR 0xA1] @ ''tica precisa de um nome distinto.''),
       mo_consequences = call_site_consequences (map fd_usr members) facts @ map (static_consequence name) members\<rparr>"

definition const_pair_option ::
  "string \<Rightarrow> function_declaration list \<Rightarrow> project_facts \<Rightarrow> mapping_option" where
  "const_pair_option name members facts =
     \<lparr>mo_id = ''renomear-const-nao-const'',
       mo_label = (''Renomear (const vs. n'' @ [CHR 0xC3, CHR 0xA3] @ ''o-const)''),
       mo_description =
         (''`'' @ name @ ''` tem uma vers'' @ [CHR 0xC3, CHR 0xA3] @ ''o `const` e uma n'' @
         [CHR 0xC3, CHR 0xA3] @ ''o-`const` com o mesmo efeito aparente, mas sem'' @
         [CHR 0xC3, CHR 0xA2] @ ''nticas diferentes '' @ [CHR 0xE2, CHR 0x80, CHR 0x94] @
         '' Dart n'' @ [CHR 0xC3, CHR 0xA3] @ ''o despacha por const-ness do receptor, ent'' @
         [CHR 0xC3, CHR 0xA3] @ ''o as duas precisam de nomes distintos.''),
       mo_consequences = map (own_name_consequence name) members @ call_site_consequences (map fd_usr members) facts\<rparr>"

definition optional_parameter_option ::
  "string \<Rightarrow> function_declaration list \<Rightarrow> project_facts \<Rightarrow> mapping_option" where
  "optional_parameter_option name members facts =
     \<lparr>mo_id = ''parametro-opcional'',
       mo_label = (''Par'' @ [CHR 0xC3, CHR 0xA2] @ ''metro opcional''),
       mo_description =
         (''As sobrecargas de `'' @ name @ ''` diferem em n'' @ [CHR 0xC3, CHR 0xBA] @
         ''mero de par'' @ [CHR 0xC3, CHR 0xA2] @ ''metros: mapeiam direto para um '' @
         [CHR 0xC3, CHR 0xBA] @ ''nico `'' @ name @ ''` com par'' @ [CHR 0xC3, CHR 0xA2] @
         ''metro(s) opcional(is) em Dart, sem precisar renomear.''),
       mo_consequences = call_site_consequences (map fd_usr members) facts @ map (optional_consequence name) members\<rparr>"

definition rename_by_type_option ::
  "string \<Rightarrow> function_declaration list \<Rightarrow> project_facts \<Rightarrow> bool \<Rightarrow> mapping_option" where
  "rename_by_type_option name members facts several_arities =
     \<lparr>mo_id = ''renomear-por-tipo'',
       mo_label = ''Renomear por tipo'',
       mo_description =
         (''As sobrecargas de `'' @ name @ ''` n'' @ [CHR 0xC3, CHR 0xA3] @
         ''o podem compartilhar um '' @ [CHR 0xC3, CHR 0xBA] @ ''nico membro Dart '' @
         [CHR 0xE2, CHR 0x80, CHR 0x94] @ '' '' @
         (if several_arities then (''diferem em n'' @ [CHR 0xC3, CHR 0xBA] @ ''mero de par'' @ [CHR 0xC3, CHR 0xA2] @
              ''metros *e* no tipo de retorno, ent'' @ [CHR 0xC3, CHR 0xA3] @ ''o nem um par'' @
              [CHR 0xC3, CHR 0xA2] @ ''metro opcional resolveria'') else (''t'' @ [CHR 0xC3, CHR 0xAA] @ ''m a mesma aridade mas tipos de par'' @
              [CHR 0xC3, CHR 0xA2] @ ''metro diferentes'')) @
         '' '' @ [CHR 0xE2, CHR 0x80, CHR 0x94] @ '' Dart n'' @ [CHR 0xC3, CHR 0xA3] @
         ''o despacha por tipo est'' @ [CHR 0xC3, CHR 0xA1] @ ''tico, ent'' @
         [CHR 0xC3, CHR 0xA3] @ ''o cada uma precisa de um nome distinto.''),
       mo_consequences = call_site_consequences (map fd_usr members) facts @ map (own_name_consequence name) members\<rparr>"

text \<open>The clean pair of a \<^verbatim>\<open>const\<close> and a non-\<^verbatim>\<open>const\<close> method with one parameter list.\<close>

definition is_const_pair :: "function_declaration list \<Rightarrow> bool" where
  "is_const_pair members =
     (case members of
        [a, b] \<Rightarrow>
          parameter_list_text (fd_signature a) = parameter_list_text (fd_signature b) \<and>
          signature_is_const (fd_signature a) \<noteq> signature_is_const (fd_signature b)
      | _ \<Rightarrow> False)"

definition overload_options_for ::
  "string option \<Rightarrow> string \<Rightarrow> project_facts \<Rightarrow> mapping_option list" where
  "overload_options_for owning_class_usr name facts =
     (let members = overload_group owning_class_usr name facts;
          symbol = strip_prefix name ''operator'';
          arities = remdups (map (\<lambda>f. count_parameters (fd_signature f)) members);
          returns_agree = (length (remdups (map (\<lambda>f. return_type_text (fd_signature f)) members)) = 1)
      in
      if symbol \<noteq> None \<and> symbol \<noteq> Some [] then
        [operator_option name (the symbol) (length members) (map fd_usr members) facts]
      else if length members \<le> 1 then [single_signature_option name]
      else if list_ex fd_is_static members \<and> list_ex (\<lambda>f. \<not> fd_is_static f) members then
        [static_instance_option name members facts]
      else if is_const_pair members then [const_pair_option name members facts]
      else if 1 < length arities \<and> length arities = length members \<and> returns_agree then
        [optional_parameter_option name members facts]
      else [rename_by_type_option name members facts (1 < length arities)])"

section \<open>Templates\<close>

definition caller_files :: "function_declaration \<Rightarrow> project_facts \<Rightarrow> string list" where
  "caller_files f facts =
     remdups (filter_map (\<lambda>edge.
       case ce_resolution edge of
         Resolved callee_usr _ \<Rightarrow>
           (if callee_usr = fd_usr f
            then map_option fd_file
              (List.find (\<lambda>g. fd_usr g = ce_caller_usr edge) (pf_functions facts))
            else None)
       | Unresolved _ \<Rightarrow> None) (pf_calls facts))"

definition template_options_for :: "function_declaration \<Rightarrow> project_facts \<Rightarrow> mapping_option list" where
  "template_options_for f facts =
     (let files = caller_files f facts in
      if length files \<le> 1 then
        [\<lparr>mo_id = ''monomorfizacao-local'',
           mo_label = (''Monomorfiza'' @ [CHR 0xC3, CHR 0xA7, CHR 0xC3, CHR 0xA3] @ ''o local''),
           mo_description =
             (''`'' @ fd_name f @ ''` s'' @ [CHR 0xC3, CHR 0xB3] @ '' tem instancia'' @
             [CHR 0xC3, CHR 0xA7, CHR 0xC3, CHR 0xB5] @ ''es vis'' @ [CHR 0xC3, CHR 0xAD] @
             ''veis em um arquivo ('' @ show_nat (length files) @ '' local(is)): d'' @
             [CHR 0xC3, CHR 0xA1] @ '' para decidir localmente entre gen'' @
             [CHR 0xC3, CHR 0xA9] @ ''ricos de Dart e monomorfiza'' @
             [CHR 0xC3, CHR 0xA7, CHR 0xC3, CHR 0xA3] @ ''o, sem varrer o resto do projeto.''),
           mo_consequences = []\<rparr>]
      else
        [\<lparr>mo_id = ''genericos-ou-monomorfizacao-decisao-global'',
           mo_label = (''Decis'' @ [CHR 0xC3, CHR 0xA3] @ ''o global: gen'' @ [CHR 0xC3, CHR 0xA9] @
        ''ricos ou monomorfiza'' @ [CHR 0xC3, CHR 0xA7, CHR 0xC3, CHR 0xA3] @ ''o''),
           mo_description =
             (''`'' @ fd_name f @ ''` tem instancia'' @
             [CHR 0xC3, CHR 0xA7, CHR 0xC3, CHR 0xB5] @ ''es em '' @ show_nat (length files) @
             '' arquivos diferentes nesta extra'' @ [CHR 0xC3, CHR 0xA7, CHR 0xC3, CHR 0xA3] @
             ''o '' @ [CHR 0xE2, CHR 0x80, CHR 0x94] @ '' uma decis'' @ [CHR 0xC3, CHR 0xA3] @
             ''o real entre gen'' @ [CHR 0xC3, CHR 0xA9] @ ''ricos de Dart e monomorfiza'' @
             [CHR 0xC3, CHR 0xA7, CHR 0xC3, CHR 0xA3] @ ''o por inst'' @ [CHR 0xC3, CHR 0xA2] @
             ''ncia precisa varrer TODO o projeto por sites de instancia'' @
             [CHR 0xC3, CHR 0xA7, CHR 0xC3, CHR 0xA3] @ ''o, n'' @ [CHR 0xC3, CHR 0xA3] @
             ''o s'' @ [CHR 0xC3, CHR 0xB3] @ '' os vis'' @ [CHR 0xC3, CHR 0xAD] @
             ''veis aqui.''),
           mo_consequences = []\<rparr>])"

section \<open>Single signatures\<close>

definition FIXED_WIDTH_INT_NAMES :: "string list" where
  "FIXED_WIDTH_INT_NAMES =
     [''int8_t'', ''uint8_t'', ''int16_t'', ''uint16_t'', ''int32_t'', ''uint32_t'', ''int64_t'',
      ''uint64_t'', ''unsigned char'', ''unsigned int'', ''unsigned long'', ''unsigned short'']"

text \<open>The split that leaves words of letters, digits and underscores.\<close>

definition word_separator :: "unicode \<Rightarrow> string \<Rightarrow> bool" where
  "word_separator U c \<longleftrightarrow> \<not> char_is_alphanumeric U c \<and> c \<noteq> ''_''"

definition contains_word :: "unicode \<Rightarrow> string \<Rightarrow> string \<Rightarrow> bool" where
  "contains_word U text word = (word \<in> set (str_split (word_separator U) text))"

definition read_span :: "file_reader \<Rightarrow> string \<Rightarrow> u32 \<Rightarrow> u32 \<Rightarrow> string" where
  "read_span read_file file start_line end_line =
     (case read_file file of
        None \<Rightarrow> []
      | Some contents \<Rightarrow>
          str_join [CHR 0x0A] (map snd (filter
            (\<lambda>(index, _). let line_number = word_of_nat index + 1
              in start_line \<le> line_number \<and> line_number \<le> end_line)
            (enumerate 0 (str_lines contents)))))"

definition body_of :: "file_reader \<Rightarrow> function_declaration \<Rightarrow> string" where
  "body_of read_file f = read_span read_file (fd_file f) (fd_line f) (fd_end_line f)"

definition signature_reasons :: "unicode \<Rightarrow> file_reader \<Rightarrow> function_declaration \<Rightarrow> string list" where
  "signature_reasons U read_file f =
     (let body = body_of read_file f;
          fixed_width = List.find (\<lambda>name. if CHR '' '' \<in> set name
            then str_contains (fd_signature f) name
            else contains_word U (fd_signature f) name) FIXED_WIDTH_INT_NAMES
      in
      (if str_contains (fd_signature f) ''*'' \<and> \<not> str_contains (fd_signature f) ''operator*''
       then [(''ponteiro/aritm'' @ [CHR 0xC3, CHR 0xA9] @
             ''tica de ponteiro na assinatura: sem equivalente em Dart, precisa de '' @
             ''`dart:ffi` (`Pointer<T>`)'')] else []) @
      (case fixed_width of None \<Rightarrow> [] | Some name \<Rightarrow>
         [(''usa `'' @ name @ ''`: precisa de mascaramento expl'' @ [CHR 0xC3, CHR 0xAD] @
           ''cito na emiss'' @ [CHR 0xC3, CHR 0xA3] @ ''o (o `int` de Dart n'' @
           [CHR 0xC3, CHR 0xA3] @ ''o estoura no mesmo ponto), n'' @ [CHR 0xC3, CHR 0xA3] @
           ''o s'' @ [CHR 0xC3, CHR 0xB3] @ '' troca de tipo'')]) @
      (if contains_word U (fd_signature f) ''float''
       then [(''usa `float` (32 bits): Dart s'' @ [CHR 0xC3, CHR 0xB3] @
             '' tem `double` (64 bits) '' @ [CHR 0xE2, CHR 0x80, CHR 0x94] @
             '' mapear direto muda o arredondamento observ'' @ [CHR 0xC3, CHR 0xA1] @ ''vel'')] else []) @
      (if str_contains body ''setjmp'' \<or> str_contains body ''longjmp''
       then [(''usa `setjmp`/`longjmp`: desvio de controle n'' @ [CHR 0xC3, CHR 0xA3] @
             ''o local, sem equivalente em Dart '' @ [CHR 0xE2, CHR 0x80, CHR 0x94] @
             '' reescrever como m'' @ [CHR 0xC3, CHR 0xA1] @
             ''quina de estados ou recusar a convers'' @ [CHR 0xC3, CHR 0xA3] @
             ''o explicitamente'')] else []) @
      (if contains_word U body ''goto''
       then [(''usa `goto`: sem equivalente em Dart para sa'' @ [CHR 0xC3, CHR 0xAD] @
             ''da antecipada de fun'' @ [CHR 0xC3, CHR 0xA7, CHR 0xC3, CHR 0xA3] @ ''o '' @
             [CHR 0xE2, CHR 0x80, CHR 0x94] @ '' reescrever como `try`/`finally`'')] else []) @
      (if str_contains body ''std::thread'' \<or> str_contains body ''std::mutex''
       then [(''usa `std::thread`/`std::mutex`: isolates de Dart n'' @ [CHR 0xC3, CHR 0xA3] @
             ''o compartilham mem'' @ [CHR 0xC3, CHR 0xB3] @ ''ria '' @
             [CHR 0xE2, CHR 0x80, CHR 0x94] @
             '' reescrever em torno de troca de mensagens entre isolates'')] else []))"

definition signature_options_for ::
  "unicode \<Rightarrow> file_reader \<Rightarrow> function_declaration \<Rightarrow> mapping_option list" where
  "signature_options_for U read_file f =
     (let reasons = signature_reasons U read_file f in
      if reasons = [] then
        [\<lparr>mo_id = ''assinatura-direta'',
           mo_label = ''Assinatura direta'',
           mo_description =
             (''`'' @ fd_name f @ ''` mapeia direto: nenhuma constru'' @
             [CHR 0xC3, CHR 0xA7, CHR 0xC3, CHR 0xA3] @ ''o sem equivalente detectada.''),
           mo_consequences = []\<rparr>]
      else
        [\<lparr>mo_id = ''codigo-ponte'',
           mo_label = (''C'' @ [CHR 0xC3, CHR 0xB3] @ ''digo ponte''),
           mo_description =
             (''`'' @ fd_name f @ ''` precisa de c'' @ [CHR 0xC3, CHR 0xB3] @ ''digo ponte: '' @
             str_join ''; '' reasons @ ''.''),
           mo_consequences = []\<rparr>])"

section \<open>Strings as text and as bytes\<close>

definition looks_binary :: "string \<Rightarrow> bool" where
  "looks_binary body \<longleftrightarrow>
     str_contains body ''.data()'' \<or> str_contains body ''memcpy'' \<or> str_contains body ''fwrite''"

definition string_usage_conflict :: "file_reader \<Rightarrow> project_facts \<Rightarrow> mapping_option option" where
  "string_usage_conflict read_file facts =
     (let evidence = fold (\<lambda>f (text, binary).
            if \<not> str_contains (fd_signature f) ''std::string'' then (text, binary)
            else if looks_binary (body_of read_file f)
            then (text, case binary of None \<Rightarrow> Some f | Some g \<Rightarrow> Some g)
            else (case text of None \<Rightarrow> Some f | Some g \<Rightarrow> Some g, binary))
          (pf_functions facts) (None, None)
      in case evidence of
           (Some text_fn, Some binary_fn) \<Rightarrow>
             Some \<lparr>mo_id = ''decisao-de-produto-string-vs-bytes'',
                   mo_label = (''Decis'' @ [CHR 0xC3, CHR 0xA3] @ ''o de produto: String vs. Uint8List''),
                   mo_description =
                     (''`std::string` '' @ [CHR 0xC3, CHR 0xA9] @
                     '' usado como texto em pelo menos um lugar do projeto e como buffer bin'' @
                     [CHR 0xC3, CHR 0xA1] @ ''rio opaco em outro '' @
                     [CHR 0xE2, CHR 0x80, CHR 0x94] @ '' a decis'' @ [CHR 0xC3, CHR 0xA3] @
                     ''o `String` vs. `Uint8List` n'' @ [CHR 0xC3, CHR 0xA3] @ ''o '' @
                     [CHR 0xC3, CHR 0xA9] @ '' por tipo declarado, '' @ [CHR 0xC3, CHR 0xA9] @
                     '' por uso, e os usos vivem em fun'' @
                     [CHR 0xC3, CHR 0xA7, CHR 0xC3, CHR 0xB5] @ ''es diferentes.''),
                   mo_consequences = [\<lparr>cq_affected_type_usr = fd_usr text_fn,
                     cq_description =
                       (''usa `std::string` como texto: `'' @ fd_signature text_fn @ ''` (`'' @
                        fd_file text_fn @ ''`)'')\<rparr>,
                    \<lparr>cq_affected_type_usr = fd_usr binary_fn,
                     cq_description =
                       (''usa `std::string` como buffer bin'' @ [CHR 0xC3, CHR 0xA1] @
                        ''rio opaco: `'' @ fd_signature binary_fn @ ''` (`'' @
                        fd_file binary_fn @ ''`)'')\<rparr>]\<rparr>
         | _ \<Rightarrow> None)"

section \<open>Callers of a group\<close>

lemma index_functions_lookup: "map_of (index_functions fs) u = List.find (\<lambda>f. fd_usr f = u) fs"
proof -
  have "map_of (fold (\<lambda>f. hm_or_insert (fd_usr f) f) fs m) u =
      (case map_of m u of None \<Rightarrow> List.find (\<lambda>f. fd_usr f = u) fs | Some f \<Rightarrow> Some f)" for m
    by (induction fs arbitrary: m) (auto simp: map_of_hm_or_insert split: option.splits)
  from this [of "[]"] show ?thesis by (simp add: index_functions_def)
qed

lemma index_functions_usr: "map_of (index_functions fs) u = Some f \<Longrightarrow> fd_usr f = u"
  by (auto simp: index_functions_lookup dest: find_Some_in_set)

lemma index_functions_dom: "(\<exists>f. map_of (index_functions fs) u = Some f) \<longleftrightarrow> u \<in> fd_usr ` set fs"
proof -
  have "List.find (\<lambda>f. fd_usr f = u) fs = None \<longleftrightarrow> u \<notin> fd_usr ` set fs"
    by (auto simp: find_None_iff)
  then show ?thesis
    by (cases "List.find (\<lambda>f. fd_usr f = u) fs") (simp_all add: index_functions_lookup)
qed

definition calls_one_of :: "string list \<Rightarrow> call_edge \<Rightarrow> bool" where
  "calls_one_of usrs edge = (case ce_resolution edge of Resolved u _ \<Rightarrow> u \<in> set usrs | Unresolved _ \<Rightarrow> False)"

lemma call_site_loop_step:
  "call_site_loop usrs functions seen (edge # edges) =
    (case (if calls_one_of usrs edge then map_of functions (ce_caller_usr edge) else None) of
       None \<Rightarrow> call_site_loop usrs functions seen edges
     | Some caller \<Rightarrow>
         if fd_usr caller \<in> seen then call_site_loop usrs functions seen edges
         else call_site_consequence caller #
                call_site_loop usrs functions (insert (fd_usr caller) seen) edges)"
  by (simp add: calls_one_of_def split: call_resolution.split)

lemma call_site_loop_affected:
  assumes usr: "\<And>u f. map_of functions u = Some f \<Longrightarrow> fd_usr f = u"
  shows "distinct (map cq_affected_type_usr (call_site_loop usrs functions seen edges)) \<and>
    set (map cq_affected_type_usr (call_site_loop usrs functions seen edges)) =
      {ce_caller_usr e | e. e \<in> set edges \<and> calls_one_of usrs e \<and> (\<exists>f. map_of functions (ce_caller_usr e) = Some f)}
      - seen"
proof (induction edges arbitrary: seen)
  case (Cons edge edges)
  show ?case
  proof (cases "if calls_one_of usrs edge then map_of functions (ce_caller_usr edge) else None")
    case None
    then have "call_site_loop usrs functions seen (edge # edges) = call_site_loop usrs functions seen edges"
      unfolding call_site_loop_step by simp
    with None Cons [of seen] show ?thesis by (auto split: if_splits)
  next
    case (Some f)
    then have "calls_one_of usrs edge" "map_of functions (ce_caller_usr edge) = Some f"
      "fd_usr f = ce_caller_usr edge"
      by (auto dest: usr split: if_splits)
    then show ?thesis
      unfolding call_site_loop_step Some option.case
      using Cons [of seen] Cons [of "insert (fd_usr f) seen"]
      by (auto simp: call_site_consequence_def)
  qed
qed simp

section \<open>When overloads fold\<close>

lemma length_remdups_1: "length (remdups xs) = 1 \<longleftrightarrow> xs \<noteq> [] \<and> (\<forall>x \<in> set xs. \<forall>y \<in> set xs. x = y)"
proof -
  have "(\<exists>x. A = {x}) \<longleftrightarrow> A \<noteq> {} \<and> (\<forall>x \<in> A. \<forall>y \<in> A. x = y)" for A :: "'a set"
    by blast
  from this [of "set xs"] show ?thesis
    by (simp add: length_remdups_card_conv card_1_singleton_iff)
qed

lemma if_chain_single:
  assumes "i A \<noteq> x" "i B \<noteq> x" "i C \<noteq> x" "i D \<noteq> x" "i E = x" "i F \<noteq> x"
    and "R \<longleftrightarrow> \<not> p \<and> \<not> q \<and> \<not> r \<and> \<not> s \<and> t"
  shows "\<exists>y. (if p then [A] else if q then [B] else if r then [C] else if s then [D]
      else if t then [E] else [F]) = [y] \<and> (i y = x \<longleftrightarrow> R)"
  using assms by auto

lemma fold_chain:
  assumes "P \<longleftrightarrow> \<not> p" "two \<longleftrightarrow> \<not> few" "two \<Longrightarrow> ne" "A \<longleftrightarrow> D" "C \<longleftrightarrow> ne \<and> R" "\<not> M \<longleftrightarrow> S"
    and "cp \<Longrightarrow> \<not> D" "A \<Longrightarrow> two \<Longrightarrow> several"
  shows "(P \<and> two \<and> D \<and> R \<and> S) \<longleftrightarrow> \<not> p \<and> \<not> few \<and> \<not> M \<and> \<not> cp \<and> (several \<and> A \<and> C)"
  using assms by blast

lemma const_pair_not_distinct:
  "is_const_pair ms \<Longrightarrow> \<not> distinct (map (\<lambda>f. count_parameters (fd_signature f)) ms)"
  by (auto simp: is_const_pair_def count_parameters_def split: list.splits)

lemmas overload_option_ids = operator_option_def single_signature_option_def static_instance_option_def
  const_pair_option_def optional_parameter_option_def rename_by_type_option_def

section \<open>Properties\<close>

text \<open>
  \<open>call_site_consequences\<close> names each caller of the group exactly once: every declared function
  with a resolved call to one of the USRs, and no other.
\<close>

theorem callers_named_once:
  "distinct (map cq_affected_type_usr (call_site_consequences usrs facts)) \<and>
    set (map cq_affected_type_usr (call_site_consequences usrs facts)) =
      {ce_caller_usr e | e. e \<in> set (pf_calls facts) \<and> calls_one_of usrs e \<and>
        ce_caller_usr e \<in> fd_usr ` set (pf_functions facts)}"
  using call_site_loop_affected [of "index_functions (pf_functions facts)" usrs "{}" "pf_calls facts",
      OF index_functions_usr]
  by (simp add: call_site_consequences_def index_functions_dom)

text \<open>
  \<open>overload_options_for\<close> offers one option, and folds a group into one member with optional parameters
  exactly when there are at least two overloads, the texts of no two of them have the same count of
  parameters, the texts of all have the same return type and all or none are static (operators are never
  folded). These are the code's tests; the count is one of commas, and that the shorter list is a prefix of
  the longer one is not tested.
\<close>

theorem overloads_folded_when_sound:
  "(\<exists>option. overload_options_for owner name facts = [option] \<and>
      (mo_id option = ''parametro-opcional'' \<longleftrightarrow>
       strip_prefix name ''operator'' \<in> {None, Some []} \<and>
       (let members = overload_group owner name facts in
        2 \<le> length members \<and>
        distinct (map (\<lambda>f. count_parameters (fd_signature f)) members) \<and>
        (\<forall>f \<in> set members. \<forall>g \<in> set members.
           return_type_text (fd_signature f) = return_type_text (fd_signature g) \<and>
           fd_is_static f = fd_is_static g))))"
proof -
  let ?ms = "overload_group owner name facts"
  have ids: "mo_id (operator_option n s k us facts) \<noteq> ''parametro-opcional''"
    "mo_id (single_signature_option n) \<noteq> ''parametro-opcional''"
    "mo_id (static_instance_option n ms facts) \<noteq> ''parametro-opcional''"
    "mo_id (const_pair_option n ms facts) \<noteq> ''parametro-opcional''"
    "mo_id (rename_by_type_option n ms facts b) \<noteq> ''parametro-opcional''"
    "mo_id (optional_parameter_option n ms facts) = ''parametro-opcional''" for n s k us ms b
    by (simp_all add: overload_option_ids)
  have statics: "\<not> (list_ex fd_is_static ?ms \<and> list_ex (\<lambda>f. \<not> fd_is_static f) ?ms) \<longleftrightarrow>
      (\<forall>f \<in> set ?ms. \<forall>g \<in> set ?ms. fd_is_static f = fd_is_static g)"
    unfolding list_ex_iff by blast
  have arities: "length (remdups (map (\<lambda>f. count_parameters (fd_signature f)) ?ms)) = length ?ms \<longleftrightarrow>
      distinct (map (\<lambda>f. count_parameters (fd_signature f)) ?ms)"
    using length_remdups_eq [of "map (\<lambda>f. count_parameters (fd_signature f)) ?ms"] by simp
  have returns: "length (remdups (map (\<lambda>f. return_type_text (fd_signature f)) ?ms)) = 1 \<longleftrightarrow>
      ?ms \<noteq> [] \<and> (\<forall>f \<in> set ?ms. \<forall>g \<in> set ?ms.
        return_type_text (fd_signature f) = return_type_text (fd_signature g))"
    unfolding length_remdups_1 by simp
  let ?R = "\<forall>f \<in> set ?ms. \<forall>g \<in> set ?ms.
      return_type_text (fd_signature f) = return_type_text (fd_signature g)"
    and ?S = "\<forall>f \<in> set ?ms. \<forall>g \<in> set ?ms. fd_is_static f = fd_is_static g"
  have fold_iff: "(strip_prefix name ''operator'' \<in> {None, Some []} \<and> 2 \<le> length ?ms \<and>
      distinct (map (\<lambda>f. count_parameters (fd_signature f)) ?ms) \<and> ?R \<and> ?S) \<longleftrightarrow>
    \<not> (strip_prefix name ''operator'' \<noteq> None \<and> strip_prefix name ''operator'' \<noteq> Some []) \<and>
    \<not> length ?ms \<le> 1 \<and> \<not> (list_ex fd_is_static ?ms \<and> list_ex (\<lambda>f. \<not> fd_is_static f) ?ms) \<and>
    \<not> is_const_pair ?ms \<and>
    (1 < length (remdups (map (\<lambda>f. count_parameters (fd_signature f)) ?ms)) \<and>
     length (remdups (map (\<lambda>f. count_parameters (fd_signature f)) ?ms)) = length ?ms \<and>
     length (remdups (map (\<lambda>f. return_type_text (fd_signature f)) ?ms)) = 1)"
  proof -
    have ne: "2 \<le> length ?ms \<Longrightarrow> ?ms \<noteq> []" by auto
    show ?thesis
    proof (rule fold_chain [OF _ _ ne arities returns statics const_pair_not_distinct])
      show "strip_prefix name ''operator'' \<in> {None, Some []} \<longleftrightarrow>
          \<not> (strip_prefix name ''operator'' \<noteq> None \<and> strip_prefix name ''operator'' \<noteq> Some [])"
        by simp
    qed linarith+
  qed
  have split: "(\<forall>f \<in> set ?ms. \<forall>g \<in> set ?ms.
      return_type_text (fd_signature f) = return_type_text (fd_signature g) \<and>
      fd_is_static f = fd_is_static g) \<longleftrightarrow> ?R \<and> ?S"
    by blast
  show ?thesis
    unfolding overload_options_for_def Let_def split fold_iff
    by (rule if_chain_single) (rule ids refl)+
qed

definition sample_overload :: "string \<Rightarrow> string \<Rightarrow> function_declaration" where
  "sample_overload usr signature =
    \<lparr>fd_name = ''f'', fd_kind = FdFreeFunction, fd_namespace = [], fd_owning_class_usr = None,
      fd_signature = signature, fd_file = ''a.cpp'', fd_line = 1, fd_column = 1, fd_end_line = 2,
      fd_end_column = 2, fd_usr = usr, fd_is_static = False, fd_is_virtual = False,
      fd_is_pure_virtual = False, fd_is_defaulted = False, fd_overridden_usrs = [],
      fd_has_definition = True\<rparr>"

theorem overloads_folded_when_sound_witness:
  "map mo_id (overload_options_for None ''f''
      (new_full [] [] [sample_overload ''u1'' ''int f(int a)'', sample_overload ''u2'' ''int f(int a, int b)''] [])) =
    [''parametro-opcional'']"
proof -
  let ?facts = "new_full [] [] [sample_overload ''u1'' ''int f(int a)'',
      sample_overload ''u2'' ''int f(int a, int b)''] []"
  have "strip_prefix ''f'' ''operator'' \<in> {None, Some []} \<and>
       (let members = overload_group None ''f'' ?facts in
        2 \<le> length members \<and>
        distinct (map (\<lambda>f. count_parameters (fd_signature f)) members) \<and>
        (\<forall>f \<in> set members. \<forall>g \<in> set members.
           return_type_text (fd_signature f) = return_type_text (fd_signature g) \<and>
           fd_is_static f = fd_is_static g))"
    by code_simp
  then show ?thesis using overloads_folded_when_sound [of None "''f''" ?facts] by auto
qed

text \<open>
  The number of parameters is the number of commas in the parameter list: a comma between template
  arguments counts too, and two overloads of one parameter are taken for different in number.
\<close>

lemma count_parameters_counts_commas:
  "count_parameters ''int f(std::map<int, int> m)'' = 2 \<and>
   map mo_id (overload_options_for None ''f''
      (new_full [] [] [sample_overload ''u1'' ''int f(int a)'',
        sample_overload ''u2'' ''int f(std::map<int, int> m)''] [])) = [''parametro-opcional'']"
  by code_simp

text \<open>Two lists of different length are folded though neither is a prefix of the other.\<close>

lemma folded_without_a_prefix:
  "map mo_id (overload_options_for None ''f''
      (new_full [] [] [sample_overload ''u1'' ''int f(int a)'',
        sample_overload ''u2'' ''int f(std::string s, int b)''] [])) = [''parametro-opcional'']"
  by code_simp

end
