(* ===== verification/Pointer_Options.thy ===== *)
theory Pointer_Options
  imports Overload_Options
begin

text \<open>
  What a raw C++ pointer may point to, of \<^verbatim>\<open>crates/server/src/mapping.rs\<close>:
  \<open>possible_pointee_types\<close> follows the inheritance edges down from the declared type,
  \<open>narrow_by_construction_evidence\<close> keeps the types a function's body constructs, looking through
  plain forwarding calls, and \<open>pointer_options_for\<close> turns the result into an option. The lemmas show
  that the first loop ends with exactly the types reachable by inheritance, each once, and that
  narrowing never adds a type, never empties the set and never narrows without evidence.
\<close>

section \<open>Pointees\<close>

datatype pointee_shape = Known string string | Opaque

record possible_pointee =
  pp_usr :: string
  pp_name :: string

definition scalar_pointee_dart_type :: "string \<Rightarrow> string option" where
  "scalar_pointee_dart_type name =
     (if name = ''char'' \<or> name = ''const char'' then Some ''String'' else None)"

section \<open>The types below a type\<close>

definition pointee_of :: "type_declaration \<Rightarrow> possible_pointee" where
  "pointee_of d = \<lparr>pp_usr = td_usr d, pp_name = td_name d\<rparr>"

text \<open>
  One turn of the inner loop. The frontier is a stack, its top at the head of the list.
\<close>

type_synonym pointee_state = "possible_pointee list \<times> string list \<times> string list"

fun visit_subclass :: "type_declaration \<Rightarrow> pointee_state \<Rightarrow> pointee_state" where
  "visit_subclass d (found, seen_usrs, frontier) =
     (if td_usr d \<in> set seen_usrs then (found, seen_usrs, frontier)
      else (found @ [pointee_of d], td_usr d # seen_usrs, td_usr d # frontier))"

definition subclasses_of :: "(string \<times> type_declaration list) list \<Rightarrow> string \<Rightarrow> type_declaration list" where
  "subclasses_of index base = (case map_of index base of None \<Rightarrow> [] | Some ds \<Rightarrow> ds)"

definition indexed_usrs :: "(string \<times> type_declaration list) list \<Rightarrow> string set" where
  "indexed_usrs index = td_usr ` set (concat (map snd index))"

lemma subclasses_of_indexed:
  assumes "d \<in> set (subclasses_of index base)"
  shows "td_usr d \<in> indexed_usrs index"
proof -
  from assms obtain ds where "map_of index base = Some ds" and "d \<in> set ds"
    by (cases "map_of index base") (auto simp: subclasses_of_def)
  then have "ds \<in> set (map snd index)" by (force dest: map_of_SomeD)
  with \<open>d \<in> set ds\<close> show ?thesis by (auto simp: indexed_usrs_def)
qed

lemma visit_subclasses_seen:
  "fold visit_subclass ds (found, seen, frontier) = (found', seen', frontier') \<Longrightarrow>
    set seen' = set seen \<union> td_usr ` set ds \<and>
    length frontier' + card (set seen) = length frontier + card (set seen')"
proof (induction ds arbitrary: found seen frontier)
  case (Cons d ds)
  show ?case
  proof (cases "td_usr d \<in> set seen")
    case True
    with Cons show ?thesis by auto
  next
    case False
    with Cons.prems have "fold visit_subclass ds (found @ [pointee_of d], td_usr d # seen, td_usr d # frontier) =
        (found', seen', frontier')" by simp
    from Cons.IH [OF this] False show ?thesis by auto
  qed
qed simp

function pointee_loop ::
  "(string \<times> type_declaration list) list \<Rightarrow> pointee_state \<Rightarrow> possible_pointee list" where
  "pointee_loop index (found, seen_usrs, []) = found"
| "pointee_loop index (found, seen_usrs, base_usr # frontier) =
     pointee_loop index (fold visit_subclass (subclasses_of index base_usr) (found, seen_usrs, frontier))"
  by pat_completeness auto
termination
proof (relation "measure (\<lambda>(index, found, seen, frontier).
    card (indexed_usrs index - set seen) + length frontier)")
  fix index found seen base frontier
  let ?ds = "subclasses_of index base"
  obtain found' seen' frontier' where st: "fold visit_subclass ?ds (found, seen, frontier) = (found', seen', frontier')"
    by (metis prod_cases3)
  let ?U = "indexed_usrs index"
  have fin: "finite ?U" by (simp add: indexed_usrs_def)
  have new: "set seen' = set seen \<union> td_usr ` set ?ds"
    and len: "length frontier' + card (set seen) = length frontier + card (set seen')"
    using visit_subclasses_seen [OF st] by auto
  have sub: "set seen' - set seen \<subseteq> ?U" using new subclasses_of_indexed by auto
  have "card (set seen') = card (set seen) + card (set seen' - set seen)"
    using new by (metis Un_Diff_cancel card_Un_disjoint Diff_disjoint List.finite_set finite_Diff sup.absorb2 sup_ge1)
  moreover have "card (?U - set seen) = card (?U - set seen') + card (set seen' - set seen)"
  proof -
    have "?U - set seen = (?U - set seen') \<union> (set seen' - set seen)" using sub new by auto
    moreover have "(?U - set seen') \<inter> (set seen' - set seen) = {}" by auto
    ultimately show ?thesis using fin by (simp add: card_Un_disjoint)
  qed
  ultimately show "((index, fold visit_subclass ?ds (found, seen, frontier)), (index, found, seen, base # frontier)) \<in>
      measure (\<lambda>(index, found, seen, frontier). card (indexed_usrs index - set seen) + length frontier)"
    using len by (simp add: st)
qed simp

definition possible_pointee_types :: "string \<Rightarrow> string \<Rightarrow> project_facts \<Rightarrow> possible_pointee list" where
  "possible_pointee_types usr name facts =
     pointee_loop (pf_subclasses_by_base_usr facts)
       ([\<lparr>pp_usr = usr, pp_name = name\<rparr>], [usr], [usr])"

section \<open>Evidence in bodies\<close>

fun adjacent :: "string \<Rightarrow> string \<Rightarrow> string list \<Rightarrow> bool" where
  "adjacent a b (x # y # ts) = ((x = a \<and> y = b) \<or> adjacent a b (y # ts))"
| "adjacent a b _ = False"

definition words_of :: "unicode \<Rightarrow> string \<Rightarrow> string list" where
  "words_of U body = filter (\<lambda>t. t \<noteq> []) (str_split (word_separator U) body)"

definition returns_via_call :: "unicode \<Rightarrow> string \<Rightarrow> string \<Rightarrow> bool" where
  "returns_via_call U body callee_name = adjacent ''return'' callee_name (words_of U body)"

definition constructs_type :: "unicode \<Rightarrow> string \<Rightarrow> string \<Rightarrow> bool" where
  "constructs_type U body type_name = adjacent ''new'' type_name (words_of U body)"

definition forwarded_callee ::
  "unicode \<Rightarrow> string \<Rightarrow> function_declaration \<Rightarrow> project_facts \<Rightarrow> function_declaration option" where
  "forwarded_callee U body owning_function facts =
     (case map_of (pf_calls_by_caller_usr facts) (fd_usr owning_function) of
        None \<Rightarrow> None
      | Some edges \<Rightarrow>
          find_map (\<lambda>edge.
            case ce_resolution edge of
              Unresolved _ \<Rightarrow> None
            | Resolved callee_usr _ \<Rightarrow>
                (case map_of (pf_functions_by_usr facts) callee_usr of
                   None \<Rightarrow> None
                 | Some callee \<Rightarrow>
                     if returns_via_call U body (fd_name callee) then Some callee else None)) edges)"

definition known_functions :: "project_facts \<Rightarrow> string set" where
  "known_functions facts = fd_usr ` snd ` set (pf_functions_by_usr facts)"

lemma forwarded_callee_known:
  assumes "forwarded_callee U body f facts = Some g"
  shows "fd_usr g \<in> known_functions facts"
proof -
  from assms obtain callee_usr where "map_of (pf_functions_by_usr facts) callee_usr = Some g"
    by (auto simp: forwarded_callee_def split: option.splits call_resolution.splits if_splits
        dest!: find_map_SomeD)
  then have "(callee_usr, g) \<in> set (pf_functions_by_usr facts)" by (rule map_of_SomeD)
  then show ?thesis by (force simp: known_functions_def)
qed

text \<open>
  The recursion through forwarding calls, with the USRs already visited. Without facts there is
  nothing to follow.
\<close>

function narrow_visiting ::
  "unicode \<Rightarrow> file_reader \<Rightarrow> possible_pointee list \<Rightarrow> function_declaration \<Rightarrow>
   project_facts option \<Rightarrow> string set \<Rightarrow> possible_pointee list" where
  "narrow_visiting U read_file candidates owning_function facts visited =
     (if fd_usr owning_function \<in> visited then candidates
      else
        (let body = body_of read_file owning_function;
             constructed = filter (\<lambda>c. constructs_type U body (pp_name c)) candidates
         in
         if constructed \<noteq> [] then constructed
         else (case facts of
             None \<Rightarrow> candidates
           | Some fs \<Rightarrow>
               (case forwarded_callee U body owning_function fs of
                  None \<Rightarrow> candidates
                | Some callee \<Rightarrow>
                    (let forwarded = narrow_visiting U read_file candidates callee (Some fs)
                           (insert (fd_usr owning_function) visited)
                     in if length forwarded < length candidates then forwarded else candidates)))))"
  by pat_completeness auto
termination
proof (relation "measure (\<lambda>(U, read_file, candidates, f, facts, visited).
    case facts of None \<Rightarrow> 0 | Some fs \<Rightarrow> card (insert (fd_usr f) (known_functions fs) - visited))",
    goal_cases)
  case (2 U read_file candidates f facts visited body constructed fs callee)
  have "finite (known_functions fs)" by (simp add: known_functions_def)
  moreover have "insert (fd_usr callee) (known_functions fs) = known_functions fs"
    using forwarded_callee_known 2 by blast
  ultimately show ?case using 2 by (auto intro!: psubset_card_mono)
qed simp

declare narrow_visiting.simps [simp del]

definition narrow_by_construction_evidence ::
  "unicode \<Rightarrow> file_reader \<Rightarrow> possible_pointee list \<Rightarrow> function_declaration \<Rightarrow>
   project_facts option \<Rightarrow> possible_pointee list" where
  "narrow_by_construction_evidence U read_file candidates owning_function facts =
     narrow_visiting U read_file candidates owning_function facts {}"

section \<open>The option\<close>

definition ffi_bridge_option :: mapping_option where
  "ffi_bridge_option =
     \<lparr>mo_id = ''ponte-dart-ffi'',
      mo_label = (''C'' @ [CHR 0xC3, CHR 0xB3] @ ''digo ponte: dart:ffi''),
      mo_description =
           (''o ponteiro aponta para um tipo que este projeto n'' @ [CHR 0xC3, CHR 0xA3] @
           ''o representa (void, um escalar, ou algo que a pr'' @ [CHR 0xC3, CHR 0xB3] @
           ''pria an'' @ [CHR 0xC3, CHR 0xA1] @ ''lise j'' @ [CHR 0xC3, CHR 0xA1] @
           '' recusou) '' @ [CHR 0xE2, CHR 0x80, CHR 0x94] @ '' nada garante que n'' @
           [CHR 0xC3, CHR 0xA3] @ ''o seja usado como buffer/aritm'' @ [CHR 0xC3, CHR 0xA9] @
           ''tica de endere'' @ [CHR 0xC3, CHR 0xA7] @ ''o, e Dart n'' @ [CHR 0xC3, CHR 0xA3] @
           ''o tem um tipo de refer'' @ [CHR 0xC3, CHR 0xAA] @
           ''ncia que cubra esse caso sem `dart:ffi` (`Pointer<T>`).''),
      mo_consequences = []\<rparr>"

definition pointee_consequence :: "possible_pointee \<Rightarrow> consequence" where
  "pointee_consequence pointee =
     \<lparr>cq_affected_type_usr = pp_usr pointee,
      cq_description =
           (''`'' @ pp_name pointee @ ''` '' @ [CHR 0xC3, CHR 0xA9] @
           '' um dos tipos concretos que este ponteiro pode assumir em tempo de execu'' @
           [CHR 0xC3, CHR 0xA7, CHR 0xC3, CHR 0xA3] @ ''o'')\<rparr>"

definition nullable_reference_option :: "possible_pointee list \<Rightarrow> mapping_option" where
  "nullable_reference_option possible_types =
     \<lparr>mo_id = ''referencia-anulavel'',
      mo_label = (''Refer'' @ [CHR 0xC3, CHR 0xAA] @ ''ncia anul'' @ [CHR 0xC3, CHR 0xA1] @ ''vel''),
      mo_description =
           (''conjunto finito e conhecido de tipos poss'' @ [CHR 0xC3, CHR 0xAD] @ ''veis: '' @
           str_join '', '' (map pp_name possible_types) @ '' '' @
           [CHR 0xE2, CHR 0x80, CHR 0x94] @ '' C++ garante estaticamente que o ponteiro s'' @
           [CHR 0xC3, CHR 0xB3] @ '' pode ser nulo ou um destes, o mesmo conjunto que a pr'' @
           [CHR 0xC3, CHR 0xB3] @ ''pria polimorfia de refer'' @ [CHR 0xC3, CHR 0xAA] @
           ''ncia '' @ [CHR 0xC3, CHR 0xBA] @ ''nica do Dart j'' @ [CHR 0xC3, CHR 0xA1] @
           '' cobre com um '' @ [CHR 0xC3, CHR 0xBA] @
           ''nico tipo declarado: mapeia direto para uma refer'' @ [CHR 0xC3, CHR 0xAA] @
           ''ncia anul'' @ [CHR 0xC3, CHR 0xA1] @ ''vel (`T?`).''),
      mo_consequences = map pointee_consequence possible_types\<rparr>"

definition pointer_options_for ::
  "unicode \<Rightarrow> file_reader \<Rightarrow> pointee_shape \<Rightarrow> project_facts option \<Rightarrow>
   function_declaration option \<Rightarrow> mapping_option list" where
  "pointer_options_for U read_file pointee facts owning_function =
     (case pointee of
        Opaque \<Rightarrow> [ffi_bridge_option]
      | Known usr name \<Rightarrow>
          (let possible_types =
                 (case facts of
                    Some fs \<Rightarrow> possible_pointee_types usr name fs
                  | None \<Rightarrow> [\<lparr>pp_usr = usr, pp_name = name\<rparr>]);
               possible_types =
                 (case owning_function of
                    Some f \<Rightarrow> narrow_by_construction_evidence U read_file possible_types f facts
                  | None \<Rightarrow> possible_types)
           in [nullable_reference_option possible_types]))"

section \<open>The loop finds the types below, each once\<close>

definition subclass_edges :: "(string \<times> type_declaration list) list \<Rightarrow> (string \<times> string) set" where
  "subclass_edges index = {(b, td_usr d) | b d. d \<in> set (subclasses_of index b)}"

fun pointees_agree :: "pointee_state \<Rightarrow> bool" where
  "pointees_agree (found, seen_usrs, frontier) \<longleftrightarrow>
     distinct (map pp_usr found) \<and> set (map pp_usr found) = set seen_usrs \<and>
     set frontier \<subseteq> set seen_usrs"

lemma visit_subclasses_agree:
  "fold visit_subclass ds (found, seen, frontier) = (found', seen', frontier') \<Longrightarrow>
    pointees_agree (found, seen, frontier) \<Longrightarrow>
    pointees_agree (found', seen', frontier') \<and>
    set frontier' = set frontier \<union> (set seen' - set seen) \<and>
    (\<exists>new. found' = found @ map pointee_of new \<and> set new \<subseteq> set ds)"
proof (induction ds arbitrary: found seen frontier)
  case (Cons d ds)
  show ?case
  proof (cases "td_usr d \<in> set seen")
    case True
    with Cons show ?thesis by fastforce
  next
    case False
    let ?st = "(found @ [pointee_of d], td_usr d # seen, td_usr d # frontier)"
    have run: "fold visit_subclass ds ?st = (found', seen', frontier')"
      using Cons.prems False by simp
    have ok: "pointees_agree ?st"
      using Cons.prems False by (auto simp: pointee_of_def)
    have sub: "td_usr d \<in> set seen'" using visit_subclasses_seen [OF run] by simp
    from Cons.IH [OF run ok] obtain new where
      agree: "pointees_agree (found', seen', frontier')" and
      fr: "set frontier' = set (td_usr d # frontier) \<union> (set seen' - set (td_usr d # seen))" and
      new: "found' = (found @ [pointee_of d]) @ map pointee_of new" "set new \<subseteq> set ds"
      by blast
    have "set frontier' = set frontier \<union> (set seen' - set seen)" using fr sub False by auto
    moreover have "found' = found @ map pointee_of (d # new) \<and> set (d # new) \<subseteq> set (d # ds)"
      using new by auto
    ultimately show ?thesis using agree by blast
  qed
qed auto

text \<open>What holds at the head of the loop: the types seen lie below the first, and every type seen
  that is no longer on the frontier has its subclasses seen.\<close>

fun pointees_below ::
  "(string \<times> type_declaration list) list \<Rightarrow> possible_pointee \<Rightarrow> pointee_state \<Rightarrow> bool" where
  "pointees_below index start (found, seen_usrs, frontier) \<longleftrightarrow>
     pointees_agree (found, seen_usrs, frontier) \<and>
     set seen_usrs \<subseteq> {v. (pp_usr start, v) \<in> (subclass_edges index)\<^sup>*} \<and>
     subclass_edges index `` (set seen_usrs - set frontier) \<subseteq> set seen_usrs \<and>
     (\<exists>below. found = start # map pointee_of below \<and>
        set below \<subseteq> {d. \<exists>b. d \<in> set (subclasses_of index b)})"

lemma pointees_below_step:
  assumes inv: "pointees_below index start (found, seen, base # frontier)"
    and run: "fold visit_subclass (subclasses_of index base) (found, seen, frontier) = (found', seen', frontier')"
  shows "pointees_below index start (found', seen', frontier')"
proof -
  let ?ds = "subclasses_of index base" and ?E = "subclass_edges index"
  from inv have agree: "pointees_agree (found, seen, frontier)"
    and base: "base \<in> set seen"
    and reach: "set seen \<subseteq> {v. (pp_usr start, v) \<in> ?E\<^sup>*}"
    and closed: "?E `` (set seen - set (base # frontier)) \<subseteq> set seen" by auto
  from inv obtain below where found: "found = start # map pointee_of below"
    and below: "set below \<subseteq> {d. \<exists>b. d \<in> set (subclasses_of index b)}" by auto
  from visit_subclasses_agree [OF run agree] obtain new where
    agree': "pointees_agree (found', seen', frontier')" and
    fr: "set frontier' = set frontier \<union> (set seen' - set seen)" and
    new: "found' = found @ map pointee_of new" "set new \<subseteq> set ?ds" by blast
  have seen': "set seen' = set seen \<union> td_usr ` set ?ds" using visit_subclasses_seen [OF run] by simp
  have edge: "(base, td_usr d) \<in> ?E" if "d \<in> set ?ds" for d
    using that by (auto simp: subclass_edges_def)
  have "(pp_usr start, td_usr d) \<in> ?E\<^sup>*" if "d \<in> set ?ds" for d
  proof (rule rtrancl.rtrancl_into_rtrancl [OF _ edge [OF that]])
    show "(pp_usr start, base) \<in> ?E\<^sup>*" using reach base by blast
  qed
  then have "set seen' \<subseteq> {v. (pp_usr start, v) \<in> ?E\<^sup>*}" using reach seen' by auto
  moreover have "?E `` (set seen' - set frontier') \<subseteq> set seen'"
  proof
    fix v assume "v \<in> ?E `` (set seen' - set frontier')"
    then obtain u where u: "u \<in> set seen" "u \<notin> set frontier" "(u, v) \<in> ?E"
      using fr seen' by auto
    show "v \<in> set seen'"
    proof (cases "u = base")
      case True
      with u show ?thesis by (auto simp: subclass_edges_def seen')
    next
      case False
      with u closed show ?thesis by (auto simp: seen')
    qed
  qed
  moreover have "found' = start # map pointee_of (below @ new) \<and>
      set (below @ new) \<subseteq> {d. \<exists>b. d \<in> set (subclasses_of index b)}"
    using new found below by auto
  ultimately show ?thesis using agree' unfolding pointees_below.simps by blast
qed

lemma pointee_loop_below:
  "pointees_below index start st \<Longrightarrow>
    \<exists>seen. pointees_below index start (pointee_loop index st, seen, [])"
proof (induction index st rule: pointee_loop.induct)
  case (1 index found seen)
  then show ?case by auto
next
  case (2 index found seen base frontier)
  obtain found' seen' frontier' where
    "fold visit_subclass (subclasses_of index base) (found, seen, frontier) = (found', seen', frontier')"
    by (metis prod_cases3)
  then show ?case using 2 pointees_below_step [OF 2(2)] by simp
qed

lemma possible_pointee_types_reach:
  assumes "ps = possible_pointee_types usr name facts"
  shows "hd ps = \<lparr>pp_usr = usr, pp_name = name\<rparr>" (is ?first)
    and "distinct (map pp_usr ps)" (is ?distinct)
    and "pp_usr ` set ps = {v. (usr, v) \<in> (subclass_edges (pf_subclasses_by_base_usr facts))\<^sup>*}" (is ?exact)
    and "set (tl ps) \<subseteq> pointee_of ` {d. \<exists>b. d \<in> set (subclasses_of (pf_subclasses_by_base_usr facts) b)}"
      (is ?below)
proof -
  let ?index = "pf_subclasses_by_base_usr facts" and ?start = "\<lparr>pp_usr = usr, pp_name = name\<rparr>"
  have "pointees_below ?index ?start ([?start], [usr], [usr])" by simp
  from pointee_loop_below [OF this] obtain seen where
    inv: "pointees_below ?index ?start (ps, seen, [])"
    by (auto simp: assms possible_pointee_types_def)
  then show ?distinct by simp
  from inv obtain below where ps: "ps = ?start # map pointee_of below"
    and below: "set below \<subseteq> {d. \<exists>b. d \<in> set (subclasses_of ?index b)}" by auto
  from ps show ?first by simp
  from ps below show ?below by auto
  have seen: "pp_usr ` set ps = set seen" using inv by auto
  have "usr \<in> set seen" using ps seen by force
  then have "{v. (usr, v) \<in> (subclass_edges ?index)\<^sup>*} \<subseteq> set seen"
    using inv closed_contains_rtrancl [of usr _ "subclass_edges ?index" "set seen"] by auto
  moreover have "set seen \<subseteq> {v. (usr, v) \<in> (subclass_edges ?index)\<^sup>*}" using inv by simp
  ultimately show ?exact using seen by simp
qed

lemma subclasses_of_new_full:
  "set (subclasses_of (pf_subclasses_by_base_usr (new_full ds us fs cs)) base) =
    {d \<in> set ds. \<exists>b \<in> set us. tu_kind b = TuInheritance \<and> td_file d = tu_file b \<and>
      usage_within b d \<and> tu_type_usr b = base}"
  by (auto simp: subclasses_of_def subclasses_lookup edges_scan)

lemma subclass_edges_new_full:
  "subclass_edges (pf_subclasses_by_base_usr (new_full ds us fs cs)) =
    {(tu_type_usr b, td_usr d) | b d. b \<in> set us \<and> tu_kind b = TuInheritance \<and> d \<in> set ds \<and>
      td_file d = tu_file b \<and> usage_within b d}"
  by (auto simp: subclass_edges_def subclasses_of_new_full)

lemma subclasses_of_declared:
  "{d. \<exists>b. d \<in> set (subclasses_of (pf_subclasses_by_base_usr (new_full ds us fs cs)) b)} \<subseteq> set ds"
  by (auto simp: subclasses_of_new_full)

section \<open>Narrowing follows the evidence\<close>

text \<open>
  Which function the evidence comes from: the first one along the forwarding calls whose body
  constructs a candidate.
\<close>

definition constructed_in ::
  "unicode \<Rightarrow> file_reader \<Rightarrow> possible_pointee list \<Rightarrow> function_declaration \<Rightarrow> possible_pointee list" where
  "constructed_in U read_file candidates f =
     filter (\<lambda>c. constructs_type U (body_of read_file f) (pp_name c)) candidates"

inductive first_evidence ::
  "unicode \<Rightarrow> file_reader \<Rightarrow> project_facts \<Rightarrow> possible_pointee list \<Rightarrow> function_declaration \<Rightarrow>
   function_declaration \<Rightarrow> bool"
  for U read_file facts candidates where
  here: "constructed_in U read_file candidates f \<noteq> [] \<Longrightarrow>
    first_evidence U read_file facts candidates f f"
| forwarded: "constructed_in U read_file candidates f = [] \<Longrightarrow>
    forwarded_callee U (body_of read_file f) f facts = Some h \<Longrightarrow>
    first_evidence U read_file facts candidates h g \<Longrightarrow>
    first_evidence U read_file facts candidates f g"

inductive_simps first_evidence_simps: "first_evidence U read_file facts candidates f g"

lemma no_evidence_in_cycle:
  assumes "first_evidence U read_file facts candidates f g" and "f \<in> V"
    and "\<And>v. v \<in> V \<Longrightarrow> constructed_in U read_file candidates v = [] \<and>
      (\<exists>w \<in> V. forwarded_callee U (body_of read_file v) v facts = Some w)"
  shows False
  using assms
proof (induction)
  case (forwarded f h g)
  then show ?case by (metis option.inject)
qed auto

lemma first_evidence_constructed:
  "first_evidence U read_file facts candidates f g \<Longrightarrow> constructed_in U read_file candidates g \<noteq> []"
  by (induction rule: first_evidence.induct) auto

lemma forwarded_callee_catalogued:
  assumes "forwarded_callee U body f (new_full ds us fs cs) = Some g"
  shows "List.find (\<lambda>h. fd_usr h = fd_usr g) fs = Some g"
proof -
  from assms obtain u where "map_of (pf_functions_by_usr (new_full ds us fs cs)) u = Some g"
    by (auto simp: forwarded_callee_def split: option.splits call_resolution.splits if_splits
        dest!: find_map_SomeD)
  then have "List.find (\<lambda>h. fd_usr h = u) fs = Some g" by (simp only: functions_index)
  moreover from this have "fd_usr g = u" by (auto simp: find_Some_iff)
  ultimately show ?thesis by simp
qed

lemma shorter_constructed:
  "(if length (constructed_in U read_file xs f) < length xs then constructed_in U read_file xs f else xs) =
    constructed_in U read_file xs f"
proof (cases "\<forall>x \<in> set xs. constructs_type U (body_of read_file f) (pp_name x)")
  case True
  then have "constructed_in U read_file xs f = xs" by (simp add: constructed_in_def)
  then show ?thesis by simp
next
  case False
  then have "length (constructed_in U read_file xs f) < length xs"
    unfolding constructed_in_def by (metis length_filter_less)
  then show ?thesis by simp
qed

lemma narrow_visiting_unfold:
  "narrow_visiting U read_file candidates f facts visited =
    (if fd_usr f \<in> visited then candidates
     else if constructed_in U read_file candidates f \<noteq> [] then constructed_in U read_file candidates f
     else case facts of None \<Rightarrow> candidates
       | Some fs \<Rightarrow> (case forwarded_callee U (body_of read_file f) f fs of None \<Rightarrow> candidates
         | Some callee \<Rightarrow>
             (let forwarded = narrow_visiting U read_file candidates callee (Some fs) (insert (fd_usr f) visited)
              in if length forwarded < length candidates then forwarded else candidates)))"
  by (subst narrow_visiting.simps) (simp add: Let_def constructed_in_def cong: option.case_cong)

text \<open>
  The functions visited so far neither construct a candidate nor forward outside of themselves and
  the current function; each is the catalogued one of its USR.
\<close>

definition visited_without_evidence ::
  "unicode \<Rightarrow> file_reader \<Rightarrow> project_facts \<Rightarrow> possible_pointee list \<Rightarrow> function_declaration \<Rightarrow>
   function_declaration set \<Rightarrow> bool" where
  "visited_without_evidence U read_file facts candidates f V \<longleftrightarrow>
     (\<forall>v \<in> V. constructed_in U read_file candidates v = [] \<and>
        (\<exists>w \<in> insert f V. forwarded_callee U (body_of read_file v) v facts = Some w))"

lemma visited_without_evidence_step:
  assumes "visited_without_evidence U read_file facts candidates f V"
    and "constructed_in U read_file candidates f = []"
    and "forwarded_callee U (body_of read_file f) f facts = Some h"
  shows "visited_without_evidence U read_file facts candidates h (insert f V)"
  using assms unfolding visited_without_evidence_def by blast

definition catalogued :: "function_declaration list \<Rightarrow> function_declaration \<Rightarrow> bool" where
  "catalogued fs f \<longleftrightarrow> List.find (\<lambda>g. fd_usr g = fd_usr f) fs = Some f"

lemma catalogued_unique: "catalogued fs f \<Longrightarrow> catalogued fs g \<Longrightarrow> fd_usr f = fd_usr g \<Longrightarrow> f = g"
  by (simp add: catalogued_def)

lemma narrow_visiting_evidence:
  assumes facts: "facts = new_full ds us fs cs"
  shows "\<lbrakk>visited_without_evidence U read_file facts candidates f V; catalogued fs f;
      \<forall>v \<in> V. catalogued fs v\<rbrakk> \<Longrightarrow>
    (\<exists>g. first_evidence U read_file facts candidates f g \<and>
       narrow_visiting U read_file candidates f (Some facts) (fd_usr ` V) =
         constructed_in U read_file candidates g) \<or>
    ((\<nexists>g. first_evidence U read_file facts candidates f g) \<and>
       narrow_visiting U read_file candidates f (Some facts) (fd_usr ` V) = candidates)"
proof (induction "card (insert (fd_usr f) (known_functions facts) - fd_usr ` V)" arbitrary: f V rule: less_induct)
  case less
  let ?narrow = "narrow_visiting U read_file candidates"
  let ?body = "body_of read_file f" and ?made = "constructed_in U read_file candidates f"
  consider (again) "fd_usr f \<in> fd_usr ` V" | (here) "fd_usr f \<notin> fd_usr ` V" "?made \<noteq> []"
    | (stop) "fd_usr f \<notin> fd_usr ` V" "?made = []" "forwarded_callee U ?body f facts = None"
    | (forward) h where "fd_usr f \<notin> fd_usr ` V" "?made = []" "forwarded_callee U ?body f facts = Some h"
    by (cases "forwarded_callee U ?body f facts") auto
  then show ?case
  proof cases
    case again
    then have "f \<in> V" using less.prems(2,3) catalogued_unique by blast
    then have "\<nexists>g. first_evidence U read_file facts candidates f g"
      using less.prems(1) no_evidence_in_cycle [of U read_file facts candidates f _ V]
      unfolding visited_without_evidence_def by (metis insert_absorb)
    with again show ?thesis by (simp add: narrow_visiting_unfold [of _ _ _ f])
  next
    case here
    then show ?thesis by (auto simp: narrow_visiting_unfold [of _ _ _ f] intro: first_evidence.here)
  next
    case stop
    then have "\<nexists>g. first_evidence U read_file facts candidates f g"
      by (simp add: first_evidence_simps [of _ _ _ _ f])
    with stop show ?thesis by (simp add: narrow_visiting_unfold [of _ _ _ f])
  next
    case forward
    have "known_functions facts - fd_usr ` insert f V \<subset> insert (fd_usr f) (known_functions facts) - fd_usr ` V"
      using forward(1) by auto
    moreover have "insert (fd_usr h) (known_functions facts) = known_functions facts"
      using forwarded_callee_known [OF forward(3)] by auto
    moreover have "finite (known_functions facts)" by (simp add: known_functions_def)
    ultimately have smaller: "card (insert (fd_usr h) (known_functions facts) - fd_usr ` insert f V) <
        card (insert (fd_usr f) (known_functions facts) - fd_usr ` V)"
      by (simp only:) (rule psubset_card_mono, simp_all)
    have "catalogued fs h"
      using forward(3) forwarded_callee_catalogued unfolding facts catalogued_def by blast
    then have ih: "(\<exists>g. first_evidence U read_file facts candidates h g \<and>
         ?narrow h (Some facts) (fd_usr ` insert f V) = constructed_in U read_file candidates g) \<or>
      ((\<nexists>g. first_evidence U read_file facts candidates h g) \<and>
         ?narrow h (Some facts) (fd_usr ` insert f V) = candidates)"
      using less.hyps [OF smaller] less.prems(2,3)
        visited_without_evidence_step [OF less.prems(1) forward(2,3)] by blast
    have from_h: "?narrow f (Some facts) (fd_usr ` V) =
        (let r = ?narrow h (Some facts) (fd_usr ` insert f V)
         in if length r < length candidates then r else candidates)"
      using forward by (simp add: narrow_visiting_unfold [of _ _ _ f])
    have same: "first_evidence U read_file facts candidates f = first_evidence U read_file facts candidates h"
      using forward(2,3) by (intro ext) (simp add: first_evidence_simps [of _ _ _ _ f])
    show ?thesis
      using ih unfolding from_h same Let_def
      by (elim disjE exE conjE) (auto simp only: shorter_constructed if_cancel)
  qed
qed

section \<open>Properties\<close>

text \<open>
  C6. The loop of \<open>possible_pointee_types\<close> ends, and what it returns starts with the declared type,
  names each USR once, and names exactly the USRs reachable from it through the inheritance edges of
  the catalog; each further entry is a declaration of the catalog.
\<close>

theorem possible_pointees_exact:
  "let ps = possible_pointee_types usr name (new_full ds us fs cs) in
    hd ps = \<lparr>pp_usr = usr, pp_name = name\<rparr> \<and> distinct (map pp_usr ps) \<and>
    pp_usr ` set ps = {v. (usr, v) \<in> {(tu_type_usr b, td_usr d) | b d. b \<in> set us \<and>
      tu_kind b = TuInheritance \<and> d \<in> set ds \<and> td_file d = tu_file b \<and> usage_within b d}\<^sup>*} \<and>
    set (tl ps) \<subseteq> pointee_of ` set ds"
proof -
  note reach = possible_pointee_types_reach [OF refl, of usr name "new_full ds us fs cs"]
  have "set (tl (possible_pointee_types usr name (new_full ds us fs cs))) \<subseteq> pointee_of ` set ds"
    using reach(4) subclasses_of_declared [of ds us fs cs] by (rule order_trans [OF _ image_mono])
  then show ?thesis
    unfolding Let_def using reach(1,2) reach(3) [unfolded subclass_edges_new_full] by blast
qed

text \<open>
  C7. For a function of the catalog, narrowing keeps exactly the candidates constructed in the body of
  the first function, along the calls it forwards, that constructs any; when no function along them
  does, also when the forwarding goes round in a circle, it keeps all candidates.
\<close>

theorem narrowing_follows_first_evidence:
  assumes "List.find (\<lambda>g. fd_usr g = fd_usr f) fs = Some f"
  shows "(\<exists>g. first_evidence U read_file (new_full ds us fs cs) candidates f g \<and>
       narrow_by_construction_evidence U read_file candidates f (Some (new_full ds us fs cs)) =
         filter (\<lambda>c. constructs_type U (body_of read_file g) (pp_name c)) candidates) \<or>
    ((\<nexists>g. first_evidence U read_file (new_full ds us fs cs) candidates f g) \<and>
       narrow_by_construction_evidence U read_file candidates f (Some (new_full ds us fs cs)) = candidates)"
  using narrow_visiting_evidence [OF refl, of U read_file ds us fs cs candidates f "{}"] assms
  by (simp add: narrow_by_construction_evidence_def constructed_in_def catalogued_def
      visited_without_evidence_def)

text \<open>The second line of the file forwards to the function of the fourth, which constructs a triangle.\<close>

definition sample_source :: file_reader where
  "sample_source path = Some (''Shape* f() {'' @ [CHR 0x0A] @ ''  return g(); }'' @ [CHR 0x0A] @
     ''Shape* g() {'' @ [CHR 0x0A] @ ''  return new Triangle(); }'')"

definition sample_forwarding :: project_facts where
  "sample_forwarding =
     new_full [] [] [sample_overload ''f'' ''Shape *()'',
       (sample_overload ''g'' ''Shape *()'')\<lparr>fd_name := ''g'', fd_line := 3, fd_end_line := 4\<rparr>]
       [\<lparr>ce_caller_usr = ''f'', ce_resolution = Resolved ''g'' False,
         ce_file = ''a.cpp'', ce_line = 2, ce_column = 3\<rparr>]"

definition sample_candidates :: "possible_pointee list" where
  "sample_candidates = map (\<lambda>n. \<lparr>pp_usr = n, pp_name = n\<rparr>) [''Shape'', ''Circle'', ''Triangle'']"

theorem narrowing_follows_first_evidence_witness:
  "(\<exists>g. first_evidence ascii_tables sample_source sample_forwarding sample_candidates
      (sample_overload ''f'' ''Shape *()'') g) \<and>
   narrow_by_construction_evidence ascii_tables sample_source sample_candidates
      (sample_overload ''f'' ''Shape *()'') (Some sample_forwarding) =
     [\<lparr>pp_usr = ''Triangle'', pp_name = ''Triangle''\<rparr>]"
proof -
  let ?f = "sample_overload ''f'' ''Shape *()''"
  let ?fs = "[?f, (sample_overload ''g'' ''Shape *()'')\<lparr>fd_name := ''g'', fd_line := 3, fd_end_line := 4\<rparr>]"
  have result: "narrow_by_construction_evidence ascii_tables sample_source sample_candidates
      ?f (Some sample_forwarding) = [\<lparr>pp_usr = ''Triangle'', pp_name = ''Triangle''\<rparr>]"
    by code_simp
  have "sample_candidates \<noteq> [\<lparr>pp_usr = ''Triangle'', pp_name = ''Triangle''\<rparr>]" by code_simp
  moreover have "List.find (\<lambda>g. fd_usr g = fd_usr ?f) ?fs = Some ?f" by code_simp
  ultimately show ?thesis
    using narrowing_follows_first_evidence [of ?f ?fs ascii_tables sample_source "[]" "[]" _ sample_candidates]
      result unfolding sample_forwarding_def by metis
qed

text \<open>
  One construction in the body is enough to drop every other candidate, whatever else the body
  returns: here the parameter it returns may hold a circle.
\<close>

lemma narrowing_drops_a_returned_parameter:
  "map pp_name (narrow_by_construction_evidence ascii_tables
      (\<lambda>_. Some ''Shape *f(Shape *p) { if (p) return p; return new Triangle(); }'')
      sample_candidates (sample_overload ''f'' ''Shape *(Shape *)'') None) = [''Triangle'']"
  by code_simp

end
