(* ===== verification/Keyed_Merge.thy ===== *)
theory Keyed_Merge
  imports Prelude
begin

text \<open>
  Merging the partial results of several workers: the loop that keeps, per key, one entry in the
  order the keys first appear, and upgrades it in place when the same key appears again. The
  catalogs of \<^verbatim>\<open>function_catalog.rs\<close>, \<^verbatim>\<open>type_catalog.rs\<close> and \<^verbatim>\<open>pointer_catalog.rs\<close> are all built by it,
  with different keys and upgrades; the loop's own lemmas are proved here once, in a locale.
\<close>

section \<open>The loop\<close>

type_synonym ('k, 'a) merge_state = "('k \<times> nat) list \<times> 'a list"

text \<open>One entry: look the key up in the index, push the entry or upgrade the stored one.\<close>

definition merge_step ::
  "('a \<Rightarrow> 'k) \<Rightarrow> ('a \<Rightarrow> 'a \<Rightarrow> 'a) \<Rightarrow> 'a \<Rightarrow> ('k, 'a) merge_state \<Rightarrow> ('k, 'a) merge_state" where
  "merge_step key upgrade x st =
     (case map_of (fst st) (key x) of
        None \<Rightarrow> (hm_put (key x) (length (snd st)) (fst st), snd st @ [x])
      | Some i \<Rightarrow> (fst st, (snd st)[i := upgrade (snd st ! i) x]))"

section \<open>What it computes\<close>

text \<open>The keys in the order they first appear.\<close>

definition first_keys :: "'k list \<Rightarrow> 'k list" where
  "first_keys ks = rev (remdups (rev ks))"

lemma distinct_first_keys [simp]: "distinct (first_keys ks)"
  by (simp add: first_keys_def)

lemma set_first_keys [simp]: "set (first_keys ks) = set ks"
  by (simp add: first_keys_def)

lemma first_keys_Nil [simp]: "first_keys [] = []"
  by (simp add: first_keys_def)

lemma first_keys_snoc:
  "first_keys (ks @ [k]) = (if k \<in> set ks then first_keys ks else first_keys ks @ [k])"
  by (simp add: first_keys_def)

lemma first_keys_distinct: "distinct ks \<Longrightarrow> first_keys ks = ks"
  by (simp add: first_keys_def distinct_remdups_id)

text \<open>All entries of a key folded into the first.\<close>

definition merged_entry :: "('a \<Rightarrow> 'k) \<Rightarrow> ('a \<Rightarrow> 'a \<Rightarrow> 'a) \<Rightarrow> 'a list \<Rightarrow> 'k \<Rightarrow> 'a" where
  "merged_entry key upgrade xs k =
     (let g = filter (\<lambda>x. key x = k) xs in foldl upgrade (hd g) (tl g))"

definition merged :: "('a \<Rightarrow> 'k) \<Rightarrow> ('a \<Rightarrow> 'a \<Rightarrow> 'a) \<Rightarrow> 'a list \<Rightarrow> 'a list" where
  "merged key upgrade xs = map (merged_entry key upgrade xs) (first_keys (map key xs))"

lemma merged_Nil [simp]: "merged key upgrade [] = []"
  by (simp add: merged_def)

lemma length_merged [simp]: "length (merged key upgrade xs) = length (first_keys (map key xs))"
  by (simp add: merged_def)

lemma merged_entry_snoc:
  "merged_entry key upgrade (xs @ [x]) k =
    (if key x \<noteq> k then merged_entry key upgrade xs k
     else if k \<in> key ` set xs then upgrade (merged_entry key upgrade xs k) x
     else x)"
proof (cases "filter (\<lambda>x. key x = k) xs")
  case Nil
  then have "k \<notin> key ` set xs" by (auto simp: filter_empty_conv)
  with Nil show ?thesis by (auto simp: merged_entry_def)
next
  case (Cons y ys)
  then have "y \<in> set (filter (\<lambda>x. key x = k) xs)" by simp
  then have "k \<in> key ` set xs" by auto
  with Cons show ?thesis by (auto simp: merged_entry_def)
qed

lemma merged_snoc_new:
  "key x \<notin> key ` set xs \<Longrightarrow> merged key upgrade (xs @ [x]) = merged key upgrade xs @ [x]"
  by (auto simp: merged_def first_keys_snoc merged_entry_snoc)

lemma merged_snoc_old:
  assumes "i < length (first_keys (map key xs))" and "first_keys (map key xs) ! i = key x"
  shows "merged key upgrade (xs @ [x]) =
    (merged key upgrade xs)[i := upgrade (merged key upgrade xs ! i) x]"
proof -
  let ?ks = "first_keys (map key xs)"
  have "key x \<in> set (map key xs)" using assms by (metis nth_mem set_first_keys)
  then have mem: "key x \<in> key ` set xs" and ks: "first_keys (map key (xs @ [x])) = ?ks"
    by (simp_all add: first_keys_snoc)
  have other: "?ks ! j \<noteq> key x" if "j < length ?ks" "j \<noteq> i" for j
    using that assms nth_eq_iff_index_eq [OF distinct_first_keys, of j "map key xs" i] by auto
  show ?thesis
  proof (rule nth_equalityI)
    fix j assume "j < length (merged key upgrade (xs @ [x]))"
    then have j: "j < length ?ks" using ks by simp
    then show "merged key upgrade (xs @ [x]) ! j =
        (merged key upgrade xs)[i := upgrade (merged key upgrade xs ! i) x] ! j"
      using other [of j] mem assms
      by (cases "j = i") (auto simp: merged_def ks merged_entry_snoc simp del: map_append)
  qed (use ks in simp)
qed

text \<open>The index answers the position of a key.\<close>

definition indexes :: "('k \<times> nat) list \<Rightarrow> 'k list \<Rightarrow> bool" where
  "indexes index ks \<longleftrightarrow> (\<forall>k i. map_of index k = Some i \<longleftrightarrow> i < length ks \<and> ks ! i = k)"

lemma indexes_Nil [simp]: "indexes [] []"
  by (simp add: indexes_def)

lemma indexes_SomeD: "indexes index ks \<Longrightarrow> map_of index k = Some i \<Longrightarrow> i < length ks \<and> ks ! i = k"
  by (simp add: indexes_def)

lemma indexes_nth: "indexes index ks \<Longrightarrow> i < length ks \<Longrightarrow> map_of index (ks ! i) = Some i"
  by (simp add: indexes_def)

lemma indexes_None:
  assumes "indexes index ks"
  shows "map_of index k = None \<longleftrightarrow> k \<notin> set ks"
proof (cases "map_of index k")
  case None
  then have "k \<noteq> ks ! i" if "i < length ks" for i using indexes_nth [OF assms that] by auto
  with None show ?thesis by (auto simp: in_set_conv_nth)
next
  case (Some i)
  then show ?thesis using indexes_SomeD [OF assms Some] by auto
qed

lemma indexes_snoc:
  "indexes index ks \<Longrightarrow> k \<notin> set ks \<Longrightarrow> indexes (hm_put k (length ks) index) (ks @ [k])"
  by (auto simp: indexes_def nth_append less_Suc_eq)

lemma merge_step_merged:
  assumes "indexes index (first_keys (map key xs))"
  shows "snd (merge_step key upgrade x (index, merged key upgrade xs)) = merged key upgrade (xs @ [x]) \<and>
    indexes (fst (merge_step key upgrade x (index, merged key upgrade xs)))
      (first_keys (map key (xs @ [x])))"
proof (cases "map_of index (key x)")
  case None
  then have new: "key x \<notin> key ` set xs" using indexes_None [OF assms] by simp
  then have "indexes (hm_put (key x) (length (first_keys (map key xs))) index)
      (first_keys (map key xs) @ [key x])"
    by (intro indexes_snoc [OF assms]) simp
  with None new show ?thesis by (simp add: merge_step_def merged_snoc_new first_keys_snoc)
next
  case (Some i)
  then have i: "i < length (first_keys (map key xs))" "first_keys (map key xs) ! i = key x"
    using assms by (auto simp: indexes_def)
  then have "key x \<in> set (map key xs)" by (metis nth_mem set_first_keys)
  with Some i assms show ?thesis by (simp add: merge_step_def merged_snoc_old first_keys_snoc)
qed

lemma merge_fold_from:
  assumes "indexes index (first_keys (map key xs))"
  shows "snd (fold (merge_step key upgrade) ys (index, merged key upgrade xs)) =
      merged key upgrade (xs @ ys) \<and>
    indexes (fst (fold (merge_step key upgrade) ys (index, merged key upgrade xs)))
      (first_keys (map key (xs @ ys)))"
  using assms
proof (induction ys arbitrary: index xs)
  case (Cons y ys)
  obtain index' zs where st: "merge_step key upgrade y (index, merged key upgrade xs) = (index', zs)"
    by (cases "merge_step key upgrade y (index, merged key upgrade xs)")
  then have "zs = merged key upgrade (xs @ [y])" "indexes index' (first_keys (map key (xs @ [y])))"
    using merge_step_merged [OF Cons.prems, of upgrade y] by simp_all
  then show ?case using Cons.IH [of index' "xs @ [y]"] st by simp
qed simp

lemma merge_fold: "snd (fold (merge_step key upgrade) ys ([], [])) = merged key upgrade ys"
  using merge_fold_from [of "[]" key "[]" upgrade ys] by simp

section \<open>Folds that keep the key\<close>

text \<open>
  The contract of a catalog's merge: upgrading an entry with one of the same key keeps the key.
  Then the merged entries have the keys they are listed under.
\<close>

locale keyed_merge =
  fixes key :: "'a \<Rightarrow> 'k" and upgrade :: "'a \<Rightarrow> 'a \<Rightarrow> 'a"
  assumes key_upgrade: "key y = key x \<Longrightarrow> key (upgrade x y) = key x"
begin

lemma key_foldl: "(\<And>y. y \<in> set ys \<Longrightarrow> key y = key x) \<Longrightarrow> key (foldl upgrade x ys) = key x"
  by (induction ys arbitrary: x) (auto simp: key_upgrade)

lemma group_nonempty: "k \<in> key ` set xs \<Longrightarrow> filter (\<lambda>x. key x = k) xs \<noteq> []"
  by (auto simp: filter_empty_conv)

lemma group_hd: "k \<in> key ` set xs \<Longrightarrow> key (hd (filter (\<lambda>x. key x = k) xs)) = k"
  using group_nonempty [of k xs] hd_in_set [of "filter (\<lambda>x. key x = k) xs"] by simp

lemma key_merged_entry:
  assumes "k \<in> key ` set xs"
  shows "key (merged_entry key upgrade xs k) = k"
proof -
  obtain g gs where group: "filter (\<lambda>x. key x = k) xs = g # gs"
    using group_nonempty [OF assms] by (cases "filter (\<lambda>x. key x = k) xs") auto
  then have "key y = k" if "y \<in> set (g # gs)" for y
    using that unfolding group [symmetric] by simp
  then show ?thesis using key_foldl [of gs g] by (simp add: merged_entry_def group)
qed

lemma map_key_merged: "map key (merged key upgrade xs) = first_keys (map key xs)"
  unfolding merged_def by (simp add: comp_def) (intro map_idI key_merged_entry, simp)

lemma set_merged: "set (merged key upgrade xs) = merged_entry key upgrade xs ` key ` set xs"
  by (simp add: merged_def image_image)

text \<open>A property of the entries that the upgrade keeps holds of every merged entry.\<close>

lemma merged_entry_induct:
  assumes "k \<in> key ` set xs"
    and "\<And>x. x \<in> set xs \<Longrightarrow> key x = k \<Longrightarrow> P [x] x"
    and "\<And>ys y x. P ys y \<Longrightarrow> ys \<noteq> [] \<Longrightarrow> key y = k \<Longrightarrow> x \<in> set xs \<Longrightarrow> key x = k \<Longrightarrow>
      P (ys @ [x]) (upgrade y x)"
  shows "P (filter (\<lambda>x. key x = k) xs) (merged_entry key upgrade xs k)"
proof -
  obtain g gs where group: "filter (\<lambda>x. key x = k) xs = g # gs"
    using group_nonempty [OF assms(1)] by (cases "filter (\<lambda>x. key x = k) xs") auto
  then have mem: "y \<in> set xs \<and> key y = k" if "y \<in> set (g # gs)" for y
    using that unfolding group [symmetric] by simp
  have "P (g # gs) (foldl upgrade g gs) \<and> key (foldl upgrade g gs) = k"
    using mem
  proof (induction gs rule: rev_induct)
    case (snoc y ys)
    then have ih: "P (g # ys) (foldl upgrade g ys)" "key (foldl upgrade g ys) = k"
      and y: "y \<in> set xs" "key y = k" by auto
    from assms(3) [OF ih(1) _ ih(2) y] y ih(2) show ?case by (simp add: key_upgrade)
  qed (use assms(2) in auto)
  then show ?thesis by (simp add: merged_entry_def group)
qed

end

section \<open>Keeping the first\<close>

text \<open>\<^verbatim>\<open>if seen.insert(key(&x)) { xs.push(x) }\<close>, with the set of keys seen.\<close>

definition push_new :: "('a \<Rightarrow> 'k) \<Rightarrow> 'a \<Rightarrow> 'k set \<times> 'a list \<Rightarrow> 'k set \<times> 'a list" where
  "push_new key x st = (if key x \<in> fst st then st else (insert (key x) (fst st), snd st @ [x]))"

abbreviation keep_first :: "'a \<Rightarrow> 'a \<Rightarrow> 'a" where
  "keep_first x y \<equiv> x"

lemma foldl_keep_first: "foldl keep_first x ys = x"
  by (induction ys) auto

lemma merged_keep_first_old:
  assumes "key x \<in> key ` set xs"
  shows "merged key keep_first (xs @ [x]) = merged key keep_first xs"
proof -
  have "key x \<in> set (map key xs)" using assms by simp
  then obtain i where i: "i < length (first_keys (map key xs))" "first_keys (map key xs) ! i = key x"
    by (metis set_first_keys in_set_conv_nth)
  then show ?thesis by (simp add: merged_snoc_old)
qed

lemma push_new_fold_from:
  "fold (push_new key) ys (key ` set xs, merged key keep_first xs) =
    (key ` set (xs @ ys), merged key keep_first (xs @ ys))"
proof (induction ys arbitrary: xs)
  case (Cons y ys)
  have "push_new key y (key ` set xs, merged key keep_first xs) =
      (key ` set (xs @ [y]), merged key keep_first (xs @ [y]))"
    by (auto simp: push_new_def merged_snoc_new merged_keep_first_old)
  then show ?case using Cons.IH [of "xs @ [y]"] by simp
qed simp

lemma push_new_fold: "fold (push_new key) ys ({}, []) = (key ` set ys, merged key keep_first ys)"
  using push_new_fold_from [of key ys "[]"] by simp

text \<open>The first entry of every key.\<close>

lemma merged_keep_first_entry:
  "merged_entry key keep_first xs k = hd (filter (\<lambda>x. key x = k) xs)"
  by (simp add: merged_entry_def Let_def foldl_keep_first)

lemma hd_filter_find: "filter P xs \<noteq> [] \<Longrightarrow> hd (filter P xs) = the (List.find P xs)"
  by (induction xs) auto

end
