(* ===== verification/Catalog_Merge.thy ===== *)
theory Catalog_Merge
  imports Keyed_Merge Catalog Ir_Nodes
begin

text \<open>
  The merge of the workers' partial catalogs: \<open>finish_type_catalog\<close> (\<^verbatim>\<open>type_catalog.rs\<close>),
  \<open>finish_pointer_catalog\<close> (\<^verbatim>\<open>pointer_catalog.rs\<close>), \<open>finish_source_files\<close> (\<^verbatim>\<open>source_catalog.rs\<close>) and the
  loop of \<open>finish_function_catalog\<close> (\<^verbatim>\<open>function_catalog.rs\<close>) with \<open>push_declaration_into\<close>,
  \<open>merge_ir_record\<close>, \<open>merge_methods\<close> and \<open>merge_constructors\<close>. The lemmas show that every catalog lists
  each key once, in the order of first appearance, that a definition always wins over a prototype and
  a body over its absence, and that no member any worker saw is lost. The log lines the code writes
  when two workers disagree are not part of the model.
\<close>

section \<open>Identities\<close>

definition show_u32 :: "u32 \<Rightarrow> string" where
  "show_u32 n = show_nat (unat n)"

definition positional_identity :: "string \<Rightarrow> string \<Rightarrow> string \<Rightarrow> u32 \<Rightarrow> u32 \<Rightarrow> string" where
  "positional_identity kind name path line column =
     ''pos:'' @ kind @ '':'' @ name @ '':'' @ path @ '':'' @ show_u32 line @ '':'' @ show_u32 column"

definition type_identity :: "type_declaration \<Rightarrow> string" where
  "type_identity d =
     (if td_usr d \<noteq> [] then td_usr d
      else positional_identity (kind_debug (td_kind d)) (td_name d) (td_file d) (td_line d) (td_column d))"

definition function_identity :: "function_declaration \<Rightarrow> string" where
  "function_identity d =
     (if fd_usr d \<noteq> [] then fd_usr d
      else positional_identity (function_kind_debug (fd_kind d)) (fd_name d) (fd_file d) (fd_line d)
        (fd_column d))"

definition pointer_identity :: "pointer_declaration \<Rightarrow> string" where
  "pointer_identity d =
     (if pd_usr d \<noteq> [] then pd_usr d
      else positional_identity (pointer_kind_debug (pd_kind d)) (pd_name d) (pd_file d) (pd_line d)
        (pd_column d))"

definition usage_identity :: "type_usage \<Rightarrow> string \<times> type_usage_kind \<times> string \<times> u32 \<times> u32" where
  "usage_identity u = (tu_type_usr u, tu_kind u, tu_file u, tu_line u, tu_column u)"

definition call_identity :: "call_edge \<Rightarrow> string \<times> call_resolution \<times> string \<times> u32 \<times> u32" where
  "call_identity e = (ce_caller_usr e, ce_resolution e, ce_file e, ce_line e, ce_column e)"

section \<open>Types, pointers and files\<close>

record type_dependency =
  dp_caller :: type_declaration
  dp_callee :: type_declaration

record type_catalog =
  tc_declarations :: "type_declaration list"
  tc_dependencies :: "type_dependency list"
  tc_usages :: "type_usage list"

type_synonym type_partial = "type_declaration list \<times> type_dependency list \<times> type_usage list"

text \<open>\<^verbatim>\<open>push_dependency\<close>: self-references are dropped.\<close>

definition push_dependency ::
  "type_declaration \<Rightarrow> type_declaration \<Rightarrow>
   (type_declaration \<times> type_declaration) set \<times> type_dependency list \<Rightarrow>
   (type_declaration \<times> type_declaration) set \<times> type_dependency list" where
  "push_dependency caller callee st =
     (if caller = callee then st
      else push_new (\<lambda>d. (dp_caller d, dp_callee d)) \<lparr>dp_caller = caller, dp_callee = callee\<rparr> st)"

record type_merge =
  tm_declarations :: "string set \<times> type_declaration list"
  tm_dependencies :: "(type_declaration \<times> type_declaration) set \<times> type_dependency list"
  tm_usages :: "(string \<times> type_usage_kind \<times> string \<times> u32 \<times> u32) set \<times> type_usage list"

definition merge_type_partial :: "type_partial \<Rightarrow> type_merge \<Rightarrow> type_merge" where
  "merge_type_partial p st =
     (case p of (partial_declarations, partial_dependencies, partial_usages) \<Rightarrow>
        \<lparr>tm_declarations = fold (push_new type_identity) partial_declarations (tm_declarations st),
         tm_dependencies =
           fold (\<lambda>d. push_dependency (dp_caller d) (dp_callee d)) partial_dependencies (tm_dependencies st),
         tm_usages = fold (push_new usage_identity) partial_usages (tm_usages st)\<rparr>)"

definition finish_type_catalog :: "type_partial list \<Rightarrow> type_catalog" where
  "finish_type_catalog partials =
     (let st = fold merge_type_partial partials
          \<lparr>tm_declarations = ({}, []), tm_dependencies = ({}, []), tm_usages = ({}, [])\<rparr>
      in \<lparr>tc_declarations = snd (tm_declarations st), tc_dependencies = snd (tm_dependencies st),
          tc_usages = snd (tm_usages st)\<rparr>)"

definition finish_pointer_catalog :: "pointer_declaration list list \<Rightarrow> pointer_declaration list" where
  "finish_pointer_catalog partials =
     snd (fold (\<lambda>partial. fold (push_new pointer_identity) partial) partials ({}, []))"

datatype source_file_kind = SfTranslationUnit | SfHeader

primrec sfk_as_str :: "source_file_kind \<Rightarrow> string" where
  "sfk_as_str SfTranslationUnit = ''translation_unit''"
| "sfk_as_str SfHeader = ''header''"

definition sfk_parse :: "string \<Rightarrow> source_file_kind option" where
  "sfk_parse text =
     (if text = ''translation_unit'' then Some SfTranslationUnit
      else if text = ''header'' then Some SfHeader
      else None)"

record source_file =
  sf_path :: string
  sf_kind :: source_file_kind

text \<open>A \<^verbatim>\<open>BTreeSet\<close> of paths iterates in their order.\<close>

definition finish_source_files :: "string set \<Rightarrow> string set \<Rightarrow> source_file list" where
  "finish_source_files translation_units headers =
     sort_key sf_path
       (map (\<lambda>path. \<lparr>sf_path = path, sf_kind = SfTranslationUnit\<rparr>)
          (sorted_list_of_set translation_units) @
        map (\<lambda>path. \<lparr>sf_path = path, sf_kind = SfHeader\<rparr>)
          (sorted_list_of_set (headers - translation_units)))"

section \<open>Functions and calls\<close>

text \<open>\<^verbatim>\<open>push_declaration_into\<close>: a definition replaces a prototype of the same identity in place.\<close>

definition push_declaration_into ::
  "function_declaration \<Rightarrow> (string, function_declaration) merge_state \<Rightarrow>
   (string, function_declaration) merge_state" where
  "push_declaration_into declaration st =
     (let seen = fst st; declarations = snd st; identity = function_identity declaration in
      case map_of seen identity of
        None \<Rightarrow> (hm_put identity (length declarations) seen, declarations @ [declaration])
      | Some i \<Rightarrow>
          if \<not> fd_has_definition (declarations ! i) \<and> fd_has_definition declaration
          then (seen, declarations[i := declaration])
          else st)"

text \<open>
  The loop over two parameter lists that carries default values from one to the other: a parameter
  without a default takes that of the parameter at its place.
\<close>

fun fill_defaults :: "param list \<Rightarrow> param list \<Rightarrow> param list" where
  "fill_defaults (p # ps) (q # qs) =
     (if p_default p = None \<and> p_default q \<noteq> None then Param (p_name p) (p_ty p) (p_default q) else p) #
     fill_defaults ps qs"
| "fill_defaults ps _ = ps"

record function_merge =
  fm_index :: "(string \<times> nat) list"
  fm_is_prototype :: "(string \<times> bool) list"
  fm_functions :: "ir_function list"

definition merge_ir_function :: "ir_function \<times> bool \<Rightarrow> function_merge \<Rightarrow> function_merge" where
  "merge_ir_function entry st =
     (let function = fst entry; is_prototype = snd entry; functions = fm_functions st in
      case map_of (fm_index st) (f_usr function) of
        None \<Rightarrow>
          \<lparr>fm_index = hm_put (f_usr function) (length functions) (fm_index st),
           fm_is_prototype = hm_put (f_usr function) is_prototype (fm_is_prototype st),
           fm_functions = functions @ [function]\<rparr>
      | Some i \<Rightarrow>
          (let stored_is_prototype = the (map_of (fm_is_prototype st) (f_usr function)) in
           if stored_is_prototype \<and> \<not> is_prototype then
             (let function = function\<lparr>f_params := fill_defaults (f_params function) (f_params (functions ! i))\<rparr>
              in st\<lparr>fm_functions := functions[i := function],
                    fm_is_prototype := hm_put (f_usr function) False (fm_is_prototype st)\<rparr>)
           else if \<not> stored_is_prototype \<and> is_prototype then
             st\<lparr>fm_functions := functions[i := (functions ! i)
                  \<lparr>f_params := fill_defaults (f_params (functions ! i)) (f_params function)\<rparr>]\<rparr>
           else st))"

section \<open>Records\<close>

definition merge_method :: "ir_method \<Rightarrow> ir_method \<Rightarrow> ir_method" where
  "merge_method existing incoming =
     (if m_body existing = None \<and> m_body incoming \<noteq> None
      then incoming\<lparr>m_params := fill_defaults (m_params incoming) (m_params existing)\<rparr>
      else if m_body existing \<noteq> None \<and> m_body incoming = None
      then existing\<lparr>m_params := fill_defaults (m_params existing) (m_params incoming)\<rparr>
      else existing)"

definition index_methods :: "ir_method list \<Rightarrow> (string \<times> nat) list" where
  "index_methods ms = fold (\<lambda>(i, m). hm_put (m_usr m) i) (enumerate 0 ms) []"

definition merge_methods :: "ir_method list \<Rightarrow> ir_method list \<Rightarrow> ir_method list" where
  "merge_methods existing incoming =
     snd (fold (merge_step m_usr merge_method) incoming (index_methods existing, existing))"

fun merge_constructor :: "ir_constructor \<Rightarrow> ir_constructor list \<Rightarrow> ir_constructor list" where
  "merge_constructor c [] = [c]"
| "merge_constructor c (e # es) =
     (if c_usr e = c_usr c then e\<lparr>c_params := fill_defaults (c_params e) (c_params c)\<rparr> # es
      else e # merge_constructor c es)"

definition merge_constructors :: "ir_constructor list \<Rightarrow> ir_constructor list \<Rightarrow> ir_constructor list" where
  "merge_constructors existing incoming = fold merge_constructor incoming existing"

definition merge_ir_record :: "ir_record \<Rightarrow> ir_record \<Rightarrow> ir_record" where
  "merge_ir_record existing incoming =
     existing\<lparr>r_methods := merge_methods (r_methods existing) (r_methods incoming),
       r_constructors := merge_constructors (r_constructors existing) (r_constructors incoming),
       r_destructor := (case (r_destructor existing, r_destructor incoming) of
          (None, Some body) \<Rightarrow> Some body
        | (d, _) \<Rightarrow> d)\<rparr>"

section \<open>The loop over the partials\<close>

record function_partial =
  fp_declarations :: "function_declaration list"
  fp_calls :: "call_edge list"
  fp_functions :: "ir_function list"
  fp_is_prototype :: "bool list"
  fp_records :: "ir_record list"
  fp_enums :: "ir_enum list"

record catalog_merge =
  cm_declarations :: "(string, function_declaration) merge_state"
  cm_calls :: "(string \<times> call_resolution \<times> string \<times> u32 \<times> u32) set \<times> call_edge list"
  cm_functions :: function_merge
  cm_records :: "(string, ir_record) merge_state"
  cm_enums :: "string set \<times> ir_enum list"

definition merge_start :: catalog_merge where
  "merge_start =
     \<lparr>cm_declarations = ([], []), cm_calls = ({}, []),
      cm_functions = \<lparr>fm_index = [], fm_is_prototype = [], fm_functions = []\<rparr>,
      cm_records = ([], []), cm_enums = ({}, [])\<rparr>"

definition merge_function_partial :: "function_partial \<Rightarrow> catalog_merge \<Rightarrow> catalog_merge" where
  "merge_function_partial p st =
     \<lparr>cm_declarations = fold push_declaration_into (fp_declarations p) (cm_declarations st),
      cm_calls = fold (push_new call_identity) (fp_calls p) (cm_calls st),
      cm_functions = fold merge_ir_function (zip (fp_functions p) (fp_is_prototype p)) (cm_functions st),
      cm_records = fold (merge_step r_usr merge_ir_record) (fp_records p) (cm_records st),
      cm_enums = fold (push_new en_usr) (fp_enums p) (cm_enums st)\<rparr>"

definition merge_function_partials :: "function_partial list \<Rightarrow> catalog_merge" where
  "merge_function_partials partials = fold merge_function_partial partials merge_start"

section \<open>Loops over partials\<close>

lemma fold_partials: "fold (\<lambda>p. fold f (g p)) ps st = fold f (concat (map g ps)) st"
  by (induction ps arbitrary: st) simp_all

lemma merge_function_partials_fields:
  "cm_declarations (fold merge_function_partial ps st) =
     fold push_declaration_into (concat (map fp_declarations ps)) (cm_declarations st)"
  "cm_calls (fold merge_function_partial ps st) =
     fold (push_new call_identity) (concat (map fp_calls ps)) (cm_calls st)"
  "cm_functions (fold merge_function_partial ps st) =
     fold merge_ir_function (concat (map (\<lambda>p. zip (fp_functions p) (fp_is_prototype p)) ps)) (cm_functions st)"
  "cm_records (fold merge_function_partial ps st) =
     fold (merge_step r_usr merge_ir_record) (concat (map fp_records ps)) (cm_records st)"
  "cm_enums (fold merge_function_partial ps st) =
     fold (push_new en_usr) (concat (map fp_enums ps)) (cm_enums st)"
  by (induction ps arbitrary: st) (simp_all add: merge_function_partial_def)

lemma merge_type_partials_fields:
  "tm_declarations (fold merge_type_partial ps st) =
     fold (push_new type_identity) (concat (map fst ps)) (tm_declarations st)"
  "tm_dependencies (fold merge_type_partial ps st) =
     fold (\<lambda>d. push_dependency (dp_caller d) (dp_callee d)) (concat (map (\<lambda>p. fst (snd p)) ps)) (tm_dependencies st)"
  "tm_usages (fold merge_type_partial ps st) =
     fold (push_new usage_identity) (concat (map (\<lambda>p. snd (snd p)) ps)) (tm_usages st)"
  by (induction ps arbitrary: st) (simp_all add: merge_type_partial_def split: prod.splits)

text \<open>Where the key determines the entry, keeping the first of each key removes duplicates.\<close>

lemma merged_injective_key:
  assumes "inj key"
  shows "merged key keep_first xs = first_keys xs"
proof (induction xs rule: rev_induct)
  case (snoc x xs)
  show ?case
  proof (cases "x \<in> set xs")
    case True
    then show ?thesis using snoc by (simp add: merged_keep_first_old first_keys_snoc)
  next
    case False
    then have "key x \<notin> key ` set xs" using assms by (auto dest: injD)
    then show ?thesis using snoc False by (simp add: merged_snoc_new first_keys_snoc)
  qed
qed simp

lemma identity_keys_inj:
  "inj usage_identity" "inj call_identity" "inj (\<lambda>d :: type_dependency. (dp_caller d, dp_callee d))"
  by (auto intro!: injI simp: usage_identity_def call_identity_def)

lemma push_dependencies_fold:
  "fold (\<lambda>d. push_dependency (dp_caller d) (dp_callee d)) ds st =
    fold (push_new (\<lambda>d. (dp_caller d, dp_callee d))) (filter (\<lambda>d. dp_caller d \<noteq> dp_callee d) ds) st"
proof (induction ds arbitrary: st)
  case (Cons d ds)
  have "push_dependency (dp_caller d) (dp_callee d) st =
      (if dp_caller d = dp_callee d then st else push_new (\<lambda>d. (dp_caller d, dp_callee d)) d st)"
    by (cases d) (simp add: push_dependency_def)
  with Cons show ?case by simp
qed simp

section \<open>A definition wins\<close>

definition prefer_definition :: "function_declaration \<Rightarrow> function_declaration \<Rightarrow> function_declaration" where
  "prefer_definition x y = (if \<not> fd_has_definition x \<and> fd_has_definition y then y else x)"

lemma push_declaration_into_step: "push_declaration_into = merge_step function_identity prefer_definition"
  by (intro ext)
    (auto simp: push_declaration_into_def merge_step_def prefer_definition_def Let_def
      split: option.splits)

lemma foldl_prefer_definition:
  "foldl prefer_definition d ds = (case List.find fd_has_definition (d # ds) of Some e \<Rightarrow> e | None \<Rightarrow> d)"
proof (induction ds arbitrary: d)
  case (Cons e ds)
  then show ?case by (auto simp: prefer_definition_def split: option.splits)
qed simp

lemma list_of_nonempty: "xs \<noteq> [] \<Longrightarrow> hd xs # tl xs = xs"
  by simp

definition keys_of :: "('a \<Rightarrow> 'k) \<Rightarrow> 'a list \<Rightarrow> 'k list" where
  "keys_of key xs = first_keys (map key xs)"

definition same_key :: "('a \<Rightarrow> 'k) \<Rightarrow> 'a list \<Rightarrow> 'k \<Rightarrow> 'a list" where
  "same_key key xs k = filter (\<lambda>x. key x = k) xs"

lemma same_key_nonempty: "k \<in> set (keys_of key xs) \<Longrightarrow> same_key key xs k \<noteq> []"
  by (auto simp: keys_of_def same_key_def filter_empty_conv)

lemma merged_foldl:
  "merged key upgrade xs = map (\<lambda>k. foldl upgrade (hd (same_key key xs k)) (tl (same_key key xs k)))
    (keys_of key xs)"
  by (simp add: merged_def keys_of_def same_key_def merged_entry_def Let_def)

lemma merged_prefer_definition:
  "merged key prefer_definition ds = map (\<lambda>k. case List.find fd_has_definition (same_key key ds k) of
      Some d \<Rightarrow> d | None \<Rightarrow> hd (same_key key ds k)) (keys_of key ds)"
  unfolding merged_foldl foldl_prefer_definition
  using list_of_nonempty [OF same_key_nonempty] by (metis (no_types, lifting) map_cong)

section \<open>A prototype is replaced by the definition\<close>

definition upgrade_function :: "ir_function \<times> bool \<Rightarrow> ir_function \<times> bool \<Rightarrow> ir_function \<times> bool" where
  "upgrade_function x y =
     (if snd x \<and> \<not> snd y
      then ((fst y)\<lparr>f_params := fill_defaults (f_params (fst y)) (f_params (fst x))\<rparr>, False)
      else if \<not> snd x \<and> snd y
      then ((fst x)\<lparr>f_params := fill_defaults (f_params (fst x)) (f_params (fst y))\<rparr>, False)
      else x)"

interpretation ir_functions: keyed_merge "\<lambda>e. f_usr (fst e)" upgrade_function
  by unfold_locales (simp add: upgrade_function_def)

text \<open>The map of prototypes tells, for every stored function, whether it is one.\<close>

definition tells_prototypes :: "function_merge \<Rightarrow> (ir_function \<times> bool) list \<Rightarrow> bool" where
  "tells_prototypes st entries \<longleftrightarrow>
     fm_functions st = map fst entries \<and>
     map_of (fm_is_prototype st) = map_of (map (\<lambda>e. (f_usr (fst e), snd e)) entries)"

lemma map_of_list_update:
  "distinct (map fst xs) \<Longrightarrow> i < length xs \<Longrightarrow> fst (xs ! i) = k \<Longrightarrow>
    map_of (xs[i := (k, v)]) = (map_of xs)(k \<mapsto> v)"
proof (induction xs arbitrary: i)
  case (Cons x xs)
  show ?case
  proof (cases i)
    case (Suc j)
    with Cons.prems have j: "distinct (map fst xs)" "j < length xs" "fst (xs ! j) = k" by simp_all
    then have "fst x \<noteq> k" using Cons.prems(1) nth_mem [of j xs] by fastforce
    with Cons.IH [OF j] Suc show ?thesis by (cases x) (auto simp: fun_eq_iff)
  qed (use Cons.prems in \<open>cases x; auto simp: fun_eq_iff\<close>)
qed simp

lemma map_of_append_new: "map_of xs k = None \<Longrightarrow> map_of (xs @ [(k, v)]) = (map_of xs)(k \<mapsto> v)"
  by (auto simp: fun_eq_iff map_add_def split: option.splits)

lemma merge_ir_function_step:
  assumes tells: "tells_prototypes st entries"
    and ix: "indexes (fm_index st) (map (\<lambda>e. f_usr (fst e)) entries)"
    and distinct: "distinct (map (\<lambda>e. f_usr (fst e)) entries)"
    and run: "merge_step (\<lambda>e. f_usr (fst e)) upgrade_function x (fm_index st, entries) = (index', entries')"
  shows "tells_prototypes (merge_ir_function x st) entries' \<and> fm_index (merge_ir_function x st) = index'"
proof -
  let ?flags = "map (\<lambda>e. (f_usr (fst e), snd e))"
  obtain f p where x: "x = (f, p)" by (cases x)
  have fs: "fm_functions st = map fst entries"
    and ps: "map_of (fm_is_prototype st) = map_of (?flags entries)"
    using tells by (simp_all add: tells_prototypes_def)
  show ?thesis
  proof (cases "map_of (fm_index st) (f_usr f)")
    case None
    then have "f_usr f \<notin> (\<lambda>e. f_usr (fst e)) ` set entries" using indexes_None [OF ix] by simp
    then have "map_of (?flags entries) (f_usr f) = None" by (force simp: map_of_eq_None_iff)
    then have "map_of (?flags entries @ [(f_usr f, p)]) = (map_of (?flags entries))(f_usr f \<mapsto> p)"
      by (rule map_of_append_new)
    then show ?thesis
      using None run ps by (auto simp: x merge_step_def merge_ir_function_def tells_prototypes_def fs)
  next
    case (Some i)
    then have i: "i < length entries" "f_usr (fst (entries ! i)) = f_usr f"
      using indexes_SomeD [OF ix Some] by auto
    obtain g q where e: "entries ! i = (g, q)" by (cases "entries ! i")
    have flags_distinct: "distinct (map fst (?flags entries))" using distinct by (simp add: comp_def)
    have stored: "map_of (?flags entries) (f_usr f) = Some q"
      using i e flags_distinct by (intro map_of_is_SomeI) (auto intro!: image_eqI [OF _ nth_mem])
    have flags: "map_of ((?flags entries)[i := (f_usr f, v)]) = (map_of (?flags entries))(f_usr f \<mapsto> v)" for v
      using i by (intro map_of_list_update [OF flags_distinct]) simp_all
    have entries': "entries' = entries[i := upgrade_function (g, q) (f, p)]"
      and index': "index' = fm_index st"
      using run Some by (auto simp: merge_step_def x e)
    have gi: "map fst entries ! i = g" and usr: "f_usr g = f_usr f" using i e by simp_all
    consider (upgrade) "q \<and> \<not> p" | (fill) "\<not> q \<and> p" | (keep) "q = p" by blast
    then show ?thesis
    proof cases
      case upgrade
      then show ?thesis
        using Some stored by (simp add: x merge_ir_function_def tells_prototypes_def fs entries' index'
            upgrade_function_def gi map_update ps flags)
    next
      case fill
      have "(map_of (?flags entries))(f_usr f \<mapsto> False) = map_of (?flags entries)"
        using stored fill by (auto simp: fun_eq_iff)
      then show ?thesis
        using Some stored fill by (simp add: x merge_ir_function_def tells_prototypes_def fs entries' index'
            upgrade_function_def gi map_update ps flags usr)
    next
      case keep
      then have "upgrade_function (g, q) (f, p) = (g, q)" by (simp add: upgrade_function_def)
      then have "entries' = entries" using entries' e by (metis list_update_id)
      then show ?thesis
        using Some stored keep tells ps by (simp add: x merge_ir_function_def index' Let_def)
    qed
  qed
qed

lemma merge_ir_functions_fold:
  assumes "tells_prototypes st (merged (\<lambda>e. f_usr (fst e)) upgrade_function xs)"
    and "indexes (fm_index st) (first_keys (map (\<lambda>e. f_usr (fst e)) xs))"
  shows "tells_prototypes (fold merge_ir_function ys st)
    (merged (\<lambda>e. f_usr (fst e)) upgrade_function (xs @ ys))"
  using assms
proof (induction ys arbitrary: st xs)
  case (Cons y ys)
  let ?key = "\<lambda>e. f_usr (fst e) :: string"
  obtain index' zs where run: "merge_step ?key upgrade_function y (fm_index st, merged ?key upgrade_function xs) = (index', zs)"
    by (cases "merge_step ?key upgrade_function y (fm_index st, merged ?key upgrade_function xs)")
  then have zs: "zs = merged ?key upgrade_function (xs @ [y])"
    and ix: "indexes index' (first_keys (map ?key (xs @ [y])))"
    using merge_step_merged [OF Cons.prems(2), of upgrade_function y] by simp_all
  have "tells_prototypes (merge_ir_function y st) zs \<and> fm_index (merge_ir_function y st) = index'"
    using Cons.prems run
    by (intro merge_ir_function_step) (simp_all only: ir_functions.map_key_merged distinct_first_keys)
  then show ?case using Cons.IH [of "merge_ir_function y st" "xs @ [y]"] zs ix by simp
qed simp

lemma foldl_upgrade_function_definition:
  "snd (foldl upgrade_function x xs) = list_all snd (x # xs)"
proof (induction xs arbitrary: x)
  case (Cons y ys)
  then show ?case by (auto simp: upgrade_function_def)
qed simp

text \<open>Everything of a function except the default values of its parameters.\<close>

definition drop_default :: "param \<Rightarrow> param" where
  "drop_default p = Param (p_name p) (p_ty p) None"

definition without_defaults :: "ir_function \<Rightarrow> ir_function" where
  "without_defaults f = f\<lparr>f_params := map drop_default (f_params f)\<rparr>"

lemma fill_defaults_shape: "map drop_default (fill_defaults ps qs) = map drop_default ps"
  by (induction ps qs rule: fill_defaults.induct) (auto simp: drop_default_def)

lemma without_defaults_fill:
  "without_defaults (f\<lparr>f_params := fill_defaults (f_params f) qs\<rparr>) = without_defaults f"
  by (cases f) (simp add: without_defaults_def fill_defaults_shape)

definition winning_function :: "(ir_function \<times> bool) list \<Rightarrow> ir_function" where
  "winning_function entries =
     (case List.find (\<lambda>e. \<not> snd e) entries of Some e \<Rightarrow> fst e | None \<Rightarrow> fst (hd entries))"

lemma foldl_upgrade_function_winner:
  "without_defaults (fst (foldl upgrade_function x xs)) = without_defaults (winning_function (x # xs))"
proof (induction xs arbitrary: x)
  case (Cons y ys)
  have "without_defaults (fst (foldl upgrade_function x (y # ys))) =
      without_defaults (winning_function (upgrade_function x y # ys))"
    using Cons [of "upgrade_function x y"] by simp
  also have "\<dots> = without_defaults (winning_function (x # y # ys))"
    by (auto simp: winning_function_def upgrade_function_def without_defaults_fill split: option.splits)
  finally show ?case .
qed (simp add: winning_function_def split: option.splits)

section \<open>Nothing a record has is lost\<close>

lemma merge_method_usr: "m_usr y = m_usr x \<Longrightarrow> m_usr (merge_method x y) = m_usr x"
  by (simp add: merge_method_def)

interpretation methods: keyed_merge m_usr merge_method
  by unfold_locales (rule merge_method_usr)

lemma merged_distinct: "distinct (map key xs) \<Longrightarrow> merged key upgrade xs = xs"
proof (induction xs rule: rev_induct)
  case (snoc x xs)
  then have "key x \<notin> key ` set xs" by simp
  with snoc show ?case by (simp add: merged_snoc_new)
qed simp

lemma indexes_index_methods: "distinct (map m_usr ms) \<Longrightarrow> indexes (index_methods ms) (map m_usr ms)"
proof (induction ms rule: rev_induct)
  case (snoc m ms)
  then have "indexes (hm_put (m_usr m) (length (map m_usr ms)) (index_methods ms)) (map m_usr ms @ [m_usr m])"
    by (intro indexes_snoc) auto
  then show ?case by (simp add: index_methods_def enumerate_append_eq)
qed (simp add: index_methods_def)

lemma merge_methods_more:
  "merge_methods (merged m_usr merge_method ms) incoming = merged m_usr merge_method (ms @ incoming)"
proof -
  have "indexes (index_methods (merged m_usr merge_method ms)) (first_keys (map m_usr ms))"
    using indexes_index_methods [of "merged m_usr merge_method ms"] by (simp add: methods.map_key_merged)
  from merge_fold_from [OF this, of merge_method incoming] show ?thesis by (simp add: merge_methods_def)
qed

text \<open>
  Of several definitions of a method the one that is kept: the first with a body, else the first.
  Only default values are taken from the others.
\<close>

definition no_defaults :: "param list \<Rightarrow> param list" where
  "no_defaults ps = map (\<lambda>p. Param (p_name p) (p_ty p) None) ps"

definition kept_method :: "ir_method list \<Rightarrow> ir_method" where
  "kept_method ms = (case List.find (\<lambda>m. m_body m \<noteq> None) ms of Some m \<Rightarrow> m | None \<Rightarrow> hd ms)"

definition same_method :: "ir_method \<Rightarrow> ir_method \<Rightarrow> bool" where
  "same_method m m' \<longleftrightarrow>
     m\<lparr>m_params := no_defaults (m_params m)\<rparr> = m'\<lparr>m_params := no_defaults (m_params m')\<rparr>"

lemma no_defaults_fill [simp]: "no_defaults (fill_defaults ps qs) = no_defaults ps"
  by (induction ps qs rule: fill_defaults.induct) (simp_all add: no_defaults_def)

lemma same_method_body: "same_method m m' \<Longrightarrow> m_body m = m_body m'"
  unfolding same_method_def by (drule arg_cong [where f = m_body]) simp

lemma kept_method_cases:
  obtains k where "List.find (\<lambda>m. m_body m \<noteq> None) ms = Some k" "kept_method ms = k" "m_body k \<noteq> None"
  | "List.find (\<lambda>m. m_body m \<noteq> None) ms = None" "kept_method ms = hd ms" "ms \<noteq> [] \<Longrightarrow> m_body (hd ms) = None"
proof (cases "List.find (\<lambda>m. m_body m \<noteq> None) ms")
  case None
  then have "m_body (hd ms) = None" if "ms \<noteq> []"
    using hd_in_set [OF that] by (simp add: find_None_iff)
  with None that(2) show ?thesis by (simp add: kept_method_def)
next
  case (Some k)
  then have "m_body k \<noteq> None" by (auto simp: find_Some_iff)
  with Some that(1) show ?thesis by (simp add: kept_method_def)
qed

lemma kept_method_snoc:
  "ms \<noteq> [] \<Longrightarrow> kept_method (ms @ [x]) =
    (if m_body (kept_method ms) = None \<and> m_body x \<noteq> None then x else kept_method ms)"
  by (rule kept_method_cases [of ms]) (auto simp: kept_method_def find_append)

lemma kept_method_merge:
  assumes "same_method m (kept_method ms)" and "ms \<noteq> []"
  shows "same_method (merge_method m x) (kept_method (ms @ [x]))"
  using assms same_method_body [OF assms(1)]
  by (auto simp: merge_method_def kept_method_snoc same_method_def)

lemma kept_methods:
  assumes "m \<in> set (merged m_usr merge_method ms)"
  shows "same_method m (kept_method (filter (\<lambda>x. m_usr x = m_usr m) ms))"
proof -
  from assms obtain u where u: "u \<in> m_usr ` set ms" "m = merged_entry m_usr merge_method ms u"
    by (auto simp: methods.set_merged)
  have "same_method (merged_entry m_usr merge_method ms u) (kept_method (filter (\<lambda>m. m_usr m = u) ms))"
    by (rule methods.merged_entry_induct [OF u(1), where P = "\<lambda>ms m. same_method m (kept_method ms)"])
      (simp_all add: kept_method_merge, simp add: kept_method_def same_method_def)
  then show ?thesis using methods.key_merged_entry [OF u(1)] by (simp add: u(2))
qed

text \<open>
  Constructors always have a body: the first is kept, and each parameter without a default value
  takes the first one any of the others has for it.
\<close>

definition upgrade_constructor :: "ir_constructor \<Rightarrow> ir_constructor \<Rightarrow> ir_constructor" where
  "upgrade_constructor e c = e\<lparr>c_params := fill_defaults (c_params e) (c_params c)\<rparr>"

interpretation constructors: keyed_merge c_usr upgrade_constructor
  by unfold_locales (simp add: upgrade_constructor_def)

lemma merge_constructor_new: "c_usr c \<notin> c_usr ` set cs \<Longrightarrow> merge_constructor c cs = cs @ [c]"
  by (induction c cs rule: merge_constructor.induct) auto

lemma merge_constructor_old:
  assumes "distinct (map c_usr cs)" and "i < length cs" and "c_usr (cs ! i) = c_usr c"
  shows "merge_constructor c cs = cs[i := upgrade_constructor (cs ! i) c]"
  using assms
proof (induction c cs arbitrary: i rule: merge_constructor.induct)
  case (2 c e es)
  show ?case
  proof (cases i)
    case 0
    with 2 show ?thesis by (simp add: upgrade_constructor_def)
  next
    case (Suc j)
    with 2 have "es ! j \<in> set es" "c_usr (es ! j) = c_usr c" "c_usr e \<notin> c_usr ` set es" by simp_all
    then have "c_usr e \<noteq> c_usr c" by (metis imageI)
    with 2 Suc show ?thesis by simp
  qed
qed simp

lemma merge_constructor_merged:
  "merge_constructor c (merged c_usr upgrade_constructor cs) = merged c_usr upgrade_constructor (cs @ [c])"
proof (cases "c_usr c \<in> c_usr ` set cs")
  case True
  let ?ks = "first_keys (map c_usr cs)"
  from True have "c_usr c \<in> set ?ks" by simp
  then obtain i where i: "i < length ?ks" "?ks ! i = c_usr c" unfolding in_set_conv_nth by blast
  moreover have "c_usr (merged c_usr upgrade_constructor cs ! i) = ?ks ! i"
    using i(1) constructors.map_key_merged [of cs] nth_map [of i "merged c_usr upgrade_constructor cs" c_usr] by simp
  ultimately show ?thesis
    using merge_constructor_old [of "merged c_usr upgrade_constructor cs" i c] merged_snoc_old [OF i, of upgrade_constructor]
    by (simp add: constructors.map_key_merged)
next
  case False
  moreover have "c_usr ` set (merged c_usr upgrade_constructor cs) = c_usr ` set cs"
    using arg_cong [OF constructors.map_key_merged [of cs], of set] by simp
  ultimately show ?thesis by (simp add: merge_constructor_new merged_snoc_new)
qed

lemma merge_constructors_more:
  "merge_constructors (merged c_usr upgrade_constructor cs) incoming =
    merged c_usr upgrade_constructor (cs @ incoming)"
  unfolding merge_constructors_def
  by (induction incoming arbitrary: cs) (simp_all add: merge_constructor_merged)

definition default_at :: "nat \<Rightarrow> param list \<Rightarrow> expr option" where
  "default_at i ps = (if i < length ps then p_default (ps ! i) else None)"

definition first_default :: "nat \<Rightarrow> param list list \<Rightarrow> expr option" where
  "first_default i pss = (case filter_map (default_at i) pss of [] \<Rightarrow> None | e # es \<Rightarrow> Some e)"

lemma default_at_simps [simp]:
  "default_at i [] = None"
  "default_at 0 (p # ps) = p_default p"
  "default_at (Suc i) (p # ps) = default_at i ps"
  by (simp_all add: default_at_def)

lemma default_at_fill:
  "i < length ps \<Longrightarrow> default_at i (fill_defaults ps qs) =
    (case default_at i ps of None \<Rightarrow> default_at i qs | Some e \<Rightarrow> Some e)"
proof (induction ps qs arbitrary: i rule: fill_defaults.induct)
  case (1 p ps q qs)
  then show ?case by (cases i) (auto split: option.split)
qed (auto split: option.split)

lemma length_fill_defaults [simp]: "length (fill_defaults ps qs) = length ps"
  by (induction ps qs rule: fill_defaults.induct) auto

lemma first_default_snoc:
  "first_default i (pss @ [ps]) = (case first_default i pss of None \<Rightarrow> default_at i ps | Some e \<Rightarrow> Some e)"
  by (auto simp: first_default_def filter_map_append split: list.split option.split)

definition kept_constructor :: "ir_constructor list \<Rightarrow> ir_constructor \<Rightarrow> bool" where
  "kept_constructor cs c \<longleftrightarrow>
     c\<lparr>c_params := no_defaults (c_params c)\<rparr> = (hd cs)\<lparr>c_params := no_defaults (c_params (hd cs))\<rparr> \<and>
     (\<forall>i < length (c_params c). p_default (c_params c ! i) = first_default i (map c_params cs))"

lemma kept_constructor_merge:
  assumes "kept_constructor cs c" and "cs \<noteq> []"
  shows "kept_constructor (cs @ [x]) (upgrade_constructor c x)"
proof -
  have "p_default (fill_defaults (c_params c) (c_params x) ! i) = first_default i (map c_params (cs @ [x]))"
    if "i < length (c_params c)" for i
    using default_at_fill [OF that, of "c_params x"] that assms(1)
    by (simp add: default_at_def [of i "fill_defaults (c_params c) (c_params x)"]
        default_at_def [of i "c_params c"] first_default_snoc kept_constructor_def)
  then show ?thesis using assms by (simp add: kept_constructor_def upgrade_constructor_def)
qed

lemma kept_constructors:
  assumes "c \<in> set (merged c_usr upgrade_constructor cs)"
  shows "kept_constructor (filter (\<lambda>x. c_usr x = c_usr c) cs) c"
proof -
  from assms obtain u where u: "u \<in> c_usr ` set cs" "c = merged_entry c_usr upgrade_constructor cs u"
    by (auto simp: constructors.set_merged)
  have "kept_constructor [x] x" for x
    by (simp add: kept_constructor_def first_default_def default_at_def split: option.split)
  then have "kept_constructor (filter (\<lambda>c. c_usr c = u) cs) (merged_entry c_usr upgrade_constructor cs u)"
    by (intro constructors.merged_entry_induct [OF u(1), where P = kept_constructor]) (simp_all add: kept_constructor_merge)
  then show ?thesis using constructors.key_merged_entry [OF u(1)] by (simp add: u(2))
qed

lemma merge_ir_record_usr: "r_usr (merge_ir_record x y) = r_usr x"
  by (simp add: merge_ir_record_def)

interpretation records: keyed_merge r_usr merge_ir_record
  by unfold_locales (rule merge_ir_record_usr)

text \<open>
  What a merged record is, compared with the partial records of its USR in the order of the workers:
  its own data are those of the first; its methods and constructors are those of all of them, each
  once in the order of first appearance, with the body that is kept; its destructor is the first.
\<close>

definition merged_from :: "ir_record list \<Rightarrow> ir_record \<Rightarrow> bool" where
  "merged_from rs r \<longleftrightarrow>
     (let ms = concat (map r_methods rs); cs = concat (map r_constructors rs);
          ds = filter_map r_destructor rs in
      r = (hd rs)\<lparr>r_methods := r_methods r, r_constructors := r_constructors r, r_destructor := r_destructor r\<rparr> \<and>
      map m_usr (r_methods r) = first_keys (map m_usr ms) \<and>
      (\<forall>m \<in> set (r_methods r). same_method m (kept_method (filter (\<lambda>x. m_usr x = m_usr m) ms))) \<and>
      map c_usr (r_constructors r) = first_keys (map c_usr cs) \<and>
      (\<forall>c \<in> set (r_constructors r). kept_constructor (filter (\<lambda>x. c_usr x = c_usr c) cs) c) \<and>
      r_destructor r = (case ds of [] \<Rightarrow> None | d # _ \<Rightarrow> Some d))"

definition members_once :: "ir_record \<Rightarrow> bool" where
  "members_once r \<longleftrightarrow> distinct (map m_usr (r_methods r)) \<and> distinct (map c_usr (r_constructors r))"

definition record_of :: "ir_record list \<Rightarrow> ir_record" where
  "record_of rs =
     (hd rs)\<lparr>r_methods := merged m_usr merge_method (concat (map r_methods rs)),
       r_constructors := merged c_usr upgrade_constructor (concat (map r_constructors rs)),
       r_destructor := (case filter_map r_destructor rs of [] \<Rightarrow> None | d # _ \<Rightarrow> Some d)\<rparr>"

lemma record_of_single: "members_once r \<Longrightarrow> record_of [r] = r"
  by (cases "r_destructor r") (simp_all add: record_of_def members_once_def merged_distinct)

lemma record_of_snoc: "rs \<noteq> [] \<Longrightarrow> merge_ir_record (record_of rs) x = record_of (rs @ [x])"
  by (auto simp: merge_ir_record_def record_of_def merge_methods_more merge_constructors_more
      filter_map_append split: option.split list.split)

lemma merged_record_of:
  assumes "u \<in> r_usr ` set rs" and "\<And>r. r \<in> set rs \<Longrightarrow> members_once r"
  shows "merged_entry r_usr merge_ir_record rs u = record_of (filter (\<lambda>r. r_usr r = u) rs)"
  by (rule records.merged_entry_induct [OF assms(1), where P = "\<lambda>rs r. r = record_of rs"])
    (simp_all add: record_of_single assms(2) record_of_snoc)

lemma merged_from_record_of: "merged_from rs (record_of rs)"
  by (simp add: merged_from_def Let_def record_of_def methods.map_key_merged constructors.map_key_merged
      kept_methods kept_constructors)

section \<open>The files of a project\<close>

lemma finish_source_files_sorted:
  assumes "finite translation_units" "finite headers"
  shows "map sf_path (finish_source_files translation_units headers) =
      sorted_list_of_set (translation_units \<union> headers)"
    and "set (finish_source_files translation_units headers) =
      (\<lambda>p. \<lparr>sf_path = p, sf_kind = SfTranslationUnit\<rparr>) ` translation_units \<union>
      (\<lambda>p. \<lparr>sf_path = p, sf_kind = SfHeader\<rparr>) ` (headers - translation_units)"
proof -
  let ?files = "map (\<lambda>path. \<lparr>sf_path = path, sf_kind = SfTranslationUnit\<rparr>)
          (sorted_list_of_set translation_units) @
        map (\<lambda>path. \<lparr>sf_path = path, sf_kind = SfHeader\<rparr>)
          (sorted_list_of_set (headers - translation_units))"
  have "map sf_path (sort_key sf_path ?files) = sort (map sf_path ?files)"
    using sort_key_map [of "\<lambda>x. x" sf_path ?files] by (simp add: comp_def)
  also have "map sf_path ?files = sorted_list_of_set translation_units @ sorted_list_of_set (headers - translation_units)"
    by (simp add: comp_def)
  also have "sort \<dots> = sorted_list_of_set (set \<dots>)"
    using assms by (intro sort_distinct) auto
  finally show "map sf_path (finish_source_files translation_units headers) =
      sorted_list_of_set (translation_units \<union> headers)"
    using assms by (simp add: finish_source_files_def)
  show "set (finish_source_files translation_units headers) =
      (\<lambda>p. \<lparr>sf_path = p, sf_kind = SfTranslationUnit\<rparr>) ` translation_units \<union>
      (\<lambda>p. \<lparr>sf_path = p, sf_kind = SfHeader\<rparr>) ` (headers - translation_units)"
    using assms by (simp add: finish_source_files_def)
qed

section \<open>Properties\<close>

text \<open>
  However the declarations are spread over the workers, the merged catalog lists each identity
  once, in the order of first appearance, and under it the first declaration with a definition when
  any worker saw one, else the first declaration.
\<close>

theorem merged_declarations:
  "snd (cm_declarations (merge_function_partials partials)) =
    (let ds = concat (map fp_declarations partials)
     in map (\<lambda>k. let same = filter (\<lambda>d. function_identity d = k) ds
          in case List.find fd_has_definition same of Some d \<Rightarrow> d | None \<Rightarrow> hd same)
        (first_keys (map function_identity ds)))"
  unfolding merge_function_partials_def merge_function_partials_fields merge_start_def
    push_declaration_into_step catalog_merge.simps merge_fold merged_prefer_definition same_key_def
    keys_of_def Let_def by (rule refl)

text \<open>
  The merged functions are one per USR, in the order of first appearance, and apart from default
  values of parameters each is the first lowering of a definition when any worker saw one, else the
  first prototype.
\<close>

theorem merged_functions:
  "map without_defaults (fm_functions (cm_functions (merge_function_partials partials))) =
    (let entries = concat (map (\<lambda>p. zip (fp_functions p) (fp_is_prototype p)) partials)
     in map (\<lambda>u. without_defaults (winning_function (filter (\<lambda>e. f_usr (fst e) = u) entries)))
        (first_keys (map (\<lambda>e. f_usr (fst e)) entries)))"
proof -
  let ?entries = "concat (map (\<lambda>p. zip (fp_functions p) (fp_is_prototype p)) partials)"
  let ?key = "\<lambda>e. f_usr (fst e) :: string"
  let ?empty = "\<lparr>fm_index = [], fm_is_prototype = [], fm_functions = []\<rparr>"
  have "tells_prototypes ?empty (merged ?key upgrade_function [])"
    by (simp add: tells_prototypes_def)
  from merge_ir_functions_fold [OF this, of ?entries]
  have "fm_functions (fold merge_ir_function ?entries ?empty) =
      map fst (merged ?key upgrade_function ?entries)"
    by (simp add: tells_prototypes_def)
  moreover have "without_defaults (fst (merged_entry ?key upgrade_function ?entries u)) =
      without_defaults (winning_function (filter (\<lambda>e. ?key e = u) ?entries))"
    if "u \<in> set (first_keys (map ?key ?entries))" for u
    using list_of_nonempty [OF same_key_nonempty [of u ?key ?entries]] that
      foldl_upgrade_function_winner
    by (auto simp: merged_entry_def Let_def same_key_def keys_of_def)
  ultimately show ?thesis
    by (simp add: merge_function_partials_def merge_function_partials_fields merge_start_def
        merged_def Let_def comp_def)
qed

text \<open>
  C8. The merge lists one record per USR, in the order the workers' records first appear, and loses
  none of the members the workers saw. Where each worker lists the methods and constructors of a
  record once, a merged record has the methods of all its partial records, each once, and of each
  the first definition that has a body, or the first declaration where none has; the constructors of
  all of them, each with the body and the initialisers of the first and, for every parameter, the
  first default value any of them gives it; the first destructor; and, for the rest, the data of the
  first partial record.
\<close>

theorem merged_records:
  assumes "list_all members_once (concat (map fp_records partials))"
  shows "map r_usr (snd (cm_records (merge_function_partials partials))) =
      first_keys (map r_usr (concat (map fp_records partials))) \<and>
    (\<forall>r \<in> set (snd (cm_records (merge_function_partials partials))).
       merged_from (filter (\<lambda>x. r_usr x = r_usr r) (concat (map fp_records partials))) r)"
proof -
  let ?rs = "concat (map fp_records partials)"
  have eq: "snd (cm_records (merge_function_partials partials)) = merged r_usr merge_ir_record ?rs"
    by (simp add: merge_function_partials_def merge_function_partials_fields merge_start_def merge_fold)
  have "merged_from (filter (\<lambda>x. r_usr x = r_usr r) ?rs) r"
    if "r \<in> set (merged r_usr merge_ir_record ?rs)" for r
  proof -
    from that have "r \<in> merged_entry r_usr merge_ir_record ?rs ` r_usr ` set ?rs"
      by (simp only: records.set_merged)
    then obtain u where u: "u \<in> r_usr ` set ?rs" "r = merged_entry r_usr merge_ir_record ?rs u"
      by (rule imageE)
    have "r_usr r = u" unfolding u(2) by (rule records.key_merged_entry [OF u(1)])
    moreover have "r = record_of (filter (\<lambda>x. r_usr x = u) ?rs)"
      unfolding u(2) by (rule merged_record_of [OF u(1)]) (use assms in \<open>auto simp: list_all_iff\<close>)
    ultimately show ?thesis by (metis merged_from_record_of)
  qed
  then show ?thesis unfolding eq by (simp only: records.map_key_merged) blast
qed

text \<open>
  The type catalog lists each identity once, in the order of first appearance, with the first
  declaration of it; the dependencies are those any worker reported, self-references dropped, and the
  usages those any worker reported, each once.
\<close>

theorem type_catalog_merged:
  "let c = finish_type_catalog partials; ds = concat (map fst partials) in
    tc_declarations c = map (\<lambda>k. hd (filter (\<lambda>d. type_identity d = k) ds)) (first_keys (map type_identity ds)) \<and>
    tc_dependencies c =
      first_keys (filter (\<lambda>d. dp_caller d \<noteq> dp_callee d) (concat (map (\<lambda>p. fst (snd p)) partials))) \<and>
    tc_usages c = first_keys (concat (map (\<lambda>p. snd (snd p)) partials))"
  by (simp add: finish_type_catalog_def Let_def merge_type_partials_fields push_new_fold
      push_dependencies_fold merged_injective_key identity_keys_inj)
    (simp add: merged_def merged_keep_first_entry)

definition sample_record :: "ir_method list \<Rightarrow> ir_record" where
  "sample_record ms =
     \<lparr>r_name = ''R'', r_usr = ''r'', r_namespace = [], r_fields = [], r_static_fields = [],
      r_constructors = [], r_methods = ms, r_base_class = None, r_mixins = [], r_library_base = None,
      r_destructor = None, r_origin = \<lparr>o_file = ''a.cpp'', o_line = 1, o_column = 1\<rparr>\<rparr>"

definition sample_member :: "string \<Rightarrow> stmt list option \<Rightarrow> ir_method" where
  "sample_member usr body =
     \<lparr>m_name = usr, m_usr = usr, m_params = [], m_return_type = TVoid, m_body = body, m_is_static = False,
      m_is_override = False, m_origin = \<lparr>o_file = ''a.cpp'', o_line = 2, o_column = 1\<rparr>\<rparr>"

definition sample_stmt :: stmt where
  "sample_stmt = SReturn None \<lparr>o_file = ''a.cpp'', o_line = 3, o_column = 1\<rparr>"

definition sample_partial :: "ir_method list \<Rightarrow> function_partial" where
  "sample_partial ms =
     \<lparr>fp_declarations = [], fp_calls = [], fp_functions = [], fp_is_prototype = [],
      fp_records = [sample_record ms], fp_enums = []\<rparr>"

text \<open>
  One worker saw the header, with a pure virtual method; another the body of it, a third another body.
\<close>

theorem merged_records_witness:
  "map (\<lambda>r. map (\<lambda>m. (m_usr m, m_body m)) (r_methods r)) (snd (cm_records (merge_function_partials
      [sample_partial [sample_member ''m'' None],
       sample_partial [sample_member ''n'' (Some []), sample_member ''m'' (Some [sample_stmt])],
       sample_partial [sample_member ''m'' (Some [])]]))) =
    [[(''m'', Some [sample_stmt]), (''n'', Some [])]]"
proof -
  let ?ps = "[sample_partial [sample_member ''m'' None],
       sample_partial [sample_member ''n'' (Some []), sample_member ''m'' (Some [sample_stmt])],
       sample_partial [sample_member ''m'' (Some [])]]"
  let ?all = "concat (map fp_records ?ps)"
  let ?rs = "snd (cm_records (merge_function_partials ?ps))"
  have "list_all members_once ?all" by code_simp
  from merged_records [OF this] have usr: "map r_usr ?rs = [''r'']"
    and members: "\<forall>r \<in> set ?rs. merged_from (filter (\<lambda>x. r_usr x = r_usr r) ?all) r"
    by (simp_all add: sample_partial_def sample_record_def first_keys_def)
  obtain r where r: "?rs = [r]" using usr by (cases ?rs) auto
  have ms: "concat (map r_methods (filter (\<lambda>x. r_usr x = ''r'') ?all)) =
      [sample_member ''m'' None, sample_member ''n'' (Some []), sample_member ''m'' (Some [sample_stmt]),
       sample_member ''m'' (Some [])]"
    by (simp add: sample_partial_def sample_record_def)
  have "merged_from (filter (\<lambda>x. r_usr x = ''r'') ?all) r" using members usr unfolding r by simp
  then have usrs: "map m_usr (r_methods r) = [''m'', ''n'']"
    and kept: "m \<in> set (r_methods r) \<Longrightarrow> same_method m (kept_method (filter (\<lambda>x. m_usr x = m_usr m)
      [sample_member ''m'' None, sample_member ''n'' (Some []), sample_member ''m'' (Some [sample_stmt]),
       sample_member ''m'' (Some [])]))" for m
    unfolding merged_from_def Let_def ms by (simp_all add: sample_member_def first_keys_def)
  from usrs obtain m n where mn: "r_methods r = [m, n]" "m_usr m = ''m''" "m_usr n = ''n''" by auto
  have "m_body m = Some [sample_stmt]" "m_body n = Some []"
    using same_method_body [OF kept, of m] same_method_body [OF kept, of n] mn
    by (simp_all add: kept_method_def sample_member_def)
  then show ?thesis using r mn by simp
qed

end
