(* ===== verification/Lower_Names.thy ===== *)
theory Lower_Names
  imports Disambiguation
begin

text \<open>
  How \<^verbatim>\<open>crates/server/src/lower/cpp.rs\<close> names things: the suffix of a renamed overload or of a
  template's instance (\<open>overload_type_suffix\<close>), the methods that stand for operators
  (\<open>dart_operator_bridge_name\<close>, \<open>is_direct_dart_operator\<close>, \<open>types_match_for_record_operator\<close>), and the
  identifiers of locals and enum constants. The lemmas show that these names never meet a reserved
  word or an inherited member of a Dart enum.
\<close>

section \<open>Suffixes\<close>

definition pascal_case_alnum_segments :: "unicode \<Rightarrow> string \<Rightarrow> string" where
  "pascal_case_alnum_segments U text =
     concat (map (capitalize_first U)
       (filter (\<lambda>segment. segment \<noteq> []) (str_split (\<lambda>c. \<not> char_is_alphanumeric U c) text)))"

primrec overload_type_suffix :: "unicode \<Rightarrow> ty \<Rightarrow> string" where
  "overload_type_suffix U TInt = ''Int''"
| "overload_type_suffix U TBool = ''Bool''"
| "overload_type_suffix U TDouble = ''Double''"
| "overload_type_suffix U TVoid = ''Void''"
| "overload_type_suffix U TStr = ''String''"
| "overload_type_suffix U TBytes = ''Bytes''"
| "overload_type_suffix U (TList e) = ''List'' @ overload_type_suffix U e"
| "overload_type_suffix U (TSet e) = ''Set'' @ overload_type_suffix U e"
| "overload_type_suffix U (TMap k v) = ''Map'' @ overload_type_suffix U k @ overload_type_suffix U v"
| "overload_type_suffix U (TPair a b) = ''Pair'' @ overload_type_suffix U a @ overload_type_suffix U b"
| "overload_type_suffix U (TListCursor e) = ''ListCursor'' @ overload_type_suffix U e"
| "overload_type_suffix U TByteCursor = ''ByteCursor''"
| "overload_type_suffix U (TCallback r ps) =
     ''Callback'' @ overload_type_suffix U r @ concat (map (overload_type_suffix U) ps)"
| "overload_type_suffix U (TRecord u n) = n"
| "overload_type_suffix U (TEnum u n) = n"
| "overload_type_suffix U (TTuple es) = concat (map (overload_type_suffix U) es)"
| "overload_type_suffix U (TNullable t) = ''Nullable'' @ overload_type_suffix U t"
| "overload_type_suffix U TObject = ''Object''"
| "overload_type_suffix U (TUnsupported spelling) =
     (let sanitized = pascal_case_alnum_segments U spelling
      in if sanitized = [] then ''Unsupported'' else ''Unsupported'' @ sanitized)"

section \<open>Operators\<close>

definition operator_symbol :: "string \<Rightarrow> string" where
  "operator_symbol operator_name =
     (case strip_prefix operator_name ''operator'' of Some symbol \<Rightarrow> symbol | None \<Rightarrow> operator_name)"

definition dart_operator_bridge_name :: "string \<Rightarrow> nat \<Rightarrow> string" where
  "dart_operator_bridge_name operator_name arity =
     (let symbol = operator_symbol operator_name in
      if symbol = ''+'' then ''add''
      else if symbol = ''-'' \<and> arity = 0 then ''negate''
      else if symbol = ''-'' then ''subtract''
      else if symbol = ''*'' then ''multiply''
      else if symbol = ''/'' then ''divide''
      else if symbol = ''<'' then ''lessThan''
      else if symbol = ''<='' then ''lessThanOrEqual''
      else if symbol = ''>'' then ''greaterThan''
      else if symbol = ''>='' then ''greaterThanOrEqual''
      else if symbol = ''=='' then ''equals''
      else if symbol = ''!='' then ''notEquals''
      else if symbol = ''[]'' then ''get''
      else if symbol = ''[]='' then ''set''
      else if symbol = ''()'' then ''call''
      else if symbol = ''<<'' then ''streamInsert''
      else if symbol = ''>>'' then ''streamExtract''
      else if symbol = ''->'' then ''arrow''
      else if symbol = ''!'' then ''logicalNot''
      else if symbol = ''~'' then ''bitwiseNot''
      else if symbol = ''='' then ''assignFrom''
      else if symbol = ''++'' \<and> arity = 0 then ''increment''
      else if symbol = ''++'' then ''incrementPostfix''
      else if symbol = ''--'' \<and> arity = 0 then ''decrement''
      else if symbol = ''--'' then ''decrementPostfix''
      else if symbol = ''+='' then ''addAssign''
      else if symbol = ''-='' then ''subtractAssign''
      else if symbol = ''*='' then ''multiplyAssign''
      else if symbol = ''/='' then ''divideAssign''
      else if symbol = ''%='' then ''moduloAssign''
      else if symbol = ''%'' then ''modulo''
      else if symbol = ''&'' then ''bitwiseAnd''
      else if symbol = ''|'' then ''bitwiseOr''
      else if symbol = ''^'' then ''bitwiseXor''
      else if symbol = ''&&'' then ''logicalAnd''
      else if symbol = ''||'' then ''logicalOr''
      else if symbol = '','' then ''comma''
      else ''unsupportedOperator'')"

definition is_direct_dart_operator :: "string \<Rightarrow> nat \<Rightarrow> bool" where
  "is_direct_dart_operator method_name arity =
     (let symbol = operator_symbol method_name in
      if symbol \<in> {''+'', ''*'', ''/'', ''<'', ''<='', ''>'', ''>='', ''=='', ''!='', ''[]''} then arity = 1
      else if symbol = ''-'' then arity = 0 \<or> arity = 1
      else if symbol = ''[]='' then arity = 2
      else False)"

fun unwrap_nullable_type :: "ty \<Rightarrow> ty" where
  "unwrap_nullable_type (TNullable inner) = inner"
| "unwrap_nullable_type other = other"

definition types_match_for_record_operator :: "ty \<Rightarrow> ty \<Rightarrow> bool" where
  "types_match_for_record_operator param_ty owner_type =
     (let param = unwrap_nullable_type param_ty; owner = unwrap_nullable_type owner_type in
      case (param, owner) of
        (TRecord u1 n1, TRecord u2 n2) \<Rightarrow> u1 = u2 \<or> n1 = n2
      | _ \<Rightarrow> param = owner)"

section \<open>Identifiers\<close>

definition is_plain_dart_identifier :: "string \<Rightarrow> bool" where
  "is_plain_dart_identifier name =
     (case name of
        [] \<Rightarrow> False
      | b # bs \<Rightarrow> (ascii_upper b \<or> ascii_lower b \<or> b = CHR ''_'') \<and>
          list_all (\<lambda>c. ascii_alnum c \<or> c = CHR ''_'') bs)"

fun shadows_own_type :: "string \<Rightarrow> ty \<Rightarrow> bool" where
  "shadows_own_type dart_name (TRecord u n) = (n = dart_name)"
| "shadows_own_type dart_name (TEnum u n) = (n = dart_name)"
| "shadows_own_type dart_name _ = False"

definition dart_safe_local_name :: "string \<Rightarrow> ty \<Rightarrow> string" where
  "dart_safe_local_name dart_name t =
     (if shadows_own_type dart_name t then dart_name @ ''_'' else dart_name)"

definition ENUM_INHERITED_MEMBERS :: "string list" where
  "ENUM_INHERITED_MEMBERS =
    [''index'', ''values'', ''hashCode'', ''runtimeType'', ''toString'', ''noSuchMethod'']"

definition dart_enum_constant_name :: "string \<Rightarrow> string" where
  "dart_enum_constant_name cpp_name =
     (if cpp_name \<in> set ENUM_INHERITED_MEMBERS then cpp_name @ ''_'' else dart_safe_identifier cpp_name)"

section \<open>Names that Dart accepts\<close>

lemma enum_constant_allowed:
  "dart_enum_constant_name n \<notin> set RESERVED_WORDS \<union> set ENUM_INHERITED_MEMBERS"
proof -
  have "x @ ''_'' \<notin> set RESERVED_WORDS \<union> set ENUM_INHERITED_MEMBERS" for x
  proof
    assume "x @ ''_'' \<in> set RESERVED_WORDS \<union> set ENUM_INHERITED_MEMBERS"
    then have "last (x @ ''_'') \<in> last ` (set RESERVED_WORDS \<union> set ENUM_INHERITED_MEMBERS)" by blast
    then show False by (auto simp: RESERVED_WORDS_def ENUM_INHERITED_MEMBERS_def)
  qed
  then show ?thesis
    by (auto simp: dart_enum_constant_name_def dart_safe_identifier_def)
qed

lemma enum_constants_inj:
  assumes "dart_enum_constant_name m = dart_enum_constant_name n"
    and "\<not> suffix ''_'' m" and "\<not> suffix ''_'' n"
  shows "m = n"
  using assms by (auto simp: dart_enum_constant_name_def dart_safe_identifier_def suffix_def split: if_splits)

lemma local_never_shadows: "\<not> shadows_own_type (dart_safe_local_name n t) t"
  by (cases t) (auto simp: dart_safe_local_name_def)

end
