(* ===== verification/Overloads.thy ===== *)
theory Overloads
  imports Lower_Names Overload_Options
begin

text \<open>
  \<open>apply_overload_renames\<close> of \<^verbatim>\<open>crates/server/src/function_catalog.rs\<close>: every group of declarations with
  the same owner and name is put to \<open>overload_options_for\<close>, which decides how its members are renamed,
  and names that still meet get an ordinal. The lemmas show that the members of a group end up with
  names of their own, that nothing outside a group of two or more is renamed, and, on a concrete
  group, where an ordinal can meet another member's name.
\<close>

type_synonym group_key = "string option \<times> string"
type_synonym params_index = "(string \<times> param list) list"

section \<open>Groups and indexes\<close>

definition overload_groups :: "function_declaration list \<Rightarrow> (group_key \<times> function_declaration list) list" where
  "overload_groups declarations =
     fold (\<lambda>d groups.
             if fd_kind d = FdFreeFunction \<or> fd_kind d = FdMethod
             then entry_push map_of bt_put (fd_owning_class_usr d, fd_name d) d groups
             else groups)
       declarations []"

definition function_params :: "ir_function list \<Rightarrow> params_index" where
  "function_params fs = fold (\<lambda>f. hm_put (f_usr f) (f_params f)) fs []"

definition method_params :: "ir_record list \<Rightarrow> params_index" where
  "method_params rs = fold (\<lambda>r. fold (\<lambda>m. hm_put (m_usr m) (m_params m)) (r_methods r)) rs []"

definition dart_overload_name :: "unicode \<Rightarrow> string \<Rightarrow> param list \<Rightarrow> string" where
  "dart_overload_name U stem params =
     stem @ concat (map (\<lambda>p. overload_type_suffix U (p_ty p)) params)"

section \<open>The renames of one group\<close>

definition static_renames :: "string \<Rightarrow> function_declaration list \<Rightarrow> renames \<Rightarrow> renames" where
  "static_renames name group_members rn =
     fold (\<lambda>d rn. if fd_is_static d then hm_put (fd_usr d) (name @ ''Static'') rn else rn)
       group_members rn"

text \<open>Which overload of a bucket keeps the operator: the one that takes the owner's type, else the first.\<close>

definition native_overload ::
  "params_index \<Rightarrow> ir_record option \<Rightarrow> function_declaration list \<Rightarrow> function_declaration" where
  "native_overload methods owning_record bucket =
     (case owning_record of
        None \<Rightarrow> hd bucket
      | Some r \<Rightarrow>
          (case List.find (\<lambda>d. case map_of methods (fd_usr d) of
                 Some (p # _) \<Rightarrow> types_match_for_record_operator (p_ty p) (TRecord (r_usr r) (r_name r))
               | _ \<Rightarrow> False) bucket of
             Some d \<Rightarrow> d
           | None \<Rightarrow> hd bucket))"

definition bucket_renames ::
  "unicode \<Rightarrow> string \<Rightarrow> params_index \<Rightarrow> ir_record option \<Rightarrow> nat \<times> function_declaration list \<Rightarrow>
   renames \<Rightarrow> renames" where
  "bucket_renames U name methods owning_record entry rn =
     (let arity = fst entry; bucket = snd entry; is_direct = is_direct_dart_operator name arity in
      if length bucket = 1 \<and> is_direct then rn
      else
        (let native = (if is_direct then Some (native_overload methods owning_record bucket) else None)
         in fold (\<lambda>d rn.
              if map_option fd_usr native = Some (fd_usr d) then rn
              else
                (let params = (case map_of methods (fd_usr d) of Some ps \<Rightarrow> ps | None \<Rightarrow> [])
                 in hm_put (fd_usr d)
                      (dart_operator_bridge_name name arity @ dart_overload_name U [] params) rn))
            bucket rn))"

definition arity_buckets ::
  "params_index \<Rightarrow> function_declaration list \<Rightarrow> (nat \<times> function_declaration list) list" where
  "arity_buckets methods group_members =
     fold (\<lambda>d. entry_push map_of bt_put
             (case map_of methods (fd_usr d) of Some ps \<Rightarrow> length ps | None \<Rightarrow> 0) d)
       group_members []"

definition member_operator_renames ::
  "unicode \<Rightarrow> ir_record list \<Rightarrow> params_index \<Rightarrow> string \<Rightarrow> string \<Rightarrow> function_declaration list \<Rightarrow>
   renames \<Rightarrow> renames" where
  "member_operator_renames U rs methods owning_usr name group_members rn =
     fold (bucket_renames U name methods (List.find (\<lambda>r. r_usr r = owning_usr) rs))
       (arity_buckets methods group_members) rn"

definition free_operator_renames ::
  "unicode \<Rightarrow> params_index \<Rightarrow> string \<Rightarrow> function_declaration list \<Rightarrow> renames \<Rightarrow> renames" where
  "free_operator_renames U functions name group_members rn =
     fold (\<lambda>d rn.
             case map_of functions (fd_usr d) of
               Some params \<Rightarrow>
                 hm_put (fd_usr d)
                   (dart_operator_bridge_name name (length params) @ dart_overload_name U [] params) rn
             | None \<Rightarrow> rn)
       group_members rn"

definition type_renames ::
  "unicode \<Rightarrow> params_index \<Rightarrow> params_index \<Rightarrow> string \<Rightarrow> function_declaration list \<Rightarrow> renames \<Rightarrow> renames" where
  "type_renames U functions methods name group_members rn =
     fold (\<lambda>d rn.
             case (case map_of functions (fd_usr d) of Some ps \<Rightarrow> Some ps | None \<Rightarrow> map_of methods (fd_usr d)) of
               Some params \<Rightarrow>
                 hm_put (fd_usr d)
                   (dart_overload_name U name params @
                    (if signature_is_const (fd_signature d) then ''Const'' else [])) rn
             | None \<Rightarrow> rn)
       group_members rn"

definition overload_group_renames ::
  "unicode \<Rightarrow> ir_record list \<Rightarrow> params_index \<Rightarrow> params_index \<Rightarrow> project_facts \<Rightarrow>
   group_key \<times> function_declaration list \<Rightarrow> renames \<Rightarrow> renames" where
  "overload_group_renames U rs functions methods facts g rn =
     (let owning_class_usr = fst (fst g); name = snd (fst g); members = snd g in
      if length members \<le> 1 then rn
      else case overload_options_for owning_class_usr name facts of
        [] \<Rightarrow> rn
      | option # _ \<Rightarrow>
          if mo_id option = ''renomear-estatico-instancia'' then static_renames name members rn
          else if prefix ''operator'' name then
            (case owning_class_usr of
               Some owning_usr \<Rightarrow> member_operator_renames U rs methods owning_usr name members rn
             | None \<Rightarrow> free_operator_renames U functions name members rn)
          else if mo_id option = ''renomear-por-tipo'' \<or> mo_id option = ''parametro-opcional''
          then type_renames U functions methods name members rn
          else rn)"

section \<open>The ordinals\<close>

definition final_names ::
  "renames \<Rightarrow> function_declaration list \<Rightarrow> (string \<times> string list) list" where
  "final_names rn members =
     fold (\<lambda>d. entry_push map_of bt_put (renamed rn (fd_usr d) (fd_name d)) (fd_usr d)) members []"

definition ordinal_renames :: "string \<times> string list \<Rightarrow> renames \<Rightarrow> renames" where
  "ordinal_renames entry rn =
     (if length (snd entry) \<le> 1 then rn
      else fold (\<lambda>(ordinal, usr). hm_put usr (fst entry @ show_nat (ordinal + 1)))
             (drop 1 (enumerate 0 (sort (snd entry)))) rn)"

definition number_group :: "group_key \<times> function_declaration list \<Rightarrow> renames \<Rightarrow> renames" where
  "number_group g rn =
     (if length (snd g) \<le> 1 then rn else fold ordinal_renames (final_names rn (snd g)) rn)"

text \<open>The names before the ordinals, from the types, and the names the pass applies.\<close>

definition type_overload_renames ::
  "unicode \<Rightarrow> ir_function list \<Rightarrow> ir_record list \<Rightarrow> function_declaration list \<Rightarrow> call_edge list \<Rightarrow> renames" where
  "type_overload_renames U fs rs declarations calls =
     (let facts = new_full [] [] declarations calls in
      fold (overload_group_renames U rs (function_params fs) (method_params rs) facts)
        (overload_groups declarations) [])"

definition overload_renames ::
  "unicode \<Rightarrow> ir_function list \<Rightarrow> ir_record list \<Rightarrow> function_declaration list \<Rightarrow> call_edge list \<Rightarrow> renames" where
  "overload_renames U fs rs declarations calls =
     fold number_group (overload_groups declarations)
       (type_overload_renames U fs rs declarations calls)"

definition apply_overload_renames ::
  "unicode \<Rightarrow> ir_function list \<Rightarrow> ir_record list \<Rightarrow> function_declaration list \<Rightarrow> call_edge list \<Rightarrow>
   ir_function list \<times> ir_record list" where
  "apply_overload_renames U fs rs declarations calls =
     apply_renames fs rs (overload_renames U fs rs declarations calls)"

section \<open>The groups\<close>

definition overloadable :: "function_declaration \<Rightarrow> bool" where
  "overloadable d \<longleftrightarrow> fd_kind d = FdFreeFunction \<or> fd_kind d = FdMethod"

definition group_key_of :: "function_declaration \<Rightarrow> group_key" where
  "group_key_of d = (fd_owning_class_usr d, fd_name d)"

lemma overload_groups_fold:
  "overload_groups ds =
    fold (\<lambda>d. entry_push map_of bt_put (group_key_of d) d) (filter overloadable ds) []"
  unfolding overload_groups_def fold_filter
  by (intro fold_cong ext) (auto simp: overloadable_def group_key_of_def)

lemma grouped_entries:
  assumes "g \<in> set (fold (\<lambda>x. entry_push map_of bt_put (key x) (val x)) xs [])"
  shows "snd g = map val (filter (\<lambda>x. key x = fst g) xs)"
    and "g' \<in> set (fold (\<lambda>x. entry_push map_of bt_put (key x) (val x)) xs []) \<Longrightarrow> fst g' = fst g \<Longrightarrow> g' = g"
proof -
  let ?m = "fold (\<lambda>x. entry_push map_of bt_put (key x) (val x)) xs []"
  have "bt_ok ?m" by (rule btm.ok_group) (simp add: bt_ok_def)
  then have "distinct (map fst ?m)" by (rule bt_ok_distinct)
  then have get: "map_of ?m (fst h) = Some (snd h)" if "h \<in> set ?m" for h
    using that by (simp add: map_of_is_SomeI)
  from get [OF assms] show "snd g = map val (filter (\<lambda>x. key x = fst g) xs)"
    unfolding btm.get_group by (auto simp: Let_def split: if_splits)
  show "g' = g" if "g' \<in> set ?m" "fst g' = fst g"
    using get [OF assms] get [OF that(1)] that(2) by (metis option.inject prod.expand)
qed

lemma overload_group_members:
  "g \<in> set (overload_groups ds) \<Longrightarrow>
    snd g = filter (\<lambda>d. group_key_of d = fst g) (filter overloadable ds)"
  unfolding overload_groups_fold by (drule grouped_entries(1)) simp

lemma overload_groups_disjoint:
  assumes "distinct (map fd_usr ds)" and "g \<in> set (overload_groups ds)" and "h \<in> set (overload_groups ds)"
    and "d \<in> set (snd g)" and "e \<in> set (snd h)" and "fd_usr d = fd_usr e"
  shows "g = h"
proof -
  have "d \<in> set ds" "e \<in> set ds" "group_key_of d = fst g" "group_key_of e = fst h"
    using assms overload_group_members by auto
  moreover from this have "d = e" using assms(1,6) by (auto simp: distinct_map inj_on_def)
  ultimately have "fst g = fst h" by simp
  then show ?thesis
    using grouped_entries(2) [of h group_key_of "\<lambda>d. d" "filter overloadable ds" g] assms(2,3)
    unfolding overload_groups_fold by blast
qed

section \<open>Updates that keep to their own keys\<close>

text \<open>A step that sets some keys to values that do not depend on the map.\<close>

definition sets_only :: "('b \<Rightarrow> renames \<Rightarrow> renames) \<Rightarrow> ('b \<Rightarrow> string \<Rightarrow> string option) \<Rightarrow> bool" where
  "sets_only step new_name \<longleftrightarrow>
     (\<forall>x rn u. map_of (step x rn) u = (case new_name x u of Some n \<Rightarrow> Some n | None \<Rightarrow> map_of rn u))"

lemma sets_only_fold_other:
  assumes "sets_only step new_name" and "\<And>x. x \<in> set xs \<Longrightarrow> new_name x u = None"
  shows "map_of (fold step xs rn) u = map_of rn u"
  using assms(2) by (induction xs arbitrary: rn) (use assms(1) in \<open>auto simp: sets_only_def\<close>)

lemma sets_only_fold:
  assumes "sets_only step new_name" and "x \<in> set xs"
    and "\<And>y. y \<in> set xs \<Longrightarrow> y \<noteq> x \<Longrightarrow> new_name y u = None"
  shows "map_of (fold step xs rn) u = (case new_name x u of Some n \<Rightarrow> Some n | None \<Rightarrow> map_of rn u)"
  using assms(2,3)
proof (induction xs arbitrary: rn)
  case (Cons y ys)
  have step: "map_of (step z r) u = (case new_name z u of Some n \<Rightarrow> Some n | None \<Rightarrow> map_of r u)" for z r
    using assms(1) by (simp add: sets_only_def)
  show ?case
  proof (cases "x \<in> set ys")
    case True
    then have "map_of (fold step (y # ys) rn) u =
        (case new_name x u of Some n \<Rightarrow> Some n | None \<Rightarrow> map_of (step y rn) u)"
      using Cons by simp
    with step [of y rn] Cons.prems(2) [of y] show ?thesis by (cases "y = x") (auto split: option.splits)
  next
    case False
    with Cons.prems have "y = x" by simp
    moreover have "map_of (fold step ys (step y rn)) u = map_of (step y rn) u"
      using False Cons.prems(2) by (intro sets_only_fold_other [OF assms(1)]) auto
    ultimately show ?thesis using step by simp
  qed
qed simp

definition ordinal_list :: "string \<times> string list \<Rightarrow> (string \<times> string) list" where
  "ordinal_list entry =
     map (\<lambda>(ordinal, usr). (usr, fst entry @ show_nat (ordinal + 1)))
       (drop 1 (enumerate 0 (sort (snd entry))))"

definition ordinal_name :: "string \<times> string list \<Rightarrow> string \<Rightarrow> string option" where
  "ordinal_name entry u =
     (if length (snd entry) \<le> 1 then None else map_of (rev (ordinal_list entry)) u)"

lemma fst_ordinal_list: "map fst (ordinal_list entry) = drop 1 (sort (snd entry))"
proof -
  have "map fst (ordinal_list entry) = map snd (drop 1 (enumerate 0 (sort (snd entry))))"
    by (simp add: ordinal_list_def case_prod_beta')
  then show ?thesis by (simp only: drop_map [symmetric] map_snd_enumerate)
qed

lemma map_of_fold_hm_put:
  "map_of (fold (\<lambda>(i, u). hm_put u (f i)) xs m) u =
    (case map_of (rev (map (\<lambda>(i, u). (u, f i)) xs)) u of Some v \<Rightarrow> Some v | None \<Rightarrow> map_of m u)"
  by (induction xs arbitrary: m) (auto simp: map_add_def split: option.splits)

lemma ordinal_renames_sets: "sets_only ordinal_renames ordinal_name"
  unfolding sets_only_def ordinal_renames_def ordinal_name_def ordinal_list_def
  by (simp only: map_of_fold_hm_put split: if_split) simp

lemma ordinal_name_outside:
  assumes "u \<notin> set (snd entry)"
  shows "ordinal_name entry u = None"
proof -
  have "u \<notin> set (map fst (ordinal_list entry))"
    unfolding fst_ordinal_list using assms by (metis in_set_dropD set_sort)
  then have "map_of (rev (ordinal_list entry)) u = None" unfolding map_of_eq_None_iff by simp
  then show ?thesis by (simp add: ordinal_name_def)
qed

lemma ordinal_name_nth:
  assumes "distinct us" and "i < length us" and "1 < length us"
  shows "ordinal_name (n, us) (sort us ! i) = (if i = 0 then None else Some (n @ show_nat (i + 1)))"
proof -
  let ?s = "sort us" and ?kvs = "ordinal_list (n, us)"
  have kvs: "map fst ?kvs = drop 1 ?s" by (simp add: fst_ordinal_list)
  have dist: "distinct (map fst ?kvs)" unfolding kvs using assms(1) by (simp add: distinct_drop)
  show ?thesis
  proof (cases i)
    case 0
    have "distinct ?s" using assms(1) by simp
    then have "?s ! 0 \<notin> set (drop 1 ?s)" using assms(3) by (cases ?s) auto
    then have "?s ! 0 \<notin> set (map fst ?kvs)" unfolding kvs .
    then have "map_of (rev ?kvs) (?s ! 0) = None" by (metis map_of_eq_None_iff set_map set_rev)
    with 0 assms show ?thesis by (simp add: ordinal_name_def)
  next
    case (Suc j)
    have "j < length (drop 1 (enumerate 0 ?s))" "drop 1 (enumerate 0 ?s) ! j = (i, ?s ! i)"
      using assms Suc by (simp_all add: nth_enumerate_eq)
    then have "(i, ?s ! i) \<in> set (drop 1 (enumerate 0 ?s))" by (metis nth_mem)
    then have "(?s ! i, n @ show_nat (i + 1)) \<in> set ?kvs"
      unfolding ordinal_list_def by (auto intro!: rev_image_eqI)
    then have "map_of (rev ?kvs) (?s ! i) = Some (n @ show_nat (i + 1))"
      using dist by (intro map_of_is_SomeI) (simp_all add: rev_map [symmetric])
    with Suc assms show ?thesis by (simp add: ordinal_name_def)
  qed
qed

section \<open>A group after its ordinals\<close>

abbreviation effective_name :: "renames \<Rightarrow> function_declaration \<Rightarrow> string" where
  "effective_name rn d \<equiv> renamed rn (fd_usr d) (fd_name d)"

definition same_name_usrs :: "renames \<Rightarrow> function_declaration list \<Rightarrow> string \<Rightarrow> string list" where
  "same_name_usrs rn ms n = map fd_usr (filter (\<lambda>e. effective_name rn e = n) ms)"

lemma final_names_entry:
  assumes "entry \<in> set (final_names rn ms)"
  shows "snd entry = same_name_usrs rn ms (fst entry)"
  using grouped_entries(1) [of entry "effective_name rn" fd_usr ms] assms
  by (simp add: final_names_def same_name_usrs_def)

lemma final_names_has:
  assumes "d \<in> set ms"
  shows "(effective_name rn d, same_name_usrs rn ms (effective_name rn d)) \<in> set (final_names rn ms)"
proof -
  have "map_of (final_names rn ms) (effective_name rn d) =
      Some (same_name_usrs rn ms (effective_name rn d))"
    unfolding final_names_def btm.get_group Let_def same_name_usrs_def
    using assms by (auto simp: filter_empty_conv)
  then show ?thesis by (rule map_of_SomeD)
qed

lemma number_group_name:
  assumes "d \<in> set (snd g)" and "distinct (map fd_usr (snd g))"
  shows "effective_name (number_group g rn) d =
    (case ordinal_name (effective_name rn d, same_name_usrs rn (snd g) (effective_name rn d)) (fd_usr d) of
       Some n \<Rightarrow> n | None \<Rightarrow> effective_name rn d)"
proof -
  let ?ms = "snd g" and ?n = "effective_name rn d"
  let ?entry = "(?n, same_name_usrs rn ?ms ?n)"
  have lookup: "map_of (fold ordinal_renames (final_names rn ?ms) rn) (fd_usr d) =
      (case ordinal_name ?entry (fd_usr d) of Some n \<Rightarrow> Some n | None \<Rightarrow> map_of rn (fd_usr d))"
  proof (rule sets_only_fold [OF ordinal_renames_sets final_names_has [OF assms(1)]])
    fix entry assume entry: "entry \<in> set (final_names rn ?ms)" "entry \<noteq> ?entry"
    have "fd_usr d \<notin> set (snd entry)"
    proof
      assume "fd_usr d \<in> set (snd entry)"
      then obtain e where "e \<in> set ?ms" "effective_name rn e = fst entry" "fd_usr e = fd_usr d"
        by (auto simp: final_names_entry [OF entry(1)] same_name_usrs_def)
      moreover from this have "e = d" using assms by (auto simp: distinct_map inj_on_def)
      ultimately have "fst entry = ?n" by simp
      with entry final_names_entry [OF entry(1)] show False by (metis prod.collapse)
    qed
    then show "ordinal_name entry (fd_usr d) = None" by (rule ordinal_name_outside)
  qed
  show ?thesis
  proof (cases "length ?ms \<le> 1")
    case True
    then have "length (same_name_usrs rn ?ms ?n) \<le> 1"
      unfolding same_name_usrs_def by (metis length_filter_le length_map order_trans)
    with True show ?thesis by (simp add: number_group_def ordinal_name_def)
  next
    case False
    with lookup show ?thesis by (auto simp: number_group_def renamed_def split: option.splits)
  qed
qed

lemma number_group_outside:
  assumes "u \<notin> fd_usr ` set (snd g)"
  shows "map_of (number_group g rn) u = map_of rn u"
proof -
  have "map_of (fold ordinal_renames (final_names rn (snd g)) rn) u = map_of rn u"
  proof (rule sets_only_fold_other [OF ordinal_renames_sets])
    fix entry assume "entry \<in> set (final_names rn (snd g))"
    then have "u \<notin> set (snd entry)" using assms by (auto simp: final_names_entry same_name_usrs_def)
    then show "ordinal_name entry u = None" by (rule ordinal_name_outside)
  qed
  then show ?thesis by (simp add: number_group_def)
qed

text \<open>
  Two members' names meet after numbering only where one member's name before it is another's
  followed by digits.
\<close>

definition digits_apart :: "string list \<Rightarrow> bool" where
  "digits_apart names \<longleftrightarrow>
     (\<forall>m \<in> set names. \<forall>n \<in> set names. \<forall>ds. ds \<noteq> [] \<longrightarrow> list_all is_digit ds \<longrightarrow> m \<noteq> n @ ds)"

lemma digits_apart_code [code]:
  "digits_apart names = list_all (\<lambda>m. list_all (\<lambda>n. case strip_prefix m n of
     Some ds \<Rightarrow> ds = [] \<or> \<not> list_all is_digit ds | None \<Rightarrow> True) names) names"
  by (auto simp: digits_apart_def list_all_iff strip_prefix_Some split: option.splits)

lemma digits_apartD:
  "digits_apart names \<Longrightarrow> m \<in> set names \<Longrightarrow> n \<in> set names \<Longrightarrow> list_all is_digit ds \<Longrightarrow> m = n @ ds \<Longrightarrow>
    ds = []"
  unfolding digits_apart_def by blast

lemma digits_apart_eqD:
  assumes "digits_apart names" and "m \<in> set names" and "n \<in> set names"
    and "m @ ds = n @ es" and "list_all is_digit ds" and "list_all is_digit es"
  shows "m = n \<and> ds = es"
proof -
  from assms(4) consider us where "m = n @ us" "us @ ds = es" | us where "n = m @ us" "ds = us @ es"
    by (auto simp: append_eq_append_conv2)
  then show ?thesis
  proof cases
    case (1 us)
    with assms(6) have "list_all is_digit us" by auto
    then have "us = []" using 1(1) by (rule digits_apartD [OF assms(1-3)])
    with 1 show ?thesis by simp
  next
    case (2 us)
    with assms(5) have "list_all is_digit us" by auto
    then have "us = []" using 2(1) by (rule digits_apartD [OF assms(1,3,2)])
    with 2 show ?thesis by simp
  qed
qed

lemma ordinal_name_shape:
  assumes "u \<in> set us" and "distinct us"
  obtains i where "i < length us" "sort us ! i = u"
    "ordinal_name (n, us) u = (if i = 0 then None else Some (n @ show_nat (i + 1)))"
proof -
  obtain i where i: "i < length us" "sort us ! i = u"
    using assms(1) by (metis in_set_conv_nth length_sort set_sort)
  show thesis
  proof (cases "length us \<le> 1")
    case True
    with i have "i = 0" by simp
    with True have "ordinal_name (n, us) u = (if i = 0 then None else Some (n @ show_nat (i + 1)))"
      by (simp add: ordinal_name_def)
    with i show thesis by (rule that)
  next
    case False
    with ordinal_name_nth [OF assms(2) i(1), of n] i(2)
    have "ordinal_name (n, us) u = (if i = 0 then None else Some (n @ show_nat (i + 1)))" by simp
    with i show thesis by (rule that)
  qed
qed

lemma numbered_names_distinct:
  assumes "distinct (map fd_usr (snd g))"
    and d: "d \<in> set (snd g)" and e: "e \<in> set (snd g)"
    and eq: "effective_name (number_group g rn) d = effective_name (number_group g rn) e"
    and apart: "digits_apart [effective_name rn d, effective_name rn e]"
  shows "d = e"
proof -
  let ?us = "\<lambda>d. same_name_usrs rn (snd g) (effective_name rn d)"
  have dist: "distinct (?us x)" for x
    using assms(1) unfolding same_name_usrs_def by (rule distinct_map_filter)
  have mem: "fd_usr x \<in> set (?us x)" if "x \<in> set (snd g)" for x
    using that by (auto simp: same_name_usrs_def)
  obtain i where i: "i < length (?us d)" "sort (?us d) ! i = fd_usr d"
    "ordinal_name (effective_name rn d, ?us d) (fd_usr d) =
      (if i = 0 then None else Some (effective_name rn d @ show_nat (i + 1)))"
    using ordinal_name_shape [OF mem [OF d] dist] by blast
  obtain j where j: "j < length (?us e)" "sort (?us e) ! j = fd_usr e"
    "ordinal_name (effective_name rn e, ?us e) (fd_usr e) =
      (if j = 0 then None else Some (effective_name rn e @ show_nat (j + 1)))"
    using ordinal_name_shape [OF mem [OF e] dist] by blast
  let ?s = "\<lambda>i. if i = 0 then [] else show_nat (i + 1)"
  have names: "effective_name rn d @ ?s i = effective_name rn e @ ?s j"
    using eq number_group_name [OF d assms(1)] number_group_name [OF e assms(1)] i(3) j(3)
    by (auto split: if_splits)
  have digits: "list_all is_digit (?s k)" for k by (simp add: show_nat_digits)
  have same: "effective_name rn d = effective_name rn e \<and> ?s i = ?s j"
    by (rule digits_apart_eqD [OF apart _ _ names digits digits]) simp_all
  then have "i = j" by (auto simp: show_nat_nonempty [symmetric] split: if_splits dest: show_nat_inj)
  with i(2) j(2) same have "fd_usr d = fd_usr e" by simp
  with assms(1) d e show "d = e" by (auto simp: distinct_map inj_on_def)
qed

section \<open>All groups\<close>

lemma fold_keeps:
  "(\<And>x rn. x \<in> set xs \<Longrightarrow> map_of (f x rn) u = map_of rn u) \<Longrightarrow> map_of (fold f xs rn) u = map_of rn u"
  by (induction xs arbitrary: rn) auto

lemma same_name_usrs_cong:
  assumes "\<And>d. d \<in> set ms \<Longrightarrow> map_of rn (fd_usr d) = map_of rn' (fd_usr d)" and "d \<in> set ms"
  shows "effective_name rn d = effective_name rn' d"
    and "same_name_usrs rn ms n = same_name_usrs rn' ms n"
proof -
  have "effective_name rn e = effective_name rn' e" if "e \<in> set ms" for e
    using assms(1) [OF that] by (simp add: renamed_def)
  then show "effective_name rn d = effective_name rn' d"
    and "same_name_usrs rn ms n = same_name_usrs rn' ms n"
    using assms(2) by (auto simp: same_name_usrs_def cong: filter_cong)
qed

text \<open>A group's names come out as if it were numbered alone.\<close>

lemma numbered_in_turn:
  assumes "distinct (map fd_usr declarations)" and "g \<in> set (overload_groups declarations)"
    and "d \<in> set (snd g)"
  shows "effective_name (fold number_group (overload_groups declarations) rn) d =
    effective_name (number_group g rn) d"
proof -
  let ?gs = "overload_groups declarations"
  have other: "fd_usr d \<notin> fd_usr ` set (snd h)" if "h \<in> set ?gs" "h \<noteq> g" "d \<in> set (snd g)" for h d
    using overload_groups_disjoint [OF assms(1,2) that(1) that(3)] that(2) by (metis imageE)
  have dist: "distinct (map fd_usr (snd g))"
    using assms(1) by (simp add: overload_group_members [OF assms(2)] distinct_map_filter)
  obtain before after where gs: "?gs = before @ g # after" "g \<notin> set after" "g \<notin> set before"
  proof -
    have "distinct (map fst ?gs)"
      unfolding overload_groups_fold by (rule bt_ok_distinct [OF btm.ok_group]) (simp add: bt_ok_def)
    then have "distinct ?gs" by (simp add: distinct_map)
    moreover obtain before after where "?gs = before @ g # after" using assms(2) by (metis split_list)
    ultimately show thesis by (intro that [of before after]) auto
  qed
  let ?rn = "fold number_group before rn"
  have before: "map_of ?rn (fd_usr e) = map_of rn (fd_usr e)" if "e \<in> set (snd g)" for e
    using gs(1,3) other [OF _ _ that] by (intro fold_keeps number_group_outside) auto
  have "map_of (fold number_group after (number_group g ?rn)) (fd_usr d) = map_of (number_group g ?rn) (fd_usr d)"
    using gs(1,2) other [OF _ _ assms(3)] by (intro fold_keeps number_group_outside) auto
  then have "effective_name (fold number_group ?gs rn) d = effective_name (number_group g ?rn) d"
    by (simp add: gs(1) renamed_def)
  also have "\<dots> = effective_name (number_group g rn) d"
    unfolding number_group_name [OF assms(3) dist]
    by (simp only: same_name_usrs_cong [OF before assms(3)])
  finally show ?thesis .
qed

text \<open>The first phase sets names of members of groups of two or more only.\<close>

lemma bucket_members: "b \<in> set (arity_buckets methods ms) \<Longrightarrow> set (snd b) \<subseteq> set ms"
  unfolding arity_buckets_def by (drule grouped_entries(1) [where val = "\<lambda>d. d"]) auto

lemma bucket_renames_outside:
  "u \<notin> fd_usr ` set (snd b) \<Longrightarrow> map_of (bucket_renames U name methods r b rn) u = map_of rn u"
  unfolding bucket_renames_def Let_def by (auto intro!: fold_keeps)

lemma overload_group_renames_outside:
  assumes "length (snd g) \<le> 1 \<or> u \<notin> fd_usr ` set (snd g)"
  shows "map_of (overload_group_renames U rs functions methods facts g rn) u = map_of rn u"
proof (cases "length (snd g) \<le> 1")
  case False
  with assms have u: "u \<notin> fd_usr ` set (snd g)" by simp
  have "map_of (static_renames name (snd g) rn) u = map_of rn u"
    and "map_of (free_operator_renames U functions name (snd g) rn) u = map_of rn u"
    and "map_of (type_renames U functions methods name (snd g) rn) u = map_of rn u" for name
    unfolding static_renames_def free_operator_renames_def type_renames_def
    using u by (auto intro!: fold_keeps split: option.splits)
  moreover have "map_of (member_operator_renames U rs methods owner name (snd g) rn) u = map_of rn u" for owner name
    unfolding member_operator_renames_def
    using u bucket_members by (intro fold_keeps bucket_renames_outside) blast
  ultimately show ?thesis
    by (auto simp: overload_group_renames_def Let_def split: list.splits option.splits)
qed (simp add: overload_group_renames_def)

lemma number_group_single: "length (snd g) \<le> 1 \<Longrightarrow> number_group g rn = rn"
  by (simp add: number_group_def)

definition overloaded_usrs :: "function_declaration list \<Rightarrow> string set" where
  "overloaded_usrs declarations =
     (\<Union>g \<in> {g \<in> set (overload_groups declarations). 1 < length (snd g)}. fd_usr ` set (snd g))"

lemma overload_renames_outside:
  assumes "u \<notin> overloaded_usrs declarations"
  shows "map_of (overload_renames U fs rs declarations calls) u = None"
proof -
  have "length (snd g) \<le> 1 \<or> u \<notin> fd_usr ` set (snd g)" if "g \<in> set (overload_groups declarations)" for g
  proof (rule ccontr)
    assume "\<not> ?thesis"
    with that have "g \<in> {g \<in> set (overload_groups declarations). 1 < length (snd g)}"
      and "u \<in> fd_usr ` set (snd g)" by auto
    then have "u \<in> overloaded_usrs declarations" unfolding overloaded_usrs_def by (rule UN_I)
    with assms show False by simp
  qed
  note small = this
  have "map_of (overload_renames U fs rs declarations calls) u =
      map_of (type_overload_renames U fs rs declarations calls) u"
    unfolding overload_renames_def
    using small number_group_outside number_group_single by (intro fold_keeps) metis
  also have "\<dots> = map_of [] u"
    unfolding type_overload_renames_def Let_def
    by (intro fold_keeps overload_group_renames_outside small)
  finally show ?thesis by simp
qed

section \<open>Properties\<close>

text \<open>
  C9. Two declarations of one group, with a USR each, end up with different names whenever, of the
  names their types gave them, neither is the other followed by digits: equal names included, which the
  ordinals keep apart. Where one is the other followed by digits they may end up with one name.
\<close>

theorem overload_names_distinct:
  assumes "distinct (map fd_usr declarations)" and "(key, members) \<in> set (overload_groups declarations)"
    and "d \<in> set members" and "e \<in> set members" and "d \<noteq> e"
    and "digits_apart (map (\<lambda>d. renamed (type_overload_renames U fs rs declarations calls) (fd_usr d) (fd_name d)) [d, e])"
  shows "renamed (overload_renames U fs rs declarations calls) (fd_usr d) (fd_name d) \<noteq>
    renamed (overload_renames U fs rs declarations calls) (fd_usr e) (fd_name e)"
proof -
  let ?g = "(key, members)" and ?rn = "type_overload_renames U fs rs declarations calls"
  have dist: "distinct (map fd_usr (snd ?g))"
    using assms(1) by (simp only: overload_group_members [OF assms(2)]) (simp add: distinct_map_filter)
  have "effective_name (number_group ?g ?rn) d \<noteq> effective_name (number_group ?g ?rn) e"
    using numbered_names_distinct [OF dist, of d e ?rn] assms(3-6) by auto
  then show ?thesis
    using numbered_in_turn [OF assms(1,2), of _ ?rn] assms(3,4) by (simp add: overload_renames_def)
qed

text \<open>
  Nothing but an overload is renamed: every declaration of the module whose USR is not in a group
  of two or more keeps its name, and so does every call of it.
\<close>

theorem only_overloads_renamed:
  assumes "plain (module_nodes fs rs)"
  shows "filter (\<lambda>d. fst d \<notin> overloaded_usrs declarations)
        (module_decls (apply_overload_renames U fs rs declarations calls)) =
      filter (\<lambda>d. fst d \<notin> overloaded_usrs declarations) (module_decls (fs, rs)) \<and>
    filter (\<lambda>c. fst c \<notin> overloaded_usrs declarations)
        (module_calls (apply_overload_renames U fs rs declarations calls)) =
      filter (\<lambda>c. fst c \<notin> overloaded_usrs declarations) (module_calls (fs, rs))"
proof -
  let ?rn = "overload_renames U fs rs declarations calls"
  have "filter (\<lambda>d. fst d \<notin> overloaded_usrs declarations) (map (rename_pair ?rn) ds) =
      filter (\<lambda>d. fst d \<notin> overloaded_usrs declarations) ds" for ds
    by (induction ds) (auto simp: rename_pair_def renamed_def overload_renames_outside)
  then show ?thesis
    using assms by (simp add: apply_overload_renames_def module_decls_apply_renames module_calls_apply_renames)
qed

definition sample_param :: "ty \<Rightarrow> param" where
  "sample_param t = Param ''x'' t None"

definition sample_ir_function :: "string \<Rightarrow> ty \<Rightarrow> ir_function" where
  "sample_ir_function usr t =
     \<lparr>f_name = ''f'', f_usr = usr, f_params = [sample_param t], f_return_type = TInt, f_body = [],
      f_origin = sample_origin\<rparr>"

text \<open>Two overloads whose parameters are both strings in Dart, and one that takes a number.\<close>

definition sample_overloads :: "function_declaration list" where
  "sample_overloads =
     [sample_overload ''u1'' ''int f(char *)'', sample_overload ''u2'' ''int f(const char *)'',
      sample_overload ''u3'' ''int f(int)'']"

definition sample_overload_functions :: "ir_function list" where
  "sample_overload_functions =
     [sample_ir_function ''u1'' (TNullable TStr), sample_ir_function ''u2'' (TNullable TStr),
      sample_ir_function ''u3'' TInt]"

theorem overload_names_distinct_witness:
  "map (\<lambda>d. renamed (overload_renames ascii_tables sample_overload_functions [] sample_overloads [])
      (fd_usr d) (fd_name d)) sample_overloads = [''fNullableString'', ''fNullableString2'', ''fInt''] \<and>
   renamed (overload_renames ascii_tables sample_overload_functions [] sample_overloads [])
      (fd_usr (sample_overloads ! 0)) (fd_name (sample_overloads ! 0)) \<noteq>
   renamed (overload_renames ascii_tables sample_overload_functions [] sample_overloads [])
      (fd_usr (sample_overloads ! 1)) (fd_name (sample_overloads ! 1))"
proof
  show "map (\<lambda>d. renamed (overload_renames ascii_tables sample_overload_functions [] sample_overloads [])
      (fd_usr d) (fd_name d)) sample_overloads = [''fNullableString'', ''fNullableString2'', ''fInt'']"
    by code_simp
  have "distinct (map fd_usr sample_overloads)" by code_simp
  moreover have "((None, ''f''), sample_overloads) \<in> set (overload_groups sample_overloads)" by code_simp
  moreover have "sample_overloads ! 0 \<in> set sample_overloads" "sample_overloads ! 1 \<in> set sample_overloads"
    "sample_overloads ! 0 \<noteq> sample_overloads ! 1" by code_simp+
  moreover have "digits_apart (map (\<lambda>d. renamed (type_overload_renames ascii_tables sample_overload_functions []
      sample_overloads []) (fd_usr d) (fd_name d)) [sample_overloads ! 0, sample_overloads ! 1])" by code_simp
  ultimately show "renamed (overload_renames ascii_tables sample_overload_functions [] sample_overloads [])
      (fd_usr (sample_overloads ! 0)) (fd_name (sample_overloads ! 0)) \<noteq>
    renamed (overload_renames ascii_tables sample_overload_functions [] sample_overloads [])
      (fd_usr (sample_overloads ! 1)) (fd_name (sample_overloads ! 1))"
    by (rule overload_names_distinct)
qed

theorem only_overloads_renamed_witness:
  "filter (\<lambda>d. fst d \<notin> overloaded_usrs []) (module_decls (apply_overload_renames ascii_tables
      sample_functions sample_records [] [])) =
    filter (\<lambda>d. fst d \<notin> overloaded_usrs []) (module_decls (sample_functions, sample_records))"
proof -
  have "plain (module_nodes sample_functions sample_records)" by code_simp
  from only_overloads_renamed [OF this, THEN conjunct1] show ?thesis .
qed

text \<open>
  An ordinal is appended without looking at the other names of the group: with a class \<^verbatim>\<open>X2\<close> beside a
  class \<^verbatim>\<open>X\<close> two overloads end up with one name.
\<close>

lemma ordinal_meets_another_overload:
  "map (\<lambda>d. renamed (overload_renames ascii_tables
        [sample_ir_function ''u1'' (TRecord ''x'' ''X''), sample_ir_function ''u2'' (TRecord ''x'' ''X''),
         sample_ir_function ''u3'' (TRecord ''y'' ''X2'')] [] sample_overloads [])
      (fd_usr d) (fd_name d)) sample_overloads = [''fX'', ''fX2'', ''fX2'']"
  by code_simp

end
