(* ===== verification/Record_Graph.thy ===== *)
theory Record_Graph
  imports Ir_Nodes
begin

text \<open>
  The graph of the records' bases: \<open>mixin_usrs\<close> and \<open>expand_mixin_chain\<close> of
  \<^verbatim>\<open>crates/server/src/emit/dart.rs\<close> and \<open>ancestor_closures\<close> of \<^verbatim>\<open>function_catalog.rs\<close>. Each is a
  depth-first walk along \<open>base_class\<close> and \<open>mixins\<close> that keeps a set of what it has seen. The lemmas show
  that the walks end, also on cyclic input, that they find exactly what can be reached, and that a
  mixin chain lists every base once and after everything it depends on.
\<close>

section \<open>Edges\<close>

definition records_by_usr :: "ir_record list \<Rightarrow> (string \<times> ir_record) list" where
  "records_by_usr rs = fold (\<lambda>r. hm_put (r_usr r) r) rs []"

definition record_bases :: "ir_record \<Rightarrow> base_class list" where
  "record_bases r = (case r_base_class r of None \<Rightarrow> [] | Some b \<Rightarrow> [b]) @ r_mixins r"

definition bases_of :: "(string \<times> ir_record) list \<Rightarrow> string \<Rightarrow> base_class list" where
  "bases_of ix u = (case map_of ix u of None \<Rightarrow> [] | Some r \<Rightarrow> record_bases r)"

definition base_edges :: "(string \<times> ir_record) list \<Rightarrow> (string \<times> string) set" where
  "base_edges ix = {(u, bc_usr b) | u b. b \<in> set (bases_of ix u)}"

lemma base_edges_Image: "base_edges ix `` {u} = bc_usr ` set (bases_of ix u)"
  by (auto simp: base_edges_def)

definition indexed_bases :: "(string \<times> ir_record) list \<Rightarrow> string set" where
  "indexed_bases ix = bc_usr ` set (concat (map (\<lambda>p. record_bases (snd p)) ix))"

lemma finite_indexed_bases [simp]: "finite (indexed_bases ix)"
  by (simp add: indexed_bases_def)

lemma bases_of_indexed: "bc_usr ` set (bases_of ix u) \<subseteq> indexed_bases ix"
proof (cases "map_of ix u")
  case (Some r)
  then have "r \<in> snd ` set ix" by (force dest: map_of_SomeD)
  with Some show ?thesis by (auto simp: bases_of_def indexed_bases_def)
qed (simp add: bases_of_def)

section \<open>Which records are mixins\<close>

text \<open>The stack has its top at the head of the list.\<close>

function mixin_loop :: "(string \<times> ir_record) list \<Rightarrow> string set \<Rightarrow> string list \<Rightarrow> string set" where
  "mixin_loop ix result [] = result"
| "mixin_loop ix result (u # stack) =
     (if u \<in> result then mixin_loop ix result stack
      else mixin_loop ix (insert u result) (rev (map bc_usr (bases_of ix u)) @ stack))"
  by pat_completeness auto
termination
proof (relation "measures [\<lambda>(ix, result, stack). card ((indexed_bases ix \<union> set stack) - result),
    \<lambda>(ix, result, stack). length stack]", goal_cases)
  case (2 ix result u stack)
  then have "indexed_bases ix \<union> set (u # stack) - result = indexed_bases ix \<union> set stack - result" by auto
  then show ?case by simp
next
  case (3 ix result u stack)
  have "card (indexed_bases ix \<union> set (rev (map bc_usr (bases_of ix u)) @ stack) - insert u result) <
      card (indexed_bases ix \<union> set (u # stack) - result)"
    using 3 bases_of_indexed [of ix u] by (intro psubset_card_mono) auto
  then show ?case by simp
qed simp

definition mixin_usrs :: "ir_record list \<Rightarrow> string set" where
  "mixin_usrs rs =
     mixin_loop (records_by_usr rs) {} (rev (concat (map (\<lambda>r. map bc_usr (r_mixins r)) rs)))"

lemma mixin_loop_closure:
  "base_edges ix `` result \<subseteq> result \<union> set stack \<Longrightarrow>
    mixin_loop ix result stack = (base_edges ix)\<^sup>* `` (result \<union> set stack)"
proof (induction ix result stack rule: mixin_loop.induct)
  case (1 ix result)
  then show ?case by (simp add: Image_closed_trancl)
next
  case (2 ix result u stack)
  let ?E = "base_edges ix"
  show ?case
  proof (cases "u \<in> result")
    case True
    moreover from this have "result \<union> set (u # stack) = result \<union> set stack" by auto
    ultimately show ?thesis using 2 by simp
  next
    case False
    let ?new = "rev (map bc_usr (bases_of ix u)) @ stack"
    have new: "set ?new = ?E `` {u} \<union> set stack" by (simp add: base_edges_Image)
    have "?E `` insert u result \<subseteq> insert u result \<union> set ?new"
      using 2(3) unfolding new by auto
    then have "mixin_loop ix (insert u result) ?new = ?E\<^sup>* `` (insert u result \<union> set ?new)"
      using 2(2) [OF False] by blast
    also have "\<dots> = ?E\<^sup>* `` (result \<union> set (u # stack)) \<union> ?E\<^sup>* `` (?E `` {u})"
      unfolding new by auto
    also have "\<dots> = ?E\<^sup>* `` (result \<union> set (u # stack))"
      by (auto intro: converse_rtrancl_into_rtrancl)
    finally show ?thesis using False by simp
  qed
qed

section \<open>Ancestors\<close>

text \<open>
  The recursive \<open>visit\<close> with its loop over the bases: a base not seen yet is inserted and visited
  before the loop goes on.
\<close>

function visit_ancestors ::
  "(string \<times> ir_record) list \<Rightarrow> string list \<Rightarrow> string set \<Rightarrow> string set" where
  "visit_ancestors ix [] result = result"
| "visit_ancestors ix (b # bs) result =
     visit_ancestors ix bs
       (if b \<in> result then result
        else visit_ancestors ix (map bc_usr (bases_of ix b)) (insert b result))"
  by pat_completeness auto

lemma visit_ancestors_grows:
  "visit_ancestors_dom (ix, bs, result) \<Longrightarrow> result \<subseteq> visit_ancestors ix bs result"
proof (induction rule: visit_ancestors.pinduct)
  case (2 ix b bs result)
  then show ?case by (auto simp: visit_ancestors.psimps split: if_splits)
qed (simp add: visit_ancestors.psimps)

text \<open>How much of the graph a walk has left to see.\<close>

definition unseen :: "(string \<times> ir_record) list \<Rightarrow> string list \<Rightarrow> string set \<Rightarrow> nat" where
  "unseen ix bs seen = card (indexed_bases ix \<union> set bs - seen)"

lemma unseen_inner:
  "b \<notin> seen \<Longrightarrow> unseen ix (map bc_usr (bases_of ix b)) (insert b seen) < unseen ix (b # bs) seen"
  unfolding unseen_def using bases_of_indexed [of ix b] by (intro psubset_card_mono) auto

lemma unseen_rest: "seen \<subseteq> seen' \<Longrightarrow> unseen ix bs seen' \<le> unseen ix (b # bs) seen"
  unfolding unseen_def by (intro card_mono) auto

termination visit_ancestors
proof (relation "measures [\<lambda>(ix, bs, result). unseen ix bs result, \<lambda>(ix, bs, result). length bs]",
    goal_cases)
  case (2 ix b bs result)
  then show ?case using unseen_inner [of b result ix bs] by simp
next
  case (3 ix b bs result)
  let ?r = "if b \<in> result then result else visit_ancestors ix (map bc_usr (bases_of ix b)) (insert b result)"
  have "result \<subseteq> ?r" using 3 visit_ancestors_grows [of ix "map bc_usr (bases_of ix b)" "insert b result"] by auto
  from unseen_rest [OF this, of ix bs b] show ?case by auto
qed simp

text \<open>What a depth-first walk ends with: the closure of what was unseen.\<close>

definition walk_closes :: "(string \<times> string) set \<Rightarrow> string set \<Rightarrow> string set \<Rightarrow> string set \<Rightarrow> bool" where
  "walk_closes E start seen seen' \<longleftrightarrow>
     seen \<union> start \<subseteq> seen' \<and> seen' \<subseteq> seen \<union> E\<^sup>* `` start \<and> E `` (seen' - seen) \<subseteq> seen'"

lemma walk_closes_refl: "walk_closes E {} seen seen"
  by (simp add: walk_closes_def)

lemma walk_closes_step:
  assumes inner: "b \<notin> seen \<Longrightarrow> walk_closes E (E `` {b}) (insert b seen) seen1"
    and skip: "b \<in> seen \<Longrightarrow> seen1 = seen"
    and rest: "walk_closes E start seen1 seen2"
  shows "walk_closes E (insert b start) seen seen2"
proof (cases "b \<in> seen")
  case True
  with skip rest show ?thesis by (auto simp: walk_closes_def)
next
  case False
  have i: "insert b seen \<subseteq> seen1" "E `` {b} \<subseteq> seen1" "seen1 \<subseteq> insert b seen \<union> E\<^sup>* `` (E `` {b})"
      "E `` (seen1 - insert b seen) \<subseteq> seen1"
    using inner [OF False] unfolding walk_closes_def by blast+
  have r: "seen1 \<subseteq> seen2" "start \<subseteq> seen2" "seen2 \<subseteq> seen1 \<union> E\<^sup>* `` start" "E `` (seen2 - seen1) \<subseteq> seen2"
    using rest unfolding walk_closes_def by blast+
  have "E\<^sup>* `` (E `` {b}) \<subseteq> E\<^sup>* `` {b}" by (auto intro: converse_rtrancl_into_rtrancl)
  then have "seen1 \<subseteq> seen \<union> E\<^sup>* `` {b}" using i(3) by auto
  then have "seen2 \<subseteq> seen \<union> E\<^sup>* `` insert b start" using r(3) by blast
  moreover have "E `` (seen1 - seen) \<subseteq> seen1" using i(2,4) by blast
  then have "E `` (seen2 - seen) \<subseteq> seen2" using r(1,4) by blast
  moreover have "seen \<union> insert b start \<subseteq> seen2" using i(1) r(1,2) by blast
  ultimately show ?thesis unfolding walk_closes_def by (intro conjI)
qed

lemma walk_closes_all: "walk_closes E start {} seen' \<Longrightarrow> seen' = E\<^sup>* `` start"
  unfolding walk_closes_def
  by (metis Diff_empty Image_closed_trancl Image_mono Un_empty_left order_refl subset_antisym)

lemma visit_ancestors_closes:
  "walk_closes (base_edges ix) (set bs) result (visit_ancestors ix bs result)"
proof (induction ix bs result rule: visit_ancestors.induct)
  case (2 ix b bs result)
  show ?case
    unfolding visit_ancestors.simps list.set
    by (rule walk_closes_step [OF _ _ 2(2)])
      (use 2(1) in \<open>simp_all add: base_edges_Image\<close>)
qed (simp add: walk_closes_refl)

definition ancestors_of :: "(string \<times> ir_record) list \<Rightarrow> string \<Rightarrow> string set" where
  "ancestors_of ix u = visit_ancestors ix (map bc_usr (bases_of ix u)) {}"

definition ancestor_closures :: "ir_record list \<Rightarrow> (string \<times> string set) list" where
  "ancestor_closures rs = fold (\<lambda>r. hm_put (r_usr r) (ancestors_of (records_by_usr rs) (r_usr r))) rs []"

lemma ancestors_of_trancl: "ancestors_of ix u = (base_edges ix)\<^sup>+ `` {u}"
proof -
  have "ancestors_of ix u = (base_edges ix)\<^sup>* `` (base_edges ix `` {u})"
    using walk_closes_all [OF visit_ancestors_closes] by (simp add: ancestors_of_def base_edges_Image)
  also have "\<dots> = (base_edges ix O (base_edges ix)\<^sup>*) `` {u}" by (simp add: relcomp_Image)
  finally show ?thesis by (simp add: trancl_unfold_left)
qed

lemma ancestor_closures_lookup:
  "map_of (ancestor_closures rs) u =
    (if u \<in> r_usr ` set rs then Some ((base_edges (records_by_usr rs))\<^sup>+ `` {u}) else None)"
proof -
  have "map_of (fold (\<lambda>r. hm_put (r_usr r) (f (r_usr r))) rs m) u =
      (if u \<in> r_usr ` set rs then Some (f u) else map_of m u)" for f m
    by (induction rs arbitrary: m) auto
  from this [of "\<lambda>u. (base_edges (records_by_usr rs))\<^sup>+ `` {u}" "[]"]
  show ?thesis by (simp add: ancestor_closures_def ancestors_of_trancl)
qed

section \<open>Mixin chains\<close>

type_synonym chain_state = "string set \<times> base_class list"

function visit_chain ::
  "(string \<times> ir_record) list \<Rightarrow> base_class list \<Rightarrow> chain_state \<Rightarrow> chain_state" where
  "visit_chain ix [] st = st"
| "visit_chain ix (b # bs) st =
     visit_chain ix bs
       (if bc_usr b \<in> fst st then st
        else (let st' = visit_chain ix (bases_of ix (bc_usr b)) (insert (bc_usr b) (fst st), snd st)
              in (fst st', snd st' @ [b])))"
  by pat_completeness auto

lemma visit_chain_grows:
  "visit_chain_dom (ix, bs, st) \<Longrightarrow> fst st \<subseteq> fst (visit_chain ix bs st)"
proof (induction rule: visit_chain.pinduct)
  case (2 ix b bs st)
  then show ?case by (auto simp: visit_chain.psimps Let_def split: if_splits)
qed (simp add: visit_chain.psimps)

termination visit_chain
proof (relation "measures [\<lambda>(ix, bs, st). unseen ix (map bc_usr bs) (fst st), \<lambda>(ix, bs, st). length bs]",
    goal_cases)
  case (2 ix b bs st)
  then show ?case using unseen_inner [of "bc_usr b" "fst st" ix "map bc_usr bs"] by simp
next
  case (3 ix b bs st)
  let ?st = "if bc_usr b \<in> fst st then st
        else (let st' = visit_chain ix (bases_of ix (bc_usr b)) (insert (bc_usr b) (fst st), snd st)
              in (fst st', snd st' @ [b]))"
  have "fst st \<subseteq> fst ?st"
    using 3 visit_chain_grows [of ix "bases_of ix (bc_usr b)" "(insert (bc_usr b) (fst st), snd st)"]
    by (auto simp: Let_def)
  from unseen_rest [OF this, of ix "map bc_usr bs" "bc_usr b"] show ?case by auto
qed simp

definition expand_mixin_chain :: "base_class list \<Rightarrow> (string \<times> ir_record) list \<Rightarrow> base_class list" where
  "expand_mixin_chain bases ix = snd (visit_chain ix bases ({}, []))"

text \<open>Every base comes after everything it depends on, but for what was seen before.\<close>

primrec deps_before :: "(string \<times> string) set \<Rightarrow> string set \<Rightarrow> base_class list \<Rightarrow> bool" where
  "deps_before E seen [] = True"
| "deps_before E seen (b # bs) =
     (E `` {bc_usr b} \<subseteq> seen \<and> deps_before E (insert (bc_usr b) seen) bs)"

lemma deps_before_append:
  "deps_before E seen (xs @ ys) \<longleftrightarrow>
    deps_before E seen xs \<and> deps_before E (seen \<union> bc_usr ` set xs) ys"
  by (induction xs arbitrary: seen) auto

lemma deps_before_drop:
  "deps_before E (insert u seen) bs \<Longrightarrow> (\<And>b. b \<in> set bs \<Longrightarrow> (bc_usr b, u) \<notin> E) \<Longrightarrow> deps_before E seen bs"
proof (induction bs arbitrary: seen)
  case (Cons b bs)
  then have "deps_before E (insert (bc_usr b) seen) bs" by (auto simp: insert_commute)
  with Cons show ?case by auto
qed simp

definition chain_extends ::
  "(string \<times> string) set \<Rightarrow> string set \<Rightarrow> chain_state \<Rightarrow> chain_state \<Rightarrow> bool" where
  "chain_extends E start st st' \<longleftrightarrow>
     walk_closes E start (fst st) (fst st') \<and>
     (\<exists>new. snd st' = snd st @ new \<and> distinct (map bc_usr new) \<and>
        bc_usr ` set new = fst st' - fst st \<and> (acyclic E \<longrightarrow> deps_before E (fst st) new))"

lemma chain_extends_inner:
  assumes inner: "chain_extends E (E `` {bc_usr b}) (insert (bc_usr b) seen, result) (seen', result')"
    and b: "bc_usr b \<notin> seen"
  shows "chain_extends E {bc_usr b} (seen, result) (seen', result' @ [b])"
proof -
  from inner obtain new where
    walk: "walk_closes E (E `` {bc_usr b}) (insert (bc_usr b) seen) seen'" and
    new: "result' = result @ new" "distinct (map bc_usr new)" "bc_usr ` set new = seen' - insert (bc_usr b) seen"
      "acyclic E \<Longrightarrow> deps_before E (insert (bc_usr b) seen) new"
    by (auto simp: chain_extends_def)
  have "walk_closes E {bc_usr b} seen seen'"
    by (rule walk_closes_step [OF _ _ walk_closes_refl]) (use walk b in auto)
  moreover have "deps_before E seen (new @ [b])" if acyclic: "acyclic E"
  proof -
    have reach: "bc_usr x \<in> E\<^sup>* `` (E `` {bc_usr b})" if "x \<in> set new" for x
    proof -
      have "bc_usr x \<in> seen' - insert (bc_usr b) seen" using that new(3) by blast
      then show ?thesis using walk unfolding walk_closes_def by blast
    qed
    have no_edge: "(bc_usr x, bc_usr b) \<notin> E" if "x \<in> set new" for x
    proof
      assume "(bc_usr x, bc_usr b) \<in> E"
      with reach [OF that] have "(bc_usr b, bc_usr b) \<in> E\<^sup>+"
        by (meson Image_singleton_iff ImageE rtrancl_into_trancl2 rtrancl_into_trancl1 trancl_rtrancl_trancl r_into_trancl trancl_trans)
      with acyclic show False by (simp add: acyclic_def)
    qed
    have "(bc_usr b, bc_usr b) \<notin> E" using acyclic by (auto simp: acyclic_def)
    moreover have "E `` {bc_usr b} \<subseteq> seen'" using walk by (auto simp: walk_closes_def)
    ultimately have "E `` {bc_usr b} \<subseteq> seen \<union> bc_usr ` set new" using new(3) by auto
    moreover have "deps_before E seen new" by (rule deps_before_drop [OF new(4) [OF acyclic] no_edge])
    ultimately show ?thesis by (simp add: deps_before_append)
  qed
  moreover have "bc_usr ` set (new @ [b]) = seen' - seen"
    using new(3) b walk by (auto simp: walk_closes_def)
  ultimately show ?thesis using new(1,2,3) by (auto simp: chain_extends_def)
qed

lemma chain_extends_trans:
  assumes first: "chain_extends E {b} st st1" and rest: "chain_extends E start st1 st2"
  shows "chain_extends E (insert b start) st st2"
proof -
  from first obtain new1 where
    walk1: "walk_closes E {b} (fst st) (fst st1)" and
    new1: "snd st1 = snd st @ new1" "distinct (map bc_usr new1)" "bc_usr ` set new1 = fst st1 - fst st"
      "acyclic E \<Longrightarrow> deps_before E (fst st) new1"
    by (auto simp: chain_extends_def)
  from rest obtain new2 where
    walk2: "walk_closes E start (fst st1) (fst st2)" and
    new2: "snd st2 = snd st1 @ new2" "distinct (map bc_usr new2)" "bc_usr ` set new2 = fst st2 - fst st1"
      "acyclic E \<Longrightarrow> deps_before E (fst st1) new2"
    by (auto simp: chain_extends_def)
  have sub: "fst st \<subseteq> fst st1" "fst st1 \<subseteq> fst st2" using walk1 walk2 by (auto simp: walk_closes_def)
  have "walk_closes E (insert b start) (fst st) (fst st2)"
  proof -
    have "fst st2 \<subseteq> fst st \<union> E\<^sup>* `` insert b start"
      using walk1 walk2 unfolding walk_closes_def by blast
    moreover have "E `` (fst st2 - fst st) \<subseteq> fst st2"
      using walk1 walk2 unfolding walk_closes_def by blast
    ultimately show ?thesis using walk1 walk2 sub by (auto simp: walk_closes_def)
  qed
  moreover have "distinct (map bc_usr (new1 @ new2))" using new1(2,3) new2(2,3) by auto
  moreover have "bc_usr ` set (new1 @ new2) = fst st2 - fst st"
    unfolding set_append image_Un new1(3) new2(3) using sub by blast
  moreover have "deps_before E (fst st) (new1 @ new2)" if "acyclic E"
  proof -
    have "fst st \<union> bc_usr ` set new1 = fst st1" using new1(3) sub by auto
    with new1(4) [OF that] new2(4) [OF that] show ?thesis by (simp add: deps_before_append)
  qed
  ultimately show ?thesis using new1(1) new2(1) by (auto simp: chain_extends_def)
qed

lemma chain_extends_seen: "b \<in> fst st \<Longrightarrow> chain_extends E {b} st st"
  by (auto simp: chain_extends_def walk_closes_def intro!: exI [of _ "[]"])

lemma visit_chain_extends:
  "chain_extends (base_edges ix) (bc_usr ` set bs) st (visit_chain ix bs st)"
proof (induction ix bs st rule: visit_chain.induct)
  case (1 ix st)
  show ?case by (auto simp: chain_extends_def walk_closes_def)
next
  case (2 ix b bs st)
  let ?E = "base_edges ix"
  let ?st = "if bc_usr b \<in> fst st then st
        else (let st' = visit_chain ix (bases_of ix (bc_usr b)) (insert (bc_usr b) (fst st), snd st)
              in (fst st', snd st' @ [b]))"
  have "chain_extends ?E {bc_usr b} st ?st"
  proof (cases "bc_usr b \<in> fst st")
    case True
    then show ?thesis by (simp add: chain_extends_seen)
  next
    case False
    obtain seen' result' where run: "visit_chain ix (bases_of ix (bc_usr b)) (insert (bc_usr b) (fst st), snd st) =
        (seen', result')" by fastforce
    have "chain_extends ?E (?E `` {bc_usr b}) (insert (bc_usr b) (fst st), snd st) (seen', result')"
      using 2(1) [OF False] unfolding run base_edges_Image .
    from chain_extends_inner [OF this False] show ?thesis using False by (simp add: run)
  qed
  from chain_extends_trans [OF this 2(2)] show ?case by simp
qed

section \<open>Properties\<close>

text \<open>
  The loop of \<open>mixin_usrs\<close> ends, also when bases form a cycle, and finds exactly what can be reached
  through \<open>base_class\<close> and \<open>mixins\<close> from a base some record mixes in; \<open>ancestor_closures\<close> lists for
  every record exactly the USRs that can be reached from it in one step or more.
\<close>

theorem mixins_and_ancestors_reached:
  "mixin_usrs rs = (base_edges (records_by_usr rs))\<^sup>* `` (bc_usr ` (\<Union>r \<in> set rs. set (r_mixins r))) \<and>
    map_of (ancestor_closures rs) u =
      (if u \<in> r_usr ` set rs then Some {v. (u, v) \<in> (base_edges (records_by_usr rs))\<^sup>+} else None)"
proof
  have "set (rev (concat (map (\<lambda>r. map bc_usr (r_mixins r)) rs))) = bc_usr ` (\<Union>r \<in> set rs. set (r_mixins r))"
    by auto
  then show "mixin_usrs rs = (base_edges (records_by_usr rs))\<^sup>* `` (bc_usr ` (\<Union>r \<in> set rs. set (r_mixins r)))"
    using mixin_loop_closure [of "records_by_usr rs" "{}"] by (simp only: mixin_usrs_def) simp
  show "map_of (ancestor_closures rs) u =
      (if u \<in> r_usr ` set rs then Some {v. (u, v) \<in> (base_edges (records_by_usr rs))\<^sup>+} else None)"
    by (auto simp: ancestor_closures_lookup)
qed

text \<open>
  C10. The chain of a \<^verbatim>\<open>with\<close> clause lists every base that can be reached from the given ones once, and,
  as long as no base is its own ancestor, each after all the bases it depends on.
\<close>

theorem mixin_chain_in_order:
  assumes "acyclic (base_edges ix)"
  shows "distinct (map bc_usr (expand_mixin_chain bases ix)) \<and>
    bc_usr ` set (expand_mixin_chain bases ix) = (base_edges ix)\<^sup>* `` (bc_usr ` set bases) \<and>
    deps_before (base_edges ix) {} (expand_mixin_chain bases ix)"
proof -
  have ext: "chain_extends (base_edges ix) (bc_usr ` set bases) ({}, []) (visit_chain ix bases ({}, []))"
    by (rule visit_chain_extends)
  then have "fst (visit_chain ix bases ({}, [])) = (base_edges ix)\<^sup>* `` (bc_usr ` set bases)"
    by (intro walk_closes_all) (simp add: chain_extends_def)
  with ext assms show ?thesis by (auto simp: chain_extends_def expand_mixin_chain_def)
qed

lemma acyclic_by_rank:
  assumes "list_all (\<lambda>(u, r). list_all (\<lambda>b. length (bc_usr b) < length u) (record_bases r)) ix"
  shows "acyclic (base_edges ix)"
proof -
  have "length v < length u" if edge: "(u, v) \<in> base_edges ix" for u v
  proof -
    obtain b where b: "b \<in> set (bases_of ix u)" "v = bc_usr b"
      using edge unfolding base_edges_def by blast
    then obtain r where "map_of ix u = Some r" "b \<in> set (record_bases r)"
      by (cases "map_of ix u") (simp_all add: bases_of_def)
    moreover from this have "(u, r) \<in> set ix" by (simp add: map_of_SomeD)
    ultimately show ?thesis using assms b(2) by (auto simp: list_all_iff)
  qed
  then have "base_edges ix \<subseteq> (measure length)\<inverse>" by auto
  then show ?thesis by (meson acyclic_subset acyclic_converse wf_acyclic wf_measure)
qed

text \<open>A diamond: \<^verbatim>\<open>D\<close> mixes in \<^verbatim>\<open>B\<close> and \<^verbatim>\<open>C\<close>, which both mix in \<^verbatim>\<open>A\<close>.\<close>

definition sample_node :: "string \<Rightarrow> string list \<Rightarrow> ir_record" where
  "sample_node usr mixins =
     \<lparr>r_name = usr, r_usr = usr, r_namespace = [], r_fields = [], r_static_fields = [],
      r_constructors = [], r_methods = [], r_base_class = None,
      r_mixins = map (\<lambda>m. \<lparr>bc_usr = m, bc_name = m\<rparr>) mixins, r_library_base = None, r_destructor = None,
      r_origin = \<lparr>o_file = ''a.cpp'', o_line = 1, o_column = 1\<rparr>\<rparr>"

definition sample_diamond :: "ir_record list" where
  "sample_diamond = [sample_node ''DDD'' [''BB'', ''CC''], sample_node ''BB'' [''A''],
     sample_node ''CC'' [''A''], sample_node ''A'' []]"

theorem mixin_chain_in_order_witness:
  "map bc_usr (expand_mixin_chain (r_mixins (sample_node ''DDD'' [''BB'', ''CC''])) (records_by_usr sample_diamond)) =
      [''A'', ''BB'', ''CC''] \<and>
   deps_before (base_edges (records_by_usr sample_diamond)) {}
     (expand_mixin_chain (r_mixins (sample_node ''DDD'' [''BB'', ''CC''])) (records_by_usr sample_diamond))"
proof
  show "map bc_usr (expand_mixin_chain (r_mixins (sample_node ''DDD'' [''BB'', ''CC'']))
      (records_by_usr sample_diamond)) = [''A'', ''BB'', ''CC'']"
    by code_simp
  have "acyclic (base_edges (records_by_usr sample_diamond))" by (rule acyclic_by_rank) code_simp
  then show "deps_before (base_edges (records_by_usr sample_diamond)) {}
     (expand_mixin_chain (r_mixins (sample_node ''DDD'' [''BB'', ''CC''])) (records_by_usr sample_diamond))"
    using mixin_chain_in_order by blast
qed

end
