(* ===== verification/Mixin_Forms.thy ===== *)
theory Mixin_Forms
  imports Record_Graph Ir_Visitor
begin

text \<open>
  \<open>apply_mixin_forms\<close> of \<^verbatim>\<open>crates/server/src/function_catalog.rs\<close>: what the decision that a record is a
  Dart mixin means for the rest of the module. A base that is a mixin moves from \<open>base_class\<close> to
  \<open>mixins\<close>, a mixin that is constructed somewhere gets a private record with its constructors and a
  static factory per constructor, every construction is rewritten to call the factory, and a type test
  of \<^verbatim>\<open>this\<close> against an ancestor goes away. The lemmas show that the decision is the same for the
  module that comes out, where no class extends a mixin, and that every construction of a mixin in a
  body names a factory the mixin has.
\<close>

section \<open>Bodies of a record\<close>

definition record_bodies :: "ir_record \<Rightarrow> stmt list list" where
  "record_bodies r =
     map c_body (r_constructors r) @ filter_map m_body (r_methods r) @
       (case r_destructor r of None \<Rightarrow> [] | Some b \<Rightarrow> [b])"

definition map_bodies :: "(stmt list \<Rightarrow> stmt list) \<Rightarrow> ir_record \<Rightarrow> ir_record" where
  "map_bodies g r =
     r\<lparr>r_constructors := map (\<lambda>c. c\<lparr>c_body := g (c_body c)\<rparr>) (r_constructors r),
       r_methods := map (\<lambda>m. m\<lparr>m_body := map_option g (m_body m)\<rparr>) (r_methods r),
       r_destructor := map_option g (r_destructor r)\<rparr>"

lemma map_bodies_simps [simp]:
  "r_usr (map_bodies g r) = r_usr r" "r_name (map_bodies g r) = r_name r"
  "r_base_class (map_bodies g r) = r_base_class r" "r_mixins (map_bodies g r) = r_mixins r"
  "record_bases (map_bodies g r) = record_bases r"
  by (simp_all add: map_bodies_def record_bases_def)

lemma filter_map_map_option:
  "filter_map m_body (map (\<lambda>m. m\<lparr>m_body := map_option g (m_body m)\<rparr>) ms) = map g (filter_map m_body ms)"
  by (induction ms) (auto split: option.splits)

lemma record_bodies_map [simp]: "record_bodies (map_bodies g r) = map g (record_bodies r)"
  by (simp add: record_bodies_def map_bodies_def filter_map_map_option split: option.split)

section \<open>Bases\<close>

definition migrate_base :: "string set \<Rightarrow> ir_record \<Rightarrow> ir_record" where
  "migrate_base mixins r =
     (case r_base_class r of
        Some base \<Rightarrow>
          if bc_usr base \<in> mixins then r\<lparr>r_base_class := None, r_mixins := base # r_mixins r\<rparr> else r
      | None \<Rightarrow> r)"

section \<open>Constructions\<close>

fun scan_visit :: "visit \<Rightarrow> string set \<Rightarrow> string set" where
  "scan_visit (VConstruct type_usr type_name i) result = insert type_usr result"
| "scan_visit v result = result"

definition scan_stmts_for_constructions :: "stmt list \<Rightarrow> string set \<Rightarrow> string set" where
  "scan_stmts_for_constructions ss result = snd (run_state (visit_stmts (observing scan_visit) ss) result)"

definition collect_constructed_usrs :: "ir_function list \<Rightarrow> ir_record list \<Rightarrow> string set" where
  "collect_constructed_usrs fs rs =
     fold (\<lambda>r. fold scan_stmts_for_constructions (record_bodies r)) rs
       (fold (\<lambda>f. scan_stmts_for_constructions (f_body f)) fs {})"

definition factory_name :: "nat \<Rightarrow> string" where
  "factory_name i = (if i = 0 then ''create'' else ''create'' @ show_nat (i + 1))"

definition impl_usr_of :: "string \<Rightarrow> string" where
  "impl_usr_of usr = usr @ ''#mixin_impl''"

text \<open>The constructor an aggregate gets: a parameter per field, each assigned by name.\<close>

definition aggregate_constructor :: "ir_record \<Rightarrow> ir_constructor" where
  "aggregate_constructor r =
     \<lparr>c_usr = r_usr r @ ''#mixin_impl_ctor'', c_index = 0,
      c_params = map (\<lambda>f. Param (fl_name f) (fl_ty f) None) (r_fields r), c_inits = [],
      c_body = map (\<lambda>f. SFieldAssign (EThis (TRecord (impl_usr_of (r_usr r)) (''_'' @ r_name r @ ''Impl'')) (r_origin r))
          (fl_name f) (ERef (fl_name f) (fl_ty f) (r_origin r)) (r_origin r)) (r_fields r),
      c_origin = r_origin r\<rparr>"

definition impl_constructors :: "ir_record \<Rightarrow> ir_constructor list" where
  "impl_constructors r =
     (if r_constructors r = [] then [aggregate_constructor r] else r_constructors r)"

definition mixin_factory :: "ir_record \<Rightarrow> ir_constructor \<Rightarrow> ir_method" where
  "mixin_factory r c =
     \<lparr>m_name = factory_name (c_index c), m_usr = r_usr r @ ''#mixin_factory_'' @ show_nat (c_index c),
      m_params = c_params c, m_return_type = TRecord (r_usr r) (r_name r),
      m_body = Some [SReturn (Some (EConstructorCall (impl_usr_of (r_usr r)) (''_'' @ r_name r @ ''Impl'') (c_index c)
        (map (\<lambda>p. ERef (p_name p) (p_ty p) (r_origin r)) (c_params c)) (r_origin r))) (r_origin r)],
      m_is_static = True, m_is_override = False, m_origin = r_origin r\<rparr>"

definition build_mixin_impl :: "ir_record \<Rightarrow> ir_record \<times> ir_method list" where
  "build_mixin_impl r =
     (\<lparr>r_name = ''_'' @ r_name r @ ''Impl'', r_usr = impl_usr_of (r_usr r), r_namespace = r_namespace r,
       r_fields = [], r_static_fields = [], r_constructors = impl_constructors r, r_methods = [],
       r_base_class = None, r_mixins = [\<lparr>bc_usr = r_usr r, bc_name = r_name r\<rparr>], r_library_base = None,
       r_destructor = None, r_origin = r_origin r\<rparr>,
      map (mixin_factory r) (sort_key c_index (impl_constructors r)))"

text \<open>The factories go to the first record of their USR: the entry is removed from the map.\<close>

fun extend_methods :: "(string \<times> ir_method list) list \<Rightarrow> ir_record list \<Rightarrow> ir_record list" where
  "extend_methods factories [] = []"
| "extend_methods factories (r # rs) =
     (case map_of factories (r_usr r) of
        None \<Rightarrow> r # extend_methods factories rs
      | Some ms \<Rightarrow> r\<lparr>r_methods := r_methods r @ ms\<rparr> # extend_methods (AList.delete (r_usr r) factories) rs)"

section \<open>Rewriting\<close>

definition factory_site :: "(string \<times> string) list \<Rightarrow> string \<Rightarrow> string \<Rightarrow> nat option \<Rightarrow> string \<times> nat option" where
  "factory_site construct_rewrite type_usr type_name i =
     (case map_of construct_rewrite type_usr of
        None \<Rightarrow> (type_name, i)
      | Some base \<Rightarrow>
          (base @ ''.'' @ factory_name (case i of None \<Rightarrow> 0 | Some k \<Rightarrow> k), map_option (\<lambda>_. 0) i))"

definition construct_walker :: "(string \<times> string) list \<Rightarrow> walker" where
  "construct_walker construct_rewrite =
     \<lparr>w_type = \<lambda>t. t, w_construct = factory_site construct_rewrite, w_expr = \<lambda>e. e\<rparr>"

definition rewrite_mixin_constructions_in_stmts :: "(string \<times> string) list \<Rightarrow> stmt list \<Rightarrow> stmt list" where
  "rewrite_mixin_constructions_in_stmts construct_rewrite ss =
     fst (run_state (visit_stmts (rewriting (construct_walker construct_rewrite)) ss) ())"

definition is_this :: "expr \<Rightarrow> bool" where
  "is_this e = (case e of EThis t og \<Rightarrow> True | _ \<Rightarrow> False)"

definition is_null_literal :: "expr \<Rightarrow> bool" where
  "is_null_literal e = (case e of ENullLiteral og \<Rightarrow> True | _ \<Rightarrow> False)"

definition provably_true :: "string set \<Rightarrow> expr \<Rightarrow> expr \<Rightarrow> bool" where
  "provably_true ancestors condition else_expr =
     (case condition of
        EIs operand (TRecord target_usr n) og \<Rightarrow>
          is_this operand \<and> is_null_literal else_expr \<and> target_usr \<in> ancestors
      | _ \<Rightarrow> False)"

definition simplify_is_check :: "string set \<Rightarrow> expr \<Rightarrow> expr" where
  "simplify_is_check ancestors e =
     (case e of
        EConditional condition then_expr else_expr t og \<Rightarrow>
          if provably_true ancestors condition else_expr then then_expr else e
      | _ \<Rightarrow> e)"

definition simplify_walker :: "string set \<Rightarrow> walker" where
  "simplify_walker ancestors =
     \<lparr>w_type = \<lambda>t. t, w_construct = \<lambda>u n i. (n, i), w_expr = simplify_is_check ancestors\<rparr>"

definition simplify_provably_true_is_checks_in_stmts :: "string set \<Rightarrow> stmt list \<Rightarrow> stmt list" where
  "simplify_provably_true_is_checks_in_stmts ancestors ss =
     fst (run_state (visit_stmts (rewriting (simplify_walker ancestors)) ss) ())"

section \<open>The pass\<close>

definition built_impls :: "string set \<Rightarrow> string set \<Rightarrow> ir_record list \<Rightarrow> ir_record list" where
  "built_impls mixins constructed rs = filter (\<lambda>r. r_usr r \<in> mixins \<and> r_usr r \<in> constructed) rs"

definition add_impls :: "string set \<Rightarrow> string set \<Rightarrow> ir_record list \<Rightarrow> ir_record list" where
  "add_impls mixins constructed rs =
     (let built = built_impls mixins constructed rs in
      extend_methods (fold (\<lambda>r. hm_put (r_usr r) (snd (build_mixin_impl r))) built []) rs @
        map (\<lambda>r. fst (build_mixin_impl r)) built)"

definition construct_rewrites :: "string set \<Rightarrow> string set \<Rightarrow> ir_record list \<Rightarrow> (string \<times> string) list" where
  "construct_rewrites mixins constructed rs =
     fold (\<lambda>r. hm_put (r_usr r) (r_name r)) (built_impls mixins constructed rs) []"

definition simplify_record :: "(string \<times> string set) list \<Rightarrow> ir_record \<Rightarrow> ir_record" where
  "simplify_record ancestors_by_usr r =
     (case map_of ancestors_by_usr (r_usr r) of
        None \<Rightarrow> r
      | Some ancestors \<Rightarrow> map_bodies (simplify_provably_true_is_checks_in_stmts ancestors) r)"

definition apply_mixin_forms ::
  "ir_function list \<Rightarrow> ir_record list \<Rightarrow> ir_function list \<times> ir_record list" where
  "apply_mixin_forms fs rs =
     (let mixins = mixin_usrs rs in
      if mixins = {} then (fs, rs)
      else
        (let migrated = map (migrate_base mixins) rs;
             ancestors_by_usr = ancestor_closures migrated;
             constructed = collect_constructed_usrs fs migrated;
             extended = add_impls mixins constructed migrated;
             rewrite = rewrite_mixin_constructions_in_stmts (construct_rewrites mixins constructed extended)
         in (map (\<lambda>f. f\<lparr>f_body := rewrite (f_body f)\<rparr>) fs,
             map (simplify_record ancestors_by_usr) (map (map_bodies rewrite) extended))))"

section \<open>The bases after the pass\<close>

text \<open>Only USRs and bases matter to the graph.\<close>

lemma records_by_usr_lookup:
  "map_of (records_by_usr rs) u = map_of (rev (map (\<lambda>r. (r_usr r, r)) rs)) u"
proof -
  have "map_of (fold (\<lambda>r. hm_put (r_usr r) r) rs m) u =
      (case map_of (rev (map (\<lambda>r. (r_usr r, r)) rs)) u of None \<Rightarrow> map_of m u | Some r \<Rightarrow> Some r)" for m
    by (induction rs arbitrary: m) (auto simp: map_add_def split: option.splits)
  then show ?thesis by (simp add: records_by_usr_def split: option.splits)
qed

definition bases_in :: "(string \<times> base_class list) list \<Rightarrow> string \<Rightarrow> base_class list" where
  "bases_in shape u = (case map_of (rev shape) u of None \<Rightarrow> [] | Some bs \<Rightarrow> bs)"

definition bases_shape :: "ir_record list \<Rightarrow> (string \<times> base_class list) list" where
  "bases_shape rs = map (\<lambda>r. (r_usr r, record_bases r)) rs"

lemma bases_of_shape: "bases_of (records_by_usr rs) u = bases_in (bases_shape rs) u"
proof -
  have "map_of (map (\<lambda>r. (r_usr r, record_bases r)) xs) u =
      map_option record_bases (map_of (map (\<lambda>r. (r_usr r, r)) xs) u)" for xs
    by (induction xs) auto
  then show ?thesis
    by (simp add: bases_of_def bases_in_def bases_shape_def records_by_usr_lookup rev_map split: option.splits)
qed

lemma base_edges_shape:
  "base_edges (records_by_usr rs) = {(u, bc_usr b) | u b. b \<in> set (bases_in (bases_shape rs) u)}"
  by (simp add: base_edges_def bases_of_shape)

lemma migrate_base_simps [simp]:
  "r_usr (migrate_base M r) = r_usr r" "r_name (migrate_base M r) = r_name r"
  "record_bases (migrate_base M r) = record_bases r" "record_bodies (migrate_base M r) = record_bodies r"
  "r_constructors (migrate_base M r) = r_constructors r" "r_methods (migrate_base M r) = r_methods r"
  by (auto simp: migrate_base_def record_bases_def record_bodies_def split: option.splits)

lemma migrated_base_class: "r_base_class (migrate_base M r) = Some b \<Longrightarrow> bc_usr b \<notin> M"
  by (auto simp: migrate_base_def split: option.splits if_splits)

lemma migrated_mixins:
  "set (r_mixins (migrate_base M r)) \<subseteq> set (r_mixins r) \<union> {b. bc_usr b \<in> M}"
  "set (r_mixins r) \<subseteq> set (r_mixins (migrate_base M r))"
  by (auto simp: migrate_base_def split: option.splits if_splits)

lemma extend_methods_shape:
  "map (\<lambda>r. (r_usr r, r_name r, r_base_class r, r_mixins r)) (extend_methods factories rs) =
    map (\<lambda>r. (r_usr r, r_name r, r_base_class r, r_mixins r)) rs"
  by (induction factories rs rule: extend_methods.induct) (auto split: option.splits)

definition linked :: "ir_record \<Rightarrow> string \<times> base_class option \<times> base_class list" where
  "linked r = (r_usr r, r_base_class r, r_mixins r)"

lemma linked_simps [simp]:
  "linked (map_bodies g r) = linked r" "linked (simplify_record A r) = linked r"
  by (auto simp: linked_def simplify_record_def split: option.splits)

lemma linked_extend_methods: "map linked (extend_methods factories rs) = map linked rs"
  by (induction factories rs rule: extend_methods.induct) (auto simp: linked_def split: option.splits)

lemma bases_shape_linked: "bases_shape rs = map (\<lambda>(u, b, ms). (u, (case b of None \<Rightarrow> [] | Some b \<Rightarrow> [b]) @ ms)) (map linked rs)"
  by (simp add: bases_shape_def linked_def record_bases_def)

definition mixin_roots :: "ir_record list \<Rightarrow> string set" where
  "mixin_roots rs = bc_usr ` (\<Union>r \<in> set rs. set (r_mixins r))"

lemma mixin_roots_linked: "mixin_roots rs = bc_usr ` \<Union> ((\<lambda>l. set (snd (snd l))) ` set (map linked rs))"
  by (simp add: mixin_roots_def linked_def image_image)

lemma mixin_usrs_reached: "mixin_usrs rs = (base_edges (records_by_usr rs))\<^sup>* `` mixin_roots rs"
proof -
  have "set (rev (concat (map (\<lambda>r. map bc_usr (r_mixins r)) rs))) = mixin_roots rs"
    by (auto simp: mixin_roots_def)
  then show ?thesis
    using mixin_loop_closure [of "records_by_usr rs" "{}"] by (simp only: mixin_usrs_def) simp
qed

definition impl_usrs :: "ir_record list \<Rightarrow> string set" where
  "impl_usrs rs = impl_usr_of ` r_usr ` set rs"

text \<open>The records of the result, as far as the graph sees them.\<close>

lemma apply_mixin_forms_linked:
  assumes "mixin_usrs rs \<noteq> {}"
  shows "map linked (snd (apply_mixin_forms fs rs)) =
    map linked (map (migrate_base (mixin_usrs rs)) rs) @
    map (\<lambda>r. (impl_usr_of (r_usr r), None, [\<lparr>bc_usr = r_usr r, bc_name = r_name r\<rparr>]))
      (built_impls (mixin_usrs rs)
        (collect_constructed_usrs fs (map (migrate_base (mixin_usrs rs)) rs))
        (map (migrate_base (mixin_usrs rs)) rs))"
  using assms
  by (simp add: apply_mixin_forms_def Let_def add_impls_def comp_def linked_extend_methods
      build_mixin_impl_def linked_def [of "ir_record.make a b c d e f g h i j k l" for a b c d e f g h i j k l, unfolded ir_record.make_def])


section \<open>The decision is settled\<close>

lemma bases_in_entry: "b \<in> set (bases_in shape u) \<Longrightarrow> \<exists>bs. (u, bs) \<in> set shape \<and> b \<in> set bs"
  by (cases "map_of (rev shape) u") (auto simp: bases_in_def dest!: map_of_SomeD)

lemma bases_in_append:
  "bases_in (xs @ ys) u = (if u \<in> fst ` set ys then bases_in ys u else bases_in xs u)"
  by (auto simp: bases_in_def map_add_def dest!: map_of_SomeD split: option.splits)
    (metis fst_conv image_eqI map_of_eq_None_iff option.distinct(1) set_rev)+

lemma closed_rtrancl_Image: "E `` S \<subseteq> S \<Longrightarrow> R \<subseteq> S \<Longrightarrow> E\<^sup>* `` R \<subseteq> S"
  by (metis Image_closed_trancl Image_mono order_refl)

lemma mixin_usrs_extended:
  assumes "map linked rs' = map linked rs @ map (\<lambda>r. (impl_usr_of (r_usr r), None, [\<lparr>bc_usr = r_usr r, bc_name = r_name r\<rparr>])) built"
    and built: "\<And>r. r \<in> set built \<Longrightarrow> r_usr r \<in> mixin_usrs rs"
    and fresh: "r_usr ` set rs \<inter> (\<lambda>r. impl_usr_of (r_usr r)) ` set built = {}"
  shows "mixin_usrs rs' = mixin_usrs rs"
proof -
  let ?E = "base_edges (records_by_usr rs)" and ?E' = "base_edges (records_by_usr rs')" and ?M = "mixin_usrs rs"
  let ?impls = "map (\<lambda>r. (impl_usr_of (r_usr r), [\<lparr>bc_usr = r_usr r, bc_name = r_name r\<rparr>])) built"
  have shape: "bases_shape rs' = bases_shape rs @ ?impls"
    unfolding bases_shape_linked assms(1) by (simp add: comp_def)
  have bases: "bases_in (bases_shape rs') u =
      (if u \<in> fst ` set ?impls then bases_in ?impls u else bases_in (bases_shape rs) u)" for u
    unfolding shape by (rule bases_in_append)
  have roots: "mixin_roots rs' = mixin_roots rs \<union> r_usr ` set built"
    unfolding mixin_roots_linked assms(1) by (auto simp: image_Un image_UN image_image)
  have sub: "?E \<subseteq> ?E'"
  proof
    fix e assume "e \<in> ?E"
    then obtain u b where e: "e = (u, bc_usr b)" "b \<in> set (bases_in (bases_shape rs) u)"
      by (auto simp: base_edges_shape)
    then have "u \<in> r_usr ` set rs" by (auto simp: bases_shape_def dest!: bases_in_entry)
    then have "u \<notin> fst ` set ?impls" using fresh by auto
    then show "e \<in> ?E'" using e by (auto simp: base_edges_shape bases)
  qed
  have impl_bases: "bc_usr ` set (bases_in ?impls u) \<subseteq> ?M" for u
    using built by (auto dest!: bases_in_entry)
  have M: "?M = ?E\<^sup>* `` mixin_roots rs" by (rule mixin_usrs_reached)
  then have closed: "?E `` ?M \<subseteq> ?M" by (auto intro: rtrancl_into_rtrancl)
  have "v \<in> ?M" if "(u, v) \<in> ?E'" "u \<in> ?M" for u v
  proof -
    obtain b where b: "v = bc_usr b" "b \<in> set (bases_in (bases_shape rs') u)"
      using \<open>(u, v) \<in> ?E'\<close> by (auto simp: base_edges_shape)
    show ?thesis
    proof (cases "u \<in> fst ` set ?impls")
      case True
      then show ?thesis using b impl_bases [of u] by (simp add: bases) blast
    next
      case False
      then have "(u, v) \<in> ?E" using b by (auto simp: base_edges_shape bases)
      then show ?thesis using closed that(2) by blast
    qed
  qed
  then have "?E' `` ?M \<subseteq> ?M" by blast
  moreover have "mixin_roots rs' \<subseteq> ?M" unfolding roots using built M by auto
  ultimately have "mixin_usrs rs' \<subseteq> ?M"
    unfolding mixin_usrs_reached [of rs'] by (rule closed_rtrancl_Image)
  moreover have "?M \<subseteq> mixin_usrs rs'"
    unfolding mixin_usrs_reached roots using rtrancl_mono [OF sub] by auto
  ultimately show ?thesis by (rule subset_antisym)
qed

lemma mixin_usrs_migrated: "mixin_usrs (map (migrate_base (mixin_usrs rs)) rs) = mixin_usrs rs"
proof -
  let ?M = "mixin_usrs rs" and ?rs = "map (migrate_base (mixin_usrs rs)) rs"
  have edges: "base_edges (records_by_usr ?rs) = base_edges (records_by_usr rs)"
    by (simp add: base_edges_shape bases_shape_def comp_def)
  have M: "?M = (base_edges (records_by_usr rs))\<^sup>* `` mixin_roots rs" by (rule mixin_usrs_reached)
  then have closed: "base_edges (records_by_usr rs) `` ?M \<subseteq> ?M" by (auto intro: rtrancl_into_rtrancl)
  have "mixin_roots rs \<subseteq> ?M" using M by auto
  moreover have "mixin_roots ?rs \<subseteq> mixin_roots rs \<union> ?M"
    using migrated_mixins(1) [of ?M] by (fastforce simp: mixin_roots_def)
  ultimately have "mixin_roots ?rs \<subseteq> ?M" by blast
  then have "mixin_usrs ?rs \<subseteq> ?M"
    unfolding mixin_usrs_reached [of ?rs] edges by (rule closed_rtrancl_Image [OF closed])
  moreover have "mixin_roots rs \<subseteq> mixin_roots ?rs"
    using migrated_mixins(2) [of _ ?M] by (fastforce simp: mixin_roots_def)
  then have "(base_edges (records_by_usr rs))\<^sup>* `` mixin_roots rs \<subseteq> mixin_usrs ?rs"
    unfolding mixin_usrs_reached [of ?rs] edges by (rule Image_mono [OF order_refl])
  then have "?M \<subseteq> mixin_usrs ?rs" by (simp only: M [symmetric])
  ultimately show ?thesis by (rule subset_antisym)
qed


section \<open>Constructions in bodies\<close>

definition module_bodies :: "ir_function list \<Rightarrow> ir_record list \<Rightarrow> stmt list list" where
  "module_bodies fs rs = map f_body fs @ concat (map record_bodies rs)"

definition body_constructs :: "stmt list list \<Rightarrow> (string \<times> string \<times> nat option) set" where
  "body_constructs bodies = {(u, n, i). VConstruct u n i \<in> set (concat (map visits_stmts bodies))}"

lemma body_constructs_append [simp]:
  "body_constructs (xs @ ys) = body_constructs xs \<union> body_constructs ys"
  by (auto simp: body_constructs_def)

lemma body_constructs_concat: "body_constructs (concat bs) = \<Union> (body_constructs ` set bs)"
  by (induction bs) (auto simp: body_constructs_def)

lemma scan_stmts_run:
  "scan_stmts_for_constructions ss result = fold scan_visit (visits_stmts ss) result"
  by (simp add: scan_stmts_for_constructions_def visit_stmts_def visits_stmts_def visit_observing
      seq_logs [where k = scan_visit and v = visits_stmt])

lemma fold_scan_visit: "fold scan_visit vs result = result \<union> {u. \<exists>n i. VConstruct u n i \<in> set vs}"
proof (induction vs arbitrary: result)
  case (Cons v vs)
  then show ?case by (cases v) auto
qed simp

lemma collect_constructed_usrs_constructs:
  "collect_constructed_usrs fs rs = fst ` body_constructs (module_bodies fs rs)"
proof -
  have bodies: "fold scan_stmts_for_constructions bs result = result \<union> fst ` body_constructs bs" for bs result
    by (induction bs arbitrary: result)
      (auto simp: scan_stmts_run fold_scan_visit body_constructs_def image_iff)
  have "fold (\<lambda>r. fold scan_stmts_for_constructions (record_bodies r)) rs result =
      fold scan_stmts_for_constructions (concat (map record_bodies rs)) result" for result
    by (induction rs arbitrary: result) simp_all
  moreover have "fold (\<lambda>f. scan_stmts_for_constructions (f_body f)) fs result =
      fold scan_stmts_for_constructions (map f_body fs) result" for result
    by (simp add: fold_map comp_def)
  ultimately show ?thesis
    by (simp add: collect_constructed_usrs_def module_bodies_def bodies image_Un Un_assoc)
qed

interpretation construct: shape_walk "construct_walker W" for W
  by unfold_locales
    (auto simp: construct_walker_def factory_site_def butlast_visits_type butlast_visits_expr split: option.splits)

lemma rewrite_mixin_constructions_walk:
  "rewrite_mixin_constructions_in_stmts W ss = map (walk_stmt (construct_walker W)) ss"
  by (simp add: rewrite_mixin_constructions_in_stmts_def visit_stmts_rewriting)

lemma rewritten_constructs:
  "body_constructs (map (rewrite_mixin_constructions_in_stmts W) bodies) =
    (\<lambda>(u, n, i). (u, factory_site W u n i)) ` body_constructs bodies"
proof -
  have "concat (map visits_stmts (map (rewrite_mixin_constructions_in_stmts W) bodies)) =
      map (walk_visit (construct_walker W)) (concat (map visits_stmts bodies))"
    by (induction bodies) (simp_all add: rewrite_mixin_constructions_walk construct.visits_walk_stmts)
  moreover have "VConstruct u n i \<in> walk_visit (construct_walker W) ` vs \<longleftrightarrow>
      (\<exists>n' i'. VConstruct u n' i' \<in> vs \<and> (n, i) = factory_site W u n' i')" for u n i vs
  proof
    assume "VConstruct u n i \<in> walk_visit (construct_walker W) ` vs"
    then obtain v where "v \<in> vs" "VConstruct u n i = walk_visit (construct_walker W) v" by blast
    then show "\<exists>n' i'. VConstruct u n' i' \<in> vs \<and> (n, i) = factory_site W u n' i'"
      by (cases v) (auto simp: construct_walker_def)
  next
    assume "\<exists>n' i'. VConstruct u n' i' \<in> vs \<and> (n, i) = factory_site W u n' i'"
    then obtain n' i' where v: "VConstruct u n' i' \<in> vs" "(n, i) = factory_site W u n' i'" by blast
    then have "walk_visit (construct_walker W) (VConstruct u n' i') = VConstruct u n i"
      by (simp add: construct_walker_def flip: v(2))
    then show "VConstruct u n i \<in> walk_visit (construct_walker W) ` vs" using v(1) by (metis imageI)
  qed
  ultimately have eq: "(u, n, i) \<in> body_constructs (map (rewrite_mixin_constructions_in_stmts W) bodies) \<longleftrightarrow>
      (\<exists>n' i'. (u, n', i') \<in> body_constructs bodies \<and> (n, i) = factory_site W u n' i')" for u n i
    unfolding body_constructs_def by (simp only: set_map mem_Collect_eq prod.case)
  show ?thesis
  proof (rule set_eqI, clarsimp simp only: split_paired_all)
    fix u n i
    show "((u, n, i) \<in> body_constructs (map (rewrite_mixin_constructions_in_stmts W) bodies)) =
        ((u, n, i) \<in> (\<lambda>(u, n, i). (u, factory_site W u n i)) ` body_constructs bodies)"
      unfolding eq by force
  qed
qed

text \<open>
  A visit after the simplification: a construction that was there before, and no test that is provably
  true.
\<close>

fun simplified_visit :: "string set \<Rightarrow> (string \<times> string \<times> nat option) set \<Rightarrow> visit \<Rightarrow> bool" where
  "simplified_visit ancestors cs (VConstruct u n i) = ((u, n, i) \<in> cs)"
| "simplified_visit ancestors cs (VExpr e) = (simplify_is_check ancestors e = e)"
| "simplified_visit ancestors cs (VType t) = True"

lemma simplify_parts:
  assumes "list_all (simplified_visit A cs) (butlast (visits_expr e))"
  shows "list_all (simplified_visit A cs) (visits_expr (simplify_is_check A e))"
proof (cases "simplify_is_check A e = e")
  case True
  have "list_all (simplified_visit A cs) (visits_expr e)"
    by (subst butlast_visits_expr [symmetric]) (simp add: assms True)
  then show ?thesis by (simp only: True)
next
  case False
  then obtain c a b t og where e: "e = EConditional c a b t og" "simplify_is_check A e = a"
    by (cases e) (auto simp: simplify_is_check_def split: if_splits)
  then show ?thesis using assms by (simp add: butlast_append)
qed

lemma simplified_type_parts:
  "list_all (simplified_visit A cs) (visits_type t)"
  by (induction t) auto

interpretation simplify: ensuring_walk "simplify_walker A" "\<lambda>u n i. (u, n, i) \<in> cs" "simplified_visit A cs" for A cs
  by unfold_locales
    (simp_all add: simplify_walker_def simplify_parts simplified_type_parts)

lemma simplified_constructs:
  "body_constructs (map (simplify_provably_true_is_checks_in_stmts A) bodies) \<subseteq> body_constructs bodies"
proof -
  let ?cs = "body_constructs bodies"
  have "list_all (construct_visit (\<lambda>u n i. (u, n, i) \<in> ?cs)) (visits_stmts ss)" if "ss \<in> set bodies" for ss
  proof -
    have "construct_visit (\<lambda>u n i. (u, n, i) \<in> ?cs) v" if "v \<in> set (visits_stmts ss)" for v
    proof (cases v)
      case (VConstruct u n i)
      then have "VConstruct u n i \<in> set (concat (map visits_stmts bodies))"
        using that \<open>ss \<in> set bodies\<close> by auto
      with VConstruct show ?thesis by (simp add: body_constructs_def)
    qed simp_all
    then show ?thesis by (simp add: list_all_iff)
  qed
  from simplify.ensured_stmts [OF this, of _ A]
  have "list_all (simplified_visit A ?cs) (visits_stmts (simplify_provably_true_is_checks_in_stmts A ss))"
    if "ss \<in> set bodies" for ss
    using that by (simp add: simplify_provably_true_is_checks_in_stmts_def visit_stmts_rewriting)
  then show ?thesis by (fastforce simp: body_constructs_def list_all_iff)
qed


section \<open>What the impls add\<close>

definition with_factories :: "string set \<Rightarrow> string set \<Rightarrow> ir_record \<Rightarrow> ir_record" where
  "with_factories M C r =
     (if r_usr r \<in> M \<and> r_usr r \<in> C then r\<lparr>r_methods := r_methods r @ snd (build_mixin_impl r)\<rparr> else r)"

lemma extend_methods_distinct:
  "distinct (map r_usr rs) \<Longrightarrow>
    extend_methods factories rs =
      map (\<lambda>r. case map_of factories (r_usr r) of None \<Rightarrow> r | Some ms \<Rightarrow> r\<lparr>r_methods := r_methods r @ ms\<rparr>) rs"
proof (induction factories rs rule: extend_methods.induct)
  case (2 factories r rs)
  have other: "map_of (AList.delete (r_usr r) factories) (r_usr x) = map_of factories (r_usr x)"
    if "x \<in> set rs" for x
  proof -
    have "r_usr x \<in> r_usr ` set rs" using that by (rule imageI)
    then have "r_usr x \<noteq> r_usr r" using 2(3) by auto
    then show ?thesis by (simp add: delete_conv')
  qed
  show ?case
  proof (cases "map_of factories (r_usr r)")
    case None
    then show ?thesis using 2 by simp
  next
    case (Some ms)
    then show ?thesis using 2 by (simp add: other cong: map_cong)
  qed
qed simp

lemma factories_lookup:
  "map_of (fold (\<lambda>r. hm_put (r_usr r) (g r)) rs m) u =
    (case List.find (\<lambda>r. r_usr r = u) (rev rs) of None \<Rightarrow> map_of m u | Some r \<Rightarrow> Some (g r))"
  by (induction rs arbitrary: m) (auto simp: find_append split: option.splits)

lemma find_distinct:
  assumes "distinct (map f rs)" and "r \<in> set rs" and "f r = u"
  shows "List.find (\<lambda>r. f r = u) rs = Some r"
  using assms by (induction rs) auto

lemma add_impls_distinct:
  assumes "distinct (map r_usr rs)"
  shows "add_impls M C rs =
    map (with_factories M C) rs @ map (\<lambda>r. fst (build_mixin_impl r)) (built_impls M C rs)"
proof -
  have "map_of (fold (\<lambda>r. hm_put (r_usr r) (snd (build_mixin_impl r))) (built_impls M C rs) []) (r_usr r) =
      (if r_usr r \<in> M \<and> r_usr r \<in> C then Some (snd (build_mixin_impl r)) else None)" if "r \<in> set rs" for r
  proof (cases "r_usr r \<in> M \<and> r_usr r \<in> C")
    case True
    have "distinct (map r_usr (rev (built_impls M C rs)))"
      using assms by (simp add: built_impls_def distinct_map_filter flip: rev_map)
    from find_distinct [OF this, of r "r_usr r"] show ?thesis
      using True that by (simp add: factories_lookup built_impls_def)
  next
    case False
    then have "List.find (\<lambda>x. r_usr x = r_usr r) (rev (built_impls M C rs)) = None"
      by (auto simp: find_None_iff built_impls_def)
    then show ?thesis using False by (simp add: factories_lookup)
  qed
  then show ?thesis
    using assms by (simp add: add_impls_def Let_def extend_methods_distinct with_factories_def)
qed

lemma no_construct_in_type [simp]: "VConstruct u n i \<notin> set (visits_type t)"
  by (induction t) auto

lemma factory_body_constructs:
  "m_body (mixin_factory r c) = Some ss \<Longrightarrow> VConstruct u n i \<in> set (visits_stmts ss) \<Longrightarrow> u = impl_usr_of (r_usr r)"
  by (auto simp: mixin_factory_def visits_stmts_def)

lemma factory_constructs:
  "body_constructs (filter_map m_body (snd (build_mixin_impl r))) \<subseteq> {impl_usr_of (r_usr r)} \<times> UNIV"
  using factory_body_constructs by (fastforce simp: build_mixin_impl_def body_constructs_def set_filter_map)

lemma aggregate_constructs: "VConstruct u n i \<notin> set (visits_stmts (c_body (aggregate_constructor r)))"
  by (auto simp: aggregate_constructor_def visits_stmts_def)

lemma impl_constructs:
  "body_constructs (record_bodies (fst (build_mixin_impl r))) \<subseteq> body_constructs (record_bodies r)"
  by (cases "r_constructors r = []")
    (auto simp: build_mixin_impl_def record_bodies_def impl_constructors_def aggregate_constructs
      body_constructs_def)

lemma with_factories_constructs:
  "body_constructs (record_bodies (with_factories M C r)) \<subseteq>
    body_constructs (record_bodies r) \<union> {impl_usr_of (r_usr r)} \<times> UNIV"
  using factory_constructs [of r]
  by (auto simp: with_factories_def record_bodies_def filter_map_append)

lemma with_factories_usr [simp]: "r_usr (with_factories M C r) = r_usr r" "r_name (with_factories M C r) = r_name r"
  by (simp_all add: with_factories_def)

lemma extended_constructs:
  assumes "distinct (map r_usr rs)"
  shows "body_constructs (module_bodies fs (add_impls M C rs)) \<subseteq>
    body_constructs (module_bodies fs rs) \<union> impl_usrs rs \<times> UNIV"
proof -
  have "body_constructs (record_bodies r') \<subseteq> body_constructs (module_bodies fs rs) \<union> impl_usrs rs \<times> UNIV"
    if "r' \<in> set (add_impls M C rs)" for r'
  proof -
    have "r' \<in> with_factories M C ` set rs \<union> (\<lambda>r. fst (build_mixin_impl r)) ` set rs"
      using that by (auto simp: add_impls_distinct [OF assms] built_impls_def)
    then obtain r where r: "r \<in> set rs" "r' = with_factories M C r \<or> r' = fst (build_mixin_impl r)"
      by blast
    then have "body_constructs (record_bodies r') \<subseteq>
        body_constructs (record_bodies r) \<union> {impl_usr_of (r_usr r)} \<times> UNIV"
      using with_factories_constructs impl_constructs by blast
    moreover have "body_constructs (record_bodies r) \<subseteq> body_constructs (module_bodies fs rs)"
      using r(1) by (auto simp: module_bodies_def body_constructs_concat)
    moreover have "impl_usr_of (r_usr r) \<in> impl_usrs rs" using r(1) by (simp add: impl_usrs_def)
    ultimately show ?thesis by blast
  qed
  then show ?thesis
    by (auto simp: module_bodies_def body_constructs_concat)
qed


section \<open>Properties\<close>

text \<open>
  C11. The decision which records are mixins is settled: the emitter, which decides again from the module
  the pass returns, comes to the same set, and in that module no class extends a mixin. The USR of a
  private record is not that of another one.
\<close>

theorem mixin_decision_settled:
  assumes fresh: "r_usr ` set rs \<inter> impl_usrs rs = {}"
  shows "mixin_usrs (snd (apply_mixin_forms fs rs)) = mixin_usrs rs \<and>
    (\<forall>r \<in> set (snd (apply_mixin_forms fs rs)).
       case r_base_class r of None \<Rightarrow> True | Some b \<Rightarrow> bc_usr b \<notin> mixin_usrs rs)"
proof (cases "mixin_usrs rs = {}")
  case True
  then show ?thesis by (simp add: apply_mixin_forms_def split: option.split)
next
  case False
  let ?M = "mixin_usrs rs"
  let ?migrated = "map (migrate_base ?M) rs"
  let ?built = "built_impls ?M (collect_constructed_usrs fs ?migrated) ?migrated"
  note linked_result = apply_mixin_forms_linked [OF False, of fs]
  have "r_usr ` set ?migrated \<inter> (\<lambda>r. impl_usr_of (r_usr r)) ` set ?built = {}"
    using fresh by (auto simp: built_impls_def impl_usrs_def)
  then have "mixin_usrs (snd (apply_mixin_forms fs rs)) = mixin_usrs ?migrated"
    by (intro mixin_usrs_extended [OF linked_result]) (simp_all add: mixin_usrs_migrated built_impls_def)
  moreover have "bc_usr b \<notin> ?M"
    if "r \<in> set (snd (apply_mixin_forms fs rs))" "r_base_class r = Some b" for r b
  proof -
    have "linked r \<in> set (map linked (snd (apply_mixin_forms fs rs)))" using that(1) by simp
    then have "r_base_class r \<in> insert None (r_base_class ` set ?migrated)"
      unfolding linked_result by (auto simp: linked_def)
    then show ?thesis using that(2) by (auto dest: migrated_base_class sym)
  qed
  ultimately show ?thesis by (auto simp: mixin_usrs_migrated split: option.split)
qed

text \<open>The factory a construction with constructor index \<open>i\<close> names.\<close>

definition named_factory :: "ir_record \<Rightarrow> string \<Rightarrow> ir_method \<Rightarrow> bool" where
  "named_factory r n m \<longleftrightarrow> m_is_static m \<and> n = r_name r @ ''.'' @ m_name m"

lemma map_bodies_methods:
  "m \<in> set (r_methods r) \<Longrightarrow>
    \<exists>m' \<in> set (r_methods (map_bodies g r)). m_is_static m' = m_is_static m \<and> m_name m' = m_name m"
  by (force simp: map_bodies_def)

lemma simplify_record_methods:
  "m \<in> set (r_methods r) \<Longrightarrow>
    \<exists>m' \<in> set (r_methods (simplify_record A r)). m_is_static m' = m_is_static m \<and> m_name m' = m_name m"
  using map_bodies_methods by (fastforce simp: simplify_record_def split: option.split)

lemma simplify_record_constructs:
  "body_constructs (concat (map record_bodies (map (simplify_record A) rs))) \<subseteq>
    body_constructs (concat (map record_bodies rs))"
proof -
  have "body_constructs (record_bodies (simplify_record A r)) \<subseteq> body_constructs (record_bodies r)" for r
    using simplified_constructs by (auto simp: simplify_record_def split: option.split)
  then show ?thesis by (fastforce simp: body_constructs_concat)
qed

lemma apply_mixin_forms_constructs:
  fixes fs rs
  assumes "mixin_usrs rs \<noteq> {}"
  defines "migrated \<equiv> map (migrate_base (mixin_usrs rs)) rs"
  defines "C \<equiv> collect_constructed_usrs fs migrated"
  defines "W \<equiv> construct_rewrites (mixin_usrs rs) C (add_impls (mixin_usrs rs) C migrated)"
  shows "body_constructs (module_bodies (fst (apply_mixin_forms fs rs)) (snd (apply_mixin_forms fs rs))) \<subseteq>
    (\<lambda>(u, n, i). (u, factory_site W u n i)) `
      body_constructs (module_bodies fs (add_impls (mixin_usrs rs) C migrated))"
proof -
  let ?ext = "add_impls (mixin_usrs rs) C migrated" and ?g = "rewrite_mixin_constructions_in_stmts W"
  have result: "apply_mixin_forms fs rs = (map (\<lambda>f. f\<lparr>f_body := ?g (f_body f)\<rparr>) fs,
      map (simplify_record (ancestor_closures migrated)) (map (map_bodies ?g) ?ext))"
    using assms(1) by (simp add: apply_mixin_forms_def Let_def migrated_def C_def W_def)
  have "map ?g (module_bodies fs ?ext) =
      map f_body (fst (apply_mixin_forms fs rs)) @ concat (map record_bodies (map (map_bodies ?g) ?ext))"
    by (simp add: result module_bodies_def map_concat comp_def)
  moreover have "body_constructs (concat (map record_bodies (snd (apply_mixin_forms fs rs)))) \<subseteq>
      body_constructs (concat (map record_bodies (map (map_bodies ?g) ?ext)))"
    unfolding result snd_conv by (rule simplify_record_constructs)
  ultimately show ?thesis
    unfolding rewritten_constructs [symmetric] module_bodies_def [of "fst _"] body_constructs_append
    by (metis Un_mono body_constructs_append order_refl)
qed


text \<open>A construction site names a constructor its record has; an aggregate counts as having the first.\<close>

definition sites_ok :: "ir_record list \<Rightarrow> (string \<times> string \<times> nat option) set \<Rightarrow> bool" where
  "sites_ok rs cs \<longleftrightarrow>
     (\<forall>(u, n, i) \<in> cs. \<forall>r \<in> set rs. r_usr r = u \<longrightarrow>
        (case i of None \<Rightarrow> 0 | Some k \<Rightarrow> k) \<in> c_index ` set (impl_constructors r))"

text \<open>The private record of a mixin, as the pass adds it, before the bodies are rewritten.\<close>

lemma constructed_mixin_factory:
  assumes "distinct (map r_usr rs)" and "r \<in> set rs" and "r_usr r \<in> M" "r_usr r \<in> C"
    and "k \<in> c_index ` set (impl_constructors r)"
  shows "\<exists>r' \<in> set (add_impls M C rs). r_usr r' = r_usr r \<and> r_name r' = r_name r \<and>
    (\<exists>m \<in> set (r_methods r'). m_is_static m \<and> m_name m = factory_name k)"
proof -
  have "with_factories M C r \<in> set (add_impls M C rs)"
    using assms(1,2) by (simp add: add_impls_distinct)
  moreover obtain c where "c \<in> set (impl_constructors r)" "c_index c = k" using assms(5) by blast
  then have "mixin_factory r c \<in> set (r_methods (with_factories M C r))"
    using assms(3,4) by (simp add: with_factories_def build_mixin_impl_def)
  moreover have "m_name (mixin_factory r c) = factory_name k" "m_is_static (mixin_factory r c)"
    using \<open>c_index c = k\<close> by (simp_all add: mixin_factory_def)
  ultimately show ?thesis by (metis with_factories_usr)
qed

lemma construct_rewrites_name:
  assumes "distinct (map r_usr rs)" and "r \<in> set rs" and "r_usr r \<in> M" "r_usr r \<in> C"
    and "r_usr r \<notin> impl_usrs rs"
  shows "map_of (construct_rewrites M C (add_impls M C rs)) (r_usr r) = Some (r_name r)"
proof -
  let ?built = "built_impls M C (add_impls M C rs)"
  have "List.find (\<lambda>x. r_usr x = r_usr r) (rev ?built) \<noteq> None"
  proof
    have "with_factories M C r \<in> set ?built"
      using assms(2-4) by (simp add: built_impls_def add_impls_distinct [OF assms(1)])
    moreover assume "List.find (\<lambda>x. r_usr x = r_usr r) (rev ?built) = None"
    ultimately show False using find_None_all [of "\<lambda>x. r_usr x = r_usr r" "rev ?built" "with_factories M C r"] by simp
  qed
  then obtain x where x: "List.find (\<lambda>x. r_usr x = r_usr r) (rev ?built) = Some x" by blast
  then have "x \<in> set (add_impls M C rs)" "r_usr x = r_usr r"
    by (auto dest!: find_Some_in_set simp: built_impls_def)
  moreover have "r_usr (fst (build_mixin_impl y)) \<noteq> r_usr r" if "y \<in> set rs" for y
  proof -
    have "impl_usr_of (r_usr y) \<in> impl_usrs rs" using that by (simp add: impl_usrs_def)
    then show ?thesis using assms(5) by (auto simp: build_mixin_impl_def)
  qed
  ultimately obtain y where "y \<in> set rs" "x = with_factories M C y"
    by (auto simp: add_impls_distinct [OF assms(1)] built_impls_def)
  moreover from this have "y = r"
    using assms(1,2) \<open>r_usr x = r_usr r\<close> by (auto simp: distinct_map dest: inj_onD)
  ultimately show ?thesis
    using factories_lookup [of r_name ?built "[]" "r_usr r"] x by (simp add: construct_rewrites_def)
qed

text \<open>
  C12. Every construction of a mixin in a body of the module that comes out names a static factory that
  the mixin has, with no constructor index left to print. In the module that goes in, USRs are distinct
  and every construction has the index of a constructor of its record.
\<close>

theorem mixins_built_by_factories:
  assumes distinct: "distinct (map r_usr rs)" and fresh: "r_usr ` set rs \<inter> impl_usrs rs = {}"
    and sites: "sites_ok rs (body_constructs (module_bodies fs rs))"
    and site: "(u, n, i) \<in> body_constructs (module_bodies (fst (apply_mixin_forms fs rs)) (snd (apply_mixin_forms fs rs)))"
    and mixin: "u \<in> mixin_usrs rs \<inter> r_usr ` set rs"
  shows "i \<in> {None, Some 0} \<and>
    (\<exists>r \<in> set (snd (apply_mixin_forms fs rs)). r_usr r = u \<and> (\<exists>m \<in> set (r_methods r). named_factory r n m))"
proof -
  have nonempty: "mixin_usrs rs \<noteq> {}" using mixin by auto
  let ?M = "mixin_usrs rs"
  let ?migrated = "map (migrate_base ?M) rs"
  let ?C = "collect_constructed_usrs fs ?migrated"
  let ?ext = "add_impls ?M ?C ?migrated"
  let ?W = "construct_rewrites ?M ?C ?ext"
  have bodies: "module_bodies fs ?migrated = module_bodies fs rs"
    by (simp add: module_bodies_def comp_def)
  have dist: "distinct (map r_usr ?migrated)" using distinct by (simp add: comp_def)
  have impls: "impl_usrs ?migrated = impl_usrs rs" by (simp add: impl_usrs_def image_image)
  obtain n0 i0 where before: "(u, n0, i0) \<in> body_constructs (module_bodies fs ?ext)"
      "(n, i) = factory_site ?W u n0 i0"
    using apply_mixin_forms_constructs [OF nonempty, of fs] site by auto
  have "u \<notin> impl_usrs rs" using mixin fresh by auto
  then have original: "(u, n0, i0) \<in> body_constructs (module_bodies fs rs)"
    using before(1) extended_constructs [OF dist, of fs ?M ?C] unfolding bodies impls by auto
  then have constructed: "u \<in> ?C" unfolding collect_constructed_usrs_constructs bodies by force
  obtain r where r: "r \<in> set rs" "r_usr r = u" using mixin by auto
  let ?k = "case i0 of None \<Rightarrow> 0 | Some k \<Rightarrow> k" and ?r = "migrate_base ?M r"
  have index: "?k \<in> c_index ` set (impl_constructors r)"
    using sites original r by (fastforce simp: sites_ok_def)
  have same: "c_index ` set (impl_constructors ?r) = c_index ` set (impl_constructors r)"
    by (simp add: impl_constructors_def aggregate_constructor_def)
  have "map_of ?W (r_usr ?r) = Some (r_name ?r)"
    by (rule construct_rewrites_name [OF dist])
      (use r mixin constructed \<open>u \<notin> impl_usrs rs\<close> in \<open>simp_all add: impls\<close>)
  then have site_eq: "n = r_name r @ ''.'' @ factory_name ?k" "i \<in> {None, Some 0}"
    using before(2) r(2) by (auto simp: factory_site_def)
  obtain r1 m where r1: "r1 \<in> set ?ext" "r_usr r1 = u" "r_name r1 = r_name r" "m \<in> set (r_methods r1)"
      "m_is_static m" "m_name m = factory_name ?k"
    using constructed_mixin_factory [OF dist, of ?r ?M ?C ?k] r mixin constructed index same by auto
  let ?g = "rewrite_mixin_constructions_in_stmts ?W"
  let ?r2 = "simplify_record (ancestor_closures ?migrated) (map_bodies ?g r1)"
  have "?r2 \<in> set (snd (apply_mixin_forms fs rs))"
    using nonempty r1(1) by (simp add: apply_mixin_forms_def Let_def)
  moreover have "r_usr ?r2 = u" "r_name ?r2 = r_name r"
    using r1(2,3) by (simp_all add: simplify_record_def split: option.split)
  moreover obtain m' where "m' \<in> set (r_methods ?r2)" "m_is_static m'" "m_name m' = factory_name ?k"
    using map_bodies_methods [OF r1(4), of ?g] simplify_record_methods r1(5,6) by metis
  moreover from this have "named_factory ?r2 n m'"
    using site_eq(1) \<open>r_name ?r2 = r_name r\<close> by (simp add: named_factory_def)
  ultimately show ?thesis using site_eq(2) by blast
qed


section \<open>Examples\<close>

fun construct_of :: "visit \<Rightarrow> (string \<times> string \<times> nat option) option" where
  "construct_of (VConstruct u n i) = Some (u, n, i)"
| "construct_of v = None"

lemma construct_of_iff: "construct_of v = Some (u, n, i) \<longleftrightarrow> v = VConstruct u n i"
  by (cases v) auto

lemma body_constructs_code [code]:
  "body_constructs bodies = set (filter_map construct_of (concat (map visits_stmts bodies)))"
  by (auto simp: body_constructs_def set_filter_map construct_of_iff)

text \<open>\<^verbatim>\<open>BB\<close> extends \<^verbatim>\<open>A\<close>, which \<^verbatim>\<open>CC\<close> mixes in and a function constructs.\<close>

definition sample_mixin_records :: "ir_record list" where
  "sample_mixin_records =
     [(sample_node ''BB'' [])\<lparr>r_base_class := Some \<lparr>bc_usr = ''A'', bc_name = ''A''\<rparr>\<rparr>,
      sample_node ''CC'' [''A''], sample_node ''A'' []]"

definition sample_construction :: "constructor_init list \<Rightarrow> stmt list \<Rightarrow> ir_record" where
  "sample_construction inits body =
     (sample_node ''DD'' [])\<lparr>r_constructors :=
       [\<lparr>c_usr = ''DD#ctor'', c_index = 0, c_params = [], c_inits = inits, c_body = body,
         c_origin = r_origin (sample_node [] [])\<rparr>]\<rparr>"

definition sample_site :: expr where
  "sample_site = ERecordConstruct ''A'' ''A'' [] (r_origin (sample_node [] []))"

definition sample_mixin_module :: "ir_record list" where
  "sample_mixin_module =
     sample_mixin_records @ [sample_construction [] [SExprStmt sample_site (r_origin (sample_node [] []))]]"

theorem mixin_decision_settled_witness:
  "mixin_usrs (snd (apply_mixin_forms [] sample_mixin_module)) = {''A''}"
proof -
  have "r_usr ` set sample_mixin_module \<inter> impl_usrs sample_mixin_module = {}" by code_simp
  from mixin_decision_settled [OF this]
  have "mixin_usrs (snd (apply_mixin_forms [] sample_mixin_module)) = mixin_usrs sample_mixin_module" by blast
  also have "\<dots> = {''A''}" by code_simp
  finally show ?thesis .
qed

theorem mixins_built_by_factories_witness:
  "\<exists>r \<in> set (snd (apply_mixin_forms [] sample_mixin_module)).
     r_usr r = ''A'' \<and> (\<exists>m \<in> set (r_methods r). named_factory r ''A.create'' m)"
proof -
  have "distinct (map r_usr sample_mixin_module)" by code_simp
  moreover have "r_usr ` set sample_mixin_module \<inter> impl_usrs sample_mixin_module = {}" by code_simp
  moreover have "sites_ok sample_mixin_module (body_constructs (module_bodies [] sample_mixin_module))"
    by code_simp
  moreover have "(''A'', ''A.create'', None) \<in> body_constructs (module_bodies
      (fst (apply_mixin_forms [] sample_mixin_module)) (snd (apply_mixin_forms [] sample_mixin_module)))"
    by code_simp
  moreover have "''A'' \<in> mixin_usrs sample_mixin_module \<inter> r_usr ` set sample_mixin_module" by code_simp
  ultimately show ?thesis by (rule mixins_built_by_factories [THEN conjunct2])
qed

text \<open>
  Only bodies are scanned and rewritten: the same construction as the initializer of a field is neither
  counted as a construction of the mixin nor rewritten.
\<close>

lemma initializer_construction_is_not_rewritten:
  "let rs = sample_mixin_records @ [sample_construction [CField ''x'' sample_site] []];
       result = snd (apply_mixin_forms [] rs)
   in ''A'' \<in> mixin_usrs rs \<and> map c_inits (concat (map r_constructors result)) = [[CField ''x'' sample_site]] \<and>
      concat (map r_methods result) = []"
  by code_simp

end
