(* ===== verification/Base_Calls.thy ===== *)
theory Base_Calls
  imports Mixin_Forms
begin

text \<open>
  \<open>resolve_qualified_base_calls\<close> of \<^verbatim>\<open>crates/server/src/function_catalog.rs\<close>: a call \<^verbatim>\<open>Base::method()\<close> from
  inside an override is kept, to be printed as \<^verbatim>\<open>super.method()\<close>, when the search for the member along
  the mixins and the superclasses ends at that base, and becomes an unsupported expression otherwise. The
  search follows \<open>base_class\<close> until it is absent, so it does not end on a cycle: not returning is the
  value \<open>None\<close>. The lemmas show that the pass returns where inheritance has no cycle, that every call it
  keeps resolves to the base it names, and when the search is Dart's.
\<close>

section \<open>The search\<close>

record record_shape =
  sh_expanded_mixins :: "base_class list"
  sh_base_class :: "base_class option"
  sh_method_names :: "string list"

definition record_shapes :: "ir_record list \<Rightarrow> (string \<times> record_shape) list" where
  "record_shapes rs =
     fold (\<lambda>r. hm_put (r_usr r)
       \<lparr>sh_expanded_mixins = expand_mixin_chain (r_mixins r) (records_by_usr rs),
        sh_base_class = r_base_class r, sh_method_names = map m_name (r_methods r)\<rparr>) rs []"

definition declares :: "(string \<times> record_shape) list \<Rightarrow> string \<Rightarrow> base_class \<Rightarrow> bool" where
  "declares shapes callee_name base =
     (case map_of shapes (bc_usr base) of
        None \<Rightarrow> False
      | Some shape \<Rightarrow> callee_name \<in> set (sh_method_names shape))"

definition last_mixin :: "(string \<times> record_shape) list \<Rightarrow> string \<Rightarrow> record_shape \<Rightarrow> base_class option" where
  "last_mixin shapes callee_name shape =
     List.find (declares shapes callee_name) (rev (sh_expanded_mixins shape))"

partial_function (option) super_chain ::
  "(string \<times> record_shape) list \<Rightarrow> string \<Rightarrow> base_class option \<Rightarrow> base_class option option" where
  "super_chain shapes callee_name current =
     (case current of
        None \<Rightarrow> Some None
      | Some base \<Rightarrow>
          (case map_of shapes (bc_usr base) of
             None \<Rightarrow> Some None
           | Some shape \<Rightarrow>
               if callee_name \<in> set (sh_method_names shape) then Some (Some base)
               else super_chain shapes callee_name (sh_base_class shape)))"

declare super_chain.simps [code]

definition super_target ::
  "(string \<times> record_shape) list \<Rightarrow> string \<Rightarrow> string \<Rightarrow> base_class option option" where
  "super_target shapes record_usr callee_name =
     (case map_of shapes record_usr of
        None \<Rightarrow> Some None
      | Some shape \<Rightarrow>
          (case last_mixin shapes callee_name shape of
             Some base \<Rightarrow> Some (Some base)
           | None \<Rightarrow> super_chain shapes callee_name (sh_base_class shape)))"

section \<open>The pass\<close>

definition base_call_reason :: "base_class \<Rightarrow> string \<Rightarrow> string" where
  "base_call_reason named_base callee_name =
     ''qualified base call '' @ bc_name named_base @ ''::'' @ callee_name @
     '' does not resolve through Dart'' @ [CHR 0x27] @ ''s `super` in this record'' @ [CHR 0x27] @
     ''s mixin linearization''"

definition resolve_call :: "(string \<times> record_shape) list \<Rightarrow> string \<Rightarrow> expr \<Rightarrow> expr option" where
  "resolve_call shapes record_usr e =
     (case e of
        ECall target (Some named_base) callee_usr callee_name args t og \<Rightarrow>
          map_option
            (\<lambda>winner.
               if map_option bc_usr winner = Some (bc_usr named_base) then e
               else EUnsupportedTyped (base_call_reason named_base callee_name) t og)
            (super_target shapes record_usr callee_name)
      | _ \<Rightarrow> Some e)"

text \<open>The hook's state says whether every search so far has ended.\<close>

definition resolve_visitor :: "(string \<times> record_shape) list \<Rightarrow> string \<Rightarrow> bool visitor" where
  "resolve_visitor shapes record_usr =
     \<lparr>on_type = State_Monad.return, on_record_construct = \<lambda>u n i. State_Monad.return (n, i),
      on_expr = \<lambda>e. State (\<lambda>running.
        case resolve_call shapes record_usr e of None \<Rightarrow> (e, False) | Some e' \<Rightarrow> (e', running))\<rparr>"

definition resolve_in_stmts ::
  "(string \<times> record_shape) list \<Rightarrow> string \<Rightarrow> stmt list \<Rightarrow> stmt list \<times> bool" where
  "resolve_in_stmts shapes record_usr ss = run_state (visit_stmts (resolve_visitor shapes record_usr) ss) True"

definition resolve_in_record :: "(string \<times> record_shape) list \<Rightarrow> ir_record \<Rightarrow> ir_record option" where
  "resolve_in_record shapes r =
     (if list_all (\<lambda>ss. snd (resolve_in_stmts shapes (r_usr r) ss)) (record_bodies r)
      then Some (map_bodies (\<lambda>ss. fst (resolve_in_stmts shapes (r_usr r) ss)) r) else None)"

definition resolve_qualified_base_calls :: "ir_record list \<Rightarrow> ir_record list option" where
  "resolve_qualified_base_calls rs = those (map (resolve_in_record (record_shapes rs)) rs)"

section \<open>The search ends\<close>

definition base_steps :: "(string \<times> record_shape) list \<Rightarrow> (string \<times> string) set" where
  "base_steps shapes =
     {(u, bc_usr b) | u b. \<exists>shape. map_of shapes u = Some shape \<and> sh_base_class shape = Some b}"

lemma finite_base_steps: "finite (base_steps shapes)"
proof (rule finite_subset)
  have "finite (dom (map_of shapes))" by (rule finite_dom_map_of)
  then show "finite ((\<lambda>u. (u, bc_usr (the (sh_base_class (the (map_of shapes u)))))) ` dom (map_of shapes))"
    by (rule finite_imageI)
  show "base_steps shapes \<subseteq> (\<lambda>u. (u, bc_usr (the (sh_base_class (the (map_of shapes u)))))) ` dom (map_of shapes)"
    by (force simp: base_steps_def)
qed

lemma super_chain_ends:
  assumes "acyclic (base_steps shapes)"
  shows "\<exists>w. super_chain shapes callee_name (Some base) = Some w"
proof -
  have "wf ((base_steps shapes)\<inverse>)"
    using finite_base_steps assms by (rule finite_acyclic_wf_converse)
  then show ?thesis
  proof (induction "bc_usr base" arbitrary: base rule: wf_induct_rule)
    case (less base)
    show ?case
    proof (cases "map_of shapes (bc_usr base)")
      case None
      then show ?thesis by (subst super_chain.simps) simp
    next
      case (Some shape)
      show ?thesis
      proof (cases "sh_base_class shape")
        case None
        have "super_chain shapes callee_name None = Some None" by (subst super_chain.simps) simp
        then show ?thesis using Some None by (subst super_chain.simps) simp
      next
        case (Some next_base)
        with \<open>map_of shapes (bc_usr base) = Some shape\<close>
        have "(bc_usr next_base, bc_usr base) \<in> (base_steps shapes)\<inverse>" by (auto simp: base_steps_def)
        from less(1) [OF this] \<open>map_of shapes (bc_usr base) = Some shape\<close> Some
        show ?thesis by (subst super_chain.simps) simp
      qed
    qed
  qed
qed

lemma super_target_ends:
  "acyclic (base_steps shapes) \<Longrightarrow> \<exists>w. super_target shapes record_usr callee_name = Some w"
proof -
  assume acyclic: "acyclic (base_steps shapes)"
  have "\<exists>w. super_chain shapes callee_name current = Some w" for current
  proof (cases current)
    case None
    then show ?thesis by (subst super_chain.simps) simp
  qed (simp add: super_chain_ends [OF acyclic])
  then show ?thesis by (simp add: super_target_def split: option.split)
qed

section \<open>What the pass keeps\<close>

definition resolve_walker :: "(string \<times> record_shape) list \<Rightarrow> string \<Rightarrow> walker" where
  "resolve_walker shapes record_usr =
     \<lparr>w_type = \<lambda>t. t, w_construct = \<lambda>u n i. (n, i), w_expr = \<lambda>e. the (resolve_call shapes record_usr e)\<rparr>"

lemma resolve_call_ends:
  assumes "acyclic (base_steps shapes)"
  shows "\<exists>e'. resolve_call shapes record_usr e = Some e'"
proof -
  have "\<exists>w. super_target shapes record_usr n = Some w" for n by (rule super_target_ends [OF assms])
  then show ?thesis by (cases e) (auto simp: resolve_call_def split: option.split)
qed

lemma resolve_in_stmts_walk:
  assumes "acyclic (base_steps shapes)"
  shows "resolve_in_stmts shapes u ss = (map (walk_stmt (resolve_walker shapes u)) ss, True)"
proof -
  have "State (\<lambda>running. case resolve_call shapes u e of None \<Rightarrow> (e, False) | Some e' \<Rightarrow> (e', running)) =
      State_Monad.return (the (resolve_call shapes u e))" for e
    using resolve_call_ends [OF assms, of u e] by (auto simp: State_Monad.return_def)
  then have "resolve_visitor shapes u = rewriting (resolve_walker shapes u)"
    by (simp add: resolve_visitor_def rewriting_def resolve_walker_def)
  then show ?thesis by (simp add: resolve_in_stmts_def visit_stmts_rewriting)
qed

text \<open>A visit after the pass: an expression the hook would leave alone.\<close>

fun resolved_visit :: "(string \<times> record_shape) list \<Rightarrow> string \<Rightarrow> visit \<Rightarrow> bool" where
  "resolved_visit shapes u (VExpr e) = (resolve_call shapes u e = Some e)"
| "resolved_visit shapes u v = True"

lemma resolved_type: "list_all (resolved_visit shapes u) (visits_type t)"
  by (induction t) auto

lemma resolve_call_cases:
  assumes "resolve_call shapes u e = Some e'"
  shows "e' = e \<or> (\<exists>reason t og. e' = EUnsupportedTyped reason t og)"
  using assms by (cases e) (auto simp: resolve_call_def split: option.splits if_splits)

lemma resolve_parts:
  assumes "acyclic (base_steps shapes)" and "list_all (resolved_visit shapes u) (butlast (visits_expr e))"
  shows "list_all (resolved_visit shapes u) (visits_expr (the (resolve_call shapes u e)))"
proof -
  obtain e' where e': "resolve_call shapes u e = Some e'" using resolve_call_ends [OF assms(1)] by blast
  from resolve_call_cases [OF e'] consider "e' = e" | reason t og where "e' = EUnsupportedTyped reason t og"
    by blast
  then show ?thesis
  proof cases
    case 1
    have "list_all (resolved_visit shapes u) (visits_expr e)"
      by (subst butlast_visits_expr [symmetric]) (use e' 1 assms(2) in simp)
    then show ?thesis using e' 1 by simp
  next
    case 2
    then show ?thesis using e' by (simp add: resolved_type) (simp add: resolve_call_def)
  qed
qed

lemma resolve_walk_ensures:
  assumes "acyclic (base_steps shapes)"
  shows "ensuring_walk (resolve_walker shapes u) (\<lambda>_ _ _. True) (resolved_visit shapes u)"
  by unfold_locales (simp_all add: resolve_walker_def resolved_type resolve_parts [OF assms])

lemma construct_visit_True: "list_all (construct_visit (\<lambda>_ _ _. True)) vs"
proof -
  have "construct_visit (\<lambda>_ _ _. True) v" for v by (cases v) auto
  then show ?thesis by (simp add: list_all_iff)
qed

lemma resolved_stmts:
  assumes "acyclic (base_steps shapes)"
  shows "list_all (resolved_visit shapes u) (visits_stmts (fst (resolve_in_stmts shapes u ss)))"
  using ensuring_walk.ensured_stmts [OF resolve_walk_ensures [OF assms] construct_visit_True]
  by (simp add: resolve_in_stmts_walk [OF assms])

lemma resolved_call:
  assumes "resolve_call shapes u (ECall tg (Some named_base) cu cn args t og) =
      Some (ECall tg (Some named_base) cu cn args t og)"
  shows "\<exists>winner. super_target shapes u cn = Some (Some winner) \<and> bc_usr winner = bc_usr named_base"
  using assms by (auto simp: resolve_call_def split: if_splits)

lemma visits_node_exprs: "VExpr e \<in> set (visits_stmts ss) \<longleftrightarrow> NExpr e \<in> set (nodes_stmts ss)"
proof -
  have "visited_exprs (visits_stmts ss) = node_exprs (nodes_stmts ss)"
    by (simp add: visits_stmts_def nodes_stmts_def visited visited_all)
  then show ?thesis by (auto simp: visited_exprs_def node_exprs_def)
qed

section \<open>Dart's search\<close>

text \<open>
  What \<^verbatim>\<open>super.m\<close> reaches in Dart: the last mixin the class applies that declares \<^verbatim>\<open>m\<close>, else what the
  superclass has: its own member, else that of the last of its mixins, else what its superclass has.
\<close>

partial_function (option) dart_class_member ::
  "(string \<times> record_shape) list \<Rightarrow> string \<Rightarrow> base_class option \<Rightarrow> base_class option option" where
  "dart_class_member shapes callee_name current =
     (case current of
        None \<Rightarrow> Some None
      | Some base \<Rightarrow>
          (case map_of shapes (bc_usr base) of
             None \<Rightarrow> Some None
           | Some shape \<Rightarrow>
               if callee_name \<in> set (sh_method_names shape) then Some (Some base)
               else (case last_mixin shapes callee_name shape of
                   Some mixin_base \<Rightarrow> Some (Some mixin_base)
                 | None \<Rightarrow> dart_class_member shapes callee_name (sh_base_class shape))))"

declare dart_class_member.simps [code]

definition dart_super :: "(string \<times> record_shape) list \<Rightarrow> string \<Rightarrow> string \<Rightarrow> base_class option option" where
  "dart_super shapes record_usr callee_name =
     (case map_of shapes record_usr of
        None \<Rightarrow> Some None
      | Some shape \<Rightarrow>
          (case last_mixin shapes callee_name shape of
             Some base \<Rightarrow> Some (Some base)
           | None \<Rightarrow> dart_class_member shapes callee_name (sh_base_class shape)))"

definition superclasses_without_mixins :: "(string \<times> record_shape) list \<Rightarrow> bool" where
  "superclasses_without_mixins shapes \<longleftrightarrow>
     (\<forall>(u, v) \<in> base_steps shapes. \<forall>shape. map_of shapes v = Some shape \<longrightarrow> sh_expanded_mixins shape = [])"

lemma super_chain_as_dart:
  assumes "acyclic (base_steps shapes)" and plain: "superclasses_without_mixins shapes"
    and "(u, bc_usr base) \<in> base_steps shapes"
  shows "super_chain shapes callee_name (Some base) = dart_class_member shapes callee_name (Some base)"
proof -
  have "wf ((base_steps shapes)\<inverse>)"
    using finite_base_steps assms(1) by (rule finite_acyclic_wf_converse)
  then show ?thesis using assms(3)
  proof (induction "bc_usr base" arbitrary: base u rule: wf_induct_rule)
    case (less base)
    show ?case
    proof (cases "map_of shapes (bc_usr base)")
      case None
      then show ?thesis by (subst super_chain.simps, subst dart_class_member.simps) simp
    next
      case (Some shape)
      have "sh_expanded_mixins shape = []"
        using plain less(2) Some by (auto simp: superclasses_without_mixins_def)
      then have no_mixin: "last_mixin shapes callee_name shape = None" by (simp add: last_mixin_def)
      have "super_chain shapes callee_name (sh_base_class shape) =
          dart_class_member shapes callee_name (sh_base_class shape)"
      proof (cases "sh_base_class shape")
        case None
        then show ?thesis by (subst super_chain.simps, subst dart_class_member.simps) simp
      next
        fix next_base assume base: "sh_base_class shape = Some next_base"
        with Some have "(bc_usr base, bc_usr next_base) \<in> base_steps shapes" by (auto simp: base_steps_def)
        from less(1) [OF _ this] this show ?thesis by (simp add: base)
      qed
      then show ?thesis
        using Some no_mixin by (subst super_chain.simps, subst dart_class_member.simps) simp
    qed
  qed
qed

text \<open>Where no class is its own superclass the pass returns.\<close>

lemma resolve_runs:
  assumes acyclic: "acyclic (base_steps (record_shapes rs))"
  shows "resolve_qualified_base_calls rs =
    Some (map (\<lambda>r. map_bodies (\<lambda>ss. fst (resolve_in_stmts (record_shapes rs) (r_usr r) ss)) r) rs)"
proof -
  let ?shapes = "record_shapes rs"
  let ?g = "\<lambda>r. map_bodies (\<lambda>ss. fst (resolve_in_stmts ?shapes (r_usr r) ss)) r"
  have "resolve_in_record ?shapes = (\<lambda>r. Some (?g r))"
    by (simp add: fun_eq_iff resolve_in_record_def resolve_in_stmts_walk [OF acyclic] list_all_iff)
  moreover have "those (map (\<lambda>r. Some (?g r)) xs) = Some (map ?g xs)" for xs
    by (induction xs) simp_all
  ultimately show ?thesis by (simp add: resolve_qualified_base_calls_def)
qed

lemma resolve_ends:
  "acyclic (base_steps (record_shapes rs)) \<Longrightarrow> \<exists>rs'. resolve_qualified_base_calls rs = Some rs'"
  by (simp add: resolve_runs)

text \<open>Without mixins on superclasses the search is Dart's.\<close>

lemma super_target_dart:
  assumes "acyclic (base_steps shapes)" and "superclasses_without_mixins shapes"
  shows "super_target shapes record_usr callee_name = dart_super shapes record_usr callee_name"
proof (cases "map_of shapes record_usr")
  case (Some shape)
  have "super_chain shapes callee_name (sh_base_class shape) =
      dart_class_member shapes callee_name (sh_base_class shape)"
  proof (cases "sh_base_class shape")
    case None
    then show ?thesis by (subst super_chain.simps, subst dart_class_member.simps) simp
  next
    fix base assume base: "sh_base_class shape = Some base"
    with Some have "(record_usr, bc_usr base) \<in> base_steps shapes" by (auto simp: base_steps_def)
    from super_chain_as_dart [OF assms this] show ?thesis by (simp add: base)
  qed
  then show ?thesis using Some by (simp add: super_target_def dart_super_def split: option.split)
qed (simp add: super_target_def dart_super_def)

text \<open>An expression that is no qualified base call, or one Dart's \<^verbatim>\<open>super\<close> takes to the base it names.\<close>

definition dart_reaches :: "(string \<times> record_shape) list \<Rightarrow> string \<Rightarrow> expr \<Rightarrow> bool" where
  "dart_reaches shapes record_usr e =
     (case e of
        ECall target (Some named_base) callee_usr callee_name args t og \<Rightarrow>
          map_option (map_option bc_usr) (dart_super shapes record_usr callee_name) =
            Some (Some (bc_usr named_base))
      | _ \<Rightarrow> True)"

lemma resolve_call_dart:
  assumes "acyclic (base_steps shapes)" and "superclasses_without_mixins shapes"
  shows "resolve_call shapes u e = Some e \<longleftrightarrow> dart_reaches shapes u e"
  by (cases e)
    (auto simp: resolve_call_def dart_reaches_def super_target_dart [OF assms] split: option.splits)

lemma resolve_leaves_alone:
  assumes acyclic: "acyclic (base_steps shapes)"
    and "\<And>e. NExpr e \<in> set (nodes_stmts ss) \<Longrightarrow> resolve_call shapes u e = Some e"
  shows "fst (resolve_in_stmts shapes u ss) = ss"
proof -
  have "fixes_visit (resolve_walker shapes u) v" if "v \<in> set (visits_stmts ss)" for v
  proof (cases v)
    case (VExpr e)
    then show ?thesis using that assms(2) by (simp add: resolve_walker_def visits_node_exprs)
  qed (simp_all add: resolve_walker_def)
  then have "map (walk_stmt (resolve_walker shapes u)) ss = ss"
    by (intro map_idI walk_fixed) (auto simp: visits_stmts_def list_all_iff)
  then show ?thesis by (simp add: resolve_in_stmts_walk [OF acyclic])
qed

lemma body_in_filter_map: "m \<in> set ms \<Longrightarrow> m_body m = Some ss \<Longrightarrow> ss \<in> set (filter_map m_body ms)"
  by (induction ms) (auto split: option.split)

lemma map_bodies_alone:
  assumes "\<And>ss. ss \<in> set (record_bodies r) \<Longrightarrow> f ss = ss"
  shows "map_bodies f r = r"
proof -
  have "map (\<lambda>c. c\<lparr>c_body := f (c_body c)\<rparr>) (r_constructors r) = r_constructors r"
    using assms by (intro map_idI) (simp add: record_bodies_def)
  moreover have "map (\<lambda>m. m\<lparr>m_body := map_option f (m_body m)\<rparr>) (r_methods r) = r_methods r"
  proof (rule map_idI)
    fix m assume "m \<in> set (r_methods r)"
    then have "map_option f (m_body m) = m_body m"
      using assms by (cases "m_body m") (auto simp: record_bodies_def dest: body_in_filter_map)
    then show "m\<lparr>m_body := map_option f (m_body m)\<rparr> = m" by simp
  qed
  moreover have "map_option f (r_destructor r) = r_destructor r"
    using assms by (cases "r_destructor r") (simp_all add: record_bodies_def)
  ultimately show ?thesis by (simp add: map_bodies_def)
qed

section \<open>Properties\<close>

text \<open>
  C13. Where no class is its own superclass the pass returns, with the records it was given. Where no
  superclass applies mixins either, every qualified base call left in the body of a constructor, a
  method or a destructor is one that Dart's own lookup for \<^verbatim>\<open>super\<close> takes to the base it names, and a record
  all of whose qualified base calls Dart takes there is returned unchanged.
\<close>

theorem base_calls_resolve:
  assumes acyclic: "acyclic (base_steps (record_shapes rs))"
  shows "\<exists>rs'. resolve_qualified_base_calls rs = Some rs' \<and> map r_usr rs' = map r_usr rs \<and>
    (superclasses_without_mixins (record_shapes rs) \<longrightarrow>
      (\<forall>r \<in> set rs'. \<forall>ss \<in> set (record_bodies r). \<forall>e.
        NExpr e \<in> set (nodes_stmts ss) \<longrightarrow> dart_reaches (record_shapes rs) (r_usr r) e) \<and>
      (\<forall>i < length rs.
        (\<forall>ss \<in> set (record_bodies (rs ! i)). \<forall>e.
          NExpr e \<in> set (nodes_stmts ss) \<longrightarrow> dart_reaches (record_shapes rs) (r_usr (rs ! i)) e) \<longrightarrow>
        rs' ! i = rs ! i))"
proof -
  let ?shapes = "record_shapes rs"
  let ?g = "\<lambda>r. map_bodies (\<lambda>ss. fst (resolve_in_stmts ?shapes (r_usr r) ss)) r"
  note run = resolve_runs [OF acyclic]
  have kept: "dart_reaches ?shapes (r_usr r) e"
    if plain: "superclasses_without_mixins ?shapes" and body: "ss \<in> set (record_bodies (?g r))"
      and node: "NExpr e \<in> set (nodes_stmts ss)" for r ss e
  proof -
    obtain ss0 where "ss = fst (resolve_in_stmts ?shapes (r_usr r) ss0)" using body by auto
    then have "list_all (resolved_visit ?shapes (r_usr r)) (visits_stmts ss)"
      using resolved_stmts [OF acyclic] by simp
    moreover have "VExpr e \<in> set (visits_stmts ss)" using node by (simp only: visits_node_exprs)
    ultimately show ?thesis
      by (simp only: resolve_call_dart [OF acyclic plain, symmetric]) (auto simp: list_all_iff)
  qed
  have alone: "?g r = r"
    if plain: "superclasses_without_mixins ?shapes"
      and "\<forall>ss \<in> set (record_bodies r). \<forall>e. NExpr e \<in> set (nodes_stmts ss) \<longrightarrow> dart_reaches ?shapes (r_usr r) e"
    for r
    by (rule map_bodies_alone, rule resolve_leaves_alone [OF acyclic])
      (use that in \<open>simp add: resolve_call_dart [OF acyclic plain]\<close>)
  show ?thesis
    unfolding run
    by (rule exI [of _ "map ?g rs"]) (auto simp del: record_bodies_map intro: kept alone)
qed

text \<open>
  C14. Where no class is its own superclass and no superclass applies mixins, the search is the one Dart
  makes for \<^verbatim>\<open>super\<close>.
\<close>

theorem super_target_is_darts:
  assumes "acyclic (base_steps shapes)" and "superclasses_without_mixins shapes"
  shows "super_target shapes record_usr callee_name = dart_super shapes record_usr callee_name"
  using assms by (rule super_target_dart)

section \<open>Examples\<close>

text \<open>\<^verbatim>\<open>CCC\<close> extends \<^verbatim>\<open>BB\<close>, which extends \<^verbatim>\<open>A\<close> and applies the given mixins; a body of \<^verbatim>\<open>CCC\<close> calls \<^verbatim>\<open>A::m\<close>.\<close>

definition sample_method :: "string \<Rightarrow> stmt list \<Rightarrow> ir_method" where
  "sample_method name body =
     \<lparr>m_name = name, m_usr = name, m_params = [], m_return_type = TVoid, m_body = Some body,
      m_is_static = False, m_is_override = False, m_origin = r_origin (sample_node [] [])\<rparr>"

definition sample_base :: "string \<Rightarrow> base_class" where
  "sample_base u = \<lparr>bc_usr = u, bc_name = u\<rparr>"

definition sample_base_call :: expr where
  "sample_base_call = ECall None (Some (sample_base ''A'')) ''m'' ''m'' [] TVoid (r_origin (sample_node [] []))"

definition sample_hierarchy :: "string list \<Rightarrow> ir_record list" where
  "sample_hierarchy mixins =
     [(sample_node ''CCC'' [])\<lparr>r_base_class := Some (sample_base ''BB''),
        r_methods := [sample_method ''k'' [SExprStmt sample_base_call (r_origin (sample_node [] []))]]\<rparr>,
      (sample_node ''BB'' mixins)\<lparr>r_base_class := Some (sample_base ''A'')\<rparr>,
      (sample_node ''A'' [])\<lparr>r_methods := [sample_method ''m'' []]\<rparr>,
      (sample_node ''M'' [])\<lparr>r_methods := [sample_method ''m'' []]\<rparr>]"

lemma acyclic_chain:
  assumes "list_all (\<lambda>(u, shape). case sh_base_class shape of None \<Rightarrow> True | Some b \<Rightarrow> length (bc_usr b) < length u) shapes"
  shows "acyclic (base_steps shapes)"
proof -
  have "length v < length u" if step: "(u, v) \<in> base_steps shapes" for u v
  proof -
    obtain b shape where "v = bc_usr b" "(u, shape) \<in> set shapes" "sh_base_class shape = Some b"
      using step by (auto simp: base_steps_def dest: map_of_SomeD)
    then show ?thesis using assms by (auto simp: list_all_iff)
  qed
  then have "base_steps shapes \<subseteq> (measure length)\<inverse>" by auto
  then show ?thesis by (meson acyclic_subset acyclic_converse wf_acyclic wf_measure)
qed

lemma plain_superclasses:
  "list_all (\<lambda>(u, shape). sh_expanded_mixins shape = []) shapes \<Longrightarrow> superclasses_without_mixins shapes"
  unfolding superclasses_without_mixins_def by (auto simp: list_all_iff dest: map_of_SomeD)

theorem base_calls_resolve_witness:
  "resolve_qualified_base_calls (sample_hierarchy []) = Some (sample_hierarchy []) \<and>
    dart_reaches (record_shapes (sample_hierarchy [])) ''CCC'' sample_base_call"
proof -
  let ?rs = "sample_hierarchy []"
  have run: "resolve_qualified_base_calls ?rs = Some ?rs" by code_simp
  have acyclic: "acyclic (base_steps (record_shapes ?rs))" by (rule acyclic_chain) code_simp
  have plain: "superclasses_without_mixins (record_shapes ?rs)" by (rule plain_superclasses) code_simp
  from base_calls_resolve [OF acyclic] plain
  have kept: "\<forall>r \<in> set ?rs. \<forall>ss \<in> set (record_bodies r). \<forall>e.
      NExpr e \<in> set (nodes_stmts ss) \<longrightarrow> dart_reaches (record_shapes ?rs) (r_usr r) e"
    unfolding run by auto
  let ?r = "hd ?rs"
  have "?r \<in> set ?rs" by (simp add: sample_hierarchy_def)
  moreover have "[SExprStmt sample_base_call (r_origin (sample_node [] []))] \<in> set (record_bodies ?r)"
    by code_simp
  moreover have "NExpr sample_base_call \<in> set (nodes_stmts [SExprStmt sample_base_call (r_origin (sample_node [] []))])"
    by (simp add: nodes_stmts_def)
  ultimately have "dart_reaches (record_shapes ?rs) (r_usr ?r) sample_base_call"
    using kept unfolding sample_base_call_def by blast
  then show ?thesis using run by (simp add: sample_hierarchy_def sample_node_def)
qed

theorem super_target_is_darts_witness:
  "dart_super (record_shapes (sample_hierarchy [])) ''CCC'' ''m'' = Some (Some (sample_base ''A''))"
proof -
  have acyclic: "acyclic (base_steps (record_shapes (sample_hierarchy [])))" by (rule acyclic_chain) code_simp
  have "superclasses_without_mixins (record_shapes (sample_hierarchy []))" by (rule plain_superclasses) code_simp
  from super_target_is_darts [OF acyclic this, of "''CCC''" "''m''", symmetric]
  have "dart_super (record_shapes (sample_hierarchy [])) ''CCC'' ''m'' =
      super_target (record_shapes (sample_hierarchy [])) ''CCC'' ''m''" .
  also have "\<dots> = Some (Some (sample_base ''A''))" by code_simp
  finally show ?thesis .
qed

text \<open>
  The search passes over the mixins of a superclass, Dart's does not: with a mixin of the superclass
  that declares the member, the call is kept and \<^verbatim>\<open>super.m()\<close> reaches the mixin's.
\<close>

lemma mixins_of_a_superclass_are_skipped:
  "resolve_qualified_base_calls (sample_hierarchy [''M'']) = Some (sample_hierarchy [''M'']) \<and>
    super_target (record_shapes (sample_hierarchy [''M''])) ''CCC'' ''m'' = Some (Some (sample_base ''A'')) \<and>
    dart_super (record_shapes (sample_hierarchy [''M''])) ''CCC'' ''m'' = Some (Some (sample_base ''M''))"
  by code_simp

end
