(* ===== verification/Raii.thy ===== *)
theory Raii
  imports Base_Calls
begin

text \<open>
  \<open>apply_raii_scope_guards\<close> of \<^verbatim>\<open>crates/server/src/function_catalog.rs\<close>: a C++ local whose destructor has
  work to do becomes a \<^verbatim>\<open>try\<close>/\<^verbatim>\<open>finally\<close> around what follows its declaration, with the statements of the
  destructor, where \<^verbatim>\<open>this\<close> is the local, in the \<^verbatim>\<open>finally\<close>. The lemmas show what the split puts where,
  that no \<^verbatim>\<open>this\<close> is left, and that the declaration is only dropped when no expression refers to the
  local; a statement that only assigns it again does not count.
\<close>

section \<open>References to a name\<close>

text \<open>Assigning to a local, \<^verbatim>\<open>Stmt::Assign\<close>, counts only what is assigned.\<close>

primrec expr_references_name :: "string \<Rightarrow> expr \<Rightarrow> bool"
  and stmt_references_name :: "string \<Rightarrow> stmt \<Rightarrow> bool"
  and param_references_name :: "string \<Rightarrow> param \<Rightarrow> bool"
  and case_references_name :: "string \<Rightarrow> switch_case \<Rightarrow> bool" where
  "expr_references_name x (EIntLiteral v og) = False"
| "expr_references_name x (EDoubleLiteral v og) = False"
| "expr_references_name x (EBoolLiteral v og) = False"
| "expr_references_name x (ENullLiteral og) = False"
| "expr_references_name x (EStringLiteral v og) = False"
| "expr_references_name x (ERef n t og) = (n = x)"
| "expr_references_name x (EBinary op l r t og) =
     (expr_references_name x l \<or> expr_references_name x r)"
| "expr_references_name x (EConditional c a b t og) =
     (expr_references_name x c \<or> expr_references_name x a \<or> expr_references_name x b)"
| "expr_references_name x (EUnary op e t og) = (expr_references_name x e)"
| "expr_references_name x (ELambda ps b t og) =
     (True \<in> set (map (stmt_references_name x) b))"
| "expr_references_name x (EListLiteral xs t og) =
     (True \<in> set (map (expr_references_name x) xs))"
| "expr_references_name x (EMapLiteral es t og) =
     (let rs = map (map_prod (expr_references_name x) (expr_references_name x)) es
      in True \<in> fst ` set rs \<or> True \<in> snd ` set rs)"
| "expr_references_name x (EIs e t og) = (expr_references_name x e)"
| "expr_references_name x (EAs e t og) = (expr_references_name x e)"
| "expr_references_name x (EAssign tg v t og) =
     (expr_references_name x tg \<or> expr_references_name x v)"
| "expr_references_name x (EConvert e t og) = (expr_references_name x e)"
| "expr_references_name x (ECall tg bq cu cn args t og) =
     (map_option (expr_references_name x) tg = Some True \<or>
       True \<in> set (map (expr_references_name x) args))"
| "expr_references_name x (EFieldAccess tg f t og) = (expr_references_name x tg)"
| "expr_references_name x (ERecordConstruct u n fs og) =
     (True \<in> snd ` set (map (map_prod id (expr_references_name x)) fs))"
| "expr_references_name x (ERecordCopy tg u n og) = (expr_references_name x tg)"
| "expr_references_name x (EConstructorCall u n i args og) =
     (True \<in> set (map (expr_references_name x) args))"
| "expr_references_name x (EThis t og) = False"
| "expr_references_name x (EIndex tg i t og) =
     (expr_references_name x tg \<or> expr_references_name x i)"
| "expr_references_name x (EMapIndexOrInsert tg i d t og) =
     (expr_references_name x tg \<or> expr_references_name x i \<or> expr_references_name x d)"
| "expr_references_name x (EStringByteLength tg og) = (expr_references_name x tg)"
| "expr_references_name x (EStringByteIndexOf tg nd fr og) =
     (expr_references_name x tg \<or> expr_references_name x nd \<or>
       map_option (expr_references_name x) fr = Some True)"
| "expr_references_name x (EStringByteAt tg i t og) =
     (expr_references_name x tg \<or> expr_references_name x i)"
| "expr_references_name x (ETuple vs og) = (True \<in> set (map (expr_references_name x) vs))"
| "expr_references_name x (ENamedArg n v) = (expr_references_name x v)"
| "expr_references_name x (EUnsupported r og) = False"
| "expr_references_name x (EUnsupportedTyped r t og) = False"
| "stmt_references_name x (SReturn v og) = (map_option (expr_references_name x) v = Some True)"
| "stmt_references_name x (SVarDecl n t i og) =
     (map_option (expr_references_name x) i = Some True)"
| "stmt_references_name x (SAssign n v og) = (expr_references_name x v)"
| "stmt_references_name x (SFieldAssign tg f v og) =
     (expr_references_name x tg \<or> expr_references_name x v)"
| "stmt_references_name x (SExprAssign tg v og) =
     (expr_references_name x tg \<or> expr_references_name x v)"
| "stmt_references_name x (SIf c a b og) =
     (expr_references_name x c \<or> True \<in> set (map (stmt_references_name x) a) \<or>
       True \<in> set (map (stmt_references_name x) b))"
| "stmt_references_name x (SWhile c b og) =
     (expr_references_name x c \<or> True \<in> set (map (stmt_references_name x) b))"
| "stmt_references_name x (SDoWhile b c og) =
     (True \<in> set (map (stmt_references_name x) b) \<or> expr_references_name x c)"
| "stmt_references_name x (SFor i c n b og) =
     (map_option (stmt_references_name x) i = Some True \<or>
       map_option (expr_references_name x) c = Some True \<or>
       map_option (stmt_references_name x) n = Some True \<or>
       True \<in> set (map (stmt_references_name x) b))"
| "stmt_references_name x (SForEach n t f w it b og) =
     (expr_references_name x it \<or> True \<in> set (map (stmt_references_name x) b))"
| "stmt_references_name x (SBreak og) = False"
| "stmt_references_name x (SContinue og) = False"
| "stmt_references_name x (SContinueLabel l og) = False"
| "stmt_references_name x (SExprStmt e og) = (expr_references_name x e)"
| "stmt_references_name x (SThrow e og) = (expr_references_name x e)"
| "stmt_references_name x (STryCatch b t v c og) =
     (True \<in> set (map (stmt_references_name x) b) \<or>
       True \<in> set (map (stmt_references_name x) c))"
| "stmt_references_name x (STryFinally b f og) =
     (True \<in> set (map (stmt_references_name x) b) \<or>
       True \<in> set (map (stmt_references_name x) f))"
| "stmt_references_name x (STupleAssign ts v og) =
     (True \<in> set (map (expr_references_name x) ts) \<or> expr_references_name x v)"
| "stmt_references_name x (SSwitch s cs d og) =
     (expr_references_name x s \<or> True \<in> set (map (case_references_name x) cs) \<or>
       True \<in> set (opt_nodes (map_option (map (stmt_references_name x)) d)))"
| "stmt_references_name x (SUnsupported r og) = False"
| "param_references_name x (Param n t d) = (map_option (expr_references_name x) d = Some True)"
| "case_references_name x (SwitchCase vs b l) =
     (True \<in> set (map (expr_references_name x) vs) \<or>
       True \<in> set (map (stmt_references_name x) b))"

definition stmts_reference_name :: "string \<Rightarrow> stmt list \<Rightarrow> bool" where
  "stmts_reference_name x ss = list_ex (stmt_references_name x) ss"

section \<open>The destructor's body for a local\<close>

primrec replace_this_with_ref_in_expr :: "string \<Rightarrow> expr \<Rightarrow> expr"
  and replace_this_with_ref_in_stmt :: "string \<Rightarrow> stmt \<Rightarrow> stmt"
  and replace_this_with_ref_in_param :: "string \<Rightarrow> param \<Rightarrow> param"
  and replace_this_with_ref_in_case :: "string \<Rightarrow> switch_case \<Rightarrow> switch_case" where
  "replace_this_with_ref_in_expr x (EIntLiteral v og) = EIntLiteral v og"
| "replace_this_with_ref_in_expr x (EDoubleLiteral v og) = EDoubleLiteral v og"
| "replace_this_with_ref_in_expr x (EBoolLiteral v og) = EBoolLiteral v og"
| "replace_this_with_ref_in_expr x (ENullLiteral og) = ENullLiteral og"
| "replace_this_with_ref_in_expr x (EStringLiteral v og) = EStringLiteral v og"
| "replace_this_with_ref_in_expr x (ERef n t og) = ERef n t og"
| "replace_this_with_ref_in_expr x (EBinary op l r t og) =
     EBinary op (replace_this_with_ref_in_expr x l) (replace_this_with_ref_in_expr x r) t og"
| "replace_this_with_ref_in_expr x (EConditional c a b t og) =
     EConditional (replace_this_with_ref_in_expr x c) (replace_this_with_ref_in_expr x a)
       (replace_this_with_ref_in_expr x b) t og"
| "replace_this_with_ref_in_expr x (EUnary op e t og) =
     EUnary op (replace_this_with_ref_in_expr x e) t og"
| "replace_this_with_ref_in_expr x (ELambda ps b t og) =
     ELambda ps (map (replace_this_with_ref_in_stmt x) b) t og"
| "replace_this_with_ref_in_expr x (EListLiteral xs t og) =
     EListLiteral (map (replace_this_with_ref_in_expr x) xs) t og"
| "replace_this_with_ref_in_expr x (EMapLiteral es t og) =
     EMapLiteral
       (map (map_prod (replace_this_with_ref_in_expr x) (replace_this_with_ref_in_expr x)) es) t
       og"
| "replace_this_with_ref_in_expr x (EIs e t og) = EIs (replace_this_with_ref_in_expr x e) t og"
| "replace_this_with_ref_in_expr x (EAs e t og) = EAs (replace_this_with_ref_in_expr x e) t og"
| "replace_this_with_ref_in_expr x (EAssign tg v t og) =
     EAssign (replace_this_with_ref_in_expr x tg) (replace_this_with_ref_in_expr x v) t og"
| "replace_this_with_ref_in_expr x (EConvert e t og) =
     EConvert (replace_this_with_ref_in_expr x e) t og"
| "replace_this_with_ref_in_expr x (ECall tg bq cu cn args t og) =
     ECall (map_option (replace_this_with_ref_in_expr x) tg) bq cu cn
       (map (replace_this_with_ref_in_expr x) args) t og"
| "replace_this_with_ref_in_expr x (EFieldAccess tg f t og) =
     EFieldAccess (replace_this_with_ref_in_expr x tg) f t og"
| "replace_this_with_ref_in_expr x (ERecordConstruct u n fs og) =
     ERecordConstruct u n (map (map_prod id (replace_this_with_ref_in_expr x)) fs) og"
| "replace_this_with_ref_in_expr x (ERecordCopy tg u n og) =
     ERecordCopy (replace_this_with_ref_in_expr x tg) u n og"
| "replace_this_with_ref_in_expr x (EConstructorCall u n i args og) =
     EConstructorCall u n i (map (replace_this_with_ref_in_expr x) args) og"
| "replace_this_with_ref_in_expr x (EThis t og) = ERef x t og"
| "replace_this_with_ref_in_expr x (EIndex tg i t og) =
     EIndex (replace_this_with_ref_in_expr x tg) (replace_this_with_ref_in_expr x i) t og"
| "replace_this_with_ref_in_expr x (EMapIndexOrInsert tg i d t og) =
     EMapIndexOrInsert (replace_this_with_ref_in_expr x tg) (replace_this_with_ref_in_expr x i)
       (replace_this_with_ref_in_expr x d) t og"
| "replace_this_with_ref_in_expr x (EStringByteLength tg og) =
     EStringByteLength (replace_this_with_ref_in_expr x tg) og"
| "replace_this_with_ref_in_expr x (EStringByteIndexOf tg nd fr og) =
     EStringByteIndexOf (replace_this_with_ref_in_expr x tg) (replace_this_with_ref_in_expr x nd)
       (map_option (replace_this_with_ref_in_expr x) fr) og"
| "replace_this_with_ref_in_expr x (EStringByteAt tg i t og) =
     EStringByteAt (replace_this_with_ref_in_expr x tg) (replace_this_with_ref_in_expr x i) t og"
| "replace_this_with_ref_in_expr x (ETuple vs og) =
     ETuple (map (replace_this_with_ref_in_expr x) vs) og"
| "replace_this_with_ref_in_expr x (ENamedArg n v) =
     ENamedArg n (replace_this_with_ref_in_expr x v)"
| "replace_this_with_ref_in_expr x (EUnsupported r og) = EUnsupported r og"
| "replace_this_with_ref_in_expr x (EUnsupportedTyped r t og) = EUnsupportedTyped r t og"
| "replace_this_with_ref_in_stmt x (SReturn v og) =
     SReturn (map_option (replace_this_with_ref_in_expr x) v) og"
| "replace_this_with_ref_in_stmt x (SVarDecl n t i og) =
     SVarDecl n t (map_option (replace_this_with_ref_in_expr x) i) og"
| "replace_this_with_ref_in_stmt x (SAssign n v og) =
     SAssign n (replace_this_with_ref_in_expr x v) og"
| "replace_this_with_ref_in_stmt x (SFieldAssign tg f v og) =
     SFieldAssign (replace_this_with_ref_in_expr x tg) f (replace_this_with_ref_in_expr x v) og"
| "replace_this_with_ref_in_stmt x (SExprAssign tg v og) =
     SExprAssign (replace_this_with_ref_in_expr x tg) (replace_this_with_ref_in_expr x v) og"
| "replace_this_with_ref_in_stmt x (SIf c a b og) =
     SIf (replace_this_with_ref_in_expr x c) (map (replace_this_with_ref_in_stmt x) a)
       (map (replace_this_with_ref_in_stmt x) b) og"
| "replace_this_with_ref_in_stmt x (SWhile c b og) =
     SWhile (replace_this_with_ref_in_expr x c) (map (replace_this_with_ref_in_stmt x) b) og"
| "replace_this_with_ref_in_stmt x (SDoWhile b c og) =
     SDoWhile (map (replace_this_with_ref_in_stmt x) b) (replace_this_with_ref_in_expr x c) og"
| "replace_this_with_ref_in_stmt x (SFor i c n b og) =
     SFor (map_option (replace_this_with_ref_in_stmt x) i)
       (map_option (replace_this_with_ref_in_expr x) c)
       (map_option (replace_this_with_ref_in_stmt x) n) (map (replace_this_with_ref_in_stmt x) b)
       og"
| "replace_this_with_ref_in_stmt x (SForEach n t f w it b og) =
     SForEach n t f w (replace_this_with_ref_in_expr x it)
       (map (replace_this_with_ref_in_stmt x) b) og"
| "replace_this_with_ref_in_stmt x (SBreak og) = SBreak og"
| "replace_this_with_ref_in_stmt x (SContinue og) = SContinue og"
| "replace_this_with_ref_in_stmt x (SContinueLabel l og) = SContinueLabel l og"
| "replace_this_with_ref_in_stmt x (SExprStmt e og) =
     SExprStmt (replace_this_with_ref_in_expr x e) og"
| "replace_this_with_ref_in_stmt x (SThrow e og) = SThrow (replace_this_with_ref_in_expr x e) og"
| "replace_this_with_ref_in_stmt x (STryCatch b t v c og) =
     STryCatch (map (replace_this_with_ref_in_stmt x) b) t v
       (map (replace_this_with_ref_in_stmt x) c) og"
| "replace_this_with_ref_in_stmt x (STryFinally b f og) =
     STryFinally (map (replace_this_with_ref_in_stmt x) b)
       (map (replace_this_with_ref_in_stmt x) f) og"
| "replace_this_with_ref_in_stmt x (STupleAssign ts v og) =
     STupleAssign (map (replace_this_with_ref_in_expr x) ts) (replace_this_with_ref_in_expr x v)
       og"
| "replace_this_with_ref_in_stmt x (SSwitch s cs d og) =
     SSwitch (replace_this_with_ref_in_expr x s) (map (replace_this_with_ref_in_case x) cs)
       (map_option (map (replace_this_with_ref_in_stmt x)) d) og"
| "replace_this_with_ref_in_stmt x (SUnsupported r og) = SUnsupported r og"
| "replace_this_with_ref_in_param x (Param n t d) =
     Param n t (map_option (replace_this_with_ref_in_expr x) d)"
| "replace_this_with_ref_in_case x (SwitchCase vs b l) =
     SwitchCase (map (replace_this_with_ref_in_expr x) vs)
       (map (replace_this_with_ref_in_stmt x) b) l"

definition replace_this_with_ref_in_stmts :: "string \<Rightarrow> stmt list \<Rightarrow> stmt list" where
  "replace_this_with_ref_in_stmts x ss = map (replace_this_with_ref_in_stmt x) ss"

section \<open>The pass\<close>

type_synonym destructor_map = "(string \<times> string \<times> stmt list) list"

definition destructors_of :: "ir_record list \<Rightarrow> destructor_map" where
  "destructors_of rs =
     fold (\<lambda>r. case r_destructor r of None \<Rightarrow> (\<lambda>m. m) | Some body \<Rightarrow> hm_put (r_usr r) (r_name r, body)) rs []"

definition guard_at :: "destructor_map \<Rightarrow> nat \<times> stmt \<Rightarrow> (nat \<times> string \<times> stmt list) option" where
  "guard_at destructors indexed =
     (case snd indexed of
        SVarDecl name (TRecord usr n) init og \<Rightarrow>
          map_option (\<lambda>d. (fst indexed, name, snd d)) (map_of destructors usr)
      | _ \<Rightarrow> None)"

definition find_guard :: "destructor_map \<Rightarrow> stmt list \<Rightarrow> (nat \<times> string \<times> stmt list) option" where
  "find_guard destructors ss = find_map (guard_at destructors) (enumerate 0 ss)"

text \<open>What is left of the declaration.\<close>

definition guard_declaration :: "bool \<Rightarrow> stmt \<Rightarrow> stmt list" where
  "guard_declaration referenced guard_decl =
     (case guard_decl of
        SVarDecl name t init og \<Rightarrow>
          if referenced then [guard_decl]
          else (case init of Some e \<Rightarrow> [SExprStmt e og] | None \<Rightarrow> [])
      | _ \<Rightarrow> [])"

definition apply_raii_scope_guard_to_stmts :: "destructor_map \<Rightarrow> stmt list \<Rightarrow> stmt list" where
  "apply_raii_scope_guard_to_stmts destructors ss =
     (case find_guard destructors ss of
        None \<Rightarrow> ss
      | Some (i, var_name, destructor_body) \<Rightarrow>
          (let finally_body = replace_this_with_ref_in_stmts var_name destructor_body;
               try_body = drop (i + 1) ss;
               guard_decl = ss ! i;
               referenced = stmts_reference_name var_name try_body \<or> stmts_reference_name var_name finally_body
           in take i ss @ guard_declaration referenced guard_decl @
                [STryFinally try_body finally_body (stmt_origin guard_decl)]))"

definition apply_raii_scope_guards :: "ir_function list \<Rightarrow> ir_record list \<Rightarrow> ir_function list" where
  "apply_raii_scope_guards fs rs =
     (let destructors = destructors_of rs in
      if destructors = [] then fs
      else map (\<lambda>f. f\<lparr>f_body := apply_raii_scope_guard_to_stmts destructors (f_body f)\<rparr>) fs)"

section \<open>Nodes\<close>

primrec this_node :: "string \<Rightarrow> ir_node \<Rightarrow> ir_node" where
  "this_node x (NExpr e) = NExpr (replace_this_with_ref_in_expr x e)"
| "this_node x (NStmt s) = NStmt (replace_this_with_ref_in_stmt x s)"
| "this_node x (NParam p) = NParam (replace_this_with_ref_in_param x p)"

lemma this_param_no_default: "no_default p \<Longrightarrow> replace_this_with_ref_in_param x p = p"
  by (cases p) (simp add: no_default_def)

lemma this_params_no_default:
  "list_all no_default ps \<Longrightarrow> map (this_node x) (map NParam ps) = map NParam ps"
  by (induction ps) (auto simp: this_param_no_default)

lemma nodes_replace_this:
  "plain (nodes_expr e) \<Longrightarrow>
    nodes_expr (replace_this_with_ref_in_expr x e) = map (this_node x) (nodes_expr e)"
  "plain (nodes_stmt s) \<Longrightarrow>
    nodes_stmt (replace_this_with_ref_in_stmt x s) = map (this_node x) (nodes_stmt s)"
  "plain (nodes_param p) \<Longrightarrow>
    nodes_param (replace_this_with_ref_in_param x p) = map (this_node x) (nodes_param p)"
  "plain (nodes_case c) \<Longrightarrow>
    nodes_case (replace_this_with_ref_in_case x c) = map (this_node x) (nodes_case c)"
proof (induction e and s and p and c)
  case (ELambda ps b t og)
  then show ?case
    by (simp add: nodes_params_no_default this_params_no_default [unfolded map_map]
        node_homs [where r = "this_node x"] option.map_comp
        del: map_eq_conv list_all_concat_map)
qed (simp_all add: node_homs [where r = "this_node x"] option.map_comp del: list_all_concat_map)

interpretation replace_this: body_pass "replace_this_with_ref_in_expr x" "replace_this_with_ref_in_stmt x"
  "replace_this_with_ref_in_param x" "this_node x" for x
  by unfold_locales (simp_all only: nodes_replace_this)

text \<open>Some node refers to a name.\<close>

definition refers :: "string \<Rightarrow> ir_node list \<Rightarrow> bool" where
  "refers x ns \<longleftrightarrow> (\<exists>t og. NExpr (ERef x t og) \<in> set ns)"

lemma refers_simps [simp]:
  "\<not> refers x []" "refers x (xs @ ys) \<longleftrightarrow> refers x xs \<or> refers x ys"
  "refers x (NStmt s # ns) = refers x ns" "refers x (NParam p # ns) = refers x ns"
  "refers x (NExpr e # ns) \<longleftrightarrow> (\<exists>t og. e = ERef x t og) \<or> refers x ns"
  by (auto simp: refers_def)

lemma refers_concat_map:
  "refers x (concat (map f xs)) \<longleftrightarrow> (\<exists>y \<in> set xs. refers x (f y))"
  by (induction xs) auto

lemma refers_opt_nodes: "refers x (opt_nodes y) \<longleftrightarrow> (\<exists>ns. y = Some ns \<and> refers x ns)"
  by (cases y) auto

lemma refers_params: "list_all no_default ps \<Longrightarrow> \<not> refers x (concat (map nodes_param ps))"
  by (simp add: nodes_params_no_default) (induction ps; simp)

lemma refers_option:
  assumes "\<And>z. y = Some z \<Longrightarrow> plain (h z) \<Longrightarrow> r z = refers x (h z)" and "plain (opt_nodes (map_option h y))"
  shows "(\<exists>z. y = Some z \<and> r z) \<longleftrightarrow> refers x (opt_nodes (map_option h y))"
  using assms by (cases y) auto

lemma refers_option_list:
  assumes "\<And>zs z. y = Some zs \<Longrightarrow> z \<in> set zs \<Longrightarrow> plain (h z) \<Longrightarrow> r z = refers x (h z)"
    and "plain (concat (opt_nodes (map_option (map h) y)))"
  shows "True \<in> set (opt_nodes (map_option (map r) y)) \<longleftrightarrow>
    refers x (concat (opt_nodes (map_option (map h) y)))"
  using assms by (cases y) (auto simp: refers_concat_map image_iff)

lemma references_name_nodes:
  "plain (nodes_expr e) \<Longrightarrow> expr_references_name x e \<longleftrightarrow> refers x (nodes_expr e)"
  "plain (nodes_stmt s) \<Longrightarrow> stmt_references_name x s \<longleftrightarrow> refers x (nodes_stmt s)"
  "plain (nodes_param p) \<Longrightarrow> param_references_name x p \<longleftrightarrow> refers x (nodes_param p)"
  "plain (nodes_case c) \<Longrightarrow> case_references_name x c \<longleftrightarrow> refers x (nodes_case c)"
proof (induction e and s and p and c)
  case (EMapLiteral es t og)
  have "expr_references_name x (fst p) = refers x (nodes_expr (fst p))"
      "expr_references_name x (snd p) = refers x (nodes_expr (snd p))" if "p \<in> set es" for p
    using EMapLiteral(1) [OF that, of "fst p"] EMapLiteral(2) [OF that, of "snd p"] EMapLiteral(3) that
    by (auto simp: fsts.simps snds.simps list_all_pair)
  then show ?case by (auto simp: refers_concat_map image_iff Let_def case_prod_beta')
next
  case (ERecordConstruct u n fs og)
  have "expr_references_name x (snd p) = refers x (nodes_expr (snd p))" if "p \<in> set fs" for p
    using ERecordConstruct(1) [OF that, of "snd p"] ERecordConstruct(2) that by (auto simp: snds.simps)
  then show ?case by (auto simp: refers_concat_map image_iff)
next
  case (ELambda ps b t og)
  then show ?case by (simp add: refers_params refers_concat_map [where f = nodes_stmt] image_iff)
qed (simp_all add: refers_concat_map image_iff refers_option [where h = nodes_expr]
    refers_option [where h = nodes_stmt] refers_option_list [where h = nodes_stmt])


lemma stmts_reference_name_nodes:
  "plain (nodes_stmts ss) \<Longrightarrow> stmts_reference_name x ss \<longleftrightarrow> refers x (nodes_stmts ss)"
  by (auto simp: stmts_reference_name_def nodes_stmts_def list_ex_iff refers_concat_map references_name_nodes)

section \<open>Properties\<close>

text \<open>No node is \<^verbatim>\<open>this\<close>.\<close>

definition this_free :: "ir_node list \<Rightarrow> bool" where
  "this_free ns \<longleftrightarrow> (\<forall>t og. NExpr (EThis t og) \<notin> set ns)"

lemma replaced_this: "replace_this_with_ref_in_expr x e \<noteq> EThis t og"
  by (cases e) simp_all

lemma replaced_this_free:
  assumes "plain (nodes_stmts ss)"
  shows "this_free (nodes_stmts (replace_this_with_ref_in_stmts x ss))"
proof -
  have "this_node x nd \<noteq> NExpr (EThis t og)" for nd t og by (cases nd) (simp_all add: replaced_this)
  then have "NExpr (EThis t og) \<notin> this_node x ` set (nodes_stmts ss)" for t og by (metis imageE)
  then show ?thesis
    using assms by (simp add: this_free_def replace_this_with_ref_in_stmts_def replace_this.stmts_nodes)
qed

text \<open>The first declaration of a local with a destructor.\<close>

definition first_guard :: "destructor_map \<Rightarrow> stmt list \<Rightarrow> nat \<Rightarrow> string \<Rightarrow> stmt list \<Rightarrow> bool" where
  "first_guard destructors ss i x body \<longleftrightarrow>
     i < length ss \<and> guard_at destructors (i, ss ! i) = Some (i, x, body) \<and>
     (\<forall>j < i. guard_at destructors (j, ss ! j) = None)"

lemma find_map_first:
  assumes "i < length xs" and "f (xs ! i) = Some y" and "\<forall>j < i. f (xs ! j) = None"
  shows "find_map f xs = Some y"
  using assms
proof (induction xs arbitrary: i)
  case (Cons x xs)
  show ?case
  proof (cases i)
    case 0
    then show ?thesis using Cons by simp
  next
    case (Suc k)
    have "f x = None" using Cons.prems(3) Suc by fastforce
    moreover have "find_map f xs = Some y"
      using Cons.IH [of k] Cons.prems Suc by fastforce
    ultimately show ?thesis by simp
  qed
qed simp

lemma find_guard_first: "first_guard destructors ss i x body \<Longrightarrow> find_guard destructors ss = Some (i, x, body)"
  unfolding find_guard_def first_guard_def
  by (rule find_map_first [where i = i]) (auto simp: nth_enumerate_eq)

lemma guard_at_SomeD:
  assumes "guard_at destructors (i, s) = Some (i, x, body)"
  obtains usr n init og where "s = SVarDecl x (TRecord usr n) init og"
  using assms by (auto simp: guard_at_def split: stmt.splits ty.splits)

text \<open>
  C15. A body whose first local with a destructor is declared by its \<open>i\<close>th statement keeps what comes
  before, runs all that follows in a \<^verbatim>\<open>try\<close>, and runs the destructor's statements in its \<^verbatim>\<open>finally\<close>, node
  for node with \<^verbatim>\<open>this\<close> replaced and no \<^verbatim>\<open>this\<close> left. The declaration stays as it is exactly when some
  expression that follows, or of the destructor, is a reference to the local; else its initial value is still
  computed. A statement \<^verbatim>\<open>Assign\<close> names the local it assigns without an expression: it does not count, and
  a local that is only assigned again loses its declaration.
\<close>

theorem raii_guard_split:
  assumes first: "first_guard destructors ss i x body"
    and plain: "plain (nodes_stmts ss)" "plain (nodes_stmts body)"
  shows "\<exists>kept finally_body.
    apply_raii_scope_guard_to_stmts destructors ss =
      take i ss @ kept @ [STryFinally (drop (i + 1) ss) finally_body (stmt_origin (ss ! i))] \<and>
    nodes_stmts finally_body = map (this_node x) (nodes_stmts body) \<and> this_free (nodes_stmts finally_body) \<and>
    kept = (if refers x (nodes_stmts (drop (i + 1) ss)) \<or> refers x (nodes_stmts finally_body) then [ss ! i]
      else case ss ! i of SVarDecl _ _ (Some e) og \<Rightarrow> [SExprStmt e og] | _ \<Rightarrow> [])"
proof -
  let ?finally = "replace_this_with_ref_in_stmts x body" and ?rest = "drop (i + 1) ss"
  have nodes: "nodes_stmts ?finally = map (this_node x) (nodes_stmts body)"
    using plain(2) by (simp add: replace_this_with_ref_in_stmts_def replace_this.stmts_nodes)
  have plain_node_this: "plain_node (this_node x nd)" if "plain_node nd" for nd
  proof (cases nd)
    case (NExpr e)
    then show ?thesis using that by (cases e) simp_all
  qed simp_all
  have "plain (nodes_stmts ?rest)"
    using plain(1) by (auto simp: nodes_stmts_def list_all_iff dest!: in_set_dropD)
  moreover have "plain (nodes_stmts ?finally)"
    using plain(2) unfolding nodes by (auto simp: list_all_iff plain_node_this)
  moreover obtain usr n init og where decl: "ss ! i = SVarDecl x (TRecord usr n) init og"
    using first by (auto simp: first_guard_def elim: guard_at_SomeD)
  ultimately have "apply_raii_scope_guard_to_stmts destructors ss =
      take i ss @ (if refers x (nodes_stmts ?rest) \<or> refers x (nodes_stmts ?finally) then [ss ! i]
        else case ss ! i of SVarDecl _ _ (Some e) og \<Rightarrow> [SExprStmt e og] | _ \<Rightarrow> []) @
      [STryFinally ?rest ?finally (stmt_origin (ss ! i))]"
    using find_guard_first [OF first]
    by (simp add: apply_raii_scope_guard_to_stmts_def Let_def guard_declaration_def stmts_reference_name_nodes
        split: option.split)
  then show ?thesis using nodes replaced_this_free [OF plain(2)] by blast
qed


section \<open>Examples\<close>

text \<open>A guard \<^verbatim>\<open>g\<close> of a class \<^verbatim>\<open>G\<close>, and a destructor that calls a function.\<close>

abbreviation sample_place :: origin where
  "sample_place \<equiv> \<lparr>o_file = ''a.cpp'', o_line = 1, o_column = 1\<rparr>"

definition sample_guard :: stmt where
  "sample_guard = SVarDecl ''g'' (TRecord ''G'' ''G'') (Some (EConstructorCall ''G'' ''G'' 0 [] sample_place)) sample_place"

definition sample_use :: "expr \<Rightarrow> stmt" where
  "sample_use e = SExprStmt (ECall None None ''f'' ''f'' [e] TVoid sample_place) sample_place"

theorem raii_guard_split_witness:
  "apply_raii_scope_guard_to_stmts [(''G'', ''G'', [sample_use (EThis (TRecord ''G'' ''G'') sample_place)])]
     [sample_guard, SReturn None sample_place] =
   [sample_guard, STryFinally [SReturn None sample_place]
     [sample_use (ERef ''g'' (TRecord ''G'' ''G'') sample_place)] sample_place] \<and>
   (\<exists>finally_body. nodes_stmts finally_body =
      map (this_node ''g'') (nodes_stmts [sample_use (EThis (TRecord ''G'' ''G'') sample_place)]) \<and>
      this_free (nodes_stmts finally_body))"
proof
  let ?body = "[sample_use (EThis (TRecord ''G'' ''G'') sample_place)]"
  let ?ss = "[sample_guard, SReturn None sample_place]"
  show "apply_raii_scope_guard_to_stmts [(''G'', ''G'', ?body)] ?ss =
      [sample_guard, STryFinally [SReturn None sample_place]
        [sample_use (ERef ''g'' (TRecord ''G'' ''G'') sample_place)] sample_place]"
    by code_simp
  have "first_guard [(''G'', ''G'', ?body)] ?ss 0 ''g'' ?body"
    by (simp add: first_guard_def guard_at_def sample_guard_def)
  moreover have "plain (nodes_stmts ?ss)" "plain (nodes_stmts ?body)" by code_simp+
  ultimately show "\<exists>finally_body. nodes_stmts finally_body = map (this_node ''g'') (nodes_stmts ?body) \<and>
      this_free (nodes_stmts finally_body)"
    using raii_guard_split by blast
qed

text \<open>
  A local that is only assigned again does not count as referred to: its declaration goes, the
  assignment stays.
\<close>

lemma reassigned_guard_loses_its_declaration:
  "apply_raii_scope_guard_to_stmts [(''G'', ''G'', [sample_use (EIntLiteral 0 sample_place)])]
     [sample_guard, SAssign ''g'' (EConstructorCall ''G'' ''G'' 0 [] sample_place) sample_place] =
   [SExprStmt (EConstructorCall ''G'' ''G'' 0 [] sample_place) sample_place,
    STryFinally [SAssign ''g'' (EConstructorCall ''G'' ''G'' 0 [] sample_place) sample_place]
      [sample_use (EIntLiteral 0 sample_place)] sample_place]"
  by code_simp

text \<open>A local of the destructor that has the name of the guard captures what was \<^verbatim>\<open>this\<close>.\<close>

lemma destructor_local_captures_this:
  "apply_raii_scope_guard_to_stmts [(''G'', ''G'', [SVarDecl ''g'' TInt (Some (EIntLiteral 0 sample_place)) sample_place,
       sample_use (EFieldAccess (EThis (TRecord ''G'' ''G'') sample_place) ''x'' TInt sample_place)])] [sample_guard] =
   [sample_guard, STryFinally []
      [SVarDecl ''g'' TInt (Some (EIntLiteral 0 sample_place)) sample_place,
       sample_use (EFieldAccess (ERef ''g'' (TRecord ''G'' ''G'') sample_place) ''x'' TInt sample_place)] sample_place]"
  by code_simp

end
