(* ===== verification/Outlines.thy ===== *)
theory Outlines
  imports Overloads Enum_Refs Raii
begin

text \<open>
  What no pass of \<^verbatim>\<open>finish_function_catalog\<close> changes: the statements of a body, their kinds, nesting,
  variables and labels, with expressions and types left out (\<open>outline\<close>), and the parts of a record with
  their USRs (\<open>keeps\<close>). The passes rewrite expressions and types in place; each lemma follows one pass.
\<close>

section \<open>Statements without their expressions\<close>

definition blank :: expr where
  "blank = ENullLiteral \<lparr>o_file = [], o_line = 0, o_column = 0\<rparr>"

abbreviation blank_option :: "expr option \<Rightarrow> expr option" where
  "blank_option e \<equiv> map_option (\<lambda>_. blank) e"

primrec outline :: "stmt \<Rightarrow> stmt" and outline_case :: "switch_case \<Rightarrow> switch_case" where
  "outline (SReturn v og) = SReturn (blank_option v) og"
| "outline (SVarDecl n t i og) = SVarDecl n TVoid (blank_option i) og"
| "outline (SAssign n v og) = SAssign n blank og"
| "outline (SFieldAssign tg f v og) = SFieldAssign blank f blank og"
| "outline (SExprAssign tg v og) = SExprAssign blank blank og"
| "outline (SIf c a b og) = SIf blank (map outline a) (map outline b) og"
| "outline (SWhile c b og) = SWhile blank (map outline b) og"
| "outline (SDoWhile b c og) = SDoWhile (map outline b) blank og"
| "outline (SFor i c n b og) =
     SFor (map_option outline i) (blank_option c) (map_option outline n) (map outline b) og"
| "outline (SForEach n t f w it b og) = SForEach n TVoid f w blank (map outline b) og"
| "outline (SBreak og) = SBreak og"
| "outline (SContinue og) = SContinue og"
| "outline (SContinueLabel l og) = SContinueLabel l og"
| "outline (SExprStmt e og) = SExprStmt blank og"
| "outline (SThrow e og) = SThrow blank og"
| "outline (STryCatch b t v c og) = STryCatch (map outline b) TVoid v (map outline c) og"
| "outline (STryFinally b f og) = STryFinally (map outline b) (map outline f) og"
| "outline (STupleAssign ts v og) = STupleAssign (map (\<lambda>_. blank) ts) blank og"
| "outline (SSwitch s cs d og) = SSwitch blank (map outline_case cs) (map_option (map outline) d) og"
| "outline (SUnsupported r og) = SUnsupported r og"
| "outline_case (SwitchCase vs b l) = SwitchCase (map (\<lambda>_. blank) vs) (map outline b) l"

abbreviation outlines :: "stmt list \<Rightarrow> stmt list" where
  "outlines ss \<equiv> map outline ss"

lemma map_option_same: "(\<And>z. x = Some z \<Longrightarrow> f z = g z) \<Longrightarrow> map_option f x = map_option g x"
  by (cases x) simp_all

lemma outline_walk:
  "True" "outline (walk_stmt F s) = outline s" "True" "outline_case (walk_case F c) = outline_case c"
  for e :: expr and p :: param
  by (induction e and s and p and c)
    (simp_all add: option.map_comp comp_def cong: map_cong, auto intro!: map_option_same)

lemma outline_rename_calls:
  "True" "outline (rename_calls_in_stmt rn s) = outline s" "True"
  "outline_case (rename_calls_in_case rn c) = outline_case c"
  for e :: expr and p :: param
  by (induction e and s and p and c)
    (simp_all add: option.map_comp comp_def cong: map_cong, auto intro!: map_option_same)

lemmas outline_rename_call [simp] = outline_rename_calls(2)

lemma outlines_passes [simp]:
  "outlines (map (walk_stmt F) ss) = outlines ss"
  "outlines (rename_calls_in_stmts rn ss) = outlines ss"
  "outlines (rename_record_refs_in_stmts rn ss) = outlines ss"
  "outlines (rewrite_mixin_constructions_in_stmts W ss) = outlines ss"
  "outlines (simplify_provably_true_is_checks_in_stmts A ss) = outlines ss"
  "outlines (reject_in_stmts d ss) = outlines ss"
  by (simp_all add: outline_walk outline_rename_calls rename_record_refs_in_stmts_walk
      rewrite_mixin_constructions_walk simplify_provably_true_is_checks_in_stmts_def
      visit_stmts_rewriting reject_in_stmts_walk)

lemma outlines_resolve:
  "acyclic (base_steps shapes) \<Longrightarrow> outlines (fst (resolve_in_stmts shapes u ss)) = outlines ss"
  by (simp add: resolve_in_stmts_walk outline_walk)

section \<open>Functions\<close>

definition function_outline :: "ir_function \<Rightarrow> string \<times> string list \<times> stmt list \<times> origin" where
  "function_outline f = (f_usr f, map p_name (f_params f), outlines (f_body f), f_origin f)"

lemma rename_param_name: "p_name (rename_calls_in_param rn p) = p_name p"
  by (cases p) simp

lemma param_names_passes [simp]:
  "map p_name (rename_calls_in_params rn ps) = map p_name ps"
  "map p_name (rename_record_refs_in_params rn ps) = map p_name ps"
  "map p_name (reject_in_params d ps) = map p_name ps"
  by (simp_all add: rename_calls_in_params_def rename_record_refs_in_params_def reject_in_params_def)
    (auto split: param.splits intro: rename_param_name)

lemma function_outline_passes:
  "function_outline (rename_function rn f) = function_outline f"
  "function_outline (disambiguate_function rn f) = function_outline f"
  "function_outline (f\<lparr>f_body := rewrite_mixin_constructions_in_stmts W (f_body f)\<rparr>) = function_outline f"
  "function_outline (reject_in_function d f) = function_outline f"
  by (simp_all add: function_outline_def rename_function_def disambiguate_function_def reject_in_function_def)

section \<open>Records\<close>

definition method_outline :: "ir_method \<Rightarrow> string \<times> string list \<times> stmt list option \<times> bool \<times> bool \<times> origin" where
  "method_outline m =
     (m_usr m, map p_name (m_params m), map_option outlines (m_body m), m_is_static m, m_is_override m, m_origin m)"

definition constructor_outline :: "ir_constructor \<Rightarrow> string \<times> nat \<times> string list \<times> nat \<times> stmt list \<times> origin" where
  "constructor_outline c =
     (c_usr c, c_index c, map p_name (c_params c), length (c_inits c), outlines (c_body c), c_origin c)"

definition record_outline ::
  "ir_record \<Rightarrow> string \<times> string \<times> string list \<times> string list \<times> string list \<times>
     (string \<times> nat \<times> string list \<times> nat \<times> stmt list \<times> origin) list \<times> stmt list option \<times> origin" where
  "record_outline r =
     (r_usr r, r_namespace r, map fl_name (r_fields r), map fl_name (r_static_fields r),
      map bc_usr (record_bases r), map constructor_outline (r_constructors r),
      map_option outlines (r_destructor r), r_origin r)"

text \<open>A record with the parts of another, and perhaps further methods.\<close>

definition keeps :: "ir_record \<Rightarrow> ir_record \<Rightarrow> bool" where
  "keeps r r' \<longleftrightarrow> record_outline r' = record_outline r \<and>
     take (length (r_methods r)) (map method_outline (r_methods r')) = map method_outline (r_methods r)"

lemma keeps_refl [simp]: "keeps r r"
  by (simp add: keeps_def)

lemma keeps_trans:
  assumes "keeps r s" and "keeps s t"
  shows "keeps r t"
proof -
  let ?o = "\<lambda>r. map method_outline (r_methods r)" and ?n = "\<lambda>r. length (r_methods r)"
  have r: "take (?n r) (?o s) = ?o r" and s: "take (?n s) (?o t) = ?o s"
    using assms by (simp_all add: keeps_def)
  have "?n r \<le> ?n s" using arg_cong [OF r, of length] by simp
  then have "take (?n r) (?o t) = take (?n r) (take (?n s) (?o t))" by (simp add: min_absorb1)
  then show ?thesis using assms r unfolding s by (simp add: keeps_def)
qed

lemma keeps_recordsI:
  "record_outline r' = record_outline r \<Longrightarrow>
   map method_outline (r_methods r') = map method_outline (r_methods r) \<Longrightarrow> keeps r r'"
  unfolding keeps_def by (metis length_map order_refl take_all)

lemma method_outline_passes [simp]:
  "method_outline (rename_method rn m) = method_outline m"
  "method_outline (disambiguate_method rn m) = method_outline m"
  "method_outline (reject_in_method d m) = method_outline m"
  by (simp_all add: method_outline_def rename_method_def disambiguate_method_def reject_in_method_def
      option.map_comp comp_def)

lemma constructor_outline_passes [simp]:
  "constructor_outline (rename_constructor rn c) = constructor_outline c"
  "constructor_outline (disambiguate_constructor rn c) = constructor_outline c"
  "constructor_outline (reject_in_constructor d c) = constructor_outline c"
  by (simp_all add: constructor_outline_def rename_constructor_def disambiguate_constructor_def
      reject_in_constructor_def)

lemma keeps_rename: "keeps r (rename_record rn r)"
  by (rule keeps_recordsI) (simp_all add: record_outline_def rename_record_def record_bases_def comp_def)

lemma keeps_disambiguate: "keeps r (disambiguate_record rn r)"
  by (rule keeps_recordsI)
    (auto simp: record_outline_def disambiguate_record_def disambiguate_field_def record_bases_def comp_def
      option.map_comp rename_record_refs_in_base_def split: option.splits)

lemma keeps_reject: "keeps r (reject_in_record d r)"
  by (rule keeps_recordsI)
    (simp_all add: record_outline_def reject_in_record_def reject_in_field_def record_bases_def comp_def
      option.map_comp)

lemma keeps_migrate: "keeps r (migrate_base M r)"
  by (rule keeps_recordsI) (auto simp: record_outline_def migrate_base_def record_bases_def split: option.splits)

lemma keeps_map_bodies:
  assumes "\<And>ss. outlines (g ss) = outlines ss"
  shows "keeps r (map_bodies g r)"
  by (rule keeps_recordsI)
    (simp_all add: record_outline_def map_bodies_def record_bases_def method_outline_def constructor_outline_def
      comp_def option.map_comp assms)

lemma keeps_simplify: "keeps r (simplify_record A r)"
  by (simp add: simplify_record_def keeps_map_bodies split: option.split)

lemma keeps_more_methods: "keeps r (r\<lparr>r_methods := r_methods r @ ms\<rparr>)"
  by (simp add: keeps_def record_outline_def record_bases_def)

lemma keeps_extend: "list_all2 keeps rs (extend_methods factories rs)"
  by (induction factories rs rule: extend_methods.induct) (auto simp: keeps_more_methods split: option.split)

section \<open>Modules\<close>

definition keeps_records :: "ir_record list \<Rightarrow> ir_record list \<Rightarrow> bool" where
  "keeps_records rs rs' \<longleftrightarrow> length rs \<le> length rs' \<and> list_all2 keeps rs (take (length rs) rs')"

lemma keeps_records_refl [simp]: "keeps_records rs rs"
  by (simp add: keeps_records_def list_all2_refl)

lemma keeps_records_nth:
  "keeps_records rs rs' \<longleftrightarrow> length rs \<le> length rs' \<and> (\<forall>i < length rs. keeps (rs ! i) (rs' ! i))"
  by (auto simp: keeps_records_def list_all2_conv_all_nth)

lemma keeps_records_trans: "keeps_records rs ss \<Longrightarrow> keeps_records ss ts \<Longrightarrow> keeps_records rs ts"
  by (auto simp: keeps_records_nth intro: keeps_trans)

lemma keeps_records_map: "(\<And>r. keeps r (g r)) \<Longrightarrow> keeps_records rs (map g rs)"
  by (simp add: keeps_records_nth)

lemma keeps_records_extend: "keeps_records rs (extend_methods factories rs @ impls)"
  using keeps_extend [of rs factories] by (auto simp: keeps_records_def list_all2_lengthD)

lemma keeps_records_mixin_forms: "keeps_records rs (snd (apply_mixin_forms fs rs))"
proof (cases "mixin_usrs rs = {}")
  case True
  then show ?thesis by (simp add: apply_mixin_forms_def)
next
  case False
  let ?migrated = "map (migrate_base (mixin_usrs rs)) rs"
  let ?ext = "add_impls (mixin_usrs rs) (collect_constructed_usrs fs ?migrated) ?migrated"
  have "keeps_records rs ?migrated" by (rule keeps_records_map) (rule keeps_migrate)
  moreover have "keeps_records ?migrated ?ext" by (simp add: add_impls_def Let_def keeps_records_extend)
  moreover have "keeps_records xs (map (simplify_record A) (map (map_bodies (rewrite_mixin_constructions_in_stmts W)) xs))"
    for xs A W
    by (rule keeps_records_trans [OF keeps_records_map keeps_records_map])
      (simp_all add: keeps_map_bodies keeps_simplify)
  ultimately show ?thesis
    using False by (simp add: apply_mixin_forms_def Let_def) (blast intro: keeps_records_trans)
qed

end
