(* ===== verification/Function_Pipeline.thy ===== *)
theory Function_Pipeline
  imports Catalog_Merge Outlines
begin

text \<open>
  \<open>finish_function_catalog\<close> of \<^verbatim>\<open>crates/server/src/function_catalog.rs\<close>: the merge of the workers'
  partial catalogs and then every pass, in the order the code runs them. The lemmas follow declarations
  and bases through the passes, and with \<open>Outlines\<close> statements and members, so that what one pass
  establishes is shown to hold in the finished catalog.
\<close>

section \<open>The composition\<close>

record function_catalog =
  fc_declarations :: "function_declaration list"
  fc_calls :: "call_edge list"
  fc_ir_functions :: "ir_function list"
  fc_ir_records :: "ir_record list"
  fc_ir_enums :: "ir_enum list"

text \<open>The passes up to the mixin forms, on the merged functions and records.\<close>

definition named_and_mixed ::
  "unicode \<Rightarrow> function_declaration list \<Rightarrow> call_edge list \<Rightarrow> ir_function list \<times> ir_record list \<Rightarrow>
   ir_function list \<times> ir_record list" where
  "named_and_mixed U declarations calls m =
     (let (fs, rs) = apply_overload_renames U (fst m) (snd m) declarations calls;
          (fs, rs) = apply_reserved_word_renames fs rs;
          (fs, rs) = apply_record_name_disambiguation U fs rs
      in apply_mixin_forms fs rs)"

definition finish_function_catalog :: "unicode \<Rightarrow> function_partial list \<Rightarrow> function_catalog option" where
  "finish_function_catalog U partials =
     (let merged = merge_function_partials partials;
          declarations = snd (cm_declarations merged); calls = snd (cm_calls merged);
          enums = snd (cm_enums merged);
          (fs, rs) = named_and_mixed U declarations calls
            (fm_functions (cm_functions merged), snd (cm_records merged))
      in case resolve_qualified_base_calls rs of
           None \<Rightarrow> None
         | Some rs \<Rightarrow>
             (let (fs, rs) = reject_undeclared_enum_refs fs rs enums;
                  fs = apply_raii_scope_guards fs rs
              in Some \<lparr>fc_declarations = declarations, fc_calls = calls, fc_ir_functions = fs,
                   fc_ir_records = rs, fc_ir_enums = enums\<rparr>))"

section \<open>Bases through the passes\<close>

definition class_edges :: "ir_record list \<Rightarrow> (string \<times> string) set" where
  "class_edges rs = {(r_usr r, bc_usr b) | r b. r \<in> set rs \<and> r_base_class r = Some b}"

lemma class_edges_map:
  assumes "\<And>r. r \<in> set rs \<Longrightarrow> r_usr (g r) = r_usr r"
    and "\<And>r b. r \<in> set rs \<Longrightarrow> r_base_class (g r) = Some b \<Longrightarrow> \<exists>b'. r_base_class r = Some b' \<and> bc_usr b' = bc_usr b"
  shows "class_edges (map g rs) \<subseteq> class_edges rs"
  using assms by (fastforce simp: class_edges_def)

lemma class_edges_apply_renames: "class_edges (snd (apply_renames fs rs rn)) \<subseteq> class_edges rs"
proof -
  have "class_edges (map (rename_record rn) rs) \<subseteq> class_edges rs"
    by (rule class_edges_map) (simp_all add: rename_record_def)
  then show ?thesis by (simp add: apply_renames_def)
qed

lemma class_edges_disambiguation:
  "class_edges (snd (apply_record_name_disambiguation U fs rs)) \<subseteq> class_edges rs"
proof -
  have "class_edges (map (disambiguate_record rn) rs) \<subseteq> class_edges rs" for rn
    by (rule class_edges_map) (auto simp: disambiguate_record_def rename_record_refs_in_base_def split: option.splits)
  then show ?thesis by (auto simp: apply_record_name_disambiguation_def Let_def)
qed

lemma class_edges_linked:
  "class_edges rs = {(u, bc_usr b) | u b ms. (u, Some b, ms) \<in> set (map linked rs)}"
proof -
  have "(u, Some b, ms) \<in> set (map linked rs) \<longleftrightarrow>
      (\<exists>r \<in> set rs. r_usr r = u \<and> r_base_class r = Some b \<and> r_mixins r = ms)" for u b ms
    by (auto simp: linked_def)
  then show ?thesis by (auto simp: class_edges_def simp del: set_map)
qed

lemma class_edges_mixin_forms: "class_edges (snd (apply_mixin_forms fs rs)) \<subseteq> class_edges rs"
proof (cases "mixin_usrs rs = {}")
  case True
  then show ?thesis by (simp add: apply_mixin_forms_def)
next
  case False
  have "class_edges (map (migrate_base M) rs) \<subseteq> class_edges rs" for M
    by (rule class_edges_map) (auto simp: migrate_base_def split: option.splits if_splits)
  moreover have "class_edges (snd (apply_mixin_forms fs rs)) \<subseteq> class_edges (map (migrate_base (mixin_usrs rs)) rs)"
    unfolding class_edges_linked [of "snd (apply_mixin_forms fs rs)"] apply_mixin_forms_linked [OF False]
    by (auto simp: class_edges_linked)
  ultimately show ?thesis by blast
qed

lemma record_shapes_entry:
  assumes "map_of (record_shapes rs) u = Some shape"
  shows "\<exists>r \<in> set rs. r_usr r = u \<and> sh_base_class shape = r_base_class r"
proof -
  have "map_of (fold (\<lambda>r. hm_put (r_usr r) (g r)) rs []) u = Some shape \<Longrightarrow>
      \<exists>r \<in> set rs. r_usr r = u \<and> shape = g r" for g :: "ir_record \<Rightarrow> record_shape"
    by (auto simp: factories_lookup split: option.splits dest!: find_Some_in_set)
  from this [OF assms [unfolded record_shapes_def]] show ?thesis by auto
qed

lemma base_steps_class_edges: "base_steps (record_shapes rs) \<subseteq> class_edges rs"
  by (fastforce simp: base_steps_def class_edges_def dest!: record_shapes_entry)

lemma class_edges_named_and_mixed:
  "class_edges (snd (named_and_mixed U declarations calls m)) \<subseteq> class_edges (snd m)"
proof -
  obtain fs1 rs1 where 1: "apply_overload_renames U (fst m) (snd m) declarations calls = (fs1, rs1)" by fastforce
  obtain fs2 rs2 where 2: "apply_reserved_word_renames fs1 rs1 = (fs2, rs2)" by fastforce
  obtain fs3 rs3 where 3: "apply_record_name_disambiguation U fs2 rs2 = (fs3, rs3)" by fastforce
  have "class_edges rs1 \<subseteq> class_edges (snd m)"
    using class_edges_apply_renames [of "fst m" "snd m"] 1 by (metis apply_overload_renames_def snd_conv)
  moreover have "class_edges rs2 \<subseteq> class_edges rs1"
    using class_edges_apply_renames [of fs1 rs1] 2 by (metis apply_reserved_word_renames_def snd_conv)
  moreover have "class_edges rs3 \<subseteq> class_edges rs2" using class_edges_disambiguation [of U fs2 rs2] 3 by simp
  ultimately show ?thesis
    using class_edges_mixin_forms [of fs3 rs3] by (simp add: named_and_mixed_def 1 2 3)
qed

section \<open>Names through the passes\<close>

definition safe_names :: "ir_function list \<times> ir_record list \<Rightarrow> bool" where
  "safe_names m \<longleftrightarrow> list_all (\<lambda>d. \<not> reserved (snd d)) (module_decls m)"

lemma safe_names_subset:
  "set (module_decls m') \<subseteq> set (module_decls m) \<Longrightarrow> safe_names m \<Longrightarrow> safe_names m'"
  by (auto simp: safe_names_def list_all_iff)

lemma reserved_words_safe: "safe_names (apply_reserved_word_renames fs rs)"
  by (auto simp: safe_names_def list_all_iff reserved_def dest: reserved_word_decls)

lemma method_decls_map:
  assumes "\<And>r. map (\<lambda>m. (m_usr m, m_name m)) (r_methods (g r)) = map (\<lambda>m. (m_usr m, m_name m)) (r_methods r)"
  shows "method_decls (map g rs) = method_decls rs"
  by (simp add: method_decls_def comp_def assms)

lemma function_decls_map:
  assumes "\<And>f. f_usr (g f) = f_usr f" and "\<And>f. f_name (g f) = f_name f"
  shows "function_decls (map g fs) = function_decls fs"
  by (simp add: function_decls_def comp_def assms)

lemma disambiguation_decls: "module_decls (apply_record_name_disambiguation U fs rs) = module_decls (fs, rs)"
  by (simp add: apply_record_name_disambiguation_def Let_def module_decls_def)
    (auto simp: disambiguate_function_def disambiguate_record_def disambiguate_method_def
      intro!: function_decls_map method_decls_map arg_cong2 [where f = "(@)"])

lemma reject_decls: "module_decls (reject_undeclared_enum_refs fs rs es) = module_decls (fs, rs)"
  by (simp add: reject_undeclared_enum_refs_def Let_def module_decls_def)
    (auto simp: reject_in_function_def reject_in_record_def reject_in_method_def
      intro!: function_decls_map method_decls_map arg_cong2 [where f = "(@)"])

lemma map_bodies_decls:
  "map (\<lambda>m. (m_usr m, m_name m)) (r_methods (map_bodies g r)) = map (\<lambda>m. (m_usr m, m_name m)) (r_methods r)"
  by (simp add: map_bodies_def)

lemma factory_name_safe: "\<not> reserved (factory_name k)"
proof -
  have "list_all (\<lambda>w. \<not> prefix ''create'' w) RESERVED_WORDS" by code_simp
  moreover have "prefix ''create'' (factory_name k)" by (simp add: factory_name_def)
  ultimately show ?thesis by (auto simp: reserved_def list_all_iff)
qed


lemma method_decls_iff: "d \<in> set (method_decls rs) \<longleftrightarrow> (\<exists>r \<in> set rs. \<exists>m \<in> set (r_methods r). d = (m_usr m, m_name m))"
  by (auto simp: method_decls_def)

lemma extended_record:
  assumes "r' \<in> set (extend_methods factories rs)"
  shows "\<exists>r \<in> set rs. \<exists>ms. r' = r\<lparr>r_methods := r_methods r @ ms\<rparr> \<and>
    (ms = [] \<or> (\<exists>u. map_of factories u = Some ms))"
  using assms
proof (induction factories rs rule: extend_methods.induct)
  case (2 factories r rs)
  have deleted: "map_of (AList.delete (r_usr r) factories) u = Some ms \<Longrightarrow> map_of factories u = Some ms" for u ms
    by (simp add: delete_conv' split: if_splits)
  show ?case
  proof (cases "map_of factories (r_usr r)")
    case None
    then have "r' = r \<or> r' \<in> set (extend_methods factories rs)" using 2 by simp
    then show ?thesis using 2(1) [OF None] by (auto intro: exI [of _ "[]"])
  next
    case (Some ms)
    then have "r' = r\<lparr>r_methods := r_methods r @ ms\<rparr> \<or>
        r' \<in> set (extend_methods (AList.delete (r_usr r) factories) rs)" using 2 by simp
    then show ?thesis using 2(2) [OF Some] Some deleted by (metis list.set_intros)
  qed
qed simp

lemma factories_names:
  assumes "map_of (fold (\<lambda>r. hm_put (r_usr r) (snd (build_mixin_impl r))) built []) u = Some ms"
    and "m \<in> set ms"
  shows "\<exists>k. m_name m = factory_name k"
proof -
  obtain r where "ms = snd (build_mixin_impl r)"
    using assms(1) by (auto simp: factories_lookup split: option.splits)
  then show ?thesis using assms(2) by (auto simp: build_mixin_impl_def mixin_factory_def)
qed

lemma add_impls_names:
  assumes "d \<in> set (method_decls (add_impls M C rs))"
  shows "d \<in> set (method_decls rs) \<or> (\<exists>k. snd d = factory_name k)"
proof -
  from assms obtain r' m where m: "r' \<in> set (add_impls M C rs)" "m \<in> set (r_methods r')" "d = (m_usr m, m_name m)"
    by (auto simp: method_decls_iff)
  have "r_methods (fst (build_mixin_impl r)) = []" for r by (simp add: build_mixin_impl_def)
  then have "r' \<in> set (extend_methods (fold (\<lambda>r. hm_put (r_usr r) (snd (build_mixin_impl r)))
      (built_impls M C rs) []) rs)"
    using m(1,2) by (auto simp: add_impls_def Let_def)
  from extended_record [OF this] obtain r ms where r: "r \<in> set rs" "r' = r\<lparr>r_methods := r_methods r @ ms\<rparr>"
    and ms: "ms = [] \<or> (\<exists>u. map_of (fold (\<lambda>r. hm_put (r_usr r) (snd (build_mixin_impl r)))
      (built_impls M C rs) []) u = Some ms)"
    by blast
  from r(2) m(2) have "m \<in> set (r_methods r) \<or> m \<in> set ms" by auto
  then show ?thesis
  proof
    assume "m \<in> set (r_methods r)"
    then show ?thesis using r(1) m(3) by (auto simp: method_decls_iff)
  next
    assume "m \<in> set ms"
    then show ?thesis using ms m(3) factories_names by fastforce
  qed
qed

lemma simplify_record_decls:
  "map (\<lambda>m. (m_usr m, m_name m)) (r_methods (simplify_record A r)) = map (\<lambda>m. (m_usr m, m_name m)) (r_methods r)"
  by (simp add: simplify_record_def map_bodies_decls split: option.split)

lemma migrate_decls: "method_decls (map (migrate_base M) rs) = method_decls rs"
  by (rule method_decls_map) simp

lemma mixin_forms_decls:
  "function_decls (fst (apply_mixin_forms fs rs)) = function_decls fs"
  "d \<in> set (method_decls (snd (apply_mixin_forms fs rs))) \<Longrightarrow>
    d \<in> set (method_decls rs) \<or> (\<exists>k. snd d = factory_name k)"
proof -
  show "function_decls (fst (apply_mixin_forms fs rs)) = function_decls fs"
    by (simp add: apply_mixin_forms_def Let_def function_decls_map)
  let ?M = "mixin_usrs rs"
  let ?migrated = "map (migrate_base ?M) rs"
  let ?ext = "add_impls ?M (collect_constructed_usrs fs ?migrated) ?migrated"
  have "method_decls (snd (apply_mixin_forms fs rs)) = method_decls ?ext" if "?M \<noteq> {}"
    using that
    by (simp add: apply_mixin_forms_def Let_def method_decls_map [OF simplify_record_decls]
        method_decls_map [OF map_bodies_decls] del: map_map)
  then show "d \<in> set (method_decls rs) \<or> (\<exists>k. snd d = factory_name k)"
    if "d \<in> set (method_decls (snd (apply_mixin_forms fs rs)))"
    using that add_impls_names [of d ?M _ ?migrated]
    by (cases "?M = {}") (auto simp: migrate_decls, simp add: apply_mixin_forms_def)
qed

lemma mixin_forms_safe: "safe_names (fs, rs) \<Longrightarrow> safe_names (apply_mixin_forms fs rs)"
  using mixin_forms_decls [where fs = fs and rs = rs] factory_name_safe
  by (fastforce simp: safe_names_def list_all_iff module_decls_def)

lemma resolved_decls:
  assumes "resolve_qualified_base_calls rs = Some rs'"
  shows "method_decls rs' = method_decls rs"
proof -
  have "those (map (resolve_in_record shapes) rs) = Some rs' \<Longrightarrow> method_decls rs' = method_decls rs" for shapes
    by (induction rs arbitrary: rs')
      (auto simp: method_decls_def resolve_in_record_def map_bodies_decls split: if_splits option.splits)
  then show ?thesis using assms by (auto simp: resolve_qualified_base_calls_def)
qed

lemma raii_decls: "function_decls (apply_raii_scope_guards fs rs) = function_decls fs"
  by (simp add: apply_raii_scope_guards_def Let_def function_decls_map)


lemma named_and_mixed_safe: "safe_names (named_and_mixed U declarations calls m)"
proof -
  obtain fs1 rs1 where 1: "apply_overload_renames U (fst m) (snd m) declarations calls = (fs1, rs1)" by fastforce
  obtain fs2 rs2 where 2: "apply_reserved_word_renames fs1 rs1 = (fs2, rs2)" by fastforce
  obtain fs3 rs3 where 3: "apply_record_name_disambiguation U fs2 rs2 = (fs3, rs3)" by fastforce
  have eq: "named_and_mixed U declarations calls m = apply_mixin_forms fs3 rs3"
    by (simp add: named_and_mixed_def 1 2 3)
  have "safe_names (fs2, rs2)" using reserved_words_safe [of fs1 rs1] 2 by simp
  then have "safe_names (fs3, rs3)"
    using disambiguation_decls [of U fs2 rs2] 3 by (simp add: safe_names_def)
  then show ?thesis unfolding eq by (rule mixin_forms_safe)
qed

section \<open>Statements and members through the passes\<close>

lemma outlines_apply_renames:
  "map function_outline (fst (apply_renames fs rs rn)) = map function_outline fs"
  "keeps_records rs (snd (apply_renames fs rs rn))"
  by (simp_all add: apply_renames_def comp_def function_outline_passes keeps_records_map keeps_rename)

lemma outlines_disambiguation:
  "map function_outline (fst (apply_record_name_disambiguation U fs rs)) = map function_outline fs"
  "keeps_records rs (snd (apply_record_name_disambiguation U fs rs))"
  by (simp_all add: apply_record_name_disambiguation_def Let_def comp_def function_outline_passes
      keeps_records_map keeps_disambiguate)

lemma outlines_mixin_forms: "map function_outline (fst (apply_mixin_forms fs rs)) = map function_outline fs"
  by (simp add: apply_mixin_forms_def Let_def comp_def function_outline_passes)

lemma outlines_named_and_mixed:
  "map function_outline (fst (named_and_mixed U declarations calls m)) = map function_outline (fst m)"
  "keeps_records (snd m) (snd (named_and_mixed U declarations calls m))"
proof -
  obtain fs1 rs1 where 1: "apply_overload_renames U (fst m) (snd m) declarations calls = (fs1, rs1)" by fastforce
  obtain fs2 rs2 where 2: "apply_reserved_word_renames fs1 rs1 = (fs2, rs2)" by fastforce
  obtain fs3 rs3 where 3: "apply_record_name_disambiguation U fs2 rs2 = (fs3, rs3)" by fastforce
  have eq: "named_and_mixed U declarations calls m = apply_mixin_forms fs3 rs3"
    by (simp add: named_and_mixed_def 1 2 3)
  have step1: "map function_outline fs1 = map function_outline (fst m)" "keeps_records (snd m) rs1"
    using outlines_apply_renames [where fs = "fst m" and rs = "snd m"] 1
    by (metis apply_overload_renames_def fst_conv, metis apply_overload_renames_def snd_conv)
  have step2: "map function_outline fs2 = map function_outline fs1" "keeps_records rs1 rs2"
    using outlines_apply_renames [where fs = fs1 and rs = rs1] 2
    by (metis apply_reserved_word_renames_def fst_conv, metis apply_reserved_word_renames_def snd_conv)
  have step3: "map function_outline fs3 = map function_outline fs2" "keeps_records rs2 rs3"
    using outlines_disambiguation [where U = U and fs = fs2 and rs = rs2] 3 by simp_all
  show "map function_outline (fst (named_and_mixed U declarations calls m)) = map function_outline (fst m)"
    unfolding eq by (simp add: outlines_mixin_forms step1 step2 step3)
  show "keeps_records (snd m) (snd (named_and_mixed U declarations calls m))"
    unfolding eq using step1(2) step2(2) step3(2) keeps_records_mixin_forms [of rs3 fs3] by (blast intro: keeps_records_trans)
qed

lemma keeps_resolved:
  assumes "acyclic (base_steps (record_shapes rs))" and "resolve_qualified_base_calls rs = Some rs'"
  shows "keeps_records rs rs'"
proof -
  have "rs' = map (\<lambda>r. map_bodies (\<lambda>ss. fst (resolve_in_stmts (record_shapes rs) (r_usr r) ss)) r) rs"
    using resolve_runs [OF assms(1)] assms(2) by simp
  then show ?thesis by (simp add: keeps_records_map keeps_map_bodies outlines_resolve [OF assms(1)])
qed

section \<open>Properties\<close>

text \<open>
  C16. Where no class is its own superclass among the merged records, the whole sequence of passes
  returns a catalog. It has the merged declarations, calls and enums. Its functions are the merged ones,
  one for one and in their order, with the same parameter names and the same statements but for
  expressions and types, and then the scope guards put in. It starts with the merged records, one for one
  and in their order, with the same fields, bases, constructors, methods and destructors by USR or name and
  the same statements in each body but for expressions and types; only methods are added to them. No
  function or method in it has a name Dart reserves; names of records and variables are not renamed.
\<close>

theorem finished_catalog_safe:
  assumes acyclic: "acyclic (class_edges (snd (cm_records (merge_function_partials partials))))"
  shows "\<exists>c. finish_function_catalog U partials = Some c \<and>
    fc_declarations c = snd (cm_declarations (merge_function_partials partials)) \<and>
    fc_calls c = snd (cm_calls (merge_function_partials partials)) \<and>
    fc_ir_enums c = snd (cm_enums (merge_function_partials partials)) \<and>
    (\<exists>fs. map function_outline fs =
        map function_outline (fm_functions (cm_functions (merge_function_partials partials))) \<and>
      fc_ir_functions c = apply_raii_scope_guards fs (fc_ir_records c)) \<and>
    keeps_records (snd (cm_records (merge_function_partials partials))) (fc_ir_records c) \<and>
    list_all (\<lambda>d. snd d \<notin> set RESERVED_WORDS) (module_decls (fc_ir_functions c, fc_ir_records c))"
proof -
  let ?merged = "merge_function_partials partials"
  let ?m = "(fm_functions (cm_functions ?merged), snd (cm_records ?merged))"
  let ?ds = "snd (cm_declarations ?merged)" and ?calls = "snd (cm_calls ?merged)"
  obtain fs rs where mixed: "named_and_mixed U ?ds ?calls ?m = (fs, rs)" by fastforce
  have safe: "safe_names (fs, rs)" using named_and_mixed_safe [of U ?ds ?calls ?m] mixed by simp
  have fs: "map function_outline fs = map function_outline (fst ?m)" and rs: "keeps_records (snd ?m) rs"
    using outlines_named_and_mixed [where U = U and declarations = ?ds and calls = ?calls and m = ?m] mixed by simp_all
  have "class_edges rs \<subseteq> class_edges (snd ?m)"
    using class_edges_named_and_mixed [of U ?ds ?calls ?m] mixed by simp
  then have steps: "acyclic (base_steps (record_shapes rs))"
    using acyclic base_steps_class_edges [of rs] by (auto intro: acyclic_subset)
  from resolve_ends [OF steps] obtain rs' where resolved: "resolve_qualified_base_calls rs = Some rs'" by blast
  obtain fs2 rs2 where rejected: "reject_undeclared_enum_refs fs rs' (snd (cm_enums ?merged)) = (fs2, rs2)"
    by fastforce
  let ?fs = "apply_raii_scope_guards fs2 rs2"
  have decls: "module_decls (fs2, rs2) = module_decls (fs, rs')"
    using reject_decls [of fs rs' "snd (cm_enums ?merged)"] rejected by simp
  have "module_decls (?fs, rs2) = module_decls (fs2, rs2)" by (simp add: module_decls_def raii_decls)
  also have "\<dots> = module_decls (fs, rs)"
    using decls resolved_decls [OF resolved] by (simp add: module_decls_def)
  finally have "list_all (\<lambda>d. snd d \<notin> set RESERVED_WORDS) (module_decls (?fs, rs2))"
    using safe by (simp add: safe_names_def reserved_def)
  moreover have "map function_outline fs2 = map function_outline (fst ?m)" "keeps_records rs' rs2"
    using rejected fs by (auto simp: reject_undeclared_enum_refs_def Let_def comp_def function_outline_passes
        intro: keeps_records_map keeps_reject)
  moreover have "keeps_records (snd ?m) rs2"
    using rs keeps_resolved [OF steps resolved] calculation(3) by (blast intro: keeps_records_trans)
  moreover have "finish_function_catalog U partials = Some \<lparr>fc_declarations = ?ds,
      fc_calls = ?calls, fc_ir_functions = ?fs, fc_ir_records = rs2, fc_ir_enums = snd (cm_enums ?merged)\<rparr>"
    by (simp add: finish_function_catalog_def Let_def mixed resolved rejected)
  ultimately show ?thesis by (intro exI conjI [of "_ = Some _"]) auto
qed

lemma acyclic_classes:
  assumes "list_all (\<lambda>r. case r_base_class r of None \<Rightarrow> True | Some b \<Rightarrow> length (bc_usr b) < length (r_usr r)) rs"
  shows "acyclic (class_edges rs)"
proof -
  have "class_edges rs \<subseteq> (measure length)\<inverse>"
    using assms by (auto simp: class_edges_def list_all_iff split: option.splits)
  then show ?thesis by (meson acyclic_subset acyclic_converse wf_acyclic wf_measure)
qed

text \<open>A class that extends a mixin and calls it, and a method with a reserved name.\<close>

definition sample_hierarchy_partial :: function_partial where
  "sample_hierarchy_partial =
     \<lparr>fp_declarations = [], fp_calls = [], fp_functions = [], fp_is_prototype = [],
      fp_records = (sample_node ''EE'' [])\<lparr>r_methods := [sample_method ''is'' []]\<rparr> #
        sample_mixin_module @ sample_hierarchy [], fp_enums = []\<rparr>"

theorem finished_catalog_safe_witness:
  "(\<exists>c. finish_function_catalog ascii_tables [sample_hierarchy_partial] = Some c \<and>
     keeps_records (snd (cm_records (merge_function_partials [sample_hierarchy_partial]))) (fc_ir_records c) \<and>
     list_all (\<lambda>d. snd d \<notin> set RESERVED_WORDS) (module_decls (fc_ir_functions c, fc_ir_records c))) \<and>
   map_option (\<lambda>c. map snd (module_decls (fc_ir_functions c, fc_ir_records c)))
     (finish_function_catalog ascii_tables [sample_hierarchy_partial]) =
     Some [''is_'', ''m'', ''create'', ''k'', ''m'']"
proof
  have "acyclic (class_edges (snd (cm_records (merge_function_partials [sample_hierarchy_partial]))))"
    by (rule acyclic_classes) code_simp
  from finished_catalog_safe [OF this, of ascii_tables]
  show "\<exists>c. finish_function_catalog ascii_tables [sample_hierarchy_partial] = Some c \<and>
     keeps_records (snd (cm_records (merge_function_partials [sample_hierarchy_partial]))) (fc_ir_records c) \<and>
     list_all (\<lambda>d. snd d \<notin> set RESERVED_WORDS) (module_decls (fc_ir_functions c, fc_ir_records c))"
    by blast
  show "map_option (\<lambda>c. map snd (module_decls (fc_ir_functions c, fc_ir_records c)))
     (finish_function_catalog ascii_tables [sample_hierarchy_partial]) =
     Some [''is_'', ''m'', ''create'', ''k'', ''m'']"
    by code_simp
qed

end
