(* ===== verification/Project_Extraction.thy ===== *)
theory Project_Extraction
  imports Function_Pipeline "HOL-Library.Multiset"
begin

text \<open>
  \<^verbatim>\<open>crates/server/src/extraction.rs\<close> with the counters and the cancellation of \<^verbatim>\<open>progress.rs\<close>: worker
  threads that claim compilation units from a shared cursor, parse each twice, visit it for the four
  catalogs and mark progress, and the merge of what they found. The threads run in any interleaving:
  a step of the system is one step of one worker, or the arrival of a cancellation. What libclang
  and the visitors it calls back do is a parameter. The lemmas show that every unit is claimed by
  exactly one worker, that no counter runs past its total and none wraps, that every run ends, and what
  a cancellation leaves undone.
\<close>

section \<open>State\<close>

record compilation_unit =
  cu_directory :: string
  cu_file :: string
  cu_command :: "string option"
  cu_arguments :: "string list"

record extraction_progress =
  ep_completed :: nat
  ep_total :: nat

definition new_progress :: extraction_progress where
  "new_progress = \<lparr>ep_completed = 0, ep_total = 0\<rparr>"

definition mark_one_done :: "extraction_progress \<Rightarrow> extraction_progress" where
  "mark_one_done p = p\<lparr>ep_completed := ep_completed p + 1\<rparr>"

definition set_total :: "nat \<Rightarrow> extraction_progress \<Rightarrow> extraction_progress" where
  "set_total unit_count p = p\<lparr>ep_total := unit_count\<rparr>"

text \<open>What \<^verbatim>\<open>function_catalog::VisitorState\<close> borrows from its worker.\<close>

record function_visits =
  fv_declarations :: "function_declaration list"
  fv_seen :: "(string \<times> nat) list"
  fv_calls :: "call_edge list"
  fv_call_seen :: "(string \<times> call_resolution \<times> string \<times> u32 \<times> u32) set"
  fv_ir_functions :: "ir_function list"
  fv_ir_function_is_prototype :: "bool list"
  fv_ir_records :: "ir_record list"
  fv_ir_record_seen :: "string set"
  fv_ir_member_seen :: "string set"
  fv_ir_seen :: "string set"
  fv_ir_enums :: "ir_enum list"
  fv_ir_enum_seen :: "string set"

text \<open>Everything a worker keeps while it runs.\<close>

record unit_visits =
  uv_types :: type_merge
  uv_translation_units :: "string set"
  uv_headers :: "string set"
  uv_functions :: function_visits
  uv_pointers :: "pointer_declaration list"

definition no_visits :: unit_visits where
  "no_visits =
     \<lparr>uv_types = \<lparr>tm_declarations = ({}, []), tm_dependencies = ({}, []), tm_usages = ({}, [])\<rparr>,
      uv_translation_units = {}, uv_headers = {},
      uv_functions = \<lparr>fv_declarations = [], fv_seen = [], fv_calls = [], fv_call_seen = {}, fv_ir_functions = [],
        fv_ir_function_is_prototype = [], fv_ir_records = [], fv_ir_record_seen = {}, fv_ir_member_seen = {},
        fv_ir_seen = {}, fv_ir_enums = [], fv_ir_enum_seen = {}\<rparr>,
      uv_pointers = []\<rparr>"

text \<open>
  libclang and the visitors: the canonical path of a file within the project, the two parses, which can
  fail, and what visiting a parsed unit adds to the worker's collections.
\<close>

record 'tu libclang =
  lc_canonicalize_within :: "string \<Rightarrow> string option"
  lc_parse_skipping_bodies :: "compilation_unit \<Rightarrow> 'tu option"
  lc_visit_types :: "'tu \<Rightarrow> type_merge \<Rightarrow> type_merge"
  lc_collect_inclusions :: "'tu \<Rightarrow> string set \<Rightarrow> string set"
  lc_parse_with_bodies :: "compilation_unit \<Rightarrow> 'tu option"
  lc_visit_functions :: "'tu \<Rightarrow> function_visits \<Rightarrow> function_visits"
  lc_visit_pointers :: "'tu \<Rightarrow> pointer_declaration list \<Rightarrow> pointer_declaration list"

definition visit_group_a :: "'tu libclang \<Rightarrow> compilation_unit \<Rightarrow> unit_visits \<Rightarrow> unit_visits" where
  "visit_group_a L u v =
     (let v = (case lc_canonicalize_within L (cu_file u) of
            Some canonical \<Rightarrow> v\<lparr>uv_translation_units := insert canonical (uv_translation_units v)\<rparr>
          | None \<Rightarrow> v)
      in case lc_parse_skipping_bodies L u of
           Some tu \<Rightarrow> v\<lparr>uv_types := lc_visit_types L tu (uv_types v),
             uv_headers := lc_collect_inclusions L tu (uv_headers v)\<rparr>
         | None \<Rightarrow> v)"

definition visit_group_b :: "'tu libclang \<Rightarrow> compilation_unit \<Rightarrow> unit_visits \<Rightarrow> unit_visits" where
  "visit_group_b L u v =
     (case lc_parse_with_bodies L u of
        Some tu \<Rightarrow> v\<lparr>uv_functions := lc_visit_functions L tu (uv_functions v),
          uv_pointers := lc_visit_pointers L tu (uv_pointers v)\<rparr>
      | None \<Rightarrow> v)"

text \<open>Where a worker is in its loop, with the unit it has claimed.\<close>

datatype worker_phase =
  AtCheck | AtClaim | AtGroupA nat | AtMarkTypes nat | AtMarkSources nat
| AtGroupB nat | AtMarkFunctions nat | AtMarkPointers nat | Stopped

record extraction_state =
  xs_next_index :: "64 word"
  xs_cancellation :: "bool option"
  xs_type_progress :: "extraction_progress option"
  xs_source_progress :: "extraction_progress option"
  xs_function_progress :: "extraction_progress option"
  xs_pointer_progress :: "extraction_progress option"
  xs_workers :: "(worker_phase \<times> unit_visits) list"

section \<open>Steps\<close>

definition go :: "nat \<Rightarrow> worker_phase \<Rightarrow> unit_visits \<Rightarrow> extraction_state \<Rightarrow> extraction_state" where
  "go w phase v s = s\<lparr>xs_workers := (xs_workers s)[w := (phase, v)]\<rparr>"

definition is_cancelled :: "extraction_state \<Rightarrow> bool" where
  "is_cancelled s \<longleftrightarrow> xs_cancellation s = Some True"

text \<open>One step of worker \<open>w\<close>, the loop of \<^verbatim>\<open>parse_units\<close> cut at each access to shared state.\<close>

definition advance ::
  "'tu libclang \<Rightarrow> compilation_unit list \<Rightarrow> nat \<Rightarrow> extraction_state \<Rightarrow> extraction_state" where
  "advance L units w s =
     (let v = snd (xs_workers s ! w) in
      case fst (xs_workers s ! w) of
        AtCheck \<Rightarrow> go w (if is_cancelled s then Stopped else AtClaim) v s
      | AtClaim \<Rightarrow>
          (let claimed = unat (xs_next_index s)
           in go w (if claimed < length units then AtGroupA claimed else Stopped) v
                (s\<lparr>xs_next_index := xs_next_index s + 1\<rparr>))
      | AtGroupA i \<Rightarrow> go w (AtMarkTypes i) (visit_group_a L (units ! i) v) s
      | AtMarkTypes i \<Rightarrow>
          go w (AtMarkSources i) v (s\<lparr>xs_type_progress := map_option mark_one_done (xs_type_progress s)\<rparr>)
      | AtMarkSources i \<Rightarrow>
          go w (AtGroupB i) v (s\<lparr>xs_source_progress := map_option mark_one_done (xs_source_progress s)\<rparr>)
      | AtGroupB i \<Rightarrow> go w (AtMarkFunctions i) (visit_group_b L (units ! i) v) s
      | AtMarkFunctions i \<Rightarrow>
          go w (AtMarkPointers i) v (s\<lparr>xs_function_progress := map_option mark_one_done (xs_function_progress s)\<rparr>)
      | AtMarkPointers i \<Rightarrow>
          go w AtCheck v (s\<lparr>xs_pointer_progress := map_option mark_one_done (xs_pointer_progress s)\<rparr>)
      | Stopped \<Rightarrow> s)"

definition cancel :: "extraction_state \<Rightarrow> extraction_state" where
  "cancel s = s\<lparr>xs_cancellation := map_option (\<lambda>_. True) (xs_cancellation s)\<rparr>"

definition running :: "nat \<Rightarrow> extraction_state \<Rightarrow> bool" where
  "running w s \<longleftrightarrow> w < length (xs_workers s) \<and> fst (xs_workers s ! w) \<noteq> Stopped"

text \<open>\<open>runs L units n s t\<close>: the system gets from \<open>s\<close> to \<open>t\<close> with \<open>n\<close> steps of workers.\<close>

inductive runs ::
  "'tu libclang \<Rightarrow> compilation_unit list \<Rightarrow> nat \<Rightarrow> extraction_state \<Rightarrow> extraction_state \<Rightarrow> bool"
  for L :: "'tu libclang" and units :: "compilation_unit list" where
  start: "runs L units 0 s s"
| worker: "runs L units n s t \<Longrightarrow> running w t \<Longrightarrow> runs L units (Suc n) s (advance L units w t)"
| cancellation: "runs L units n s t \<Longrightarrow> runs L units n s (cancel t)"

text \<open>Progress as it is handed in, with its total set; every worker at the top of its loop.\<close>

definition begin_extraction ::
  "compilation_unit list \<Rightarrow> nat \<Rightarrow> bool option \<Rightarrow> extraction_progress option \<Rightarrow> extraction_progress option \<Rightarrow>
   extraction_progress option \<Rightarrow> extraction_progress option \<Rightarrow> extraction_state" where
  "begin_extraction units parallelism cancellation types sources functions pointers =
     (let unit_count = length units;
          worker_count = (if units = [] then 0 else min parallelism unit_count)
      in \<lparr>xs_next_index = 0, xs_cancellation = cancellation,
          xs_type_progress = map_option (set_total unit_count) types,
          xs_source_progress = map_option (set_total unit_count) sources,
          xs_function_progress = map_option (set_total unit_count) functions,
          xs_pointer_progress = map_option (set_total unit_count) pointers,
          xs_workers = replicate worker_count (AtCheck, no_visits)\<rparr>)"

section \<open>The result\<close>

datatype extraction_error = LibclangUnavailable string | Cancelled

record extracted =
  ex_type_catalog :: type_catalog
  ex_source_files :: "source_file list"
  ex_function_catalog :: function_catalog
  ex_pointer_catalog :: "pointer_declaration list"

text \<open>libclang is loaded first: a failure ends the extraction with its message.\<close>

definition start_extraction ::
  "string option \<Rightarrow> compilation_unit list \<Rightarrow> nat \<Rightarrow> bool option \<Rightarrow> extraction_progress option \<Rightarrow>
   extraction_progress option \<Rightarrow> extraction_progress option \<Rightarrow> extraction_progress option \<Rightarrow>
   extraction_error + extraction_state" where
  "start_extraction load_failure units parallelism cancellation types sources functions pointers =
     (case load_failure of
        Some message \<Rightarrow> Inl (LibclangUnavailable message)
      | None \<Rightarrow> Inr (begin_extraction units parallelism cancellation types sources functions pointers))"

definition type_partial_of :: "unit_visits \<Rightarrow> type_partial" where
  "type_partial_of v =
     (snd (tm_declarations (uv_types v)), snd (tm_dependencies (uv_types v)), snd (tm_usages (uv_types v)))"

definition function_partial_of :: "unit_visits \<Rightarrow> function_partial" where
  "function_partial_of v =
     (let fv = uv_functions v
      in \<lparr>fp_declarations = fv_declarations fv, fp_calls = fv_calls fv, fp_functions = fv_ir_functions fv,
          fp_is_prototype = fv_ir_function_is_prototype fv, fp_records = fv_ir_records fv,
          fp_enums = fv_ir_enums fv\<rparr>)"

text \<open>The end of \<^verbatim>\<open>extract_project_catalogs_cancellable\<close>, once every worker has stopped.\<close>

definition finish_extraction :: "unicode \<Rightarrow> extraction_state \<Rightarrow> (extraction_error + extracted) option" where
  "finish_extraction U s =
     (if is_cancelled s then Some (Inl Cancelled)
      else
        (let partials = map snd (xs_workers s) in
         map_option
           (\<lambda>functions. Inr
             \<lparr>ex_type_catalog = finish_type_catalog (map type_partial_of partials),
              ex_source_files = finish_source_files (\<Union> (set (map uv_translation_units partials)))
                (\<Union> (set (map uv_headers partials))),
              ex_function_catalog = functions,
              ex_pointer_catalog = finish_pointer_catalog (map uv_pointers partials)\<rparr>)
           (finish_function_catalog U (map function_partial_of partials))))"

section \<open>Who has claimed what\<close>

definition visit_unit :: "'tu libclang \<Rightarrow> compilation_unit \<Rightarrow> unit_visits \<Rightarrow> unit_visits" where
  "visit_unit L u v = visit_group_b L u (visit_group_a L u v)"

text \<open>What one worker alone makes of the units with the given indexes.\<close>

definition visit_all :: "'tu libclang \<Rightarrow> compilation_unit list \<Rightarrow> nat list \<Rightarrow> unit_visits" where
  "visit_all L units claims = fold (\<lambda>i. visit_unit L (units ! i)) claims no_visits"

lemma visit_all_simps [simp]:
  "visit_all L units [] = no_visits"
  "visit_all L units (is @ [i]) = visit_unit L (units ! i) (visit_all L units is)"
  by (simp_all add: visit_all_def)

text \<open>A worker that has claimed some units has visited all but the last, and of the last as much as its place says.\<close>

definition worker_ok :: "'tu libclang \<Rightarrow> compilation_unit list \<Rightarrow> nat list \<Rightarrow> worker_phase \<Rightarrow> unit_visits \<Rightarrow> bool" where
  "worker_ok L units claims phase v =
     (case phase of
        AtGroupA i \<Rightarrow> claims \<noteq> [] \<and> last claims = i \<and> v = visit_all L units (butlast claims)
      | AtMarkTypes i \<Rightarrow> claims \<noteq> [] \<and> last claims = i \<and>
          v = visit_group_a L (units ! i) (visit_all L units (butlast claims))
      | AtMarkSources i \<Rightarrow> claims \<noteq> [] \<and> last claims = i \<and>
          v = visit_group_a L (units ! i) (visit_all L units (butlast claims))
      | AtGroupB i \<Rightarrow> claims \<noteq> [] \<and> last claims = i \<and>
          v = visit_group_a L (units ! i) (visit_all L units (butlast claims))
      | AtMarkFunctions i \<Rightarrow> claims \<noteq> [] \<and> v = visit_all L units claims
      | AtMarkPointers i \<Rightarrow> claims \<noteq> [] \<and> v = visit_all L units claims
      | _ \<Rightarrow> v = visit_all L units claims)"

lemma visit_all_last:
  "claims \<noteq> [] \<Longrightarrow> visit_all L units claims =
    visit_group_b L (units ! last claims) (visit_group_a L (units ! last claims) (visit_all L units (butlast claims)))"
  by (subst append_butlast_last_id [symmetric]) (simp_all add: visit_unit_def del: append_butlast_last_id)

text \<open>Claims a place has not marked yet, per counter.\<close>

primrec pending_types :: "worker_phase \<Rightarrow> nat" where
  "pending_types AtCheck = 0" | "pending_types AtClaim = 0" | "pending_types (AtGroupA i) = 1"
| "pending_types (AtMarkTypes i) = 1" | "pending_types (AtMarkSources i) = 0" | "pending_types (AtGroupB i) = 0"
| "pending_types (AtMarkFunctions i) = 0" | "pending_types (AtMarkPointers i) = 0" | "pending_types Stopped = 0"

primrec pending_sources :: "worker_phase \<Rightarrow> nat" where
  "pending_sources AtCheck = 0" | "pending_sources AtClaim = 0" | "pending_sources (AtGroupA i) = 1"
| "pending_sources (AtMarkTypes i) = 1" | "pending_sources (AtMarkSources i) = 1" | "pending_sources (AtGroupB i) = 0"
| "pending_sources (AtMarkFunctions i) = 0" | "pending_sources (AtMarkPointers i) = 0" | "pending_sources Stopped = 0"

primrec pending_functions :: "worker_phase \<Rightarrow> nat" where
  "pending_functions AtCheck = 0" | "pending_functions AtClaim = 0" | "pending_functions (AtGroupA i) = 1"
| "pending_functions (AtMarkTypes i) = 1" | "pending_functions (AtMarkSources i) = 1"
| "pending_functions (AtGroupB i) = 1" | "pending_functions (AtMarkFunctions i) = 1"
| "pending_functions (AtMarkPointers i) = 0" | "pending_functions Stopped = 0"

primrec pending_pointers :: "worker_phase \<Rightarrow> nat" where
  "pending_pointers AtCheck = 0" | "pending_pointers AtClaim = 0" | "pending_pointers (AtGroupA i) = 1"
| "pending_pointers (AtMarkTypes i) = 1" | "pending_pointers (AtMarkSources i) = 1"
| "pending_pointers (AtGroupB i) = 1" | "pending_pointers (AtMarkFunctions i) = 1"
| "pending_pointers (AtMarkPointers i) = 1" | "pending_pointers Stopped = 0"

text \<open>
  The whole system, seen with a ghost: the list of claims of each worker. The claims partition what the
  cursor has passed, each worker is where its claims say, each counter counts the claims past its mark,
  and a worker stops only when the cursor is past the end or a cancellation has arrived.
\<close>

definition marked :: "(worker_phase \<Rightarrow> nat) \<Rightarrow> nat list list \<Rightarrow> (worker_phase \<times> unit_visits) list \<Rightarrow> nat" where
  "marked pending claims workers =
     sum_list (map (\<lambda>(is, p). length is - pending (fst p)) (zip claims workers))"

definition counts :: "nat \<Rightarrow> nat \<Rightarrow> extraction_progress option \<Rightarrow> bool" where
  "counts unit_count n p \<longleftrightarrow> (case p of None \<Rightarrow> True | Some p \<Rightarrow> ep_total p = unit_count \<and> ep_completed p = n)"

definition stopped_workers :: "extraction_state \<Rightarrow> nat" where
  "stopped_workers s = length (filter (\<lambda>p. fst p = Stopped) (xs_workers s))"

definition partitions :: "nat \<Rightarrow> nat list list \<Rightarrow> bool" where
  "partitions n claims \<longleftrightarrow> list_all (sorted_wrt (<)) claims \<and> mset (concat claims) = mset [0..<n]"

definition claimed :: "'tu libclang \<Rightarrow> compilation_unit list \<Rightarrow> nat list list \<Rightarrow> extraction_state \<Rightarrow> bool" where
  "claimed L units claims s \<longleftrightarrow>
     list_all2 (\<lambda>is p. worker_ok L units is (fst p) (snd p)) claims (xs_workers s) \<and>
     partitions (min (unat (xs_next_index s)) (length units)) claims \<and>
     unat (xs_next_index s) \<le> length units + stopped_workers s \<and>
     (0 < stopped_workers s \<longrightarrow> is_cancelled s \<or> length units \<le> unat (xs_next_index s)) \<and>
     counts (length units) (marked pending_types claims (xs_workers s)) (xs_type_progress s) \<and>
     counts (length units) (marked pending_sources claims (xs_workers s)) (xs_source_progress s) \<and>
     counts (length units) (marked pending_functions claims (xs_workers s)) (xs_function_progress s) \<and>
     counts (length units) (marked pending_pointers claims (xs_workers s)) (xs_pointer_progress s)"

subsection \<open>Updating one worker\<close>

lemma go_simps [simp]:
  "xs_workers (go w phase v s) = (xs_workers s)[w := (phase, v)]"
  "xs_next_index (go w phase v s) = xs_next_index s"
  "xs_cancellation (go w phase v s) = xs_cancellation s"
  "xs_type_progress (go w phase v s) = xs_type_progress s"
  "xs_source_progress (go w phase v s) = xs_source_progress s"
  "xs_function_progress (go w phase v s) = xs_function_progress s"
  "xs_pointer_progress (go w phase v s) = xs_pointer_progress s"
  "is_cancelled (go w phase v s) = is_cancelled s"
  by (simp_all add: go_def is_cancelled_def)

lemma marked_update:
  assumes "w < length claims" and "length claims = length workers"
  shows "marked pending (claims[w := is]) (workers[w := p]) + (length (claims ! w) - pending (fst (workers ! w))) =
    marked pending claims workers + (length is - pending (fst p))"
  using assms
proof (induction claims arbitrary: w workers)
  case (Cons c cs)
  then show ?case by (cases workers; cases w) (auto simp: marked_def algebra_simps)
qed simp

lemma stopped_update:
  assumes "w < length workers" and "fst (workers ! w) \<noteq> Stopped"
  shows "length (filter (\<lambda>p. fst p = Stopped) (workers[w := (phase, v)])) =
    length (filter (\<lambda>p. fst p = Stopped) workers) + (if phase = Stopped then 1 else 0)"
  using assms
proof (induction workers arbitrary: w)
  case (Cons p ps)
  then show ?case by (cases w) auto
qed simp

lemma mset_claim:
  "w < length claims \<Longrightarrow> mset (concat (claims[w := claims ! w @ [i]])) = add_mset i (mset (concat claims))"
proof (induction claims arbitrary: w)
  case (Cons c cs)
  then show ?case by (cases w) auto
qed simp

lemma claim_partitions:
  assumes "partitions i claims" and "w < length claims"
  shows "partitions (Suc i) (claims[w := claims ! w @ [i]])"
proof -
  have "claims ! w \<in> set claims" using assms(2) by simp
  then have "set (claims ! w) \<subseteq> {..<i}"
    using assms(1) mset_eq_setD [of "concat claims" "[0..<i]"] by (auto simp: partitions_def)
  then have "sorted_wrt (<) (claims ! w @ [i])"
    using assms by (auto simp: partitions_def list_all_length sorted_wrt_append)
  then have "list_all (sorted_wrt (<)) (claims[w := claims ! w @ [i]])"
    using assms by (auto simp: partitions_def list_all_length nth_list_update)
  then show ?thesis using assms by (simp add: partitions_def mset_claim)
qed

lemma counts_step:
  assumes "counts n (marked pending claims workers) p" and "w < length claims" and "length claims = length workers"
    and "workers ! w = (old, u)" and "pending old \<le> length (claims ! w)" and "pending old = pending new"
  shows "counts n (marked pending claims (workers[w := (new, v)])) p"
proof -
  have "marked pending claims (workers[w := (new, v)]) = marked pending claims workers"
    using assms marked_update [of w claims workers pending "claims ! w" "(new, v)"] by simp
  then show ?thesis using assms(1) by simp
qed

lemma counts_mark:
  assumes "counts n (marked pending claims workers) p" and "w < length claims" and "length claims = length workers"
    and "workers ! w = (old, u)" and "pending old \<le> length (claims ! w)" and "pending old = Suc (pending new)"
  shows "counts n (marked pending claims (workers[w := (new, v)])) (map_option mark_one_done p)"
proof -
  have "marked pending claims (workers[w := (new, v)]) = Suc (marked pending claims workers)"
    using assms marked_update [of w claims workers pending "claims ! w" "(new, v)"] by simp
  then show ?thesis using assms(1) by (auto simp: counts_def mark_one_done_def split: option.splits)
qed

lemma counts_claim:
  assumes "counts n (marked pending claims workers) p" and "w < length claims" and "length claims = length workers"
    and "workers ! w = (old, u)" and "pending old = 0" and "pending new = 1"
  shows "counts n (marked pending (claims[w := claims ! w @ [i]]) (workers[w := (new, v)])) p"
  using assms marked_update [of w claims workers pending "claims ! w @ [i]" "(new, v)"] by (simp add: counts_def split: option.splits)

lemma worker_ok_pending:
  assumes "worker_ok L units is phase v"
  shows "pending_types phase \<le> length is" and "pending_sources phase \<le> length is"
    and "pending_functions phase \<le> length is" and "pending_pointers phase \<le> length is"
  using assms by (cases phase; cases "is"; simp add: worker_ok_def)+

text \<open>A step that claims nothing keeps the claims, and so does one that only stops.\<close>

lemma worker_ok_update:
  assumes "list_all2 (\<lambda>is p. worker_ok L units is (fst p) (snd p)) claims workers"
    and "worker_ok L units is phase v"
  shows "list_all2 (\<lambda>is p. worker_ok L units is (fst p) (snd p)) (claims[w := is]) (workers[w := (phase, v)])"
  using assms by (intro list_all2_update_cong) simp_all

subsection \<open>The invariant\<close>

definition moves :: "(worker_phase \<Rightarrow> nat) \<Rightarrow> worker_phase \<Rightarrow> worker_phase \<Rightarrow> extraction_progress option \<Rightarrow>
  extraction_progress option \<Rightarrow> bool" where
  "moves pending old new p q \<longleftrightarrow>
     pending old = pending new \<and> q = p \<or> pending old = Suc (pending new) \<and> q = map_option mark_one_done p"

lemma counts_moves:
  assumes "counts n (marked pending claims workers) p" and "w < length claims" and "length claims = length workers"
    and "workers ! w = (old, u)" and "pending old \<le> length (claims ! w)" and "moves pending old new p q"
  shows "counts n (marked pending claims (workers[w := (new, v)])) q"
  using assms counts_step [OF assms(1-5)] counts_mark [OF assms(1-5)] by (auto simp: moves_def)

lemma claimed_workers:
  assumes "claimed L units claims s"
  shows "length claims = length (xs_workers s)"
    and "w < length (xs_workers s) \<Longrightarrow> xs_workers s ! w = (phase, v) \<Longrightarrow> worker_ok L units (claims ! w) phase v"
proof -
  have ok: "list_all2 (\<lambda>is p. worker_ok L units is (fst p) (snd p)) claims (xs_workers s)"
    using assms by (simp add: claimed_def)
  show "length claims = length (xs_workers s)" using ok by (rule list_all2_lengthD)
  show "worker_ok L units (claims ! w) phase v" if "w < length (xs_workers s)" "xs_workers s ! w = (phase, v)"
    using list_all2_nthD2 [OF ok that(1)] that(2) by simp
qed

lemma claimed_visiting:
  assumes c: "claimed L units claims s" and w: "w < length (xs_workers s)" and at: "xs_workers s ! w = (old, u)"
    and old: "old \<noteq> Stopped" and new: "worker_ok L units (claims ! w) phase v"
    and t: "xs_workers t = (xs_workers s)[w := (phase, v)]" "xs_next_index t = xs_next_index s"
      "xs_cancellation t = xs_cancellation s"
    and stop: "phase = Stopped \<Longrightarrow> is_cancelled s"
    and marks: "moves pending_types old phase (xs_type_progress s) (xs_type_progress t)"
      "moves pending_sources old phase (xs_source_progress s) (xs_source_progress t)"
      "moves pending_functions old phase (xs_function_progress s) (xs_function_progress t)"
      "moves pending_pointers old phase (xs_pointer_progress s) (xs_pointer_progress t)"
  shows "claimed L units claims t"
proof -
  note len = claimed_workers(1) [OF c]
  have wc: "w < length claims" using w len by simp
  note ok = claimed_workers(2) [OF c w at]
  note pending = worker_ok_pending [OF ok]
  have workers: "list_all2 (\<lambda>is p. worker_ok L units is (fst p) (snd p)) claims (xs_workers t)"
    using worker_ok_update [of L units claims "xs_workers s" "claims ! w" phase v w] c new t(1)
    by (simp add: claimed_def)
  have stopped: "stopped_workers t = stopped_workers s + (if phase = Stopped then 1 else 0)"
    using stopped_update [OF w, of phase v] at old t(1) by (simp add: stopped_workers_def)
  have flag: "is_cancelled t = is_cancelled s" using t(3) by (simp add: is_cancelled_def)
  have "counts (length units) (marked pending_types claims (xs_workers t)) (xs_type_progress t)"
    using counts_moves [OF _ wc len at pending(1) marks(1)] c t(1) by (simp add: claimed_def)
  moreover have "counts (length units) (marked pending_sources claims (xs_workers t)) (xs_source_progress t)"
    using counts_moves [OF _ wc len at pending(2) marks(2)] c t(1) by (simp add: claimed_def)
  moreover have "counts (length units) (marked pending_functions claims (xs_workers t)) (xs_function_progress t)"
    using counts_moves [OF _ wc len at pending(3) marks(3)] c t(1) by (simp add: claimed_def)
  moreover have "counts (length units) (marked pending_pointers claims (xs_workers t)) (xs_pointer_progress t)"
    using counts_moves [OF _ wc len at pending(4) marks(4)] c t(1) by (simp add: claimed_def)
  ultimately show ?thesis using c workers stopped flag stop t(2) by (auto simp: claimed_def)
qed

lemma claimed_cancel:
  "claimed L units claims s \<Longrightarrow> claimed L units claims (cancel s)"
  by (auto simp: claimed_def cancel_def is_cancelled_def stopped_workers_def)

text \<open>The cursor moves by one; it cannot wrap, since at most one worker per thread looks past the end.\<close>

lemma stopped_running:
  assumes "running w s"
  shows "stopped_workers s < length (xs_workers s)"
proof -
  have "xs_workers s ! w \<in> set (xs_workers s)" "fst (xs_workers s ! w) \<noteq> Stopped"
    using assms by (simp_all add: running_def)
  then show ?thesis unfolding stopped_workers_def by (intro length_filter_less) auto
qed

lemma next_index_step:
  assumes c: "claimed L units claims s" and w: "running w s"
    and fits: "length units + length (xs_workers s) < 2 ^ 64"
  shows "unat (xs_next_index s + 1) = Suc (unat (xs_next_index s))"
proof -
  have "unat (xs_next_index s) < length units + length (xs_workers s)"
    using c stopped_running [OF w] by (simp add: claimed_def)
  then have "Suc (unat (xs_next_index s)) < 2 ^ 64" using fits by simp
  then show ?thesis by (simp add: unat_word_ariths)
qed

lemma claimed_claim:
  assumes c: "claimed L units claims s" and w: "running w s" and at: "xs_workers s ! w = (AtClaim, v)"
    and fits: "length units + length (xs_workers s) < 2 ^ 64"
  shows "\<exists>claims. claimed L units claims (advance L units w s)"
proof -
  let ?i = "unat (xs_next_index s)"
  have wl: "w < length (xs_workers s)" using w by (simp add: running_def)
  note len = claimed_workers(1) [OF c]
  have wc: "w < length claims" using wl len by simp
  have ok: "v = visit_all L units (claims ! w)"
    using claimed_workers(2) [OF c wl at] by (simp add: worker_ok_def)
  note step = next_index_step [OF c w fits]
  have stopped: "stopped_workers (advance L units w s) =
      stopped_workers s + (if ?i < length units then 0 else 1)"
    using stopped_update [OF wl, of "if ?i < length units then AtGroupA ?i else Stopped" v] at
    by (simp add: stopped_workers_def advance_def Let_def split: if_splits)
  show ?thesis
  proof (cases "?i < length units")
    case True
    let ?claims = "claims[w := claims ! w @ [?i]]"
    have "claimed L units ?claims (advance L units w s)"
      unfolding claimed_def
    proof (intro conjI)
      show "list_all2 (\<lambda>is p. worker_ok L units is (fst p) (snd p)) ?claims (xs_workers (advance L units w s))"
        using worker_ok_update [of L units claims "xs_workers s" "claims ! w @ [?i]" "AtGroupA ?i" v w] c at True ok
        by (simp add: claimed_def advance_def worker_ok_def)
      show "partitions (min (unat (xs_next_index (advance L units w s))) (length units)) ?claims"
        using claim_partitions [of ?i claims w] c wc at True step by (simp add: claimed_def advance_def min_def)
    qed (use c at True step stopped counts_claim [OF _ wc len at] in
          \<open>auto simp: claimed_def advance_def is_cancelled_def\<close>)
    then show ?thesis ..
  next
    case False
    have "claimed L units claims (advance L units w s)"
      unfolding claimed_def
    proof (intro conjI)
      show "list_all2 (\<lambda>is p. worker_ok L units is (fst p) (snd p)) claims (xs_workers (advance L units w s))"
        using worker_ok_update [of L units claims "xs_workers s" "claims ! w" Stopped v w] c at False ok
        by (simp add: claimed_def advance_def worker_ok_def)
      show "partitions (min (unat (xs_next_index (advance L units w s))) (length units)) claims"
        using c at False step by (simp add: claimed_def advance_def min_def split: if_splits)
    qed (use c at False step stopped counts_step [OF _ wc len at, of _ _ _ Stopped] in
          \<open>auto simp: claimed_def advance_def is_cancelled_def\<close>)
    then show ?thesis ..
  qed
qed

lemma claimed_advance:
  assumes c: "claimed L units claims s" and w: "running w s"
    and fits: "length units + length (xs_workers s) < 2 ^ 64"
  shows "\<exists>claims. claimed L units claims (advance L units w s)"
proof -
  obtain old v where at: "xs_workers s ! w = (old, v)" by (cases "xs_workers s ! w")
  have wl: "w < length (xs_workers s)" and run: "old \<noteq> Stopped" using w at by (simp_all add: running_def)
  note ok = claimed_workers(2) [OF c wl at]
  show ?thesis
  proof (cases "old = AtClaim")
    case True
    then show ?thesis using claimed_claim [OF c w _ fits] at by simp
  next
    case False
    let ?phase = "fst (xs_workers (advance L units w s) ! w)" and ?v = "snd (xs_workers (advance L units w s) ! w)"
    have "claimed L units claims (advance L units w s)"
      using False ok run wl
      by (intro claimed_visiting [OF c wl at run, of ?phase ?v];
          cases old; simp add: advance_def at moves_def worker_ok_def visit_all_last split: if_splits)
    then show ?thesis ..
  qed
qed

lemma advance_frame [simp]:
  "length (xs_workers (advance L units w s)) = length (xs_workers s)"
  "is_cancelled (advance L units w s) = is_cancelled s"
  by (simp_all add: advance_def Let_def is_cancelled_def split: worker_phase.splits)

lemma cancel_frame [simp]:
  "xs_workers (cancel s) = xs_workers s" "xs_next_index (cancel s) = xs_next_index s"
  "is_cancelled s \<Longrightarrow> is_cancelled (cancel s)"
  by (auto simp: cancel_def is_cancelled_def)

lemma runs_workers: "runs L units n s t \<Longrightarrow> length (xs_workers t) = length (xs_workers s)"
  by (induction rule: runs.induct) simp_all

lemma runs_claimed:
  assumes "runs L units n s t" and "claimed L units claims s" and "length units + length (xs_workers s) < 2 ^ 64"
  shows "\<exists>claims. claimed L units claims t"
  using assms
proof (induction rule: runs.induct)
  case (worker n s t w)
  then show ?case using claimed_advance [of L units _ t w] runs_workers [OF worker.hyps(1)] by auto
next
  case (cancellation n s t)
  then show ?case using claimed_cancel by blast
qed blast

text \<open>Progress starts from nothing done.\<close>

definition unstarted :: "extraction_progress option \<Rightarrow> bool" where
  "unstarted p \<longleftrightarrow> (case p of None \<Rightarrow> True | Some p \<Rightarrow> ep_completed p = 0)"

definition unstarted_all :: "extraction_progress option list \<Rightarrow> bool" where
  "unstarted_all = list_all unstarted"

lemma marked_nothing [simp]:
  "marked pending (replicate n []) workers = 0"
proof -
  have "length (fst q) - pending (fst (snd q)) = 0" if "q \<in> set (zip (replicate n []) workers)" for q
    using set_zip_leftD [of "fst q" "snd q" "replicate n []" workers] that by simp
  then show ?thesis by (auto simp: marked_def)
qed

lemma claimed_begin:
  assumes "unstarted_all [types, sources, functions, pointers]"
  shows "\<exists>claims. claimed L units claims (begin_extraction units k cancellation types sources functions pointers)"
proof
  let ?n = "if units = [] then 0 else min k (length units)"
  have count: "counts (length units) 0 (map_option (set_total (length units)) p)" if "unstarted p" for p
    using that by (simp add: counts_def unstarted_def set_total_def split: option.splits)
  show "claimed L units (replicate ?n []) (begin_extraction units k cancellation types sources functions pointers)"
    using assms
    by (simp add: claimed_def begin_extraction_def unstarted_all_def count list_all2_conv_all_nth worker_ok_def
        partitions_def stopped_workers_def Let_def list_all_iff)
qed

lemma begin_workers:
  "length (xs_workers (begin_extraction units k cancellation types sources functions pointers)) =
    min k (length units)"
  by (simp add: begin_extraction_def Let_def)

text \<open>What every state of an extraction satisfies.\<close>

lemma extraction_claimed:
  assumes "runs L units n (begin_extraction units k cancellation types sources functions pointers) t"
    and "unstarted_all [types, sources, functions, pointers]" and "2 * length units < 2 ^ 64"
  shows "\<exists>claims. claimed L units claims t"
proof -
  obtain claims where
    "claimed L units claims (begin_extraction units k cancellation types sources functions pointers)"
    using claimed_begin [OF assms(2)] by blast
  then show ?thesis using runs_claimed [OF assms(1)] assms(3) begin_workers by simp
qed

section \<open>Every unit is visited once\<close>

lemma marked_all:
  assumes "list_all (\<lambda>p. fst p = Stopped) workers" and "length claims = length workers"
    and "pending Stopped = 0"
  shows "marked pending claims workers = length (concat claims)"
  using assms(2,1)
proof (induction claims workers rule: list_induct2)
  case (Cons c cs p ps)
  then show ?case using assms(3) by (simp add: marked_def)
qed (simp add: marked_def)

lemma stopped_all:
  "(\<forall>w. \<not> running w s) \<longleftrightarrow> list_all (\<lambda>p. fst p = Stopped) (xs_workers s)"
  by (auto simp: running_def list_all_length)

definition all_stopped :: "extraction_state \<Rightarrow> bool" where
  "all_stopped s \<longleftrightarrow> list_all (\<lambda>p. fst p = Stopped) (xs_workers s)"

text \<open>The indexes of the units each worker ended up with, and what it found in them.\<close>

definition shared_out :: "'tu libclang \<Rightarrow> compilation_unit list \<Rightarrow> nat list list \<Rightarrow> extraction_state \<Rightarrow> bool" where
  "shared_out L units claims s \<longleftrightarrow>
     partitions (length units) claims \<and> map snd (xs_workers s) = map (visit_all L units) claims"

definition done_everywhere :: "nat \<Rightarrow> extraction_state \<Rightarrow> bool" where
  "done_everywhere n s \<longleftrightarrow>
     list_all (counts n n) [xs_type_progress s, xs_source_progress s, xs_function_progress s, xs_pointer_progress s]"

lemma claimed_ended:
  assumes c: "claimed L units claims s" and all: "all_stopped s" and flag: "\<not> is_cancelled s"
    and some: "units \<noteq> [] \<Longrightarrow> xs_workers s \<noteq> []"
  shows "shared_out L units claims s" and "done_everywhere (length units) s"
proof -
  note len = claimed_workers(1) [OF c]
  have "stopped_workers s = length (xs_workers s)"
    using all by (simp add: stopped_workers_def all_stopped_def list_all_iff)
  then have "length units \<le> unat (xs_next_index s)"
    using c flag some by (cases "units = []") (auto simp: claimed_def)
  then have part: "partitions (length units) claims" using c by (simp add: claimed_def min_def split: if_splits)
  have "length (concat claims) = length units"
    using part unfolding partitions_def by (metis length_upt minus_nat.diff_0 size_mset)
  then have marked: "pending Stopped = 0 \<Longrightarrow> marked pending claims (xs_workers s) = length units" for pending
    using marked_all [of "xs_workers s" claims pending] all len by (simp add: all_stopped_def)
  then show "done_everywhere (length units) s" using c by (simp add: done_everywhere_def claimed_def)
  have "snd (xs_workers s ! w) = visit_all L units (claims ! w)" if "w < length claims" for w
    using claimed_workers(2) [OF c, of w Stopped "snd (xs_workers s ! w)"] all that len
    by (simp add: worker_ok_def all_stopped_def list_all_length prod_eq_iff)
  then show "shared_out L units claims s"
    using part len by (simp add: shared_out_def list_eq_iff_nth_eq)
qed

text \<open>The files a schedule cannot change.\<close>

definition canonical_files :: "'tu libclang \<Rightarrow> compilation_unit list \<Rightarrow> string set" where
  "canonical_files L units = {file. \<exists>u\<in>set units. lc_canonicalize_within L (cu_file u) = Some file}"

definition included_files :: "'tu libclang \<Rightarrow> ('tu \<Rightarrow> string set) \<Rightarrow> compilation_unit list \<Rightarrow> string set" where
  "included_files L included units =
     {file. \<exists>u\<in>set units. \<exists>tu. lc_parse_skipping_bodies L u = Some tu \<and> file \<in> included tu}"

lemma visit_unit_files:
  "uv_translation_units (visit_unit L u v) = canonical_files L [u] \<union> uv_translation_units v"
  "(\<And>tu hs. lc_collect_inclusions L tu hs = hs \<union> included tu) \<Longrightarrow>
    uv_headers (visit_unit L u v) = included_files L included [u] \<union> uv_headers v"
  by (auto simp: visit_unit_def visit_group_a_def visit_group_b_def canonical_files_def included_files_def Let_def
      split: option.splits)

lemma visit_all_files:
  "uv_translation_units (visit_all L units claims) = canonical_files L (map ((!) units) claims)"
  "(\<And>tu hs. lc_collect_inclusions L tu hs = hs \<union> included tu) \<Longrightarrow>
    uv_headers (visit_all L units claims) = included_files L included (map ((!) units) claims)"
proof -
  show "uv_translation_units (visit_all L units claims) = canonical_files L (map ((!) units) claims)"
    by (induction claims rule: rev_induct)
      (auto simp: visit_unit_files(1) canonical_files_def no_visits_def)
  show "uv_headers (visit_all L units claims) = included_files L included (map ((!) units) claims)"
    if "\<And>tu hs. lc_collect_inclusions L tu hs = hs \<union> included tu"
    by (induction claims rule: rev_induct)
      (auto simp: visit_unit_files(2) [OF that] included_files_def no_visits_def)
qed

lemma partitions_units:
  assumes "partitions (length units) claims"
  shows "(\<Union>is\<in>set claims. set (map ((!) units) is)) = set units"
proof -
  have "set (concat claims) = {0..<length units}"
    using assms mset_eq_setD [of "concat claims" "[0..<length units]"] by (simp add: partitions_def)
  moreover have "(\<Union>is\<in>set claims. set (map ((!) units) is)) = (!) units ` set (concat claims)" by auto
  moreover have "(!) units ` {0..<length units} = set units" by (metis map_nth set_map set_upt)
  ultimately show ?thesis by metis
qed

lemma shared_out_files:
  assumes "shared_out L units claims s"
  shows "\<Union> (set (map uv_translation_units (map snd (xs_workers s)))) = canonical_files L units"
    and "(\<And>tu hs. lc_collect_inclusions L tu hs = hs \<union> included tu) \<Longrightarrow>
      \<Union> (set (map uv_headers (map snd (xs_workers s)))) = included_files L included units"
proof -
  have all: "map snd (xs_workers s) = map (visit_all L units) claims"
    and units: "(\<Union>is\<in>set claims. set (map ((!) units) is)) = set units"
    using assms partitions_units [of units claims] by (simp_all add: shared_out_def del: set_map)
  have "\<Union> (set (map uv_translation_units (map snd (xs_workers s)))) =
      (\<Union>is\<in>set claims. canonical_files L (map ((!) units) is))"
    unfolding all by (auto simp: visit_all_files(1))
  also have "\<dots> = canonical_files L units"
    unfolding canonical_files_def units [symmetric] by blast
  finally show "\<Union> (set (map uv_translation_units (map snd (xs_workers s)))) = canonical_files L units" .
  show "\<Union> (set (map uv_headers (map snd (xs_workers s)))) = included_files L included units"
    if additive: "\<And>tu hs. lc_collect_inclusions L tu hs = hs \<union> included tu"
  proof -
    have "\<Union> (set (map uv_headers (map snd (xs_workers s)))) =
        (\<Union>is\<in>set claims. included_files L included (map ((!) units) is))"
      unfolding all by (auto simp: visit_all_files(2) [OF additive])
    also have "\<dots> = included_files L included units"
      unfolding included_files_def units [symmetric] by blast
    finally show ?thesis .
  qed
qed

section \<open>How long an extraction runs\<close>

text \<open>The steps a worker still has before it next looks at the cursor, and the steps all of them still have.\<close>

primrec steps_left :: "worker_phase \<Rightarrow> nat" where
  "steps_left Stopped = 0" | "steps_left AtClaim = 1" | "steps_left AtCheck = 2"
| "steps_left (AtMarkPointers i) = 3" | "steps_left (AtMarkFunctions i) = 4" | "steps_left (AtGroupB i) = 5"
| "steps_left (AtMarkSources i) = 6" | "steps_left (AtMarkTypes i) = 7" | "steps_left (AtGroupA i) = 8"

text \<open>After a cancellation a worker that has claimed a unit still finishes it, and none claims a second.\<close>

primrec steps_after_cancel :: "worker_phase \<Rightarrow> nat" where
  "steps_after_cancel Stopped = 0" | "steps_after_cancel AtCheck = 1" | "steps_after_cancel (AtMarkPointers i) = 2"
| "steps_after_cancel (AtMarkFunctions i) = 3" | "steps_after_cancel (AtGroupB i) = 4"
| "steps_after_cancel (AtMarkSources i) = 5" | "steps_after_cancel (AtMarkTypes i) = 6"
| "steps_after_cancel (AtGroupA i) = 7" | "steps_after_cancel AtClaim = 8"

definition workers_total :: "(worker_phase \<Rightarrow> nat) \<Rightarrow> extraction_state \<Rightarrow> nat" where
  "workers_total f s = sum_list (map (f \<circ> fst) (xs_workers s))"

definition effort :: "compilation_unit list \<Rightarrow> extraction_state \<Rightarrow> nat" where
  "effort units s = 8 * (length units - unat (xs_next_index s)) + workers_total steps_left s"

lemma workers_total_step:
  assumes "running w s"
  shows "workers_total f (advance L units w s) + f (fst (xs_workers s ! w)) =
    workers_total f s + f (fst (xs_workers (advance L units w s) ! w))"
proof -
  have w: "w < length (xs_workers s)" using assms by (simp add: running_def)
  have step: "sum_list (map (f \<circ> fst) (ps[w := p])) + f (fst (ps ! w)) = sum_list (map (f \<circ> fst) ps) + f (fst p)"
    if "w < length ps" for ps :: "(worker_phase \<times> unit_visits) list" and p
    using that by (induction ps arbitrary: w) (auto split: nat.split)
  have "xs_workers (advance L units w s) = (xs_workers s)[w := xs_workers (advance L units w s) ! w]"
    using w by (cases "fst (xs_workers s ! w)") (simp_all add: advance_def Let_def)
  then have "workers_total f (advance L units w s) =
      sum_list (map (f \<circ> fst) ((xs_workers s)[w := xs_workers (advance L units w s) ! w]))"
    by (simp add: workers_total_def)
  then show ?thesis using step [OF w, of "xs_workers (advance L units w s) ! w"] by (simp add: workers_total_def)
qed

lemma effort_step:
  assumes c: "claimed L units claims s" and w: "running w s"
    and fits: "length units + length (xs_workers s) < 2 ^ 64"
  shows "effort units (advance L units w s) < effort units s"
  using workers_total_step [OF w, of steps_left L units] next_index_step [OF c w fits] w
  by (cases "fst (xs_workers s ! w)") (auto simp: effort_def advance_def running_def Let_def split: if_splits)

lemma runs_effort:
  assumes "runs L units n s t" and "claimed L units claims s" and "length units + length (xs_workers s) < 2 ^ 64"
  shows "n + effort units t \<le> effort units s"
  using assms
proof (induction rule: runs.induct)
  case (worker n s t w)
  obtain claims where "claimed L units claims t" using runs_claimed [OF worker.hyps(1)] worker.prems by blast
  then have "effort units (advance L units w t) < effort units t"
    using effort_step [of L units claims t w] worker.hyps(2) runs_workers [OF worker.hyps(1)] worker.prems by simp
  then show ?case using worker by simp
qed (simp_all add: effort_def workers_total_def)

lemma runs_trans:
  assumes "runs L units m t u" and "runs L units n s t"
  shows "runs L units (n + m) s u"
  using assms by (induction rule: runs.induct) (auto intro: runs.intros)

text \<open>From wherever it is, an extraction can go on until every worker has stopped.\<close>

lemma runs_to_the_end:
  assumes "claimed L units claims s" and "length units + length (xs_workers s) < 2 ^ 64"
  shows "\<exists>n t. runs L units n s t \<and> all_stopped t"
  using assms
proof (induction "effort units s" arbitrary: s claims rule: less_induct)
  case less
  show ?case
  proof (cases "\<exists>w. running w s")
    case True
    then obtain w where w: "running w s" ..
    obtain claims' where "claimed L units claims' (advance L units w s)"
      using claimed_advance [OF less.prems(1) w less.prems(2)] by blast
    moreover have "length units + length (xs_workers (advance L units w s)) < 2 ^ 64" using less.prems(2) by simp
    ultimately obtain n t where "runs L units n (advance L units w s) t" "all_stopped t"
      using less.hyps [OF effort_step [OF less.prems(1) w less.prems(2)]] by blast
    then show ?thesis using runs_trans runs.worker [OF runs.start w] by blast
  next
    case False
    then show ?thesis using runs.start [of L units s] stopped_all [of s] by (auto simp: all_stopped_def)
  qed
qed

lemma begin_effort:
  "effort units (begin_extraction units k cancellation types sources functions pointers) \<le>
    8 * length units + 2 * min k (length units)"
  by (simp add: effort_def begin_extraction_def workers_total_def Let_def sum_list_replicate)

text \<open>Once a cancellation has arrived every step of a worker is one of its last.\<close>

lemma cancelled_step:
  assumes "is_cancelled s" and "running w s"
  shows "workers_total steps_after_cancel (advance L units w s) < workers_total steps_after_cancel s"
  using workers_total_step [OF assms(2), of steps_after_cancel L units] assms
  by (cases "fst (xs_workers s ! w)") (auto simp: advance_def running_def Let_def split: if_splits)

lemma runs_cancelled:
  assumes "runs L units n s t" and "is_cancelled s"
  shows "is_cancelled t" and "n + workers_total steps_after_cancel t \<le> workers_total steps_after_cancel s"
proof -
  have "is_cancelled t \<and> n + workers_total steps_after_cancel t \<le> workers_total steps_after_cancel s"
    using assms
  proof (induction rule: runs.induct)
    case (worker n s t w)
    then show ?case using cancelled_step [of t w L units] by simp
  qed (simp_all add: workers_total_def)
  then show "is_cancelled t" and "n + workers_total steps_after_cancel t \<le> workers_total steps_after_cancel s"
    by simp_all
qed

text \<open>Only a worker already past its check still claims a unit.\<close>

definition about_to_claim :: "extraction_state \<Rightarrow> nat" where
  "about_to_claim = workers_total (\<lambda>phase. if phase = AtClaim then 1 else 0)"

lemma cancelled_claims_step:
  assumes "is_cancelled s" and "running w s"
  shows "unat (xs_next_index (advance L units w s)) + about_to_claim (advance L units w s) \<le>
    unat (xs_next_index s) + about_to_claim s"
proof -
  have next_index: "unat (xs_next_index s + 1) \<le> Suc (unat (xs_next_index s))" by (simp add: unat_word_ariths)
  show ?thesis
    using workers_total_step [OF assms(2), of "\<lambda>phase. if phase = AtClaim then 1 else 0" L units] assms
      next_index
    unfolding about_to_claim_def
    by (cases "fst (xs_workers s ! w)") (auto simp: advance_def running_def Let_def split: if_splits)
qed

lemma runs_cancelled_claims:
  assumes "runs L units n s t" and "is_cancelled s"
  shows "unat (xs_next_index t) + about_to_claim t \<le> unat (xs_next_index s) + about_to_claim s"
  using assms
proof (induction rule: runs.induct)
  case (worker n s t w)
  then show ?case
    using cancelled_claims_step [of t w L units] runs_cancelled(1) [OF worker.hyps(1)] by fastforce
qed (simp_all add: about_to_claim_def workers_total_def)

lemma workers_total_le:
  assumes "\<And>phase. f phase \<le> m"
  shows "workers_total f s \<le> m * length (xs_workers s)"
proof -
  have "sum_list (map (f \<circ> fst) ps) \<le> m * length ps" for ps :: "(worker_phase \<times> unit_visits) list"
    using assms by (induction ps) (auto intro: add_mono)
  then show ?thesis by (simp add: workers_total_def)
qed

lemma steps_after_cancel_le: "steps_after_cancel phase \<le> 8"
  by (cases phase) simp_all

section \<open>Bounds of the counters\<close>

definition at_most :: "nat \<Rightarrow> extraction_progress option \<Rightarrow> bool" where
  "at_most n p \<longleftrightarrow> (case p of None \<Rightarrow> True | Some p \<Rightarrow> ep_total p = n \<and> ep_completed p \<le> n)"

definition behind :: "extraction_progress option \<Rightarrow> extraction_progress option \<Rightarrow> bool" where
  "behind p q \<longleftrightarrow> (case (p, q) of (Some p, Some q) \<Rightarrow> ep_completed p \<le> ep_completed q | _ \<Rightarrow> True)"

lemma marked_mono:
  assumes "\<And>phase. pending phase \<le> pending' phase"
  shows "marked pending' claims workers \<le> marked pending claims workers"
  unfolding marked_def using assms by (intro sum_list_mono) (auto intro: diff_le_mono2)

lemma marked_le_claims: "marked pending claims workers \<le> length (concat claims)"
proof (induction claims arbitrary: workers)
  case (Cons c cs)
  show ?case
  proof (cases workers)
    case (Cons p ps)
    then show ?thesis
      using Cons.IH [of ps] add_mono [of "length c - pending (fst p)" "length c"] by (simp add: marked_def)
  qed (simp add: marked_def)
qed (simp add: marked_def)

lemma pending_order:
  "pending_types phase \<le> pending_sources phase" "pending_sources phase \<le> pending_functions phase"
  "pending_functions phase \<le> pending_pointers phase"
  by (cases phase; simp)+

lemma counts_behind:
  assumes "counts n (marked f claims workers) p" and "counts n (marked g claims workers) q"
    and "\<And>phase. g phase \<le> f phase"
  shows "behind p q"
  using assms marked_mono [of g f claims workers] by (auto simp: counts_def behind_def split: option.splits)

lemma claimed_bounds:
  assumes c: "claimed L units claims s"
  shows "list_all (at_most (length units))
      [xs_type_progress s, xs_source_progress s, xs_function_progress s, xs_pointer_progress s]"
    and "behind (xs_pointer_progress s) (xs_function_progress s)"
    and "behind (xs_function_progress s) (xs_source_progress s)"
    and "behind (xs_source_progress s) (xs_type_progress s)"
proof -
  have "length (concat claims) = min (unat (xs_next_index s)) (length units)"
    using c unfolding claimed_def partitions_def by (metis length_upt minus_nat.diff_0 size_mset)
  then have "marked pending claims (xs_workers s) \<le> length units" for pending
    using marked_le_claims [of pending claims "xs_workers s"] by simp
  then show "list_all (at_most (length units))
      [xs_type_progress s, xs_source_progress s, xs_function_progress s, xs_pointer_progress s]"
    using c by (auto simp: claimed_def counts_def at_most_def split: option.splits)
  show "behind (xs_pointer_progress s) (xs_function_progress s)"
    and "behind (xs_function_progress s) (xs_source_progress s)"
    and "behind (xs_source_progress s) (xs_type_progress s)"
    using c pending_order by (auto simp: claimed_def intro: counts_behind)
qed

section \<open>Properties\<close>

text \<open>A schedule says whose turn it is; following one is a run as long as nobody who has stopped gets a turn.\<close>

primrec follow :: "'tu libclang \<Rightarrow> compilation_unit list \<Rightarrow> nat list \<Rightarrow> extraction_state \<Rightarrow> extraction_state option" where
  "follow L units [] s = Some s"
| "follow L units (w # ws) s = (if running w s then follow L units ws (advance L units w s) else None)"

lemma follow_runs: "follow L units ws s = Some t \<Longrightarrow> runs L units (length ws) s t"
proof (induction ws arbitrary: s)
  case (Cons w ws)
  then have w: "running w s" and "runs L units (length ws) (advance L units w s) t"
    by (simp_all split: if_splits)
  then show ?case using runs_trans [OF _ runs.worker [OF runs.start w]] by fastforce
qed (simp add: runs.start)

text \<open>Two units, one of which does not parse, and two workers that take turns.\<close>

definition sample_clang :: "string libclang" where
  "sample_clang =
     \<lparr>lc_canonicalize_within = (\<lambda>file. Some (''/p/'' @ file)),
      lc_parse_skipping_bodies = (\<lambda>u. if cu_file u = ''broken.cpp'' then None else Some (cu_file u)),
      lc_visit_types = (\<lambda>tu v. v), lc_collect_inclusions = (\<lambda>tu headers. insert (tu @ ''.h'') headers),
      lc_parse_with_bodies = (\<lambda>u. if cu_file u = ''broken.cpp'' then None else Some (cu_file u)),
      lc_visit_functions = (\<lambda>tu v. v), lc_visit_pointers = (\<lambda>tu v. v)\<rparr>"

definition sample_units :: "compilation_unit list" where
  "sample_units = map (\<lambda>file. \<lparr>cu_directory = ''/p'', cu_file = file, cu_command = None, cu_arguments = []\<rparr>)
     [''a.cpp'', ''broken.cpp'']"

definition sample_begin :: "bool option \<Rightarrow> extraction_state" where
  "sample_begin cancellation =
     (let fresh = Some \<lparr>ep_completed = 0, ep_total = 0\<rparr>
      in begin_extraction sample_units 8 cancellation fresh fresh fresh fresh)"

definition sample_schedule :: "nat list" where
  "sample_schedule = [0, 1, 1, 0, 0, 1, 0, 1] @ replicate 6 1 @ replicate 6 0"

definition sample_end :: extraction_state where
  "sample_end =
     (let visits = no_visits\<lparr>uv_translation_units := {''/p/broken.cpp''}\<rparr>;
          others = no_visits\<lparr>uv_translation_units := {''/p/a.cpp''}, uv_headers := {''a.cpp.h''}\<rparr>;
          both = Some \<lparr>ep_completed = 2, ep_total = 2\<rparr>
      in \<lparr>xs_next_index = 4, xs_cancellation = Some False, xs_type_progress = both, xs_source_progress = both,
          xs_function_progress = both, xs_pointer_progress = both,
          xs_workers = [(Stopped, visits), (Stopped, others)]\<rparr>)"

lemma sample_run: "runs sample_clang sample_units 20 (sample_begin (Some False)) sample_end"
proof -
  have "follow sample_clang sample_units sample_schedule (sample_begin (Some False)) = Some sample_end"
    by code_simp
  from follow_runs [OF this] show ?thesis by (simp add: sample_schedule_def)
qed

text \<open>
  C17. However the workers interleave, when all have stopped and nobody has cancelled, the indexes of the
  compilation units are shared out: each was claimed by exactly one worker, each worker has visited its
  own in increasing order and holds what visiting them one after the other gives, and every counter
  stands at its total. The cursor is a 64-bit word; the hypothesis that twice the number of units fits
  in it is what keeps it from wrapping.
\<close>

theorem every_unit_visited_once:
  assumes "runs L units n (begin_extraction units k cancellation types sources functions pointers) t"
    and "unstarted_all [types, sources, functions, pointers]" and "2 * length units < 2 ^ 64" and "0 < k"
    and "all_stopped t" and "\<not> is_cancelled t"
  shows "(\<exists>claims. shared_out L units claims t) \<and> done_everywhere (length units) t"
proof -
  obtain claims where c: "claimed L units claims t" using extraction_claimed [OF assms(1-3)] by blast
  have "units \<noteq> [] \<Longrightarrow> xs_workers t \<noteq> []"
    using runs_workers [OF assms(1)] begin_workers assms(4) by (metis length_greater_0_conv min_less_iff_conj)
  then show ?thesis using claimed_ended [OF c assms(5,6)] by blast
qed

theorem every_unit_visited_once_witness:
  "all_stopped sample_end \<and> (\<exists>claims. shared_out sample_clang sample_units claims sample_end) \<and>
   done_everywhere 2 sample_end"
proof -
  let ?fresh = "Some \<lparr>ep_completed = 0, ep_total = 0\<rparr>"
  have "all_stopped sample_end" "\<not> is_cancelled sample_end" "unstarted_all [?fresh, ?fresh, ?fresh, ?fresh]"
    "length sample_units = 2"
    by code_simp+
  moreover from this have "(\<exists>claims. shared_out sample_clang sample_units claims sample_end) \<and>
      done_everywhere (length sample_units) sample_end"
    by (intro every_unit_visited_once [OF sample_run [unfolded sample_begin_def Let_def]]) simp_all
  ultimately show ?thesis by simp
qed

text \<open>
  C18. The files of the project's source catalog do not depend on how the units were spread over the
  workers: they are the canonical paths of all units, and the headers any unit that parses includes.
  That a visit adds the inclusions of a parsed unit to those it is given, and touches no others, is
  what the code relies on of libclang's \<^verbatim>\<open>clang_getInclusions\<close>.
\<close>

theorem source_files_ignore_the_schedule:
  assumes "runs L units n (begin_extraction units k cancellation types sources functions pointers) t"
    and "unstarted_all [types, sources, functions, pointers]" and "2 * length units < 2 ^ 64" and "0 < k"
    and "all_stopped t" and "finish_extraction U t = Some (Inr result)"
    and "\<And>tu headers. lc_collect_inclusions L tu headers = headers \<union> included tu"
  shows "ex_source_files result =
    finish_source_files (canonical_files L units) (included_files L included units)"
proof -
  have flag: "\<not> is_cancelled t" using assms(6) by (auto simp: finish_extraction_def split: if_splits)
  obtain claims where c: "claimed L units claims t" using extraction_claimed [OF assms(1-3)] by blast
  have "units \<noteq> [] \<Longrightarrow> xs_workers t \<noteq> []"
    using runs_workers [OF assms(1)] begin_workers assms(4) by (metis length_greater_0_conv min_less_iff_conj)
  then have "shared_out L units claims t" using claimed_ended(1) [OF c assms(5) flag] by blast
  from shared_out_files [OF this] assms(7)
  have "\<Union> (set (map uv_translation_units (map snd (xs_workers t)))) = canonical_files L units"
    and "\<Union> (set (map uv_headers (map snd (xs_workers t)))) = included_files L included units" by simp_all
  then show ?thesis using assms(6) flag by (auto simp: finish_extraction_def Let_def)
qed

theorem source_files_ignore_the_schedule_witness:
  "map_option (\<lambda>r. case r of Inl _ \<Rightarrow> [] | Inr result \<Rightarrow> map sf_path (ex_source_files result))
     (finish_extraction ascii_tables sample_end) = Some [''/p/a.cpp'', ''/p/broken.cpp'', ''a.cpp.h''] \<and>
   map sf_path (finish_source_files (canonical_files sample_clang sample_units)
     (included_files sample_clang (\<lambda>tu. {tu @ ''.h''}) sample_units)) =
     [''/p/a.cpp'', ''/p/broken.cpp'', ''a.cpp.h'']"
proof
  show listed: "map_option (\<lambda>r. case r of Inl _ \<Rightarrow> [] | Inr result \<Rightarrow> map sf_path (ex_source_files result))
     (finish_extraction ascii_tables sample_end) = Some [''/p/a.cpp'', ''/p/broken.cpp'', ''a.cpp.h'']"
    by code_simp
  then obtain r where r: "finish_extraction ascii_tables sample_end = Some r"
      "(case r of Inl _ \<Rightarrow> [] | Inr result \<Rightarrow> map sf_path (ex_source_files result)) \<noteq> []" by auto
  then obtain result where result: "finish_extraction ascii_tables sample_end = Some (Inr result)"
    by (cases r) auto
  let ?fresh = "Some \<lparr>ep_completed = 0, ep_total = 0\<rparr>"
  have "all_stopped sample_end" "unstarted_all [?fresh, ?fresh, ?fresh, ?fresh]" "length sample_units = 2"
    by code_simp+
  with result have "ex_source_files result = finish_source_files (canonical_files sample_clang sample_units)
      (included_files sample_clang (\<lambda>tu. {tu @ ''.h''}) sample_units)"
    by (intro source_files_ignore_the_schedule [OF sample_run [unfolded sample_begin_def Let_def]])
      (simp_all add: sample_clang_def)
  then show "map sf_path (finish_source_files (canonical_files sample_clang sample_units)
     (included_files sample_clang (\<lambda>tu. {tu @ ''.h''}) sample_units)) =
     [''/p/a.cpp'', ''/p/broken.cpp'', ''a.cpp.h'']"
    using listed result by simp
qed

text \<open>
  C19. At every moment of an extraction the counters a poller reads are in bounds: each has the number of
  units as its total and has not passed it, pointers are never ahead of functions, functions never ahead
  of sources, sources never ahead of types, and the cursor has passed the end by at most one look per
  worker, so it has not wrapped.
\<close>

theorem counters_stay_in_bounds:
  assumes "runs L units n (begin_extraction units k cancellation types sources functions pointers) t"
    and "unstarted_all [types, sources, functions, pointers]" and "2 * length units < 2 ^ 64"
  shows "list_all (at_most (length units))
      [xs_type_progress t, xs_source_progress t, xs_function_progress t, xs_pointer_progress t] \<and>
    behind (xs_pointer_progress t) (xs_function_progress t) \<and>
    behind (xs_function_progress t) (xs_source_progress t) \<and>
    behind (xs_source_progress t) (xs_type_progress t) \<and>
    unat (xs_next_index t) \<le> length units + min k (length units)"
proof -
  obtain claims where c: "claimed L units claims t" using extraction_claimed [OF assms] by blast
  have "stopped_workers t \<le> min k (length units)"
    using runs_workers [OF assms(1)] begin_workers length_filter_le [of _ "xs_workers t"]
    unfolding stopped_workers_def by metis
  moreover have "unat (xs_next_index t) \<le> length units + stopped_workers t" using c by (simp add: claimed_def)
  ultimately have "unat (xs_next_index t) \<le> length units + min k (length units)" by linarith
  then show ?thesis using claimed_bounds [OF c] by blast
qed

theorem counters_stay_in_bounds_witness:
  "behind (xs_pointer_progress sample_end) (xs_type_progress sample_end) \<and>
   unat (xs_next_index sample_end) \<le> 4"
proof
  let ?fresh = "Some \<lparr>ep_completed = 0, ep_total = 0\<rparr>"
  show "behind (xs_pointer_progress sample_end) (xs_type_progress sample_end)" by code_simp
  have "unstarted_all [?fresh, ?fresh, ?fresh, ?fresh]" "length sample_units = 2" by code_simp+
  then have "unat (xs_next_index sample_end) \<le> length sample_units + min 8 (length sample_units)"
    by (intro counters_stay_in_bounds
        [OF sample_run [unfolded sample_begin_def Let_def], THEN conjunct2, THEN conjunct2, THEN conjunct2,
          THEN conjunct2]) simp_all
  then show "unat (xs_next_index sample_end) \<le> 4" using \<open>length sample_units = 2\<close> by simp
qed

text \<open>
  C20. No extraction runs for ever: whatever the interleaving and whether or not somebody cancels, the
  workers have taken at most eight steps per unit and two per worker, and from wherever they are they
  get to a state where all have stopped, within that bound.
\<close>

theorem every_extraction_ends:
  assumes "runs L units n (begin_extraction units k cancellation types sources functions pointers) t"
    and "unstarted_all [types, sources, functions, pointers]" and "2 * length units < 2 ^ 64"
  shows "\<exists>m u. runs L units m t u \<and> all_stopped u \<and> n + m \<le> 8 * length units + 2 * min k (length units)"
proof -
  let ?s = "begin_extraction units k cancellation types sources functions pointers"
  have fits: "length units + length (xs_workers ?s) < 2 ^ 64" using assms(3) begin_workers by simp
  obtain claims0 where c0: "claimed L units claims0 ?s" using claimed_begin [OF assms(2)] by blast
  obtain claims where c: "claimed L units claims t" using extraction_claimed [OF assms] by blast
  have "length units + length (xs_workers t) < 2 ^ 64" using fits runs_workers [OF assms(1)] by simp
  from runs_to_the_end [OF c this] obtain m u where u: "runs L units m t u" "all_stopped u" by blast
  have "n + m + effort units u \<le> effort units ?s"
    using runs_effort [OF runs_trans [OF u(1) assms(1)] c0 fits] by simp
  moreover have "effort units ?s \<le> 8 * length units + 2 * min k (length units)" by (rule begin_effort)
  ultimately have "n + m \<le> 8 * length units + 2 * min k (length units)" by linarith
  with u show ?thesis by blast
qed

theorem every_extraction_ends_witness:
  "\<exists>m u. runs sample_clang sample_units m sample_end u \<and> all_stopped u \<and> 20 + m \<le> 20"
proof -
  let ?fresh = "Some \<lparr>ep_completed = 0, ep_total = 0\<rparr>"
  have "unstarted_all [?fresh, ?fresh, ?fresh, ?fresh]" "length sample_units = 2" by code_simp+
  then have "\<exists>m u. runs sample_clang sample_units m sample_end u \<and> all_stopped u \<and>
      20 + m \<le> 8 * length sample_units + 2 * min 8 (length sample_units)"
    by (intro every_extraction_ends [OF sample_run [unfolded sample_begin_def Let_def]]) simp_all
  then show ?thesis using \<open>length sample_units = 2\<close> by simp
qed

text \<open>
  What a worker that notices a cancellation can end up with: what it had, with the unit it has claimed
  visited to the end, and if it is past its look at the flag, perhaps with one more unit.
\<close>

definition outcomes :: "'tu libclang \<Rightarrow> compilation_unit list \<Rightarrow> worker_phase \<times> unit_visits \<Rightarrow> unit_visits list" where
  "outcomes L units p =
     (let v = snd p in
      case fst p of
        AtClaim \<Rightarrow> v # map (\<lambda>u. visit_unit L u v) units
      | AtGroupA i \<Rightarrow> [visit_unit L (units ! i) v]
      | AtMarkTypes i \<Rightarrow> [visit_group_b L (units ! i) v]
      | AtMarkSources i \<Rightarrow> [visit_group_b L (units ! i) v]
      | AtGroupB i \<Rightarrow> [visit_group_b L (units ! i) v]
      | _ \<Rightarrow> [v])"

lemma cancelled_outcomes_step:
  assumes "is_cancelled s" and "running w s" and "k < length (xs_workers s)"
  shows "set (outcomes L units (xs_workers (advance L units w s) ! k)) \<subseteq> set (outcomes L units (xs_workers s ! k))"
proof (cases "k = w")
  case True
  then show ?thesis
    using assms
    by (cases "fst (xs_workers s ! w)") (auto simp: outcomes_def advance_def Let_def visit_unit_def)
next
  case False
  then have "xs_workers (advance L units w s) ! k = xs_workers s ! k"
    by (cases "fst (xs_workers s ! w)") (simp_all add: advance_def Let_def)
  then show ?thesis by simp
qed

lemma runs_cancelled_outcomes:
  assumes "runs L units n s t" and "is_cancelled s" and "k < length (xs_workers s)"
  shows "set (outcomes L units (xs_workers t ! k)) \<subseteq> set (outcomes L units (xs_workers s ! k))"
  using assms
proof (induction rule: runs.induct)
  case (worker n s t w)
  then have "set (outcomes L units (xs_workers (advance L units w t) ! k)) \<subseteq> set (outcomes L units (xs_workers t ! k))"
    using cancelled_outcomes_step [of t w k L units] runs_cancelled(1) [OF worker.hyps(1)]
      runs_workers [OF worker.hyps(1)] by simp
  with worker show ?case by blast
qed simp_all

lemma cancelled_stops:
  assumes "is_cancelled s"
  shows "\<exists>m u. runs L units m s u \<and> all_stopped u"
  using assms
proof (induction "workers_total steps_after_cancel s" arbitrary: s rule: less_induct)
  case less
  show ?case
  proof (cases "\<exists>w. running w s")
    case True
    then obtain w where w: "running w s" ..
    have step: "runs L units 1 s (advance L units w s)" using runs.worker [OF runs.start w] by simp
    have "is_cancelled (advance L units w s)" using runs_cancelled(1) [OF step less.prems] .
    then obtain m u where "runs L units m (advance L units w s) u" "all_stopped u"
      using less.hyps [OF cancelled_step [OF less.prems w]] by blast
    then show ?thesis using runs_trans [OF _ step] by blast
  next
    case False
    then show ?thesis using runs.start [of L units s] stopped_all [of s] by (auto simp: all_stopped_def)
  qed
qed

text \<open>
  C21. A cancellation is noticed soon: after it the workers together take at most eight more steps each,
  claim no unit except those of workers that had already looked at the flag, and can always go on until
  all have stopped; whatever they found in the meantime, the extraction ends with the cancellation as its
  error and nothing else. No worker drops what it has claimed: when all have stopped, each has visited
  the unit it was at to the end, and no further one unless it was past its look at the flag.
\<close>

theorem cancellation_is_prompt:
  assumes "is_cancelled s" and "runs L units n s t"
  shows "n \<le> 8 * length (xs_workers s) \<and>
    unat (xs_next_index t) \<le> unat (xs_next_index s) + about_to_claim s \<and>
    finish_extraction U t = Some (Inl Cancelled) \<and>
    (\<exists>m u. runs L units m t u \<and> all_stopped u) \<and>
    (all_stopped t \<longrightarrow> list_all2 (\<lambda>p q. snd q \<in> set (outcomes L units p)) (xs_workers s) (xs_workers t))"
proof -
  have flag: "is_cancelled t" by (rule runs_cancelled(1) [OF assms(2,1)])
  have "n \<le> workers_total steps_after_cancel s" using runs_cancelled(2) [OF assms(2,1)] by simp
  also have "\<dots> \<le> 8 * length (xs_workers s)" by (rule workers_total_le) (rule steps_after_cancel_le)
  finally have steps: "n \<le> 8 * length (xs_workers s)" .
  have "snd (xs_workers t ! k) \<in> set (outcomes L units (xs_workers s ! k))"
    if "all_stopped t" and k: "k < length (xs_workers s)" for k
  proof -
    have "fst (xs_workers t ! k) = Stopped"
      using that runs_workers [OF assms(2)] by (simp add: all_stopped_def list_all_length)
    then have "snd (xs_workers t ! k) \<in> set (outcomes L units (xs_workers t ! k))" by (simp add: outcomes_def)
    then show ?thesis using runs_cancelled_outcomes [OF assms(2,1) k] by blast
  qed
  then show ?thesis
    using steps flag runs_cancelled_claims [OF assms(2,1)] cancelled_stops [OF flag] runs_workers [OF assms(2)]
    by (simp add: finish_extraction_def list_all2_conv_all_nth)
qed

definition sample_cancelled :: extraction_state where
  "sample_cancelled = cancel (advance sample_clang sample_units 1 (advance sample_clang sample_units 0
     (sample_begin (Some False))))"

theorem cancellation_is_prompt_witness:
  "is_cancelled sample_cancelled \<and>
   (\<exists>t. runs sample_clang sample_units 16 sample_cancelled t \<and> all_stopped t \<and> xs_next_index t = 2 \<and>
     unat (xs_next_index t) \<le> unat (xs_next_index sample_cancelled) + about_to_claim sample_cancelled \<and>
     finish_extraction ascii_tables t = Some (Inl Cancelled) \<and>
     list_all2 (\<lambda>p q. snd q \<in> set (outcomes sample_clang sample_units p)) (xs_workers sample_cancelled) (xs_workers t))"
proof
  show flag: "is_cancelled sample_cancelled" by code_simp
  let ?last = "follow sample_clang sample_units (replicate 8 1 @ replicate 8 0) sample_cancelled"
  have "map_option (\<lambda>t. (all_stopped t, xs_next_index t)) ?last = Some (True, 2)" by code_simp
  then obtain t where t: "?last = Some t" "all_stopped t" "xs_next_index t = 2" by auto
  have "runs sample_clang sample_units 16 sample_cancelled t" using follow_runs [OF t(1)] by simp
  with cancellation_is_prompt [OF flag this, of ascii_tables] t(2,3)
  show "\<exists>t. runs sample_clang sample_units 16 sample_cancelled t \<and> all_stopped t \<and> xs_next_index t = 2 \<and>
     unat (xs_next_index t) \<le> unat (xs_next_index sample_cancelled) + about_to_claim sample_cancelled \<and>
     finish_extraction ascii_tables t = Some (Inl Cancelled) \<and>
     list_all2 (\<lambda>p q. snd q \<in> set (outcomes sample_clang sample_units p)) (xs_workers sample_cancelled) (xs_workers t)"
    by blast
qed

end
