(* ===== verification/Jobs.thy ===== *)
theory Jobs
  imports Project_Extraction
begin

text \<open>
  Background jobs: \<^verbatim>\<open>crates/server/src/jobs.rs\<close> (phases, jobs, the two registries and their one
  counter of ids), the error types a job can end with (\<^verbatim>\<open>ingest.rs\<close>, \<^verbatim>\<open>persistence/mod.rs\<close>,
  \<^verbatim>\<open>project_service.rs\<close>), and the handlers of \<^verbatim>\<open>server.rs\<close> that start, poll and cancel them. A server is
  its two registries and the counter; requests and the background threads of the jobs interleave in any
  order. The lemmas show that ids are never given twice, that no job is lost, that an answer once final
  stays, and that the phase a poller sees never goes back.
\<close>

section \<open>Phases\<close>

datatype job_phase =
  Ingesting | CatalogingTypes | DiscoveringSourceFiles | CatalogingFunctions | CatalogingPointers | Persisting

definition derive_phase :: "nat \<Rightarrow> nat \<Rightarrow> nat \<Rightarrow> nat \<Rightarrow> nat \<Rightarrow> nat \<Rightarrow> nat \<Rightarrow> nat \<Rightarrow> job_phase" where
  "derive_phase type_completed type_total source_completed source_total function_completed function_total
     pointer_completed pointer_total =
     (if type_total = 0 then Ingesting
      else if type_completed < type_total then CatalogingTypes
      else if source_total = 0 \<or> source_completed < source_total then DiscoveringSourceFiles
      else if function_total = 0 \<or> function_completed < function_total then CatalogingFunctions
      else if pointer_total = 0 \<or> pointer_completed < pointer_total then CatalogingPointers
      else Persisting)"

primrec phase_str :: "job_phase \<Rightarrow> string" where
  "phase_str Ingesting = ''ingesting''"
| "phase_str CatalogingTypes = ''cataloging_types''"
| "phase_str DiscoveringSourceFiles = ''discovering_source_files''"
| "phase_str CatalogingFunctions = ''cataloging_functions''"
| "phase_str CatalogingPointers = ''cataloging_pointers''"
| "phase_str Persisting = ''persisting''"

section \<open>How a job can end\<close>

text \<open>The text of an error of the operating system, of SQLite or of the JSON reader is its own.\<close>

datatype ingest_error =
  InvalidProjectName string | UnsupportedArchive string | UnsafeArchiveEntry string
| MissingCMakeProject string | MissingCompileCommands string | EmptyCompileCommands string
| IngestIo string | ToolFailed string "32 word option" string | IngestJson string

definition ingest_is_client_error :: "ingest_error \<Rightarrow> bool" where
  "ingest_is_client_error e =
     (case e of InvalidProjectName _ \<Rightarrow> True | UnsupportedArchive _ \<Rightarrow> True | UnsafeArchiveEntry _ \<Rightarrow> True
      | MissingCMakeProject _ \<Rightarrow> True | MissingCompileCommands _ \<Rightarrow> True | EmptyCompileCommands _ \<Rightarrow> True
      | _ \<Rightarrow> False)"

definition show_i32 :: "32 word \<Rightarrow> string" where
  "show_i32 n = (if sint n < 0 then ''-'' @ show_nat (nat (- sint n)) else show_nat (nat (sint n)))"

primrec show_ingest_error :: "ingest_error \<Rightarrow> string" where
  "show_ingest_error (InvalidProjectName name) = ''invalid project name: '' @ name"
| "show_ingest_error (UnsupportedArchive path) = ''unsupported archive format: '' @ path"
| "show_ingest_error (UnsafeArchiveEntry entry) = ''archive contains an unsafe entry: '' @ entry"
| "show_ingest_error (MissingCMakeProject path) = ''no CMakeLists.txt found under '' @ path"
| "show_ingest_error (MissingCompileCommands path) = ''compile_commands.json was not created at '' @ path"
| "show_ingest_error (EmptyCompileCommands path) = ''compile_commands.json has no entries: '' @ path"
| "show_ingest_error (IngestIo error) = error"
| "show_ingest_error (ToolFailed tool status stderr) =
     tool @ '' failed with status '' @
       (case status of None \<Rightarrow> ''None'' | Some code \<Rightarrow> ''Some('' @ show_i32 code @ '')'') @ '': '' @ str_trim stderr"
| "show_ingest_error (IngestJson error) = error"

primrec show_extraction_error :: "extraction_error \<Rightarrow> string" where
  "show_extraction_error (LibclangUnavailable message) = ''libclang is unavailable: '' @ message"
| "show_extraction_error Cancelled = ''project extraction was cancelled''"

datatype persistence_error = PersistenceIo string | Sqlite string | PersistenceJson string

primrec show_persistence_error :: "persistence_error \<Rightarrow> string" where
  "show_persistence_error (PersistenceIo error) = error"
| "show_persistence_error (Sqlite error) = error"
| "show_persistence_error (PersistenceJson error) = error"

datatype project_creation_error =
  CreationIngest ingest_error | CreationPersistence persistence_error | CreationExtraction extraction_error

primrec creation_is_client_error :: "project_creation_error \<Rightarrow> bool" where
  "creation_is_client_error (CreationIngest e) = ingest_is_client_error e"
| "creation_is_client_error (CreationPersistence e) = False"
| "creation_is_client_error (CreationExtraction e) = False"

definition creation_is_cancelled :: "project_creation_error \<Rightarrow> bool" where
  "creation_is_cancelled e \<longleftrightarrow> e = CreationExtraction Cancelled"

primrec show_creation_error :: "project_creation_error \<Rightarrow> string" where
  "show_creation_error (CreationIngest e) = show_ingest_error e"
| "show_creation_error (CreationPersistence e) = show_persistence_error e"
| "show_creation_error (CreationExtraction e) = show_extraction_error e"

datatype analyse_project_error =
  AnalysisNotFound string | AnalysisPersistence persistence_error | AnalysisExtraction extraction_error

definition analysis_is_client_error :: "analyse_project_error \<Rightarrow> bool" where
  "analysis_is_client_error e = (case e of AnalysisNotFound _ \<Rightarrow> True | _ \<Rightarrow> False)"

definition analysis_is_cancelled :: "analyse_project_error \<Rightarrow> bool" where
  "analysis_is_cancelled e \<longleftrightarrow> e = AnalysisExtraction Cancelled"

primrec show_analysis_error :: "analyse_project_error \<Rightarrow> string" where
  "show_analysis_error (AnalysisNotFound path) = ''no syntax-bridge project found at '' @ path"
| "show_analysis_error (AnalysisPersistence e) = show_persistence_error e"
| "show_analysis_error (AnalysisExtraction e) = show_extraction_error e"

section \<open>Jobs and their registries\<close>

record ('t, 'e) job =
  jb_type_catalog :: extraction_progress
  jb_source_catalog :: extraction_progress
  jb_function_catalog :: extraction_progress
  jb_pointer_catalog :: extraction_progress
  jb_cancellation :: bool
  jb_outcome :: "('e + 't) option"

definition new_job :: "('t, 'e) job" where
  "new_job =
     \<lparr>jb_type_catalog = new_progress, jb_source_catalog = new_progress, jb_function_catalog = new_progress,
      jb_pointer_catalog = new_progress, jb_cancellation = False, jb_outcome = None\<rparr>"

definition finish :: "'e + 't \<Rightarrow> ('t, 'e) job \<Rightarrow> ('t, 'e) job" where
  "finish outcome j = j\<lparr>jb_outcome := Some outcome\<rparr>"

definition cancel_job :: "('t, 'e) job \<Rightarrow> ('t, 'e) job" where
  "cancel_job j = j\<lparr>jb_cancellation := True\<rparr>"

definition cancel_requested :: "('t, 'e) job \<Rightarrow> bool" where
  "cancel_requested j = jb_cancellation j"

definition with_outcome :: "('t, 'e) job \<Rightarrow> (('e + 't) option \<Rightarrow> 'r) \<Rightarrow> 'r" where
  "with_outcome j f = f (jb_outcome j)"

definition generate_job_id :: "64 word \<Rightarrow> string \<times> 64 word" where
  "generate_job_id sequence = (''job-'' @ show_nat (unat sequence), sequence + 1)"

type_synonym ('t, 'e) job_registry = "string \<rightharpoonup> ('t, 'e) job"

definition registry_start ::
  "('t, 'e) job_registry \<Rightarrow> 64 word \<Rightarrow> string \<times> ('t, 'e) job_registry \<times> 64 word" where
  "registry_start jobs sequence =
     (let (job_id, sequence) = generate_job_id sequence in (job_id, jobs(job_id \<mapsto> new_job), sequence))"

text \<open>What a handle to a job does shows in the registry it was taken from.\<close>

definition update_job ::
  "string \<Rightarrow> (('t, 'e) job \<Rightarrow> ('t, 'e) job) \<Rightarrow> ('t, 'e) job_registry \<Rightarrow> ('t, 'e) job_registry" where
  "update_job job_id f jobs = (case jobs job_id of None \<Rightarrow> jobs | Some j \<Rightarrow> jobs(job_id \<mapsto> f j))"

section \<open>The handlers\<close>

datatype json = JBool bool | JNumber nat | JString string | JObject "(string \<times> json) list"

type_synonym response = "nat \<times> json"

record create_project_request =
  cr_name :: string
  cr_workspace_dir :: string
  cr_archive_path :: string

text \<open>An analysis request is the project's directory.\<close>

type_synonym analyse_project_request = string

record 'p server =
  sv_next_sequence :: "64 word"
  sv_job_registry :: "('p, project_creation_error) job_registry"
  sv_analysis_job_registry :: "(unit, analyse_project_error) job_registry"

definition initial_server :: "'p server" where
  "initial_server = \<lparr>sv_next_sequence = 1, sv_job_registry = Map.empty, sv_analysis_job_registry = Map.empty\<rparr>"

definition json_error :: "nat \<Rightarrow> string \<Rightarrow> string \<Rightarrow> response" where
  "json_error status error message =
     (status, JObject [(''error'', JString error), (''message'', JString message)])"

definition job_accepted :: "string \<Rightarrow> response" where
  "job_accepted job_id = (202, JObject [(''job_id'', JString job_id)])"

text \<open>A request whose body does not decode carries the decoder's message.\<close>

definition create_project_from_http ::
  "string + create_project_request \<Rightarrow> 'p server \<Rightarrow> response \<times> 'p server" where
  "create_project_from_http payload s =
     (case payload of
        Inl body_text \<Rightarrow> (json_error 400 ''invalid_json'' body_text, s)
      | Inr request \<Rightarrow>
          (let (job_id, jobs, sequence) = registry_start (sv_job_registry s) (sv_next_sequence s)
           in (job_accepted job_id, s\<lparr>sv_job_registry := jobs, sv_next_sequence := sequence\<rparr>)))"

definition analyse_project_from_http ::
  "string + analyse_project_request \<Rightarrow> 'p server \<Rightarrow> response \<times> 'p server" where
  "analyse_project_from_http payload s =
     (case payload of
        Inl body_text \<Rightarrow> (json_error 400 ''invalid_json'' body_text, s)
      | Inr request \<Rightarrow>
          (let (job_id, jobs, sequence) = registry_start (sv_analysis_job_registry s) (sv_next_sequence s)
           in (job_accepted job_id, s\<lparr>sv_analysis_job_registry := jobs, sv_next_sequence := sequence\<rparr>)))"

definition progress_json :: "extraction_progress \<Rightarrow> json" where
  "progress_json p =
     JObject [(''completed'', JNumber (ep_completed p)), (''total'', JNumber (ep_total p))]"

definition job_phase_of :: "('t, 'e) job \<Rightarrow> job_phase" where
  "job_phase_of j =
     derive_phase (ep_completed (jb_type_catalog j)) (ep_total (jb_type_catalog j))
       (ep_completed (jb_source_catalog j)) (ep_total (jb_source_catalog j))
       (ep_completed (jb_function_catalog j)) (ep_total (jb_function_catalog j))
       (ep_completed (jb_pointer_catalog j)) (ep_total (jb_pointer_catalog j))"

definition live_body :: "('t, 'e) job \<Rightarrow> json" where
  "live_body j =
     JObject [(''status'', JString (if cancel_requested j then ''cancelling'' else ''running'')),
       (''phase'', JString (phase_str (job_phase_of j))),
       (''type_catalog'', progress_json (jb_type_catalog j)),
       (''source_catalog'', progress_json (jb_source_catalog j)),
       (''function_catalog'', progress_json (jb_function_catalog j)),
       (''pointer_catalog'', progress_json (jb_pointer_catalog j))]"

definition failed_body :: "string \<Rightarrow> bool \<Rightarrow> json" where
  "failed_body message is_client_error =
     JObject [(''status'', JString ''failed''), (''message'', JString message),
       (''is_client_error'', JBool is_client_error)]"

definition poll_project_creation_job_from_http :: "('p \<Rightarrow> json) \<Rightarrow> string \<Rightarrow> 'p server \<Rightarrow> response" where
  "poll_project_creation_job_from_http project_json job_id s =
     (case sv_job_registry s job_id of
        None \<Rightarrow> json_error 404 ''job_not_found'' (''no project creation job with id '' @ job_id)
      | Some j \<Rightarrow> with_outcome j (\<lambda>outcome. case outcome of
            Some (Inr project) \<Rightarrow>
              (200, JObject [(''status'', JString ''succeeded''), (''project'', project_json project)])
          | Some (Inl error) \<Rightarrow>
              if creation_is_cancelled error then (200, JObject [(''status'', JString ''cancelled'')])
              else (200, failed_body (show_creation_error error) (creation_is_client_error error))
          | None \<Rightarrow> (200, live_body j)))"

definition poll_analysis_job_from_http :: "string \<Rightarrow> 'p server \<Rightarrow> response" where
  "poll_analysis_job_from_http job_id s =
     (case sv_analysis_job_registry s job_id of
        None \<Rightarrow> json_error 404 ''job_not_found'' (''no analysis job with id '' @ job_id)
      | Some j \<Rightarrow> with_outcome j (\<lambda>outcome. case outcome of
            Some (Inr _) \<Rightarrow> (200, JObject [(''status'', JString ''succeeded'')])
          | Some (Inl error) \<Rightarrow>
              if analysis_is_cancelled error then (200, JObject [(''status'', JString ''cancelled'')])
              else (200, failed_body (show_analysis_error error) (analysis_is_client_error error))
          | None \<Rightarrow> (200, live_body j)))"

definition cancel_accepted :: response where
  "cancel_accepted = (202, JObject [(''status'', JString ''cancel_requested'')])"

definition cancel_project_creation_job_from_http :: "string \<Rightarrow> 'p server \<Rightarrow> response \<times> 'p server" where
  "cancel_project_creation_job_from_http job_id s =
     (case sv_job_registry s job_id of
        None \<Rightarrow> (json_error 404 ''job_not_found'' (''no project creation job with id '' @ job_id), s)
      | Some j \<Rightarrow> (cancel_accepted, s\<lparr>sv_job_registry := update_job job_id cancel_job (sv_job_registry s)\<rparr>))"

definition cancel_analysis_job_from_http :: "string \<Rightarrow> 'p server \<Rightarrow> response \<times> 'p server" where
  "cancel_analysis_job_from_http job_id s =
     (case sv_analysis_job_registry s job_id of
        None \<Rightarrow> (json_error 404 ''job_not_found'' (''no analysis job with id '' @ job_id), s)
      | Some j \<Rightarrow> (cancel_accepted,
          s\<lparr>sv_analysis_job_registry := update_job job_id cancel_job (sv_analysis_job_registry s)\<rparr>))"

section \<open>Phases in order\<close>

primrec phase_rank :: "job_phase \<Rightarrow> nat" where
  "phase_rank Ingesting = 0" | "phase_rank CatalogingTypes = 1" | "phase_rank DiscoveringSourceFiles = 2"
| "phase_rank CatalogingFunctions = 3" | "phase_rank CatalogingPointers = 4" | "phase_rank Persisting = 5"

lemma phase_rank_inj: "phase_rank p = phase_rank q \<Longrightarrow> p = q"
  by (cases p; cases q) simp_all

instantiation job_phase :: linorder
begin

definition less_eq_job_phase :: "job_phase \<Rightarrow> job_phase \<Rightarrow> bool" where
  "less_eq_job_phase p q \<longleftrightarrow> phase_rank p \<le> phase_rank q"

definition less_job_phase :: "job_phase \<Rightarrow> job_phase \<Rightarrow> bool" where
  "less_job_phase p q \<longleftrightarrow> phase_rank p < phase_rank q"

instance
  by standard (auto simp: less_eq_job_phase_def less_job_phase_def intro: phase_rank_inj)

end

text \<open>Each counter may be read at its own moment: that no counter goes back is all the phase needs.\<close>

lemma derive_phase_mono:
  assumes "a \<le> a'" and "b \<le> b'" and "c \<le> c'" and "d \<le> d'"
  shows "derive_phase a n b n c n d n \<le> derive_phase a' n b' n c' n d' n"
  using assms by (auto simp: derive_phase_def less_eq_job_phase_def)

definition grows :: "extraction_progress option \<Rightarrow> extraction_progress option \<Rightarrow> bool" where
  "grows p q \<longleftrightarrow> rel_option (\<lambda>p q. ep_total q = ep_total p \<and> ep_completed p \<le> ep_completed q) p q"

lemma grows_simps [simp]:
  "grows p p" "grows p q \<Longrightarrow> grows p (map_option mark_one_done q)"
  "grows (Some a) q \<Longrightarrow> \<exists>b. q = Some b \<and> ep_total b = ep_total a \<and> ep_completed a \<le> ep_completed b"
  by (cases p; auto simp: grows_def mark_one_done_def option_rel_Some1 rel_option_iff split: option.splits)+

definition counters :: "extraction_state \<Rightarrow> extraction_progress option list" where
  "counters s = [xs_type_progress s, xs_source_progress s, xs_function_progress s, xs_pointer_progress s]"

lemma advance_grows: "list_all2 grows ps (counters s) \<Longrightarrow> list_all2 grows ps (counters (advance L units w s))"
  by (cases "fst (xs_workers s ! w)") (auto simp: counters_def advance_def Let_def list_all2_Cons2)

lemma runs_grows: "runs L units n s t \<Longrightarrow> list_all2 grows (counters s) (counters t)"
proof (induction rule: runs.induct)
  case (cancellation n s t)
  then show ?case by (simp add: counters_def cancel_def)
qed (simp_all add: advance_grows list_all2_refl)

text \<open>The job of an extraction: the counters and the flag are the same atomics.\<close>

definition job_during :: "extraction_state \<Rightarrow> ('t, 'e) job \<Rightarrow> ('t, 'e) job" where
  "job_during s j =
     j\<lparr>jb_type_catalog := the (xs_type_progress s), jb_source_catalog := the (xs_source_progress s),
       jb_function_catalog := the (xs_function_progress s), jb_pointer_catalog := the (xs_pointer_progress s),
       jb_cancellation := is_cancelled s\<rparr>"

definition begin_job :: "compilation_unit list \<Rightarrow> nat \<Rightarrow> bool \<Rightarrow> extraction_state" where
  "begin_job units k cancelled =
     (let p = Some new_progress in begin_extraction units k (Some cancelled) p p p p)"

lemma unstarted_new [simp]: "unstarted_all [Some new_progress, Some new_progress, Some new_progress, Some new_progress]"
  by (simp add: unstarted_all_def unstarted_def new_progress_def)

lemma job_counters:
  assumes "runs L units n (begin_job units k cancelled) s"
  obtains a b c d where "counters s = [Some a, Some b, Some c, Some d]"
    and "list_all (\<lambda>p. ep_total p = length units) [a, b, c, d]"
proof -
  have "counters (begin_job units k cancelled) = replicate 4 (Some \<lparr>ep_completed = 0, ep_total = length units\<rparr>)"
    by (simp add: begin_job_def begin_extraction_def counters_def new_progress_def set_total_def numeral_eq_Suc Let_def)
  then have "list_all2 grows (replicate 4 (Some \<lparr>ep_completed = 0, ep_total = length units\<rparr>)) (counters s)"
    using runs_grows [OF assms] by simp
  then show thesis by (auto simp: numeral_eq_Suc list_all2_Cons1 dest!: grows_simps(3) intro: that)
qed

lemma phases_advance:
  assumes "runs L units n (begin_job units k cancelled) s" and "runs L units m s t"
  shows "job_phase_of (job_during s j) \<le> job_phase_of (job_during t j)"
proof -
  obtain a b c d where s: "counters s = [Some a, Some b, Some c, Some d]"
    and totals: "list_all (\<lambda>p. ep_total p = length units) [a, b, c, d]" using job_counters [OF assms(1)] .
  have "list_all2 grows [Some a, Some b, Some c, Some d] (counters t)" using runs_grows [OF assms(2)] s by simp
  with s totals show ?thesis
    by (auto simp: counters_def job_phase_of_def job_during_def dest!: grows_simps(3) intro: derive_phase_mono)
qed

lemma persisting_at_the_end:
  assumes run: "runs L units n (begin_job units k cancelled) t" and fits: "2 * length units < 2 ^ 64" and "0 < k"
    and stop: "all_stopped t" "\<not> is_cancelled t" and some: "units \<noteq> []"
  shows "job_phase_of (job_during t j) = Persisting"
proof -
  obtain claims where c: "claimed L units claims t"
    using extraction_claimed [OF run [unfolded begin_job_def Let_def] unstarted_new fits] by blast
  have "length (xs_workers t) = min k (length units)"
    using runs_workers [OF run [unfolded begin_job_def Let_def]] begin_workers by simp
  then have "xs_workers t \<noteq> []" using assms(3) some by (cases units; cases k) auto
  then have "done_everywhere (length units) t" using claimed_ended(2) [OF c stop] by blast
  moreover obtain a b c d where "counters t = [Some a, Some b, Some c, Some d]" using job_counters [OF run] .
  ultimately show ?thesis
    using some by (simp add: done_everywhere_def counts_def counters_def job_phase_of_def job_during_def derive_phase_def)
qed

section \<open>The server over time\<close>

text \<open>The thread of a job counts while it works, and finishes the job once.\<close>

inductive thread_step :: "('t, 'e) job \<Rightarrow> ('t, 'e) job \<Rightarrow> bool" where
  counted: "jb_outcome j = None \<Longrightarrow>
    thread_step j (j\<lparr>jb_type_catalog := a, jb_source_catalog := b, jb_function_catalog := c, jb_pointer_catalog := d\<rparr>)"
| finished: "jb_outcome j = None \<Longrightarrow> thread_step j (finish outcome j)"

text \<open>\<open>server_step k s t\<close>: one request or one step of a thread; \<open>k\<close> counts the jobs it starts.\<close>

inductive server_step :: "nat \<Rightarrow> 'p server \<Rightarrow> 'p server \<Rightarrow> bool" where
  create_request: "server_step 1 s (snd (create_project_from_http (Inr request) s))"
| analyse_request: "server_step 1 s (snd (analyse_project_from_http (Inr request) s))"
| bad_create_request: "server_step 0 s (snd (create_project_from_http (Inl message) s))"
| bad_analyse_request: "server_step 0 s (snd (analyse_project_from_http (Inl message) s))"
| cancel_creation: "server_step 0 s (snd (cancel_project_creation_job_from_http job_id s))"
| cancel_analysis: "server_step 0 s (snd (cancel_analysis_job_from_http job_id s))"
| creation_thread: "sv_job_registry s job_id = Some j \<Longrightarrow> thread_step j j' \<Longrightarrow>
    server_step 0 s (s\<lparr>sv_job_registry := update_job job_id (\<lambda>_. j') (sv_job_registry s)\<rparr>)"
| analysis_thread: "sv_analysis_job_registry s job_id = Some j \<Longrightarrow> thread_step j j' \<Longrightarrow>
    server_step 0 s (s\<lparr>sv_analysis_job_registry := update_job job_id (\<lambda>_. j') (sv_analysis_job_registry s)\<rparr>)"

inductive serves :: "nat \<Rightarrow> 'p server \<Rightarrow> 'p server \<Rightarrow> bool" where
  idle: "serves 0 s s"
| step: "serves n s t \<Longrightarrow> server_step k t u \<Longrightarrow> serves (n + k) s u"

inductive_cases thread_step_cases: "thread_step j j'"

subsection \<open>Ids\<close>

definition job_id_of :: "nat \<Rightarrow> string" where
  "job_id_of i = ''job-'' @ show_nat i"

lemma job_id_of_inj: "job_id_of i = job_id_of j \<longleftrightarrow> i = j"
  using show_nat_inj by (auto simp: job_id_of_def)

definition started :: "'p server \<Rightarrow> string set" where
  "started s = dom (sv_job_registry s) \<union> dom (sv_analysis_job_registry s)"

text \<open>The ids given so far are those below the counter, each to one registry.\<close>

definition ids_ok :: "nat \<Rightarrow> 'p server \<Rightarrow> bool" where
  "ids_ok n s \<longleftrightarrow> unat (sv_next_sequence s) = n \<and> started s = job_id_of ` {1..<n} \<and>
     dom (sv_job_registry s) \<inter> dom (sv_analysis_job_registry s) = {}"

lemma dom_update_job [simp]: "dom (update_job job_id f jobs) = dom jobs"
  by (auto simp: update_job_def split: option.splits)

lemma next_id:
  assumes "ids_ok n s" and "1 \<le> n" and "Suc n < 2 ^ 64"
  shows "fst (generate_job_id (sv_next_sequence s)) = job_id_of n"
    and "unat (snd (generate_job_id (sv_next_sequence s))) = Suc n"
    and "job_id_of n \<notin> started s"
    and "insert (job_id_of n) (started s) = job_id_of ` {1..<Suc n}"
proof -
  have "unat (sv_next_sequence s) = n" using assms by (simp add: ids_ok_def)
  then show "fst (generate_job_id (sv_next_sequence s)) = job_id_of n"
    and "unat (snd (generate_job_id (sv_next_sequence s))) = Suc n"
    using assms(3) by (simp_all add: generate_job_id_def job_id_of_def unat_word_ariths)
  show "job_id_of n \<notin> started s" using assms(1) by (auto simp: ids_ok_def job_id_of_inj)
  have "{1..<Suc n} = insert n {1..<n}" using assms(2) by auto
  then show "insert (job_id_of n) (started s) = job_id_of ` {1..<Suc n}" using assms(1) by (simp add: ids_ok_def)
qed

lemma server_step_ids:
  assumes "server_step k s t" and "ids_ok n s" and "1 \<le> n" and "n + k < 2 ^ 64"
  shows "ids_ok (n + k) t"
  using assms
proof (induction rule: server_step.induct)
  case (create_request s request)
  then show ?case
    using next_id [of n s]
    by (auto simp: ids_ok_def create_project_from_http_def registry_start_def started_def split_beta Let_def)
next
  case (analyse_request s request)
  then show ?case
    using next_id [of n s]
    by (auto simp: ids_ok_def analyse_project_from_http_def registry_start_def started_def split_beta Let_def)
qed (auto simp: ids_ok_def create_project_from_http_def analyse_project_from_http_def started_def
    cancel_project_creation_job_from_http_def cancel_analysis_job_from_http_def split: option.splits)

lemma serves_ids:
  assumes "serves m s t" and "ids_ok n s" and "1 \<le> n" and "n + m < 2 ^ 64"
  shows "ids_ok (n + m) t"
  using assms
proof (induction rule: serves.induct)
  case (step m s t k u)
  then show ?case using server_step_ids [OF step.hyps(2), of "n + m"] by (simp add: add.assoc)
qed simp

lemma initial_ids: "ids_ok 1 initial_server"
  by (simp add: ids_ok_def initial_server_def started_def)

subsection \<open>A job is kept, and so is its outcome\<close>

definition kept :: "('t, 'e) job \<Rightarrow> ('t, 'e) job \<Rightarrow> bool" where
  "kept j j' \<longleftrightarrow> (jb_outcome j \<noteq> None \<longrightarrow> jb_outcome j' = jb_outcome j) \<and> (jb_cancellation j \<longrightarrow> jb_cancellation j')"

lemma kept_refl [simp]: "kept j j" by (simp add: kept_def)
lemma kept_trans: "kept i j \<Longrightarrow> kept j k \<Longrightarrow> kept i k" by (auto simp: kept_def)
lemma kept_cancel [simp]: "kept j (cancel_job j)" by (simp add: kept_def cancel_job_def)
lemma kept_thread: "thread_step j j' \<Longrightarrow> kept j j'"
  by (auto simp: kept_def finish_def elim!: thread_step_cases)

definition kept_in :: "('t, 'e) job_registry \<Rightarrow> ('t, 'e) job_registry \<Rightarrow> bool" where
  "kept_in jobs jobs' \<longleftrightarrow> (\<forall>job_id j. jobs job_id = Some j \<longrightarrow> (\<exists>j'. jobs' job_id = Some j' \<and> kept j j'))"

lemma kept_in_simps [simp]:
  "kept_in jobs jobs"
  "(\<And>j. kept j (f j)) \<Longrightarrow> kept_in jobs (update_job job_id f jobs)"
  "job_id \<notin> dom jobs \<Longrightarrow> kept_in jobs (jobs(job_id \<mapsto> j))"
  by (auto simp: kept_in_def update_job_def split: option.splits)

lemma kept_in_thread:
  "jobs job_id = Some j \<Longrightarrow> thread_step j j' \<Longrightarrow> kept_in jobs (update_job job_id (\<lambda>_. j') jobs)"
  using kept_thread by (auto simp: kept_in_def update_job_def)

lemma kept_in_trans: "kept_in a b \<Longrightarrow> kept_in b c \<Longrightarrow> kept_in a c"
  unfolding kept_in_def using kept_trans by meson

lemma kept_in_start:
  assumes "ids_ok n s" and "1 \<le> n" and "Suc n < 2 ^ 64" and "dom jobs \<subseteq> started s"
  shows "kept_in jobs (fst (snd (registry_start jobs (sv_next_sequence s))))"
proof -
  have "job_id_of n \<notin> dom jobs" using next_id(3) [OF assms(1-3)] assms(4) by blast
  then show ?thesis using next_id(1) [OF assms(1-3)] by (simp add: registry_start_def split_beta del: domIff)
qed

text \<open>What the two registries have in common: a step of the server keeps what is in them.\<close>

locale job_kind =
  fixes jobs :: "'p server \<Rightarrow> ('t, 'e) job_registry"
  assumes step_keeps: "server_step k s t \<Longrightarrow> ids_ok n s \<Longrightarrow> 1 \<le> n \<Longrightarrow> n + k < 2 ^ 64 \<Longrightarrow>
    kept_in (jobs s) (jobs t)"
begin

lemma serves_keeps:
  assumes "serves m s t" and "ids_ok n s" and "1 \<le> n" and "n + m < 2 ^ 64"
  shows "kept_in (jobs s) (jobs t)"
  using assms
proof (induction rule: serves.induct)
  case (step m s t k u)
  have "ids_ok (n + m) t" using serves_ids [OF step.hyps(1)] step.prems by simp
  then have "kept_in (jobs t) (jobs u)"
    using step_keeps [OF step.hyps(2), of "n + m"] step.prems by (simp add: add.assoc)
  then show ?case using step kept_in_trans by auto
qed simp

text \<open>From the start of the server on, as long as the counter of ids has not wrapped.\<close>

lemma job_kept:
  assumes "serves n initial_server s" and "serves m s t" and "n + m < 2 ^ 64 - 1" and "jobs s job_id = Some j"
  obtains j' where "jobs t job_id = Some j'" and "kept j j'"
proof -
  have "ids_ok (1 + n) s" using serves_ids [OF assms(1) initial_ids] assms(3) by simp
  then have "kept_in (jobs s) (jobs t)" using serves_keeps [OF assms(2), of "1 + n"] assms(3) by simp
  then show thesis using assms(4) that by (auto simp: kept_in_def)
qed

end

lemma step_keeps_jobs:
  assumes "server_step k s t" and "ids_ok n s" and "1 \<le> n" and "n + k < 2 ^ 64"
  shows "kept_in (sv_job_registry s) (sv_job_registry t)"
    and "kept_in (sv_analysis_job_registry s) (sv_analysis_job_registry t)"
proof -
  have "kept_in (sv_job_registry s) (sv_job_registry t) \<and>
      kept_in (sv_analysis_job_registry s) (sv_analysis_job_registry t)"
    using assms
  proof (induction rule: server_step.induct)
    case (create_request s request)
    then show ?case
      using kept_in_start [of n s "sv_job_registry s"]
      by (simp add: create_project_from_http_def started_def split_beta)
  next
    case (analyse_request s request)
    then show ?case
      using kept_in_start [of n s "sv_analysis_job_registry s"]
      by (simp add: analyse_project_from_http_def started_def split_beta)
  qed (simp_all add: create_project_from_http_def analyse_project_from_http_def kept_in_thread
      cancel_project_creation_job_from_http_def cancel_analysis_job_from_http_def split: option.splits)
  then show "kept_in (sv_job_registry s) (sv_job_registry t)"
    and "kept_in (sv_analysis_job_registry s) (sv_analysis_job_registry t)" by simp_all
qed

interpretation creation_jobs: job_kind "sv_job_registry :: 'p server \<Rightarrow> ('p, project_creation_error) job_registry"
  by unfold_locales (rule step_keeps_jobs(1))

interpretation analysis_jobs: job_kind "sv_analysis_job_registry :: 'p server \<Rightarrow> (unit, analyse_project_error) job_registry"
  by unfold_locales (rule step_keeps_jobs(2))

section \<open>Properties\<close>

text \<open>What a poller reads off an answer.\<close>

definition answer_status :: "response \<Rightarrow> string option" where
  "answer_status r =
     (case snd r of
        JObject entries \<Rightarrow> (case map_of entries ''status'' of Some (JString status) \<Rightarrow> Some status | _ \<Rightarrow> None)
      | _ \<Rightarrow> None)"

definition final :: "response \<Rightarrow> bool" where
  "final r \<longleftrightarrow> answer_status r \<in> {Some ''succeeded'', Some ''cancelled'', Some ''failed''}"

definition cancelling :: "response \<Rightarrow> bool" where
  "cancelling r \<longleftrightarrow> answer_status r = Some ''cancelling''"

lemma live_not_final: "\<not> final (200, live_body j)"
  by (simp add: final_def answer_status_def live_body_def)

text \<open>How an answer may change while the server runs.\<close>

definition answer_kept :: "response \<Rightarrow> response \<Rightarrow> bool" where
  "answer_kept r r' \<longleftrightarrow> (fst r \<noteq> 404 \<longrightarrow> fst r' \<noteq> 404) \<and> (final r \<longrightarrow> r' = r) \<and>
     (cancelling r \<longrightarrow> final r' \<or> cancelling r')"

lemmas answer_simps = with_outcome_def kept_def final_def cancelling_def answer_status_def live_body_def
  failed_body_def cancel_requested_def json_error_def answer_kept_def

lemma poll_creation_kept:
  assumes "sv_job_registry s job_id = Some j" and "sv_job_registry t job_id = Some j'" and "kept j j'"
  shows "answer_kept (poll_project_creation_job_from_http f job_id s) (poll_project_creation_job_from_http f job_id t)"
  using assms
  by (auto simp: poll_project_creation_job_from_http_def answer_simps split: option.splits sum.splits if_splits)

lemma poll_analysis_kept:
  assumes "sv_analysis_job_registry s job_id = Some j" and "sv_analysis_job_registry t job_id = Some j'"
    and "kept j j'"
  shows "answer_kept (poll_analysis_job_from_http job_id s) (poll_analysis_job_from_http job_id t)"
  using assms
  by (auto simp: poll_analysis_job_from_http_def answer_simps split: option.splits sum.splits if_splits)

text \<open>The answer for an id nobody was given.\<close>

lemma poll_unknown:
  "fst (poll_project_creation_job_from_http f job_id s) = 404 \<longleftrightarrow> sv_job_registry s job_id = None"
  "fst (poll_analysis_job_from_http job_id s) = 404 \<longleftrightarrow> sv_analysis_job_registry s job_id = None"
  by (auto simp: poll_project_creation_job_from_http_def poll_analysis_job_from_http_def json_error_def
      with_outcome_def split: option.splits sum.splits)

lemma unknown_answer_kept:
  "sv_job_registry s job_id = None \<Longrightarrow> answer_kept (poll_project_creation_job_from_http f job_id s) r"
  "sv_analysis_job_registry s job_id = None \<Longrightarrow> answer_kept (poll_analysis_job_from_http job_id s) r"
  by (simp_all add: poll_project_creation_job_from_http_def poll_analysis_job_from_http_def answer_simps)

text \<open>
  C22. Whatever requests arrive and however the background threads interleave with them, until two to the
  64 jobs have been started: a job that a poll has found is found by every later poll, an answer that a
  job has succeeded, failed or been cancelled is the answer ever after, and a job that was being
  cancelled is still being cancelled or has ended. Both kinds of job share the counter of ids and
  neither registry loses or reuses one.
\<close>

theorem answers_settle:
  assumes "serves n initial_server s" and "serves m s t" and "n + m < 2 ^ 64 - 1"
  shows "answer_kept (poll_project_creation_job_from_http f job_id s)
      (poll_project_creation_job_from_http f job_id t) \<and>
    answer_kept (poll_analysis_job_from_http job_id s) (poll_analysis_job_from_http job_id t) \<and>
    404 \<in> {fst (poll_project_creation_job_from_http f job_id t), fst (poll_analysis_job_from_http job_id t)}"
proof (intro conjI)
  show "answer_kept (poll_project_creation_job_from_http f job_id s) (poll_project_creation_job_from_http f job_id t)"
  proof (cases "sv_job_registry s job_id")
    case (Some j)
    then obtain j' where "sv_job_registry t job_id = Some j'" "kept j j'" by (rule creation_jobs.job_kept [OF assms])
    with Some show ?thesis by (rule poll_creation_kept)
  qed (rule unknown_answer_kept)
  show "answer_kept (poll_analysis_job_from_http job_id s) (poll_analysis_job_from_http job_id t)"
  proof (cases "sv_analysis_job_registry s job_id")
    case (Some j)
    then obtain j' where "sv_analysis_job_registry t job_id = Some j'" "kept j j'"
      by (rule analysis_jobs.job_kept [OF assms])
    with Some show ?thesis by (rule poll_analysis_kept)
  qed (rule unknown_answer_kept)
  have "ids_ok (1 + n) s" using serves_ids [OF assms(1) initial_ids] assms(3) by simp
  then have "ids_ok (1 + n + m) t" using serves_ids [OF assms(2), of "1 + n"] assms(3) by simp
  then have "sv_job_registry t job_id = None \<or> sv_analysis_job_registry t job_id = None" by (auto simp: ids_ok_def)
  then show "404 \<in> {fst (poll_project_creation_job_from_http f job_id t), fst (poll_analysis_job_from_http job_id t)}"
    using poll_unknown by (metis insertCI)
qed

text \<open>One creation, cancelled while it runs; the thread ends with the cancellation.\<close>

definition sample_server :: "nat \<Rightarrow> unit server" where
  "sample_server n =
     (let s1 = snd (create_project_from_http
                (Inr \<lparr>cr_name = ''p'', cr_workspace_dir = ''/w'', cr_archive_path = ''/a.zip''\<rparr>) initial_server);
          s2 = snd (cancel_project_creation_job_from_http ''job-1'' s1);
          s3 = s2\<lparr>sv_job_registry := update_job ''job-1''
                (\<lambda>_. finish (Inl (CreationExtraction Cancelled)) (cancel_job new_job)) (sv_job_registry s2)\<rparr>
      in if n = 0 then s2 else s3)"

lemma sample_server_run:
  "serves 1 initial_server (sample_server 0)" "serves 0 (sample_server 0) (sample_server 1)"
proof -
  have "serves (0 + 1 + 0) initial_server (sample_server 0)"
    unfolding sample_server_def Let_def if_P [OF refl]
    by (rule serves.step [OF serves.step [OF serves.idle server_step.create_request] server_step.cancel_creation])
  then show "serves 1 initial_server (sample_server 0)" by simp
  have "serves (0 + 0) (sample_server 0) (sample_server 1)"
  proof (rule serves.step [OF serves.idle])
    have "sv_job_registry (sample_server 0) ''job-1'' = Some (cancel_job new_job)"
      by code_simp
    from server_step.creation_thread [OF this thread_step.finished]
    show "server_step 0 (sample_server 0) (sample_server 1)"
      by (simp add: sample_server_def Let_def cancel_job_def new_job_def)
  qed
  then show "serves 0 (sample_server 0) (sample_server 1)" by simp
qed

theorem answers_settle_witness:
  "answer_status (poll_project_creation_job_from_http (\<lambda>_. JNumber 0) ''job-1'' (sample_server 0)) =
     Some ''cancelling'' \<and>
   answer_kept (poll_project_creation_job_from_http (\<lambda>_. JNumber 0) ''job-1'' (sample_server 0))
     (poll_project_creation_job_from_http (\<lambda>_. JNumber 0) ''job-1'' (sample_server 1)) \<and>
   answer_status (poll_project_creation_job_from_http (\<lambda>_. JNumber 0) ''job-1'' (sample_server 1)) =
     Some ''cancelled''"
proof (intro conjI)
  show "answer_kept (poll_project_creation_job_from_http (\<lambda>_. JNumber 0) ''job-1'' (sample_server 0))
     (poll_project_creation_job_from_http (\<lambda>_. JNumber 0) ''job-1'' (sample_server 1))"
    using answers_settle [OF sample_server_run] by simp
qed code_simp+

text \<open>
  C23. While a job's units are extracted, the phase reported for it never goes back, whatever the
  interleaving and whether or not the job is cancelled; and when every worker has stopped without a
  cancellation, the job of a project with at least one unit is reported as persisting.
\<close>

theorem phases_never_go_back:
  assumes "runs L units n (begin_job units k cancelled) s" and "runs L units m s t"
    and "2 * length units < 2 ^ 64" and "0 < k" and "units \<noteq> []"
  shows "job_phase_of (job_during s j) \<le> job_phase_of (job_during t j) \<and>
    (all_stopped t \<and> \<not> is_cancelled t \<longrightarrow> job_phase_of (job_during t j) = Persisting)"
  using phases_advance [OF assms(1,2)] persisting_at_the_end [OF runs_trans [OF assms(2,1)] assms(3,4)] assms(5)
  by blast

theorem phases_never_go_back_witness:
  "\<exists>t. runs sample_clang sample_units 7 (begin_job sample_units 8 False) t \<and>
     runs sample_clang sample_units 13 t sample_end \<and>
     job_phase_of (job_during t (new_job :: (unit, unit) job)) = CatalogingTypes \<and>
     job_phase_of (job_during t (new_job :: (unit, unit) job)) \<le> job_phase_of (job_during sample_end (new_job :: (unit, unit) job)) \<and>
     job_phase_of (job_during sample_end (new_job :: (unit, unit) job)) = Persisting"
proof -
  let ?j = "new_job :: (unit, unit) job"
  let ?half = "follow sample_clang sample_units (take 7 sample_schedule) (begin_job sample_units 8 False)"
  have "map_option (\<lambda>t. (job_phase_of (job_during t ?j),
      follow sample_clang sample_units (drop 7 sample_schedule) t)) ?half = Some (CatalogingTypes, Some sample_end)"
    by code_simp
  then obtain t where t: "?half = Some t" "job_phase_of (job_during t ?j) = CatalogingTypes"
    "follow sample_clang sample_units (drop 7 sample_schedule) t = Some sample_end" by auto
  have runs: "runs sample_clang sample_units 7 (begin_job sample_units 8 False) t"
      "runs sample_clang sample_units 13 t sample_end"
    using follow_runs [OF t(1)] follow_runs [OF t(3)] by (simp_all add: sample_schedule_def eval_nat_numeral)
  have "all_stopped sample_end" "\<not> is_cancelled sample_end" "length sample_units = 2" by code_simp+
  then have "job_phase_of (job_during t ?j) \<le> job_phase_of (job_during sample_end ?j) \<and>
      job_phase_of (job_during sample_end ?j) = Persisting"
    using phases_never_go_back [OF runs, of ?j] by fastforce
  with runs t(2) show ?thesis by blast
qed

end
