(* ===== verification/Dart_Text.thy ===== *)
theory Dart_Text
  imports Record_Graph Lower_Names
begin

text \<open>
  The texts of Dart that \<^verbatim>\<open>crates/server/src/emit/dart.rs\<close> puts together without looking at
  expressions: file stems, literals, operators with their precedences, types, default values and the
  values a mocked callable returns. The lemmas show that a string literal reads back as the text it was
  made from, that a file stem is a Dart identifier that sanitizing leaves alone, and that the search for
  a mock value ends.
\<close>

section \<open>Constants\<close>

definition INDENT :: string where "INDENT = ''  ''"
definition UNSUPPORTED_HELPER_NAME :: string where "UNSUPPORTED_HELPER_NAME = ''_syntaxBridgeUnsupported''"
definition OPAQUE_TYPE_NAME :: string where "OPAQUE_TYPE_NAME = ''SyntaxBridgeOpaque''"
definition PAIR_TYPE_NAME :: string where "PAIR_TYPE_NAME = ''SyntaxBridgePair''"
definition NATIVE_HANDLE_TYPE_NAME :: string where "NATIVE_HANDLE_TYPE_NAME = ''SyntaxBridgeNativeHandle''"
definition MAP_ENTRY_MARKER :: string where "MAP_ENTRY_MARKER = ''MapEntry<''"
definition FIRST_WHERE_HELPER_NAME :: string where "FIRST_WHERE_HELPER_NAME = ''syntaxBridgeFirstWhere''"
definition INDEX_OF_BYTES_HELPER_NAME :: string where
  "INDEX_OF_BYTES_HELPER_NAME = ''syntaxBridgeIndexOfBytes''"
definition INDEX_OF_BYTE_HELPER_NAME :: string where "INDEX_OF_BYTE_HELPER_NAME = ''syntaxBridgeIndexOfByte''"
definition LIST_CURSOR_TYPE_NAME :: string where "LIST_CURSOR_TYPE_NAME = ''SyntaxBridgeListCursor''"
definition BYTE_CURSOR_TYPE_NAME :: string where "BYTE_CURSOR_TYPE_NAME = ''SyntaxBridgeByteCursor''"
definition OUTPUT_STREAM_TYPE_NAME :: string where "OUTPUT_STREAM_TYPE_NAME = ''SyntaxBridgeOutputStream''"
definition OUTPUT_STREAM_STRING_TYPE_NAME :: string where
  "OUTPUT_STREAM_STRING_TYPE_NAME = ''SyntaxBridgeStringOutputStream''"
definition OUTPUT_STREAM_STDOUT_TYPE_NAME :: string where
  "OUTPUT_STREAM_STDOUT_TYPE_NAME = ''SyntaxBridgeStdoutStream''"
definition OUTPUT_STREAM_STDERR_TYPE_NAME :: string where
  "OUTPUT_STREAM_STDERR_TYPE_NAME = ''SyntaxBridgeStderrStream''"
definition OUTPUT_STREAM_FILE_TYPE_NAME :: string where
  "OUTPUT_STREAM_FILE_TYPE_NAME = ''SyntaxBridgeFileOutputStream''"
definition INPUT_STREAM_TYPE_NAME :: string where "INPUT_STREAM_TYPE_NAME = ''SyntaxBridgeInputStream''"
definition INPUT_STREAM_STRING_TYPE_NAME :: string where
  "INPUT_STREAM_STRING_TYPE_NAME = ''SyntaxBridgeStringInputStream''"
definition INPUT_STREAM_FILE_TYPE_NAME :: string where
  "INPUT_STREAM_FILE_TYPE_NAME = ''SyntaxBridgeFileInputStream''"
definition SUPPORT_FILE_NAME :: string where "SUPPORT_FILE_NAME = ''syntax_bridge_support.dart''"

abbreviation newline :: string where "newline \<equiv> [CHR 0x0A]"
abbreviation quote :: char where "quote \<equiv> CHR 0x27"
abbreviation backslash :: char where "backslash \<equiv> CHR 0x5C"

definition pad :: "nat \<Rightarrow> string" where
  "pad depth = concat (replicate depth INDENT)"

definition parens :: "string \<Rightarrow> string" where
  "parens text = ''('' @ text @ '')''"

definition show_int :: "int \<Rightarrow> string" where
  "show_int n = (if n < 0 then ''-'' @ show_nat (nat (- n)) else show_nat (nat n))"

section \<open>Literals\<close>

text \<open>One \<^verbatim>\<open>replace\<close> of a character by a text; the code chains eight, the backslash first.\<close>

definition replace_char :: "char \<Rightarrow> string \<Rightarrow> string \<Rightarrow> string" where
  "replace_char c r s = concat (map (\<lambda>b. if b = c then r else [b]) s)"

definition dart_string_literal :: "string \<Rightarrow> string" where
  "dart_string_literal text =
     (let escaped =
        replace_char (CHR 0x0C) [backslash, CHR ''f'']
          (replace_char (CHR 0x08) [backslash, CHR ''b'']
            (replace_char (CHR 0x09) [backslash, CHR ''t'']
              (replace_char (CHR 0x0D) [backslash, CHR ''r'']
                (replace_char (CHR 0x0A) [backslash, CHR ''n'']
                  (replace_char (CHR ''$'') [backslash, CHR ''$'']
                    (replace_char quote [backslash, quote]
                      (replace_char backslash [backslash, backslash] text)))))))
      in [quote] @ escaped @ [quote])"

definition unsupported_message :: "string \<Rightarrow> origin \<Rightarrow> string" where
  "unsupported_message reason og = o_file og @ '':'' @ show_nat (unat (o_line og)) @ '': '' @ reason"

section \<open>Operators\<close>

definition emit_binary_op :: "binary_op \<Rightarrow> ty \<Rightarrow> string" where
  "emit_binary_op op t =
     (case op of
        OpAdd \<Rightarrow> ''+'' | OpSub \<Rightarrow> ''-'' | OpMul \<Rightarrow> ''*''
      | OpDiv \<Rightarrow> if t = TInt then ''~/'' else ''/''
      | OpMod \<Rightarrow> ''%'' | OpLt \<Rightarrow> ''<'' | OpLe \<Rightarrow> ''<='' | OpGt \<Rightarrow> ''>'' | OpGe \<Rightarrow> ''>=''
      | OpEq \<Rightarrow> ''=='' | OpNe \<Rightarrow> ''!='' | OpAnd \<Rightarrow> ''&&'' | OpOr \<Rightarrow> ''||''
      | OpShiftLeft \<Rightarrow> ''<<'' | OpShiftRight \<Rightarrow> ''>>''
      | OpBitAnd \<Rightarrow> ''&'' | OpBitXor \<Rightarrow> ''^'' | OpBitOr \<Rightarrow> ''|'')"

primrec binary_precedence :: "binary_op \<Rightarrow> nat" where
  "binary_precedence OpOr = 1" | "binary_precedence OpAnd = 2" | "binary_precedence OpBitOr = 3"
| "binary_precedence OpBitXor = 4" | "binary_precedence OpBitAnd = 5"
| "binary_precedence OpEq = 6" | "binary_precedence OpNe = 6"
| "binary_precedence OpLt = 7" | "binary_precedence OpLe = 7" | "binary_precedence OpGt = 7"
| "binary_precedence OpGe = 7" | "binary_precedence OpShiftLeft = 8" | "binary_precedence OpShiftRight = 8"
| "binary_precedence OpAdd = 9" | "binary_precedence OpSub = 9"
| "binary_precedence OpMul = 10" | "binary_precedence OpDiv = 10" | "binary_precedence OpMod = 10"

primrec emit_unary_op :: "unary_op \<Rightarrow> string" where
  "emit_unary_op OpNeg = ''-''" | "emit_unary_op OpNot = ''!''"
| "emit_unary_op OpPreIncrement = ''++''" | "emit_unary_op OpPostIncrement = ''++''"
| "emit_unary_op OpPreDecrement = ''--''" | "emit_unary_op OpPostDecrement = ''--''"

definition DIRECT_DART_OPERATOR_ARITIES :: "(string \<times> nat list) list" where
  "DIRECT_DART_OPERATOR_ARITIES =
     [(''+'', [1]), (''-'', [0, 1]), (''*'', [1]), (''/'', [1]), (''<'', [1]), (''<='', [1]), (''>'', [1]),
      (''>='', [1]), (''[]'', [1]), (''[]='', [2])]"

definition direct_dart_operator_symbol :: "string \<Rightarrow> nat \<Rightarrow> string option" where
  "direct_dart_operator_symbol method_name arity =
     (case strip_prefix method_name ''operator'' of
        None \<Rightarrow> None
      | Some symbol \<Rightarrow> map_option fst
          (List.find (\<lambda>(candidate, arities). candidate = symbol \<and> arity \<in> set arities)
             DIRECT_DART_OPERATOR_ARITIES))"

definition dart_constructor_name :: "string \<Rightarrow> nat \<Rightarrow> string" where
  "dart_constructor_name record_name constructor_index =
     (if constructor_index = 0 then record_name
      else record_name @ ''.ctor'' @ show_nat (constructor_index + 1))"

section \<open>Types\<close>

primrec emit_type :: "ty \<Rightarrow> string" where
  "emit_type TInt = ''int''"
| "emit_type TBool = ''bool''"
| "emit_type TDouble = ''double''"
| "emit_type TVoid = ''void''"
| "emit_type (TRecord usr name) = name"
| "emit_type (TEnum usr name) = name"
| "emit_type TStr = ''String''"
| "emit_type TBytes = ''Uint8List''"
| "emit_type (TList e) = ''List<'' @ emit_type e @ ''>''"
| "emit_type (TSet e) = ''Set<'' @ emit_type e @ ''>''"
| "emit_type (TMap k v) = ''Map<'' @ emit_type k @ '', '' @ emit_type v @ ''>''"
| "emit_type (TPair a b) = PAIR_TYPE_NAME @ ''<'' @ emit_type a @ '', '' @ emit_type b @ ''>''"
| "emit_type (TListCursor e) = LIST_CURSOR_TYPE_NAME @ ''<'' @ emit_type e @ ''>''"
| "emit_type TByteCursor = BYTE_CURSOR_TYPE_NAME"
| "emit_type (TCallback r ps) = emit_type r @ '' Function('' @ str_join '', '' (map emit_type ps) @ '')''"
| "emit_type (TTuple es) =
     (case map emit_type es of [e] \<Rightarrow> ''('' @ e @ '',)'' | texts \<Rightarrow> ''('' @ str_join '', '' texts @ '')'')"
| "emit_type (TNullable t) = emit_type t @ ''?''"
| "emit_type TObject = ''Object''"
| "emit_type (TUnsupported spelling) = OPAQUE_TYPE_NAME @ '' /* unsupported: '' @ spelling @ '' */''"

definition library_base_field_name :: "ty \<Rightarrow> string" where
  "library_base_field_name t =
     (case t of
        TStr \<Rightarrow> ''syntaxBridgeStringBase'' | TList _ \<Rightarrow> ''syntaxBridgeListBase''
      | TSet _ \<Rightarrow> ''syntaxBridgeSetBase'' | TMap _ _ \<Rightarrow> ''syntaxBridgeMapBase''
      | TBytes \<Rightarrow> ''syntaxBridgeBytesBase'' | _ \<Rightarrow> ''syntaxBridgeLibraryBase'')"

definition unsupported_spelling :: "ty \<Rightarrow> string option" where
  "unsupported_spelling t = (case t of TUnsupported spelling \<Rightarrow> Some spelling | _ \<Rightarrow> None)"

section \<open>Default and mock values\<close>

type_synonym enum_index = "(string \<times> ir_enum) list"
type_synonym record_index = "(string \<times> ir_record) list"

definition field_default_literal :: "enum_index \<Rightarrow> ty \<Rightarrow> string option" where
  "field_default_literal enums t =
     (case t of
        TBool \<Rightarrow> Some ''false''
      | TNullable _ \<Rightarrow> Some ''null''
      | TInt \<Rightarrow> Some ''0'' | TDouble \<Rightarrow> Some ''0''
      | TStr \<Rightarrow> Some [quote, quote]
      | TBytes \<Rightarrow> Some ''Uint8List(0)''
      | TList _ \<Rightarrow> Some ''[]''
      | TSet _ \<Rightarrow> Some ''{}'' | TMap _ _ \<Rightarrow> Some ''{}''
      | TEnum usr name \<Rightarrow>
          (case map_of enums usr of
             None \<Rightarrow> None
           | Some e \<Rightarrow> (case en_variants e of [] \<Rightarrow> None | first # _ \<Rightarrow> Some (name @ ''.'' @ first)))
      | _ \<Rightarrow> None)"

definition emit_field_declaration :: "enum_index \<Rightarrow> string \<Rightarrow> ty \<Rightarrow> string \<Rightarrow> string" where
  "emit_field_declaration enums modifiers t name =
     (case field_default_literal enums t of
        Some literal \<Rightarrow> INDENT @ modifiers @ emit_type t @ '' '' @ name @ '' = '' @ literal @ '';'' @ newline
      | None \<Rightarrow> INDENT @ modifiers @ ''late '' @ emit_type t @ '' '' @ name @ '';'' @ newline)"

definition MOCK_VALUE_MAX_DEPTH :: nat where "MOCK_VALUE_MAX_DEPTH = 16"

text \<open>The types of the arguments a mocked record is constructed from.\<close>

definition mock_argument_types :: "ir_record \<Rightarrow> ty list" where
  "mock_argument_types r =
     (if r_constructors r = [] then map fl_ty (r_fields r)
      else map p_ty (c_params (hd (sort_key c_index (r_constructors r)))))"

function mock_value_for_type :: "enum_index \<Rightarrow> record_index \<Rightarrow> nat \<Rightarrow> ty \<Rightarrow> string option" where
  "mock_value_for_type enums records depth t =
     (case field_default_literal enums t of
        Some literal \<Rightarrow> Some literal
      | None \<Rightarrow>
          if MOCK_VALUE_MAX_DEPTH \<le> depth then None
          else (case t of
              TRecord usr name \<Rightarrow>
                (case map_of records usr of
                   None \<Rightarrow> None
                 | Some r \<Rightarrow> map_option (\<lambda>args. name @ parens (str_join '', '' args))
                     (those (map (mock_value_for_type enums records (depth + 1)) (mock_argument_types r))))
            | TTuple ts \<Rightarrow> map_option (\<lambda>values. parens (str_join '', '' values))
                (those (map (mock_value_for_type enums records (depth + 1)) ts))
            | TPair a b \<Rightarrow>
                (case mock_value_for_type enums records (depth + 1) a of
                   None \<Rightarrow> None
                 | Some x \<Rightarrow> map_option (\<lambda>y. PAIR_TYPE_NAME @ parens (x @ '', '' @ y))
                     (mock_value_for_type enums records (depth + 1) b))
            | _ \<Rightarrow> None))"
  by pat_completeness auto
termination
  by (relation "measure (\<lambda>(_, _, depth, _). MOCK_VALUE_MAX_DEPTH - depth)") auto

declare mock_value_for_type.simps [simp del]

section \<open>File stems\<close>

text \<open>
  What the emitter takes from Rust's standard library beyond ASCII and integers: \<^verbatim>\<open>char::to_lowercase\<close>, as
  UTF-8 of one character to UTF-8 of those it becomes, and \<^verbatim>\<open>f64\<close>'s \<^verbatim>\<open>Display\<close>.
\<close>

record rust_std =
  std_to_lowercase :: "string \<Rightarrow> string"
  std_show_f64 :: "64 word \<Rightarrow> string"

definition char_to_lowercase :: "rust_std \<Rightarrow> string \<Rightarrow> string" where
  "char_to_lowercase R c =
     (case c of
        [b] \<Rightarrow> (if is_ascii b
                then (if ascii_upper b then [char_of ((of_char b :: nat) + 32)] else [b])
                else std_to_lowercase R c)
      | _ \<Rightarrow> std_to_lowercase R c)"

text \<open>The accented letters of Latin-1, as the second byte of their UTF-8 after 0xC3.\<close>

definition fold_diacritic :: "string \<Rightarrow> string" where
  "fold_diacritic c =
     (case c of
        [a, b] \<Rightarrow>
          (if a \<noteq> CHR 0xC3 then c
           else let n = (of_char b :: nat) in
             if n \<in> {0xA0, 0xA1, 0xA2, 0xA3, 0xA4, 0xA5} then ''a''
             else if n \<in> {0xA8, 0xA9, 0xAA, 0xAB} then ''e''
             else if n \<in> {0xAC, 0xAD, 0xAE, 0xAF} then ''i''
             else if n \<in> {0xB2, 0xB3, 0xB4, 0xB5, 0xB6} then ''o''
             else if n \<in> {0xB9, 0xBA, 0xBB, 0xBC} then ''u''
             else if n \<in> {0xBD, 0xBF} then ''y''
             else if n = 0xB1 then ''n''
             else if n = 0xA7 then ''c''
             else c)
      | _ \<Rightarrow> c)"

text \<open>\<^verbatim>\<open>is_ascii_alphanumeric\<close> of a character, and the loop that collapses underscores.\<close>

definition normalize_char :: "string \<Rightarrow> char" where
  "normalize_char c = (case c of [b] \<Rightarrow> (if ascii_alnum b then b else CHR ''_'') | _ \<Rightarrow> CHR ''_'')"

primrec push_normalized :: "bool \<Rightarrow> char list \<Rightarrow> string" where
  "push_normalized previous_was_underscore [] = []"
| "push_normalized previous_was_underscore (normalized # cs) =
     (if normalized = CHR ''_'' \<and> previous_was_underscore then push_normalized True cs
      else normalized # push_normalized (normalized = CHR ''_'') cs)"

definition trim_underscores :: "string \<Rightarrow> string" where
  "trim_underscores s =
     rev (dropWhile ((=) (CHR ''_'')) (rev (dropWhile ((=) (CHR ''_'')) s)))"

definition sanitize_identifier :: "rust_std \<Rightarrow> string \<Rightarrow> string" where
  "sanitize_identifier R input =
     (let lowered = concat (map (\<lambda>c. utf8_chars (char_to_lowercase R c)) (utf8_chars input));
          trimmed = trim_underscores (push_normalized False (map (\<lambda>c. normalize_char (fold_diacritic c)) lowered))
      in case trimmed of [] \<Rightarrow> [] | first # _ \<Rightarrow> if is_digit first then CHR ''_'' # trimmed else trimmed)"

text \<open>
  \<^verbatim>\<open>Path::file_name\<close> and \<^verbatim>\<open>Path::file_stem\<close> on Unix: the last component, unless the path ends in \<^verbatim>\<open>..\<close> or has
  none, cut before its last dot, unless the dot comes first. Empty components and \<^verbatim>\<open>.\<close> do not count.
\<close>

definition path_file_name :: "string \<Rightarrow> string option" where
  "path_file_name path =
     (case rev (filter (\<lambda>c. c \<notin> {'''', ''.''}) (str_split_on ''/'' path)) of
        [] \<Rightarrow> None
      | name # _ \<Rightarrow> if name = ''..'' then None else Some name)"

definition path_file_stem :: "string \<Rightarrow> string option" where
  "path_file_stem path =
     map_option (\<lambda>name. case str_rfind_char name (CHR ''.'') of
         None \<Rightarrow> name
       | Some i \<Rightarrow> if i = 0 then name else take i name)
       (path_file_name path)"

definition file_stem :: "rust_std \<Rightarrow> string \<Rightarrow> string" where
  "file_stem R path =
     (let stem = (case path_file_stem path of None \<Rightarrow> [] | Some stem \<Rightarrow> sanitize_identifier R stem)
      in if stem = [] then ''output'' else stem)"

section \<open>String literals read back\<close>

text \<open>
  How Dart reads a single-quoted literal: a backslash escapes, an unescaped dollar interpolates, a
  newline or the end of the text in it is an error. \<open>dart_unquote\<close> gives the value and what follows.
\<close>

definition dart_escape :: "char \<Rightarrow> char" where
  "dart_escape c =
     (if c = CHR ''n'' then CHR 0x0A else if c = CHR ''r'' then CHR 0x0D
      else if c = CHR ''f'' then CHR 0x0C else if c = CHR ''b'' then CHR 0x08
      else if c = CHR ''t'' then CHR 0x09 else if c = CHR ''v'' then CHR 0x0B else c)"

fun read_literal :: "string \<Rightarrow> (string \<times> string) option" where
  "read_literal [] = None"
| "read_literal (c # cs) =
     (if c = quote then Some ([], cs)
      else if c = backslash then
        (case cs of
           [] \<Rightarrow> None
         | d # ds \<Rightarrow> if d \<in> {CHR ''x'', CHR ''u''} then None
                     else map_option (\<lambda>(v, rest). (dart_escape d # v, rest)) (read_literal ds))
      else if c \<in> {CHR 0x0A, CHR 0x0D, CHR ''$''} then None
      else map_option (\<lambda>(v, rest). (c # v, rest)) (read_literal cs))"

definition dart_unquote :: "string \<Rightarrow> (string \<times> string) option" where
  "dart_unquote s = (case s of [] \<Rightarrow> None | c # cs \<Rightarrow> if c = quote then read_literal cs else None)"

text \<open>The eight replacements together, one character at a time.\<close>

definition escape_char :: "char \<Rightarrow> string" where
  "escape_char c =
     (if c = backslash then [backslash, backslash]
      else if c = quote then [backslash, quote]
      else if c = CHR ''$'' then [backslash, CHR ''$'']
      else if c = CHR 0x0A then [backslash, CHR ''n'']
      else if c = CHR 0x0D then [backslash, CHR ''r'']
      else if c = CHR 0x09 then [backslash, CHR ''t'']
      else if c = CHR 0x08 then [backslash, CHR ''b'']
      else if c = CHR 0x0C then [backslash, CHR ''f'']
      else [c])"

lemma replace_char_concat:
  "replace_char c r (concat (map f s)) = concat (map (\<lambda>b. replace_char c r (f b)) s)"
  by (induction s) (simp_all add: replace_char_def)

lemma dart_string_literal_escape:
  "dart_string_literal s = [quote] @ concat (map escape_char s) @ [quote]"
proof -
  have start: "replace_char backslash [backslash, backslash] s =
      concat (map (\<lambda>b. replace_char backslash [backslash, backslash] [b]) s)"
    by (simp add: replace_char_def)
  show ?thesis
    unfolding dart_string_literal_def Let_def start replace_char_concat
    by (intro arg_cong2 [where f = "(@)"] arg_cong [where f = concat] map_cong refl)
      (simp add: replace_char_def escape_char_def)
qed

lemma read_literal_escape:
  "read_literal (escape_char c @ cs) = map_option (\<lambda>(v, rest). (c # v, rest)) (read_literal cs)"
  by (simp add: escape_char_def dart_escape_def)

lemma read_literal_escapes:
  "read_literal (concat (map escape_char s) @ quote # rest) = Some (s, rest)"
  by (induction s) (simp_all add: read_literal_escape del: read_literal.simps(2), simp)

text \<open>Nothing in an emitted literal ends it, breaks the line or interpolates.\<close>

lemma escapes_plain:
  "list_all (\<lambda>c. c \<notin> {CHR 0x0A, CHR 0x0D}) (concat (map escape_char s))"
  by (induction s) (auto simp: escape_char_def)

section \<open>Stems are identifiers\<close>

lemma underscore_no_digit [simp]: "\<not> is_digit (CHR ''_'')"
  by (simp add: is_digit_def)

lemma push_normalized_set: "set (push_normalized p cs) \<subseteq> set cs"
  by (induction cs arbitrary: p) auto

text \<open>No two underscores in a row.\<close>

definition no_double_underscore :: "string \<Rightarrow> bool" where
  "no_double_underscore s \<longleftrightarrow> successively (\<lambda>a b. \<not> (a = CHR ''_'' \<and> b = CHR ''_'')) s"

lemma push_normalized_single:
  "no_double_underscore (push_normalized p cs)"
  "p \<Longrightarrow> push_normalized p cs = [] \<or> hd (push_normalized p cs) \<noteq> CHR ''_''"
  by (induction cs arbitrary: p) (auto simp: no_double_underscore_def successively_Cons)

lemma no_double_underscore_dropWhile:
  "no_double_underscore s \<Longrightarrow> no_double_underscore (dropWhile P s)"
  by (induction s) (auto simp: no_double_underscore_def successively_Cons)

lemma no_double_underscore_rev: "no_double_underscore (rev s) \<longleftrightarrow> no_double_underscore s"
  by (simp only: no_double_underscore_def successively_rev conj_commute)

lemma hd_prefix: "prefix xs ys \<Longrightarrow> xs \<noteq> [] \<Longrightarrow> hd xs = hd ys \<and> ys \<noteq> []"
  by (cases xs) (auto simp: prefix_def)

lemma trim_underscores_ends:
  "trim_underscores s = [] \<or> hd (trim_underscores s) \<noteq> CHR ''_'' \<and> last (trim_underscores s) \<noteq> CHR ''_''"
proof -
  let ?u = "(=) (CHR ''_'')"
  let ?d = "dropWhile ?u s"
  let ?t = "dropWhile ?u (rev ?d)"
  have "hd (rev ?t) \<noteq> CHR ''_'' \<and> last (rev ?t) \<noteq> CHR ''_''" if some: "?t \<noteq> []"
  proof
    show "last (rev ?t) \<noteq> CHR ''_''" using hd_dropWhile [OF some] some by (simp add: last_rev)
    have p: "prefix (rev ?t) ?d" using suffix_dropWhile [of ?u "rev ?d"] by (simp add: suffix_to_prefix)
    have "rev ?t \<noteq> []" using some by (simp only: rev_is_Nil_conv not_False_eq_True)
    from hd_prefix [OF p this] have hd: "hd (rev ?t) = hd ?d" and "?d \<noteq> []" by (rule conjunct1, rule conjunct2)
    from hd_dropWhile [OF \<open>?d \<noteq> []\<close>] have "CHR ''_'' \<noteq> hd ?d" .
    with hd show "hd (rev ?t) \<noteq> CHR ''_''" by (simp only: not_sym)
  qed
  then show ?thesis by (auto simp: trim_underscores_def)
qed

lemma trim_underscores_id:
  "s = [] \<or> hd s \<noteq> CHR ''_'' \<and> last s \<noteq> CHR ''_'' \<Longrightarrow> trim_underscores s = s"
  by (cases s; cases "rev s") (auto simp: trim_underscores_def hd_rev [symmetric])

text \<open>What a sanitized name is: letters, digits and single underscores, no digit in front.\<close>

definition sanitized_char :: "char \<Rightarrow> bool" where
  "sanitized_char c \<longleftrightarrow> c = CHR ''_'' \<or> ascii_alnum c \<and> \<not> ascii_upper c"

definition sanitized :: "string \<Rightarrow> bool" where
  "sanitized s \<longleftrightarrow> list_all sanitized_char s \<and> no_double_underscore s \<and>
     (s \<noteq> [] \<longrightarrow> \<not> is_digit (hd s) \<and> last s \<noteq> CHR ''_'' \<and>
       (hd s = CHR ''_'' \<longrightarrow> tl s \<noteq> [] \<and> is_digit (hd (tl s))))"

text \<open>Lowercase has no uppercase letter of ASCII in it.\<close>

definition lowers :: "rust_std \<Rightarrow> bool" where
  "lowers R \<longleftrightarrow> (\<forall>c. list_all (\<lambda>b. \<not> ascii_upper b) (std_to_lowercase R c))"

lemma upper_shift: "ascii_upper b \<Longrightarrow> \<not> ascii_upper (char_of ((of_char b :: nat) + 32))"
  by (simp add: ascii_upper_def of_char_of take_bit_eq_mod Let_def)

lemma lowercase_no_upper: "lowers R \<Longrightarrow> list_all (\<lambda>b. \<not> ascii_upper b) (char_to_lowercase R c)"
  using upper_shift by (auto simp: char_to_lowercase_def lowers_def split: list.splits)

lemma utf8_chars_set: "c \<in> set (utf8_chars s) \<Longrightarrow> set c \<subseteq> set s"
  by (metis concat_utf8_chars set_concat Sup_upper image_eqI set_map)

lemma fold_diacritic_no_upper: "list_all (\<lambda>b. \<not> ascii_upper b) c \<Longrightarrow> list_all (\<lambda>b. \<not> ascii_upper b) (fold_diacritic c)"
  by (auto simp: fold_diacritic_def ascii_upper_def Let_def split: list.splits)

lemma normalize_sanitized: "list_all (\<lambda>b. \<not> ascii_upper b) c \<Longrightarrow> sanitized_char (normalize_char c)"
  by (auto simp: normalize_char_def sanitized_char_def split: list.splits)

lemma trim_underscores_set: "set (trim_underscores s) \<subseteq> set s"
  by (auto simp: trim_underscores_def dest!: set_dropWhileD)

lemma sanitize_identifier_sanitized:
  assumes "lowers R"
  shows "sanitized (sanitize_identifier R input)"
proof -
  define cs where "cs = map (\<lambda>c. normalize_char (fold_diacritic c))
    (concat (map (\<lambda>c. utf8_chars (char_to_lowercase R c)) (utf8_chars input)))"
  define t where "t = trim_underscores (push_normalized False cs)"
  have "sanitized_char c" if c: "c \<in> set cs" for c
  proof -
    obtain d e where "c = normalize_char (fold_diacritic d)" and d: "d \<in> set (utf8_chars (char_to_lowercase R e))"
      using c by (auto simp: cs_def)
    moreover have "list_all (\<lambda>b. \<not> ascii_upper b) d"
      using lowercase_no_upper [OF assms, of e] utf8_chars_set [OF d] by (auto simp: list_all_iff)
    ultimately show ?thesis using normalize_sanitized fold_diacritic_no_upper by blast
  qed
  then have chars: "list_all sanitized_char t"
    using trim_underscores_set push_normalized_set by (fastforce simp: t_def list_all_iff)
  have single: "no_double_underscore t"
    unfolding t_def trim_underscores_def no_double_underscore_rev
    by (intro no_double_underscore_dropWhile) (simp add: no_double_underscore_rev no_double_underscore_dropWhile push_normalized_single)
  have ends: "t = [] \<or> hd t \<noteq> CHR ''_'' \<and> last t \<noteq> CHR ''_''" unfolding t_def by (rule trim_underscores_ends)
  have result: "sanitize_identifier R input =
      (case t of [] \<Rightarrow> [] | first # _ \<Rightarrow> if is_digit first then CHR ''_'' # t else t)"
    unfolding sanitize_identifier_def Let_def t_def cs_def by (rule refl)
  show ?thesis
    unfolding result using chars single ends
    by (cases t) (auto simp: sanitized_def sanitized_char_def no_double_underscore_def)
qed

lemma ascii_chars: "list_all is_ascii s \<Longrightarrow> utf8_chars s = map (\<lambda>b. [b]) s"
  by (induction s) (auto simp: is_ascii_def utf8_width_def)

text \<open>One character of a sanitized name goes through unchanged.\<close>

lemma sanitized_char_ascii: "sanitized_char c \<Longrightarrow> is_ascii c \<and> \<not> ascii_upper c"
  by (auto simp: sanitized_char_def is_ascii_def ascii_alnum_def ascii_upper_def ascii_lower_def is_digit_def Let_def)

lemma sanitized_char_normal: "sanitized_char c \<Longrightarrow> normalize_char (fold_diacritic [c]) = c"
  by (auto simp: sanitized_char_def fold_diacritic_def normalize_char_def)

lemma push_normalized_id: "no_double_underscore s \<Longrightarrow> p \<longrightarrow> s = [] \<or> hd s \<noteq> CHR ''_'' \<Longrightarrow> push_normalized p s = s"
  by (induction s arbitrary: p) (auto simp: no_double_underscore_def successively_Cons)

lemma trim_leading: "hd s = CHR ''_'' \<Longrightarrow> s \<noteq> [] \<Longrightarrow> trim_underscores s = trim_underscores (tl s)"
  by (cases s) (auto simp: trim_underscores_def)

lemma sanitized_unchanged:
  assumes "sanitized s"
  shows "sanitize_identifier R s = s"
proof -
  have chars: "list_all sanitized_char s" and single: "no_double_underscore s"
    using assms by (simp_all add: sanitized_def)
  have "utf8_chars (char_to_lowercase R [c]) = [[c]]" if "c \<in> set s" for c
    using chars that sanitized_char_ascii by (auto simp: list_all_iff char_to_lowercase_def ascii_chars)
  then have "map (\<lambda>c. utf8_chars (char_to_lowercase R c)) (map (\<lambda>b. [b]) s) = map (\<lambda>b. [[b]]) s" by simp
  moreover have "utf8_chars s = map (\<lambda>b. [b]) s"
    using chars sanitized_char_ascii by (intro ascii_chars) (auto simp: list_all_iff)
  ultimately have "concat (map (\<lambda>c. utf8_chars (char_to_lowercase R c)) (utf8_chars s)) = map (\<lambda>b. [b]) s"
    by (simp only: concat_map_singleton)
  moreover have "map (\<lambda>b. normalize_char (fold_diacritic [b])) s = s"
    using chars sanitized_char_normal by (intro map_idI) (simp add: list_all_iff)
  ultimately have pushed: "push_normalized False (map (\<lambda>c. normalize_char (fold_diacritic c))
      (concat (map (\<lambda>c. utf8_chars (char_to_lowercase R c)) (utf8_chars s)))) = s"
    using push_normalized_id [OF single, of False] by (simp add: comp_def)
  have result: "sanitize_identifier R s =
      (case trim_underscores s of [] \<Rightarrow> [] | first # rest \<Rightarrow>
        if is_digit first then CHR ''_'' # trim_underscores s else trim_underscores s)"
    unfolding sanitize_identifier_def Let_def pushed by (rule refl)
  show ?thesis
  proof (cases "s \<noteq> [] \<and> hd s = CHR ''_''")
    case True
    then obtain t where s: "s = CHR ''_'' # t" by (cases s) auto
    then have "t \<noteq> []" "is_digit (hd t)" "last t \<noteq> CHR ''_''" using assms by (auto simp: sanitized_def)
    moreover from this have "trim_underscores t = t"
      by (intro trim_underscores_id) (auto simp: is_digit_def)
    ultimately show ?thesis using result trim_leading [of s] unfolding s by (cases t) auto
  next
    case False
    then have "trim_underscores s = s" using assms by (intro trim_underscores_id) (auto simp: sanitized_def)
    then show ?thesis unfolding result using assms by (cases s) (auto simp: sanitized_def)
  qed
qed

section \<open>Mock values\<close>

text \<open>A mock value names only constructors of records the module has.\<close>

lemma mock_value_depth:
  "16 \<le> depth \<Longrightarrow> mock_value_for_type enums records depth t = field_default_literal enums t"
  by (subst mock_value_for_type.simps) (simp add: MOCK_VALUE_MAX_DEPTH_def split: option.splits)

section \<open>Properties\<close>

text \<open>
  C24. A string literal reads back: whatever the text, Dart reads the literal the emitter prints as that
  text and stops right behind it, also when more code follows on the line. Quotes, backslashes, dollar
  signs and line breaks in the text neither end the literal nor interpolate nor break the line.
\<close>

theorem string_literals_roundtrip:
  "dart_unquote (dart_string_literal s @ rest) = Some (s, rest) \<and>
    list_all (\<lambda>c. c \<notin> {CHR 0x0A, CHR 0x0D}) (dart_string_literal s)"
  using read_literal_escapes [of s rest] escapes_plain [of s]
  by (simp add: dart_string_literal_escape dart_unquote_def)

text \<open>
  A file stem is a Dart identifier in lower case, whatever the path: not empty, letters, digits and
  single underscores, no digit in front; and sanitizing it again changes nothing. The hypothesis is
  Unicode's: lowercase letters are not uppercase letters of ASCII.
\<close>

theorem file_stems_are_identifiers:
  assumes "lowers R"
  shows "file_stem R path \<noteq> [] \<and> sanitized (file_stem R path) \<and> sanitize_identifier R (file_stem R path) = file_stem R path"
proof -
  have "sanitized ''output''"
    by (simp add: sanitized_def sanitized_char_def no_double_underscore_def ascii_alnum_def ascii_lower_def
        ascii_upper_def is_digit_def)
  then have "sanitized (file_stem R path)"
    using sanitize_identifier_sanitized [OF assms] by (simp add: file_stem_def Let_def split: option.splits)
  moreover have "file_stem R path \<noteq> []" by (simp add: file_stem_def Let_def)
  ultimately show ?thesis using sanitized_unchanged by blast
qed

text \<open>A table that lowers the accented capitals of Latin-1 and leaves the rest of Unicode alone.\<close>

definition latin_std :: rust_std where
  "latin_std =
     \<lparr>std_to_lowercase = \<lambda>c. filter (\<lambda>b. \<not> ascii_upper b)
        (case c of
           [a, b] \<Rightarrow> (let n = (of_char b :: nat) in
             if a = CHR 0xC3 \<and> 0x80 \<le> n \<and> n \<le> 0x9E then [a, char_of (n + 32)] else c)
         | _ \<Rightarrow> c),
      std_show_f64 = \<lambda>_. ''0''\<rparr>"

lemma latin_std_lowers: "lowers latin_std"
  by (simp add: lowers_def latin_std_def list_all_iff)

text \<open>\<^verbatim>\<open>src/2 Cafe--MENU.test.cpp\<close>, in UTF-8.\<close>

theorem file_stems_are_identifiers_witness:
  "file_stem latin_std (''src/2 Caf'' @ [CHR 0xC3, CHR 0x89] @ ''--MENU.test.cpp'') = ''_2_cafe_menu_test'' \<and>
    sanitized ''_2_cafe_menu_test'' \<and> sanitize_identifier latin_std ''_2_cafe_menu_test'' = ''_2_cafe_menu_test''"
proof -
  have stem: "file_stem latin_std (''src/2 Caf'' @ [CHR 0xC3, CHR 0x89] @ ''--MENU.test.cpp'') = ''_2_cafe_menu_test''"
    by code_simp
  show ?thesis
    using file_stems_are_identifiers [OF latin_std_lowers, of "''src/2 Caf'' @ [CHR 0xC3, CHR 0x89] @ ''--MENU.test.cpp''"]
    unfolding stem by blast
qed

end
