(* ===== verification/Dart_Scan.thy ===== *)
theory Dart_Scan
  imports Dart_Text Ir_Visitor
begin

text \<open>
  What the emitter of \<^verbatim>\<open>crates/server/src/emit/dart.rs\<close> asks of a piece of IR before it prints it: the
  first part that cannot be printed, the names a block assigns, the names a condition proves to be not
  null, and which operands need parentheses.
\<close>

section \<open>The first part that cannot be printed\<close>

definition or_else :: "'a option \<Rightarrow> 'a option \<Rightarrow> 'a option" where
  "or_else x y = (case x of None \<Rightarrow> y | Some _ \<Rightarrow> x)"

lemma or_else_simps [simp]: "or_else None y = y" "or_else (Some x) y = Some x" "or_else z None = z"
  by (simp_all add: or_else_def split: option.splits)

lemma or_else_None [simp]: "or_else x y = None \<longleftrightarrow> x = None \<and> y = None"
  by (cases x) simp_all

function stmt_unsupported_type_spelling :: "stmt \<Rightarrow> string option"
  and expr_unsupported_type_spelling :: "expr \<Rightarrow> string option" where
  "stmt_unsupported_type_spelling s =
     (case s of
        SReturn v _ \<Rightarrow> Option.bind v expr_unsupported_type_spelling
      | SVarDecl _ t i _ \<Rightarrow> or_else (unsupported_spelling t) (Option.bind i expr_unsupported_type_spelling)
      | SAssign _ v _ \<Rightarrow> expr_unsupported_type_spelling v
      | SFieldAssign tg _ v _ \<Rightarrow> or_else (expr_unsupported_type_spelling tg) (expr_unsupported_type_spelling v)
      | SExprAssign (EMapIndexOrInsert m i _ _ _) v _ \<Rightarrow>
          or_else (expr_unsupported_type_spelling m)
            (or_else (expr_unsupported_type_spelling i) (expr_unsupported_type_spelling v))
      | SExprAssign tg v _ \<Rightarrow> or_else (expr_unsupported_type_spelling tg) (expr_unsupported_type_spelling v)
      | SIf c a b _ \<Rightarrow>
          or_else (expr_unsupported_type_spelling c)
            (or_else (find_map stmt_unsupported_type_spelling a) (find_map stmt_unsupported_type_spelling b))
      | SWhile c b _ \<Rightarrow> or_else (expr_unsupported_type_spelling c) (find_map stmt_unsupported_type_spelling b)
      | SDoWhile b c _ \<Rightarrow> or_else (find_map stmt_unsupported_type_spelling b) (expr_unsupported_type_spelling c)
      | SFor i c n b _ \<Rightarrow>
          or_else (Option.bind i stmt_unsupported_type_spelling)
            (or_else (Option.bind c expr_unsupported_type_spelling)
              (or_else (Option.bind n stmt_unsupported_type_spelling)
                (find_map stmt_unsupported_type_spelling b)))
      | SForEach _ t _ _ it b _ \<Rightarrow>
          or_else (unsupported_spelling t)
            (or_else (expr_unsupported_type_spelling it) (find_map stmt_unsupported_type_spelling b))
      | SExprStmt e _ \<Rightarrow> expr_unsupported_type_spelling e
      | SThrow e _ \<Rightarrow> expr_unsupported_type_spelling e
      | STryCatch b t _ c _ \<Rightarrow>
          or_else (unsupported_spelling t)
            (or_else (find_map stmt_unsupported_type_spelling b) (find_map stmt_unsupported_type_spelling c))
      | STryFinally b f _ \<Rightarrow>
          or_else (find_map stmt_unsupported_type_spelling b) (find_map stmt_unsupported_type_spelling f)
      | STupleAssign ts v _ \<Rightarrow>
          or_else (find_map expr_unsupported_type_spelling ts) (expr_unsupported_type_spelling v)
      | SSwitch e cs d _ \<Rightarrow>
          or_else (expr_unsupported_type_spelling e)
            (or_else
              (find_map (\<lambda>c. case c of SwitchCase vs b _ \<Rightarrow>
                  or_else (find_map expr_unsupported_type_spelling vs) (find_map stmt_unsupported_type_spelling b)) cs)
              (Option.bind d (find_map stmt_unsupported_type_spelling)))
      | SBreak _ \<Rightarrow> None | SContinue _ \<Rightarrow> None | SContinueLabel _ _ \<Rightarrow> None | SUnsupported _ _ \<Rightarrow> None)"
| "expr_unsupported_type_spelling e =
     (case e of
        EIntLiteral _ _ \<Rightarrow> None | EDoubleLiteral _ _ \<Rightarrow> None | EBoolLiteral _ _ \<Rightarrow> None
      | ENullLiteral _ \<Rightarrow> None | EStringLiteral _ _ \<Rightarrow> None | EUnsupported _ _ \<Rightarrow> None
      | EUnsupportedTyped _ t _ \<Rightarrow> unsupported_spelling t
      | ENamedArg _ v \<Rightarrow> expr_unsupported_type_spelling v
      | ERef _ t _ \<Rightarrow> unsupported_spelling t
      | EBinary _ l r t _ \<Rightarrow>
          or_else (unsupported_spelling t)
            (or_else (expr_unsupported_type_spelling l) (expr_unsupported_type_spelling r))
      | EConditional c a b t _ \<Rightarrow>
          or_else (unsupported_spelling t)
            (or_else (expr_unsupported_type_spelling c)
              (or_else (expr_unsupported_type_spelling a) (expr_unsupported_type_spelling b)))
      | EUnary _ e t _ \<Rightarrow> or_else (unsupported_spelling t) (expr_unsupported_type_spelling e)
      | ELambda ps b t _ \<Rightarrow>
          or_else (unsupported_spelling t)
            (or_else (find_map (\<lambda>p. unsupported_spelling (p_ty p)) ps) (find_map stmt_unsupported_type_spelling b))
      | EConvert e t _ \<Rightarrow> or_else (unsupported_spelling t) (expr_unsupported_type_spelling e)
      | ECall tg _ _ _ args t _ \<Rightarrow>
          or_else (unsupported_spelling t)
            (or_else (Option.bind tg expr_unsupported_type_spelling) (find_map expr_unsupported_type_spelling args))
      | EFieldAccess tg _ t _ \<Rightarrow> or_else (unsupported_spelling t) (expr_unsupported_type_spelling tg)
      | ERecordConstruct _ _ fs _ \<Rightarrow> find_map (\<lambda>(name, v). expr_unsupported_type_spelling v) fs
      | ERecordCopy tg _ _ _ \<Rightarrow> expr_unsupported_type_spelling tg
      | EConstructorCall _ _ _ args _ \<Rightarrow> find_map expr_unsupported_type_spelling args
      | EThis _ _ \<Rightarrow> None
      | EIndex tg i t _ \<Rightarrow>
          or_else (unsupported_spelling t)
            (or_else (expr_unsupported_type_spelling tg) (expr_unsupported_type_spelling i))
      | EMapIndexOrInsert tg i d t _ \<Rightarrow>
          or_else (unsupported_spelling t)
            (or_else (expr_unsupported_type_spelling tg)
              (or_else (expr_unsupported_type_spelling i) (expr_unsupported_type_spelling d)))
      | EStringByteLength tg _ \<Rightarrow> expr_unsupported_type_spelling tg
      | EStringByteIndexOf tg nd fr _ \<Rightarrow>
          or_else (expr_unsupported_type_spelling tg)
            (or_else (expr_unsupported_type_spelling nd) (Option.bind fr expr_unsupported_type_spelling))
      | EStringByteAt tg i t _ \<Rightarrow>
          or_else (unsupported_spelling t)
            (or_else (expr_unsupported_type_spelling tg) (expr_unsupported_type_spelling i))
      | ETuple vs _ \<Rightarrow> find_map expr_unsupported_type_spelling vs
      | EListLiteral xs t _ \<Rightarrow> or_else (unsupported_spelling t) (find_map expr_unsupported_type_spelling xs)
      | EMapLiteral es t _ \<Rightarrow>
          or_else (unsupported_spelling t)
            (find_map (\<lambda>(k, v). or_else (expr_unsupported_type_spelling k) (expr_unsupported_type_spelling v)) es)
      | EIs e t _ \<Rightarrow> or_else (unsupported_spelling t) (expr_unsupported_type_spelling e)
      | EAs e t _ \<Rightarrow> or_else (unsupported_spelling t) (expr_unsupported_type_spelling e)
      | EAssign tg v t _ \<Rightarrow>
          or_else (unsupported_spelling t)
            (or_else (expr_unsupported_type_spelling tg) (expr_unsupported_type_spelling v)))"
  by pat_completeness auto
termination by lexicographic_order

declare stmt_unsupported_type_spelling.simps [simp del] expr_unsupported_type_spelling.simps [simp del]

abbreviation first_unsupported_type_in_list :: "stmt list \<Rightarrow> string option" where
  "first_unsupported_type_in_list \<equiv> find_map stmt_unsupported_type_spelling"

definition first_unsupported_signature_param :: "param list \<Rightarrow> string option" where
  "first_unsupported_signature_param params =
     find_map (\<lambda>param. case p_ty param of
         TUnsupported spelling \<Rightarrow>
           Some (''unsupported parameter type: '' @ spelling @ '' (parameter `'' @ p_name param @ ''`)'')
       | _ \<Rightarrow> None) params"

text \<open>
  The first statement that is itself unsupported, in the blocks of a statement as well; an expression
  that cannot be printed does not count.
\<close>

function first_unsupported_in_stmt :: "stmt \<Rightarrow> stmt option" where
  "first_unsupported_in_stmt s =
     (case s of
        SUnsupported _ _ \<Rightarrow> Some s
      | SIf _ a b _ \<Rightarrow> or_else (find_map first_unsupported_in_stmt a) (find_map first_unsupported_in_stmt b)
      | SWhile _ b _ \<Rightarrow> find_map first_unsupported_in_stmt b
      | SFor i _ n b _ \<Rightarrow>
          or_else (Option.bind i first_unsupported_in_stmt)
            (or_else (Option.bind n first_unsupported_in_stmt) (find_map first_unsupported_in_stmt b))
      | SForEach _ _ _ _ _ b _ \<Rightarrow> find_map first_unsupported_in_stmt b
      | SDoWhile b _ _ \<Rightarrow> find_map first_unsupported_in_stmt b
      | STryCatch b _ _ c _ \<Rightarrow> or_else (find_map first_unsupported_in_stmt b) (find_map first_unsupported_in_stmt c)
      | STryFinally b f _ \<Rightarrow> or_else (find_map first_unsupported_in_stmt b) (find_map first_unsupported_in_stmt f)
      | SSwitch _ cs d _ \<Rightarrow>
          or_else (find_map (\<lambda>c. case c of SwitchCase _ b _ \<Rightarrow> find_map first_unsupported_in_stmt b) cs)
            (Option.bind d (find_map first_unsupported_in_stmt))
      | _ \<Rightarrow> None)"
  by pat_completeness auto
termination by lexicographic_order

declare first_unsupported_in_stmt.simps [simp del]

abbreviation first_unsupported_in_list :: "stmt list \<Rightarrow> stmt option" where
  "first_unsupported_in_list \<equiv> find_map first_unsupported_in_stmt"

definition body_bails_out :: "param list \<Rightarrow> ty option \<Rightarrow> stmt list \<Rightarrow> bool" where
  "body_bails_out params return_type body \<longleftrightarrow>
     Option.bind return_type unsupported_spelling \<noteq> None \<or>
     first_unsupported_signature_param params \<noteq> None \<or>
     first_unsupported_type_in_list body \<noteq> None \<or>
     first_unsupported_in_list body \<noteq> None"

section \<open>Names a block assigns\<close>

definition assign_target_name :: "expr \<Rightarrow> string option" where
  "assign_target_name target = (case target of ERef name _ _ \<Rightarrow> Some name | _ \<Rightarrow> None)"

text \<open>The code inserts into one \<^verbatim>\<open>HashSet\<close> it hands down; the model unites what each statement inserts.\<close>

function collect_assigned_names :: "stmt \<Rightarrow> string set" where
  "collect_assigned_names s =
     (case s of
        SAssign name _ _ \<Rightarrow> {name}
      | SExprAssign target _ _ \<Rightarrow>
          (case or_else (assign_target_name target)
              (case target of EConvert operand _ _ \<Rightarrow> assign_target_name operand | _ \<Rightarrow> None) of
             None \<Rightarrow> {} | Some name \<Rightarrow> {name})
      | STupleAssign targets _ _ \<Rightarrow> set (filter_map assign_target_name targets)
      | SIf _ a b _ \<Rightarrow> \<Union> (set (map collect_assigned_names a)) \<union> \<Union> (set (map collect_assigned_names b))
      | SWhile _ b _ \<Rightarrow> \<Union> (set (map collect_assigned_names b))
      | SDoWhile b _ _ \<Rightarrow> \<Union> (set (map collect_assigned_names b))
      | SForEach _ _ _ _ _ b _ \<Rightarrow> \<Union> (set (map collect_assigned_names b))
      | SFor i _ n b _ \<Rightarrow>
          (case i of None \<Rightarrow> {} | Some i \<Rightarrow> collect_assigned_names i) \<union>
          (case n of None \<Rightarrow> {} | Some n \<Rightarrow> collect_assigned_names n) \<union>
          \<Union> (set (map collect_assigned_names b))
      | STryCatch b _ _ c _ \<Rightarrow> \<Union> (set (map collect_assigned_names b)) \<union> \<Union> (set (map collect_assigned_names c))
      | STryFinally b f _ \<Rightarrow> \<Union> (set (map collect_assigned_names b)) \<union> \<Union> (set (map collect_assigned_names f))
      | SSwitch _ cs d _ \<Rightarrow>
          \<Union> (set (map (\<lambda>c. case c of SwitchCase _ b _ \<Rightarrow> \<Union> (set (map collect_assigned_names b))) cs)) \<union>
          (case d of None \<Rightarrow> {} | Some d \<Rightarrow> \<Union> (set (map collect_assigned_names d)))
      | _ \<Rightarrow> {})"
  by pat_completeness auto
termination by lexicographic_order

declare collect_assigned_names.simps [simp del]

abbreviation assigned_names :: "stmt list \<Rightarrow> string set" where
  "assigned_names stmts \<equiv> \<Union> (set (map collect_assigned_names stmts))"

text \<open>The names whose last value Dart knows to be not null; \<^verbatim>\<open>Promoted\<close>.\<close>

type_synonym promoted_names = "string set"

definition loop_scoped_promoted :: "promoted_names \<Rightarrow> stmt list \<Rightarrow> promoted_names" where
  "loop_scoped_promoted ps body = ps - assigned_names body"

section \<open>Null checks\<close>

fun ref_null_check_name :: "expr \<Rightarrow> binary_op \<Rightarrow> string option" where
  "ref_null_check_name e op =
     (case e of
        EUnary OpNot operand _ _ \<Rightarrow>
          (case op of
             OpEq \<Rightarrow> ref_null_check_name operand OpNe
           | OpNe \<Rightarrow> ref_null_check_name operand OpEq
           | _ \<Rightarrow> None)
      | EBinary found_op lhs rhs _ _ \<Rightarrow>
          if found_op \<noteq> op then None
          else (case (lhs, rhs) of
              (ERef name _ _, ENullLiteral _) \<Rightarrow> Some name
            | (ENullLiteral _, ERef name _ _) \<Rightarrow> Some name
            | _ \<Rightarrow> None)
      | _ \<Rightarrow> None)"

declare ref_null_check_name.simps [simp del]

fun or_chain_null_check_names_when_false :: "expr \<Rightarrow> string list" where
  "or_chain_null_check_names_when_false e =
     (case e of
        EBinary OpOr lhs rhs _ _ \<Rightarrow>
          or_chain_null_check_names_when_false lhs @ or_chain_null_check_names_when_false rhs
      | _ \<Rightarrow> (case ref_null_check_name e OpEq of None \<Rightarrow> [] | Some name \<Rightarrow> [name]))"

declare or_chain_null_check_names_when_false.simps [simp del]

fun and_chain_null_check_names :: "expr \<Rightarrow> string list" where
  "and_chain_null_check_names e =
     (case e of
        EBinary OpAnd lhs rhs _ _ \<Rightarrow> and_chain_null_check_names lhs @ and_chain_null_check_names rhs
      | _ \<Rightarrow>
          (case ref_null_check_name e OpNe of
             Some name \<Rightarrow> [name]
           | None \<Rightarrow> (case e of EConvert (ERef name (TNullable _) _) TBool _ \<Rightarrow> [name] | _ \<Rightarrow> [])))"

declare and_chain_null_check_names.simps [simp del]

definition branch_always_exits :: "stmt list \<Rightarrow> bool" where
  "branch_always_exits stmts =
     (case rev stmts of
        [] \<Rightarrow> False
      | s # _ \<Rightarrow> (case s of SReturn _ _ \<Rightarrow> True | SThrow _ _ \<Rightarrow> True | SBreak _ \<Rightarrow> True | SContinue _ \<Rightarrow> True
                 | SContinueLabel _ _ \<Rightarrow> True | _ \<Rightarrow> False))"

section \<open>Which operands need parentheses\<close>

datatype convert_shape = ShapeSimple | ShapeTernary | ShapeComparison

definition is_nullable :: "ty option \<Rightarrow> bool" where
  "is_nullable t = (case t of Some (TNullable _) \<Rightarrow> True | _ \<Rightarrow> False)"

text \<open>A conversion out of a nullable type that prints as \<^verbatim>\<open>!\<close>, which two functions of the code test for.\<close>

definition asserts_not_null :: "expr \<Rightarrow> ty \<Rightarrow> bool" where
  "asserts_not_null operand t \<longleftrightarrow>
     expr_ty operand = Some (TNullable t) \<or>
     is_nullable (expr_ty operand) \<and>
       \<not> (case t of TDouble \<Rightarrow> True | TInt \<Rightarrow> True | TBool \<Rightarrow> True | TNullable _ \<Rightarrow> True | _ \<Rightarrow> False)"

fun convert_shape_of :: "expr \<Rightarrow> convert_shape" where
  "convert_shape_of e =
     (case e of
        EConvert operand t _ \<Rightarrow>
          if asserts_not_null operand t then ShapeSimple
          else (case t of
              TInt \<Rightarrow> if expr_ty operand = Some TBool then ShapeTernary else ShapeSimple
            | TBool \<Rightarrow> ShapeComparison
            | TNullable _ \<Rightarrow> convert_shape_of operand
            | _ \<Rightarrow> ShapeSimple)
      | _ \<Rightarrow> ShapeSimple)"

declare convert_shape_of.simps [simp del]

definition convert_operand_needs_parens :: "expr \<Rightarrow> bool" where
  "convert_operand_needs_parens operand =
     (case operand of
        EBinary _ _ _ _ _ \<Rightarrow> True | EConditional _ _ _ _ _ \<Rightarrow> True | EUnary _ _ _ _ \<Rightarrow> True
      | EAssign _ _ _ _ \<Rightarrow> True | EIs _ _ _ \<Rightarrow> True | EAs _ _ _ \<Rightarrow> True
      | EConvert inner t _ \<Rightarrow> (case t of TBool \<Rightarrow> True | TInt \<Rightarrow> expr_ty inner = Some TBool | _ \<Rightarrow> False)
      | _ \<Rightarrow> False)"

definition receiver_needs_parens :: "expr \<Rightarrow> bool" where
  "receiver_needs_parens receiver \<longleftrightarrow>
     (case receiver of
        EBinary _ _ _ _ _ \<Rightarrow> True | EUnary _ _ _ _ \<Rightarrow> True | EConditional _ _ _ _ _ \<Rightarrow> True | EIs _ _ _ \<Rightarrow> True
      | _ \<Rightarrow> False) \<or>
     convert_shape_of receiver \<noteq> ShapeSimple"

definition binary_child_needs_parens :: "binary_op \<Rightarrow> expr \<Rightarrow> bool \<Rightarrow> bool" where
  "binary_child_needs_parens outer_op child child_is_rhs =
     (case child of
        EConditional _ _ _ _ _ \<Rightarrow> True
      | EBinary child_op _ _ _ _ \<Rightarrow>
          (let outer = binary_precedence outer_op; inner = binary_precedence child_op
           in if child_is_rhs then inner \<le> outer else inner < outer)
      | EConvert _ _ _ \<Rightarrow>
          (case convert_shape_of child of
             ShapeTernary \<Rightarrow> True
           | ShapeComparison \<Rightarrow>
               (let outer = binary_precedence outer_op; inner = binary_precedence OpNe
                in if child_is_rhs then inner \<le> outer else inner < outer)
           | ShapeSimple \<Rightarrow> False)
      | _ \<Rightarrow> False)"

section \<open>Receivers and tuple targets\<close>

definition receiver_bang_by_type :: "expr \<Rightarrow> string" where
  "receiver_bang_by_type receiver = (if is_nullable (expr_ty receiver) then ''!'' else [])"

definition TUPLE_ASSIGN_TEMP :: string where "TUPLE_ASSIGN_TEMP = ''_syntaxBridgeTupleAssign''"

definition is_tuple_assign_discard :: "expr \<Rightarrow> bool" where
  "is_tuple_assign_discard target = (case target of ERef name _ _ \<Rightarrow> name = ''_'' | _ \<Rightarrow> False)"

fun target_contains_index :: "expr \<Rightarrow> bool" where
  "target_contains_index (EIndex _ _ _ _) = True"
| "target_contains_index (EFieldAccess target _ _ _) = target_contains_index target"
| "target_contains_index _ = False"

definition target_needs_tuple_assign_temp_block :: "expr \<Rightarrow> bool" where
  "target_needs_tuple_assign_temp_block target =
     (case target of
        EFieldAccess receiver _ _ _ \<Rightarrow> receiver_bang_by_type receiver \<noteq> [] \<or> target_contains_index receiver
      | EIndex _ _ _ _ \<Rightarrow> True
      | _ \<Rightarrow> False)"

definition tuple_assign_needs_temp_block :: "expr list \<Rightarrow> bool" where
  "tuple_assign_needs_temp_block targets = list_ex target_needs_tuple_assign_temp_block targets"

definition foreach_binding_type_text :: "ty \<Rightarrow> expr \<Rightarrow> string" where
  "foreach_binding_type_text t iterable =
     (case (t, iterable) of
        (TPair key_ty value_ty, EFieldAccess _ field _ _) \<Rightarrow>
          if field = ''entries'' then ''MapEntry<'' @ emit_type key_ty @ '', '' @ emit_type value_ty @ ''>''
          else emit_type t
      | _ \<Rightarrow> emit_type t)"

end
