(* ===== verification/Dart_Expr.thy ===== *)
theory Dart_Expr
  imports Dart_Scan
begin

text \<open>
  How \<^verbatim>\<open>crates/server/src/emit/dart.rs\<close> prints statements and expressions: \<^verbatim>\<open>emit_stmt\<close>, \<^verbatim>\<open>emit_expr\<close> and
  the functions they call. The code hands three values down by mutable reference: whether the helper for
  unsupported expressions is used, whether UTF-8 encoding is, and the names promoted to not null. They are
  the state of a state monad, with a fourth flag for the one \<^verbatim>\<open>unreachable!\<close> of the code: a text printed
  with the flag set is no output, the program has stopped.

  The recursion is that of \<^verbatim>\<open>emit_expr\<close> and \<^verbatim>\<open>emit_stmt\<close>. The functions between them take the emitter of
  expressions or statements as an argument, and say in a congruence rule which parts they emit.
\<close>

section \<open>The state of an emission\<close>

record emit_state =
  used_expr_helper :: bool
  used_utf8_encode :: bool
  promoted :: promoted_names
  emit_panicked :: bool

type_synonym emission = "(emit_state, string) state"

lemma bind_fundef_cong [fundef_cong]:
  "m = m' \<Longrightarrow> (\<And>x. f x = g x) \<Longrightarrow> State_Monad.bind m f = State_Monad.bind m' g"
  by presburger

definition get_promoted :: "(emit_state, promoted_names) state" where
  "get_promoted = do { s \<leftarrow> State_Monad.get; State_Monad.return (promoted s) }"

definition set_promoted :: "promoted_names \<Rightarrow> (emit_state, unit) state" where
  "set_promoted ps = State_Monad.update (\<lambda>s. s\<lparr>promoted := ps\<rparr>)"

definition demote :: "string set \<Rightarrow> (emit_state, unit) state" where
  "demote names = State_Monad.update (\<lambda>s. s\<lparr>promoted := promoted s - names\<rparr>)"

definition use_expr_helper :: "(emit_state, unit) state" where
  "use_expr_helper = State_Monad.update (\<lambda>s. s\<lparr>used_expr_helper := True\<rparr>)"

definition use_utf8_encode :: "(emit_state, unit) state" where
  "use_utf8_encode = State_Monad.update (\<lambda>s. s\<lparr>used_utf8_encode := True\<rparr>)"

definition emit_panic :: emission where
  "emit_panic = do { State_Monad.update (\<lambda>s. s\<lparr>emit_panicked := True\<rparr>); State_Monad.return [] }"

text \<open>\<^verbatim>\<open>if promoted.insert(name) { "!" } else { "" }\<close>.\<close>

definition bang_unless_promoted :: "string \<Rightarrow> emission" where
  "bang_unless_promoted name =
     do {
       ps \<leftarrow> get_promoted;
       set_promoted (insert name ps);
       State_Monad.return (if name \<in> ps then [] else ''!'') }"

text \<open>Emits with a set of promoted names of its own, which is dropped afterwards.\<close>

definition scoped :: "promoted_names \<Rightarrow> ('a \<Rightarrow> emission) \<Rightarrow> 'a \<Rightarrow> emission" where
  "scoped scope emit x =
     do { ps \<leftarrow> get_promoted; set_promoted scope; t \<leftarrow> emit x; set_promoted ps; State_Monad.return t }"

lemma scoped_cong [fundef_cong]:
  "scope = scope' \<Longrightarrow> x = y \<Longrightarrow> f y = g y \<Longrightarrow> scoped scope f x = scoped scope' g y"
  by (simp add: scoped_def)

text \<open>The texts of a list, one after the other.\<close>

definition emit_all :: "('a \<Rightarrow> emission) \<Rightarrow> 'a list \<Rightarrow> (emit_state, string list) state" where
  "emit_all emit xs = seq (map emit xs)"

lemma emit_all_cong [fundef_cong]:
  "xs = ys \<Longrightarrow> (\<And>x. x \<in> set ys \<Longrightarrow> f x = g x) \<Longrightarrow> emit_all f xs = emit_all g ys"
  unfolding emit_all_def by (metis list.map_cong)

definition emit_optional :: "('a \<Rightarrow> emission) \<Rightarrow> 'a option \<Rightarrow> emission" where
  "emit_optional emit x = (case x of None \<Rightarrow> State_Monad.return [] | Some y \<Rightarrow> emit y)"

lemma emit_optional_cong [fundef_cong]:
  "x = y \<Longrightarrow> (\<And>z. y = Some z \<Longrightarrow> f z = g z) \<Longrightarrow> emit_optional f x = emit_optional g y"
  by (simp add: emit_optional_def split: option.splits)

definition parens_if :: "bool \<Rightarrow> string \<Rightarrow> string" where
  "parens_if b s = (if b then parens s else s)"

section \<open>Receivers and operands\<close>

definition receiver_bang :: "expr \<Rightarrow> emission" where
  "receiver_bang receiver =
     (case receiver of
        ERef name t _ \<Rightarrow> (if is_nullable (Some t) then bang_unless_promoted name else State_Monad.return [])
      | _ \<Rightarrow> State_Monad.return (receiver_bang_by_type receiver))"

definition emit_receiver :: "(expr \<Rightarrow> emission) \<Rightarrow> expr \<Rightarrow> emission" where
  "emit_receiver emit receiver =
     do { t \<leftarrow> emit receiver; State_Monad.return (parens_if (receiver_needs_parens receiver) t) }"

lemma emit_receiver_cong [fundef_cong]: "x = y \<Longrightarrow> f y = g y \<Longrightarrow> emit_receiver f x = emit_receiver g y"
  by (simp add: emit_receiver_def)

text \<open>A receiver with its assertion, which every access but one prints this way.\<close>

definition emit_asserted_receiver :: "(expr \<Rightarrow> emission) \<Rightarrow> expr \<Rightarrow> emission" where
  "emit_asserted_receiver emit receiver =
     do { t \<leftarrow> emit_receiver emit receiver; bang \<leftarrow> receiver_bang receiver; State_Monad.return (t @ bang) }"

lemma emit_asserted_receiver_cong [fundef_cong]:
  "x = y \<Longrightarrow> f y = g y \<Longrightarrow> emit_asserted_receiver f x = emit_asserted_receiver g y"
  by (simp add: emit_asserted_receiver_def emit_receiver_def)

definition emit_convert_operand :: "(expr \<Rightarrow> emission) \<Rightarrow> expr \<Rightarrow> emission" where
  "emit_convert_operand emit operand =
     do { t \<leftarrow> emit operand; State_Monad.return (parens_if (convert_operand_needs_parens operand) t) }"

lemma emit_convert_operand_cong [fundef_cong]:
  "x = y \<Longrightarrow> f y = g y \<Longrightarrow> emit_convert_operand f x = emit_convert_operand g y"
  by (simp add: emit_convert_operand_def)

definition emit_short_circuit_rhs :: "(expr \<Rightarrow> emission) \<Rightarrow> expr \<Rightarrow> expr \<Rightarrow> binary_op \<Rightarrow> emission" where
  "emit_short_circuit_rhs emit lhs rhs op =
     do {
       ps \<leftarrow> get_promoted;
       scoped (if op = OpAnd then ps \<union> set (and_chain_null_check_names lhs) else ps) emit rhs }"

lemma emit_short_circuit_rhs_cong [fundef_cong]:
  "l = l' \<Longrightarrow> r = r' \<Longrightarrow> op = op' \<Longrightarrow> f r' = g r' \<Longrightarrow>
    emit_short_circuit_rhs f l r op = emit_short_circuit_rhs g l' r' op'"
  by (simp add: emit_short_circuit_rhs_def scoped_def)

section \<open>Writes through a map\<close>

text \<open>
  \<^verbatim>\<open>PartialEq\<close> of expressions, derived: structural, and that of \<^verbatim>\<open>f64\<close> on literals, for which the two
  zeros are equal and a NaN is not equal to itself.
\<close>

definition f64_zero :: "64 word \<Rightarrow> bool" where
  "f64_zero v \<longleftrightarrow> v = 0 \<or> v = 0x8000000000000000"

definition f64_nan :: "64 word \<Rightarrow> bool" where
  "f64_nan v \<longleftrightarrow> (let magnitude = unat v mod 0x8000000000000000 in 0x7FF0000000000000 < magnitude)"

definition one_zero :: walker where
  "one_zero =
     \<lparr>w_type = id, w_construct = (\<lambda>_ name index. (name, index)),
      w_expr = (\<lambda>e. case e of EDoubleLiteral v og \<Rightarrow> EDoubleLiteral (if f64_zero v then 0 else v) og | _ \<Rightarrow> e)\<rparr>"

definition has_nan :: "expr \<Rightarrow> bool" where
  "has_nan e =
     list_ex (\<lambda>n. case n of NExpr (EDoubleLiteral v _) \<Rightarrow> f64_nan v | _ \<Rightarrow> False) (nodes_expr e)"

definition expr_eq :: "expr \<Rightarrow> expr \<Rightarrow> bool" where
  "expr_eq a b \<longleftrightarrow> walk_expr one_zero a = walk_expr one_zero b \<and> \<not> has_nan a"

text \<open>
  The parts of a value that reads the entry the write is to: \<^verbatim>\<open>m[k] = m[k] op rhs\<close>, a compound
  assignment written out.
\<close>

definition compound_map_write ::
  "expr \<Rightarrow> expr \<Rightarrow> expr \<Rightarrow> expr \<Rightarrow> (binary_op \<times> expr \<times> expr \<times> expr \<times> expr \<times> ty) option" where
  "compound_map_write m index default_value value =
     (case value of
        EBinary op (EMapIndexOrInsert read_map read_index read_default _ _) rhs t _ \<Rightarrow>
          if expr_eq read_map m \<and> expr_eq read_index index \<and> expr_eq read_default default_value
          then Some (op, read_map, read_index, read_default, rhs, t) else None
      | _ \<Rightarrow> None)"

lemma compound_map_write_size:
  "compound_map_write m i d v = Some (op, a, b, c, rhs, t) \<Longrightarrow>
    size a < size v \<and> size b < size v \<and> size c < size v \<and> size rhs < size v"
  by (auto simp: compound_map_write_def split: expr.splits if_splits)

definition emit_map_index_write :: "(expr \<Rightarrow> emission) \<Rightarrow> expr \<Rightarrow> expr \<Rightarrow> expr \<Rightarrow> expr \<Rightarrow> emission" where
  "emit_map_index_write emit m index default_value value =
     do {
       map_text \<leftarrow> emit_asserted_receiver emit m;
       index_text \<leftarrow> emit index;
       let lhs_text = map_text @ ''['' @ index_text @ '']'';
       (case compound_map_write m index default_value value of
          Some (op, read_map, read_index, read_default, rhs, t) \<Rightarrow> do {
            read_map_text \<leftarrow> emit_asserted_receiver emit read_map;
            read_index_text \<leftarrow> emit read_index;
            ps \<leftarrow> get_promoted;
            default_text \<leftarrow> scoped ps emit read_default;
            rhs_text \<leftarrow> emit rhs;
            State_Monad.return (lhs_text @ '' = ('' @ read_map_text @ ''['' @ read_index_text @ ''] ?? '' @
              default_text @ '') '' @ emit_binary_op op t @ '' '' @ rhs_text) }
        | None \<Rightarrow> do {
            value_text \<leftarrow> emit value;
            State_Monad.return (lhs_text @ '' = '' @ value_text) }) }"

lemma emit_map_index_write_cong [fundef_cong]:
  assumes "m = m'" "i = i'" "d = d'" "v = v'" and same: "f m' = g m'" "f i' = g i'"
    and le: "\<And>x. size x \<le> size v' \<Longrightarrow> f x = g x"
  shows "emit_map_index_write f m i d v = emit_map_index_write g m' i' d' v'"
proof (cases "compound_map_write m' i' d' v'")
  case None
  then show ?thesis
    unfolding emit_map_index_write_def emit_asserted_receiver_def emit_receiver_def assms(1-4) Let_def
    by (simp add: same le)
next
  case (Some parts)
  obtain op a b c rhs t where parts: "parts = (op, a, b, c, rhs, t)" by (cases parts) auto
  have "f a = g a" "f b = g b" "f c = g c" "f rhs = g rhs"
    using compound_map_write_size [OF Some [unfolded parts]] by (simp_all add: le)
  then show ?thesis
    unfolding emit_map_index_write_def emit_asserted_receiver_def emit_receiver_def scoped_def assms(1-4) Let_def
      Some parts
    by (simp add: same)
qed

definition emit_map_index_increment :: "(expr \<Rightarrow> emission) \<Rightarrow> expr \<Rightarrow> emission option" where
  "emit_map_index_increment emit e =
     (case e of
        EUnary op (EMapIndexOrInsert m index default_value _ _) _ _ \<Rightarrow>
          (case (case op of OpPreIncrement \<Rightarrow> Some ''+'' | OpPostIncrement \<Rightarrow> Some ''+''
                  | OpPreDecrement \<Rightarrow> Some ''-'' | OpPostDecrement \<Rightarrow> Some ''-'' | _ \<Rightarrow> None) of
             None \<Rightarrow> None
           | Some arithmetic \<Rightarrow> Some (do {
               map_text \<leftarrow> emit_asserted_receiver emit m;
               index_text \<leftarrow> emit index;
               read_map_text \<leftarrow> emit_asserted_receiver emit m;
               read_index_text \<leftarrow> emit index;
               ps \<leftarrow> get_promoted;
               default_text \<leftarrow> scoped ps emit default_value;
               State_Monad.return (map_text @ ''['' @ index_text @ ''] = ('' @ read_map_text @ ''['' @
                 read_index_text @ ''] ?? '' @ default_text @ '') '' @ arithmetic @ '' 1'') }))
      | _ \<Rightarrow> None)"

lemma emit_map_index_increment_cong [fundef_cong]:
  assumes "e = e'" and le: "\<And>x. size x \<le> size e' \<Longrightarrow> f x = g x"
  shows "emit_map_index_increment f e = emit_map_index_increment g e'"
proof -
  have "f x = g x" if "e' = EUnary op (EMapIndexOrInsert a b c t og) u ov" "x \<in> {a, b, c}" for op a b c t og u ov x
    using that by (intro le) auto
  then show ?thesis
    unfolding emit_map_index_increment_def emit_asserted_receiver_def emit_receiver_def scoped_def assms(1)
    by (auto intro!: arg_cong2 [where f = State_Monad.bind] split: expr.splits unary_op.splits)
qed

section \<open>Assignments\<close>

text \<open>
  The target a write prints: an assignment through a converted reference writes the reference, never a
  read of it with its \<^verbatim>\<open>!\<close>.
\<close>

definition write_target :: "expr \<Rightarrow> expr" where
  "write_target target =
     (case target of
        EConvert operand _ _ \<Rightarrow> if is_assignable_lvalue operand then operand else target
      | _ \<Rightarrow> target)"

lemma size_write_target [termination_simp]: "size (write_target target) \<le> size target"
  by (cases target) (auto simp: write_target_def)

definition demote_target :: "expr \<Rightarrow> (emit_state, unit) state" where
  "demote_target target = demote (set (case assign_target_name target of None \<Rightarrow> [] | Some name \<Rightarrow> [name]))"

text \<open>The three arms of \<^verbatim>\<open>Stmt::ExprAssign\<close>, which statements and \<^verbatim>\<open>for\<close> clauses share.\<close>

definition emit_expr_assign :: "(expr \<Rightarrow> emission) \<Rightarrow> expr \<Rightarrow> expr \<Rightarrow> emission" where
  "emit_expr_assign emit target value =
     (case target of
        EMapIndexOrInsert m index default_value _ _ \<Rightarrow> emit_map_index_write emit m index default_value value
      | _ \<Rightarrow> do {
          target_text \<leftarrow> emit (write_target target);
          value_text \<leftarrow> emit value;
          demote_target (write_target target);
          State_Monad.return (target_text @ '' = '' @ value_text) })"

lemma emit_expr_assign_cong [fundef_cong]:
  assumes "t = t'" "v = v'" and le: "\<And>x. size x \<le> size t' \<Longrightarrow> f x = g x" "\<And>x. size x \<le> size v' \<Longrightarrow> f x = g x"
  shows "emit_expr_assign f t v = emit_expr_assign g t' v'"
proof -
  have "emit_map_index_write f a b c v' = emit_map_index_write g a b c v'"
    if "t' = EMapIndexOrInsert a b c u og" for a b c u og
    by (rule emit_map_index_write_cong) (use that in \<open>auto intro: le\<close>)
  moreover have parts: "f (write_target t') = g (write_target t')" "f v' = g v'"
    by (auto intro: le size_write_target)
  ultimately show ?thesis unfolding emit_expr_assign_def assms(1,2) parts by (cases t') simp_all
qed

definition emit_expr_stmt :: "(expr \<Rightarrow> emission) \<Rightarrow> expr \<Rightarrow> emission" where
  "emit_expr_stmt emit e = (case emit_map_index_increment emit e of Some m \<Rightarrow> m | None \<Rightarrow> emit e)"

lemma emit_expr_stmt_cong [fundef_cong]:
  assumes "e = e'" and le: "\<And>x. size x \<le> size e' \<Longrightarrow> f x = g x"
  shows "emit_expr_stmt f e = emit_expr_stmt g e'"
proof -
  have "emit_map_index_increment f e' = emit_map_index_increment g e'" by (rule emit_map_index_increment_cong) (simp_all add: le)
  moreover have "f e' = g e'" by (simp add: le)
  ultimately show ?thesis by (simp only: emit_expr_stmt_def assms(1))
qed

definition emit_for_clause :: "(expr \<Rightarrow> emission) \<Rightarrow> stmt \<Rightarrow> emission" where
  "emit_for_clause emit s =
     (case s of
        SVarDecl name t (Some e) _ \<Rightarrow> do {
          init_text \<leftarrow> emit e;
          demote {name};
          State_Monad.return (emit_type t @ '' '' @ name @ '' = '' @ init_text) }
      | SVarDecl name t None _ \<Rightarrow> do {
          demote {name};
          State_Monad.return (''late '' @ emit_type t @ '' '' @ name) }
      | SAssign name value _ \<Rightarrow> do {
          value_text \<leftarrow> emit value;
          demote {name};
          State_Monad.return (name @ '' = '' @ value_text) }
      | SExprAssign target value _ \<Rightarrow> emit_expr_assign emit target value
      | SExprStmt e _ \<Rightarrow> emit_expr_stmt emit e
      | _ \<Rightarrow> do {
          use_expr_helper;
          State_Monad.return (UNSUPPORTED_HELPER_NAME @ parens (dart_string_literal
            (unsupported_message ''unexpected statement shape in a for-loop clause'' (stmt_origin s)))) })"

lemma emit_for_clause_cong [fundef_cong]:
  assumes "s = s'" and le: "\<And>x. size x < size s' \<Longrightarrow> f x = g x"
  shows "emit_for_clause f s = emit_for_clause g s'"
proof -
  have "emit_expr_assign f t v = emit_expr_assign g t v" if "s' = SExprAssign t v og" for t v og
    by (rule emit_expr_assign_cong) (use that in \<open>auto intro: le\<close>)
  moreover have "emit_expr_stmt f e = emit_expr_stmt g e" if "s' = SExprStmt e og" for e og
    by (rule emit_expr_stmt_cong) (use that in \<open>auto intro: le\<close>)
  moreover have "f v = g v" if "s' = SAssign n v og" for n v og using that by (intro le) auto
  moreover have "f v = g v" if "s' = SVarDecl n t (Some v) og" for n t v og using that by (intro le) auto
  ultimately show ?thesis
    unfolding emit_for_clause_def assms(1) by (auto split: stmt.split option.split)
qed

section \<open>Parameters and bodies\<close>

definition is_empty_list_literal :: "expr \<Rightarrow> bool" where
  "is_empty_list_literal e = (case e of EListLiteral [] _ _ \<Rightarrow> True | _ \<Rightarrow> False)"

definition format_params :: "(expr \<Rightarrow> emission) \<Rightarrow> param list \<Rightarrow> emission" where
  "format_params emit params =
     (let parts = map (\<lambda>p. emit_type (p_ty p) @ '' '' @ p_name p) (filter (\<lambda>p. p_default p = None) params);
          optional = filter (\<lambda>p. p_default p \<noteq> None) params
      in if optional = [] then State_Monad.return (str_join '', '' parts)
         else do {
           texts \<leftarrow> emit_all (\<lambda>p. do {
               default_text \<leftarrow> emit_optional (\<lambda>d.
                 if is_empty_list_literal d then State_Monad.return ''const []'' else scoped {} emit d) (p_default p);
               State_Monad.return (emit_type (p_ty p) @ '' '' @ p_name p @ '' = '' @ default_text) }) optional;
           State_Monad.return (str_join '', '' (parts @ [''['' @ str_join '', '' texts @ '']''])) })"

lemma format_params_cong [fundef_cong]:
  assumes "ps = ps'" and same: "\<And>p d. p \<in> set ps' \<Longrightarrow> p_default p = Some d \<Longrightarrow> f d = g d"
  shows "format_params f ps = format_params g ps'"
  unfolding format_params_def assms(1) Let_def
  by (intro if_cong refl bind_fundef_cong emit_all_cong emit_optional_cong scoped_cong) (auto intro: same)

lemma size_p_default [termination_simp]:
  assumes "p \<in> set ps" and "p_default p = Some d"
  shows "size d < size_list size ps"
  using assms(1)
proof (rule size_list_estimation)
  show "size d < size p" using assms(2) by (cases p) auto
qed

text \<open>A statement the IR could not represent, and the whole body it stands for.\<close>

definition emit_unsupported_stmt :: "nat \<Rightarrow> string \<Rightarrow> origin \<Rightarrow> string" where
  "emit_unsupported_stmt depth reason og =
     pad depth @ ''// TODO(syntax-bridge): '' @ reason @ newline @
     pad depth @ ''throw UnimplementedError('' @ dart_string_literal (unsupported_message reason og) @ '');'' @ newline"

definition bailout_reason :: "param list \<Rightarrow> ty option \<Rightarrow> stmt list \<Rightarrow> string option" where
  "bailout_reason params return_type body =
     or_else
       (map_option (\<lambda>spelling. ''unsupported return type: '' @ spelling) (Option.bind return_type unsupported_spelling))
       (or_else (first_unsupported_signature_param params)
         (map_option (\<lambda>spelling. ''unsupported type in expression: '' @ spelling) (first_unsupported_type_in_list body)))"

definition emit_body ::
  "(nat \<Rightarrow> stmt \<Rightarrow> emission) \<Rightarrow> param list \<Rightarrow> ty option \<Rightarrow> stmt list \<Rightarrow> origin \<Rightarrow> nat \<Rightarrow> emission" where
  "emit_body emit params return_type body og depth =
     (let signature_bailout = map_option (\<lambda>reason. SUnsupported reason og) (bailout_reason params return_type body)
      in do {
        ps \<leftarrow> get_promoted;
        set_promoted {};
        source \<leftarrow> (case or_else signature_bailout (first_unsupported_in_list body) of
            Some (SUnsupported reason where_at) \<Rightarrow> State_Monad.return (emit_unsupported_stmt depth reason where_at)
          | _ \<Rightarrow> do { texts \<leftarrow> emit_all (emit depth) body; State_Monad.return (concat texts) });
        set_promoted ps;
        State_Monad.return source })"

lemma emit_body_cong [fundef_cong]:
  assumes "ps = ps'" "r = r'" "ss = ss'" "og = og'" "depth = depth'"
    and same: "\<And>s. s \<in> set ss' \<Longrightarrow> f depth' s = g depth' s"
  shows "emit_body f ps r ss og depth = emit_body g ps' r' ss' og' depth'"
proof -
  have all: "emit_all (f depth') ss' = emit_all (g depth') ss'" by (rule emit_all_cong) (simp_all add: same)
  show ?thesis unfolding emit_body_def assms(1-5) all by (rule refl)
qed

text \<open>A block that may not run: what it learns of promoted names is dropped.\<close>

definition emit_scoped_block :: "(nat \<Rightarrow> stmt \<Rightarrow> emission) \<Rightarrow> stmt list \<Rightarrow> nat \<Rightarrow> promoted_names \<Rightarrow> emission" where
  "emit_scoped_block emit stmts depth scope =
     scoped scope (\<lambda>ss. do { texts \<leftarrow> emit_all (emit depth) ss; State_Monad.return (concat texts) }) stmts"

lemma emit_scoped_block_cong [fundef_cong]:
  assumes "ss = ss'" "depth = depth'" "scope = scope'"
    and same: "\<And>s. s \<in> set ss' \<Longrightarrow> f depth' s = g depth' s"
  shows "emit_scoped_block f ss depth scope = emit_scoped_block g ss' depth' scope'"
proof -
  have "emit_all (f depth') ss' = emit_all (g depth') ss'" by (rule emit_all_cong) (simp_all add: same)
  then show ?thesis unfolding emit_scoped_block_def scoped_def assms(1-3) by simp
qed

section \<open>Expressions and statements\<close>

definition is_enum :: "ty option \<Rightarrow> bool" where
  "is_enum t = (case t of Some (TEnum _ _) \<Rightarrow> True | _ \<Rightarrow> False)"

definition is_conditional :: "expr \<Rightarrow> bool" where
  "is_conditional e = (case e of EConditional _ _ _ _ _ \<Rightarrow> True | _ \<Rightarrow> False)"

definition is_this_expr :: "expr \<Rightarrow> bool" where
  "is_this_expr e = (case e of EThis _ _ \<Rightarrow> True | _ \<Rightarrow> False)"

definition unary_operand_needs_parens :: "unary_op \<Rightarrow> expr \<Rightarrow> string \<Rightarrow> bool" where
  "unary_operand_needs_parens op operand operand_text \<longleftrightarrow>
     op = OpNot \<or> str_starts_with operand_text (emit_unary_op op) \<or>
     (case operand of EBinary _ _ _ _ _ \<Rightarrow> True | EConditional _ _ _ _ _ \<Rightarrow> True | _ \<Rightarrow> False) \<or>
     convert_shape_of operand \<noteq> ShapeSimple"

text \<open>The value of a body that only returns one.\<close>

definition returned_value :: "stmt list \<Rightarrow> expr option" where
  "returned_value body = (case body of [SReturn (Some value) _] \<Rightarrow> Some value | _ \<Rightarrow> None)"

lemma size_returned_value [termination_simp]: "returned_value body = Some v \<Longrightarrow> size v < size_list size body"
  by (auto simp: returned_value_def split: list.splits stmt.splits option.splits)

definition list_element_ty :: "ty \<Rightarrow> ty" where
  "list_element_ty t = (case t of TList e \<Rightarrow> e | _ \<Rightarrow> t)"

definition map_entry_tys :: "ty \<Rightarrow> ty \<times> ty" where
  "map_entry_tys t = (case t of TMap k v \<Rightarrow> (k, v) | _ \<Rightarrow> (t, t))"

definition tuple_text :: "string list \<Rightarrow> string" where
  "tuple_text texts = (case texts of [t] \<Rightarrow> ''('' @ t @ '',)'' | _ \<Rightarrow> parens (str_join '', '' texts))"

function emit_expr :: "rust_std \<Rightarrow> expr \<Rightarrow> emission"
  and emit_stmt :: "rust_std \<Rightarrow> nat \<Rightarrow> stmt \<Rightarrow> emission" where
  "emit_expr R e =
     (case e of
        EIntLiteral v _ \<Rightarrow> State_Monad.return (show_int (sint v))
      | EDoubleLiteral v _ \<Rightarrow> State_Monad.return (std_show_f64 R v)
      | EBoolLiteral v _ \<Rightarrow> State_Monad.return (if v then ''true'' else ''false'')
      | ENullLiteral _ \<Rightarrow> State_Monad.return ''null''
      | EStringLiteral v _ \<Rightarrow> State_Monad.return (dart_string_literal v)
      | ERef name _ _ \<Rightarrow> State_Monad.return name
      | EBinary op lhs rhs t _ \<Rightarrow> do {
          lhs_text \<leftarrow> emit_expr R lhs;
          rhs_text \<leftarrow> (if op = OpAnd \<or> op = OpOr then emit_short_circuit_rhs (emit_expr R) lhs rhs op
                       else emit_expr R rhs);
          State_Monad.return (parens_if (binary_child_needs_parens op lhs False) lhs_text @ '' '' @
            emit_binary_op op t @ '' '' @ parens_if (binary_child_needs_parens op rhs True) rhs_text) }
      | EConditional condition then_expr else_expr _ _ \<Rightarrow> do {
          condition_text \<leftarrow> emit_expr R condition;
          ps \<leftarrow> get_promoted;
          then_text \<leftarrow> scoped (ps \<union> set (and_chain_null_check_names condition)) (emit_expr R) then_expr;
          else_text \<leftarrow> scoped (ps \<union> set_option (ref_null_check_name condition OpEq)) (emit_expr R) else_expr;
          State_Monad.return (condition_text @ '' ? '' @ then_text @ '' : '' @ else_text) }
      | EUnary op operand _ _ \<Rightarrow> do {
          operand_text \<leftarrow> emit_expr R operand;
          State_Monad.return
            (if op = OpPostIncrement \<or> op = OpPostDecrement then operand_text @ emit_unary_op op
             else emit_unary_op op @ parens_if (unary_operand_needs_parens op operand operand_text) operand_text) }
      | ELambda params body _ og \<Rightarrow> do {
          params_text \<leftarrow> format_params (emit_expr R) params;
          (case returned_value body of
             Some value \<Rightarrow> do {
               value_text \<leftarrow> scoped {} (emit_expr R) value;
               State_Monad.return (parens params_text @ '' => '' @ value_text) }
           | None \<Rightarrow> do {
               body_text \<leftarrow> emit_body (emit_stmt R) params None body og 1;
               State_Monad.return (parens params_text @ '' {'' @ newline @ body_text @ ''}'') }) }
      | EConvert operand t _ \<Rightarrow>
          if asserts_not_null operand t then do {
            operand_text \<leftarrow> emit_convert_operand (emit_expr R) operand;
            bang \<leftarrow> (case operand of
                ERef name (TNullable _) _ \<Rightarrow> bang_unless_promoted name
              | _ \<Rightarrow> State_Monad.return ''!'');
            State_Monad.return (operand_text @ bang) }
          else (case t of
              TDouble \<Rightarrow> do {
                text' \<leftarrow> emit_convert_operand (emit_expr R) operand;
                State_Monad.return (text' @ ''.toDouble()'') }
            | TInt \<Rightarrow>
                if expr_ty operand = Some TBool then do {
                  text' \<leftarrow> emit_expr R operand;
                  State_Monad.return
                    (parens_if (is_conditional operand \<or> convert_shape_of operand = ShapeTernary) text' @ '' ? 1 : 0'') }
                else if is_enum (expr_ty operand) then do {
                  text' \<leftarrow> emit_convert_operand (emit_expr R) operand;
                  State_Monad.return (text' @ ''.value'') }
                else do {
                  text' \<leftarrow> emit_convert_operand (emit_expr R) operand;
                  State_Monad.return (text' @ ''.toInt()'') }
            | TBool \<Rightarrow> do {
                text' \<leftarrow> emit_expr R operand;
                State_Monad.return (parens_if (binary_child_needs_parens OpNe operand False) text' @ '' != '' @
                  (if is_nullable (expr_ty operand) then ''null'' else ''0'')) }
            | TNullable _ \<Rightarrow> emit_expr R operand
            | _ \<Rightarrow>
                if is_this_expr operand then emit_expr R operand
                else if is_nullable (expr_ty operand) then do {
                  text' \<leftarrow> emit_convert_operand (emit_expr R) operand;
                  State_Monad.return (text' @ ''!'') }
                else emit_panic)
      | ECall target base_qualifier _ callee_name args _ _ \<Rightarrow> do {
          (if str_starts_with callee_name ''utf8.'' then use_utf8_encode else State_Monad.return ());
          receiver_prefix \<leftarrow>
            (if base_qualifier \<noteq> None then State_Monad.return ''super.''
             else (case target of
                 None \<Rightarrow> State_Monad.return []
               | Some receiver \<Rightarrow>
                   if is_this_expr receiver then State_Monad.return []
                   else do {
                     receiver_text \<leftarrow> emit_asserted_receiver (emit_expr R) receiver;
                     State_Monad.return (receiver_text @ ''.'') }));
          args_texts \<leftarrow> emit_all (emit_expr R) args;
          State_Monad.return (receiver_prefix @ callee_name @ parens (str_join '', '' args_texts)) }
      | EFieldAccess target field t _ \<Rightarrow>
          if is_this_expr target then State_Monad.return field
          else do {
            target_text \<leftarrow> emit_receiver (emit_expr R) target;
            if is_nullable (Some t) \<and> is_nullable (expr_ty target)
            then State_Monad.return (target_text @ ''?.'' @ field)
            else do {
              bang \<leftarrow> receiver_bang target;
              State_Monad.return (target_text @ bang @ ''.'' @ field) } }
      | ERecordConstruct _ type_name fs _ \<Rightarrow> do {
          args_texts \<leftarrow> emit_all (\<lambda>(name, value). emit_expr R value) fs;
          State_Monad.return (type_name @ parens (str_join '', '' args_texts)) }
      | ERecordCopy target _ type_name _ \<Rightarrow> do {
          target_text \<leftarrow> emit_expr R target;
          State_Monad.return (type_name @ ''.syntaxBridgeCopyOf'' @ parens target_text) }
      | EConstructorCall _ type_name index args _ \<Rightarrow> do {
          args_texts \<leftarrow> emit_all (emit_expr R) args;
          State_Monad.return (dart_constructor_name type_name index @ parens (str_join '', '' args_texts)) }
      | EThis _ _ \<Rightarrow> State_Monad.return ''this''
      | EIndex target index _ _ \<Rightarrow> do {
          target_text \<leftarrow> emit_asserted_receiver (emit_expr R) target;
          index_text \<leftarrow> emit_expr R index;
          State_Monad.return (target_text @ ''['' @ index_text @ '']'') }
      | EMapIndexOrInsert target index default_value _ _ \<Rightarrow> do {
          target_text \<leftarrow> emit_asserted_receiver (emit_expr R) target;
          index_text \<leftarrow> emit_expr R index;
          ps \<leftarrow> get_promoted;
          default_text \<leftarrow> scoped ps (emit_expr R) default_value;
          State_Monad.return (target_text @ ''.putIfAbsent'' @ parens (index_text @ '', () => '' @ default_text)) }
      | EStringByteLength target _ \<Rightarrow> do {
          use_utf8_encode;
          target_text \<leftarrow> emit_expr R target;
          State_Monad.return (''utf8.encode'' @ parens target_text @ ''.length'') }
      | EStringByteIndexOf target needle from_expr _ \<Rightarrow> do {
          target_text \<leftarrow> emit_expr R target;
          needle_text \<leftarrow> emit_expr R needle;
          from_suffix \<leftarrow> emit_optional (\<lambda>e. do {
            from_text \<leftarrow> emit_expr R e;
            State_Monad.return ('', '' @ from_text) }) from_expr;
          let is_byte = (expr_ty needle = Some TInt \<or> (case needle of EIntLiteral _ _ \<Rightarrow> True | _ \<Rightarrow> False));
          State_Monad.return ((if is_byte then INDEX_OF_BYTE_HELPER_NAME else INDEX_OF_BYTES_HELPER_NAME) @
            parens (target_text @ '', '' @ needle_text @ from_suffix)) }
      | EStringByteAt target index _ _ \<Rightarrow> do {
          use_utf8_encode;
          target_text \<leftarrow> emit_expr R target;
          index_text \<leftarrow> emit_expr R index;
          State_Monad.return (''utf8.encode'' @ parens target_text @ ''['' @ index_text @ '']'') }
      | EListLiteral items t _ \<Rightarrow> do {
          texts \<leftarrow> emit_all (emit_expr R) items;
          State_Monad.return (''<'' @ emit_type (list_element_ty t) @ ''>['' @ str_join '', '' texts @ '']'') }
      | EMapLiteral entries t _ \<Rightarrow> do {
          texts \<leftarrow> emit_all (\<lambda>(key, value). do {
            key_text \<leftarrow> emit_expr R key;
            value_text \<leftarrow> emit_expr R value;
            State_Monad.return (key_text @ '': '' @ value_text) }) entries;
          State_Monad.return (''<'' @ emit_type (fst (map_entry_tys t)) @ '', '' @ emit_type (snd (map_entry_tys t)) @
            ''>{'' @ str_join '', '' texts @ ''}'') }
      | EIs operand target_type _ \<Rightarrow> do {
          operand_text \<leftarrow> emit_expr R operand;
          State_Monad.return (operand_text @ '' is '' @ emit_type target_type) }
      | EAs operand t _ \<Rightarrow> do {
          operand_text \<leftarrow> emit_expr R operand;
          State_Monad.return (parens (operand_text @ '' as '' @ emit_type t)) }
      | EAssign target value _ _ \<Rightarrow> do {
          target_text \<leftarrow> emit_expr R target;
          value_text \<leftarrow> emit_expr R value;
          demote_target target;
          State_Monad.return (parens (target_text @ '' = '' @ value_text)) }
      | ENamedArg name value \<Rightarrow> do {
          value_text \<leftarrow> emit_expr R value;
          State_Monad.return (name @ '': '' @ value_text) }
      | ETuple values _ \<Rightarrow> do {
          texts \<leftarrow> emit_all (emit_expr R) values;
          State_Monad.return (tuple_text texts) }
      | EUnsupported reason og \<Rightarrow> do {
          use_expr_helper;
          State_Monad.return (UNSUPPORTED_HELPER_NAME @ ''<'' @ OPAQUE_TYPE_NAME @ ''>'' @
            parens (dart_string_literal (unsupported_message reason og))) }
      | EUnsupportedTyped reason t og \<Rightarrow> do {
          use_expr_helper;
          State_Monad.return (UNSUPPORTED_HELPER_NAME @ ''<'' @ emit_type t @ ''>'' @
            parens (dart_string_literal (unsupported_message reason og))) })"
| "emit_stmt R depth s =
     (case s of
        SReturn value _ \<Rightarrow>
          (case value of
             Some e \<Rightarrow> do {
               value_text \<leftarrow> emit_expr R e;
               State_Monad.return (pad depth @ ''return '' @ value_text @ '';'' @ newline) }
           | None \<Rightarrow> State_Monad.return (pad depth @ ''return;'' @ newline))
      | SVarDecl name t init _ \<Rightarrow>
          (case init of
             Some e \<Rightarrow> do {
               init_text \<leftarrow> emit_expr R e;
               demote {name};
               State_Monad.return (pad depth @ emit_type t @ '' '' @ name @ '' = '' @ init_text @ '';'' @ newline) }
           | None \<Rightarrow> do {
               demote {name};
               State_Monad.return (pad depth @ (if is_nullable (Some t) then [] else ''late '') @ emit_type t @ '' '' @
                 name @ '';'' @ newline) })
      | SAssign name value _ \<Rightarrow> do {
          value_text \<leftarrow> emit_expr R value;
          demote {name};
          State_Monad.return (pad depth @ name @ '' = '' @ value_text @ '';'' @ newline) }
      | SFieldAssign target field value _ \<Rightarrow>
          if is_this_expr target then do {
            value_text \<leftarrow> emit_expr R value;
            State_Monad.return (pad depth @ field @ '' = '' @ value_text @ '';'' @ newline) }
          else do {
            target_text \<leftarrow> emit_asserted_receiver (emit_expr R) target;
            value_text \<leftarrow> emit_expr R value;
            State_Monad.return (pad depth @ target_text @ ''.'' @ field @ '' = '' @ value_text @ '';'' @ newline) }
      | SExprAssign target value _ \<Rightarrow> do {
          assignment \<leftarrow> emit_expr_assign (emit_expr R) target value;
          State_Monad.return (pad depth @ assignment @ '';'' @ newline) }
      | SIf condition then_branch else_branch _ \<Rightarrow> do {
          condition_text \<leftarrow> emit_expr R condition;
          ps \<leftarrow> get_promoted;
          then_text \<leftarrow> emit_scoped_block (emit_stmt R) then_branch (depth + 1)
            (ps \<union> set (and_chain_null_check_names condition));
          else_text \<leftarrow>
            (if else_branch = [] then State_Monad.return (pad depth @ ''}'' @ newline)
             else do {
               body_text \<leftarrow> emit_scoped_block (emit_stmt R) else_branch (depth + 1)
                 (ps \<union> set (or_chain_null_check_names_when_false condition));
               State_Monad.return (pad depth @ ''} else {'' @ newline @ body_text @ pad depth @ ''}'' @ newline) });
          demote (assigned_names then_branch \<union> assigned_names else_branch);
          ps \<leftarrow> get_promoted;
          set_promoted (if branch_always_exits then_branch
            then ps \<union> set (or_chain_null_check_names_when_false condition) else ps);
          State_Monad.return (pad depth @ ''if '' @ parens condition_text @ '' {'' @ newline @ then_text @ else_text) }
      | SDoWhile body condition _ \<Rightarrow> do {
          ps \<leftarrow> get_promoted;
          set_promoted (loop_scoped_promoted ps body);
          body_texts \<leftarrow> emit_all (emit_stmt R (depth + 1)) body;
          condition_text \<leftarrow> emit_expr R condition;
          set_promoted ps;
          State_Monad.return (pad depth @ ''do {'' @ newline @ concat body_texts @ pad depth @ ''} while '' @
            parens condition_text @ '';'' @ newline) }
      | SForEach name t is_final write_back iterable body _ \<Rightarrow> do {
          iterable_text \<leftarrow> emit_expr R iterable;
          ps \<leftarrow> get_promoted;
          if write_back then do {
            body_text \<leftarrow> emit_scoped_block (emit_stmt R) body (depth + 2) (loop_scoped_promoted ps body);
            State_Monad.return
              (pad depth @ ''final _syntaxBridgeIterable = '' @ iterable_text @ '';'' @ newline @
               pad depth @ ''for (int _syntaxBridgeIndex = 0; _syntaxBridgeIndex < _syntaxBridgeIterable.length; '' @
                 ''++_syntaxBridgeIndex) {'' @ newline @
               pad depth @ INDENT @ emit_type t @ '' '' @ name @ '' = _syntaxBridgeIterable[_syntaxBridgeIndex];'' @ newline @
               pad depth @ INDENT @ ''try {'' @ newline @
               body_text @
               pad depth @ INDENT @ ''} finally {'' @ newline @
               pad depth @ INDENT @ INDENT @ ''_syntaxBridgeIterable[_syntaxBridgeIndex] = '' @ name @ '';'' @ newline @
               pad depth @ INDENT @ ''}'' @ newline @
               pad depth @ ''}'' @ newline) }
          else do {
            body_text \<leftarrow> emit_scoped_block (emit_stmt R) body (depth + 1) (loop_scoped_promoted ps body);
            State_Monad.return
              (pad depth @ ''for ('' @ (if is_final then ''final '' else []) @ foreach_binding_type_text t iterable @
                 '' '' @ name @ '' in '' @ iterable_text @ '') {'' @ newline @
               body_text @ pad depth @ ''}'' @ newline) } }
      | SWhile condition body _ \<Rightarrow> do {
          ps \<leftarrow> get_promoted;
          set_promoted (loop_scoped_promoted ps body);
          condition_text \<leftarrow> emit_expr R condition;
          qs \<leftarrow> get_promoted;
          set_promoted (qs \<union> set_option (ref_null_check_name condition OpNe));
          body_texts \<leftarrow> emit_all (emit_stmt R (depth + 1)) body;
          set_promoted ps;
          State_Monad.return (pad depth @ ''while '' @ parens condition_text @ '' {'' @ newline @ concat body_texts @
            pad depth @ ''}'' @ newline) }
      | SFor init condition increment body _ \<Rightarrow> do {
          ps \<leftarrow> get_promoted;
          set_promoted (loop_scoped_promoted ps body -
            (case increment of None \<Rightarrow> {} | Some n \<Rightarrow> assigned_names [n]));
          init_text \<leftarrow> emit_optional (emit_for_clause (emit_expr R)) init;
          condition_text \<leftarrow> emit_optional (emit_expr R) condition;
          increment_text \<leftarrow> emit_optional (emit_for_clause (emit_expr R)) increment;
          body_texts \<leftarrow> emit_all (emit_stmt R (depth + 1)) body;
          set_promoted ps;
          State_Monad.return (pad depth @ ''for '' @ parens (init_text @ ''; '' @ condition_text @ ''; '' @ increment_text) @
            '' {'' @ newline @ concat body_texts @ pad depth @ ''}'' @ newline) }
      | SBreak _ \<Rightarrow> State_Monad.return (pad depth @ ''break;'' @ newline)
      | SContinue _ \<Rightarrow> State_Monad.return (pad depth @ ''continue;'' @ newline)
      | SContinueLabel label _ \<Rightarrow> State_Monad.return (pad depth @ ''continue '' @ label @ '';'' @ newline)
      | SExprStmt e _ \<Rightarrow> do {
          text' \<leftarrow> emit_expr_stmt (emit_expr R) e;
          State_Monad.return (pad depth @ text' @ '';'' @ newline) }
      | SThrow value _ \<Rightarrow> do {
          value_text \<leftarrow> emit_expr R value;
          State_Monad.return (pad depth @ ''throw '' @ value_text @ '';'' @ newline) }
      | STryCatch try_body catch_type catch_var catch_body _ \<Rightarrow> do {
          ps \<leftarrow> get_promoted;
          try_text \<leftarrow> emit_scoped_block (emit_stmt R) try_body (depth + 1) ps;
          catch_text \<leftarrow> emit_scoped_block (emit_stmt R) catch_body (depth + 1) ps;
          State_Monad.return (pad depth @ ''try {'' @ newline @ try_text @ pad depth @ ''} on '' @ emit_type catch_type @
            '' catch '' @ parens catch_var @ '' {'' @ newline @ catch_text @ pad depth @ ''}'' @ newline) }
      | STryFinally try_body finally_body _ \<Rightarrow> do {
          ps \<leftarrow> get_promoted;
          try_text \<leftarrow> emit_scoped_block (emit_stmt R) try_body (depth + 1) ps;
          finally_text \<leftarrow> emit_scoped_block (emit_stmt R) finally_body (depth + 1) ps;
          State_Monad.return (pad depth @ ''try {'' @ newline @ try_text @ pad depth @ ''} finally {'' @ newline @
            finally_text @ pad depth @ ''}'' @ newline) }
      | STupleAssign targets value _ \<Rightarrow>
          if tuple_assign_needs_temp_block targets then do {
            value_text \<leftarrow> emit_expr R value;
            texts \<leftarrow> emit_all (\<lambda>target.
              if is_tuple_assign_discard target then State_Monad.return [] else emit_expr R target) targets;
            demote (set (filter_map assign_target_name targets));
            State_Monad.return
              (pad depth @ ''{'' @ newline @
               pad depth @ INDENT @ ''final '' @ TUPLE_ASSIGN_TEMP @ '' = '' @ value_text @ '';'' @ newline @
               concat (map (\<lambda>(index, target, target_text).
                 if is_tuple_assign_discard target then []
                 else pad depth @ INDENT @ target_text @ '' = '' @ TUPLE_ASSIGN_TEMP @ ''.$'' @ show_nat (index + 1) @
                   '';'' @ newline) (enumerate 0 (zip targets texts))) @
               pad depth @ ''}'' @ newline) }
          else do {
            value_text \<leftarrow> emit_expr R value;
            texts \<leftarrow> emit_all (emit_expr R) targets;
            demote (set (filter_map assign_target_name targets));
            State_Monad.return (pad depth @ tuple_text texts @ '' = '' @ value_text @ '';'' @ newline) }
      | SSwitch scrutinee cases default_body _ \<Rightarrow> do {
          scrutinee_text \<leftarrow> emit_expr R scrutinee;
          case_texts \<leftarrow> emit_all (\<lambda>c. case c of SwitchCase values body label \<Rightarrow> do {
            value_texts \<leftarrow> emit_all (emit_expr R) values;
            ps \<leftarrow> get_promoted;
            body_text \<leftarrow> emit_scoped_block (emit_stmt R) body (depth + 2) ps;
            State_Monad.return
              ((case label of None \<Rightarrow> [] | Some l \<Rightarrow> pad (depth + 1) @ l @ '':'' @ newline) @
               concat (map (\<lambda>v. pad (depth + 1) @ ''case '' @ v @ '':'' @ newline) value_texts) @ body_text) }) cases;
          default_text \<leftarrow> emit_optional (\<lambda>body. do {
            ps \<leftarrow> get_promoted;
            body_text \<leftarrow> emit_scoped_block (emit_stmt R) body (depth + 2) ps;
            State_Monad.return (pad (depth + 1) @ ''default:'' @ newline @ body_text) }) default_body;
          State_Monad.return (pad depth @ ''switch '' @ parens scrutinee_text @ '' {'' @ newline @ concat case_texts @
            default_text @ pad depth @ ''}'' @ newline) }
      | SUnsupported reason og \<Rightarrow> State_Monad.return (emit_unsupported_stmt depth reason og))"
  by pat_completeness auto
termination by lexicographic_order

declare emit_expr.simps [simp del] emit_stmt.simps [simp del]

end
