(* ===== verification/Dart_Copy.thy ===== *)
theory Dart_Copy
  imports Dart_Scan Mixin_Forms
begin

text \<open>
  Copies by value, of \<^verbatim>\<open>crates/server/src/emit/dart.rs\<close>: which records can declare the named copy
  constructor (\<open>record_copy_blocker\<close>), its text (\<open>emit_copy_constructor\<close>), and the pass that replaces the
  copies of every other record before anything is printed (\<open>rewrite_non_copyable_record_copies\<close>).
\<close>

section \<open>Which records can be copied\<close>

text \<open>The reasons the code gives, in Portuguese.\<close>

definition blocked_as_mixin :: "string" where
  "blocked_as_mixin =
     (''emitido como mixin, n'' @ [CHR 0xC3, CHR 0xA3] @ ''o pode declarar construtor de c'' @
     [CHR 0xC3, CHR 0xB3] @ ''pia'')"

definition base_missing_text :: "base_class \<Rightarrow> string" where
  "base_missing_text b =
     (''a base `'' @ bc_name b @ ''` n'' @ [CHR 0xC3, CHR 0xA3] @ ''o est'' @ [CHR 0xC3, CHR 0xA1] @
     '' no m'' @ [CHR 0xC3, CHR 0xB3] @ ''dulo, n'' @ [CHR 0xC3, CHR 0xA3] @ ''o h'' @ [CHR 0xC3, CHR 0xA1] @
     '' como copiar seus campos'')"

definition base_blocked_text :: "base_class \<Rightarrow> string \<Rightarrow> string" where
  "base_blocked_text b blocker =
     (''a base `'' @ bc_name b @ ''` n'' @ [CHR 0xC3, CHR 0xA3] @ ''o '' @ [CHR 0xC3, CHR 0xA9] @ '' copi'' @
     [CHR 0xC3, CHR 0xA1] @ ''vel: '' @ blocker)"

definition mixin_missing_text :: "base_class \<Rightarrow> string" where
  "mixin_missing_text b =
     (''o mixin `'' @ bc_name b @ ''` n'' @ [CHR 0xC3, CHR 0xA3] @ ''o est'' @ [CHR 0xC3, CHR 0xA1] @
     '' no m'' @ [CHR 0xC3, CHR 0xB3] @ ''dulo, seus campos n'' @ [CHR 0xC3, CHR 0xA3] @
     ''o podem ser copiados'')"

definition private_field_text :: "base_class \<Rightarrow> ir_field \<Rightarrow> string" where
  "private_field_text b f =
     (''o mixin `'' @ bc_name b @ ''` declara o campo privado `'' @ fl_name f @
     ''`, que outra biblioteca Dart n'' @ [CHR 0xC3, CHR 0xA3] @ ''o pode ler'')"

definition blocked_copy_text :: "string \<Rightarrow> string \<Rightarrow> string" where
  "blocked_copy_text name blocker =
     (''c'' @ [CHR 0xC3, CHR 0xB3] @ ''pia por valor de '' @ name @ '' n'' @ [CHR 0xC3, CHR 0xA3] @
     ''o copi'' @ [CHR 0xC3, CHR 0xA1] @ ''vel: '' @ blocker)"

type_synonym copy_verdicts = "(string \<times> string option) list"

definition has_ctor_inits :: "ir_record \<Rightarrow> bool" where
  "has_ctor_inits r = list_ex (\<lambda>c. c_inits c \<noteq> []) (r_constructors r)"

text \<open>A record printed as \<^verbatim>\<open>mixin\<close>: used as one, and no constructor has initializers.\<close>

definition effective_is_mixin :: "string set \<Rightarrow> ir_record \<Rightarrow> bool" where
  "effective_is_mixin mixins r \<longleftrightarrow> r_usr r \<in> mixins \<and> \<not> has_ctor_inits r"

text \<open>The \<^verbatim>\<open>extends\<close> chain above a record, up to a base the module does not have or has met.\<close>

function extends_chain_from :: "record_index \<Rightarrow> base_class option \<Rightarrow> string set \<Rightarrow> string set" where
  "extends_chain_from ix cursor chain =
     (case cursor of
        None \<Rightarrow> chain
      | Some b \<Rightarrow>
          if bc_usr b \<in> chain then chain
          else extends_chain_from ix (Option.bind (map_of ix (bc_usr b)) r_base_class) (insert (bc_usr b) chain))"
  by pat_completeness auto
termination
proof (relation "measure (\<lambda>(ix, cursor, chain).
    card (fst ` set ix - chain) + (case cursor of None \<Rightarrow> 0 | Some _ \<Rightarrow> 1))", goal_cases)
  case (2 ix cursor chain b)
  show ?case
  proof (cases "map_of ix (bc_usr b)")
    case None
    then have "fst ` set ix - insert (bc_usr b) chain = fst ` set ix - chain" by (auto simp: map_of_eq_None_iff)
    with None 2 show ?thesis by simp
  next
    case (Some r)
    then have "bc_usr b \<in> fst ` set ix" using map_of_SomeD by force
    then have "card (fst ` set ix - insert (bc_usr b) chain) < card (fst ` set ix - chain)"
      using 2 by (intro psubset_card_mono) auto
    then show ?thesis using 2 by (simp split: option.split)
  qed
qed simp

declare extends_chain_from.simps [simp del]

definition extends_chain :: "record_index \<Rightarrow> ir_record \<Rightarrow> string set" where
  "extends_chain ix r = extends_chain_from ix (r_base_class r) {}"

text \<open>The mixins of the \<^verbatim>\<open>with\<close> clause whose fields no \<^verbatim>\<open>super\<close> call copies.\<close>

definition copied_mixins :: "record_index \<Rightarrow> ir_record \<Rightarrow> base_class list" where
  "copied_mixins ix r =
     filter (\<lambda>b. bc_usr b \<notin> extends_chain ix r) (expand_mixin_chain (r_mixins r) ix)"

definition is_private_name :: "string \<Rightarrow> bool" where
  "is_private_name name = str_starts_with name ''_''"

definition mixin_copy_blocker :: "record_index \<Rightarrow> base_class \<Rightarrow> string option" where
  "mixin_copy_blocker ix b =
     (case map_of ix (bc_usr b) of
        None \<Rightarrow> Some (mixin_missing_text b)
      | Some m \<Rightarrow>
          (case List.find (\<lambda>f. is_private_name (fl_name f)) (r_fields m) of
             Some f \<Rightarrow> Some (private_field_text b f)
           | None \<Rightarrow> None))"

function record_copy_blocker :: "record_index \<Rightarrow> string set \<Rightarrow> string set \<Rightarrow> ir_record \<Rightarrow> string option" where
  "record_copy_blocker ix mixins visiting r =
     (if r_usr r \<in> visiting then None
      else if effective_is_mixin mixins r then Some blocked_as_mixin
      else or_else
        (case r_base_class r of
           None \<Rightarrow> None
         | Some b \<Rightarrow>
             (case map_of ix (bc_usr b) of
                None \<Rightarrow> Some (base_missing_text b)
              | Some base \<Rightarrow>
                  map_option (base_blocked_text b)
                    (record_copy_blocker ix mixins (insert (r_usr r) visiting) base)))
        (find_map (mixin_copy_blocker ix) (copied_mixins ix r)))"
  by pat_completeness auto
termination
proof (relation "measures [\<lambda>(ix, mixins, visiting, r). card (r_usr ` snd ` set ix - visiting),
    \<lambda>(ix, mixins, visiting, r). if r \<in> snd ` set ix then 0 else 1]", goal_cases)
  case (2 ix mixins visiting r b base)
  then have base: "base \<in> snd ` set ix" using map_of_SomeD by force
  have "card (r_usr ` snd ` set ix - insert (r_usr r) visiting) \<le> card (r_usr ` snd ` set ix - visiting)"
    by (intro card_mono) auto
  moreover have "card (r_usr ` snd ` set ix - insert (r_usr r) visiting) < card (r_usr ` snd ` set ix - visiting)"
    if "r \<in> snd ` set ix"
    using 2(1) that by (intro psubset_card_mono) auto
  ultimately show ?case using base by auto
qed simp

declare record_copy_blocker.simps [simp del]

text \<open>The verdicts the emitter and the rewriting compute, one after the other, for every record.\<close>

definition copy_reasons :: "ir_record list \<Rightarrow> copy_verdicts" where
  "copy_reasons rs =
     fold (\<lambda>r. hm_put (r_usr r) (record_copy_blocker (records_by_usr rs) (mixin_usrs rs) {} r)) rs []"

section \<open>The copy constructor\<close>

definition collection_copy :: "ty \<Rightarrow> string \<Rightarrow> string" where
  "collection_copy t name =
     (case t of
        TList _ \<Rightarrow> ''List.of(other.'' @ name @ '')''
      | TSet _ \<Rightarrow> ''Set.of(other.'' @ name @ '')''
      | TMap _ _ \<Rightarrow> ''Map.of(other.'' @ name @ '')''
      | TBytes \<Rightarrow> ''Uint8List.fromList(other.'' @ name @ '')''
      | _ \<Rightarrow> ''other.'' @ name)"

definition field_copy :: "copy_verdicts \<Rightarrow> ir_field \<Rightarrow> string" where
  "field_copy reasons f =
     (case fl_ty f of
        TRecord usr name \<Rightarrow>
          if map_of reasons usr = Some None then name @ ''.syntaxBridgeCopyOf(other.'' @ fl_name f @ '')''
          else ''other.'' @ fl_name f
      | t \<Rightarrow> collection_copy t (fl_name f))"

definition emit_copy_constructor :: "ir_record \<Rightarrow> record_index \<Rightarrow> copy_verdicts \<Rightarrow> string" where
  "emit_copy_constructor r ix reasons =
     (let own_inits = map (\<lambda>f. fl_name f @ '' = '' @ field_copy reasons f) (r_fields r) @
            (case r_library_base r of
               None \<Rightarrow> []
             | Some t \<Rightarrow> [library_base_field_name t @ '' = '' @ collection_copy t (library_base_field_name t)]);
          mixin_fields = concat (map (\<lambda>b. case map_of ix (bc_usr b) of None \<Rightarrow> [] | Some m \<Rightarrow> r_fields m)
            (copied_mixins ix r));
          mixin_body = concat (map (\<lambda>f. INDENT @ INDENT @ fl_name f @ '' = '' @ field_copy reasons f @ '';'' @ newline)
            mixin_fields);
          init_parts = own_inits @ (if r_base_class r \<noteq> None then [''super.syntaxBridgeCopyOf(other)''] else []);
          initializer = (if init_parts = [] then [] else '' : '' @ str_join '', '' init_parts)
      in INDENT @ r_name r @ ''.syntaxBridgeCopyOf('' @ r_name r @ '' other)'' @ initializer @ '' {'' @ newline @
         mixin_body @ INDENT @ ''}'' @ newline)"

section \<open>Replacing the copies that have no constructor\<close>

definition blocked_copy :: "copy_verdicts \<Rightarrow> expr \<Rightarrow> expr" where
  "blocked_copy reasons e =
     (case e of
        ERecordCopy _ usr name og \<Rightarrow>
          (case map_of reasons usr of
             Some (Some blocker) \<Rightarrow>
               EUnsupportedTyped (blocked_copy_text name blocker) (TRecord usr name) og
           | _ \<Rightarrow> e)
      | _ \<Rightarrow> e)"

definition copy_walker :: "copy_verdicts \<Rightarrow> walker" where
  "copy_walker reasons =
     \<lparr>w_type = id, w_construct = (\<lambda>_ name index. (name, index)), w_expr = blocked_copy reasons\<rparr>"

definition rewrite_stmts_for_blocked_copy :: "copy_verdicts \<Rightarrow> stmt list \<Rightarrow> stmt list" where
  "rewrite_stmts_for_blocked_copy reasons ss = fst (run_state (visit_stmts (rewriting (copy_walker reasons)) ss) ())"

definition rewrite_record_copies :: "copy_verdicts \<Rightarrow> ir_record \<Rightarrow> ir_record" where
  "rewrite_record_copies reasons r =
     r\<lparr>r_constructors := map (\<lambda>c. c\<lparr>c_body := rewrite_stmts_for_blocked_copy reasons (c_body c)\<rparr>) (r_constructors r),
       r_methods := map (\<lambda>m. m\<lparr>m_body := map_option (rewrite_stmts_for_blocked_copy reasons) (m_body m)\<rparr>) (r_methods r)\<rparr>"

definition rewrite_non_copyable_record_copies :: "ir_module \<Rightarrow> ir_module" where
  "rewrite_non_copyable_record_copies md =
     (let reasons = copy_reasons (md_records md)
      in md\<lparr>md_records := map (rewrite_record_copies reasons) (md_records md),
            md_functions := map (\<lambda>f. f\<lparr>f_body := rewrite_stmts_for_blocked_copy reasons (f_body f)\<rparr>) (md_functions md)\<rparr>)"

section \<open>What the rewriting leaves\<close>

lemma walk_type_copy [simp]: "walk_type (copy_walker reasons) t = t"
  by (induction t) (simp_all add: copy_walker_def map_idI)

lemma w_expr_copy [simp]: "w_expr (copy_walker reasons) = blocked_copy reasons"
  by (simp add: copy_walker_def)

lemma w_construct_copy [simp]: "w_construct (copy_walker reasons) u n i = (n, i)"
  by (simp add: copy_walker_def)

lemma rewrite_stmts_walk: "rewrite_stmts_for_blocked_copy reasons ss = map (walk_stmt (copy_walker reasons)) ss"
  by (simp add: rewrite_stmts_for_blocked_copy_def visit_stmts_rewriting)

text \<open>A copy the rewriting leaves: of a record without a verdict against it.\<close>

fun allowed_copy :: "copy_verdicts \<Rightarrow> ir_node \<Rightarrow> bool" where
  "allowed_copy reasons (NExpr (ERecordCopy _ usr _ _)) =
     (case map_of reasons usr of Some (Some _) \<Rightarrow> False | _ \<Rightarrow> True)"
| "allowed_copy reasons _ = True"

lemma walk_allows_copies:
  "\<forall>n \<in> set (nodes_expr (walk_expr (copy_walker reasons) e)). allowed_copy reasons n"
  "\<forall>n \<in> set (nodes_stmt (walk_stmt (copy_walker reasons) s)). allowed_copy reasons n"
  "\<forall>n \<in> set (nodes_param (walk_param (copy_walker reasons) p)). allowed_copy reasons n"
  "\<forall>n \<in> set (nodes_case (walk_case (copy_walker reasons) c)). allowed_copy reasons n"
  by (induction e and s and p and c)
    (auto simp: blocked_copy_def set_opt_nodes split: option.splits)

lemma rewritten_stmts_allow_copies:
  "\<forall>n \<in> set (nodes_stmts (rewrite_stmts_for_blocked_copy reasons ss)). allowed_copy reasons n"
  using walk_allows_copies(2) by (auto simp: nodes_stmts_def rewrite_stmts_walk)

section \<open>Verdicts do not change\<close>

text \<open>What a verdict looks at in a record, which the rewriting leaves alone.\<close>

definition copy_shape :: "ir_record \<Rightarrow> string \<times> base_class option \<times> base_class list \<times> ir_field list \<times> bool" where
  "copy_shape r = (r_usr r, r_base_class r, r_mixins r, r_fields r, has_ctor_inits r)"

definition same_shapes :: "record_index \<Rightarrow> record_index \<Rightarrow> bool" where
  "same_shapes ix ix' \<longleftrightarrow> (\<forall>u. map_option copy_shape (map_of ix u) = map_option copy_shape (map_of ix' u))"

lemma same_shapesD:
  assumes "same_shapes ix ix'"
  shows "map_of ix u = None \<Longrightarrow> map_of ix' u = None"
    and "map_of ix u = Some r \<Longrightarrow> \<exists>r'. map_of ix' u = Some r' \<and> copy_shape r' = copy_shape r"
proof -
  have eq: "map_option copy_shape (map_of ix u) = map_option copy_shape (map_of ix' u)"
    using assms by (simp add: same_shapes_def)
  then show "map_of ix' u = None" if "map_of ix u = None" using that by simp
  show "\<exists>r'. map_of ix' u = Some r' \<and> copy_shape r' = copy_shape r" if "map_of ix u = Some r"
    using eq that by (cases "map_of ix' u") auto
qed

lemma same_shapes_bases: "same_shapes ix ix' \<Longrightarrow> bases_of ix' = bases_of ix"
proof
  fix u assume "same_shapes ix ix'"
  from same_shapesD [OF this, of u] show "bases_of ix' u = bases_of ix u"
    by (cases "map_of ix u") (auto simp: bases_of_def copy_shape_def record_bases_def)
qed

lemma visit_chain_bases: "bases_of ix' = bases_of ix \<Longrightarrow> visit_chain ix' bs st = visit_chain ix bs st"
proof (induction ix bs st rule: visit_chain.induct)
  case (2 ix b bs st)
  then show ?case by (cases "bc_usr b \<in> fst st") (simp_all add: Let_def)
qed simp

lemma mixin_loop_bases: "bases_of ix' = bases_of ix \<Longrightarrow> mixin_loop ix' res st = mixin_loop ix res st"
  by (induction ix res st rule: mixin_loop.induct) simp_all

lemma extends_chain_from_shapes:
  "same_shapes ix ix' \<Longrightarrow> extends_chain_from ix' cursor chain = extends_chain_from ix cursor chain"
proof (induction ix cursor chain rule: extends_chain_from.induct)
  case (1 ix cursor chain)
  have "Option.bind (map_of ix' u) r_base_class = Option.bind (map_of ix u) r_base_class" for u
    using same_shapesD [OF 1(2), of u] by (cases "map_of ix u") (auto simp: copy_shape_def)
  with 1 show ?case
    by (simp add: extends_chain_from.simps [of ix' cursor] extends_chain_from.simps [of ix cursor] split: option.split)
qed

lemma copied_mixins_shapes:
  assumes "same_shapes ix ix'" and "copy_shape r' = copy_shape r"
  shows "copied_mixins ix' r' = copied_mixins ix r"
  using extends_chain_from_shapes [OF assms(1)] visit_chain_bases [OF same_shapes_bases [OF assms(1)]] assms(2)
  by (simp add: copied_mixins_def extends_chain_def expand_mixin_chain_def copy_shape_def)

lemma mixin_copy_blocker_shapes: "same_shapes ix ix' \<Longrightarrow> mixin_copy_blocker ix' = mixin_copy_blocker ix"
proof
  fix b assume shapes: "same_shapes ix ix'"
  show "mixin_copy_blocker ix' b = mixin_copy_blocker ix b"
  proof (cases "map_of ix (bc_usr b)")
    case None
    with same_shapesD(1) [OF shapes this] show ?thesis by (simp add: mixin_copy_blocker_def)
  next
    case (Some r)
    with same_shapesD(2) [OF shapes this] show ?thesis
      by (auto simp: mixin_copy_blocker_def copy_shape_def)
  qed
qed

lemma record_copy_blocker_shapes:
  "same_shapes ix ix' \<Longrightarrow> copy_shape r' = copy_shape r \<Longrightarrow>
    record_copy_blocker ix' mixins visiting r' = record_copy_blocker ix mixins visiting r"
proof (induction ix mixins visiting r arbitrary: r' rule: record_copy_blocker.induct)
  case (1 ix mixins visiting r)
  have shape: "r_usr r' = r_usr r" "r_base_class r' = r_base_class r" "effective_is_mixin mixins r' = effective_is_mixin mixins r"
    using 1(3) by (auto simp: copy_shape_def effective_is_mixin_def)
  note mixins = mixin_copy_blocker_shapes [OF 1(2)] copied_mixins_shapes [OF 1(2,3)]
  show ?case
  proof (cases "r_usr r \<in> visiting \<or> effective_is_mixin mixins r \<or> r_base_class r = None")
    case True
    then show ?thesis
      by (auto simp: record_copy_blocker.simps [of ix'] record_copy_blocker.simps [of ix] shape mixins)
  next
    case False
    then obtain b where b: "r_usr r \<notin> visiting" "\<not> effective_is_mixin mixins r" "r_base_class r = Some b" by auto
    show ?thesis
    proof (cases "map_of ix (bc_usr b)")
      case None
      with same_shapesD(1) [OF 1(2) this] b show ?thesis
        by (simp add: record_copy_blocker.simps [of ix'] record_copy_blocker.simps [of ix] shape mixins)
    next
      case (Some base)
      then obtain base' where "map_of ix' (bc_usr b) = Some base'" "copy_shape base' = copy_shape base"
        using same_shapesD(2) [OF 1(2)] by blast
      with Some b 1(1) [OF b Some 1(2)] show ?thesis
        by (simp add: record_copy_blocker.simps [of ix' _ _ r'] record_copy_blocker.simps [of ix _ _ r] shape mixins)
    qed
  qed
qed

lemma copy_reasons_lookup:
  "map_of (copy_reasons rs) u =
    map_option (record_copy_blocker (records_by_usr rs) (mixin_usrs rs) {}) (map_of (records_by_usr rs) u)"
proof -
  have "map_of (fold (\<lambda>r. hm_put (r_usr r) (f r)) rs m) u =
      (case map_of (rev (map (\<lambda>r. (r_usr r, r)) rs)) u of None \<Rightarrow> map_of m u | Some r \<Rightarrow> Some (f r))"
    for f :: "ir_record \<Rightarrow> string option" and m
    by (induction rs arbitrary: m) (auto simp: map_add_def split: option.splits)
  then show ?thesis by (simp add: copy_reasons_def records_by_usr_lookup split: option.split)
qed

lemma rewrite_record_copies_simps [simp]:
  "copy_shape (rewrite_record_copies reasons r) = copy_shape r"
  "r_usr (rewrite_record_copies reasons r) = r_usr r" "r_mixins (rewrite_record_copies reasons r) = r_mixins r"
  by (auto simp: rewrite_record_copies_def copy_shape_def has_ctor_inits_def list_ex_iff)

lemma records_by_usr_map:
  "(\<And>r. r_usr (g r) = r_usr r) \<Longrightarrow> map_of (records_by_usr (map g rs)) u = map_option g (map_of (records_by_usr rs) u)"
proof -
  assume "\<And>r. r_usr (g r) = r_usr r"
  then have "map_of (map (\<lambda>r. (r_usr r, r)) (map g xs)) u = map_option g (map_of (map (\<lambda>r. (r_usr r, r)) xs) u)" for xs
    by (induction xs) auto
  from this [of "rev rs"] show ?thesis by (simp add: records_by_usr_lookup rev_map)
qed

lemma rewritten_same_shapes: "same_shapes (records_by_usr rs) (records_by_usr (map (rewrite_record_copies reasons) rs))"
  by (simp add: same_shapes_def records_by_usr_map option.map_comp comp_def)

lemma mixin_usrs_rewritten: "mixin_usrs (map (rewrite_record_copies reasons) rs) = mixin_usrs rs"
  using mixin_loop_bases [OF same_shapes_bases [OF rewritten_same_shapes [of rs reasons]]]
  by (simp add: mixin_usrs_def comp_def)

lemma copy_reasons_rewritten:
  "map_of (copy_reasons (map (rewrite_record_copies reasons) rs)) u = map_of (copy_reasons rs) u"
proof -
  have "record_copy_blocker (records_by_usr (map (rewrite_record_copies reasons) rs)) mixins {}
      (rewrite_record_copies reasons r) = record_copy_blocker (records_by_usr rs) mixins {} r" for mixins r
    by (rule record_copy_blocker_shapes [OF rewritten_same_shapes]) simp
  then show ?thesis
    by (simp add: copy_reasons_lookup records_by_usr_map mixin_usrs_rewritten option.map_comp comp_def)
qed

end
