(* ===== verification/Dart_Refs.thy ===== *)
theory Dart_Refs
  imports Dart_Scan
begin

text \<open>
  What a file of \<^verbatim>\<open>crates/server/src/emit/dart.rs\<close> depends on: the \<^verbatim>\<open>usr\<close>s that the types, expressions and
  statements of its declarations reach, from which \<^verbatim>\<open>emit_file\<close> takes its imports, and whether an
  expression reads \<^verbatim>\<open>this\<close>, which no initializer list may.
\<close>

section \<open>Referenced declarations\<close>

primrec collect_referenced_usrs_in_type :: "ty \<Rightarrow> string set" where
  "collect_referenced_usrs_in_type (TRecord usr name) = {usr}"
| "collect_referenced_usrs_in_type (TEnum usr name) = {usr}"
| "collect_referenced_usrs_in_type (TList e) = collect_referenced_usrs_in_type e"
| "collect_referenced_usrs_in_type (TSet e) = collect_referenced_usrs_in_type e"
| "collect_referenced_usrs_in_type (TListCursor e) = collect_referenced_usrs_in_type e"
| "collect_referenced_usrs_in_type (TMap k v) =
     collect_referenced_usrs_in_type k \<union> collect_referenced_usrs_in_type v"
| "collect_referenced_usrs_in_type (TPair a b) =
     collect_referenced_usrs_in_type a \<union> collect_referenced_usrs_in_type b"
| "collect_referenced_usrs_in_type (TCallback r ps) =
     collect_referenced_usrs_in_type r \<union> \<Union> (set (map collect_referenced_usrs_in_type ps))"
| "collect_referenced_usrs_in_type (TTuple es) = \<Union> (set (map collect_referenced_usrs_in_type es))"
| "collect_referenced_usrs_in_type (TNullable t) = collect_referenced_usrs_in_type t"
| "collect_referenced_usrs_in_type TInt = {}"
| "collect_referenced_usrs_in_type TBool = {}"
| "collect_referenced_usrs_in_type TDouble = {}"
| "collect_referenced_usrs_in_type TVoid = {}"
| "collect_referenced_usrs_in_type TStr = {}"
| "collect_referenced_usrs_in_type TBytes = {}"
| "collect_referenced_usrs_in_type TByteCursor = {}"
| "collect_referenced_usrs_in_type TObject = {}"
| "collect_referenced_usrs_in_type (TUnsupported s) = {}"

text \<open>What a list reaches and what an optional part reaches.\<close>

definition reach_all :: "('a \<Rightarrow> string set) \<Rightarrow> 'a list \<Rightarrow> string set" where
  "reach_all f xs = \<Union> (set (map f xs))"

definition reach_opt :: "('a \<Rightarrow> string set) \<Rightarrow> 'a option \<Rightarrow> string set" where
  "reach_opt f x = (case x of None \<Rightarrow> {} | Some y \<Rightarrow> f y)"

lemma reach_all_cong [fundef_cong]:
  "xs = ys \<Longrightarrow> (\<And>x. x \<in> set ys \<Longrightarrow> f x = g x) \<Longrightarrow> reach_all f xs = reach_all g ys"
  by (simp add: reach_all_def)

lemma reach_opt_cong [fundef_cong]:
  "x = y \<Longrightarrow> (\<And>z. y = Some z \<Longrightarrow> f z = g z) \<Longrightarrow> reach_opt f x = reach_opt g y"
  by (simp add: reach_opt_def split: option.split)

function collect_referenced_usrs_in_stmt :: "stmt \<Rightarrow> string set"
  and collect_referenced_usrs_in_expr :: "expr \<Rightarrow> string set" where
  "collect_referenced_usrs_in_stmt s =
     (case s of
        SReturn v _ \<Rightarrow> reach_opt collect_referenced_usrs_in_expr v
      | SVarDecl _ t i _ \<Rightarrow> collect_referenced_usrs_in_type t \<union> reach_opt collect_referenced_usrs_in_expr i
      | SAssign _ v _ \<Rightarrow> collect_referenced_usrs_in_expr v
      | SFieldAssign tg _ v _ \<Rightarrow> collect_referenced_usrs_in_expr tg \<union> collect_referenced_usrs_in_expr v
      | SExprAssign (EMapIndexOrInsert m i _ _ _) v _ \<Rightarrow>
          collect_referenced_usrs_in_expr m \<union> collect_referenced_usrs_in_expr i \<union> collect_referenced_usrs_in_expr v
      | SExprAssign tg v _ \<Rightarrow> collect_referenced_usrs_in_expr tg \<union> collect_referenced_usrs_in_expr v
      | SIf c a b _ \<Rightarrow> collect_referenced_usrs_in_expr c \<union> reach_all collect_referenced_usrs_in_stmt a \<union>
          reach_all collect_referenced_usrs_in_stmt b
      | SWhile c b _ \<Rightarrow> collect_referenced_usrs_in_expr c \<union> reach_all collect_referenced_usrs_in_stmt b
      | SDoWhile b c _ \<Rightarrow> reach_all collect_referenced_usrs_in_stmt b \<union> collect_referenced_usrs_in_expr c
      | SFor i c n b _ \<Rightarrow> reach_opt collect_referenced_usrs_in_stmt i \<union> reach_opt collect_referenced_usrs_in_expr c \<union>
          reach_opt collect_referenced_usrs_in_stmt n \<union> reach_all collect_referenced_usrs_in_stmt b
      | SForEach _ t _ _ it b _ \<Rightarrow> collect_referenced_usrs_in_type t \<union> collect_referenced_usrs_in_expr it \<union>
          reach_all collect_referenced_usrs_in_stmt b
      | SBreak _ \<Rightarrow> {} | SContinue _ \<Rightarrow> {} | SContinueLabel _ _ \<Rightarrow> {}
      | SExprStmt e _ \<Rightarrow> collect_referenced_usrs_in_expr e
      | SThrow e _ \<Rightarrow> collect_referenced_usrs_in_expr e
      | STryCatch b t _ c _ \<Rightarrow> reach_all collect_referenced_usrs_in_stmt b \<union> collect_referenced_usrs_in_type t \<union>
          reach_all collect_referenced_usrs_in_stmt c
      | STryFinally b f _ \<Rightarrow> reach_all collect_referenced_usrs_in_stmt b \<union> reach_all collect_referenced_usrs_in_stmt f
      | STupleAssign ts v _ \<Rightarrow> reach_all collect_referenced_usrs_in_expr ts \<union> collect_referenced_usrs_in_expr v
      | SSwitch e cs d _ \<Rightarrow> collect_referenced_usrs_in_expr e \<union>
          reach_all (\<lambda>c. case c of SwitchCase vs b _ \<Rightarrow>
            reach_all collect_referenced_usrs_in_expr vs \<union> reach_all collect_referenced_usrs_in_stmt b) cs \<union>
          reach_opt (reach_all collect_referenced_usrs_in_stmt) d
      | SUnsupported _ _ \<Rightarrow> {})"
| "collect_referenced_usrs_in_expr e =
     (case e of
        EIntLiteral _ _ \<Rightarrow> {} | EDoubleLiteral _ _ \<Rightarrow> {} | EBoolLiteral _ _ \<Rightarrow> {} | ENullLiteral _ \<Rightarrow> {}
      | EStringLiteral _ _ \<Rightarrow> {} | EUnsupported _ _ \<Rightarrow> {}
      | ENamedArg _ v \<Rightarrow> collect_referenced_usrs_in_expr v
      | EUnsupportedTyped _ t _ \<Rightarrow> collect_referenced_usrs_in_type t
      | ERef _ t _ \<Rightarrow> (case t of TEnum _ _ \<Rightarrow> collect_referenced_usrs_in_type t | _ \<Rightarrow> {})
      | EThis _ _ \<Rightarrow> {}
      | EBinary _ l r _ _ \<Rightarrow> collect_referenced_usrs_in_expr l \<union> collect_referenced_usrs_in_expr r
      | EConditional c a b _ _ \<Rightarrow> collect_referenced_usrs_in_expr c \<union> collect_referenced_usrs_in_expr a \<union>
          collect_referenced_usrs_in_expr b
      | EUnary _ e _ _ \<Rightarrow> collect_referenced_usrs_in_expr e
      | EConvert e _ _ \<Rightarrow> collect_referenced_usrs_in_expr e
      | ELambda ps b t _ \<Rightarrow> collect_referenced_usrs_in_type t \<union>
          reach_all (\<lambda>p. collect_referenced_usrs_in_type (p_ty p)) ps \<union> reach_all collect_referenced_usrs_in_stmt b
      | ECall tg _ callee_usr _ args _ _ \<Rightarrow> {callee_usr} \<union> reach_opt collect_referenced_usrs_in_expr tg \<union>
          reach_all collect_referenced_usrs_in_expr args
      | EFieldAccess tg _ _ _ \<Rightarrow> collect_referenced_usrs_in_expr tg
      | ERecordConstruct usr _ fs _ \<Rightarrow> {usr} \<union> reach_all (\<lambda>(name, v). collect_referenced_usrs_in_expr v) fs
      | ERecordCopy tg usr _ _ \<Rightarrow> {usr} \<union> collect_referenced_usrs_in_expr tg
      | EConstructorCall usr _ _ args _ \<Rightarrow> {usr} \<union> reach_all collect_referenced_usrs_in_expr args
      | EIndex tg i _ _ \<Rightarrow> collect_referenced_usrs_in_expr tg \<union> collect_referenced_usrs_in_expr i
      | EMapIndexOrInsert tg i d _ _ \<Rightarrow> collect_referenced_usrs_in_expr tg \<union> collect_referenced_usrs_in_expr i \<union>
          collect_referenced_usrs_in_expr d
      | EStringByteAt tg i _ _ \<Rightarrow> collect_referenced_usrs_in_expr tg \<union> collect_referenced_usrs_in_expr i
      | EStringByteLength tg _ \<Rightarrow> collect_referenced_usrs_in_expr tg
      | EStringByteIndexOf tg nd fr _ \<Rightarrow> collect_referenced_usrs_in_expr tg \<union> collect_referenced_usrs_in_expr nd \<union>
          reach_opt collect_referenced_usrs_in_expr fr
      | ETuple vs _ \<Rightarrow> reach_all collect_referenced_usrs_in_expr vs
      | EListLiteral xs t _ \<Rightarrow> collect_referenced_usrs_in_type t \<union> reach_all collect_referenced_usrs_in_expr xs
      | EMapLiteral es t _ \<Rightarrow> collect_referenced_usrs_in_type t \<union>
          reach_all (\<lambda>(k, v). collect_referenced_usrs_in_expr k \<union> collect_referenced_usrs_in_expr v) es
      | EIs e t _ \<Rightarrow> collect_referenced_usrs_in_type t \<union> collect_referenced_usrs_in_expr e
      | EAs e t _ \<Rightarrow> collect_referenced_usrs_in_type t \<union> collect_referenced_usrs_in_expr e
      | EAssign tg v _ _ \<Rightarrow> collect_referenced_usrs_in_expr tg \<union> collect_referenced_usrs_in_expr v)"
  by pat_completeness auto
termination by lexicographic_order

declare collect_referenced_usrs_in_stmt.simps [simp del] collect_referenced_usrs_in_expr.simps [simp del]

abbreviation collect_referenced_usrs_in_stmts :: "stmt list \<Rightarrow> string set" where
  "collect_referenced_usrs_in_stmts \<equiv> reach_all collect_referenced_usrs_in_stmt"

definition referenced_in_params :: "param list \<Rightarrow> string set" where
  "referenced_in_params params = reach_all (\<lambda>p. collect_referenced_usrs_in_type (p_ty p)) params"

text \<open>What a body reaches, unless it is printed as the one statement that gives up.\<close>

definition referenced_in_body :: "param list \<Rightarrow> ty option \<Rightarrow> stmt list \<Rightarrow> string set" where
  "referenced_in_body params return_type body =
     (if body_bails_out params return_type body then {} else collect_referenced_usrs_in_stmts body)"

definition referenced_in_init :: "constructor_init \<Rightarrow> string set" where
  "referenced_in_init init =
     (case init of
        CField _ value \<Rightarrow> collect_referenced_usrs_in_expr value
      | CBase usr _ args \<Rightarrow> insert usr (reach_all collect_referenced_usrs_in_expr args))"

definition collect_referenced_usrs_in_record :: "ir_record \<Rightarrow> record_index \<Rightarrow> string set" where
  "collect_referenced_usrs_in_record r ix =
     reach_all (\<lambda>f. collect_referenced_usrs_in_type (fl_ty f)) (r_fields r @ r_static_fields r) \<union>
     reach_opt (\<lambda>b. {bc_usr b}) (r_base_class r) \<union>
     bc_usr ` set (expand_mixin_chain (r_mixins r) ix) \<union>
     reach_all (\<lambda>c. referenced_in_params (c_params c) \<union> reach_all referenced_in_init (c_inits c) \<union>
       referenced_in_body (c_params c) None (c_body c)) (r_constructors r) \<union>
     reach_all (\<lambda>m. collect_referenced_usrs_in_type (m_return_type m) \<union> referenced_in_params (m_params m) \<union>
       reach_opt (referenced_in_body (m_params m) (Some (m_return_type m))) (m_body m)) (r_methods r)"

definition collect_referenced_usrs_in_function :: "ir_function \<Rightarrow> string set" where
  "collect_referenced_usrs_in_function f =
     collect_referenced_usrs_in_type (f_return_type f) \<union> referenced_in_params (f_params f) \<union>
     referenced_in_body (f_params f) (Some (f_return_type f)) (f_body f)"

section \<open>Reading this\<close>

function expr_contains_this :: "expr \<Rightarrow> bool" where
  "expr_contains_this e =
     (case e of
        EThis _ _ \<Rightarrow> True
      | ERef _ _ _ \<Rightarrow> False | EIntLiteral _ _ \<Rightarrow> False | EDoubleLiteral _ _ \<Rightarrow> False | EBoolLiteral _ _ \<Rightarrow> False
      | ENullLiteral _ \<Rightarrow> False | EStringLiteral _ _ \<Rightarrow> False | EUnsupported _ _ \<Rightarrow> False
      | EUnsupportedTyped _ _ _ \<Rightarrow> False
      | ENamedArg _ v \<Rightarrow> expr_contains_this v
      | EBinary _ l r _ _ \<Rightarrow> list_ex expr_contains_this [l, r]
      | EConditional c a b _ _ \<Rightarrow> list_ex expr_contains_this [c, a, b]
      | EUnary _ e _ _ \<Rightarrow> expr_contains_this e
      | EConvert e _ _ \<Rightarrow> expr_contains_this e
      | ELambda _ _ _ _ \<Rightarrow> False
      | ECall tg _ _ _ args _ _ \<Rightarrow> (case tg of None \<Rightarrow> False | Some t \<Rightarrow> expr_contains_this t) \<or> list_ex expr_contains_this args
      | EFieldAccess tg _ _ _ \<Rightarrow> expr_contains_this tg
      | ERecordConstruct _ _ fs _ \<Rightarrow> list_ex (\<lambda>(name, v). expr_contains_this v) fs
      | ERecordCopy tg _ _ _ \<Rightarrow> expr_contains_this tg
      | EConstructorCall _ _ _ args _ \<Rightarrow> list_ex expr_contains_this args
      | EIndex tg i _ _ \<Rightarrow> list_ex expr_contains_this [tg, i]
      | EMapIndexOrInsert tg i d _ _ \<Rightarrow> list_ex expr_contains_this [tg, i, d]
      | EStringByteLength tg _ \<Rightarrow> expr_contains_this tg
      | EStringByteIndexOf tg nd fr _ \<Rightarrow>
          list_ex expr_contains_this [tg, nd] \<or>
          (case fr of None \<Rightarrow> False | Some f \<Rightarrow> expr_contains_this f)
      | EStringByteAt tg i _ _ \<Rightarrow> list_ex expr_contains_this [tg, i]
      | ETuple vs _ \<Rightarrow> list_ex expr_contains_this vs
      | EListLiteral xs _ _ \<Rightarrow> list_ex expr_contains_this xs
      | EMapLiteral es _ _ \<Rightarrow> list_ex (\<lambda>(k, v). list_ex expr_contains_this [k, v]) es
      | EIs e _ _ \<Rightarrow> expr_contains_this e
      | EAs e _ _ \<Rightarrow> expr_contains_this e
      | EAssign tg v _ _ \<Rightarrow> list_ex expr_contains_this [tg, v])"
  by pat_completeness auto
termination by lexicographic_order

declare expr_contains_this.simps [simp del]

end
