(* ===== verification/Dart_Decl.thy ===== *)
theory Dart_Decl
  imports Dart_Expr Dart_Copy Dart_Refs
begin

text \<open>
  The declarations of \<^verbatim>\<open>crates/server/src/emit/dart.rs\<close>: enums, records with their constructors and
  methods, and functions, each with its body, its mock or its bailout.
\<close>

section \<open>Enums\<close>

definition emit_enum :: "ir_enum \<Rightarrow> string" where
  "emit_enum e =
     (if en_variants e = [] then
        ''// TODO(syntax-bridge): `'' @ en_name e @ ''` declares no constants; Dart has no empty enum.'' @ newline @
        ''enum '' @ en_name e @ '' { unsupportedEmptyEnum(0);'' @ newline @
        ''  const '' @ en_name e @ ''(this.value);'' @ newline @
        ''  final int value;'' @ newline @ ''}'' @ newline
      else
        (let constants = str_join '', '' (map (\<lambda>(name, v). name @ parens (show_int (sint v)))
               (zip (en_variants e) (en_values e)))
         in ''enum '' @ en_name e @ '' {'' @ newline @ ''  '' @ constants @ '';'' @ newline @ newline @
            ''  const '' @ en_name e @ ''(this.value);'' @ newline @
            ''  final int value;'' @ newline @ ''}'' @ newline))"

section \<open>Mock bodies\<close>

record mock_context =
  external_usrs :: "string set"
  mock_enums :: enum_index
  mock_records :: record_index

definition is_external :: "mock_context \<Rightarrow> string \<Rightarrow> bool" where
  "is_external mock usr \<longleftrightarrow> usr \<in> external_usrs mock"

definition MOCK_COMMENT :: string where
  "MOCK_COMMENT = ''// syntax-bridge: externo, corpo mockado''"

definition no_mock_text :: "ty \<Rightarrow> string" where
  "no_mock_text t =
     ''externo, mas o tipo de retorno '' @ emit_type t @ '' n'' @ [CHR 0xC3, CHR 0xA3] @ ''o tem valor plaus'' @
     [CHR 0xC3, CHR 0xAD] @ ''vel para mock''"

definition emit_mock_body :: "ty \<Rightarrow> origin \<Rightarrow> mock_context \<Rightarrow> nat \<Rightarrow> string" where
  "emit_mock_body return_type og mock depth =
     (if return_type = TVoid then pad depth @ MOCK_COMMENT @ newline
      else (case mock_value_for_type (mock_enums mock) (mock_records mock) 0 return_type of
          Some v \<Rightarrow> pad depth @ MOCK_COMMENT @ newline @ pad depth @ ''return '' @ v @ '';'' @ newline
        | None \<Rightarrow> emit_unsupported_stmt depth (no_mock_text return_type) og))"

section \<open>Constructors\<close>

text \<open>
  How the initializers are split: field initializers for the list, those that read \<^verbatim>\<open>this\<close> for the body,
  the arguments of the one \<^verbatim>\<open>super\<close>, and a reason for every base initializer Dart cannot have.
\<close>

record split_inits =
  inits_for_list :: "(string \<times> expr) list"
  inits_for_body :: "(string \<times> expr) list"
  base_init :: "expr list option"
  extra_base_bailouts :: "string list"

definition this_in_base_text :: "string \<Rightarrow> string" where
  "this_in_base_text name =
     ''base initializer `'' @ name @ ''` reads `this` and cannot be in the initializer list''"

definition extra_base_text :: "string \<Rightarrow> string" where
  "extra_base_text name =
     ''extra base initializer `'' @ name @ ''` '' @ [CHR 0xE2, CHR 0x80, CHR 0x94] @ '' Dart only allows one `super`''"

definition split_init :: "constructor_init \<Rightarrow> split_inits \<Rightarrow> split_inits" where
  "split_init init st =
     (case init of
        CField name value \<Rightarrow>
          if expr_contains_this value then st\<lparr>inits_for_body := inits_for_body st @ [(name, value)]\<rparr>
          else st\<lparr>inits_for_list := inits_for_list st @ [(name, value)]\<rparr>
      | CBase usr name args \<Rightarrow>
          if base_init st \<noteq> None then
            st\<lparr>extra_base_bailouts := extra_base_bailouts st @ [extra_base_text name]\<rparr>
          else if list_ex expr_contains_this args then
            st\<lparr>extra_base_bailouts := extra_base_bailouts st @ [this_in_base_text name]\<rparr>
          else st\<lparr>base_init := Some args\<rparr>)"

definition split_constructor_inits :: "constructor_init list \<Rightarrow> split_inits" where
  "split_constructor_inits inits =
     fold split_init inits \<lparr>inits_for_list = [], inits_for_body = [], base_init = None, extra_base_bailouts = []\<rparr>"

text \<open>The body a constructor is printed with: moved initializers, bailouts, then its own statements.\<close>

definition constructor_body_stmts :: "ir_constructor \<Rightarrow> stmt list" where
  "constructor_body_stmts c =
     (let split = split_constructor_inits (c_inits c)
      in map (\<lambda>(name, value). SFieldAssign (EThis TVoid (c_origin c)) name value (c_origin c)) (inits_for_body split) @
         map (\<lambda>reason. SUnsupported reason (c_origin c)) (extra_base_bailouts split) @
         c_body c)"

definition emit_constructor :: "rust_std \<Rightarrow> string \<Rightarrow> ir_constructor \<Rightarrow> mock_context \<Rightarrow> emission" where
  "emit_constructor R record_name c mock =
     (let dart_name = dart_constructor_name record_name (c_index c)
      in do {
        params \<leftarrow> format_params (emit_expr R) (c_params c);
        if is_external mock (c_usr c) then
          State_Monad.return (INDENT @ dart_name @ parens params @ '' {'' @ newline @ pad 2 @ MOCK_COMMENT @ newline @
            INDENT @ ''}'' @ newline)
        else do {
          let split = split_constructor_inits (c_inits c);
          field_parts \<leftarrow> emit_all (\<lambda>(name, value). do {
            val_text \<leftarrow> scoped {} (emit_expr R) value;
            State_Monad.return (name @ '' = '' @ val_text) }) (inits_for_list split);
          base_parts \<leftarrow> (case base_init split of
              None \<Rightarrow> State_Monad.return []
            | Some args \<Rightarrow> do {
                texts \<leftarrow> emit_all (scoped {} (emit_expr R)) args;
                State_Monad.return [''super'' @ parens (str_join '', '' texts)] });
          body \<leftarrow> emit_body (emit_stmt R) (c_params c) None (constructor_body_stmts c) (c_origin c) 2;
          let init_parts = field_parts @ base_parts;
          State_Monad.return (INDENT @ dart_name @ parens params @
            (if init_parts = [] then [] else '' : '' @ str_join '', '' init_parts) @ '' {'' @ newline @ body @
            INDENT @ ''}'' @ newline) } })"

section \<open>Methods\<close>

definition override_prefix :: "ir_method \<Rightarrow> string" where
  "override_prefix m = (if m_is_override m then INDENT @ ''@override'' @ newline else [])"

definition emit_method_named :: "rust_std \<Rightarrow> string \<Rightarrow> ir_method \<Rightarrow> mock_context \<Rightarrow> emission" where
  "emit_method_named R dart_name m mock =
     do {
       params \<leftarrow> format_params (emit_expr R) (m_params m);
       (case m_body m of
          None \<Rightarrow> State_Monad.return (override_prefix m @ INDENT @ emit_type (m_return_type m) @ '' '' @ dart_name @
            parens params @ '';'' @ newline)
        | Some body_stmts \<Rightarrow> do {
            body \<leftarrow> (if is_external mock (m_usr m)
              then State_Monad.return (emit_mock_body (m_return_type m) (m_origin m) mock 2)
              else emit_body (emit_stmt R) (m_params m) (Some (m_return_type m)) body_stmts (m_origin m) 2);
            State_Monad.return (override_prefix m @ INDENT @ (if m_is_static m then ''static '' else []) @
              emit_type (m_return_type m) @ '' '' @ dart_name @ parens params @ '' {'' @ newline @ body @
              INDENT @ ''}'' @ newline) }) }"

text \<open>Without a parameter the code's \<^verbatim>\<open>expect\<close> fails.\<close>

definition emit_equality_operator :: "rust_std \<Rightarrow> string \<Rightarrow> ir_method \<Rightarrow> mock_context \<Rightarrow> emission" where
  "emit_equality_operator R record_name m mock =
     (case m_body m of
        None \<Rightarrow> State_Monad.return (override_prefix m @ INDENT @ ''bool operator ==(Object other);'' @ newline)
      | Some body_stmts \<Rightarrow>
          (case m_params m of
             [] \<Rightarrow> emit_panic
           | other # _ \<Rightarrow> do {
               inner_body \<leftarrow> (if is_external mock (m_usr m)
                 then State_Monad.return (emit_mock_body TBool (m_origin m) mock 3)
                 else emit_body (emit_stmt R) (m_params m) (Some (m_return_type m)) body_stmts (m_origin m) 3);
               State_Monad.return (override_prefix m @
                 INDENT @ ''bool operator ==(Object '' @ p_name other @ '') {'' @ newline @
                 INDENT @ INDENT @ ''if ('' @ p_name other @ '' is '' @ record_name @ '') {'' @ newline @
                 inner_body @
                 INDENT @ INDENT @ ''}'' @ newline @
                 INDENT @ INDENT @ ''return false;'' @ newline @
                 INDENT @ ''}'' @ newline) }))"

text \<open>The name a method is printed under.\<close>

definition dart_method_name :: "ir_method \<Rightarrow> string" where
  "dart_method_name m =
     (if m_name m = ''operator()'' then ''call''
      else (case direct_dart_operator_symbol (m_name m) (length (m_params m)) of
          Some symbol \<Rightarrow> ''operator '' @ symbol
        | None \<Rightarrow>
            if str_starts_with (m_name m) ''operator''
            then dart_operator_bridge_name (m_name m) (length (m_params m))
            else m_name m))"

definition emit_method :: "rust_std \<Rightarrow> string \<Rightarrow> ir_method \<Rightarrow> mock_context \<Rightarrow> emission" where
  "emit_method R record_name m mock =
     (if m_name m = ''operator=='' then emit_equality_operator R record_name m mock
      else emit_method_named R (dart_method_name m) m mock)"

section \<open>Functions\<close>

definition dart_function_name :: "ir_function \<Rightarrow> string" where
  "dart_function_name f =
     (if str_starts_with (f_name f) ''operator'' then dart_operator_bridge_name (f_name f) (length (f_params f))
      else f_name f)"

definition emit_function :: "rust_std \<Rightarrow> ir_function \<Rightarrow> mock_context \<Rightarrow> emission" where
  "emit_function R f mock =
     do {
       params \<leftarrow> format_params (emit_expr R) (f_params f);
       body \<leftarrow> (if is_external mock (f_usr f)
         then State_Monad.return (emit_mock_body (f_return_type f) (f_origin f) mock 1)
         else emit_body (emit_stmt R) (f_params f) (Some (f_return_type f)) (f_body f) (f_origin f) 1);
       State_Monad.return (emit_type (f_return_type f) @ '' '' @ dart_function_name f @ parens params @ '' {'' @ newline @
         body @ ''}'' @ newline) }"

section \<open>Records\<close>

definition first_unsupported_field_reason :: "ir_record \<Rightarrow> string option" where
  "first_unsupported_field_reason r =
     find_map (\<lambda>f. case fl_ty f of
         TUnsupported spelling \<Rightarrow>
           Some (''unsupported field type: '' @ spelling @ '' (field `'' @ fl_name f @ ''`)'')
       | _ \<Rightarrow> None) (r_fields r @ r_static_fields r)"

definition bases_clause :: "bool \<Rightarrow> ir_record \<Rightarrow> record_index \<Rightarrow> string" where
  "bases_clause as_mixin r ix =
     (if as_mixin then
        (let on_bases = map bc_name (record_bases r)
         in if on_bases = [] then [] else '' on '' @ str_join '', '' on_bases)
      else
        (case r_base_class r of None \<Rightarrow> [] | Some b \<Rightarrow> '' extends '' @ bc_name b) @
        (if r_mixins r = [] then []
         else '' with '' @ str_join '', '' (map bc_name (expand_mixin_chain (r_mixins r) ix))))"

definition record_fields_text :: "bool \<Rightarrow> ir_record \<Rightarrow> enum_index \<Rightarrow> string" where
  "record_fields_text as_mixin r enums =
     concat (map (\<lambda>f.
       if \<not> as_mixin \<and> r_constructors r = [] then INDENT @ emit_type (fl_ty f) @ '' '' @ fl_name f @ '';'' @ newline
       else emit_field_declaration enums [] (fl_ty f) (fl_name f)) (r_fields r)) @
     concat (map (\<lambda>f. emit_field_declaration enums ''static '' (fl_ty f) (fl_name f)) (r_static_fields r)) @
     (case r_library_base r of
        None \<Rightarrow> []
      | Some t \<Rightarrow> emit_field_declaration enums [] t (library_base_field_name t))"

text \<open>The positional constructor of a record without one of its own.\<close>

definition synthetic_constructor :: "ir_record \<Rightarrow> string" where
  "synthetic_constructor r =
     (let ctor_params = str_join '', '' (map (\<lambda>f. ''this.'' @ fl_name f) (r_fields r))
      in case first_unsupported_field_reason r of
           Some reason \<Rightarrow> newline @ INDENT @ r_name r @ parens ctor_params @ '' {'' @ newline @
             INDENT @ INDENT @ ''throw UnimplementedError('' @
             dart_string_literal (unsupported_message reason (r_origin r)) @ '');'' @ newline @
             INDENT @ ''}'' @ newline
         | None \<Rightarrow> newline @ INDENT @ r_name r @ parens ctor_params @ '';'' @ newline)"

definition declares_copy_constructor :: "bool \<Rightarrow> copy_verdicts \<Rightarrow> ir_record \<Rightarrow> bool" where
  "declares_copy_constructor as_mixin reasons r \<longleftrightarrow> \<not> as_mixin \<and> map_of reasons (r_usr r) = Some None"

definition emit_record ::
  "rust_std \<Rightarrow> ir_record \<Rightarrow> bool \<Rightarrow> record_index \<Rightarrow> enum_index \<Rightarrow> copy_verdicts \<Rightarrow> mock_context \<Rightarrow> emission" where
  "emit_record R r is_mixin ix enums reasons mock =
     (let as_mixin = (is_mixin \<and> \<not> has_ctor_inits r);
          abstract_keyword = (if \<not> as_mixin \<and> list_ex (\<lambda>m. m_body m = None) (r_methods r) then ''abstract '' else []);
          keyword = (if as_mixin then ''mixin'' else ''class'');
          header = abstract_keyword @ keyword @ '' '' @ r_name r @ bases_clause as_mixin r ix @ '' {'' @ newline
      in do {
        constructors \<leftarrow>
          (if as_mixin then State_Monad.return []
           else if r_constructors r = [] then State_Monad.return [synthetic_constructor r]
           else emit_all (\<lambda>c. do {
             c_text \<leftarrow> emit_constructor R (r_name r) c mock;
             State_Monad.return (newline @ c_text) }) (sort_key c_index (r_constructors r)));
        methods \<leftarrow> emit_all (\<lambda>m. do {
          m_text \<leftarrow> emit_method R (r_name r) m mock;
          State_Monad.return (newline @ m_text) }) (r_methods r);
        State_Monad.return (header @ record_fields_text as_mixin r enums @ concat constructors @
          (if declares_copy_constructor as_mixin reasons r then newline @ emit_copy_constructor r ix reasons else []) @
          concat methods @ ''}'' @ newline) })"

end
