(* ===== verification/Dart_Support.thy ===== *)
theory Dart_Support
  imports Dart_Text
begin

text \<open>
  The fixed Dart texts of \<^verbatim>\<open>crates/server/src/emit/dart.rs\<close>: the helper a file declares for expressions
  that could not be translated, and the classes and functions of \<^verbatim>\<open>syntax_bridge_support.dart\<close>, each
  as its lines with their indentation.
\<close>

definition code_lines :: "(nat \<times> string) list \<Rightarrow> string" where
  "code_lines ls = concat (map (\<lambda>(depth, code). (if code = [] then [] else pad depth @ code) @ newline) ls)"

definition emit_unsupported_helper :: string where
  "emit_unsupported_helper = code_lines
     [(0, ''T '' @ UNSUPPORTED_HELPER_NAME @ ''<T>(String reason) {''),
      (1, ''throw UnimplementedError(reason);''),
      (0, ''}'')]"

definition emit_opaque_type :: string where
  "emit_opaque_type = code_lines
     [(0, ''final class '' @ OPAQUE_TYPE_NAME @ '' {''),
      (1, ''const '' @ OPAQUE_TYPE_NAME @ ''();''),
      (0, ''}'')]"

definition emit_pair_support :: string where
  "emit_pair_support = code_lines
     [(0, ''final class '' @ PAIR_TYPE_NAME @ ''<A, B> {''),
      (1, PAIR_TYPE_NAME @ ''(this.first, this.second);''),
      (0, []),
      (1, ''A first;''),
      (1, ''B second;''),
      (0, ''}'')]"

definition emit_map_entry_pair_extension :: string where
  "emit_map_entry_pair_extension = code_lines
     [(0, ''extension SyntaxBridgeMapEntryPair<K, V> on MapEntry<K, V> {''),
      (1, ''K get first => key;''),
      (1, ''V get second => value;''),
      (0, ''}'')]"

definition emit_first_where_support :: string where
  "emit_first_where_support = code_lines
     [(0, ''T? '' @ FIRST_WHERE_HELPER_NAME @ ''<T>(Iterable<T> iterable, bool Function(T) test) {''),
      (1, ''for (final item in iterable) {''),
      (2, ''if (test(item)) return item;''),
      (1, ''}''),
      (1, ''return null;''),
      (0, ''}'')]"

definition emit_string_byte_index_support :: string where
  "emit_string_byte_index_support = code_lines
     [(0, ''int '' @ INDEX_OF_BYTES_HELPER_NAME @ ''(String haystack, String needle, [int from = 0]) {''),
      (1, ''if (from < 0) from = 0;''),
      (1, ''final hBytes = utf8.encode(haystack);''),
      (1, ''final nBytes = utf8.encode(needle);''),
      (1, ''if (nBytes.isEmpty) return from <= hBytes.length ? from : -1;''),
      (1, ''if (from + nBytes.length > hBytes.length) return -1;''),
      (1, ''outer:''),
      (1, ''for (int i = from; i <= hBytes.length - nBytes.length; i++) {''),
      (2, ''for (int j = 0; j < nBytes.length; j++) {''),
      (3, ''if (hBytes[i + j] != nBytes[j]) continue outer;''),
      (2, ''}''),
      (2, ''return i;''),
      (1, ''}''),
      (1, ''return -1;''),
      (0, ''}''),
      (0, []),
      (0, ''int '' @ INDEX_OF_BYTE_HELPER_NAME @ ''(String haystack, int byte, [int from = 0]) {''),
      (1, ''if (from < 0) from = 0;''),
      (1, ''final hBytes = utf8.encode(haystack);''),
      (1, ''return hBytes.indexOf(byte, from);''),
      (0, ''}'')]"

definition emit_list_cursor_support :: string where
  "emit_list_cursor_support = code_lines
     [(0, ''final class '' @ LIST_CURSOR_TYPE_NAME @ ''<T> {''),
      (1, LIST_CURSOR_TYPE_NAME @ ''([this._items = const [], this._index = 0]);''),
      (0, []),
      (1, ''final List<T> _items;''),
      (1, ''int _index;''),
      (0, []),
      (1, ''bool get isEnd => _index >= _items.length;''),
      (1, ''T get current => _items[_index];''),
      (1, ''void moveNext() {''),
      (2, ''_index++;''),
      (1, ''}''),
      (1, ''void movePrevious() {''),
      (2, ''_index--;''),
      (1, ''}''),
      (0, []),
      (1, LIST_CURSOR_TYPE_NAME @ ''<T> operator +(int offset) =>''),
      (2, LIST_CURSOR_TYPE_NAME @ ''<T>(_items, _index + offset);''),
      (0, []),
      (1, ''Object operator -(Object other) {''),
      (2, ''if (other is int) {''),
      (3, ''return '' @ LIST_CURSOR_TYPE_NAME @ ''<T>(_items, _index - other);''),
      (2, ''}''),
      (2, ''if (other is '' @ LIST_CURSOR_TYPE_NAME @ ''<T>) {''),
      (3, ''return _index - other._index;''),
      (2, ''}''),
      (2, ''throw ArgumentError('' @ [CHR 0x27] @ ''Invalid operand for -: $other'' @ [CHR 0x27] @ '');''),
      (1, ''}''),
      (0, []),
      (1, ''bool operator <('' @ LIST_CURSOR_TYPE_NAME @ ''<T> other) => _index < other._index;''),
      (1, ''bool operator <=('' @ LIST_CURSOR_TYPE_NAME @ ''<T> other) => _index <= other._index;''),
      (1, ''bool operator >('' @ LIST_CURSOR_TYPE_NAME @ ''<T> other) => _index > other._index;''),
      (1, ''bool operator >=('' @ LIST_CURSOR_TYPE_NAME @ ''<T> other) => _index >= other._index;''),
      (0, []),
      (1, ''T operator [](int offset) => _items[_index + offset];''),
      (1, ''void operator []=(int offset, T value) {''),
      (2, ''_items[_index + offset] = value;''),
      (1, ''}''),
      (1, ''T get value => _items[_index];''),
      (1, ''set value(T v) {''),
      (2, ''_items[_index] = v;''),
      (1, ''}''),
      (0, ''}'')]"

definition emit_byte_cursor_support :: string where
  "emit_byte_cursor_support = code_lines
     [(0, ''final class '' @ BYTE_CURSOR_TYPE_NAME @ '' {''),
      (1, BYTE_CURSOR_TYPE_NAME @ ''(this._bytes, [this._offset = 0]);''),
      (0, []),
      (1, ''final Uint8List _bytes;''),
      (1, ''int _offset;''),
      (0, []),
      (1, ''int operator [](int i) => _bytes[_offset + i];''),
      (1, ''void operator []=(int i, int v) {''),
      (2, ''_bytes[_offset + i] = v;''),
      (1, ''}''),
      (1, ''int get value => _bytes[_offset];''),
      (1, ''set value(int v) {''),
      (2, ''_bytes[_offset] = v;''),
      (1, ''}''),
      (0, []),
      (1, BYTE_CURSOR_TYPE_NAME @ '' operator +(int n) =>''),
      (2, BYTE_CURSOR_TYPE_NAME @ ''(_bytes, _offset + n);''),
      (0, []),
      (1, ''Object operator -(Object other) {''),
      (2, ''if (other is int) {''),
      (3, ''return '' @ BYTE_CURSOR_TYPE_NAME @ ''(_bytes, _offset - other);''),
      (2, ''}''),
      (2, ''if (other is '' @ BYTE_CURSOR_TYPE_NAME @ '') {''),
      (3, ''return _offset - other._offset;''),
      (2, ''}''),
      (2, ''throw ArgumentError('' @ [CHR 0x27] @ ''Invalid operand for -: $other'' @ [CHR 0x27] @ '');''),
      (1, ''}''),
      (0, []),
      (1, ''int distanceTo('' @ BYTE_CURSOR_TYPE_NAME @ '' other) => other._offset - _offset;''),
      (0, []),
      (1, ''bool operator <('' @ BYTE_CURSOR_TYPE_NAME @ '' other) => _offset < other._offset;''),
      (1, ''bool operator <=('' @ BYTE_CURSOR_TYPE_NAME @ '' other) => _offset <= other._offset;''),
      (1, ''bool operator >('' @ BYTE_CURSOR_TYPE_NAME @ '' other) => _offset > other._offset;''),
      (1, ''bool operator >=('' @ BYTE_CURSOR_TYPE_NAME @ '' other) => _offset >= other._offset;''),
      (0, []),
      (1, ''@override''),
      (1, ''bool operator ==(Object other) =>''),
      (2, ''other is '' @ BYTE_CURSOR_TYPE_NAME @ '' &&''),
      (2, ''identical(_bytes, other._bytes) &&''),
      (2, ''_offset == other._offset;''),
      (0, []),
      (1, ''@override''),
      (1, ''int get hashCode => Object.hash(identityHashCode(_bytes), _offset);''),
      (0, ''}'')]"

definition emit_native_handle_support :: string where
  "emit_native_handle_support = code_lines
     [(0, ''/// An opaque native pointer (`void*`/`const void*` in the original C++)''),
      (0, ''/// that Syntax Bridge never dereferences or does address arithmetic on '' @
        [CHR 0xE2, CHR 0x80, CHR 0x94]),
      (0, ''/// only holds and forwards it. Two handles are the same handle only by''),
      (0, ''/// identity (`==` is the default `Object` identity check).''),
      (0, ''final class '' @ NATIVE_HANDLE_TYPE_NAME @ '' {''),
      (1, ''const '' @ NATIVE_HANDLE_TYPE_NAME @ ''();''),
      (0, ''}'')]"

definition emit_stream_support :: string where
  "emit_stream_support = code_lines
     [(0, ''abstract class '' @ OUTPUT_STREAM_TYPE_NAME @ '' {''),
      (1, OUTPUT_STREAM_TYPE_NAME @ '' write(Object? obj);''),
      (1, OUTPUT_STREAM_TYPE_NAME @ '' writeln([Object? obj = '' @ [CHR 0x27, CHR 0x27] @ '']);''),
      (1, ''void flush();''),
      (0, ''}''),
      (0, []),
      (0, ''class '' @ OUTPUT_STREAM_STRING_TYPE_NAME @ '' extends '' @ OUTPUT_STREAM_TYPE_NAME @ '' {''),
      (1, ''final StringBuffer _buffer = StringBuffer();''),
      (0, []),
      (1, ''@override''),
      (1, OUTPUT_STREAM_TYPE_NAME @ '' write(Object? obj) {''),
      (2, ''if (obj != null) {''),
      (3, ''_buffer.write(obj);''),
      (2, ''}''),
      (2, ''return this;''),
      (1, ''}''),
      (0, []),
      (1, ''@override''),
      (1, OUTPUT_STREAM_TYPE_NAME @ '' writeln([Object? obj = '' @ [CHR 0x27, CHR 0x27] @ '']) {''),
      (2, ''_buffer.writeln(obj ?? '' @ [CHR 0x27, CHR 0x27] @ '');''),
      (2, ''return this;''),
      (1, ''}''),
      (0, []),
      (1, ''@override''),
      (1, ''void flush() {}''),
      (0, []),
      (1, ''String str() => _buffer.toString();''),
      (0, []),
      (1, ''@override''),
      (1, ''String toString() => _buffer.toString();''),
      (0, ''}''),
      (0, []),
      (0, ''class '' @ OUTPUT_STREAM_STDOUT_TYPE_NAME @ '' extends '' @ OUTPUT_STREAM_TYPE_NAME @ '' {''),
      (1, ''@override''),
      (1, OUTPUT_STREAM_TYPE_NAME @ '' write(Object? obj) {''),
      (2, ''if (obj != null) {''),
      (3, ''print(obj);''),
      (2, ''}''),
      (2, ''return this;''),
      (1, ''}''),
      (0, []),
      (1, ''@override''),
      (1, OUTPUT_STREAM_TYPE_NAME @ '' writeln([Object? obj = '' @ [CHR 0x27, CHR 0x27] @ '']) {''),
      (2, ''print(obj ?? '' @ [CHR 0x27, CHR 0x27] @ '');''),
      (2, ''return this;''),
      (1, ''}''),
      (0, []),
      (1, ''@override''),
      (1, ''void flush() {}''),
      (0, ''}''),
      (0, []),
      (0, ''class '' @ OUTPUT_STREAM_STDERR_TYPE_NAME @ '' extends '' @ OUTPUT_STREAM_TYPE_NAME @ '' {''),
      (1, ''@override''),
      (1, OUTPUT_STREAM_TYPE_NAME @ '' write(Object? obj) {''),
      (2, ''if (obj != null) {''),
      (3, ''print(obj);''),
      (2, ''}''),
      (2, ''return this;''),
      (1, ''}''),
      (0, []),
      (1, ''@override''),
      (1, OUTPUT_STREAM_TYPE_NAME @ '' writeln([Object? obj = '' @ [CHR 0x27, CHR 0x27] @ '']) {''),
      (2, ''print(obj ?? '' @ [CHR 0x27, CHR 0x27] @ '');''),
      (2, ''return this;''),
      (1, ''}''),
      (0, []),
      (1, ''@override''),
      (1, ''void flush() {}''),
      (0, ''}''),
      (0, []),
      (0, ''class '' @ OUTPUT_STREAM_FILE_TYPE_NAME @ '' extends '' @ OUTPUT_STREAM_STRING_TYPE_NAME @ '' {''),
      (1, ''final String? path;''),
      (1, OUTPUT_STREAM_FILE_TYPE_NAME @ ''([this.path]);''),
      (0, ''}''),
      (0, []),
      (0, ''abstract class '' @ INPUT_STREAM_TYPE_NAME @ '' {''),
      (1, ''String? readLine();''),
      (1, ''int readByte();''),
      (1, ''bool get eof;''),
      (0, ''}''),
      (0, []),
      (0, ''class '' @ INPUT_STREAM_STRING_TYPE_NAME @ '' extends '' @ INPUT_STREAM_TYPE_NAME @ '' {''),
      (1, ''final String _content;''),
      (1, ''int _offset = 0;''),
      (0, []),
      (1, INPUT_STREAM_STRING_TYPE_NAME @ ''(this._content);''),
      (0, []),
      (1, ''@override''),
      (1, ''String? readLine() {''),
      (2, ''if (_offset >= _content.length) return null;''),
      (2, ''int nextNewline = _content.indexOf('' @ [CHR 0x27, CHR 0x5C] @ ''n'' @ [CHR 0x27] @
        '', _offset);''),
      (2, ''if (nextNewline == -1) {''),
      (3, ''final line = _content.substring(_offset);''),
      (3, ''_offset = _content.length;''),
      (3, ''return line;''),
      (2, ''}''),
      (2, ''final line = _content.substring(_offset, nextNewline);''),
      (2, ''_offset = nextNewline + 1;''),
      (2, ''return line.endsWith('' @ [CHR 0x27, CHR 0x5C] @ ''r'' @ [CHR 0x27] @
        '') ? line.substring(0, line.length - 1) : line;''),
      (1, ''}''),
      (0, []),
      (1, ''@override''),
      (1, ''int readByte() {''),
      (2, ''if (_offset >= _content.length) return -1;''),
      (2, ''final byte = _content.codeUnitAt(_offset);''),
      (2, ''_offset++;''),
      (2, ''return byte;''),
      (1, ''}''),
      (0, []),
      (1, ''@override''),
      (1, ''bool get eof => _offset >= _content.length;''),
      (0, ''}''),
      (0, []),
      (0, ''class '' @ INPUT_STREAM_FILE_TYPE_NAME @ '' extends '' @ INPUT_STREAM_STRING_TYPE_NAME @ '' {''),
      (1, ''final String? path;''),
      (1, INPUT_STREAM_FILE_TYPE_NAME @ ''([this.path, String content = '' @ [CHR 0x27, CHR 0x27] @
        '']) : super(content);''),
      (0, ''}'')]"

end
