(* ===== verification/Dart_Files.thy ===== *)
theory Dart_Files
  imports Dart_Decl Dart_Support
begin

text \<open>
  The files of a package, of \<^verbatim>\<open>crates/server/src/emit/dart.rs\<close>: the scanner that finds the identifiers of
  a Dart source (\<open>dart_code_identifiers\<close>), one file with its imports (\<open>emit_file\<close>), the support file,
  and the whole module (\<open>emit_module_with_externals\<close>), a map from paths to sources in the order of the
  paths. \<open>None\<close> stands for the panic of a body that cannot be emitted.
\<close>

section \<open>Identifiers of a source\<close>

definition ascii_alpha :: "char \<Rightarrow> bool" where
  "ascii_alpha c \<longleftrightarrow> ascii_upper c \<or> ascii_lower c"

definition ident_start :: "char \<Rightarrow> bool" where
  "ident_start c \<longleftrightarrow> ascii_alpha c \<or> c = CHR ''_''"

definition ident_part :: "char \<Rightarrow> bool" where
  "ident_part c \<longleftrightarrow> ascii_alnum c \<or> c = CHR ''_''"

definition ascii_whitespace :: "char \<Rightarrow> bool" where
  "ascii_whitespace c \<longleftrightarrow> c \<in> {CHR '' '', CHR 0x09, CHR 0x0A, CHR 0x0C, CHR 0x0D}"

text \<open>What follows the end of a string literal, a line comment and a block comment.\<close>

fun skip_string :: "char \<Rightarrow> string \<Rightarrow> string" where
  "skip_string q [] = []"
| "skip_string q (c # cs) =
     (if c = backslash then skip_string q (drop 1 cs)
      else if c = q then cs
      else skip_string q cs)"

definition skip_line :: "string \<Rightarrow> string" where
  "skip_line cs = dropWhile (\<lambda>c. c \<noteq> CHR 0x0A) cs"

fun skip_block :: "string \<Rightarrow> string" where
  "skip_block [] = []"
| "skip_block [c] = []"
| "skip_block (a # b # cs) = (if a = CHR ''*'' \<and> b = CHR ''/'' then cs else skip_block (b # cs))"

lemma length_skip_string [termination_simp]: "length (skip_string q cs) \<le> length cs"
proof (induction q cs rule: skip_string.induct)
  case (2 q c cs)
  then show ?case by (cases "c = backslash"; cases "c = q") auto
qed simp

lemma length_skip_line [termination_simp]: "length (skip_line cs) \<le> length cs"
  by (simp add: skip_line_def length_dropWhile_le)

lemma length_skip_block [termination_simp]: "length (skip_block cs) \<le> length cs"
  by (induction cs rule: skip_block.induct) auto

text \<open>Every identifier in its order, and whether a dot follows it.\<close>

function scan_identifiers :: "string \<Rightarrow> (string \<times> bool) list" where
  "scan_identifiers [] = []"
| "scan_identifiers (c # cs) =
     (if c = quote \<or> c = CHR 0x22 then scan_identifiers (skip_string c cs)
      else if c = CHR ''/'' \<and> str_starts_with cs ''/'' then scan_identifiers (skip_line (tl cs))
      else if c = CHR ''/'' \<and> str_starts_with cs ''*'' then scan_identifiers (skip_block (tl cs))
      else if ident_start c then
        (c # takeWhile ident_part cs,
         str_starts_with (dropWhile ascii_whitespace (dropWhile ident_part cs)) ''.'') #
          scan_identifiers (dropWhile ident_part cs)
      else scan_identifiers cs)"
  by pat_completeness auto
termination
proof (relation "measure length", goal_cases)
  case (3 c cs)
  have "length (skip_line (tl cs)) \<le> length cs" using length_skip_line [of "tl cs"] by simp
  then show ?case by simp
next
  case (4 c cs)
  have "length (skip_block (tl cs)) \<le> length cs" using length_skip_block [of "tl cs"] by simp
  then show ?case by simp
qed (simp_all add: length_skip_string le_imp_less_Suc length_dropWhile_le)

declare scan_identifiers.simps [simp del]

definition dart_code_identifiers :: "string \<Rightarrow> string set \<times> string set" where
  "dart_code_identifiers source =
     (let found = scan_identifiers source in (set (map fst found), set (map fst (filter snd found))))"

section \<open>One file\<close>

record declared_names =
  usr_to_stem :: "(string \<times> string) list"
  usr_to_name :: "(string \<times> string) list"
  declaration_names_by_stem :: "(string \<times> string list) list"

definition initial_emit_state :: emit_state where
  "initial_emit_state =
     \<lparr>used_expr_helper = False, used_utf8_encode = False, promoted = {}, emit_panicked = False\<rparr>"

definition emit_sections ::
  "rust_std \<Rightarrow> ir_enum list \<Rightarrow> ir_record list \<Rightarrow> ir_function list \<Rightarrow> string set \<Rightarrow> record_index \<Rightarrow> enum_index \<Rightarrow>
    copy_verdicts \<Rightarrow> mock_context \<Rightarrow> (emit_state, string list) state" where
  "emit_sections R enums records functions mixins ix enum_ix reasons mock =
     do {
       record_texts \<leftarrow> emit_all (\<lambda>r. emit_record R r (r_usr r \<in> mixins) ix enum_ix reasons mock) records;
       function_texts \<leftarrow> emit_all (\<lambda>f. emit_function R f mock) functions;
       State_Monad.return (map emit_enum enums @ record_texts @ function_texts) }"

text \<open>The stems a file imports, in their order.\<close>

definition needed_imports :: "string \<Rightarrow> string set \<Rightarrow> declared_names \<Rightarrow> string \<Rightarrow> string list" where
  "needed_imports stem referenced names source =
     (let (code_identifiers, qualified_owners) = dart_code_identifiers source;
          by_usr = (\<lambda>usr. the (map_of (usr_to_stem names) usr)) ` {usr \<in> referenced.
            (case map_of (usr_to_name names) usr of None \<Rightarrow> False | Some name \<Rightarrow> name \<in> code_identifiers) \<and>
            map_of (usr_to_stem names) usr \<noteq> None};
          by_owner = fst ` set (filter (\<lambda>(other, ns). list_ex (\<lambda>n. n \<in> qualified_owners) ns)
            (declaration_names_by_stem names))
      in sorted_list_of_set ((by_usr \<union> by_owner) - {stem}))"

definition SUPPORT_NAMES :: "string list" where
  "SUPPORT_NAMES =
     [OPAQUE_TYPE_NAME, PAIR_TYPE_NAME, NATIVE_HANDLE_TYPE_NAME, FIRST_WHERE_HELPER_NAME, LIST_CURSOR_TYPE_NAME,
      BYTE_CURSOR_TYPE_NAME, MAP_ENTRY_MARKER, INDEX_OF_BYTES_HELPER_NAME, INDEX_OF_BYTE_HELPER_NAME,
      OUTPUT_STREAM_TYPE_NAME, OUTPUT_STREAM_STRING_TYPE_NAME, OUTPUT_STREAM_STDOUT_TYPE_NAME,
      OUTPUT_STREAM_STDERR_TYPE_NAME, OUTPUT_STREAM_FILE_TYPE_NAME, INPUT_STREAM_TYPE_NAME,
      INPUT_STREAM_STRING_TYPE_NAME, INPUT_STREAM_FILE_TYPE_NAME]"

definition import_line :: "string \<Rightarrow> string" where
  "import_line target = ''import '' @ [quote] @ target @ [quote] @ '';''"

definition import_lines :: "bool \<Rightarrow> string \<Rightarrow> string list \<Rightarrow> string list" where
  "import_lines utf8 source stems =
     (if utf8 then [import_line ''dart:convert''] else []) @
     (if str_contains source ''Uint8List'' then [import_line ''dart:typed_data''] else []) @
     (if str_contains source ''stderr.'' then [import_line ''dart:io''] else []) @
     (if str_contains source ''math.max('' \<or> str_contains source ''math.min(''
      then [''import '' @ [quote] @ ''dart:math'' @ [quote] @ '' as math;''] else []) @
     (if list_ex (str_contains source) SUPPORT_NAMES then [import_line SUPPORT_FILE_NAME] else []) @
     map (\<lambda>other. import_line (other @ ''.dart'')) stems"

text \<open>The code of a file, without its imports, and the state its emission ends in.\<close>

definition file_code ::
  "rust_std \<Rightarrow> ir_enum list \<Rightarrow> ir_record list \<Rightarrow> ir_function list \<Rightarrow> string set \<Rightarrow> record_index \<Rightarrow> enum_index \<Rightarrow>
    copy_verdicts \<Rightarrow> mock_context \<Rightarrow> string \<times> emit_state" where
  "file_code R enums records functions mixins ix enum_ix reasons mock =
     (let (sections, st) = run_state (emit_sections R enums records functions mixins ix enum_ix reasons mock)
            initial_emit_state;
          source = str_join newline sections
      in (if used_expr_helper st then source @ (if source = [] then [] else newline) @ emit_unsupported_helper
          else source, st))"

definition emit_file ::
  "rust_std \<Rightarrow> string \<Rightarrow> ir_enum list \<Rightarrow> ir_record list \<Rightarrow> ir_function list \<Rightarrow> string set \<Rightarrow> record_index \<Rightarrow>
    declared_names \<Rightarrow> enum_index \<Rightarrow> copy_verdicts \<Rightarrow> mock_context \<Rightarrow> string option" where
  "emit_file R stem enums records functions mixins ix names enum_ix reasons mock =
     (let (source, st) = file_code R enums records functions mixins ix enum_ix reasons mock;
          referenced = reach_all (\<lambda>r. collect_referenced_usrs_in_record r ix) records \<union>
            reach_all collect_referenced_usrs_in_function functions;
          lines = import_lines (used_utf8_encode st) source (needed_imports stem referenced names source)
      in if emit_panicked st then None
         else Some (if lines = [] then source else str_join newline lines @ newline @ newline @ source))"

section \<open>The support file\<close>

definition STREAM_NAMES :: "string list" where
  "STREAM_NAMES =
     [OUTPUT_STREAM_TYPE_NAME, OUTPUT_STREAM_STRING_TYPE_NAME, OUTPUT_STREAM_STDOUT_TYPE_NAME,
      OUTPUT_STREAM_STDERR_TYPE_NAME, OUTPUT_STREAM_FILE_TYPE_NAME, INPUT_STREAM_TYPE_NAME,
      INPUT_STREAM_STRING_TYPE_NAME, INPUT_STREAM_FILE_TYPE_NAME]"

definition mentions :: "string list \<Rightarrow> string list \<Rightarrow> bool" where
  "mentions sources names = list_ex (\<lambda>source. list_ex (str_contains source) names) sources"

text \<open>The parts of the support file in their order, each with the names that call for it.\<close>

definition SUPPORT_PARTS :: "(string list \<times> string) list" where
  "SUPPORT_PARTS =
     [([OPAQUE_TYPE_NAME], emit_opaque_type),
      ([PAIR_TYPE_NAME], emit_pair_support),
      ([NATIVE_HANDLE_TYPE_NAME], emit_native_handle_support),
      ([FIRST_WHERE_HELPER_NAME], emit_first_where_support),
      ([LIST_CURSOR_TYPE_NAME], emit_list_cursor_support),
      ([BYTE_CURSOR_TYPE_NAME], emit_byte_cursor_support),
      ([MAP_ENTRY_MARKER], emit_map_entry_pair_extension),
      ([INDEX_OF_BYTES_HELPER_NAME, INDEX_OF_BYTE_HELPER_NAME], emit_string_byte_index_support),
      (STREAM_NAMES, emit_stream_support)]"

definition push_support :: "string \<Rightarrow> string \<Rightarrow> string" where
  "push_support part support =
     support @ (if support \<noteq> [] \<and> \<not> str_ends_with support (newline @ newline) then newline else []) @ part"

definition support_header :: "string list \<Rightarrow> string" where
  "support_header sources =
     (let header_imports =
            (if mentions sources [INDEX_OF_BYTES_HELPER_NAME, INDEX_OF_BYTE_HELPER_NAME]
             then [import_line ''dart:convert''] else []) @
            (if mentions sources [BYTE_CURSOR_TYPE_NAME] then [import_line ''dart:typed_data''] else [])
      in if header_imports = [] then [] else str_join newline header_imports @ newline @ newline)"

definition emit_support :: "string list \<Rightarrow> string option" where
  "emit_support sources =
     (let parts = map snd (filter (\<lambda>(names, _). mentions sources names) SUPPORT_PARTS)
      in if parts = [] then None else Some (fold push_support parts (support_header sources)))"

section \<open>The module\<close>

definition declarations :: "rust_std \<Rightarrow> ir_module \<Rightarrow> (string \<times> string \<times> string) list" where
  "declarations R md =
     map (\<lambda>r. (r_usr r, r_name r, file_stem R (o_file (r_origin r)))) (md_records md) @
     map (\<lambda>f. (f_usr f, f_name f, file_stem R (o_file (f_origin f)))) (md_functions md) @
     map (\<lambda>e. (en_usr e, en_name e, file_stem R (o_file (en_origin e)))) (md_enums md)"

definition declared_names_of :: "rust_std \<Rightarrow> ir_module \<Rightarrow> declared_names" where
  "declared_names_of R md =
     \<lparr>usr_to_stem = fold (\<lambda>(usr, name, stem). hm_put usr stem) (declarations R md) [],
      usr_to_name = fold (\<lambda>(usr, name, stem). hm_put usr name) (declarations R md) [],
      declaration_names_by_stem =
        map (\<lambda>stem. (stem, map (\<lambda>(usr, name, s). name) (filter (\<lambda>(usr, name, s). s = stem) (declarations R md))))
          (sorted_list_of_set (set (map (\<lambda>(usr, name, s). s) (declarations R md))))\<rparr>"

definition enums_by_usr :: "ir_enum list \<Rightarrow> enum_index" where
  "enums_by_usr es = fold (\<lambda>e. hm_put (en_usr e) e) es []"

text \<open>The declarations of one file, by line and then by name.\<close>

definition of_stem :: "rust_std \<Rightarrow> ('a \<Rightarrow> origin) \<Rightarrow> ('a \<Rightarrow> string) \<Rightarrow> string \<Rightarrow> 'a list \<Rightarrow> 'a list" where
  "of_stem R og name stem xs =
     sort_key (\<lambda>x. (o_line (og x), name x)) (filter (\<lambda>x. file_stem R (o_file (og x)) = stem) xs)"

definition dart_path :: "string \<Rightarrow> string" where
  "dart_path stem = ''lib/'' @ stem @ ''.dart''"

definition emit_stem_file :: "rust_std \<Rightarrow> ir_module \<Rightarrow> string set \<Rightarrow> string \<Rightarrow> string option" where
  "emit_stem_file R md externals stem =
     (let ix = records_by_usr (md_records md); enum_ix = enums_by_usr (md_enums md)
      in emit_file R stem (of_stem R en_origin en_name stem (md_enums md)) (of_stem R r_origin r_name stem (md_records md))
           (of_stem R f_origin f_name stem (md_functions md)) (mixin_usrs (md_records md)) ix (declared_names_of R md)
           enum_ix (copy_reasons (md_records md))
           \<lparr>external_usrs = externals, mock_enums = enum_ix, mock_records = ix\<rparr>)"

definition module_stems :: "rust_std \<Rightarrow> ir_module \<Rightarrow> string list" where
  "module_stems R md = sorted_list_of_set (set (map (\<lambda>(usr, name, stem). stem) (declarations R md)))"

definition emit_module_with_externals ::
  "rust_std \<Rightarrow> ir_module \<Rightarrow> string set \<Rightarrow> (string \<times> string) list option" where
  "emit_module_with_externals R module externals =
     (let md = rewrite_non_copyable_record_copies module
      in case those (map (\<lambda>stem. map_option (Pair (dart_path stem)) (emit_stem_file R md externals stem))
            (module_stems R md)) of
           None \<Rightarrow> None
         | Some named \<Rightarrow>
             (let files = fold (\<lambda>(path, source). bt_put path source) named []
              in Some (case emit_support (map snd files) of
                  None \<Rightarrow> files
                | Some support \<Rightarrow> bt_put (''lib/'' @ SUPPORT_FILE_NAME) support files)))"

definition emit_module :: "rust_std \<Rightarrow> ir_module \<Rightarrow> (string \<times> string) list option" where
  "emit_module R md = emit_module_with_externals R md {}"

end
