(* ===== verification/Dart_Emission.thy ===== *)
theory Dart_Emission
  imports Dart_Files
begin

text \<open>
  What every emission does to its state, in one locale: a reflexive and transitive relation on states that
  the steps of the emitter satisfy is satisfied by every expression, statement, declaration and file. Two
  interpretations: flags that are set stay set, and a module whose conversions the emitter knows is emitted
  without a panic.
\<close>

section \<open>The emitter by constructor\<close>

text \<open>The equations by constructor.\<close>

lemmas emit_expr_simps =
  emit_expr.simps [of R "EIntLiteral v og" for R v og, unfolded expr.case]
  emit_expr.simps [of R "EDoubleLiteral v og" for R v og, unfolded expr.case]
  emit_expr.simps [of R "EBoolLiteral v og" for R v og, unfolded expr.case]
  emit_expr.simps [of R "ENullLiteral og" for R og, unfolded expr.case]
  emit_expr.simps [of R "EStringLiteral v og" for R v og, unfolded expr.case]
  emit_expr.simps [of R "ERef n t og" for R n t og, unfolded expr.case]
  emit_expr.simps [of R "EBinary op l r t og" for R op l r t og, unfolded expr.case]
  emit_expr.simps [of R "EConditional c a b t og" for R c a b t og, unfolded expr.case]
  emit_expr.simps [of R "EUnary op e t og" for R op e t og, unfolded expr.case]
  emit_expr.simps [of R "ELambda ps b t og" for R ps b t og, unfolded expr.case]
  emit_expr.simps [of R "EListLiteral xs t og" for R xs t og, unfolded expr.case]
  emit_expr.simps [of R "EMapLiteral es t og" for R es t og, unfolded expr.case]
  emit_expr.simps [of R "EIs e t og" for R e t og, unfolded expr.case]
  emit_expr.simps [of R "EAs e t og" for R e t og, unfolded expr.case]
  emit_expr.simps [of R "EAssign tg v t og" for R tg v t og, unfolded expr.case]
  emit_expr.simps [of R "EConvert e t og" for R e t og, unfolded expr.case]
  emit_expr.simps [of R "ECall tg bq cu cn args t og" for R tg bq cu cn args t og, unfolded expr.case]
  emit_expr.simps [of R "EFieldAccess tg f t og" for R tg f t og, unfolded expr.case]
  emit_expr.simps [of R "ERecordConstruct u n fs og" for R u n fs og, unfolded expr.case]
  emit_expr.simps [of R "ERecordCopy tg u n og" for R tg u n og, unfolded expr.case]
  emit_expr.simps [of R "EConstructorCall u n i args og" for R u n i args og, unfolded expr.case]
  emit_expr.simps [of R "EThis t og" for R t og, unfolded expr.case]
  emit_expr.simps [of R "EIndex tg i t og" for R tg i t og, unfolded expr.case]
  emit_expr.simps [of R "EMapIndexOrInsert tg i d t og" for R tg i d t og, unfolded expr.case]
  emit_expr.simps [of R "EStringByteLength tg og" for R tg og, unfolded expr.case]
  emit_expr.simps [of R "EStringByteIndexOf tg nd fr og" for R tg nd fr og, unfolded expr.case]
  emit_expr.simps [of R "EStringByteAt tg i t og" for R tg i t og, unfolded expr.case]
  emit_expr.simps [of R "ETuple vs og" for R vs og, unfolded expr.case]
  emit_expr.simps [of R "ENamedArg n v" for R n v, unfolded expr.case]
  emit_expr.simps [of R "EUnsupported r og" for R r og, unfolded expr.case]
  emit_expr.simps [of R "EUnsupportedTyped r t og" for R r t og, unfolded expr.case]

lemmas emit_stmt_simps =
  emit_stmt.simps [of R depth "SReturn v og" for R depth v og, unfolded stmt.case]
  emit_stmt.simps [of R depth "SVarDecl n t i og" for R depth n t i og, unfolded stmt.case]
  emit_stmt.simps [of R depth "SAssign n v og" for R depth n v og, unfolded stmt.case]
  emit_stmt.simps [of R depth "SFieldAssign tg f v og" for R depth tg f v og, unfolded stmt.case]
  emit_stmt.simps [of R depth "SExprAssign tg v og" for R depth tg v og, unfolded stmt.case]
  emit_stmt.simps [of R depth "SIf c a b og" for R depth c a b og, unfolded stmt.case]
  emit_stmt.simps [of R depth "SWhile c b og" for R depth c b og, unfolded stmt.case]
  emit_stmt.simps [of R depth "SDoWhile b c og" for R depth b c og, unfolded stmt.case]
  emit_stmt.simps [of R depth "SFor i c n b og" for R depth i c n b og, unfolded stmt.case]
  emit_stmt.simps [of R depth "SForEach n t f w it b og" for R depth n t f w it b og, unfolded stmt.case]
  emit_stmt.simps [of R depth "SBreak og" for R depth og, unfolded stmt.case]
  emit_stmt.simps [of R depth "SContinue og" for R depth og, unfolded stmt.case]
  emit_stmt.simps [of R depth "SContinueLabel l og" for R depth l og, unfolded stmt.case]
  emit_stmt.simps [of R depth "SExprStmt e og" for R depth e og, unfolded stmt.case]
  emit_stmt.simps [of R depth "SThrow e og" for R depth e og, unfolded stmt.case]
  emit_stmt.simps [of R depth "STryCatch b t v c og" for R depth b t v c og, unfolded stmt.case]
  emit_stmt.simps [of R depth "STryFinally b f og" for R depth b f og, unfolded stmt.case]
  emit_stmt.simps [of R depth "STupleAssign ts v og" for R depth ts v og, unfolded stmt.case]
  emit_stmt.simps [of R depth "SSwitch s cs d og" for R depth s cs d og, unfolded stmt.case]
  emit_stmt.simps [of R depth "SUnsupported r og" for R depth r og, unfolded stmt.case]

section \<open>Parts and their sizes\<close>

lemma size_list_member: "x \<in> set xs \<Longrightarrow> size x < size_list size xs"
  by (induction xs) auto

lemma size_pairs_member:
  "(k, v) \<in> set es \<Longrightarrow> size k < size_list (size_prod size size) es \<and> size v < size_list (size_prod size size) es"
  "(n, v) \<in> set fs \<Longrightarrow> size v < size_list (size_prod (\<lambda>_. 0) size) fs"
  by (induction es; auto) (induction fs; auto)

text \<open>The conversions \<^verbatim>\<open>Expr::Convert\<close> is built with; any other one is \<^verbatim>\<open>unreachable!\<close> in the emitter.\<close>

definition known_conversion :: "expr \<Rightarrow> ty \<Rightarrow> bool" where
  "known_conversion operand t \<longleftrightarrow>
     asserts_not_null operand t \<or> is_this_expr operand \<or>
     (case t of TDouble \<Rightarrow> True | TInt \<Rightarrow> True | TBool \<Rightarrow> True | TNullable _ \<Rightarrow> True | _ \<Rightarrow> False)"

fun known_node :: "ir_node \<Rightarrow> bool" where
  "known_node (NExpr (EConvert operand t _)) = known_conversion operand t"
| "known_node _ = True"

abbreviation known :: "ir_node list \<Rightarrow> bool" where
  "known ns \<equiv> \<forall>n \<in> set ns. known_node n"

lemma nodes_write_target: "set (nodes_expr (write_target e)) \<subseteq> set (nodes_expr e)"
  by (cases e) (auto simp: write_target_def)

lemma compound_map_write_nodes:
  assumes "compound_map_write m i d v = Some (op, a, b, c, rhs, t)"
  shows "set (nodes_expr a) \<union> set (nodes_expr b) \<union> set (nodes_expr c) \<union> set (nodes_expr rhs) \<subseteq> set (nodes_expr v)"
  using assms by (auto simp: compound_map_write_def split: expr.splits if_splits)

lemma returned_value_nodes:
  "returned_value body = Some v \<Longrightarrow> set (nodes_expr v) \<subseteq> set (concat (map nodes_stmt body))"
  by (auto simp: returned_value_def split: list.splits stmt.splits option.splits)

lemma param_default_nodes:
  assumes "p \<in> set ps" and "p_default p = Some d"
  shows "set (nodes_expr d) \<subseteq> set (concat (map nodes_param ps))"
proof -
  have "set (nodes_expr d) \<subseteq> set (nodes_param p)" using assms(2) by (cases p) auto
  with assms(1) show ?thesis by auto
qed

section \<open>Relations every emission satisfies\<close>

locale emission_relation =
  fixes rel :: "emit_state \<Rightarrow> emit_state \<Rightarrow> bool" and panics :: bool
  assumes rel_refl: "rel s s"
    and rel_trans: "rel s t \<Longrightarrow> rel t u \<Longrightarrow> rel s u"
    and rel_promoted: "rel s (s\<lparr>promoted := ps\<rparr>)"
    and rel_helper: "rel s (s\<lparr>used_expr_helper := True\<rparr>)"
    and rel_utf8: "rel s (s\<lparr>used_utf8_encode := True\<rparr>)"
    and rel_panic: "panics \<Longrightarrow> rel s (s\<lparr>emit_panicked := True\<rparr>)"
begin

definition keeps :: "(emit_state, 'a) state \<Rightarrow> bool" where
  "keeps m \<longleftrightarrow> state_io_rel rel m"

text \<open>A part may panic, or its conversions are known.\<close>

definition fit :: "ir_node list \<Rightarrow> bool" where
  "fit ns \<longleftrightarrow> panics \<or> known ns"

lemma fit_subset: "fit ns \<Longrightarrow> set ms \<subseteq> set ns \<Longrightarrow> fit ms"
  by (auto simp: fit_def)

lemma keepsI: "(\<And>s. rel s (snd (run_state m s))) \<Longrightarrow> keeps m"
  by (simp add: keeps_def state_io_rel_def)

lemma keepsD: "keeps m \<Longrightarrow> run_state m s = (x, t) \<Longrightarrow> rel s t"
  by (auto simp: keeps_def state_io_rel_def) (metis snd_conv)

lemma keeps_return [intro!, simp]: "keeps (State_Monad.return x)"
  by (rule keepsI) (simp add: rel_refl)

lemma keeps_bind [intro]: "keeps m \<Longrightarrow> (\<And>x. keeps (f x)) \<Longrightarrow> keeps (State_Monad.bind m f)"
proof (rule keepsI)
  fix s assume m: "keeps m" and f: "\<And>x. keeps (f x)"
  obtain x t where run: "run_state m s = (x, t)" by (cases "run_state m s")
  obtain y u where next_run: "run_state (f x) t = (y, u)" by (cases "run_state (f x) t")
  show "rel s (snd (run_state (State_Monad.bind m f) s))"
    using rel_trans [OF keepsD [OF m run] keepsD [OF f next_run]] by (simp add: run next_run)
qed

lemma keeps_update: "(\<And>s. rel s (f s)) \<Longrightarrow> keeps (State_Monad.update f)"
  by (rule keepsI) (simp add: State_Monad.update_def)

lemma keeps_steps [intro!, simp]:
  "keeps get_promoted" "keeps (set_promoted ps)" "keeps (demote names)" "keeps (demote_target e)"
  "keeps use_expr_helper" "keeps use_utf8_encode" "keeps (bang_unless_promoted name)" "keeps (receiver_bang e)"
proof -
  have get: "keeps State_Monad.get" by (rule keepsI) (simp add: rel_refl)
  show gp: "keeps get_promoted" unfolding get_promoted_def by (intro keeps_bind get keeps_return)
  show sp: "keeps (set_promoted ps)" for ps unfolding set_promoted_def by (rule keeps_update) (rule rel_promoted)
  show "keeps (demote names)" for names unfolding demote_def by (rule keeps_update) (rule rel_promoted)
  then show "keeps (demote_target e)" by (simp add: demote_target_def)
  show "keeps use_expr_helper" unfolding use_expr_helper_def by (rule keeps_update) (rule rel_helper)
  show "keeps use_utf8_encode" unfolding use_utf8_encode_def by (rule keeps_update) (rule rel_utf8)
  show bang: "keeps (bang_unless_promoted name)" for name
    unfolding bang_unless_promoted_def by (intro keeps_bind gp sp keeps_return)
  show "keeps (receiver_bang e)" unfolding receiver_bang_def using bang by (auto split: expr.split)
qed

lemma keeps_panic: "panics \<Longrightarrow> keeps emit_panic"
  unfolding emit_panic_def by (intro keeps_bind keeps_update keeps_return) (rule rel_panic)

lemma keeps_scoped [intro]: "keeps (f x) \<Longrightarrow> keeps (scoped scope f x)"
  unfolding scoped_def by (intro keeps_bind keeps_steps keeps_return)

lemma keeps_emit_all [intro]: "(\<And>x. x \<in> set xs \<Longrightarrow> keeps (f x)) \<Longrightarrow> keeps (emit_all f xs)"
  unfolding emit_all_def by (induction xs) (auto intro!: keeps_bind)

lemma keeps_emit_optional [intro]: "(\<And>y. x = Some y \<Longrightarrow> keeps (f y)) \<Longrightarrow> keeps (emit_optional f x)"
  unfolding emit_optional_def by (cases x) auto

lemma keeps_receivers [intro]:
  "keeps (f e) \<Longrightarrow> keeps (emit_receiver f e)"
  "keeps (f e) \<Longrightarrow> keeps (emit_asserted_receiver f e)"
  "keeps (f e) \<Longrightarrow> keeps (emit_convert_operand f e)"
  "keeps (f e) \<Longrightarrow> keeps (emit_short_circuit_rhs f l e op)"
  by (auto simp: emit_receiver_def emit_asserted_receiver_def emit_convert_operand_def emit_short_circuit_rhs_def
      intro!: keeps_bind keeps_scoped)

lemma keeps_scoped_block [intro]:
  "(\<And>s. s \<in> set ss \<Longrightarrow> keeps (f depth s)) \<Longrightarrow> keeps (emit_scoped_block f ss depth scope)"
  unfolding emit_scoped_block_def by (intro keeps_scoped keeps_bind keeps_emit_all keeps_return)

lemma keeps_emit_body [intro]:
  "(\<And>s. s \<in> set ss \<Longrightarrow> keeps (f depth s)) \<Longrightarrow> keeps (emit_body f ps r ss og depth)"
  unfolding emit_body_def Let_def
  by (intro keeps_bind keeps_steps keeps_return) (auto split: option.split stmt.split intro!: keeps_bind keeps_emit_all)

lemma keeps_format_params [intro]:
  "(\<And>p d. p \<in> set ps \<Longrightarrow> p_default p = Some d \<Longrightarrow> keeps (f d)) \<Longrightarrow> keeps (format_params f ps)"
  unfolding format_params_def Let_def
  by (auto intro!: keeps_bind keeps_emit_all keeps_emit_optional keeps_scoped)

lemma keeps_map_index_write:
  assumes "keeps (f m)" "keeps (f i)" and le: "\<And>x. size x \<le> size v \<Longrightarrow> set (nodes_expr x) \<subseteq> set (nodes_expr v) \<Longrightarrow> keeps (f x)"
  shows "keeps (emit_map_index_write f m i d v)"
proof (cases "compound_map_write m i d v")
  case None
  then show ?thesis unfolding emit_map_index_write_def Let_def using assms by (auto intro!: keeps_bind)
next
  case (Some parts)
  obtain op a b c rhs t where parts: "parts = (op, a, b, c, rhs, t)" by (cases parts) auto
  have "keeps (f a)" "keeps (f b)" "keeps (f c)" "keeps (f rhs)"
    using compound_map_write_size [OF Some [unfolded parts]] compound_map_write_nodes [OF Some [unfolded parts]]
    by (simp_all add: le)
  then show ?thesis
    unfolding emit_map_index_write_def Let_def Some parts using assms(1,2) by (auto intro!: keeps_bind)
qed

lemma keeps_expr_assign:
  assumes t: "\<And>x. size x \<le> size t \<Longrightarrow> set (nodes_expr x) \<subseteq> set (nodes_expr t) \<Longrightarrow> keeps (f x)"
    and v: "\<And>x. size x \<le> size v \<Longrightarrow> set (nodes_expr x) \<subseteq> set (nodes_expr v) \<Longrightarrow> keeps (f x)"
  shows "keeps (emit_expr_assign f t v)"
proof -
  have "keeps (emit_map_index_write f a b c v)" if "t = EMapIndexOrInsert a b c u og" for a b c u og
    by (rule keeps_map_index_write) (use that in \<open>auto intro: t v\<close>)
  moreover have "keeps (f (write_target t))" by (intro t size_write_target nodes_write_target)
  moreover have "keeps (f v)" by (rule v) simp_all
  ultimately show ?thesis
    unfolding emit_expr_assign_def by (cases t) (auto intro!: keeps_bind)
qed

lemma keeps_expr_stmt:
  assumes le: "\<And>x. size x \<le> size e \<Longrightarrow> set (nodes_expr x) \<subseteq> set (nodes_expr e) \<Longrightarrow> keeps (f x)"
  shows "keeps (emit_expr_stmt f e)"
proof -
  have "keeps m" if inc: "emit_map_index_increment f e = Some m" for m
  proof -
    obtain op a b c t og u ov where e: "e = EUnary op (EMapIndexOrInsert a b c t og) u ov"
      using inc unfolding emit_map_index_increment_def by (cases e; cases "case e of EUnary _ x _ _ \<Rightarrow> x") (auto split: expr.splits)
    have "keeps (f a)" "keeps (f b)" "keeps (f c)" by (rule le; auto simp: e)+
    then show ?thesis
      using inc unfolding e emit_map_index_increment_def
      by (auto split: option.splits unary_op.splits intro!: keeps_bind)
  qed
  moreover have "keeps (f e)" by (rule le) simp_all
  ultimately show ?thesis unfolding emit_expr_stmt_def by (auto split: option.split)
qed

lemma keeps_for_clause:
  assumes le: "\<And>x. size x < size s \<Longrightarrow> set (nodes_expr x) \<subseteq> set (nodes_stmt s) \<Longrightarrow> keeps (f x)"
  shows "keeps (emit_for_clause f s)"
proof -
  have "keeps (emit_expr_assign f t v)" if "s = SExprAssign t v og" for t v og
    by (rule keeps_expr_assign) (use that in \<open>auto intro!: le\<close>)
  moreover have "keeps (emit_expr_stmt f e)" if "s = SExprStmt e og" for e og
    by (rule keeps_expr_stmt) (use that in \<open>auto intro!: le\<close>)
  moreover have "keeps (f v)" if "s = SAssign n v og" for n v og using that by (intro le) auto
  moreover have "keeps (f v)" if "s = SVarDecl n t (Some v) og" for n t v og using that by (intro le) auto
  ultimately show ?thesis
    unfolding emit_for_clause_def by (auto split: stmt.split option.split intro!: keeps_bind)
qed

text \<open>One step: an expression or statement keeps the relation if everything smaller in it does.\<close>

lemma keeps_branches:
  "(b \<Longrightarrow> keeps m) \<Longrightarrow> (\<not> b \<Longrightarrow> keeps n) \<Longrightarrow> keeps (if b then m else n)"
  "(x = None \<Longrightarrow> keeps m) \<Longrightarrow> (\<And>y. x = Some y \<Longrightarrow> keeps (f y)) \<Longrightarrow> keeps (case x of None \<Rightarrow> m | Some y \<Rightarrow> f y)"
  "(\<And>a b. p = (a, b) \<Longrightarrow> keeps (g a b)) \<Longrightarrow> keeps (case p of (a, b) \<Rightarrow> g a b)"
  "keeps (let y = v in h y) = keeps (h v)"
  by (simp_all split: option.split prod.split)

lemmas keeps_rules = keeps_return keeps_steps keeps_bind keeps_emit_all keeps_scoped keeps_receivers keeps_emit_optional
  keeps_format_params keeps_emit_body keeps_scoped_block keeps_branches(1-3) keeps_branches(4) [THEN iffD2]

lemmas member_sizes = size_list_member size_pairs_member

lemma keeps_emit_convert:
  assumes "keeps (emit_expr R operand)" and "panics \<or> known_conversion operand t"
  shows "keeps (emit_expr R (EConvert operand t og))"
proof (cases "asserts_not_null operand t")
  case True
  have bang: "keeps (case operand of ERef name (TNullable _) _ \<Rightarrow> bang_unless_promoted name | _ \<Rightarrow> State_Monad.return ''!'')"
    by (simp split: expr.split ty.split)
  show ?thesis unfolding emit_expr_simps if_P [OF True] by (intro keeps_rules bang assms(1))
next
  case False
  have panic: "is_this_expr operand" if "t \<notin> {TInt, TDouble, TBool}" "\<not> is_nullable (Some t)" "\<not> panics"
    using assms(2) that False by (auto simp: known_conversion_def is_nullable_def split: ty.splits)
  show ?thesis
    unfolding emit_expr_simps if_not_P [OF False]
    by (cases t; simp only: ty.case; intro keeps_rules assms(1) keeps_panic)
      (use panic in \<open>auto simp: is_nullable_def\<close>)
qed

lemma keeps_emit_lambda:
  assumes "\<And>p d. p \<in> set ps \<Longrightarrow> p_default p = Some d \<Longrightarrow> keeps (emit_expr R d)"
    and "\<And>d x. x \<in> set body \<Longrightarrow> keeps (emit_stmt R d x)"
    and "\<And>v. returned_value body = Some v \<Longrightarrow> keeps (emit_expr R v)"
  shows "keeps (emit_expr R (ELambda ps body t og))"
  unfolding emit_expr_simps by (intro keeps_rules assms)

lemma keeps_emit_expr_step:
  assumes fit: "fit (nodes_expr e)"
    and e: "\<And>x. size x < size e \<Longrightarrow> set (nodes_expr x) \<subseteq> set (nodes_expr e) \<Longrightarrow> keeps (emit_expr R x)"
    and s: "\<And>d x. size x < size e \<Longrightarrow> set (nodes_stmt x) \<subseteq> set (nodes_expr e) \<Longrightarrow> keeps (emit_stmt R d x)"
  shows "keeps (emit_expr R e)"
proof (cases e)
  case (EConvert operand t og)
  have "keeps (emit_expr R operand)" by (rule e) (auto simp: EConvert)
  moreover have "panics \<or> known_conversion operand t" using fit by (auto simp: fit_def EConvert)
  ultimately show ?thesis unfolding EConvert by (rule keeps_emit_convert)
next
  case (ELambda ps body t og)
  have "keeps (emit_expr R d)" if "p \<in> set ps" "p_default p = Some d" for p d
    using size_p_default [OF that] param_default_nodes [OF that] by (intro e) (auto simp: ELambda)
  moreover have "keeps (emit_stmt R d x)" if "x \<in> set body" for d x
    using size_list_member [OF that] that by (intro s) (auto simp: ELambda)
  moreover have "keeps (emit_expr R v)" if "returned_value body = Some v" for v
    using size_returned_value [OF that] returned_value_nodes [OF that] by (intro e) (auto simp: ELambda)
  ultimately show ?thesis unfolding ELambda by (rule keeps_emit_lambda)
qed ((simp only: emit_expr_simps, intro keeps_rules; rule e; auto dest: member_sizes)+)

lemma keeps_emit_stmt_step:
  assumes e: "\<And>x. size x < size s \<Longrightarrow> set (nodes_expr x) \<subseteq> set (nodes_stmt s) \<Longrightarrow> keeps (emit_expr R x)"
    and s: "\<And>d x. size x < size s \<Longrightarrow> set (nodes_stmt x) \<subseteq> set (nodes_stmt s) \<Longrightarrow> keeps (emit_stmt R d x)"
  shows "keeps (emit_stmt R depth s)"
proof (cases s)
  case (SExprAssign t v og)
  have "keeps (emit_expr_assign (emit_expr R) t v)"
    by (rule keeps_expr_assign; rule e) (auto simp: SExprAssign)
  then show ?thesis unfolding SExprAssign emit_stmt_simps by (intro keeps_rules)
next
  case (SExprStmt x og)
  have "keeps (emit_expr_stmt (emit_expr R) x)"
    by (rule keeps_expr_stmt; rule e) (auto simp: SExprStmt)
  then show ?thesis unfolding SExprStmt emit_stmt_simps by (intro keeps_rules)
next
  case (SFor i c n b og)
  have "keeps (emit_for_clause (emit_expr R) x)" if "i = Some x \<or> n = Some x" for x
    by (rule keeps_for_clause; rule e) (use that in \<open>auto simp: SFor\<close>)
  moreover have "keeps (emit_expr R x)" if "c = Some x" for x by (rule e) (auto simp: SFor that)
  moreover have "keeps (emit_stmt R d x)" if "x \<in> set b" for d x
    using size_list_member [OF that] that by (intro s) (auto simp: SFor)
  ultimately show ?thesis unfolding SFor emit_stmt_simps by (intro keeps_rules) simp_all
next
  case (SSwitch x cs b og)
  have "keeps (emit_expr R x)" by (rule e) (auto simp: SSwitch)
  moreover have "keeps (emit_expr R v)" if "SwitchCase vs ss l \<in> set cs" "v \<in> set vs" for vs ss l v
    using size_list_member [OF that(1)] size_list_member [OF that(2)] that by (intro e) (force simp: SSwitch)+
  moreover have "keeps (emit_stmt R d v)" if "SwitchCase vs ss l \<in> set cs" "v \<in> set ss" for vs ss l d v
    using size_list_member [OF that(1)] size_list_member [OF that(2)] that by (intro s) (force simp: SSwitch)+
  moreover have "keeps (emit_stmt R d v)" if "b = Some ss" "v \<in> set ss" for ss d v
    using size_list_member [OF that(2)] that by (intro s) (auto simp: SSwitch)
  ultimately show ?thesis
    unfolding SSwitch emit_stmt_simps by (intro keeps_rules) (auto split: switch_case.split intro!: keeps_rules)
qed ((simp only: emit_stmt_simps, intro keeps_rules; (rule e | rule s); auto dest: member_sizes)+)

lemma keeps_emit_upto:
  "(\<forall>R e. size e < n \<longrightarrow> fit (nodes_expr e) \<longrightarrow> keeps (emit_expr R e)) \<and>
    (\<forall>R d s. size s < n \<longrightarrow> fit (nodes_stmt s) \<longrightarrow> keeps (emit_stmt R d s))"
proof (induction n)
  case (Suc n)
  have e: "keeps (emit_expr R e)" if "size e < n" "fit (nodes_expr e)" for R e using Suc that by blast
  have s: "keeps (emit_stmt R d s)" if "size s < n" "fit (nodes_stmt s)" for R d s using Suc that by blast
  have "keeps (emit_expr R e)" if "size e < Suc n" "fit (nodes_expr e)" for R e
    by (rule keeps_emit_expr_step) (use that e s fit_subset in \<open>auto dest: less_trans_Suc\<close>)
  moreover have "keeps (emit_stmt R d s)" if "size s < Suc n" "fit (nodes_stmt s)" for R d s
    by (rule keeps_emit_stmt_step) (use that e s fit_subset in \<open>auto dest: less_trans_Suc\<close>)
  ultimately show ?case by blast
qed simp

lemma keeps_emit:
  "fit (nodes_expr e) \<Longrightarrow> keeps (emit_expr R e)"
  "fit (nodes_stmt s) \<Longrightarrow> keeps (emit_stmt R d s)"
  using keeps_emit_upto [of "Suc (size e)"] keeps_emit_upto [of "Suc (size s)"] by auto

text \<open>Declarations.\<close>

lemma keeps_stmts: "fit (nodes_stmts ss) \<Longrightarrow> x \<in> set ss \<Longrightarrow> keeps (emit_stmt R d x)"
  by (rule keeps_emit(2), erule fit_subset) (auto simp: nodes_stmts_def)

lemma keeps_params:
  assumes "fit (nodes_params ps)"
  shows "keeps (format_params (emit_expr R) ps)"
proof (rule keeps_format_params)
  fix p d assume "p \<in> set ps" "p_default p = Some d"
  from param_default_nodes [OF this] show "keeps (emit_expr R d)"
    by (intro keeps_emit(1) fit_subset [OF assms]) (simp add: nodes_params_def)
qed

lemma keeps_emit_function:
  assumes "fit (function_nodes f)"
  shows "keeps (emit_function R f mock)"
proof -
  have "fit (nodes_params (f_params f))" "fit (nodes_stmts (f_body f))"
    by (rule fit_subset [OF assms], simp add: function_nodes_def)+
  then show ?thesis unfolding emit_function_def by (intro keeps_rules keeps_params keeps_stmts)
qed

definition method_fit :: "ir_method \<Rightarrow> bool" where
  "method_fit m \<longleftrightarrow> fit (method_nodes m) \<and> (panics \<or> (m_name m = ''operator=='' \<longrightarrow> m_params m \<noteq> []))"

lemma keeps_emit_method:
  assumes "method_fit m"
  shows "keeps (emit_method R name m mock)"
proof -
  have nodes: "fit (method_nodes m)" using assms by (simp add: method_fit_def)
  have params: "keeps (format_params (emit_expr R) (m_params m))"
    by (rule keeps_params, rule fit_subset [OF nodes]) (simp add: method_nodes_def)
  have body: "keeps (emit_stmt R d x)" if "m_body m = Some ss" "x \<in> set ss" for d ss x
    by (rule keeps_stmts [OF _ that(2)], rule fit_subset [OF nodes]) (simp add: method_nodes_def that(1))
  have panic: "keeps emit_panic" if "m_name m = ''operator==''" "m_params m = []"
    using assms that by (intro keeps_panic) (auto simp: method_fit_def)
  have "keeps (emit_equality_operator R name m mock)" if "m_name m = ''operator==''"
    unfolding emit_equality_operator_def
    by (cases "m_params m"; simp only: list.case; intro keeps_rules panic that body) simp_all
  moreover have "keeps (emit_method_named R dart_name m mock)" for dart_name
    unfolding emit_method_named_def by (intro keeps_rules params body)
  ultimately show ?thesis unfolding emit_method_def by (intro keeps_branches(1))
qed

lemma split_init_exprs:
  "v \<in> snd ` set (inits_for_list (fold split_init inits st)) \<union> snd ` set (inits_for_body (fold split_init inits st)) \<union>
      (case base_init (fold split_init inits st) of None \<Rightarrow> {} | Some args \<Rightarrow> set args) \<Longrightarrow>
    v \<in> snd ` set (inits_for_list st) \<union> snd ` set (inits_for_body st) \<union>
      (case base_init st of None \<Rightarrow> {} | Some args \<Rightarrow> set args) \<or>
    set (nodes_expr v) \<subseteq> set (concat (map nodes_init inits))"
proof (induction inits arbitrary: st)
  case (Cons i inits)
  have step: "v \<in> snd ` set (inits_for_list (split_init i st)) \<union> snd ` set (inits_for_body (split_init i st)) \<union>
      (case base_init (split_init i st) of None \<Rightarrow> {} | Some args \<Rightarrow> set args) \<Longrightarrow>
    v \<in> snd ` set (inits_for_list st) \<union> snd ` set (inits_for_body st) \<union>
      (case base_init st of None \<Rightarrow> {} | Some args \<Rightarrow> set args) \<or> set (nodes_expr v) \<subseteq> set (nodes_init i)"
    by (cases i) (auto simp: split_init_def split: if_splits option.splits)
  show ?case using Cons.IH [of "split_init i st"] Cons.prems step by auto
qed simp

lemma split_inits_nodes:
  assumes "(n, v) \<in> set (inits_for_list (split_constructor_inits inits)) \<or>
      (n, v) \<in> set (inits_for_body (split_constructor_inits inits)) \<or>
      (\<exists>args. base_init (split_constructor_inits inits) = Some args \<and> v \<in> set args)"
  shows "set (nodes_expr v) \<subseteq> set (concat (map nodes_init inits))"
  using split_init_exprs [of v inits "\<lparr>inits_for_list = [], inits_for_body = [], base_init = None, extra_base_bailouts = []\<rparr>"]
    assms
  by (force simp: split_constructor_inits_def image_iff split: option.splits)

lemma keeps_emit_constructor:
  assumes nodes: "fit (constructor_nodes c)"
  shows "keeps (emit_constructor R name c mock)"
proof -
  let ?split = "split_constructor_inits (c_inits c)"
  have init: "keeps (emit_expr R v)"
    if "(n, v) \<in> set (inits_for_list ?split) \<or> (n, v) \<in> set (inits_for_body ?split) \<or>
      (\<exists>args. base_init ?split = Some args \<and> v \<in> set args)" for n v
    using split_inits_nodes [OF that] by (intro keeps_emit(1) fit_subset [OF nodes]) (auto simp: constructor_nodes_def)
  have body: "keeps (emit_stmt R d x)" if x: "x \<in> set (constructor_body_stmts c)" for d x
  proof (rule keeps_emit(2))
    have "known (nodes_stmt x) \<or> set (nodes_stmt x) \<subseteq> set (constructor_nodes c) \<or>
        (\<exists>n v. (n, v) \<in> set (inits_for_body ?split) \<and> x = SFieldAssign (EThis TVoid (c_origin c)) n v (c_origin c))"
      using x by (auto simp: constructor_body_stmts_def Let_def constructor_nodes_def nodes_stmts_def)
    then show "fit (nodes_stmt x)"
      using nodes split_inits_nodes [of _ _ "c_inits c"]
      by (auto simp: fit_def constructor_nodes_def) blast+
  qed
  have params: "keeps (format_params (emit_expr R) (c_params c))"
    by (rule keeps_params, rule fit_subset [OF nodes]) (simp add: constructor_nodes_def)
  show ?thesis
    unfolding emit_constructor_def Let_def by (intro params keeps_rules body) (auto intro: init)
qed

definition record_fit :: "ir_record \<Rightarrow> bool" where
  "record_fit r \<longleftrightarrow> (\<forall>m \<in> set (r_methods r). method_fit m) \<and> (\<forall>c \<in> set (r_constructors r). fit (constructor_nodes c))"

lemma keeps_emit_record: "record_fit r \<Longrightarrow> keeps (emit_record R r is_mixin ix enums reasons mock)"
  unfolding emit_record_def Let_def
  by (intro keeps_rules keeps_emit_constructor keeps_emit_method) (auto simp: record_fit_def)

lemma keeps_emit_sections:
  "(\<And>r. r \<in> set records \<Longrightarrow> record_fit r) \<Longrightarrow> (\<And>f. f \<in> set functions \<Longrightarrow> fit (function_nodes f)) \<Longrightarrow>
    keeps (emit_sections R enums records functions mixins ix enum_ix reasons mock)"
  unfolding emit_sections_def by (intro keeps_rules keeps_emit_record keeps_emit_function)

end

section \<open>Flags stay set\<close>

definition flags_grow :: "emit_state \<Rightarrow> emit_state \<Rightarrow> bool" where
  "flags_grow s t \<longleftrightarrow>
     (used_expr_helper s \<longrightarrow> used_expr_helper t) \<and> (used_utf8_encode s \<longrightarrow> used_utf8_encode t) \<and>
     (emit_panicked s \<longrightarrow> emit_panicked t)"

interpretation flags: emission_relation flags_grow True
  by unfold_locales (auto simp: flags_grow_def)

section \<open>Modules the emitter does not panic on\<close>

definition same_panic :: "emit_state \<Rightarrow> emit_state \<Rightarrow> bool" where
  "same_panic s t \<longleftrightarrow> emit_panicked t = emit_panicked s"

interpretation calm: emission_relation same_panic False
  by unfold_locales (auto simp: same_panic_def)

end
