(* ===== verification/Dart_Bodies.thy ===== *)
theory Dart_Bodies
  imports Dart_Emission
begin

text \<open>
  What a printed body is: one statement that throws, when a part of the body cannot be represented, and
  the text of every statement otherwise. Every module whose conversions the emitter knows is emitted.
\<close>

section \<open>Bodies that give up\<close>

text \<open>The statements of a statement, in the blocks and the clauses of loops as well, in their order.\<close>

function nested_stmts :: "stmt \<Rightarrow> stmt list" where
  "nested_stmts s = s #
     (case s of
        SIf _ a b _ \<Rightarrow> concat (map nested_stmts a) @ concat (map nested_stmts b)
      | SWhile _ b _ \<Rightarrow> concat (map nested_stmts b)
      | SFor i _ n b _ \<Rightarrow>
          (case i of None \<Rightarrow> [] | Some x \<Rightarrow> nested_stmts x) @ (case n of None \<Rightarrow> [] | Some x \<Rightarrow> nested_stmts x) @
          concat (map nested_stmts b)
      | SForEach _ _ _ _ _ b _ \<Rightarrow> concat (map nested_stmts b)
      | SDoWhile b _ _ \<Rightarrow> concat (map nested_stmts b)
      | STryCatch b _ _ c _ \<Rightarrow> concat (map nested_stmts b) @ concat (map nested_stmts c)
      | STryFinally b f _ \<Rightarrow> concat (map nested_stmts b) @ concat (map nested_stmts f)
      | SSwitch _ cs d _ \<Rightarrow>
          concat (map (\<lambda>c. case c of SwitchCase _ b _ \<Rightarrow> concat (map nested_stmts b)) cs) @
          (case d of None \<Rightarrow> [] | Some b \<Rightarrow> concat (map nested_stmts b))
      | _ \<Rightarrow> [])"
  by pat_completeness auto
termination by lexicographic_order

declare nested_stmts.simps [simp del]

fun unsupported_part :: "stmt \<Rightarrow> (string \<times> origin) option" where
  "unsupported_part (SUnsupported reason og) = Some (reason, og)"
| "unsupported_part _ = None"

text \<open>Every reason for which a body is given up, in the order in which they are looked for.\<close>

definition reasons_to_give_up :: "param list \<Rightarrow> ty option \<Rightarrow> stmt list \<Rightarrow> origin \<Rightarrow> (string \<times> origin) list" where
  "reasons_to_give_up params return_type body og =
     (case return_type of Some (TUnsupported spelling) \<Rightarrow> [(''unsupported return type: '' @ spelling, og)] | _ \<Rightarrow> []) @
     concat (map (\<lambda>p. case p_ty p of
         TUnsupported spelling \<Rightarrow>
           [(''unsupported parameter type: '' @ spelling @ '' (parameter `'' @ p_name p @ ''`)'', og)]
       | _ \<Rightarrow> []) params) @
     (case first_unsupported_type_in_list body of
        Some spelling \<Rightarrow> [(''unsupported type in expression: '' @ spelling, og)]
      | None \<Rightarrow> []) @
     filter_map unsupported_part (concat (map nested_stmts body))"

lemma find_map_append [simp]: "find_map f (xs @ ys) = or_else (find_map f xs) (find_map f ys)"
  by (induction xs) (auto split: option.splits)

lemma find_map_concat: "find_map f (concat (map g xs)) = find_map (\<lambda>x. find_map f (g x)) xs"
  by (induction xs) (auto split: option.splits)

fun unsupported_of :: "stmt \<Rightarrow> stmt option" where
  "unsupported_of (SUnsupported reason og) = Some (SUnsupported reason og)"
| "unsupported_of _ = None"

lemma first_unsupported_nested: "first_unsupported_in_stmt s = find_map unsupported_of (nested_stmts s)"
proof (induction s rule: first_unsupported_in_stmt.induct)
  case (1 s)
  have blocks: "find_map first_unsupported_in_stmt ss = find_map unsupported_of (concat (map nested_stmts ss))"
    if "\<And>x. x \<in> set ss \<Longrightarrow> first_unsupported_in_stmt x = find_map unsupported_of (nested_stmts x)" for ss
    unfolding find_map_concat by (rule find_map_cong) (simp_all add: that)
  have cases: "find_map (\<lambda>c. case c of SwitchCase vs b l \<Rightarrow> find_map first_unsupported_in_stmt b) cs =
      find_map unsupported_of (concat (map (\<lambda>c. case c of SwitchCase vs b l \<Rightarrow> concat (map nested_stmts b)) cs))"
    if "\<And>vs b l x. SwitchCase vs b l \<in> set cs \<Longrightarrow> x \<in> set b \<Longrightarrow>
      first_unsupported_in_stmt x = find_map unsupported_of (nested_stmts x)" for cs
    unfolding find_map_concat by (rule find_map_cong) (auto split: switch_case.split intro!: blocks that)
  show ?case
    by (subst first_unsupported_in_stmt.simps, subst nested_stmts.simps, cases s; simp only: stmt.case)
      (insert 1, auto simp: blocks cases split: option.split)
qed

lemma first_unsupported_body:
  "first_unsupported_in_list body = find_map unsupported_of (concat (map nested_stmts body))"
  unfolding find_map_concat by (rule find_map_cong) (simp_all add: first_unsupported_nested)

lemma unsupported_parts:
  "filter_map unsupported_part ss = [] \<longleftrightarrow> find_map unsupported_of ss = None"
  "filter_map unsupported_part ss = (reason, og) # rest \<Longrightarrow> find_map unsupported_of ss = Some (SUnsupported reason og)"
proof -
  have "(filter_map unsupported_part ss = [] \<longleftrightarrow> find_map unsupported_of ss = None) \<and>
      (\<forall>reason og rest. filter_map unsupported_part ss = (reason, og) # rest \<longrightarrow>
        find_map unsupported_of ss = Some (SUnsupported reason og))"
  proof (induction ss)
    case (Cons s ss)
    then show ?case by (cases s) (auto simp: filter_map_def)
  qed (simp add: filter_map_def)
  then show "filter_map unsupported_part ss = [] \<longleftrightarrow> find_map unsupported_of ss = None"
    "filter_map unsupported_part ss = (reason, og) # rest \<Longrightarrow> find_map unsupported_of ss = Some (SUnsupported reason og)"
    by blast+
qed

lemma unsupported_spelling_Some [simp]:
  "unsupported_spelling t = Some spelling \<longleftrightarrow> t = TUnsupported spelling"
  "unsupported_spelling (TUnsupported spelling) = Some spelling"
  by (cases t) (simp_all add: unsupported_spelling_def)

lemma unsupported_param:
  "first_unsupported_signature_param params =
    (case concat (map (\<lambda>p. case p_ty p of
         TUnsupported spelling \<Rightarrow>
           [(''unsupported parameter type: '' @ spelling @ '' (parameter `'' @ p_name p @ ''`)'', og)]
       | _ \<Rightarrow> []) params) of [] \<Rightarrow> None | (reason, _) # _ \<Rightarrow> Some reason)"
  by (induction params) (auto simp: first_unsupported_signature_param_def split: ty.splits)

text \<open>The statement a body is replaced with.\<close>

lemma first_reason:
  "or_else (map_option (\<lambda>reason. SUnsupported reason og) (bailout_reason params return_type body))
      (first_unsupported_in_list body) =
    (case reasons_to_give_up params return_type body og of
       [] \<Rightarrow> None | (reason, where_at) # _ \<Rightarrow> Some (SUnsupported reason where_at))"
proof -
  let ?nested = "concat (map nested_stmts body)"
  have last: "find_map unsupported_of ?nested =
      (case filter_map unsupported_part ?nested of [] \<Rightarrow> None | (reason, where_at) # _ \<Rightarrow> Some (SUnsupported reason where_at))"
    using unsupported_parts [of ?nested] by (cases "filter_map unsupported_part ?nested") auto
  define ps where "ps = concat (map (\<lambda>p. case p_ty p of
       TUnsupported spelling \<Rightarrow>
         [(''unsupported parameter type: '' @ spelling @ '' (parameter `'' @ p_name p @ ''`)'', og)]
     | _ \<Rightarrow> []) params)"
  have ogs: "\<forall>p \<in> set ps. snd p = og" by (auto simp: ps_def split: ty.splits)
  have param: "first_unsupported_signature_param params = (case ps of [] \<Rightarrow> None | (reason, _) # _ \<Rightarrow> Some reason)"
    unfolding ps_def by (rule unsupported_param)
  show ?thesis
  proof (cases "Option.bind return_type unsupported_spelling")
    case (Some spelling)
    then have "return_type = Some (TUnsupported spelling)"
      by (auto simp: bind_eq_Some_conv)
    then show ?thesis by (simp add: bailout_reason_def reasons_to_give_up_def unsupported_spelling_def)
  next
    case None
    then have "(case return_type of Some (TUnsupported spelling) \<Rightarrow> [(''unsupported return type: '' @ spelling, og)] | _ \<Rightarrow> []) = []"
      by (cases return_type) (auto split: ty.split)
    then show ?thesis
      using ogs by (cases ps; cases "first_unsupported_type_in_list body")
        (auto simp: bailout_reason_def reasons_to_give_up_def None param first_unsupported_body last ps_def [symmetric])
  qed
qed

lemma bails_out_reasons: "body_bails_out params return_type body \<longleftrightarrow> reasons_to_give_up params return_type body og \<noteq> []"
proof -
  have "body_bails_out params return_type body \<longleftrightarrow>
      or_else (map_option (\<lambda>reason. SUnsupported reason og) (bailout_reason params return_type body))
        (first_unsupported_in_list body) \<noteq> None"
    by (auto simp: body_bails_out_def bailout_reason_def)
  then show ?thesis unfolding first_reason by (auto split: list.split)
qed

lemma run_set_promoted [simp]: "run_state (set_promoted ps) st = ((), st\<lparr>promoted := ps\<rparr>)"
  by (simp add: set_promoted_def State_Monad.update_def)

lemma run_get_promoted [simp]: "run_state get_promoted st = (promoted st, st)"
  by (simp add: get_promoted_def State_Monad.get_def)

text \<open>
  C25. A body is either given up as a whole or printed as a whole. When there is a reason to give it up (an
  unsupported return type, parameter type or type of an expression, or a statement the representation
  could not express, in any block), what is printed is one comment and one throw of the first reason in
  that order, nothing of the body, and the state of the emission is untouched; the import walk, which asks
  \<open>body_bails_out\<close>, agrees. When there is none, the text is that of every statement in its order, each
  printed in the state the one before left, with promotions of its own.
\<close>

theorem bodies_give_up_or_print:
  "case reasons_to_give_up params return_type body og of
     (reason, where_at) # _ \<Rightarrow> body_bails_out params return_type body \<and>
       run_state (emit_body (emit_stmt R) params return_type body og depth) st =
         (emit_unsupported_stmt depth reason where_at, st)
   | [] \<Rightarrow> \<not> body_bails_out params return_type body \<and>
       run_state (emit_body (emit_stmt R) params return_type body og depth) st =
         (let (texts, st') = run_state (emit_all (emit_stmt R depth) body) (st\<lparr>promoted := {}\<rparr>)
          in (concat texts, st'\<lparr>promoted := promoted st\<rparr>))"
  unfolding emit_body_def Let_def first_reason bails_out_reasons [of params return_type body og]
  by (auto simp: run_state_return split: list.split prod.split)

end
