(* ===== verification/Dart_Total.thy ===== *)
theory Dart_Total
  imports Dart_Emission
begin

text \<open>
  Which modules the emitter emits: all whose conversions it knows, and what the result holds.
\<close>

section \<open>The rewriting of copies keeps the conversions known\<close>

lemma expr_ty_walk:
  "expr_ty (walk_expr (copy_walker reasons) e) = expr_ty e \<or>
    expr_ty e = None \<and> (\<exists>u n. expr_ty (walk_expr (copy_walker reasons) e) = Some (TRecord u n))"
  "True" "True" "True"
  by (induction e and "s::stmt" and "p::param" and "c::switch_case")
    (auto simp: blocked_copy_def split: option.splits)

lemma is_this_walk: "is_this_expr (walk_expr (copy_walker reasons) e) = is_this_expr e"
  by (cases e) (auto simp: is_this_expr_def blocked_copy_def split: option.splits)

lemma known_conversion_walk:
  assumes "known_conversion e t"
  shows "known_conversion (walk_expr (copy_walker reasons) e) t"
  using expr_ty_walk(1) [of reasons e] assms
  by (auto simp: known_conversion_def asserts_not_null_def is_this_walk is_nullable_def)

lemma known_walk:
  "list_all known_node (nodes_expr e) \<Longrightarrow> list_all known_node (nodes_expr (walk_expr (copy_walker reasons) e))"
  "list_all known_node (nodes_stmt s) \<Longrightarrow> list_all known_node (nodes_stmt (walk_stmt (copy_walker reasons) s))"
  "list_all known_node (nodes_param p) \<Longrightarrow> list_all known_node (nodes_param (walk_param (copy_walker reasons) p))"
  "list_all known_node (nodes_case c) \<Longrightarrow> list_all known_node (nodes_case (walk_case (copy_walker reasons) c))"
  by (induction e and s and p and c)
    (auto simp: blocked_copy_def list_all_parts known_conversion_walk fsts.simps snds.simps split: option.splits)

lemma known_stmts:
  assumes "list_all known_node (nodes_stmts ss)"
  shows "list_all known_node (nodes_stmts (rewrite_stmts_for_blocked_copy reasons ss))"
  using assms known_walk(2) by (auto simp: nodes_stmts_def rewrite_stmts_walk)

text \<open>
  A module the emitter can print: its conversions are of the kinds it knows, and an operator \<^verbatim>\<open>==\<close> has a
  parameter. What else is not of the language is printed as a throw.
\<close>

definition emittable :: "ir_module \<Rightarrow> bool" where
  "emittable md \<longleftrightarrow>
     list_all known_node (module_nodes (md_functions md) (md_records md)) \<and>
     list_all (\<lambda>m. m_name m = ''operator=='' \<longrightarrow> m_params m \<noteq> []) (concat (map r_methods (md_records md)))"

lemma emittable_parts:
  "emittable md \<longleftrightarrow>
    (\<forall>f \<in> set (md_functions md). list_all known_node (nodes_params (f_params f)) \<and> list_all known_node (nodes_stmts (f_body f))) \<and>
    (\<forall>r \<in> set (md_records md).
      (\<forall>m \<in> set (r_methods r). list_all known_node (nodes_params (m_params m)) \<and>
        list_all known_node (nodes_stmts (opt_nodes (m_body m))) \<and> (m_name m = ''operator=='' \<longrightarrow> m_params m \<noteq> [])) \<and>
      (\<forall>c \<in> set (r_constructors r). list_all known_node (nodes_params (c_params c)) \<and>
        list_all known_node (concat (map nodes_init (c_inits c))) \<and> list_all known_node (nodes_stmts (c_body c))))"
  unfolding emittable_def module_nodes_def record_nodes_def function_nodes_def method_nodes_def constructor_nodes_def
  by (simp add: list_all_iff) blast

lemma emittable_rewritten:
  assumes "emittable md"
  shows "emittable (rewrite_non_copyable_record_copies md)"
proof -
  have body: "list_all known_node (nodes_stmts (opt_nodes (map_option (rewrite_stmts_for_blocked_copy reasons) b)))"
    if "list_all known_node (nodes_stmts (opt_nodes b))" for reasons b
    using that by (cases b) (simp_all add: known_stmts)
  show ?thesis
    using assms unfolding emittable_parts
    by (auto simp: rewrite_non_copyable_record_copies_def rewrite_record_copies_def known_stmts body Let_def
        simp del: list_all_concat_map)
qed

lemma emittable_fits:
  assumes "emittable md"
  shows "r \<in> set (md_records md) \<Longrightarrow> calm.record_fit r" and "f \<in> set (md_functions md) \<Longrightarrow> calm.fit (function_nodes f)"
  using assms unfolding emittable_parts
  by (auto simp: calm.record_fit_def calm.method_fit_def calm.fit_def method_nodes_def constructor_nodes_def
      function_nodes_def list_all_iff)

section \<open>Every file is emitted\<close>

lemma emit_file_of_calm:
  assumes "emittable md" and "set records \<subseteq> set (md_records md)" and "set functions \<subseteq> set (md_functions md)"
  shows "emit_file R stem enums records functions mixins ix names enum_ix reasons mock \<noteq> None"
proof -
  let ?sections = "emit_sections R enums records functions mixins ix enum_ix reasons mock"
  have "calm.keeps ?sections"
    using assms by (intro calm.keeps_emit_sections emittable_fits [OF assms(1)]) auto
  then have "\<not> emit_panicked (snd (run_state ?sections initial_emit_state))"
    by (auto simp: calm.keeps_def state_io_rel_def same_panic_def initial_emit_state_def)
  then show ?thesis
    by (auto simp: emit_file_def file_code_def Let_def split: prod.splits)
qed

lemma set_of_stem: "set (of_stem R og name stem xs) \<subseteq> set xs"
  by (auto simp: of_stem_def)

lemma emit_stem_file_emitted: "emittable md \<Longrightarrow> emit_stem_file R md externals stem \<noteq> None"
  unfolding emit_stem_file_def Let_def by (rule emit_file_of_calm [OF _ set_of_stem set_of_stem])

lemma module_stems_rewritten [simp]: "module_stems R (rewrite_non_copyable_record_copies md) = module_stems R md"
  by (simp add: module_stems_def declarations_def rewrite_non_copyable_record_copies_def rewrite_record_copies_def
      Let_def comp_def)

lemma fold_bt_put_map:
  "inj_on key (set xs) \<Longrightarrow> distinct xs \<Longrightarrow>
    map_of (fold (\<lambda>(k, v). bt_put k v) (map (\<lambda>x. (key x, f x)) xs) m) path =
      (case List.find (\<lambda>x. key x = path) xs of None \<Rightarrow> map_of m path | Some x \<Rightarrow> Some (f x))"
proof (induction xs arbitrary: m)
  case (Cons x xs)
  then have "List.find (\<lambda>y. key y = key x) xs = None" by (auto simp: find_None_iff) (metis imageI)
  with Cons show ?case by (auto split: option.splits)
qed simp

lemma fold_bt_put_ok: "bt_ok m \<Longrightarrow> bt_ok (fold (\<lambda>(k, v). bt_put k v) kvs m)"
  by (induction kvs arbitrary: m) (auto simp: bt_ok_put)

lemma fold_bt_put_keys: "fst ` set (fold (\<lambda>(k, v). bt_put k v) kvs m) = fst ` set kvs \<union> fst ` set m"
proof (induction kvs arbitrary: m)
  case (Cons kv kvs)
  show ?case by (cases kv) (simp add: Cons.IH set_bt_put)
qed simp

lemma those_map_Some: "(\<And>x. x \<in> set xs \<Longrightarrow> f x = Some (g x)) \<Longrightarrow> those (map f xs) = Some (map g xs)"
  by (induction xs) auto

lemma dart_path_inj: "inj dart_path"
  by (auto simp: dart_path_def intro: injI)

definition module_files :: "rust_std \<Rightarrow> ir_module \<Rightarrow> string set \<Rightarrow> (string \<times> string) list" where
  "module_files R md externals =
     fold (\<lambda>(path, source). bt_put path source)
       (map (\<lambda>stem. (dart_path stem, the (emit_stem_file R md externals stem))) (module_stems R md)) []"

lemma emitted_module:
  assumes "emittable md"
  shows "emit_module_with_externals R md externals = Some (
    let files = module_files R (rewrite_non_copyable_record_copies md) externals
    in case emit_support (map snd files) of
         None \<Rightarrow> files
       | Some support \<Rightarrow> bt_put (''lib/'' @ SUPPORT_FILE_NAME) support files)"
proof -
  let ?md = "rewrite_non_copyable_record_copies md"
  have some: "emit_stem_file R ?md externals stem = Some (the (emit_stem_file R ?md externals stem))" for stem
    using emit_stem_file_emitted [OF emittable_rewritten [OF assms]] by auto
  have "those (map (\<lambda>stem. map_option (Pair (dart_path stem)) (emit_stem_file R ?md externals stem)) (module_stems R ?md)) =
      Some (map (\<lambda>stem. (dart_path stem, the (emit_stem_file R ?md externals stem))) (module_stems R ?md))"
    by (rule those_map_Some) (subst some, simp)
  then show ?thesis
    by (simp add: emit_module_with_externals_def module_files_def Let_def split: option.split)
qed

lemma module_files_lookup:
  "map_of (module_files R md externals) (dart_path stem) =
    (if stem \<in> set (module_stems R md) then Some (the (emit_stem_file R md externals stem)) else None)"
proof -
  have "List.find (\<lambda>x. dart_path x = dart_path stem) xs = (if stem \<in> set xs then Some stem else None)" for xs
    by (induction xs) (auto simp: inj_eq [OF dart_path_inj])
  moreover have "inj_on dart_path (set (module_stems R md))" "distinct (module_stems R md)"
    using dart_path_inj by (auto simp: module_stems_def inj_on_def inj_def)
  ultimately show ?thesis
    unfolding module_files_def by (subst fold_bt_put_map) simp_all
qed

text \<open>
  C26. A module whose conversions are of the kinds the emitter knows is emitted without a panic: every file that
  declares something has its path, sources come in the order of their paths, and beside them there is at
  most the support file. Each file is the one its own declarations give, except a project file that has
  the name of the support file.
\<close>

theorem every_module_is_emitted:
  assumes "emittable md"
  shows "\<exists>files. emit_module_with_externals R md externals = Some files \<and> sorted_wrt (<) (map fst files) \<and>
    dart_path ` set (module_stems R md) \<subseteq> fst ` set files \<and>
    fst ` set files \<subseteq> insert (''lib/'' @ SUPPORT_FILE_NAME) (dart_path ` set (module_stems R md)) \<and>
    list_all (\<lambda>stem. dart_path stem = ''lib/'' @ SUPPORT_FILE_NAME \<or>
      map_of files (dart_path stem) = emit_stem_file R (rewrite_non_copyable_record_copies md) externals stem)
      (module_stems R md)"
proof -
  let ?md = "rewrite_non_copyable_record_copies md"
  let ?files = "module_files R ?md externals"
  have some: "Some (the (emit_stem_file R ?md externals stem)) = emit_stem_file R ?md externals stem" for stem
    using emit_stem_file_emitted [OF emittable_rewritten [OF assms]] by auto
  have ok: "bt_ok ?files" unfolding module_files_def by (rule fold_bt_put_ok) (simp add: bt_ok_def)
  have keys: "fst ` set ?files = dart_path ` set (module_stems R md)"
    by (simp add: module_files_def fold_bt_put_keys image_image)
  show ?thesis
    unfolding emitted_module [OF assms] Let_def
    using ok bt_ok_put [OF ok]
    by (auto simp: keys set_bt_put list_all_iff module_files_lookup some bt_ok_def split: option.split)
qed

section \<open>A module\<close>

definition plain_record :: "string \<Rightarrow> ir_record" where
  "plain_record name =
     \<lparr>r_name = name, r_usr = ''c:@S@'' @ name, r_namespace = [], r_fields = [], r_static_fields = [],
      r_constructors = [], r_methods = [], r_base_class = None, r_mixins = [], r_library_base = None,
      r_destructor = None, r_origin = sample_origin\<rparr>"

definition sample_equality :: ir_method where
  "sample_equality =
     \<lparr>m_name = ''operator=='', m_usr = ''c:@S@Counter@F@operator=='',
      m_params = [Param ''o'' (TRecord ''c:@S@Counter'' ''Counter'') None], m_return_type = TBool,
      m_body = Some [SReturn (Some (EBinary OpEq (EFieldAccess (EThis TVoid sample_origin) ''n'' TInt sample_origin)
        (EFieldAccess (ERef ''o'' (TRecord ''c:@S@Counter'' ''Counter'') sample_origin) ''n'' TInt sample_origin)
        TBool sample_origin)) sample_origin],
      m_is_static = False, m_is_override = False, m_origin = sample_origin\<rparr>"

definition sample_counter :: ir_record where
  "sample_counter = (plain_record ''Counter'')\<lparr>r_fields := [\<lparr>fl_name = ''n'', fl_ty = TInt\<rparr>], r_methods := [sample_equality]\<rparr>"

definition sample_flag_count :: ir_function where
  "sample_flag_count =
     \<lparr>f_name = ''count'', f_usr = ''c:@F@count'', f_params = [Param ''b'' TBool None], f_return_type = TInt,
      f_body = [SReturn (Some (EConvert (ERef ''b'' TBool sample_origin) TInt sample_origin)) sample_origin],
      f_origin = sample_origin\<lparr>o_file := ''count.cpp''\<rparr>\<rparr>"

definition sample_counting :: ir_module where
  "sample_counting = \<lparr>md_functions = [sample_flag_count], md_records = [sample_counter], md_enums = []\<rparr>"

lemma sample_counting_stems: "set (module_stems latin_std sample_counting) = {''a'', ''count''}"
proof -
  have "set (map (\<lambda>(usr, name, stem). stem) (declarations latin_std sample_counting)) = {''a'', ''count''}" by code_simp
  then show ?thesis by (simp add: module_stems_def)
qed

theorem every_module_is_emitted_witness:
  "emittable sample_counting \<and>
    (\<exists>files. emit_module_with_externals latin_std sample_counting {} = Some files \<and>
      {''lib/a.dart'', ''lib/count.dart''} \<subseteq> fst ` set files)"
proof
  show known: "emittable sample_counting" by code_simp
  from every_module_is_emitted [OF this, of latin_std "{}"]
  show "\<exists>files. emit_module_with_externals latin_std sample_counting {} = Some files \<and>
      {''lib/a.dart'', ''lib/count.dart''} \<subseteq> fst ` set files"
    by (auto simp: sample_counting_stems dart_path_def)
qed

end
