(* ===== verification/Dart_Copies.thy ===== *)
theory Dart_Copies
  imports Dart_Total
begin

text \<open>
  Copies call constructors that are declared: the emitter prints \<^verbatim>\<open>T.syntaxBridgeCopyOf(e)\<close> only where it
  prints that constructor too.
\<close>

section \<open>The bodies of a module\<close>

definition rewritten_bodies :: "ir_module \<Rightarrow> ir_node list" where
  "rewritten_bodies md =
     concat (map (\<lambda>f. nodes_stmts (f_body f)) (md_functions md)) @
     concat (map (\<lambda>r. concat (map (\<lambda>m. nodes_stmts (opt_nodes (m_body m))) (r_methods r)) @
       concat (map (\<lambda>c. nodes_stmts (c_body c)) (r_constructors r))) (md_records md))"

lemma rewritten_bodies_allow_copies:
  assumes "n \<in> set (rewritten_bodies (rewrite_non_copyable_record_copies md))"
  shows "allowed_copy (copy_reasons (md_records md)) n"
proof -
  have opt: "nodes_stmts (opt_nodes (map_option (rewrite_stmts_for_blocked_copy reasons) b)) =
      (case b of None \<Rightarrow> [] | Some ss \<Rightarrow> nodes_stmts (rewrite_stmts_for_blocked_copy reasons ss))" for reasons b
    by (cases b) (simp_all add: nodes_stmts_def)
  show ?thesis
    using assms rewritten_stmts_allow_copies [of "copy_reasons (md_records md)"]
    by (auto simp: rewritten_bodies_def rewrite_non_copyable_record_copies_def rewrite_record_copies_def Let_def opt
        split: option.splits)
qed

section \<open>Records with a copy constructor\<close>

lemma records_by_usr_distinct:
  assumes "distinct (map r_usr rs)" and "r \<in> set rs"
  shows "map_of (records_by_usr rs) (r_usr r) = Some r"
proof -
  have "map_of (map (\<lambda>r. (r_usr r, r)) (rev rs)) (r_usr r) = Some r"
    using assms by (intro map_of_is_SomeI) (auto simp: comp_def distinct_map rev_map)
  then show ?thesis by (simp add: records_by_usr_lookup rev_map)
qed

lemma copyable_no_mixin:
  "record_copy_blocker ix mixins {} r = None \<Longrightarrow> \<not> effective_is_mixin mixins r"
  by (auto simp: record_copy_blocker.simps [of ix mixins "{}" r] split: if_splits)

lemma declares_copy_constructor_iff:
  assumes "distinct (map r_usr rs)" and "r \<in> set rs"
  shows "declares_copy_constructor (effective_is_mixin (mixin_usrs rs) r) (copy_reasons rs) r \<longleftrightarrow>
    map_of (copy_reasons rs) (r_usr r) = Some None"
  using copyable_no_mixin
  by (auto simp: declares_copy_constructor_def copy_reasons_lookup records_by_usr_distinct [OF assms])

definition prints :: "emission \<Rightarrow> string \<Rightarrow> bool" where
  "prints m part \<longleftrightarrow> (\<forall>st. str_contains (fst (run_state m st)) part)"

lemma bind_text:
  "\<exists>before after. fst (run_state (do {
      xs \<leftarrow> m; ys \<leftarrow> k; State_Monad.return (h @ f @ concat xs @ (gap @ part) @ concat ys @ t) }) st) =
    before @ part @ after"
proof -
  obtain xs s ys u where "run_state m st = (xs, s)" "run_state k s = (ys, u)" by fastforce
  then have "fst (run_state (do {
      xs \<leftarrow> m; ys \<leftarrow> k; State_Monad.return (h @ f @ concat xs @ (gap @ part) @ concat ys @ t) }) st) =
    (h @ f @ concat xs @ gap) @ part @ (concat ys @ t)"
    by simp
  then show ?thesis by blast
qed

lemma record_prints_copy_constructor:
  assumes "declares_copy_constructor (effective_is_mixin mixins r) reasons r"
  shows "prints (emit_record R r (r_usr r \<in> mixins) ix enums reasons mock)
    (r_name r @ ''.syntaxBridgeCopyOf('' @ r_name r @ '' other)'')"
  unfolding prints_def str_contains_iff sublist_def
proof
  fix st
  have mixin: "(r_usr r \<in> mixins \<and> \<not> has_ctor_inits r) = effective_is_mixin mixins r"
    by (simp add: effective_is_mixin_def)
  have "\<exists>before after. fst (run_state (emit_record R r (r_usr r \<in> mixins) ix enums reasons mock) st) =
      before @ emit_copy_constructor r ix reasons @ after"
    unfolding emit_record_def Let_def mixin if_P [OF assms] by (rule bind_text)
  moreover obtain rest where "emit_copy_constructor r ix reasons =
      INDENT @ (r_name r @ ''.syntaxBridgeCopyOf('' @ r_name r @ '' other)'') @ rest"
    unfolding emit_copy_constructor_def Let_def by (simp only: append.assoc)
  ultimately show "\<exists>before after. fst (run_state (emit_record R r (r_usr r \<in> mixins) ix enums reasons mock) st) =
      before @ (r_name r @ ''.syntaxBridgeCopyOf('' @ r_name r @ '' other)'') @ after"
    by (metis append.assoc)
qed

lemma rewritten_records:
  "md_records (rewrite_non_copyable_record_copies md) =
    map (rewrite_record_copies (copy_reasons (md_records md))) (md_records md)"
  by (simp add: rewrite_non_copyable_record_copies_def Let_def)

text \<open>A copy prints the name it carries itself, which need not be the one its record is declared with.\<close>

lemma copy_text:
  "fst (run_state (emit_expr R (ERecordCopy target u name og)) st) =
    name @ ''.syntaxBridgeCopyOf('' @ fst (run_state (emit_expr R target) st) @ '')''"
  by (simp add: emit_expr_simps parens_def split_beta)

text \<open>
  C27. A copy that is left in a body of a function, method or constructor when a module is emitted, and is
  spelled as the record it copies is declared in the module, calls a constructor that is printed: the
  record is declared as a class with the named copy constructor, what is printed for it contains the head
  of that constructor, and the text of the copy is a call of it by the same name, whatever the state of the
  emission. The first two hold of a copy with another spelling too, but that one calls another name.
\<close>

theorem copies_have_constructors:
  fixes md :: ir_module
  defines "rs \<equiv> md_records (rewrite_non_copyable_record_copies md)"
  assumes "distinct (map r_usr (md_records md))"
    and "NExpr (ERecordCopy target (r_usr r) name og) \<in> set (rewritten_bodies (rewrite_non_copyable_record_copies md))"
    and "r \<in> set rs"
  shows "declares_copy_constructor (effective_is_mixin (mixin_usrs rs) r) (copy_reasons rs) r \<and>
    prints (emit_record R r (r_usr r \<in> mixin_usrs rs) (records_by_usr rs) enums (copy_reasons rs) mock)
      (r_name r @ ''.syntaxBridgeCopyOf('' @ r_name r @ '' other)'') \<and>
    (\<forall>st. fst (run_state (emit_expr R (ERecordCopy target (r_usr r) name og)) st) =
        r_name r @ ''.syntaxBridgeCopyOf('' @ fst (run_state (emit_expr R target) st) @ '')'' \<longleftrightarrow> name = r_name r)"
proof -
  have distinct: "distinct (map r_usr rs)"
    using assms(2) by (simp add: rs_def rewritten_records comp_def)
  have reasons: "map_of (copy_reasons rs) (r_usr r) = map_of (copy_reasons (md_records md)) (r_usr r)"
    by (simp add: rs_def rewritten_records copy_reasons_rewritten)
  have "map_of (copy_reasons rs) (r_usr r) \<noteq> None"
    by (simp add: copy_reasons_lookup records_by_usr_distinct [OF distinct assms(4)])
  moreover have "allowed_copy (copy_reasons (md_records md)) (NExpr (ERecordCopy target (r_usr r) name og))"
    using assms(3) by (rule rewritten_bodies_allow_copies)
  ultimately have "map_of (copy_reasons rs) (r_usr r) = Some None"
    unfolding reasons by (auto split: option.splits)
  then have "declares_copy_constructor (effective_is_mixin (mixin_usrs rs) r) (copy_reasons rs) r"
    using declares_copy_constructor_iff [OF distinct assms(4)] by simp
  then show ?thesis using record_prints_copy_constructor [of _ r] by (simp add: copy_text)
qed

section \<open>Copying the base\<close>

text \<open>From a record to its base, by USR.\<close>

definition extends_edges :: "ir_record list \<Rightarrow> (string \<times> string) set" where
  "extends_edges rs = {(r_usr r, bc_usr b) | r b. r \<in> set rs \<and> r_base_class r = Some b}"

lemma records_by_usr_SomeD:
  assumes "map_of (records_by_usr rs) u = Some r"
  shows "r \<in> set rs" and "r_usr r = u"
proof -
  have "map_of (rev (map (\<lambda>r. (r_usr r, r)) rs)) u = Some r"
    using assms by (simp add: records_by_usr_lookup)
  from map_of_SomeD [OF this] show "r \<in> set rs" "r_usr r = u" by auto
qed

lemma blocker_visiting:
  assumes "acyclic (extends_edges rs)"
  shows "r \<in> set rs \<Longrightarrow> \<forall>v \<in> visiting \<union> others. (r_usr r, v) \<notin> (extends_edges rs)\<^sup>* \<Longrightarrow>
    record_copy_blocker (records_by_usr rs) mixins visiting r = record_copy_blocker (records_by_usr rs) mixins others r"
proof (induction "records_by_usr rs" mixins visiting r arbitrary: others rule: record_copy_blocker.induct)
  case (1 mixins visiting r)
  have fresh: "r_usr r \<notin> visiting" "r_usr r \<notin> others" using 1(3) by auto
  have base: "record_copy_blocker (records_by_usr rs) mixins (insert (r_usr r) visiting) base =
      record_copy_blocker (records_by_usr rs) mixins (insert (r_usr r) others) base"
    if "\<not> effective_is_mixin mixins r" and b: "r_base_class r = Some b" and found: "map_of (records_by_usr rs) (bc_usr b) = Some base" for b base
  proof (rule 1(1) [OF fresh(1) that])
    show "base \<in> set rs" using records_by_usr_SomeD [OF found] by simp
    have edge: "(r_usr r, r_usr base) \<in> extends_edges rs"
      using 1(2) b records_by_usr_SomeD [OF found] by (auto simp: extends_edges_def)
    then have "(r_usr base, r_usr r) \<notin> (extends_edges rs)\<^sup>*"
      using assms by (meson acyclic_def rtrancl_into_trancl2)
    moreover have "(r_usr base, v) \<notin> (extends_edges rs)\<^sup>*" if "v \<in> visiting \<union> others" for v
      using 1(3) edge that by (meson converse_rtrancl_into_rtrancl)
    ultimately show "\<forall>v \<in> insert (r_usr r) visiting \<union> insert (r_usr r) others. (r_usr base, v) \<notin> (extends_edges rs)\<^sup>*"
      by auto
  qed
  show ?case
    using fresh base
    by (auto simp: record_copy_blocker.simps [of _ _ visiting r] record_copy_blocker.simps [of _ _ others r]
        split: option.splits)
qed

lemma copyable_base:
  assumes "record_copy_blocker ix mixins {} r = None" and "r_base_class r = Some b"
  obtains base where "map_of ix (bc_usr b) = Some base" "record_copy_blocker ix mixins {r_usr r} base = None"
  using assms by (auto simp: record_copy_blocker.simps [of ix mixins "{}" r] split: option.splits if_splits)

lemma copyable_mixins:
  assumes "record_copy_blocker ix mixins {} r = None" and "b \<in> set (copied_mixins ix r)"
  obtains m where "map_of ix (bc_usr b) = Some m" "list_all (\<lambda>f. \<not> is_private_name (fl_name f)) (r_fields m)"
proof -
  have "find_map (mixin_copy_blocker ix) (copied_mixins ix r) = None"
    using assms(1) by (auto simp: record_copy_blocker.simps [of ix mixins "{}" r] split: if_splits)
  then have "mixin_copy_blocker ix b = None" using assms(2) by (rule find_map_NoneD)
  then show ?thesis
    by (auto simp: mixin_copy_blocker_def find_None_iff list_all_iff intro: that split: option.splits)
qed

text \<open>
  C28. What a copy constructor calls is there, when no class extends itself: the base of a record with a copy
  constructor is in the module and has one too, and every mixin whose fields the body assigns is in the
  module with no field that another library cannot read.
\<close>

theorem copy_constructors_are_complete:
  assumes "distinct (map r_usr rs)" and "acyclic (extends_edges rs)" and "r \<in> set rs"
    and "declares_copy_constructor (effective_is_mixin (mixin_usrs rs) r) (copy_reasons rs) r"
  shows "(case r_base_class r of None \<Rightarrow> True | Some b \<Rightarrow>
      (\<exists>base \<in> set rs. r_usr base = bc_usr b \<and>
        declares_copy_constructor (effective_is_mixin (mixin_usrs rs) base) (copy_reasons rs) base)) \<and>
    list_all (\<lambda>b. \<exists>m \<in> set rs. r_usr m = bc_usr b \<and> list_all (\<lambda>f. \<not> is_private_name (fl_name f)) (r_fields m))
      (copied_mixins (records_by_usr rs) r)"
proof
  let ?blocker = "record_copy_blocker (records_by_usr rs) (mixin_usrs rs)"
  have blocker: "?blocker {} r = None"
    using assms(4) unfolding declares_copy_constructor_iff [OF assms(1,3)]
    by (simp add: copy_reasons_lookup records_by_usr_distinct [OF assms(1,3)])
  show "case r_base_class r of None \<Rightarrow> True | Some b \<Rightarrow>
      (\<exists>base \<in> set rs. r_usr base = bc_usr b \<and>
        declares_copy_constructor (effective_is_mixin (mixin_usrs rs) base) (copy_reasons rs) base)"
  proof (cases "r_base_class r")
    case (Some b)
    obtain base where found: "map_of (records_by_usr rs) (bc_usr b) = Some base" "?blocker {r_usr r} base = None"
      using copyable_base [OF blocker Some] .
    note base = records_by_usr_SomeD [OF found(1)]
    have "(r_usr r, r_usr base) \<in> extends_edges rs" using assms(3) Some base by (auto simp: extends_edges_def)
    then have "(r_usr base, r_usr r) \<notin> (extends_edges rs)\<^sup>*"
      using assms(2) by (meson acyclic_def rtrancl_into_trancl2)
    then have "?blocker {} base = None" using blocker_visiting [OF assms(2) base(1), of "{}" "{r_usr r}"] found(2) by simp
    then have "declares_copy_constructor (effective_is_mixin (mixin_usrs rs) base) (copy_reasons rs) base"
      using declares_copy_constructor_iff [OF assms(1) base(1)] found(1) base(2) by (simp add: copy_reasons_lookup)
    with base Some show ?thesis by auto
  qed simp
  show "list_all (\<lambda>b. \<exists>m \<in> set rs. r_usr m = bc_usr b \<and> list_all (\<lambda>f. \<not> is_private_name (fl_name f)) (r_fields m))
      (copied_mixins (records_by_usr rs) r)"
    using copyable_mixins [OF blocker] records_by_usr_SomeD unfolding list_all_iff by metis
qed

section \<open>A module\<close>

text \<open>
  \<^verbatim>\<open>struct B : A, M {}\<close> with \<^verbatim>\<open>M\<close> a mixin. A function copies a \<^verbatim>\<open>B\<close> and an \<^verbatim>\<open>M\<close>; only the first copy stays.
\<close>

definition sample_base :: "string \<Rightarrow> base_class" where
  "sample_base name = \<lparr>bc_usr = ''c:@S@'' @ name, bc_name = name\<rparr>"

definition sample_copy_of :: "string \<Rightarrow> expr" where
  "sample_copy_of name =
     ERecordCopy (ERef ''x'' (TRecord (''c:@S@'' @ name) name) sample_origin) (''c:@S@'' @ name) name sample_origin"

definition sample_derived :: ir_record where
  "sample_derived =
     (plain_record ''B'')\<lparr>r_base_class := Some (sample_base ''A''), r_mixins := [sample_base ''M''],
        r_fields := [\<lparr>fl_name = ''xs'', fl_ty = TList TInt\<rparr>, \<lparr>fl_name = ''a'', fl_ty = TRecord ''c:@S@A'' ''A''\<rparr>]\<rparr>"

definition sample_mixed_in :: ir_record where
  "sample_mixed_in = (plain_record ''M'')\<lparr>r_fields := [\<lparr>fl_name = ''m'', fl_ty = TInt\<rparr>]\<rparr>"

definition sample_copies :: ir_module where
  "sample_copies =
     \<lparr>md_functions =
        [\<lparr>f_name = ''f'', f_usr = ''c:@F@f'', f_params = [], f_return_type = TVoid,
          f_body = [SExprStmt (sample_copy_of ''B'') sample_origin, SExprStmt (sample_copy_of ''M'') sample_origin],
          f_origin = sample_origin\<rparr>],
      md_records = [plain_record ''A'', sample_derived, sample_mixed_in], md_enums = []\<rparr>"

lemma sample_copies_rewritten:
  "md_records (rewrite_non_copyable_record_copies sample_copies) = md_records sample_copies"
  "NExpr (sample_copy_of ''B'') \<in> set (rewritten_bodies (rewrite_non_copyable_record_copies sample_copies))"
  "NExpr (sample_copy_of ''M'') \<notin> set (rewritten_bodies (rewrite_non_copyable_record_copies sample_copies))"
  by code_simp+

theorem copies_have_constructors_witness:
  "declares_copy_constructor
      (effective_is_mixin (mixin_usrs (md_records (rewrite_non_copyable_record_copies sample_copies))) sample_derived)
      (copy_reasons (md_records (rewrite_non_copyable_record_copies sample_copies))) sample_derived \<and>
    fst (run_state (emit_expr latin_std (sample_copy_of ''B'')) initial_emit_state) = ''B.syntaxBridgeCopyOf(x)''"
proof -
  let ?x = "ERef ''x'' (TRecord ''c:@S@B'' ''B'') sample_origin"
  have b: "sample_copy_of ''B'' = ERecordCopy ?x (r_usr sample_derived) ''B'' sample_origin" "r_name sample_derived = ''B''"
    by (simp_all add: sample_copy_of_def sample_derived_def plain_record_def)
  have "distinct (map r_usr (md_records sample_copies))" by code_simp
  moreover have "NExpr (ERecordCopy ?x (r_usr sample_derived) ''B'' sample_origin)
      \<in> set (rewritten_bodies (rewrite_non_copyable_record_copies sample_copies))"
    using sample_copies_rewritten(2) by (simp add: b)
  moreover have "sample_derived \<in> set (md_records (rewrite_non_copyable_record_copies sample_copies))"
    unfolding sample_copies_rewritten(1) by (simp add: sample_copies_def)
  moreover have "fst (run_state (emit_expr latin_std ?x) initial_emit_state) = ''x''" by code_simp
  ultimately show ?thesis
    using copies_have_constructors [of sample_copies ?x sample_derived "''B''" sample_origin latin_std]
    by (simp add: b)
qed

theorem copy_constructors_are_complete_witness:
  "\<exists>base \<in> set (md_records sample_copies). r_usr base = ''c:@S@A'' \<and>
    declares_copy_constructor (effective_is_mixin (mixin_usrs (md_records sample_copies)) base)
      (copy_reasons (md_records sample_copies)) base"
proof -
  have "distinct (map r_usr (md_records sample_copies))" by code_simp
  moreover have "extends_edges (md_records sample_copies) \<subseteq> {(''c:@S@B'', ''c:@S@A'')}"
    by (auto simp: extends_edges_def sample_copies_def sample_derived_def sample_mixed_in_def plain_record_def sample_base_def)
  then have "acyclic (extends_edges (md_records sample_copies))" by (rule acyclic_subset [rotated]) (simp add: wf_acyclic)
  moreover have "sample_derived \<in> set (md_records sample_copies)" by (simp add: sample_copies_def)
  moreover have "declares_copy_constructor (effective_is_mixin (mixin_usrs (md_records sample_copies)) sample_derived)
      (copy_reasons (md_records sample_copies)) sample_derived"
    by code_simp
  ultimately show ?thesis
    using copy_constructors_are_complete [of "md_records sample_copies" sample_derived]
    by (simp add: sample_derived_def plain_record_def sample_base_def)
qed

text \<open>
  The pass replaces copies in bodies only: one in an initializer of a constructor stays, of a mixin, which
  declares no constructor.
\<close>

definition sample_holder :: ir_record where
  "sample_holder =
     (plain_record ''H'')\<lparr>r_fields := [\<lparr>fl_name = ''m'', fl_ty = TRecord ''c:@S@M'' ''M''\<rparr>],
        r_constructors := [\<lparr>c_usr = ''c:@S@H@F@H'', c_index = 0, c_params = [Param ''x'' (TRecord ''c:@S@M'' ''M'') None],
          c_inits = [CField ''m'' (sample_copy_of ''M'')], c_body = [], c_origin = sample_origin\<rparr>]\<rparr>"

theorem initializer_copy_is_kept:
  "let md = rewrite_non_copyable_record_copies
      (sample_copies\<lparr>md_records := [plain_record ''A'', sample_derived, sample_mixed_in, sample_holder]\<rparr>)
   in map_of (copy_reasons (md_records md)) ''c:@S@M'' = Some (Some blocked_as_mixin) \<and>
      map (map c_inits \<circ> r_constructors) (md_records md) = [[], [], [], [[CField ''m'' (sample_copy_of ''M'')]]]"
  by code_simp

end
