(* ===== verification/Dart_Syntax.thy ===== *)
theory Dart_Syntax
  imports Dart_Bodies
begin

text \<open>
  The operators of an expression as Dart reads them. A lexer and the grammar of Dart's operators, from
  the language specification, read the text of an expression back; what is read is the tree that was
  printed, for expressions of names, numbers, operators, conditionals and the scalar conversions, except
  where the emitter leaves parentheses out that Dart needs, which is characterised.
\<close>

section \<open>Tokens\<close>

datatype dart_token = TWord string | TSym string

text \<open>The operators of two characters that can start with a character of the text.\<close>

definition TWO_CHAR_OPERATORS :: "string list" where
  "TWO_CHAR_OPERATORS =
     [''||'', ''&&'', ''=='', ''!='', ''<='', ''>='', ''<<'', ''>>'', ''~/'', ''++'', ''--'', ''??'', ''?.'', ''=>'', ''+='', ''-='']"

function dart_tokens :: "string \<Rightarrow> dart_token list" where
  "dart_tokens [] = []"
| "dart_tokens (c # cs) =
     (if ascii_whitespace c then dart_tokens cs
      else if ident_part c then TWord (c # takeWhile ident_part cs) # dart_tokens (dropWhile ident_part cs)
      else if c # take 1 cs \<in> set TWO_CHAR_OPERATORS then TSym (c # take 1 cs) # dart_tokens (drop 1 cs)
      else TSym [c] # dart_tokens cs)"
  by pat_completeness auto
termination by (relation "measure length") (simp_all add: le_imp_less_Suc length_dropWhile_le)

declare dart_tokens.simps [simp del]

text \<open>A text whose tokens are those, whatever starts with a space or a closing parenthesis after it.\<close>

definition ends_token :: "string \<Rightarrow> bool" where
  "ends_token s = (case s of [] \<Rightarrow> True | c # _ \<Rightarrow> c = CHR '' '' \<or> c = CHR '')'')"

definition lexes :: "string \<Rightarrow> dart_token list \<Rightarrow> bool" where
  "lexes s ts \<longleftrightarrow> (\<forall>rest. ends_token rest \<longrightarrow> dart_tokens (s @ rest) = ts @ dart_tokens rest)"

lemma lexesD: "lexes s ts \<Longrightarrow> dart_tokens s = ts"
  by (force simp: lexes_def ends_token_def dart_tokens.simps dest: spec [of _ "[]"])

lemma ends_token_simps [simp]: "ends_token []" "ends_token (CHR '' '' # s)" "ends_token (CHR '')'' # s)"
  by (simp_all add: ends_token_def)

lemma tokens_space [simp]: "dart_tokens (CHR '' '' # s) = dart_tokens s"
  by (simp add: dart_tokens.simps ascii_whitespace_def)

lemma token_sym:
  assumes "\<not> ascii_whitespace c" "\<not> ident_part c" "c # take 1 cs \<notin> set TWO_CHAR_OPERATORS"
  shows "dart_tokens (c # cs) = TSym [c] # dart_tokens cs"
  using assms by (simp add: dart_tokens.simps)

lemma no_ident_syms [simp]:
  "\<not> ident_part (CHR ''('')" "\<not> ident_part (CHR '')'')" "\<not> ident_part (CHR '' '')" "\<not> ident_part (CHR ''-'')"
  "\<not> ident_part (CHR ''!'')" "\<not> ascii_whitespace (CHR ''('')" "\<not> ascii_whitespace (CHR '')'')"
  "\<not> ascii_whitespace (CHR ''-'')" "\<not> ascii_whitespace (CHR ''!'')" "ascii_whitespace (CHR '' '')"
  by code_simp+

lemma tokens_parens [simp]:
  "dart_tokens (CHR ''('' # s) = TSym ''('' # dart_tokens s"
  "dart_tokens (CHR '')'' # s) = TSym '')'' # dart_tokens s"
  by (subst token_sym; simp add: TWO_CHAR_OPERATORS_def; cases s; simp)+

lemma lexes_parens: "lexes s ts \<Longrightarrow> lexes (parens s) (TSym ''('' # ts @ [TSym '')''])"
  by (simp add: lexes_def parens_def)

definition spaced_operator :: "string \<Rightarrow> bool" where
  "spaced_operator op \<longleftrightarrow> (\<forall>rest. dart_tokens (op @ CHR '' '' # rest) = TSym op # dart_tokens rest)"

lemma lexes_spaced: "lexes l ts \<Longrightarrow> spaced_operator op \<Longrightarrow> lexes r us \<Longrightarrow> lexes (l @ '' '' @ op @ '' '' @ r) (ts @ TSym op # us)"
  by (simp add: lexes_def spaced_operator_def)

lemma spaced_operators:
  "spaced_operator (emit_binary_op op t)" "spaced_operator ''?''" "spaced_operator '':''" "spaced_operator ''!=''"
proof -
  have step: "spaced_operator s"
    if "s \<in> set TWO_CHAR_OPERATORS \<or> (\<exists>c. s = [c] \<and> [c, CHR '' ''] \<notin> set TWO_CHAR_OPERATORS)"
      "\<not> ascii_whitespace (hd s)" "\<not> ident_part (hd s)" for s
    using that by (auto simp: spaced_operator_def TWO_CHAR_OPERATORS_def dart_tokens.simps)
  show "spaced_operator (emit_binary_op op t)"
    by (rule step; cases op; simp add: emit_binary_op_def; code_simp)
  show "spaced_operator ''?''" "spaced_operator '':''" "spaced_operator ''!=''"
    by (rule step; code_simp)+
qed

lemma lexes_word:
  assumes "s \<noteq> []" and "list_all ident_part s"
  shows "lexes s [TWord s]"
  unfolding lexes_def
proof (intro allI impI)
  fix rest assume rest: "ends_token rest"
  have stop: "takeWhile ident_part rest = [] \<and> dropWhile ident_part rest = rest"
    using rest by (cases rest) (auto simp: ends_token_def)
  obtain c cs where s: "s = c # cs" using assms(1) by (cases s) auto
  have "\<forall>c \<in> {CHR '' '', CHR 0x09, CHR 0x0A, CHR 0x0C, CHR 0x0D}. \<not> ident_part c" by code_simp
  then have space: "\<not> ascii_whitespace c" using assms(2) s by (auto simp: ascii_whitespace_def)
  show "dart_tokens (s @ rest) = [TWord s] @ dart_tokens rest"
    using assms(2) stop space by (simp add: s dart_tokens.simps list_all_iff)
qed

text \<open>How the printed expressions start.\<close>

definition starts_operand :: "string \<Rightarrow> bool" where
  "starts_operand s = (case s of [] \<Rightarrow> False | c # _ \<Rightarrow> ident_part c \<or> c = CHR ''('' \<or> c = CHR ''-'' \<or> c = CHR ''!'')"

lemma starts_operand_append [simp]: "starts_operand s \<Longrightarrow> starts_operand (s @ t)"
  by (cases s) (auto simp: starts_operand_def)

lemma starts_operand_parens [simp]: "starts_operand (parens s)"
  by (simp add: starts_operand_def parens_def)

lemma starts_operand_word: "s \<noteq> [] \<Longrightarrow> list_all ident_part s \<Longrightarrow> starts_operand s"
  by (cases s) (auto simp: starts_operand_def)

lemma lexes_not: "lexes s ts \<Longrightarrow> lexes (''!'' @ parens s) (TSym ''!'' # TSym ''('' # ts @ [TSym '')''])"
  by (simp add: lexes_def parens_def token_sym TWO_CHAR_OPERATORS_def)

lemma lexes_neg:
  assumes "lexes s ts" and "starts_operand s" and "\<not> str_starts_with s ''-''"
  shows "lexes (''-'' @ s) (TSym ''-'' # ts)"
proof -
  obtain c cs where s: "s = c # cs" using assms(2) by (cases s) (auto simp: starts_operand_def)
  have "\<not> ident_part (CHR ''='')" by code_simp
  then have "c \<noteq> CHR ''-''" "c \<noteq> CHR ''=''"
    using assms(2,3) s by (auto simp: starts_operand_def)
  then have "CHR ''-'' # take 1 (s @ rest) \<notin> set TWO_CHAR_OPERATORS" for rest
    by (auto simp: s TWO_CHAR_OPERATORS_def)
  with assms(1) show ?thesis by (simp add: lexes_def token_sym)
qed

section \<open>Dart's grammar of operators\<close>

datatype dart_tree =
  DWord string
| DPrefix string dart_tree
| DBinary string dart_tree dart_tree
| DChoice dart_tree dart_tree dart_tree

text \<open>
  The levels of the language specification, from the logical or to the multiplicative operators; 0 for
  what is no binary operator. Equality and relational operators do not associate.
\<close>

definition dart_level :: "string \<Rightarrow> nat" where
  "dart_level op =
     (if op = ''||'' then 1 else if op = ''&&'' then 2
      else if op \<in> {''=='', ''!=''} then 3 else if op \<in> {''<'', ''<='', ''>'', ''>=''} then 4
      else if op = ''|'' then 5 else if op = ''^'' then 6 else if op = ''&'' then 7
      else if op \<in> {''<<'', ''>>''} then 8 else if op \<in> {''+'', ''-''} then 9
      else if op \<in> {''*'', ''/'', ''~/'', ''%''} then 10 else 0)"

definition associates :: "nat \<Rightarrow> bool" where
  "associates n \<longleftrightarrow> n \<noteq> 3 \<and> n \<noteq> 4"

definition next_level :: "dart_token list \<Rightarrow> nat" where
  "next_level ts = (case ts of TSym op # _ \<Rightarrow> dart_level op | _ \<Rightarrow> 0)"

definition next_is :: "string \<Rightarrow> dart_token list \<Rightarrow> bool" where
  "next_is s ts = (case ts of TSym op # _ \<Rightarrow> op = s | _ \<Rightarrow> False)"

text \<open>
  \<open>reads n ts t rest\<close>: at level \<open>n\<close>, Dart reads the tree from the front of the tokens and \<open>rest\<close> is left.
  Level 0 are the conditionals, 11 the unary and primary expressions. \<open>climbs\<close> reads the operators of a
  level that follow a left operand.
\<close>

inductive reads :: "nat \<Rightarrow> dart_token list \<Rightarrow> dart_tree \<Rightarrow> dart_token list \<Rightarrow> bool"
  and climbs :: "nat \<Rightarrow> dart_tree \<Rightarrow> dart_token list \<Rightarrow> dart_tree \<Rightarrow> dart_token list \<Rightarrow> bool" where
  reads_word: "reads 11 (TWord w # ts) (DWord w) ts"
| reads_parens: "reads 0 ts t (TSym '')'' # rest) \<Longrightarrow> reads 11 (TSym ''('' # ts) t rest"
| reads_prefix: "s = ''-'' \<or> s = ''!'' \<Longrightarrow> reads 11 ts t rest \<Longrightarrow> reads 11 (TSym s # ts) (DPrefix s t) rest"
| reads_level: "0 < n \<Longrightarrow> n < 11 \<Longrightarrow> reads (Suc n) ts l us \<Longrightarrow> climbs n l us t rest \<Longrightarrow> reads n ts t rest"
| reads_choice: "reads 1 ts c (TSym ''?'' # us) \<Longrightarrow> reads 0 us a (TSym '':'' # vs) \<Longrightarrow> reads 0 vs b rest \<Longrightarrow>
    reads 0 ts (DChoice c a b) rest"
| reads_plain: "reads 1 ts t rest \<Longrightarrow> \<not> next_is ''?'' rest \<Longrightarrow> reads 0 ts t rest"
| climbs_stop: "next_level ts \<noteq> n \<Longrightarrow> climbs n l ts l ts"
| climbs_left: "dart_level op = n \<Longrightarrow> associates n \<Longrightarrow> reads (Suc n) ts r us \<Longrightarrow>
    climbs n (DBinary op l r) us t rest \<Longrightarrow> climbs n l (TSym op # ts) t rest"
| climbs_once: "dart_level op = n \<Longrightarrow> \<not> associates n \<Longrightarrow> reads (Suc n) ts r rest \<Longrightarrow>
    climbs n l (TSym op # ts) (DBinary op l r) rest"

text \<open>Dart reads a whole text as one expression.\<close>

definition dart_reads :: "string \<Rightarrow> dart_tree \<Rightarrow> bool" where
  "dart_reads s t \<longleftrightarrow> reads 0 (dart_tokens s) t []"

inductive_cases reads_levelE: "reads n ts t rest"
inductive_cases climbsE: "climbs n l ts t rest"

lemma reads_deterministic:
  "reads n ts t rest \<Longrightarrow> reads n ts t' rest' \<Longrightarrow> t' = t \<and> rest' = rest"
  "climbs n l ts t rest \<Longrightarrow> climbs n l ts t' rest' \<Longrightarrow> t' = t \<and> rest' = rest"
proof (induction arbitrary: t' rest' and t' rest' rule: reads_climbs.inducts)
  case (reads_word w ts)
  then show ?case by (auto elim: reads_levelE)
next
  case (reads_parens ts t rest)
  show ?case
    by (rule reads_levelE [OF reads_parens.prems]) (use reads_parens.hyps(1) in \<open>auto dest!: reads_parens.IH\<close>)
next
  case (reads_prefix s ts t rest)
  show ?case
    by (rule reads_levelE [OF reads_prefix.prems]) (use reads_prefix.hyps(1) in \<open>auto dest!: reads_prefix.IH\<close>)
next
  case (reads_level n ts l us t rest)
  show ?case
    by (rule reads_levelE [OF reads_level.prems]) (use reads_level.hyps(1,2) in \<open>auto dest!: reads_level.IH\<close>)
next
  case (reads_choice ts c us a vs b rest)
  show ?case
    by (rule reads_levelE [OF reads_choice.prems]) (auto simp: next_is_def dest!: reads_choice.IH [unfolded One_nat_def])
next
  case (reads_plain ts t rest)
  show ?case
    by (rule reads_levelE [OF reads_plain.prems]) (use reads_plain.hyps(2) in \<open>auto simp: next_is_def dest!: reads_plain.IH [unfolded One_nat_def]\<close>)
next
  case (climbs_stop ts n l)
  show ?case
    by (rule climbsE [OF climbs_stop.prems]) (use climbs_stop.hyps(1) in \<open>auto simp: next_level_def\<close>)
next
  case (climbs_left op n ts r us l t rest)
  show ?case
    by (rule climbsE [OF climbs_left.prems]) (use climbs_left.hyps(1,2) in \<open>auto simp: next_level_def dest!: climbs_left.IH [folded climbs_left.hyps(1)]\<close>)
next
  case (climbs_once op n ts r rest l)
  show ?case
    by (rule climbsE [OF climbs_once.prems]) (use climbs_once.hyps(1,2) in \<open>auto simp: next_level_def dest!: climbs_once.IH [folded climbs_once.hyps(1)]\<close>)
qed

section \<open>Reading in context\<close>

lemma dart_level_less: "dart_level op < 11"
  by (simp add: dart_level_def)

lemma next_level_less: "next_level ts < 11"
  by (auto simp: next_level_def dart_level_less split: list.split dart_token.split)

text \<open>
  What may follow an expression of level \<open>L\<close> when it is read at level \<open>n\<close>: operators of at most that level,
  of a lower one if neither associates.
\<close>

definition may_follow :: "nat \<Rightarrow> nat \<Rightarrow> dart_token list \<Rightarrow> bool" where
  "may_follow L n rest \<longleftrightarrow> next_level rest \<le> n \<and> (n = L \<and> \<not> associates n \<longrightarrow> next_level rest < n)"

text \<open>The tokens are those of the tree, an expression of level \<open>L\<close>, in every context that allows one.\<close>

definition reads_back :: "nat \<Rightarrow> dart_tree \<Rightarrow> dart_token list \<Rightarrow> bool" where
  "reads_back L t ts \<longleftrightarrow> L \<le> 11 \<and>
     (\<forall>rest. next_level rest = 0 \<and> \<not> next_is ''?'' rest \<longrightarrow> reads 0 (ts @ rest) t rest) \<and>
     (\<forall>n rest t' rest'. 0 < n \<and> n \<le> L \<and> n < 11 \<and> may_follow L n rest \<and> climbs n t rest t' rest' \<longrightarrow>
        reads n (ts @ rest) t' rest') \<and>
     (L = 11 \<longrightarrow> (\<forall>rest. reads 11 (ts @ rest) t rest))"

lemma reads_back_whole: "reads_back L t ts \<Longrightarrow> next_level rest = 0 \<Longrightarrow> \<not> next_is ''?'' rest \<Longrightarrow> reads 0 (ts @ rest) t rest"
  by (simp add: reads_back_def)

lemma reads_back_climb:
  "reads_back L t ts \<Longrightarrow> 0 < n \<Longrightarrow> n \<le> L \<Longrightarrow> n < 11 \<Longrightarrow> may_follow L n rest \<Longrightarrow> climbs n t rest t' rest' \<Longrightarrow>
    reads n (ts @ rest) t' rest'"
  by (simp add: reads_back_def)

lemma reads_back_at:
  assumes "reads_back L t ts" and "0 < n" and "n \<le> L" and "n \<le> 11" and "next_level rest < n"
  shows "reads n (ts @ rest) t rest"
proof (cases "n = 11")
  case True
  with assms show ?thesis by (cases "L = 11") (auto simp: reads_back_def)
next
  case False
  have "climbs n t rest t rest" by (rule climbs_stop) (use assms(5) in simp)
  then show ?thesis using assms False by (intro reads_back_climb [OF assms(1)]) (auto simp: may_follow_def)
qed

text \<open>An expression of a level can be read at every lower one.\<close>

lemma descend:
  assumes "0 < L" and "L \<le> 11" and base: "\<And>rest. next_level rest < L \<Longrightarrow> reads L (ts @ rest) t rest"
  shows "m \<le> L \<Longrightarrow> 0 < m \<Longrightarrow> next_level rest < m \<Longrightarrow> reads m (ts @ rest) t rest"
proof (induction m arbitrary: rest rule: inc_induct)
  case (step m)
  have "reads (Suc m) (ts @ rest) t rest" using step.prems by (intro step.IH) auto
  moreover have "climbs m t rest t rest" by (rule climbs_stop) (use step.prems in simp)
  ultimately show ?case
    by (rule reads_level [rotated 2]) (use step.hyps step.prems assms(2) in auto)
qed (rule base)

lemma reads_backI:
  assumes "0 < L" and "L \<le> 11"
    and climb: "\<And>rest t' rest'. L < 11 \<Longrightarrow> may_follow L L rest \<Longrightarrow> climbs L t rest t' rest' \<Longrightarrow> reads L (ts @ rest) t' rest'"
    and atom: "\<And>rest. L = 11 \<Longrightarrow> reads 11 (ts @ rest) t rest"
  shows "reads_back L t ts"
proof -
  have "reads L (ts @ rest) t rest" if "next_level rest < L" for rest
  proof (cases "L = 11")
    case False
    then show ?thesis using that assms(1,2)
      by (intro climb climbs_stop) (auto simp: may_follow_def)
  qed (use atom in simp)
  note at = descend [OF assms(1,2) this]
  have "reads 0 (ts @ rest) t rest" if "next_level rest = 0" "\<not> next_is ''?'' rest" for rest
    by (rule reads_plain) (use at [of 1] that assms(1) in auto)
  moreover have "reads n (ts @ rest) t' rest'"
    if "0 < n" "n \<le> L" "n < 11" "may_follow L n rest" "climbs n t rest t' rest'" for n rest t' rest'
  proof (cases "n = L")
    case False
    have "reads (Suc n) (ts @ rest) t rest" using that False by (intro at) (auto simp: may_follow_def)
    then show ?thesis by (rule reads_level [OF that(1,3) _ that(5)])
  qed (use that climb in simp)
  ultimately show ?thesis using atom assms(2) unfolding reads_back_def by blast
qed

lemma reads_back_word: "reads_back 11 (DWord w) [TWord w]"
  by (rule reads_backI) (auto intro: reads_word)

lemma reads_back_parens: "reads_back L t ts \<Longrightarrow> reads_back 11 t (TSym ''('' # ts @ [TSym '')''])"
  by (rule reads_backI) (auto intro!: reads_parens reads_back_whole simp: next_level_def next_is_def dart_level_def)

lemma reads_back_prefix: "s = ''-'' \<or> s = ''!'' \<Longrightarrow> reads_back 11 t ts \<Longrightarrow> reads_back 11 (DPrefix s t) (TSym s # ts)"
  by (rule reads_backI) (auto intro!: reads_prefix reads_back_at simp: next_level_less)

lemma reads_back_binary:
  assumes "reads_back L l ts" and "reads_back K r us" and "0 < dart_level op" and "dart_level op \<le> L"
    and "dart_level op < K" and "K \<le> 11" and "associates (dart_level op) \<or> dart_level op < L"
  shows "reads_back (dart_level op) (DBinary op l r) (ts @ TSym op # us)"
proof (rule reads_backI)
  show "dart_level op \<le> 11" using dart_level_less [of op] by simp
  fix rest t' rest'
  assume "dart_level op < 11" and follow: "may_follow (dart_level op) (dart_level op) rest"
    and climb: "climbs (dart_level op) (DBinary op l r) rest t' rest'"
  have right: "reads (Suc (dart_level op)) (us @ rest) r rest"
    using assms(2,5,6) follow by (intro reads_back_at) (auto simp: may_follow_def)
  have "climbs (dart_level op) l (TSym op # us @ rest) t' rest'"
  proof (cases "associates (dart_level op)")
    case True
    then show ?thesis using right climb by (intro climbs_left) auto
  next
    case False
    then have "next_level rest \<noteq> dart_level op" using follow by (auto simp: may_follow_def)
    then have "t' = DBinary op l r \<and> rest' = rest"
      using climb climbs_stop [of rest "dart_level op"] reads_deterministic(2) by blast
    then show ?thesis using right False by (auto intro: climbs_once)
  qed
  then have "reads (dart_level op) (ts @ TSym op # us @ rest) t' rest'"
    using assms \<open>dart_level op < 11\<close>
    by (intro reads_back_climb [OF assms(1)]) (auto simp: may_follow_def next_level_def)
  then show "reads (dart_level op) ((ts @ TSym op # us) @ rest) t' rest'" by simp
qed (use assms(3) dart_level_less [of op] in auto)

lemma reads_back_choice:
  assumes "reads_back L c ts" and "0 < L" and "reads_back K a us" and "reads_back M b vs"
  shows "reads_back 0 (DChoice c a b) (ts @ TSym ''?'' # us @ TSym '':'' # vs)"
proof -
  have "reads 0 (ts @ TSym ''?'' # us @ TSym '':'' # vs @ rest) (DChoice c a b) rest"
    if "next_level rest = 0" "\<not> next_is ''?'' rest" for rest
  proof (rule reads_choice)
    show "reads 1 (ts @ TSym ''?'' # us @ TSym '':'' # vs @ rest) c (TSym ''?'' # us @ TSym '':'' # vs @ rest)"
      using assms(1,2) by (intro reads_back_at) (auto simp: next_level_def dart_level_def)
    show "reads 0 (us @ TSym '':'' # vs @ rest) a (TSym '':'' # vs @ rest)"
      using assms(3) by (rule reads_back_whole) (auto simp: next_level_def next_is_def dart_level_def)
    show "reads 0 (vs @ rest) b rest" using assms(4) that by (rule reads_back_whole)
  qed
  then show ?thesis by (simp add: reads_back_def)
qed

section \<open>Expressions\<close>

text \<open>
  Expressions of names, numbers, operators, conditionals and the conversions that print an operator or
  nothing.
\<close>

fun operators :: "expr \<Rightarrow> bool" where
  "operators (ERef name _ _) \<longleftrightarrow> name \<noteq> [] \<and> list_all ident_part name"
| "operators (EIntLiteral v _) \<longleftrightarrow> 0 \<le> sint v"
| "operators (EBoolLiteral _ _) \<longleftrightarrow> True"
| "operators (ENullLiteral _) \<longleftrightarrow> True"
| "operators (EThis _ _) \<longleftrightarrow> True"
| "operators (EBinary _ l r _ _) \<longleftrightarrow> operators l \<and> operators r"
| "operators (EConditional c a b _ _) \<longleftrightarrow> operators c \<and> operators a \<and> operators b"
| "operators (EUnary op e _ _) \<longleftrightarrow> (op = OpNeg \<or> op = OpNot) \<and> operators e"
| "operators (EConvert e t _) \<longleftrightarrow> operators e \<and> \<not> asserts_not_null e t \<and>
     (case t of TBool \<Rightarrow> True | TInt \<Rightarrow> expr_ty e = Some TBool | TNullable _ \<Rightarrow> True | _ \<Rightarrow> False)"
| "operators _ \<longleftrightarrow> False"

text \<open>The tree of an expression, whatever its text.\<close>

fun tree_of :: "expr \<Rightarrow> dart_tree" where
  "tree_of (ERef name _ _) = DWord name"
| "tree_of (EIntLiteral v _) = DWord (show_int (sint v))"
| "tree_of (EBoolLiteral v _) = DWord (if v then ''true'' else ''false'')"
| "tree_of (ENullLiteral _) = DWord ''null''"
| "tree_of (EBinary op l r t _) = DBinary (emit_binary_op op t) (tree_of l) (tree_of r)"
| "tree_of (EConditional c a b _ _) = DChoice (tree_of c) (tree_of a) (tree_of b)"
| "tree_of (EUnary op e _ _) = DPrefix (emit_unary_op op) (tree_of e)"
| "tree_of (EConvert e t _) =
     (case t of
        TBool \<Rightarrow> DBinary ''!='' (tree_of e) (DWord (if is_nullable (expr_ty e) then ''null'' else ''0''))
      | TInt \<Rightarrow> DChoice (tree_of e) (DWord ''1'') (DWord ''0'')
      | _ \<Rightarrow> tree_of e)"
| "tree_of _ = DWord ''this''"

text \<open>The level of the text of an expression.\<close>

fun printed_level :: "expr \<Rightarrow> nat" where
  "printed_level (EBinary op _ _ t _) = dart_level (emit_binary_op op t)"
| "printed_level (EConditional _ _ _ _ _) = 0"
| "printed_level (EConvert e t _) = (case t of TBool \<Rightarrow> 3 | TInt \<Rightarrow> 0 | _ \<Rightarrow> printed_level e)"
| "printed_level _ = 11"

text \<open>
  Where the emitter leaves out parentheses that Dart needs. Its table of precedences is that of C++, where
  the bitwise operators bind looser than comparisons; it takes comparisons to associate; it does not look at
  the condition of a conditional, nor through a conversion to a nullable type.
\<close>

definition is_comparison :: "binary_op \<Rightarrow> bool" where
  "is_comparison op \<longleftrightarrow> op \<in> {OpEq, OpNe, OpLt, OpLe, OpGt, OpGe}"

definition is_bitwise :: "binary_op \<Rightarrow> bool" where
  "is_bitwise op \<longleftrightarrow> op \<in> {OpBitAnd, OpBitXor, OpBitOr}"

definition compares :: "expr \<Rightarrow> bool" where
  "compares e \<longleftrightarrow> printed_level e = 3 \<or> printed_level e = 4"

fun hides_operator :: "expr \<Rightarrow> bool" where
  "hides_operator (EConvert e t og) \<longleftrightarrow>
     (case t of TNullable _ \<Rightarrow> (case e of EConvert _ _ _ \<Rightarrow> hides_operator e | _ \<Rightarrow> printed_level e \<noteq> 11) | _ \<Rightarrow> False)"
| "hides_operator _ \<longleftrightarrow> False"

fun loses_parens :: "expr \<Rightarrow> bool" where
  "loses_parens (EBinary op l r t _) \<longleftrightarrow> hides_operator l \<or> hides_operator r \<or>
     is_bitwise op \<and> (compares l \<or> compares r) \<or>
     is_comparison op \<and> printed_level l = dart_level (emit_binary_op op t)"
| "loses_parens (EConditional c _ _ _ _) \<longleftrightarrow> printed_level c = 0"
| "loses_parens (EUnary _ e _ _) \<longleftrightarrow> hides_operator e"
| "loses_parens (EConvert e t _) \<longleftrightarrow> t = TBool \<and> (hides_operator e \<or> printed_level e = 3)"
| "loses_parens _ \<longleftrightarrow> False"

definition keeps_parens :: "expr \<Rightarrow> bool" where
  "keeps_parens e \<longleftrightarrow> list_all (\<lambda>n. case n of NExpr x \<Rightarrow> \<not> loses_parens x | _ \<Rightarrow> True) (nodes_expr e)"

lemma keeps_parens_simps [simp]:
  "keeps_parens (EBinary op l r t og) \<longleftrightarrow> \<not> loses_parens (EBinary op l r t og) \<and> keeps_parens l \<and> keeps_parens r"
  "keeps_parens (EConditional c a b t og) \<longleftrightarrow>
    \<not> loses_parens (EConditional c a b t og) \<and> keeps_parens c \<and> keeps_parens a \<and> keeps_parens b"
  "keeps_parens (EUnary uop e t og) \<longleftrightarrow> \<not> loses_parens (EUnary uop e t og) \<and> keeps_parens e"
  "keeps_parens (EConvert e t og) \<longleftrightarrow> \<not> loses_parens (EConvert e t og) \<and> keeps_parens e"
  by (simp_all add: keeps_parens_def del: loses_parens.simps)

text \<open>The emitter's test, by the level of what is printed.\<close>

lemma emitted_level:
  "dart_level (emit_binary_op op t) =
    (case op of OpOr \<Rightarrow> 1 | OpAnd \<Rightarrow> 2 | OpEq \<Rightarrow> 3 | OpNe \<Rightarrow> 3 | OpLt \<Rightarrow> 4 | OpLe \<Rightarrow> 4 | OpGt \<Rightarrow> 4 | OpGe \<Rightarrow> 4
     | OpBitOr \<Rightarrow> 5 | OpBitXor \<Rightarrow> 6 | OpBitAnd \<Rightarrow> 7 | OpShiftLeft \<Rightarrow> 8 | OpShiftRight \<Rightarrow> 8
     | OpAdd \<Rightarrow> 9 | OpSub \<Rightarrow> 9 | _ \<Rightarrow> 10)"
  by (cases op; simp add: emit_binary_op_def dart_level_def)

lemma shape_levels:
  assumes "operators (EConvert e t og)" and "\<not> hides_operator (EConvert e t og)"
  shows "convert_shape_of (EConvert e t og) =
    (case printed_level (EConvert e t og) of 0 \<Rightarrow> ShapeTernary | _ \<Rightarrow>
      if printed_level (EConvert e t og) = 11 then ShapeSimple else ShapeComparison) \<and>
    printed_level (EConvert e t og) \<in> {0, 3, 11}"
  using assms
proof (induction e arbitrary: t og)
  case (EConvert e u og')
  show ?case
  proof (cases t)
    case (TNullable v)
    then have "operators (EConvert e u og')" "\<not> hides_operator (EConvert e u og')" using EConvert.prems by auto
    from EConvert.IH(1) [OF this] show ?thesis
      using EConvert.prems TNullable by (simp add: convert_shape_of.simps [of "EConvert (EConvert e u og') (TNullable v) og"])
  qed (use EConvert.prems in \<open>auto simp: convert_shape_of.simps\<close>)
qed (auto simp: convert_shape_of.simps split: ty.splits)

definition shown_level :: "bool \<Rightarrow> expr \<Rightarrow> nat" where
  "shown_level parenthesized e = (if parenthesized then 11 else printed_level e)"

lemmas level_defs = shown_level_def binary_child_needs_parens_def emitted_level associates_def is_comparison_def
  is_bitwise_def compares_def

text \<open>What is printed for an operand can stand there: its level, or that of its parentheses.\<close>

lemma child_levels:
  fixes t :: ty
  assumes "operators e" and "\<not> hides_operator e" and "is_bitwise op \<longrightarrow> \<not> compares e"
  defines "n \<equiv> dart_level (emit_binary_op op t)"
  shows "n < shown_level (binary_child_needs_parens op e True) e" (is ?right)
    and "is_comparison op \<longrightarrow> printed_level e \<noteq> n \<Longrightarrow>
      n \<le> shown_level (binary_child_needs_parens op e False) e \<and>
      (associates n \<or> n < shown_level (binary_child_needs_parens op e False) e)" (is "?alone \<Longrightarrow> ?left")
proof -
  have "?right \<and> (?alone \<longrightarrow> ?left)"
  proof (cases "\<exists>x u og. e = EConvert x u og")
    case True
    then obtain x u og where e: "e = EConvert x u og" by blast
    obtain k where k: "printed_level e = k" "k = 0 \<or> k = 3 \<or> k = 11"
      and shape: "convert_shape_of e = (if k = 0 then ShapeTernary else if k = 11 then ShapeSimple else ShapeComparison)"
      using shape_levels assms(1,2) unfolding e by (force split: nat.splits)
    show ?thesis
      using assms(3) k shape unfolding n_def e
      by (cases op) (auto simp: level_defs simp del: printed_level.simps)
  next
    case False
    show ?thesis
    proof (cases e)
      case (EBinary inner a b u og)
      then show ?thesis using assms(3) unfolding n_def by (cases op; cases inner; simp add: level_defs)
    qed (use assms(1) False dart_level_less [of "emit_binary_op op t"] in
        \<open>auto simp: n_def shown_level_def binary_child_needs_parens_def\<close>)
  qed
  then show ?right "?alone \<Longrightarrow> ?left" by blast+
qed

section \<open>What is printed reads back\<close>

text \<open>A text that reads back as a tree, in the contexts of a level.\<close>

definition text_reads :: "nat \<Rightarrow> dart_tree \<Rightarrow> string \<Rightarrow> bool" where
  "text_reads L t s \<longleftrightarrow> starts_operand s \<and> (\<exists>ts. lexes s ts \<and> reads_back L t ts)"

lemma text_reads_word: "s \<noteq> [] \<Longrightarrow> list_all ident_part s \<Longrightarrow> text_reads 11 (DWord s) s"
  using lexes_word reads_back_word starts_operand_word by (auto simp: text_reads_def)

lemma text_reads_parens: "text_reads L t s \<Longrightarrow> text_reads 11 t (parens s)"
  using lexes_parens reads_back_parens by (fastforce simp: text_reads_def)

lemma text_reads_if: "text_reads (printed_level e) t s \<Longrightarrow> text_reads (shown_level b e) t (parens_if b s)"
  using text_reads_parens by (auto simp: shown_level_def parens_if_def)

lemma text_reads_binary:
  assumes "text_reads L l s" and "text_reads K r u" and "spaced_operator op"
    and "0 < dart_level op" and "dart_level op \<le> L" and "dart_level op < K"
    and "associates (dart_level op) \<or> dart_level op < L"
  shows "text_reads (dart_level op) (DBinary op l r) (s @ '' '' @ op @ '' '' @ u)"
proof -
  obtain ts us where left: "lexes s ts" "reads_back L l ts" and right: "lexes u us" "reads_back K r us"
    using assms(1,2) by (auto simp: text_reads_def)
  moreover have "K \<le> 11" using right(2) by (simp add: reads_back_def)
  ultimately have "reads_back (dart_level op) (DBinary op l r) (ts @ TSym op # us)"
    using assms by (intro reads_back_binary)
  moreover have "lexes (s @ '' '' @ op @ '' '' @ u) (ts @ TSym op # us)"
    using left right assms(3) by (intro lexes_spaced)
  ultimately show ?thesis using assms(1) by (auto simp: text_reads_def)
qed

lemma text_reads_choice:
  assumes "text_reads L c s" and "0 < L" and "text_reads K a u" and "text_reads M b v"
  shows "text_reads 0 (DChoice c a b) (s @ '' ? '' @ u @ '' : '' @ v)"
proof -
  obtain cs us vs where reads: "reads_back L c cs" "reads_back K a us" "reads_back M b vs"
    and toks: "lexes s cs" "lexes u us" "lexes v vs"
    using assms by (auto simp: text_reads_def)
  have "reads_back 0 (DChoice c a b) (cs @ TSym ''?'' # us @ TSym '':'' # vs)"
    by (rule reads_back_choice [OF reads(1) assms(2) reads(2,3)])
  moreover have "lexes (s @ '' '' @ ''?'' @ '' '' @ (u @ '' '' @ '':'' @ '' '' @ v)) (cs @ TSym ''?'' # (us @ TSym '':'' # vs))"
    using toks by (intro lexes_spaced spaced_operators)
  ultimately show ?thesis using assms(1) by (auto simp: text_reads_def)
qed

lemma text_reads_not:
  assumes "text_reads L t s"
  shows "text_reads 11 (DPrefix ''!'' t) (''!'' @ parens s)"
proof -
  obtain ts where "lexes s ts" "reads_back L t ts" using assms by (auto simp: text_reads_def)
  then have "lexes (''!'' @ parens s) (TSym ''!'' # TSym ''('' # ts @ [TSym '')''])"
    "reads_back 11 (DPrefix ''!'' t) (TSym ''!'' # TSym ''('' # ts @ [TSym '')''])"
    using lexes_not reads_back_prefix reads_back_parens by blast+
  then show ?thesis by (auto simp: text_reads_def starts_operand_def)
qed

lemma text_reads_neg:
  assumes "text_reads 11 t s" and "\<not> str_starts_with s ''-''"
  shows "text_reads 11 (DPrefix ''-'' t) (''-'' @ s)"
proof -
  obtain ts where "lexes s ts" "reads_back 11 t ts" "starts_operand s" using assms by (auto simp: text_reads_def)
  then have "lexes (''-'' @ s) (TSym ''-'' # ts)" "reads_back 11 (DPrefix ''-'' t) (TSym ''-'' # ts)"
    using assms(2) by (intro lexes_neg, auto intro: reads_back_prefix)
  then show ?thesis by (auto simp: text_reads_def starts_operand_def)
qed

lemma show_int_word: "0 \<le> n \<Longrightarrow> show_int n \<noteq> [] \<and> list_all ident_part (show_int n)"
  using show_nat_digits [of "nat n"] show_nat_nonempty [of "nat n"]
  by (auto simp: show_int_def list_all_iff ident_part_def ascii_alnum_def)

text \<open>What an expression prints is the same in every state, which it leaves alone, and reads back.\<close>

definition printed_well :: "rust_std \<Rightarrow> expr \<Rightarrow> bool" where
  "printed_well R e \<longleftrightarrow>
     (\<exists>s. (\<forall>st. run_state (emit_expr R e) st = (s, st)) \<and> text_reads (printed_level e) (tree_of e) s)"

lemma run_scoped:
  assumes "\<And>st. run_state (f x) st = (s, st)"
  shows "run_state (scoped scope f x) st = (s, st)"
  by (simp add: scoped_def assms)

lemma literal_words:
  "text_reads 11 (DWord ''true'') ''true''" "text_reads 11 (DWord ''false'') ''false''"
  "text_reads 11 (DWord ''null'') ''null''" "text_reads 11 (DWord ''this'') ''this''"
  "text_reads 11 (DWord ''0'') ''0''" "text_reads 11 (DWord ''1'') ''1''"
  by (rule text_reads_word; code_simp)+

lemma printed_wellI:
  "(\<And>st. run_state (emit_expr R e) st = (s, st)) \<Longrightarrow> text_reads (printed_level e) (tree_of e) s \<Longrightarrow> printed_well R e"
  by (auto simp: printed_well_def)

lemma printed_binary:
  assumes "printed_well R l" and "printed_well R r" and "operators l" and "operators r"
    and kept: "\<not> loses_parens (EBinary op l r t og)"
  shows "printed_well R (EBinary op l r t og)"
proof -
  let ?op = "emit_binary_op op t"
  let ?left = "binary_child_needs_parens op l False" and ?right = "binary_child_needs_parens op r True"
  obtain s u where l: "\<And>st. run_state (emit_expr R l) st = (s, st)" "text_reads (printed_level l) (tree_of l) s"
    and r: "\<And>st. run_state (emit_expr R r) st = (u, st)" "text_reads (printed_level r) (tree_of r) u"
    using assms(1,2) by (auto simp: printed_well_def)
  show ?thesis
  proof (rule printed_wellI)
    fix st
    show "run_state (emit_expr R (EBinary op l r t og)) st =
        (parens_if ?left s @ '' '' @ ?op @ '' '' @ parens_if ?right u, st)"
      by (simp add: emit_expr_simps emit_short_circuit_rhs_def l(1) r(1) run_scoped)
    have "dart_level ?op < shown_level ?right r"
      by (rule child_levels(1)) (use kept assms(4) in auto)
    moreover have "dart_level ?op \<le> shown_level ?left l \<and>
        (associates (dart_level ?op) \<or> dart_level ?op < shown_level ?left l)"
      by (rule child_levels(2)) (use kept assms(3) in auto)
    moreover have "0 < dart_level ?op" by (cases op) (simp_all add: emitted_level)
    ultimately show "text_reads (printed_level (EBinary op l r t og)) (tree_of (EBinary op l r t og))
        (parens_if ?left s @ '' '' @ ?op @ '' '' @ parens_if ?right u)"
      unfolding printed_level.simps tree_of.simps
      by (intro text_reads_binary [OF text_reads_if [OF l(2)] text_reads_if [OF r(2)] spaced_operators(1)]) simp_all
  qed
qed

lemma printed_conditional:
  assumes "printed_well R c" and "printed_well R a" and "printed_well R b" and kept: "printed_level c \<noteq> 0"
  shows "printed_well R (EConditional c a b t og)"
proof -
  obtain s u v where texts: "\<And>st. run_state (emit_expr R c) st = (s, st)" "\<And>st. run_state (emit_expr R a) st = (u, st)"
      "\<And>st. run_state (emit_expr R b) st = (v, st)"
    and reads: "text_reads (printed_level c) (tree_of c) s" "text_reads (printed_level a) (tree_of a) u"
      "text_reads (printed_level b) (tree_of b) v"
    using assms(1-3) by (auto simp: printed_well_def)
  show ?thesis
    by (rule printed_wellI [of R _ "s @ '' ? '' @ u @ '' : '' @ v"])
      (use kept text_reads_choice [OF reads(1) _ reads(2,3)] in \<open>simp_all add: emit_expr_simps texts run_scoped\<close>)
qed

lemma unary_parens:
  assumes "operators e" and "\<not> hides_operator e" and "\<not> unary_operand_needs_parens OpNeg e s"
  shows "printed_level e = 11" and "\<not> str_starts_with s ''-''"
proof -
  show "\<not> str_starts_with s ''-''" using assms(3) by (simp add: unary_operand_needs_parens_def)
  show "printed_level e = 11"
  proof (cases e)
    case (EConvert x u og)
    then have "convert_shape_of (EConvert x u og) = ShapeSimple"
      using assms(3) by (simp add: unary_operand_needs_parens_def)
    then show ?thesis using shape_levels [of x u og] assms(1,2) EConvert by (auto split: nat.splits if_splits)
  qed (use assms in \<open>auto simp: unary_operand_needs_parens_def\<close>)
qed

lemma printed_unary:
  assumes "printed_well R e" and "operators e" and "op = OpNeg \<or> op = OpNot" and "\<not> hides_operator e"
  shows "printed_well R (EUnary op e t og)"
proof -
  obtain s where s: "\<And>st. run_state (emit_expr R e) st = (s, st)" "text_reads (printed_level e) (tree_of e) s"
    using assms(1) by (auto simp: printed_well_def)
  let ?parens = "unary_operand_needs_parens op e s"
  show ?thesis
  proof (rule printed_wellI)
    show "run_state (emit_expr R (EUnary op e t og)) st = (emit_unary_op op @ parens_if ?parens s, st)" for st
      using assms(3) by (auto simp: emit_expr_simps s(1))
    show "text_reads (printed_level (EUnary op e t og)) (tree_of (EUnary op e t og)) (emit_unary_op op @ parens_if ?parens s)"
    proof (cases "op = OpNot")
      case True
      then show ?thesis using text_reads_not [OF s(2)] by (simp add: parens_if_def unary_operand_needs_parens_def)
    next
      case False
      then have neg: "op = OpNeg" using assms(3) by simp
      show ?thesis
      proof (cases ?parens)
        case True
        have "\<not> str_starts_with (parens s) ''-''" by (simp add: parens_def)
        with True neg show ?thesis using text_reads_neg [OF text_reads_parens [OF s(2)]] by (simp add: parens_if_def)
      next
        case False
        with neg show ?thesis
          using unary_parens [OF assms(2,4), of s] s(2) text_reads_neg by (simp add: parens_if_def)
      qed
    qed
  qed
qed

lemma printed_comparison:
  assumes "printed_well R e" and "operators e" and "\<not> hides_operator e" and "printed_level e \<noteq> 3"
    and plain: "\<not> asserts_not_null e TBool"
  shows "printed_well R (EConvert e TBool og)"
proof -
  let ?other = "if is_nullable (expr_ty e) then ''null'' else ''0''"
  let ?parens = "binary_child_needs_parens OpNe e False"
  obtain s where s: "\<And>st. run_state (emit_expr R e) st = (s, st)" "text_reads (printed_level e) (tree_of e) s"
    using assms(1) by (auto simp: printed_well_def)
  show ?thesis
  proof (rule printed_wellI)
    show "run_state (emit_expr R (EConvert e TBool og)) st = (parens_if ?parens s @ '' '' @ ''!='' @ '' '' @ ?other, st)" for st
      using plain by (simp add: emit_expr_simps s(1))
    have ne: "dart_level ''!='' = dart_level (emit_binary_op OpNe TBool)" by (simp add: emit_binary_op_def)
    have level: "dart_level ''!='' = 3" by (simp add: dart_level_def)
    have "dart_level ''!='' \<le> shown_level ?parens e \<and>
        (associates (dart_level ''!='') \<or> dart_level ''!='' < shown_level ?parens e)"
      unfolding ne using assms(2,3,4) level
      by (intro child_levels(2)) (simp_all add: is_bitwise_def ne [symmetric])
    moreover have other: "text_reads 11 (DWord ?other) ?other" by (simp add: literal_words)
    ultimately have "text_reads (dart_level ''!='') (DBinary ''!='' (tree_of e) (DWord ?other))
        (parens_if ?parens s @ '' '' @ ''!='' @ '' '' @ ?other)"
      using level by (intro text_reads_binary [OF text_reads_if [OF s(2)] other spaced_operators(4)]) simp_all
    then show "text_reads (printed_level (EConvert e TBool og)) (tree_of (EConvert e TBool og))
        (parens_if ?parens s @ '' '' @ ''!='' @ '' '' @ ?other)"
      unfolding level by simp
  qed
qed

lemma printed_bit:
  assumes "printed_well R e" and "operators e" and "expr_ty e = Some TBool" and plain: "\<not> asserts_not_null e TInt"
  shows "printed_well R (EConvert e TInt og)"
proof -
  let ?parens = "is_conditional e \<or> convert_shape_of e = ShapeTernary"
  obtain s where s: "\<And>st. run_state (emit_expr R e) st = (s, st)" "text_reads (printed_level e) (tree_of e) s"
    using assms(1) by (auto simp: printed_well_def)
  have "0 < shown_level ?parens e"
  proof (cases e)
    case (EConvert x u og')
    then have "\<not> hides_operator (EConvert x u og')" using assms(2,3) by (auto split: ty.splits)
    then show ?thesis
      using shape_levels [of x u og'] assms(2) EConvert by (auto simp: shown_level_def split: nat.splits if_splits)
  qed (use assms(2) in \<open>auto simp: shown_level_def is_conditional_def emitted_level split: binary_op.split\<close>)
  then have "text_reads 0 (DChoice (tree_of e) (DWord ''1'') (DWord ''0''))
      (parens_if ?parens s @ '' ? '' @ ''1'' @ '' : '' @ ''0'')"
    by (rule text_reads_choice [OF text_reads_if [OF s(2)]]) (rule literal_words)+
  then show ?thesis
    using plain assms(3) by (intro printed_wellI) (auto simp: emit_expr_simps s(1))
qed

lemma operators_printed: "operators e \<Longrightarrow> keeps_parens e \<Longrightarrow> printed_well R e"
proof (induction e rule: operators.induct)
  case (1 name t og)
  then show ?case by (intro printed_wellI [of _ _ name]) (auto simp: emit_expr_simps text_reads_word)
next
  case (2 v og)
  then show ?case
    by (intro printed_wellI [of _ _ "show_int (sint v)"]) (auto simp: emit_expr_simps text_reads_word show_int_word)
next
  case (6 op l r t og)
  then show ?case by (intro printed_binary) auto
next
  case (7 c a b t og)
  then show ?case by (intro printed_conditional) auto
next
  case (8 op e t og)
  then show ?case by (intro printed_unary) auto
next
  case (9 e t og)
  show ?case
  proof (cases t)
    case (TNullable u)
    then have "run_state (emit_expr R (EConvert e t og)) st = run_state (emit_expr R e) st" for st
      using 9 by (simp add: emit_expr_simps)
    then show ?thesis using 9 TNullable by (simp add: printed_well_def)
  qed (use 9 in \<open>auto intro: printed_comparison printed_bit\<close>)
qed (auto simp: emit_expr_simps intro!: printed_wellI literal_words)

lemma dart_reads_only:
  assumes "text_reads L t s"
  shows "{t'. dart_reads s t'} = {t}"
proof -
  obtain ts where "lexes s ts" "reads_back L t ts" using assms by (auto simp: text_reads_def)
  then have "reads 0 (dart_tokens s) t []"
    using reads_back_whole [of L t ts "[]"] lexesD by (simp add: next_level_def next_is_def)
  then show ?thesis using reads_deterministic(1) by (auto simp: dart_reads_def)
qed

section \<open>Properties\<close>

text \<open>
  C29. The operators of an expression read back in Dart as they were printed: for an expression of names,
  numbers, operators, conditionals and scalar conversions, the text has exactly one reading in Dart's
  grammar, the tree of the expression, unless some node loses parentheses (a comparison under a bitwise
  operator or left under a comparison of its kind, a conditional as the condition of another, or an
  operator hidden by a conversion to a nullable type). The state of the emission does not matter and does
  not change.
\<close>

theorem operators_read_back:
  assumes "operators e" and "keeps_parens e"
  shows "\<exists>s. run_state (emit_expr R e) st = (s, st) \<and> {t. dart_reads s t} = {tree_of e}"
  using operators_printed [OF assms, of R] dart_reads_only by (auto simp: printed_well_def)

text \<open>\<^verbatim>\<open>-a * (b - (c - 1)) == 0 || !(d ? true : false)\<close>.\<close>

abbreviation sample_name :: "string \<Rightarrow> expr" where
  "sample_name n \<equiv> ERef n TInt sample_origin"

definition sample_operators :: expr where
  "sample_operators =
     EBinary OpOr
       (EBinary OpEq
         (EBinary OpMul (EUnary OpNeg (sample_name ''a'') TInt sample_origin)
           (EBinary OpSub (sample_name ''b'')
             (EBinary OpSub (sample_name ''c'') (EIntLiteral 1 sample_origin) TInt sample_origin) TInt sample_origin)
           TInt sample_origin)
         (EIntLiteral 0 sample_origin) TBool sample_origin)
       (EUnary OpNot (EConditional (ERef ''d'' TBool sample_origin) (EBoolLiteral True sample_origin)
         (EBoolLiteral False sample_origin) TBool sample_origin) TBool sample_origin)
       TBool sample_origin"

theorem operators_read_back_witness:
  "\<exists>s. run_state (emit_expr latin_std sample_operators) initial_emit_state = (s, initial_emit_state) \<and>
    {t. dart_reads s t} = {tree_of sample_operators}"
proof (rule operators_read_back)
  show "operators sample_operators" by code_simp
  show "keeps_parens sample_operators" by code_simp
qed

section \<open>Where the text means something else\<close>

text \<open>A comparison under a bitwise operator: \<^verbatim>\<open>a & (b == c)\<close> is printed \<^verbatim>\<open>a & b == c\<close>, which is \<^verbatim>\<open>(a & b) == c\<close>.\<close>

lemma sample_words: "text_reads 11 (DWord [c]) [c]" if "ident_part c"
  using that by (intro text_reads_word) auto

lemma ident_samples: "ident_part (CHR ''a'')" "ident_part (CHR ''b'')" "ident_part (CHR ''c'')" "ident_part (CHR ''d'')"
  "ident_part (CHR ''e'')"
  by code_simp+

lemmas sample_texts = sample_words [OF ident_samples(1)] sample_words [OF ident_samples(2)]
  sample_words [OF ident_samples(3)] sample_words [OF ident_samples(4)] sample_words [OF ident_samples(5)]

theorem comparison_under_bitwise_regroups:
  "fst (run_state (emit_expr R (EBinary OpBitAnd (sample_name ''a'')
      (EBinary OpEq (sample_name ''b'') (sample_name ''c'') TBool sample_origin) TInt sample_origin)) st) = ''a & b == c'' \<and>
    {t. dart_reads ''a & b == c'' t} =
      {tree_of (EBinary OpEq (EBinary OpBitAnd (sample_name ''a'') (sample_name ''b'') TInt sample_origin)
        (sample_name ''c'') TBool sample_origin)}"
proof
  show "fst (run_state (emit_expr R (EBinary OpBitAnd (sample_name ''a'')
      (EBinary OpEq (sample_name ''b'') (sample_name ''c'') TBool sample_origin) TInt sample_origin)) st) = ''a & b == c''"
    by (simp add: emit_expr_simps binary_child_needs_parens_def parens_if_def emit_binary_op_def)
  have "text_reads 7 (DBinary ''&'' (DWord ''a'') (DWord ''b'')) ''a & b''"
    using text_reads_binary [OF sample_texts(1,2) spaced_operators(1) [of OpBitAnd TInt]]
    by (simp add: dart_level_def emit_binary_op_def associates_def)
  from text_reads_binary [OF this sample_texts(3) spaced_operators(1) [of OpEq TInt]]
  have "text_reads 3 (DBinary ''=='' (DBinary ''&'' (DWord ''a'') (DWord ''b'')) (DWord ''c'')) ''a & b == c''"
    by (simp add: dart_level_def emit_binary_op_def)
  from dart_reads_only [OF this]
  show "{t. dart_reads ''a & b == c'' t} =
      {tree_of (EBinary OpEq (EBinary OpBitAnd (sample_name ''a'') (sample_name ''b'') TInt sample_origin)
        (sample_name ''c'') TBool sample_origin)}"
    by (simp add: emit_binary_op_def)
qed

text \<open>
  A conditional as a condition: \<^verbatim>\<open>(a ? b : c) ? d : e\<close> is printed without its parentheses and means
  \<^verbatim>\<open>a ? b : (c ? d : e)\<close>.
\<close>

theorem conditional_condition_regroups:
  "fst (run_state (emit_expr R (EConditional
      (EConditional (ERef ''a'' TBool og) (ERef ''b'' TBool og) (ERef ''c'' TBool og) TBool og)
      (sample_name ''d'') (sample_name ''e'') TInt og)) st) = ''a ? b : c ? d : e'' \<and>
    {t. dart_reads ''a ? b : c ? d : e'' t} =
      {tree_of (EConditional (ERef ''a'' TBool og) (ERef ''b'' TBool og)
        (EConditional (ERef ''c'' TBool og) (sample_name ''d'') (sample_name ''e'') TInt og) TInt og)}"
proof
  show "fst (run_state (emit_expr R (EConditional
      (EConditional (ERef ''a'' TBool og) (ERef ''b'' TBool og) (ERef ''c'' TBool og) TBool og)
      (sample_name ''d'') (sample_name ''e'') TInt og)) st) = ''a ? b : c ? d : e''"
    by (simp add: emit_expr_simps run_scoped [of "emit_expr R"])
  from text_reads_choice [OF sample_texts(1) _ sample_texts(2) text_reads_choice [OF sample_texts(3) _ sample_texts(4,5)]]
  have "text_reads 0 (DChoice (DWord ''a'') (DWord ''b'') (DChoice (DWord ''c'') (DWord ''d'') (DWord ''e'')))
      ''a ? b : c ? d : e''"
    by simp
  from dart_reads_only [OF this] show "{t. dart_reads ''a ? b : c ? d : e'' t} =
      {tree_of (EConditional (ERef ''a'' TBool og) (ERef ''b'' TBool og)
        (EConditional (ERef ''c'' TBool og) (sample_name ''d'') (sample_name ''e'') TInt og) TInt og)}"
    by simp
qed

text \<open>
  Comparisons do not chain in Dart: \<^verbatim>\<open>(a == b) == c\<close> is printed without parentheses and is not an
  expression.
\<close>

theorem chained_comparison_is_rejected:
  "fst (run_state (emit_expr R (EBinary OpEq (EBinary OpEq (sample_name ''a'') (sample_name ''b'') TBool og)
      (ERef ''c'' TBool og) TBool og)) st) = ''a == b == c'' \<and>
    {t. dart_reads ''a == b == c'' t} = {}"
proof
  show "fst (run_state (emit_expr R (EBinary OpEq (EBinary OpEq (sample_name ''a'') (sample_name ''b'') TBool og)
      (ERef ''c'' TBool og) TBool og)) st) = ''a == b == c''"
    by (simp add: emit_expr_simps binary_child_needs_parens_def parens_if_def emit_binary_op_def)
  let ?tail = "[TSym ''=='', TWord ''c'']"
  let ?tree = "DBinary ''=='' (DWord ''a'') (DWord ''b'')"
  have tokens: "dart_tokens ''a == b == c'' = TWord ''a'' # TSym ''=='' # TWord ''b'' # ?tail" by code_simp
  have eq_level: "next_level (TSym ''=='' # ts) = 3" for ts by (simp add: next_level_def dart_level_def)
  have word: "reads (Suc 3) (TWord w # rest) (DWord w) rest" if "next_level rest = 3" for w rest
    using reads_back_at [OF reads_back_word, of "Suc 3" rest] that by simp
  have "climbs 3 (DWord ''a'') (TSym ''=='' # TWord ''b'' # ?tail) ?tree ?tail"
    by (rule climbs_once [OF _ _ word]) (simp_all add: dart_level_def associates_def eq_level)
  then have three: "reads 3 (TWord ''a'' # TSym ''=='' # TWord ''b'' # ?tail) ?tree ?tail"
    by (rule reads_level [OF _ _ word, rotated 3]) (simp_all add: eq_level)
  have lower: "reads n ts ?tree ?tail" if "reads (Suc n) ts ?tree ?tail" "n = 1 \<or> n = 2" for n ts
    by (rule reads_level [OF _ _ that(1) climbs_stop]) (use that(2) in \<open>auto simp: eq_level\<close>)
  have "reads 0 (dart_tokens ''a == b == c'') ?tree ?tail"
    unfolding tokens using lower [of 1] lower [of 2] three
    by (intro reads_plain) (simp_all add: next_is_def numeral_2_eq_2 numeral_3_eq_3)
  then show "{t. dart_reads ''a == b == c'' t} = {}"
    using reads_deterministic(1) by (fastforce simp: dart_reads_def)
qed

text \<open>
  A conversion to a nullable type prints its operand alone, and the operators in it are not seen:
  \<^verbatim>\<open>(a ? b : c) == null\<close> is printed \<^verbatim>\<open>a ? b : c == null\<close>, a conditional.
\<close>

theorem nullable_operand_regroups:
  "fst (run_state (emit_expr R (EBinary OpEq
      (EConvert (EConditional (ERef ''a'' TBool og) (ERef ''b'' t og) (ERef ''c'' t og) t og) (TNullable t) og)
      (ENullLiteral og) TBool og)) st) = ''a ? b : c == null'' \<and>
    {x. dart_reads ''a ? b : c == null'' x} =
      {tree_of (EConditional (ERef ''a'' TBool og) (ERef ''b'' t og)
        (EBinary OpEq (ERef ''c'' t og) (ENullLiteral og) TBool og) TBool og)}"
  if "\<not> is_nullable (Some t)"
proof
  show "fst (run_state (emit_expr R (EBinary OpEq
      (EConvert (EConditional (ERef ''a'' TBool og) (ERef ''b'' t og) (ERef ''c'' t og) t og) (TNullable t) og)
      (ENullLiteral og) TBool og)) st) = ''a ? b : c == null''"
    using that
    by (auto simp: emit_expr_simps run_scoped [of "emit_expr R"] binary_child_needs_parens_def convert_shape_of.simps
        parens_if_def emit_binary_op_def asserts_not_null_def is_nullable_def)
  from text_reads_binary [OF sample_texts(3) literal_words(3) spaced_operators(1) [of OpEq TBool]]
  have "text_reads 3 (DBinary ''=='' (DWord ''c'') (DWord ''null'')) ''c == null''"
    by (simp add: dart_level_def emit_binary_op_def)
  from text_reads_choice [OF sample_texts(1) _ sample_texts(2) this]
  have "text_reads 0 (DChoice (DWord ''a'') (DWord ''b'') (DBinary ''=='' (DWord ''c'') (DWord ''null''))) ''a ? b : c == null''"
    by simp
  from dart_reads_only [OF this] show "{x. dart_reads ''a ? b : c == null'' x} =
      {tree_of (EConditional (ERef ''a'' TBool og) (ERef ''b'' t og)
        (EBinary OpEq (ERef ''c'' t og) (ENullLiteral og) TBool og) TBool og)}"
    by (simp add: emit_binary_op_def)
qed

text \<open>
  A compound assignment to an entry of a map repeats the operator without the parentheses of its operand:
  \<^verbatim>\<open>m[k] *= a + b\<close> is printed \<^verbatim>\<open>m[k] = (m[k] ?? 0) * a + b\<close>.
\<close>

theorem compound_map_write_regroups:
  "fst (run_state (emit_stmt R 0 (SExprAssign
      (EMapIndexOrInsert (ERef ''m'' (TMap TInt TInt) sample_origin) (sample_name ''k'') (EIntLiteral 0 sample_origin) TInt sample_origin)
      (EBinary OpMul
        (EMapIndexOrInsert (ERef ''m'' (TMap TInt TInt) sample_origin) (sample_name ''k'') (EIntLiteral 0 sample_origin) TInt sample_origin)
        (EBinary OpAdd (sample_name ''a'') (sample_name ''b'') TInt sample_origin) TInt sample_origin) sample_origin)) initial_emit_state) =
    ''m[k] = (m[k] ?? 0) * a + b;'' @ newline"
proof -
  have zero: "show_int 0 = ''0''" by code_simp
  show ?thesis
    by (simp add: emit_stmt_simps emit_expr_simps emit_expr_assign_def emit_map_index_write_def compound_map_write_def
        expr_eq_def has_nan_def emit_asserted_receiver_def emit_receiver_def receiver_needs_parens_def parens_if_def
        convert_shape_of.simps receiver_bang_def is_nullable_def scoped_def emit_binary_op_def pad_def binary_child_needs_parens_def zero)
qed

end
