(* ===== verification/Dart_Imports.thy ===== *)
theory Dart_Imports
  imports Dart_Total
begin

text \<open>
  The imports of the emitted files: what the scanner of identifiers skips, which files a file imports, and
  what the support file declares.
\<close>

section \<open>What the scanner skips\<close>

lemma skip_string_escape: "skip_string quote (escape_char c @ cs) = skip_string quote cs"
  by (auto simp: escape_char_def)

lemma skip_string_escapes: "skip_string quote (concat (map escape_char s) @ quote # cs) = cs"
  by (induction s) (simp_all add: skip_string_escape)

lemma scan_literal: "scan_identifiers (dart_string_literal s @ rest) = scan_identifiers rest"
  by (simp add: dart_string_literal_escape scan_identifiers.simps skip_string_escapes)

lemma scan_comment:
  assumes "CHR 0x0A \<notin> set s"
  shows "scan_identifiers (''//'' @ s @ newline @ rest) = scan_identifiers (newline @ rest)"
proof -
  have "dropWhile (\<lambda>c. c \<noteq> CHR 0x0A) (s @ newline @ rest) = newline @ rest"
    using assms by (induction s) auto
  then show ?thesis by (simp add: scan_identifiers.simps skip_line_def)
qed

lemma scan_other:
  assumes "\<not> ident_start c" and "c \<noteq> quote" and "c \<noteq> CHR 0x22" and "c \<noteq> CHR ''/''"
  shows "scan_identifiers (c # cs) = scan_identifiers cs"
  using assms by (simp add: scan_identifiers.simps)

lemma scan_pad: "scan_identifiers (pad n @ rest) = scan_identifiers rest"
proof -
  have "scan_identifiers (CHR '' '' # cs) = scan_identifiers cs" for cs
    by (rule scan_other) code_simp+
  then show ?thesis by (induction n) (simp_all add: pad_def INDENT_def)
qed

lemma scan_word:
  assumes "ident_start c" and "list_all ident_part cs" and "\<not> ident_part d"
  shows "scan_identifiers (c # cs @ d # rest) =
    (c # cs, str_starts_with (dropWhile ascii_whitespace (d # rest)) ''.'') # scan_identifiers (d # rest)"
proof -
  have "\<not> ident_start quote" "\<not> ident_start (CHR 0x22)" "\<not> ident_start (CHR ''/'')" by code_simp+
  then have "c \<noteq> quote" "c \<noteq> CHR 0x22" "c \<noteq> CHR ''/''" using assms(1) by auto
  moreover have "takeWhile ident_part (cs @ d # rest) = cs" "dropWhile ident_part (cs @ d # rest) = d # rest"
    using assms(2,3) by (auto simp: list_all_iff takeWhile_append)
  ultimately show ?thesis using assms(1) by (simp add: scan_identifiers.simps)
qed

text \<open>
  C30. Messages import nothing. A string literal the emitter prints is skipped by the scanner of identifiers,
  whatever it quotes; of a statement that stands for a body that was given up, the scanner sees the throw and
  its class only, whatever the reason says, as long as the reason is a single line.
\<close>

theorem messages_are_not_scanned:
  assumes "CHR 0x0A \<notin> set reason"
  shows "scan_identifiers (dart_string_literal s @ rest) = scan_identifiers rest \<and>
    scan_identifiers (emit_unsupported_stmt depth reason where_at @ rest) =
      (''throw'', False) # (''UnimplementedError'', False) # scan_identifiers rest"
proof
  show "scan_identifiers (dart_string_literal s @ rest) = scan_identifiers rest" by (rule scan_literal)
  let ?message = "dart_string_literal (unsupported_message reason where_at)"
  have skip: "scan_identifiers (c # cs) = scan_identifiers cs"
    if "c \<in> {CHR '' '', CHR 0x0A, CHR ''('', CHR '')'', CHR '';''}" for c cs
  proof (rule scan_other)
    have "\<forall>c \<in> {CHR '' '', CHR 0x0A, CHR ''('', CHR '')'', CHR '';''}. \<not> ident_start c" by code_simp
    then show "\<not> ident_start c" using that by blast
  qed (use that in auto)
  have chars: "ident_start (CHR ''t'')" "ident_start (CHR ''U'')" "list_all ident_part ''hrow''"
    "list_all ident_part ''nimplementedError''" "\<not> ident_part (CHR '' '')" "\<not> ident_part (CHR ''('')"
    "\<not> ascii_whitespace (CHR ''U'')" "\<not> ascii_whitespace (CHR ''('')" "ascii_whitespace (CHR '' '')"
    by code_simp+
  have "CHR 0x0A \<notin> set ('' TODO(syntax-bridge): '' @ reason)" using assms by simp
  from scan_comment [OF this]
  have comment: "scan_identifiers (''//'' @ ('' TODO(syntax-bridge): '' @ reason) @ newline @ cs) =
      scan_identifiers (newline @ cs)" for cs .
  have throw: "scan_identifiers (CHR ''t'' # ''hrow'' @ CHR '' '' # CHR ''U'' # cs) =
      (''throw'', False) # scan_identifiers (CHR ''U'' # cs)" for cs
    using scan_word [of "CHR ''t''" "''hrow''" "CHR '' ''" "CHR ''U'' # cs"] chars skip by simp
  have error: "scan_identifiers (CHR ''U'' # ''nimplementedError'' @ CHR ''('' # cs) =
      (''UnimplementedError'', False) # scan_identifiers cs" for cs
    using scan_word [of "CHR ''U''" "''nimplementedError''" "CHR ''(''" cs] chars skip by simp
  have "emit_unsupported_stmt depth reason where_at @ rest =
      pad depth @ ''//'' @ ('' TODO(syntax-bridge): '' @ reason) @ newline @ pad depth @
      (CHR ''t'' # ''hrow'' @ CHR '' '' # CHR ''U'' # ''nimplementedError'' @ CHR ''('' # ?message @ '');'' @ newline @ rest)"
    by (simp add: emit_unsupported_stmt_def)
  then show "scan_identifiers (emit_unsupported_stmt depth reason where_at @ rest) =
      (''throw'', False) # (''UnimplementedError'', False) # scan_identifiers rest"
    by (simp only: scan_pad comment throw error scan_literal) (simp add: skip scan_pad throw [simplified] error [simplified] scan_literal)
qed

theorem messages_are_not_scanned_witness:
  "scan_identifiers (dart_string_literal ''it's a Foo.bar'') = [] \<and>
    scan_identifiers (emit_unsupported_stmt 2 ''goto Foo.bar'' sample_origin) = [(''throw'', False), (''UnimplementedError'', False)]"
  using messages_are_not_scanned [of "''goto Foo.bar''" "''it's a Foo.bar''" "[]" 2 sample_origin]
  by (simp add: scan_identifiers.simps(1))

text \<open>The second line of a reason is code.\<close>

theorem second_line_of_a_reason_is_scanned:
  "scan_identifiers (emit_unsupported_stmt 0 (''asm {'' @ newline @ ''Foo.bar }'') sample_origin) =
    [(''Foo'', True), (''bar'', False), (''throw'', False), (''UnimplementedError'', False)]"
  by code_simp

section \<open>The imports of a file\<close>

definition with_imports :: "string list \<Rightarrow> string \<Rightarrow> string" where
  "with_imports lines source = (if lines = [] then source else str_join newline lines @ newline @ newline @ source)"

text \<open>
  The files an identifier of the code leads to: the file of a USR the declarations refer to, when its name
  occurs; every file that declares a name that is followed by a dot.
\<close>

definition leads_to :: "string set \<Rightarrow> declared_names \<Rightarrow> string \<Rightarrow> string \<Rightarrow> bool" where
  "leads_to referenced names source other \<longleftrightarrow>
     (\<exists>usr name. usr \<in> referenced \<and> map_of (usr_to_stem names) usr = Some other \<and>
        map_of (usr_to_name names) usr = Some name \<and> name \<in> fst (dart_code_identifiers source)) \<or>
     (\<exists>ns n. (other, ns) \<in> set (declaration_names_by_stem names) \<and> n \<in> set ns \<and>
        n \<in> snd (dart_code_identifiers source))"

lemma needed_imports_sorted: "sorted_wrt (<) (needed_imports stem referenced names source)"
  by (simp add: needed_imports_def Let_def split: prod.split)

lemma set_needed_imports:
  "set (needed_imports stem referenced names source) = {other. other \<noteq> stem \<and> leads_to referenced names source other}"
proof -
  obtain ids owners where ids: "dart_code_identifiers source = (ids, owners)" by fastforce
  let ?by_usr = "(\<lambda>usr. the (map_of (usr_to_stem names) usr)) ` {usr \<in> referenced.
      (case map_of (usr_to_name names) usr of None \<Rightarrow> False | Some name \<Rightarrow> name \<in> ids) \<and>
      map_of (usr_to_stem names) usr \<noteq> None}"
  let ?by_owner = "fst ` set (filter (\<lambda>(other, ns). list_ex (\<lambda>n. n \<in> owners) ns) (declaration_names_by_stem names))"
  have "?by_usr \<subseteq> snd ` set (usr_to_stem names)" by (auto dest: map_of_SomeD intro: rev_image_eqI)
  then have "finite ?by_usr" by (rule finite_subset) simp
  then have "set (needed_imports stem referenced names source) = (?by_usr \<union> ?by_owner) - {stem}"
    by (simp add: needed_imports_def ids Let_def)
  also have "\<dots> = {other. other \<noteq> stem \<and> leads_to referenced names source other}"
    by (auto simp: leads_to_def ids list_ex_iff image_iff split: option.splits) force+
  finally show ?thesis .
qed

lemma fold_hm_put_SomeD:
  "map_of (fold (\<lambda>(u, n, s). hm_put u (f u n s)) ds m) k = Some v \<Longrightarrow>
    map_of m k = Some v \<or> (\<exists>n s. (k, n, s) \<in> set ds \<and> v = f k n s)"
proof (induction ds arbitrary: m)
  case (Cons d ds)
  obtain u n s where d: "d = (u, n, s)" by (cases d) auto
  from Cons.prems have "map_of (fold (\<lambda>(u, n, s). hm_put u (f u n s)) ds (hm_put u (f u n s) m)) k = Some v"
    by (simp add: d)
  from Cons.IH [OF this] show ?case by (auto simp: d split: if_splits)
qed simp

lemma leads_to_declared:
  assumes "leads_to referenced (declared_names_of R md) source other"
  shows "other \<in> set (module_stems R md)"
proof -
  have "\<exists>usr name. (usr, name, other) \<in> set (declarations R md)"
    using assms fold_hm_put_SomeD [where f = "\<lambda>u n s. s" and ds = "declarations R md" and m = "[]"]
    by (fastforce simp: leads_to_def declared_names_of_def)
  then show ?thesis by (force simp: module_stems_def)
qed

text \<open>What the text of a file is made of.\<close>

lemma emit_file_text:
  assumes "emit_file R stem enums records functions mixins ix names enum_ix reasons mock = Some file"
  shows "\<exists>utf8 source. file = with_imports (import_lines utf8 source
      (needed_imports stem (reach_all (\<lambda>r. collect_referenced_usrs_in_record r ix) records \<union>
        reach_all collect_referenced_usrs_in_function functions) names source)) source"
  using assms by (auto simp: emit_file_def with_imports_def Let_def split: prod.splits if_splits)

text \<open>The USRs the declarations of a file refer to.\<close>

definition file_references :: "rust_std \<Rightarrow> ir_module \<Rightarrow> string \<Rightarrow> string set" where
  "file_references R md stem =
     reach_all (\<lambda>r. collect_referenced_usrs_in_record r (records_by_usr (md_records md)))
       (of_stem R r_origin r_name stem (md_records md)) \<union>
     reach_all collect_referenced_usrs_in_function (of_stem R f_origin f_name stem (md_functions md))"

lemma emit_stem_file_text:
  assumes "emit_stem_file R md externals stem = Some printed"
  obtains utf8 source where
    "printed = with_imports (import_lines utf8 source
      (needed_imports stem (file_references R md stem) (declared_names_of R md) source)) source"
  using emit_file_text [OF assms [unfolded emit_stem_file_def Let_def]] unfolding file_references_def by blast

lemma with_imports_contains: "str_contains source name \<Longrightarrow> str_contains (with_imports lines source) name"
proof -
  assume "str_contains source name"
  then obtain before after where "source = before @ name @ after" by (auto simp: str_contains_iff sublist_def)
  then have "with_imports lines source =
      ((if lines = [] then [] else str_join newline lines @ newline @ newline) @ before) @ name @ after"
    by (simp add: with_imports_def)
  then show ?thesis unfolding str_contains_iff sublist_def by blast
qed

section \<open>The support file\<close>

lemma mentions_concat: "mentions sources (concat (map fst parts)) \<longleftrightarrow> list_ex (\<lambda>p. mentions sources (fst p)) parts"
  by (induction parts) (auto simp: mentions_def list_ex_iff)

lemma emit_support_None: "emit_support sources = None \<longleftrightarrow> \<not> mentions sources (concat (map fst SUPPORT_PARTS))"
  unfolding mentions_concat
  by (simp add: emit_support_def Let_def filter_empty_conv list_ex_iff case_prod_unfold)

lemma support_names: "set SUPPORT_NAMES \<subseteq> set (concat (map fst SUPPORT_PARTS))"
  by (simp add: SUPPORT_NAMES_def SUPPORT_PARTS_def STREAM_NAMES_def)

lemma support_emitted:
  assumes "source \<in> set sources" and "list_ex (str_contains source) SUPPORT_NAMES"
  shows "emit_support sources \<noteq> None"
proof -
  obtain name where "name \<in> set SUPPORT_NAMES" "str_contains source name" using assms(2) by (auto simp: list_ex_iff)
  then have "mentions sources (concat (map fst SUPPORT_PARTS))"
    using assms(1) support_names unfolding mentions_def list_ex_iff by blast
  then show ?thesis by (simp add: emit_support_None)
qed

lemma module_result:
  assumes "emittable md" and "emit_module_with_externals R md externals = Some files"
  defines "named \<equiv> module_files R (rewrite_non_copyable_record_copies md) externals"
  shows "emit_support (map snd named) = Some support \<Longrightarrow> map_of files (''lib/'' @ SUPPORT_FILE_NAME) = Some support"
    and "path \<noteq> ''lib/'' @ SUPPORT_FILE_NAME \<Longrightarrow> map_of files path = map_of named path"
    and "map_of named path \<noteq> None \<Longrightarrow> map_of files path \<noteq> None"
  using assms(2) unfolding emitted_module [OF assms(1)] Let_def named_def [symmetric]
  by (auto split: option.splits if_splits)

text \<open>
  C31. The imports of an emitted file are the ones it needs, and they resolve. Its text is its code after its
  import lines; the files of the project among them come once each, in order, and are exactly the other files
  that a reference of its declarations leads to when the code names it, or that declare a name the code
  qualifies with a dot; each of them is a file of the module; and where the code mentions a name of the
  support file, the module has that file.
\<close>

theorem imports_resolve:
  fixes md :: ir_module
  defines "md' \<equiv> rewrite_non_copyable_record_copies md"
  assumes "emittable md" and "emit_module_with_externals R md externals = Some files"
    and "stem \<in> set (module_stems R md)" and "dart_path stem \<noteq> ''lib/'' @ SUPPORT_FILE_NAME"
  shows "\<exists>utf8 source stems.
    map_of files (dart_path stem) = Some (with_imports (import_lines utf8 source stems) source) \<and>
    sorted_wrt (<) stems \<and>
    set stems = {other. other \<noteq> stem \<and> leads_to (file_references R md' stem) (declared_names_of R md') source other} \<and>
    list_all (\<lambda>other. map_of files (dart_path other) \<noteq> None) stems \<and>
    (list_ex (str_contains source) SUPPORT_NAMES \<longrightarrow> map_of files (''lib/'' @ SUPPORT_FILE_NAME) \<noteq> None)"
proof -
  let ?named = "module_files R md' externals"
  obtain printed where found: "emit_stem_file R md' externals stem = Some printed"
    using emit_stem_file_emitted [OF emittable_rewritten [OF assms(2)]] unfolding md'_def by fastforce
  obtain utf8 source where printed: "printed = with_imports (import_lines utf8 source
      (needed_imports stem (file_references R md' stem) (declared_names_of R md') source)) source"
    using emit_stem_file_text [OF found] .
  let ?stems = "needed_imports stem (file_references R md' stem) (declared_names_of R md') source"
  have named: "map_of ?named (dart_path stem) = Some printed"
    using assms(4) found by (simp add: module_files_lookup md'_def)
  have "map_of files (dart_path stem) = Some printed"
    using module_result(2) [OF assms(2,3,5)] named by (simp add: md'_def)
  moreover have "map_of files (dart_path other) \<noteq> None" if "other \<in> set ?stems" for other
  proof (rule module_result(3) [OF assms(2,3)])
    have "other \<in> set (module_stems R md')"
      using that leads_to_declared [of "file_references R md' stem" R md' source other] by (simp add: set_needed_imports)
    then show "map_of (module_files R (rewrite_non_copyable_record_copies md) externals) (dart_path other) \<noteq> None"
      by (simp add: module_files_lookup md'_def)
  qed
  moreover have "map_of files (''lib/'' @ SUPPORT_FILE_NAME) \<noteq> None" if "list_ex (str_contains source) SUPPORT_NAMES"
  proof -
    have "list_ex (str_contains printed) SUPPORT_NAMES"
      using that with_imports_contains unfolding printed list_ex_iff by blast
    moreover have "printed \<in> set (map snd ?named)" using map_of_SomeD [OF named] by force
    ultimately obtain support where "emit_support (map snd ?named) = Some support" using support_emitted by blast
    from module_result(1) [OF assms(2,3) this [unfolded md'_def]] show ?thesis by simp
  qed
  ultimately show ?thesis
    using needed_imports_sorted [of stem "file_references R md' stem" "declared_names_of R md'" source]
      set_needed_imports [of stem "file_references R md' stem" "declared_names_of R md'" source]
    unfolding printed list_all_iff by (intro exI [of _ utf8] exI [of _ source] exI [of _ ?stems]) blast
qed

theorem imports_resolve_witness:
  "\<exists>files utf8 source stems. emit_module_with_externals latin_std sample_counting {} = Some files \<and>
    map_of files ''lib/count.dart'' = Some (with_imports (import_lines utf8 source stems) source) \<and>
    ''count'' \<notin> set stems"
proof -
  have known: "emittable sample_counting" by code_simp
  let ?files = "let files = module_files latin_std (rewrite_non_copyable_record_copies sample_counting) {}
    in case emit_support (map snd files) of None \<Rightarrow> files | Some support \<Rightarrow> bt_put (''lib/'' @ SUPPORT_FILE_NAME) support files"
  have "''count'' \<in> set (module_stems latin_std sample_counting)"
    "dart_path ''count'' \<noteq> ''lib/'' @ SUPPORT_FILE_NAME" "dart_path ''count'' = ''lib/count.dart''"
    by (simp add: sample_counting_stems) code_simp+
  with imports_resolve [OF known emitted_module [OF known], of "''count''" latin_std "{}"] emitted_module [OF known]
  show ?thesis by fastforce
qed

section \<open>The parts of the support file\<close>

lemma str_contains_append:
  "str_contains s p \<Longrightarrow> str_contains (s @ t) p" "str_contains t p \<Longrightarrow> str_contains (s @ t) p" "str_contains p p"
  by (auto simp: str_contains_iff sublist_append)

lemma push_support_contains: "str_contains s p \<or> p \<in> set ps \<Longrightarrow> str_contains (fold push_support ps s) p"
proof (induction ps arbitrary: s)
  case (Cons q ps)
  have "str_contains (push_support q s) p" if "str_contains s p \<or> p = q"
    using that unfolding push_support_def by (blast intro: str_contains_append)
  then show ?case using Cons by auto
qed simp

text \<open>
  The support file declares what the files use: it is emitted exactly when a file mentions one of its
  names, and then it holds the part of every name a file mentions.
\<close>

theorem support_declares_what_is_used:
  "case emit_support sources of
     None \<Rightarrow> \<not> mentions sources (concat (map fst SUPPORT_PARTS))
   | Some support \<Rightarrow>
       mentions sources (concat (map fst SUPPORT_PARTS)) \<and>
       list_all (\<lambda>(names, part). if mentions sources names then str_contains support part else True) SUPPORT_PARTS"
proof (cases "emit_support sources")
  case None
  then show ?thesis using emit_support_None [of sources] by simp
next
  case (Some support)
  have "str_contains support part" if "(names, part) \<in> set SUPPORT_PARTS" "mentions sources names" for names part
  proof -
    have "part \<in> set (map snd (filter (\<lambda>(names, _). mentions sources names) SUPPORT_PARTS))" using that by force
    then have "str_contains (fold push_support (map snd (filter (\<lambda>(names, _). mentions sources names) SUPPORT_PARTS))
        (support_header sources)) part"
      by (intro push_support_contains disjI2)
    with Some show ?thesis by (simp add: emit_support_def Let_def split: if_splits)
  qed
  then show ?thesis using Some emit_support_None [of sources] by (auto simp: list_all_iff)
qed

text \<open>A project file with the name of the support file is lost when the support file is needed.\<close>

theorem support_replaces_a_project_file:
  assumes "emittable md" and "''syntax_bridge_support'' \<in> set (module_stems R md)"
    and "emit_module_with_externals R md externals = Some files"
    and "emit_support (map snd (module_files R (rewrite_non_copyable_record_copies md) externals)) = Some support"
  shows "map_of files (dart_path ''syntax_bridge_support'') = Some support"
proof -
  have "dart_path ''syntax_bridge_support'' = ''lib/'' @ SUPPORT_FILE_NAME" by code_simp
  then show ?thesis using module_result(1) [OF assms(1,3,4)] by simp
qed

end
