(* ===== verification/Dart_Values.thy ===== *)
theory Dart_Values
  imports Dart_Total
begin

text \<open>
  The values the emitter makes up have the declared types: the initial values of fields and the results of
  mocked functions, by Dart's typing rules for the closed expressions they are.
\<close>

section \<open>Dart's rules for values\<close>

text \<open>Mixins and abstract classes, those that declare a method without a body, are not constructed.\<close>

definition concrete_class :: "string set \<Rightarrow> ir_record \<Rightarrow> bool" where
  "concrete_class mixins r \<longleftrightarrow>
     \<not> effective_is_mixin mixins r \<and> list_all (\<lambda>m. m_body m \<noteq> None) (r_methods r)"

text \<open>
  \<open>dart_value mixins enums records v t\<close>: the text is a value of the type. An integer literal is a double where
  one is expected; a record type of one component has a comma after it; enumerations and classes are called by
  the name of their declaration; a class without constructors of its own takes its fields, and a constructor is
  called by the name its declaration has.
\<close>

inductive dart_value :: "string set \<Rightarrow> enum_index \<Rightarrow> record_index \<Rightarrow> string \<Rightarrow> ty \<Rightarrow> bool"
  for mixins :: "string set" and enums :: enum_index and records :: record_index where
  value_int: "dart_value mixins enums records ''0'' TInt"
| value_double: "dart_value mixins enums records ''0'' TDouble"
| value_bool: "dart_value mixins enums records ''false'' TBool"
| value_null: "dart_value mixins enums records ''null'' (TNullable t)"
| value_string: "dart_value mixins enums records [quote, quote] TStr"
| value_bytes: "dart_value mixins enums records ''Uint8List(0)'' TBytes"
| value_list: "dart_value mixins enums records ''[]'' (TList t)"
| value_set: "dart_value mixins enums records ''{}'' (TSet t)"
| value_map: "dart_value mixins enums records ''{}'' (TMap k t)"
| value_enum: "map_of enums usr = Some e \<Longrightarrow> variant \<in> set (en_variants e) \<Longrightarrow>
    dart_value mixins enums records (en_name e @ ''.'' @ variant) (TEnum usr (en_name e))"
| value_aggregate: "map_of records usr = Some r \<Longrightarrow> concrete_class mixins r \<Longrightarrow> r_constructors r = [] \<Longrightarrow>
    list_all2 (dart_value mixins enums records) args (map fl_ty (r_fields r)) \<Longrightarrow>
    dart_value mixins enums records (r_name r @ parens (str_join '', '' args)) (TRecord usr (r_name r))"
| value_constructed: "map_of records usr = Some r \<Longrightarrow> concrete_class mixins r \<Longrightarrow> c \<in> set (r_constructors r) \<Longrightarrow>
    list_all2 (dart_value mixins enums records) args (map p_ty (c_params c)) \<Longrightarrow>
    dart_value mixins enums records (dart_constructor_name (r_name r) (c_index c) @ parens (str_join '', '' args))
      (TRecord usr (r_name r))"
| value_tuple: "length ts \<noteq> 1 \<Longrightarrow> list_all2 (dart_value mixins enums records) vs ts \<Longrightarrow>
    dart_value mixins enums records (parens (str_join '', '' vs)) (TTuple ts)"
| value_tuple_one: "dart_value mixins enums records v t \<Longrightarrow> dart_value mixins enums records (''('' @ v @ '',)'') (TTuple [t])"
| value_pair: "dart_value mixins enums records x a \<Longrightarrow> dart_value mixins enums records y b \<Longrightarrow>
    dart_value mixins enums records (PAIR_TYPE_NAME @ parens (x @ '', '' @ y)) (TPair a b)"

section \<open>The values that are made up\<close>

text \<open>
  A type without record types of one component that spells enumerations and records as they are declared.
\<close>

primrec plain_type :: "enum_index \<Rightarrow> record_index \<Rightarrow> ty \<Rightarrow> bool" where
  "plain_type enums records TInt = True"
| "plain_type enums records TBool = True"
| "plain_type enums records TDouble = True"
| "plain_type enums records TVoid = True"
| "plain_type enums records (TRecord usr name) =
     (case map_of records usr of None \<Rightarrow> True | Some r \<Rightarrow> r_name r = name)"
| "plain_type enums records (TEnum usr name) =
     (case map_of enums usr of None \<Rightarrow> True | Some e \<Rightarrow> en_name e = name)"
| "plain_type enums records TStr = True"
| "plain_type enums records TBytes = True"
| "plain_type enums records (TList e) = plain_type enums records e"
| "plain_type enums records (TSet e) = plain_type enums records e"
| "plain_type enums records (TMap k v) = (plain_type enums records k \<and> plain_type enums records v)"
| "plain_type enums records (TPair a b) = (plain_type enums records a \<and> plain_type enums records b)"
| "plain_type enums records (TListCursor e) = plain_type enums records e"
| "plain_type enums records TByteCursor = True"
| "plain_type enums records (TCallback r ps) =
     (plain_type enums records r \<and> list_all id (map (plain_type enums records) ps))"
| "plain_type enums records (TTuple es) =
     (length es \<noteq> 1 \<and> list_all id (map (plain_type enums records) es))"
| "plain_type enums records (TNullable t) = plain_type enums records t"
| "plain_type enums records TObject = True"
| "plain_type enums records (TUnsupported spelling) = True"

text \<open>
  A record whose values can be made up: a class that is not abstract, whose first constructor, if it has any,
  is the unnamed one.
\<close>

definition mockable :: "string set \<Rightarrow> enum_index \<Rightarrow> record_index \<Rightarrow> ir_record \<Rightarrow> bool" where
  "mockable mixins enums records r \<longleftrightarrow>
     concrete_class mixins r \<and> list_all (plain_type enums records) (mock_argument_types r) \<and>
     (r_constructors r \<noteq> [] \<longrightarrow> list_ex (\<lambda>c. c_index c = 0) (r_constructors r))"

lemma first_constructor:
  assumes "list_ex (\<lambda>c. c_index c = 0) cs"
  shows "hd (sort_key c_index cs) \<in> set cs \<and> c_index (hd (sort_key c_index cs)) = 0"
proof -
  obtain c where c: "c \<in> set (sort_key c_index cs)" "c_index c = 0" using assms by (auto simp: list_ex_iff)
  obtain x xs where sorted: "sort_key c_index cs = x # xs" using c(1) by (cases "sort_key c_index cs") auto
  have "sorted (map c_index (x # xs))" using sorted sorted_sort_key [of c_index cs] by simp
  then have "c_index x \<le> c_index c" using c(1) sorted by auto
  moreover have "x \<in> set cs" using sorted set_sort [of c_index cs] by (metis list.set_intros(1))
  ultimately show ?thesis using c(2) sorted by simp
qed

lemma value_enum_dot:
  "map_of enums usr = Some e \<Longrightarrow> variant \<in> set (en_variants e) \<Longrightarrow>
    dart_value mixins enums records (en_name e @ CHR ''.'' # variant) (TEnum usr (en_name e))"
  using value_enum [of enums usr e variant mixins records] by simp

lemma default_literal_value:
  "plain_type enums records t \<Longrightarrow> field_default_literal enums t = Some v \<Longrightarrow> dart_value mixins enums records v t"
  by (cases t) (auto simp: field_default_literal_def intro: dart_value.intros value_enum_dot split: option.splits list.splits)

lemma those_SomeD: "those (map f xs) = Some ys \<Longrightarrow> list_all2 (\<lambda>y x. f x = Some y) ys xs"
  by (induction xs arbitrary: ys) (auto split: option.splits)

lemma those_typed:
  assumes "\<And>t v. plain_type enums records t \<Longrightarrow> f t = Some v \<Longrightarrow> dart_value mixins enums records v t"
    and "list_all (plain_type enums records) ts" and "those (map f ts) = Some vs"
  shows "list_all2 (dart_value mixins enums records) vs ts"
  using those_SomeD [OF assms(3)] assms(1,2)
  by (auto simp: list_all2_conv_all_nth list_all_length)

text \<open>One level: when the values of the parts are typed, so is the one made of them.\<close>

lemma made_up_record:
  assumes "mockable mixins enums records r" and "map_of records usr = Some r"
    and "list_all2 (dart_value mixins enums records) args (mock_argument_types r)"
  shows "dart_value mixins enums records (r_name r @ parens (str_join '', '' args)) (TRecord usr (r_name r))"
proof (cases "r_constructors r = []")
  case True
  then show ?thesis using assms by (auto simp: mock_argument_types_def mockable_def intro: value_aggregate)
next
  case False
  let ?c = "hd (sort_key c_index (r_constructors r))"
  have c: "?c \<in> set (r_constructors r)" "c_index ?c = 0"
    using first_constructor assms(1) False by (auto simp: mockable_def)
  have "list_all2 (dart_value mixins enums records) args (map p_ty (c_params ?c))"
    using assms(3) False by (simp add: mock_argument_types_def)
  from value_constructed [OF assms(2) _ c(1) this] assms(1) show ?thesis
    using c(2) by (simp add: dart_constructor_name_def mockable_def)
qed

lemma made_up_level:
  assumes records: "list_all (\<lambda>(_, r). mockable mixins enums records r) records" and t: "plain_type enums records t"
    and parts: "\<And>t v. plain_type enums records t \<Longrightarrow> depth < MOCK_VALUE_MAX_DEPTH \<Longrightarrow>
       mock_value_for_type enums records (depth + 1) t = Some v \<Longrightarrow> dart_value mixins enums records v t"
    and made: "mock_value_for_type enums records depth t = Some v"
  shows "dart_value mixins enums records v t"
proof (cases "field_default_literal enums t")
  case (Some literal)
  then show ?thesis
    using made t by (simp add: mock_value_for_type.simps [of enums records depth t] default_literal_value)
next
  case None
  have depth: "depth < MOCK_VALUE_MAX_DEPTH"
    using made None by (auto simp: mock_value_for_type.simps [of enums records depth t] split: if_splits)
  note unfolded = made [unfolded mock_value_for_type.simps [of enums records depth t] None option.case]
  have typed: "list_all2 (dart_value mixins enums records) vs ts" if "list_all (plain_type enums records) ts"
    and "those (map (mock_value_for_type enums records (depth + 1)) ts) = Some vs" for ts vs
    by (rule those_typed [OF _ that]) (rule parts [OF _ depth])
  show ?thesis
  proof (cases t)
    case (TRecord usr name)
    then obtain r args where r: "map_of records usr = Some r"
      "those (map (mock_value_for_type enums records (depth + 1)) (mock_argument_types r)) = Some args"
      "v = name @ parens (str_join '', '' args)"
      using unfolded depth by (auto split: option.splits)
    have "mockable mixins enums records r" using records map_of_SomeD [OF r(1)] by (auto simp: list_all_iff)
    moreover have "name = r_name r" using t TRecord r(1) by simp
    ultimately show ?thesis using typed [OF _ r(2)] r by (simp add: TRecord made_up_record mockable_def)
  next
    case (TTuple ts)
    then obtain vs where vs: "those (map (mock_value_for_type enums records (depth + 1)) ts) = Some vs"
      "v = parens (str_join '', '' vs)" using unfolded depth by auto
    have "list_all (plain_type enums records) ts" "length ts \<noteq> 1" using t TTuple by (auto simp: list.pred_map comp_def)
    with typed [OF _ vs(1)] vs(2) show ?thesis by (simp add: TTuple value_tuple)
  next
    case (TPair a b)
    then obtain x y where "mock_value_for_type enums records (depth + 1) a = Some x"
      "mock_value_for_type enums records (depth + 1) b = Some y" "v = PAIR_TYPE_NAME @ parens (x @ '', '' @ y)"
      using unfolded depth by (auto split: option.splits)
    with parts [OF _ depth] t TPair value_pair [of mixins enums records x a y b] show ?thesis by simp
  qed (use unfolded depth in auto)
qed

text \<open>
  C32. The values the emitter makes up are of the declared type. The initial value of a field and the result of
  a mocked function or method, when there is one, is a value of its type by Dart's rules, in a project all of
  whose records are classes that are neither mixins nor abstract and have the unnamed constructor when they
  have any, and where types spell records and enumerations as declared and are no record of one component.
\<close>

theorem made_up_values_are_typed:
  assumes "list_all (\<lambda>(_, r). mockable mixins enums records r) records" and "plain_type enums records t"
    and "mock_value_for_type enums records depth t = Some v"
  shows "dart_value mixins enums records v t"
  using assms(2,3)
proof (induction "MOCK_VALUE_MAX_DEPTH - depth" arbitrary: depth t v rule: less_induct)
  case less
  show ?case by (rule made_up_level [OF assms(1) less(2) _ less(3)]) (rule less(1), auto)
qed

text \<open>A record of an enumeration and a pair, constructed by a user's constructor.\<close>

definition sample_colors :: ir_enum where
  "sample_colors =
     \<lparr>en_name = ''Color'', en_usr = ''c:@E@Color'', en_variants = [''red'', ''green''], en_values = [0, 1],
       en_origin = sample_origin\<rparr>"

definition sample_point :: ir_record where
  "sample_point =
     (plain_record ''Point'')\<lparr>r_constructors :=
        [\<lparr>c_usr = ''c:@S@Point@F@Point'', c_index = 0,
          c_params = [Param ''c'' (TEnum ''c:@E@Color'' ''Color'') None, Param ''p'' (TPair TInt TStr) None],
          c_inits = [], c_body = [], c_origin = sample_origin\<rparr>]\<rparr>"

lemma sample_point_value:
  "mock_value_for_type [(''c:@E@Color'', sample_colors)] [(''c:@S@Point'', sample_point)] 0 (TRecord ''c:@S@Point'' ''Point'') =
     Some (''Point(Color.red, SyntaxBridgePair(0, '' @ [quote, quote] @ ''))'')"
  by code_simp

theorem made_up_values_are_typed_witness:
  "dart_value {} [(''c:@E@Color'', sample_colors)] [(''c:@S@Point'', sample_point)]
     (''Point(Color.red, SyntaxBridgePair(0, '' @ [quote, quote] @ ''))'') (TRecord ''c:@S@Point'' ''Point'')"
proof (rule made_up_values_are_typed [OF _ _ sample_point_value])
  show "list_all (\<lambda>(_, r). mockable {} [(''c:@E@Color'', sample_colors)] [(''c:@S@Point'', sample_point)] r)
    [(''c:@S@Point'', sample_point)]" by code_simp
qed (simp add: sample_point_def plain_record_def)

section \<open>Where no value of the type is made up\<close>

text \<open>
  A record of one component is printed as a type with a comma after it and as a value without: \<^verbatim>\<open>(0)\<close> is an
  integer in brackets, not a value of \<^verbatim>\<open>(int,)\<close>.
\<close>

inductive_cases value_of_tuple: "dart_value mixins enums records v (TTuple ts)"

lemma zero_is_no_tuple: "\<not> dart_value mixins enums records ''(0)'' (TTuple [TInt])"
  by (auto elim: value_of_tuple dart_value.cases [of mixins enums records _ TInt])

theorem one_component_is_not_a_record:
  "emit_type (TTuple [TInt]) = ''(int,)'' \<and>
   mock_value_for_type [] [] 0 (TTuple [TInt]) = Some ''(0)'' \<and> \<not> dart_value {} [] [] ''(0)'' (TTuple [TInt])"
  by (intro conjI zero_is_no_tuple) code_simp+

text \<open>
  A record is constructed by its name even where its constructors are all named: the value is \<^verbatim>\<open>P(0)\<close>, and
  the class declares \<^verbatim>\<open>P.ctor2\<close> only.
\<close>

definition sample_second :: ir_record where
  "sample_second =
     (plain_record ''P'')\<lparr>r_constructors :=
        [\<lparr>c_usr = ''c:@S@P@F@P'', c_index = 1, c_params = [Param ''x'' TInt None],
          c_inits = [], c_body = [], c_origin = sample_origin\<rparr>]\<rparr>"

theorem unnamed_constructor_is_assumed:
  "mock_value_for_type [] [(''c:@S@P'', sample_second)] 0 (TRecord ''c:@S@P'' ''P'') = Some ''P(0)'' \<and>
   map (dart_constructor_name ''P'' o c_index) (r_constructors sample_second) = [''P.ctor2'']"
  by (intro conjI) code_simp+

text \<open>
  A record is constructed whatever it is printed as: of a class with a pure virtual method, which is printed as
  an abstract class, the value is \<^verbatim>\<open>Shape()\<close>, and so it is of a mixin.
\<close>

definition sample_shape :: ir_record where
  "sample_shape =
     (plain_record ''Shape'')\<lparr>r_methods :=
        [\<lparr>m_name = ''area'', m_usr = ''c:@S@Shape@F@area'', m_params = [], m_return_type = TDouble, m_body = None,
          m_is_static = False, m_is_override = False, m_origin = sample_origin\<rparr>]\<rparr>"

lemma shape_is_abstract: "\<not> concrete_class mixins sample_shape"
  by (simp add: concrete_class_def sample_shape_def)

lemma shape_is_no_value:
  "\<not> dart_value mixins enums [(''c:@S@Shape'', sample_shape)] ''Shape()'' (TRecord ''c:@S@Shape'' ''Shape'')"
proof
  assume "dart_value mixins enums [(''c:@S@Shape'', sample_shape)] ''Shape()'' (TRecord ''c:@S@Shape'' ''Shape'')"
  then show False by cases (auto simp only: map_of.simps fst_conv snd_conv fun_upd_same option.inject shape_is_abstract
    fun_upd_apply if_True)
qed

theorem abstract_classes_are_constructed:
  "mock_value_for_type [] [(''c:@S@Shape'', sample_shape)] 0 (TRecord ''c:@S@Shape'' ''Shape'') = Some ''Shape()'' \<and>
   \<not> dart_value {} [] [(''c:@S@Shape'', sample_shape)] ''Shape()'' (TRecord ''c:@S@Shape'' ''Shape'')"
  by (intro conjI shape_is_no_value) code_simp

end
