(* ===== verification/Externals_Store.thy ===== *)
theory Externals_Store
  imports Externals Jobs "HOL-Library.State_Monad"
begin

text \<open>
  The text file that keeps the user's external marks, the regex rules and the file marks of a project:
  \<^verbatim>\<open>crates/server/src/persistence/externals_store.rs\<close>. A write is the whole file again, to a temporary file
  that is then renamed. The disk is a state with the two files and a schedule of the input and output
  errors to come, so every call may fail at every point. The lemmas show that what is written is what is
  read back, that an operation that fails changes nothing that is stored, and that one that succeeds is
  the operation on the data; and what is stored when a field holds a tab or a line break.
\<close>

section \<open>Texts of numbers\<close>

text \<open>\<^verbatim>\<open>i64\<close>'s \<^verbatim>\<open>Display\<close> and \<^verbatim>\<open>FromStr\<close>: an optional sign, at least one digit, and the range of the type.\<close>

definition show_i64 :: "i64 \<Rightarrow> string" where
  "show_i64 i = (if sint i < 0 then CHR ''-'' # show_nat (nat (- sint i)) else show_nat (nat (sint i)))"

definition digit_value :: "char \<Rightarrow> nat" where
  "digit_value c = of_char c - 48"

definition read_digits :: "string \<Rightarrow> nat" where
  "read_digits s = foldl (\<lambda>n c. 10 * n + digit_value c) 0 s"

definition in_i64 :: "int \<Rightarrow> i64 option" where
  "in_i64 n = (if - (2 ^ 63) \<le> n \<and> n < 2 ^ 63 then Some (word_of_int n) else None)"

definition parse_i64 :: "string \<Rightarrow> i64 option" where
  "parse_i64 s =
     (let (negative, digits) =
        (case s of
           c # rest \<Rightarrow> if c = CHR ''-'' then (True, rest) else if c = CHR ''+'' then (False, rest) else (False, s)
         | [] \<Rightarrow> (False, s))
      in if digits = [] \<or> \<not> list_all is_digit digits then None
         else in_i64 (if negative then - int (read_digits digits) else int (read_digits digits)))"

lemma show_nat_not_nil: "show_nat n = c # cs \<Longrightarrow> is_digit c"
  using show_nat_digits [of n] by simp

lemma read_digits_snoc: "read_digits (s @ [c]) = 10 * read_digits s + digit_value c"
  by (simp add: read_digits_def)

lemma digit_value_char: "d < 10 \<Longrightarrow> digit_value (digit_char d) = d"
  by (simp add: digit_value_def digit_char_def of_char_of take_bit_eq_mod)

lemma read_show_nat [simp]: "read_digits (show_nat n) = n"
proof (induction n rule: show_nat.induct)
  case (1 n)
  show ?case
  proof (cases "n < 10")
    case True
    then show ?thesis using read_digits_snoc [of "[]" "digit_char n"]
      by (simp add: show_nat.simps [of n] digit_value_char read_digits_def)
  next
    case False
    then show ?thesis using 1 by (simp add: show_nat.simps [of n] read_digits_snoc digit_value_char)
  qed
qed

lemma sign_is_no_digit: "\<not> is_digit (CHR ''-'')" "\<not> is_digit (CHR ''+'')"
  by (simp_all add: is_digit_def)

theorem parse_show_i64 [simp]: "parse_i64 (show_i64 i) = Some i"
proof -
  have range: "- (2 ^ 63) \<le> sint i" "sint i < 2 ^ 63"
    using sint_greater_eq [of i] sint_lt [of i] by simp_all
  show ?thesis
  proof (cases "sint i < 0")
    case True
    then show ?thesis using range show_nat_digits [of "nat (- sint i)"]
      by (simp add: parse_i64_def show_i64_def in_i64_def)
  next
    case False
    obtain c cs where shown: "show_nat (nat (sint i)) = c # cs" by (cases "show_nat (nat (sint i))") simp_all
    have "c \<noteq> CHR ''-''" "c \<noteq> CHR ''+''" using show_nat_not_nil [OF shown] sign_is_no_digit by auto
    moreover have "read_digits (c # cs) = nat (sint i)" "list_all is_digit (c # cs)"
      using read_show_nat [of "nat (sint i)"] show_nat_digits [of "nat (sint i)"] unfolding shown by simp_all
    ultimately show ?thesis
      using range False by (simp add: parse_i64_def show_i64_def in_i64_def shown)
  qed
qed

section \<open>The file\<close>

record externals_data =
  xd_marks :: "external_mark list"
  xd_name_regexes :: "name_regex_rule list"
  xd_path_regexes :: "path_regex_rule list"
  xd_file_marks :: "file_mark list"

definition default_externals :: externals_data where
  "default_externals = \<lparr>xd_marks = [], xd_name_regexes = [], xd_path_regexes = [], xd_file_marks = []\<rparr>"

abbreviation tab :: char where "tab \<equiv> CHR 0x09"
abbreviation line_break :: char where "line_break \<equiv> CHR 0x0A"

definition HEADER :: string where
  "HEADER = concat (map (\<lambda>l. l @ [line_break])
     [''# syntax-bridge '' @ [CHR 0xE2, CHR 0x80, CHR 0x94] @ '' lista de itens externos (arquivo texto edit'' @
        [CHR 0xC3, CHR 0xA1] @ ''vel)'',
      ''# Ver docs/plans/lista-de-externos.md. Gerado e lido pelo syntax-bridge; pode'',
      ''# ser editado por fora tamb'' @ [CHR 0xC3, CHR 0xA9] @ ''m. Linhas em branco ou iniciadas por '' @ [CHR 0x27, CHR ''#'', CHR 0x27] @
        '' s'' @ [CHR 0xC3, CHR 0xA3] @ ''o'',
      ''# ignoradas. Campos separados por TAB.'',
      ''#'',
      ''# mark'' @ [tab] @ ''<include|exclude>'' @ [tab] @ ''<usr>'' @ [tab] @ ''<decided_at>'',
      ''# name_regex'' @ [tab] @ ''<id>'' @ [tab] @ ''<pattern>'' @ [tab] @ ''<created_at>'',
      ''# path_regex'' @ [tab] @ ''<id>'' @ [tab] @ ''<pattern>'' @ [tab] @ ''<created_at>'',
      ''# file'' @ [tab] @ ''<path>'' @ [tab] @ ''<decided_at>''])"

text \<open>One line of the file: its fields, and what a line that is read adds to the data.\<close>

definition parse_fields :: "string list \<Rightarrow> externals_data \<Rightarrow> externals_data" where
  "parse_fields fs data =
     (case fs of
        [a, b, c, d] \<Rightarrow>
          if a = ''mark'' \<and> b = ''include'' then
            data\<lparr>xd_marks := xd_marks data @ [\<lparr>xm_usr = c, xm_external = True, xm_decided_at = d\<rparr>]\<rparr>
          else if a = ''mark'' \<and> b = ''exclude'' then
            data\<lparr>xd_marks := xd_marks data @ [\<lparr>xm_usr = c, xm_external = False, xm_decided_at = d\<rparr>]\<rparr>
          else if a = ''name_regex'' then
            (case parse_i64 b of
               Some i \<Rightarrow> data\<lparr>xd_name_regexes := xd_name_regexes data @ [\<lparr>nr_id = i, nr_pattern = c, nr_created_at = d\<rparr>]\<rparr>
             | None \<Rightarrow> data)
          else if a = ''path_regex'' then
            (case parse_i64 b of
               Some i \<Rightarrow> data\<lparr>xd_path_regexes := xd_path_regexes data @ [\<lparr>pr_id = i, pr_pattern = c, pr_created_at = d\<rparr>]\<rparr>
             | None \<Rightarrow> data)
          else data
      | [a, b, c] \<Rightarrow>
          if a = ''file'' then data\<lparr>xd_file_marks := xd_file_marks data @ [\<lparr>fm_file = b, fm_decided_at = c\<rparr>]\<rparr>
          else data
      | _ \<Rightarrow> data)"

definition parse_line :: "string \<Rightarrow> externals_data \<Rightarrow> externals_data" where
  "parse_line raw data =
     (let line = str_trim raw
      in if line = [] \<or> prefix ''#'' line then data
         else parse_fields (str_split_on [tab] line) data)"

definition parse :: "string \<Rightarrow> externals_data" where
  "parse contents = fold parse_line (str_lines contents) default_externals"

definition mark_line :: "external_mark \<Rightarrow> string" where
  "mark_line m = ''mark'' @ [tab] @ (if xm_external m then ''include'' else ''exclude'') @ [tab] @ xm_usr m @ [tab] @
     xm_decided_at m @ [line_break]"

definition name_regex_line :: "name_regex_rule \<Rightarrow> string" where
  "name_regex_line r = ''name_regex'' @ [tab] @ show_i64 (nr_id r) @ [tab] @ nr_pattern r @ [tab] @ nr_created_at r @ [line_break]"

definition path_regex_line :: "path_regex_rule \<Rightarrow> string" where
  "path_regex_line r = ''path_regex'' @ [tab] @ show_i64 (pr_id r) @ [tab] @ pr_pattern r @ [tab] @ pr_created_at r @ [line_break]"

definition file_line :: "file_mark \<Rightarrow> string" where
  "file_line m = ''file'' @ [tab] @ fm_file m @ [tab] @ fm_decided_at m @ [line_break]"

definition serialize :: "externals_data \<Rightarrow> string" where
  "serialize data =
     HEADER @ concat (map mark_line (xd_marks data)) @ concat (map name_regex_line (xd_name_regexes data)) @
     concat (map path_regex_line (xd_path_regexes data)) @ concat (map file_line (xd_file_marks data))"

section \<open>What is written is read back\<close>

text \<open>A field holds no separator; a time also ends in a visible character, since lines are trimmed.\<close>

definition field_ok :: "string \<Rightarrow> bool" where
  "field_ok s \<longleftrightarrow> tab \<notin> set s \<and> line_break \<notin> set s"

definition visible :: "char \<Rightarrow> bool" where
  "visible c \<longleftrightarrow> 0x20 < (of_char c :: nat) \<and> (of_char c :: nat) < 0x7F"

definition time_ok :: "string \<Rightarrow> bool" where
  "time_ok s \<longleftrightarrow> field_ok s \<and> s \<noteq> [] \<and> visible (last s)"

definition data_ok :: "externals_data \<Rightarrow> bool" where
  "data_ok data \<longleftrightarrow>
     list_all (\<lambda>m. field_ok (xm_usr m) \<and> time_ok (xm_decided_at m)) (xd_marks data) \<and>
     list_all (\<lambda>r. field_ok (nr_pattern r) \<and> time_ok (nr_created_at r)) (xd_name_regexes data) \<and>
     list_all (\<lambda>r. field_ok (pr_pattern r) \<and> time_ok (pr_created_at r)) (xd_path_regexes data) \<and>
     list_all (\<lambda>m. field_ok (fm_file m) \<and> time_ok (fm_decided_at m)) (xd_file_marks data)"

lemma split_inclusive_line:
  "line_break \<notin> set l \<Longrightarrow> split_inclusive (l @ line_break # rest) = (l @ [line_break]) # split_inclusive rest"
  by (induction l) auto

lemma lines_line:
  assumes "line_break \<notin> set l" and "l \<noteq> []" and "last l \<noteq> CHR 0x0D"
  shows "str_lines (l @ line_break # rest) = l # str_lines rest"
proof -
  have "\<not> suffix [CHR 0x0D] l" using assms(2,3) by (auto simp: suffix_def)
  then show ?thesis using assms(1) by (simp add: str_lines_def split_inclusive_line line_content_def Let_def)
qed

lemma str_find_tab: "tab \<notin> set s \<Longrightarrow> str_find (s @ tab # rest) [tab] = Some (length s)"
  by (induction s) auto

lemma split_no_tab: "tab \<notin> set s \<Longrightarrow> str_split_on [tab] s = [s]"
proof -
  assume "tab \<notin> set s"
  then have "str_find s [tab] = None" by (induction s) auto
  then show ?thesis by (simp add: str_split_on.simps)
qed

lemma split_tab: "tab \<notin> set s \<Longrightarrow> str_split_on [tab] (s @ tab # rest) = s # str_split_on [tab] rest"
  by (subst str_split_on.simps) (simp add: str_find_tab)

text \<open>A line that starts and ends in a visible character is not shortened by the trim.\<close>

lemma visible_width: "visible c \<Longrightarrow> utf8_width c = 1"
  by (simp add: visible_def utf8_width_def)

lemma visible_no_space: "visible (last c) \<Longrightarrow> c \<noteq> [] \<Longrightarrow> \<not> char_is_whitespace c"
proof
  assume c: "visible (last c)" "c \<noteq> []" "char_is_whitespace c"
  then have "last (map of_char c) \<in> last ` set white_space"
    unfolding char_is_whitespace_def by blast
  then have "(of_char (last c) :: nat) \<in> last ` set white_space" using c(2) by (simp add: last_map)
  then show False using c(1) unfolding white_space_def visible_def by auto
qed

lemma last_utf8_chars: "s \<noteq> [] \<Longrightarrow> utf8_chars s \<noteq> [] \<and> last (utf8_chars s) \<noteq> [] \<and> last (last (utf8_chars s)) = last s"
proof (induction s rule: utf8_chars.induct)
  case (2 b bs)
  show ?case
  proof (cases "drop (utf8_width b - 1) bs = []")
    case True
    then show ?thesis by (auto simp: last_append)
  next
    case False
    have "last (drop (utf8_width b - 1) bs) = last bs" using False by (simp add: last_drop)
    then show ?thesis using 2 False by auto
  qed
qed simp

lemma trim_visible:
  assumes "s \<noteq> []" and "visible (hd s)" and "visible (last s)"
  shows "str_trim s = s"
proof -
  obtain b bs where s: "s = b # bs" using assms(1) by (cases s) auto
  have chars: "utf8_chars s = [b] # utf8_chars bs" using assms(2) s visible_width by simp
  have "\<not> char_is_whitespace [b]" using assms(2) s by (intro visible_no_space) auto
  then have start: "str_trim_start s = s" unfolding str_trim_start_def chars by (simp add: s)
  have last: "utf8_chars s \<noteq> []" "last (utf8_chars s) \<noteq> []" "visible (last (last (utf8_chars s)))"
    using last_utf8_chars [OF assms(1)] assms(3) by auto
  then obtain cs c where cs: "utf8_chars s = cs @ [c]" by (metis rev_exhaust)
  then have "\<not> char_is_whitespace c" using last by (intro visible_no_space) auto
  then have "str_trim_end s = concat (utf8_chars s)" unfolding str_trim_end_def cs by simp
  then show ?thesis by (simp add: str_trim_def start)
qed

text \<open>Hence each line is read as the fields it was written from.\<close>

lemma last_time: "time_ok d \<Longrightarrow> last (a @ d) = last d \<and> d \<noteq> []"
  by (auto simp: time_ok_def)

lemma visible_no_return: "visible c \<Longrightarrow> c \<noteq> CHR 0x0D"
  by (auto simp: visible_def)

lemma parse_line_fields:
  assumes "l \<noteq> []" and "visible (hd l)" and "hd l \<noteq> CHR ''#''" and "visible (last l)"
  shows "parse_line l data = parse_fields (str_split_on [tab] l) data"
  using trim_visible [OF assms(1,2,4)] assms(1,3) by (cases l) (simp_all add: parse_line_def Let_def)

lemma read_line:
  assumes "field_ok a" and "a \<noteq> []" and "visible (hd a)" and "hd a \<noteq> CHR ''#''" and "list_all field_ok fs" and "time_ok d"
  shows "fold parse_line (str_lines (concat (map (\<lambda>f. f @ [tab]) (a # fs)) @ d @ line_break # rest)) data =
    fold parse_line (str_lines rest) (parse_fields (a # fs @ [d]) data)"
proof -
  let ?l = "concat (map (\<lambda>f. f @ [tab]) (a # fs)) @ d"
  have split: "str_split_on [tab] (concat (map (\<lambda>f. f @ [tab]) gs) @ d) = gs @ [d]" if "list_all field_ok gs" for gs
    using that assms(6) by (induction gs) (simp_all add: field_ok_def time_ok_def split_tab split_no_tab)
  have "line_break \<notin> set ?l" using assms(1,5,6) by (auto simp: field_ok_def time_ok_def list_all_iff)
  moreover have "?l \<noteq> []" using assms(2) by simp
  moreover have last: "visible (last ?l)" using assms(6) by (simp add: time_ok_def)
  ultimately have "str_lines (?l @ line_break # rest) = ?l # str_lines rest"
    by (intro lines_line) (auto dest: visible_no_return)
  moreover have "parse_line ?l data = parse_fields (a # fs @ [d]) data"
    using assms(1-5) last split [of "a # fs"] by (subst parse_line_fields) auto
  ultimately show ?thesis by simp
qed

lemma field_names:
  "field_ok ''mark'' \<and> field_ok ''name_regex'' \<and> field_ok ''path_regex'' \<and> field_ok ''file'' \<and>
   field_ok ''include'' \<and> field_ok ''exclude''"
  by code_simp

lemma field_ok_show_i64: "field_ok (show_i64 i)"
proof -
  have "tab \<notin> set (show_nat n)" "line_break \<notin> set (show_nat n)" for n
    using show_nat_digits [of n] by (auto simp: list_all_iff is_digit_def)
  then show ?thesis by (simp add: field_ok_def show_i64_def)
qed

lemma visible_names: "visible CHR ''m'' \<and> visible CHR ''n'' \<and> visible CHR ''p'' \<and> visible CHR ''f''"
  by code_simp

text \<open>A section of the file, with what it adds to the data.\<close>

lemma read_section:
  assumes "field_ok a \<and> a \<noteq> [] \<and> visible (hd a) \<and> hd a \<noteq> CHR ''#''"
    and "list_all (\<lambda>x. list_all field_ok (fs x) \<and> time_ok (d x)) xs"
    and "\<And>x. line x = concat (map (\<lambda>f. f @ [tab]) (a # fs x)) @ d x @ [line_break]"
    and "\<And>x data. parse_fields (a # fs x @ [d x]) data = add [x] data"
    and "\<And>x ys data. add ys (add [x] data) = add (x # ys) data" and "\<And>data. add [] data = data"
  shows "fold parse_line (str_lines (concat (map line xs) @ rest)) data = fold parse_line (str_lines rest) (add xs data)"
  using assms(2)
proof (induction xs arbitrary: data)
  case (Cons x xs)
  have "concat (map line (x # xs)) @ rest =
      concat (map (\<lambda>f. f @ [tab]) (a # fs x)) @ d x @ line_break # concat (map line xs) @ rest"
    by (simp add: assms(3))
  also have "fold parse_line (str_lines \<dots>) data =
      fold parse_line (str_lines (concat (map line xs) @ rest)) (parse_fields (a # fs x @ [d x]) data)"
    using Cons.prems assms(1) by (intro read_line) auto
  also have "\<dots> = fold parse_line (str_lines rest) (add xs (add [x] data))"
    using Cons by (subst assms(4)) simp
  finally show ?case by (simp only: assms(5))
qed (simp add: assms(6))

lemmas field_facts = field_names visible_names field_ok_show_i64 parse_fields_def

lemma read_marks:
  assumes "list_all (\<lambda>m. field_ok (xm_usr m) \<and> time_ok (xm_decided_at m)) ms"
  shows "fold parse_line (str_lines (concat (map mark_line ms) @ rest)) data =
    fold parse_line (str_lines rest) (data\<lparr>xd_marks := xd_marks data @ ms\<rparr>)"
  using assms
  by (intro read_section [where a = "''mark''" and fs = "\<lambda>m. [if xm_external m then ''include'' else ''exclude'', xm_usr m]"
        and d = xm_decided_at])
    (auto simp: field_facts mark_line_def list_all_iff)

lemma read_name_regexes:
  assumes "list_all (\<lambda>r. field_ok (nr_pattern r) \<and> time_ok (nr_created_at r)) rs"
  shows "fold parse_line (str_lines (concat (map name_regex_line rs) @ rest)) data =
    fold parse_line (str_lines rest) (data\<lparr>xd_name_regexes := xd_name_regexes data @ rs\<rparr>)"
  using assms
  by (intro read_section [where a = "''name_regex''" and fs = "\<lambda>r. [show_i64 (nr_id r), nr_pattern r]" and d = nr_created_at])
    (auto simp: field_facts name_regex_line_def list_all_iff)

lemma read_path_regexes:
  assumes "list_all (\<lambda>r. field_ok (pr_pattern r) \<and> time_ok (pr_created_at r)) rs"
  shows "fold parse_line (str_lines (concat (map path_regex_line rs) @ rest)) data =
    fold parse_line (str_lines rest) (data\<lparr>xd_path_regexes := xd_path_regexes data @ rs\<rparr>)"
  using assms
  by (intro read_section [where a = "''path_regex''" and fs = "\<lambda>r. [show_i64 (pr_id r), pr_pattern r]" and d = pr_created_at])
    (auto simp: field_facts path_regex_line_def list_all_iff)

lemma read_file_marks:
  assumes "list_all (\<lambda>m. field_ok (fm_file m) \<and> time_ok (fm_decided_at m)) ms"
  shows "fold parse_line (str_lines (concat (map file_line ms) @ rest)) data =
    fold parse_line (str_lines rest) (data\<lparr>xd_file_marks := xd_file_marks data @ ms\<rparr>)"
  using assms
  by (intro read_section [where a = "''file''" and fs = "\<lambda>m. [fm_file m]" and d = fm_decided_at])
    (auto simp: field_facts file_line_def list_all_iff)

text \<open>The lines of the header are comments.\<close>

lemma comment_line:
  assumes "prefix ''#'' l" and "line_break \<notin> set l" and "visible (last l)"
  shows "fold parse_line (str_lines (l @ line_break # rest)) data = fold parse_line (str_lines rest) data"
proof -
  obtain l' where l: "l = CHR ''#'' # l'" using assms(1) by (auto simp: prefix_def)
  have "visible (CHR ''#'')" by code_simp
  then have "str_trim l = l" using assms(3) l by (intro trim_visible) auto
  moreover have "str_lines (l @ line_break # rest) = l # str_lines rest"
    using assms(2,3) l by (intro lines_line) (auto dest: visible_no_return)
  ultimately show ?thesis using assms(1) by (simp add: parse_line_def)
qed

lemma read_header: "fold parse_line (str_lines (HEADER @ rest)) data = fold parse_line (str_lines rest) data"
proof -
  have lines: "fold parse_line (str_lines (concat (map (\<lambda>l. l @ [line_break]) ls) @ rest)) data = fold parse_line (str_lines rest) data"
    if "list_all (\<lambda>l. prefix ''#'' l \<and> line_break \<notin> set l \<and> visible (last l)) ls" for ls
    using that by (induction ls) (simp_all add: comment_line)
  show ?thesis unfolding HEADER_def by (rule lines) code_simp
qed

lemma parse_serialize: "data_ok data \<Longrightarrow> parse (serialize data) = data"
  using read_file_marks [of "xd_file_marks data" "[]"]
  by (simp add: parse_def serialize_def data_ok_def read_header read_marks read_name_regexes read_path_regexes
      default_externals_def str_lines_def [of "[]"])

section \<open>The disk\<close>

text \<open>
  The file of the store and the temporary one beside it. \<open>faults\<close> is the schedule of what the next calls of
  the operating system do: nothing wrong, or an error, which in a write leaves some text behind. A file that
  is not there is no error: it is read as the empty data.
\<close>

record io_fault =
  fault_text :: string
  fault_left :: string

record disk =
  externals_txt :: "string option"
  externals_tmp :: "string option"
  faults :: "io_fault option list"

type_synonym 'a store_op = "(disk, persistence_error + 'a) state"

definition next_call :: "(disk, io_fault option) state" where
  "next_call = State_Monad.State (\<lambda>s. case faults s of [] \<Rightarrow> (None, s) | f # fs \<Rightarrow> (f, s\<lparr>faults := fs\<rparr>))"

text \<open>Rust's \<^verbatim>\<open>?\<close>: go on with the value, or return the error.\<close>

definition or_return :: "('s, 'e + 'a) state \<Rightarrow> ('a \<Rightarrow> ('s, 'e + 'b) state) \<Rightarrow> ('s, 'e + 'b) state" where
  "or_return m k = do { r \<leftarrow> m; case r of Inl e \<Rightarrow> State_Monad.return (Inl e) | Inr x \<Rightarrow> k x }"

definition done_with :: "'a \<Rightarrow> ('s, 'e + 'a) state" where
  "done_with x = State_Monad.return (Inr x)"

definition system_call :: "(disk \<Rightarrow> 'a \<times> disk) \<Rightarrow> (string \<Rightarrow> disk \<Rightarrow> disk) \<Rightarrow> 'a store_op" where
  "system_call works fails = do {
     f \<leftarrow> next_call;
     case f of
       None \<Rightarrow> State_Monad.State (\<lambda>s. map_prod Inr (\<lambda>t. t) (works s))
     | Some fault \<Rightarrow> do { State_Monad.update (fails (fault_left fault)); State_Monad.return (Inl (PersistenceIo (fault_text fault))) } }"

definition create_dir_all :: "unit store_op" where
  "create_dir_all = system_call (\<lambda>s. ((), s)) (\<lambda>_ s. s)"

definition write_tmp :: "string \<Rightarrow> unit store_op" where
  "write_tmp contents = system_call (\<lambda>s. ((), s\<lparr>externals_tmp := Some contents\<rparr>)) (\<lambda>left s. s\<lparr>externals_tmp := Some left\<rparr>)"

definition rename_tmp :: "unit store_op" where
  "rename_tmp = system_call (\<lambda>s. ((), s\<lparr>externals_txt := externals_tmp s, externals_tmp := None\<rparr>)) (\<lambda>_ s. s)"

section \<open>The operations of the store\<close>

definition read_store :: "externals_data store_op" where
  "read_store = system_call (\<lambda>s. (case externals_txt s of Some contents \<Rightarrow> parse contents | None \<Rightarrow> default_externals, s)) (\<lambda>_ s. s)"

definition write_store :: "externals_data \<Rightarrow> unit store_op" where
  "write_store data = or_return create_dir_all (\<lambda>_. or_return (write_tmp (serialize data)) (\<lambda>_. rename_tmp))"

definition list_marks :: "external_mark list store_op" where
  "list_marks = or_return read_store (\<lambda>data. done_with (xd_marks data))"

definition upsert_mark :: "external_mark \<Rightarrow> externals_data \<Rightarrow> externals_data" where
  "upsert_mark m data =
     data\<lparr>xd_marks := sort_key xm_usr (filter (\<lambda>existing. xm_usr existing \<noteq> xm_usr m) (xd_marks data) @ [m])\<rparr>"

definition set_mark :: "external_mark \<Rightarrow> unit store_op" where
  "set_mark m = or_return read_store (\<lambda>data. write_store (upsert_mark m data))"

definition retain_marks :: "string set \<Rightarrow> externals_data \<Rightarrow> externals_data" where
  "retain_marks valid_usrs data = data\<lparr>xd_marks := filter (\<lambda>mark. xm_usr mark \<in> valid_usrs) (xd_marks data)\<rparr>"

definition prune_marks :: "string set \<Rightarrow> unit store_op" where
  "prune_marks valid_usrs = or_return read_store (\<lambda>data.
     let kept = retain_marks valid_usrs data
     in if length (xd_marks kept) \<noteq> length (xd_marks data) then write_store kept else done_with ())"

text \<open>The sum wraps at the largest \<^verbatim>\<open>i64\<close>, in a build without overflow checks.\<close>

definition i64_max :: "i64 \<Rightarrow> i64 \<Rightarrow> i64" where
  "i64_max a b = (if sint a \<le> sint b then b else a)"

definition next_id :: "i64 list \<Rightarrow> i64" where
  "next_id existing = (case existing of [] \<Rightarrow> 0 | i # rest \<Rightarrow> fold i64_max rest i) + 1"

definition list_name_regexes :: "name_regex_rule list store_op" where
  "list_name_regexes = or_return read_store (\<lambda>data. done_with (xd_name_regexes data))"

definition push_name_regex :: "string \<Rightarrow> string \<Rightarrow> externals_data \<Rightarrow> externals_data" where
  "push_name_regex pattern created_at data =
     data\<lparr>xd_name_regexes := xd_name_regexes data @
       [\<lparr>nr_id = next_id (map nr_id (xd_name_regexes data)), nr_pattern = pattern, nr_created_at = created_at\<rparr>]\<rparr>"

definition add_name_regex :: "string \<Rightarrow> string \<Rightarrow> i64 store_op" where
  "add_name_regex pattern created_at = or_return read_store (\<lambda>data.
     or_return (write_store (push_name_regex pattern created_at data)) (\<lambda>_.
       done_with (next_id (map nr_id (xd_name_regexes data)))))"

definition drop_name_regex :: "i64 \<Rightarrow> externals_data \<Rightarrow> externals_data" where
  "drop_name_regex i data = data\<lparr>xd_name_regexes := filter (\<lambda>rule. nr_id rule \<noteq> i) (xd_name_regexes data)\<rparr>"

definition remove_name_regex :: "i64 \<Rightarrow> unit store_op" where
  "remove_name_regex i = or_return read_store (\<lambda>data. write_store (drop_name_regex i data))"

definition list_path_regexes :: "path_regex_rule list store_op" where
  "list_path_regexes = or_return read_store (\<lambda>data. done_with (xd_path_regexes data))"

definition push_path_regex :: "string \<Rightarrow> string \<Rightarrow> externals_data \<Rightarrow> externals_data" where
  "push_path_regex pattern created_at data =
     data\<lparr>xd_path_regexes := xd_path_regexes data @
       [\<lparr>pr_id = next_id (map pr_id (xd_path_regexes data)), pr_pattern = pattern, pr_created_at = created_at\<rparr>]\<rparr>"

definition add_path_regex :: "string \<Rightarrow> string \<Rightarrow> i64 store_op" where
  "add_path_regex pattern created_at = or_return read_store (\<lambda>data.
     or_return (write_store (push_path_regex pattern created_at data)) (\<lambda>_.
       done_with (next_id (map pr_id (xd_path_regexes data)))))"

definition drop_path_regex :: "i64 \<Rightarrow> externals_data \<Rightarrow> externals_data" where
  "drop_path_regex i data = data\<lparr>xd_path_regexes := filter (\<lambda>rule. pr_id rule \<noteq> i) (xd_path_regexes data)\<rparr>"

definition remove_path_regex :: "i64 \<Rightarrow> unit store_op" where
  "remove_path_regex i = or_return read_store (\<lambda>data. write_store (drop_path_regex i data))"

definition list_file_marks :: "file_mark list store_op" where
  "list_file_marks = or_return read_store (\<lambda>data. done_with (xd_file_marks data))"

definition upsert_file_mark :: "string \<Rightarrow> bool \<Rightarrow> string \<Rightarrow> externals_data \<Rightarrow> externals_data" where
  "upsert_file_mark f external decided_at data =
     (let others = filter (\<lambda>mark. fm_file mark \<noteq> f) (xd_file_marks data)
      in data\<lparr>xd_file_marks := if external then sort_key fm_file (others @ [\<lparr>fm_file = f, fm_decided_at = decided_at\<rparr>]) else others\<rparr>)"

definition set_file_mark :: "string \<Rightarrow> bool \<Rightarrow> string \<Rightarrow> unit store_op" where
  "set_file_mark f external decided_at = or_return read_store (\<lambda>data. write_store (upsert_file_mark f external decided_at data))"

definition retain_file_marks :: "string set \<Rightarrow> externals_data \<Rightarrow> externals_data" where
  "retain_file_marks valid_files data = data\<lparr>xd_file_marks := filter (\<lambda>mark. fm_file mark \<in> valid_files) (xd_file_marks data)\<rparr>"

definition prune_file_marks :: "string set \<Rightarrow> unit store_op" where
  "prune_file_marks valid_files = or_return read_store (\<lambda>data.
     let kept = retain_file_marks valid_files data
     in if length (xd_file_marks kept) \<noteq> length (xd_file_marks data) then write_store kept else done_with ())"

text \<open>\<^verbatim>\<open>Path::exists\<close> is false where the system call fails.\<close>

definition store_exists :: "(disk, bool) state" where
  "store_exists = do { f \<leftarrow> next_call; s \<leftarrow> State_Monad.get; State_Monad.return (f = None \<and> externals_txt s \<noteq> None) }"

definition migrate_from_legacy ::
  "external_mark list \<Rightarrow> name_regex_rule list \<Rightarrow> path_regex_rule list \<Rightarrow> unit store_op" where
  "migrate_from_legacy marks name_regexes path_regexes = do {
     there \<leftarrow> store_exists;
     if there then done_with ()
     else if marks = [] \<and> name_regexes = [] \<and> path_regexes = [] then done_with ()
     else write_store \<lparr>xd_marks = marks, xd_name_regexes = name_regexes, xd_path_regexes = path_regexes, xd_file_marks = []\<rparr> }"

section \<open>The contract of the storage\<close>

text \<open>
  What the operations rely on: loading gives what is held and changes nothing that is held, and saving either
  holds the new data or fails and still holds the old. The operations of the store read, change and write;
  that each is then its change, all of it or nothing, is proved once from the contract.
\<close>

locale atomic_storage =
  fixes load :: "('s, 'e + 'd) state"
    and save :: "'d \<Rightarrow> ('s, 'e + unit) state"
    and held :: "'s \<Rightarrow> 'd"
    and savable :: "'d \<Rightarrow> bool"
  assumes load: "run_state load s = (r, s') \<Longrightarrow> held s' = held s \<and> (case r of Inl _ \<Rightarrow> True | Inr d \<Rightarrow> d = held s)"
    and save: "savable d \<Longrightarrow> run_state (save d) s = (q, t) \<Longrightarrow> held t = (if isl q then held s else d)"
begin

lemma query:
  assumes "run_state (or_return load (\<lambda>d. done_with (f d))) s = (r, s')"
  shows "held s' = held s \<and> (case r of Inl _ \<Rightarrow> True | Inr x \<Rightarrow> x = f (held s))"
proof (cases "run_state load s")
  case (Pair q t)
  then show ?thesis using assms load [OF Pair]
    by (auto simp: or_return_def done_with_def run_state_return split: sum.splits)
qed

lemma change_if:
  assumes "savable (f (held s))" and "\<not> c (held s) \<Longrightarrow> f (held s) = held s"
    and "run_state (or_return load (\<lambda>d. if c d then save (f d) else done_with ())) s = (r, s')"
  shows "held s' = (if isl r then held s else f (held s))"
proof (cases "run_state load s")
  case (Pair q t)
  then show ?thesis using assms(1,2,3) load [OF Pair] save [of "f (held s)" t r s']
    by (auto simp: or_return_def done_with_def run_state_return split: sum.splits if_splits)
qed

lemma change:
  assumes "savable (f (held s))" and "run_state (or_return load (\<lambda>d. save (f d))) s = (r, s')"
  shows "held s' = (if isl r then held s else f (held s))"
  using change_if [of f s "\<lambda>_. True"] assms by simp

lemma change_returning:
  assumes "savable (f (held s))"
    and "run_state (or_return load (\<lambda>d. or_return (save (f d)) (\<lambda>_. done_with (g d)))) s = (r, s')"
  shows "held s' = (if isl r then held s else f (held s)) \<and> (case r of Inl _ \<Rightarrow> True | Inr x \<Rightarrow> x = g (held s))"
proof (cases "run_state load s")
  case (Pair q t)
  show ?thesis
  proof (cases q)
    case (Inr d)
    then have d: "d = held s" "held t = held s" using load [OF Pair] by simp_all
    obtain q' t' where save': "run_state (save (f d)) t = (q', t')" by (cases "run_state (save (f d)) t")
    show ?thesis using assms d Pair Inr save' save [of "f d" t q' t']
      by (auto simp: or_return_def done_with_def run_state_return split: sum.splits)
  qed (use assms(2) Pair load [OF Pair] in \<open>auto simp: or_return_def run_state_return\<close>)
qed

end

text \<open>The file, behind the temporary one, is such a storage.\<close>

definition stored :: "disk \<Rightarrow> externals_data" where
  "stored s = (case externals_txt s of Some contents \<Rightarrow> parse contents | None \<Rightarrow> default_externals)"

lemma run_system_call:
  "run_state (system_call works fails) s =
     (case faults s of
        Some fault # fs \<Rightarrow> (Inl (PersistenceIo (fault_text fault)), fails (fault_left fault) (s\<lparr>faults := fs\<rparr>))
      | None # fs \<Rightarrow> map_prod Inr (\<lambda>t. t) (works (s\<lparr>faults := fs\<rparr>))
      | [] \<Rightarrow> map_prod Inr (\<lambda>t. t) (works s))"
  by (simp add: system_call_def next_call_def run_state_return State_Monad.update_def State_Monad.bind_def
      State_Monad.get_def State_Monad.set_def State_Monad.return_def split: list.split option.split)

lemma call_cases:
  assumes "run_state (system_call works fails) s = (r, s')"
  obtains (ok) fs where "r = Inr (fst (works (s\<lparr>faults := fs\<rparr>)))" "s' = snd (works (s\<lparr>faults := fs\<rparr>))"
  | (fault) e left fs where "r = Inl e" "s' = fails left (s\<lparr>faults := fs\<rparr>)"
proof (cases "faults s")
  case Nil
  then have unchanged: "s\<lparr>faults := []\<rparr> = s" by (cases s) simp
  show ?thesis using ok [of "[]", unfolded unchanged] assms Nil by (cases "works s") (simp add: run_system_call)
next
  case (Cons f fs)
  show ?thesis
  proof (cases f)
    case None
    then show ?thesis using ok [of fs] assms Cons
      by (cases "works (s\<lparr>faults := fs\<rparr>)") (simp add: run_system_call)
  next
    case (Some e)
    then have "r = Inl (PersistenceIo (fault_text e))" "s' = fails (fault_left e) (s\<lparr>faults := fs\<rparr>)"
      using assms Cons by (simp_all add: run_system_call)
    then show ?thesis by (rule fault)
  qed
qed

lemma read_stored:
  "run_state read_store s = (r, s') \<Longrightarrow> stored s' = stored s \<and> (case r of Inl _ \<Rightarrow> True | Inr d \<Rightarrow> d = stored s)"
  unfolding read_store_def by (erule call_cases) (simp_all add: stored_def)

lemma write_stored:
  assumes "data_ok data" and "run_state (write_store data) s = (r, s')"
  shows "stored s' = (if isl r then stored s else data)"
proof -
  obtain r1 s1 where 1: "run_state create_dir_all s = (r1, s1)" by force
  obtain r2 s2 where 2: "run_state (write_tmp (serialize data)) s1 = (r2, s2)" by force
  obtain r3 s3 where 3: "run_state rename_tmp s2 = (r3, s3)" by force
  have e1: "externals_txt s1 = externals_txt s"
    using 1 unfolding create_dir_all_def by (rule call_cases) simp_all
  have e2: "externals_txt s2 = externals_txt s1 \<and> (isl r2 \<or> externals_tmp s2 = Some (serialize data))"
    using 2 unfolding write_tmp_def by (rule call_cases) simp_all
  have e3: "externals_txt s3 = (if isl r3 then externals_txt s2 else externals_tmp s2)"
    using 3 unfolding rename_tmp_def by (rule call_cases) simp_all
  show ?thesis
    using assms 1 2 3 e1 e2 e3
    by (cases r1; cases r2; cases r3) (auto simp: write_store_def or_return_def run_state_return stored_def parse_serialize)
qed

interpretation externals_file: atomic_storage read_store write_store stored data_ok
  by unfold_locales (use read_stored write_stored in blast)+

section \<open>Requests and the data they are on\<close>

text \<open>
  The writes of the store as requests, with what each means for the data. A request is admissible when its
  fields hold no tab and no line break.
\<close>

datatype store_request =
  SetMark external_mark | PruneMarks "string list"
| AddNameRegex string string | RemoveNameRegex i64
| AddPathRegex string string | RemovePathRegex i64
| SetFileMark string bool string | PruneFileMarks "string list"

primrec run_request :: "store_request \<Rightarrow> unit store_op" where
  "run_request (SetMark m) = set_mark m"
| "run_request (PruneMarks usrs) = prune_marks (set usrs)"
| "run_request (AddNameRegex pattern at) = or_return (add_name_regex pattern at) (\<lambda>_. done_with ())"
| "run_request (RemoveNameRegex i) = remove_name_regex i"
| "run_request (AddPathRegex pattern at) = or_return (add_path_regex pattern at) (\<lambda>_. done_with ())"
| "run_request (RemovePathRegex i) = remove_path_regex i"
| "run_request (SetFileMark f external at) = set_file_mark f external at"
| "run_request (PruneFileMarks fs) = prune_file_marks (set fs)"

primrec request_on_data :: "store_request \<Rightarrow> externals_data \<Rightarrow> externals_data" where
  "request_on_data (SetMark m) = upsert_mark m"
| "request_on_data (PruneMarks usrs) = retain_marks (set usrs)"
| "request_on_data (AddNameRegex pattern at) = push_name_regex pattern at"
| "request_on_data (RemoveNameRegex i) = drop_name_regex i"
| "request_on_data (AddPathRegex pattern at) = push_path_regex pattern at"
| "request_on_data (RemovePathRegex i) = drop_path_regex i"
| "request_on_data (SetFileMark f external at) = upsert_file_mark f external at"
| "request_on_data (PruneFileMarks fs) = retain_file_marks (set fs)"

primrec admissible :: "store_request \<Rightarrow> bool" where
  "admissible (SetMark m) = (field_ok (xm_usr m) \<and> time_ok (xm_decided_at m))"
| "admissible (PruneMarks usrs) = True"
| "admissible (AddNameRegex pattern at) = (field_ok pattern \<and> time_ok at)"
| "admissible (RemoveNameRegex i) = True"
| "admissible (AddPathRegex pattern at) = (field_ok pattern \<and> time_ok at)"
| "admissible (RemovePathRegex i) = True"
| "admissible (SetFileMark f external at) = (field_ok f \<and> time_ok at)"
| "admissible (PruneFileMarks fs) = True"

primrec serve :: "store_request list \<Rightarrow> (disk, (persistence_error + unit) list) state" where
  "serve [] = State_Monad.return []"
| "serve (q # qs) = do { r \<leftarrow> run_request q; rs \<leftarrow> serve qs; State_Monad.return (r # rs) }"

lemmas on_data_defs = upsert_mark_def retain_marks_def push_name_regex_def drop_name_regex_def push_path_regex_def
  drop_path_regex_def upsert_file_mark_def retain_file_marks_def

lemma admissible_data_ok: "admissible q \<Longrightarrow> data_ok d \<Longrightarrow> data_ok (request_on_data q d)"
  by (cases q) (auto simp: data_ok_def on_data_defs list_all_iff Let_def)

lemma retained_all: "\<not> length (filter P xs) \<noteq> length xs \<Longrightarrow> filter P xs = xs"
proof (induction xs)
  case (Cons x xs)
  then show ?case using length_filter_le [of P xs] by (cases "P x") auto
qed simp

lemma retain_unchanged:
  "\<not> length (xd_marks (retain_marks us d)) \<noteq> length (xd_marks d) \<Longrightarrow> retain_marks us d = d"
  "\<not> length (xd_file_marks (retain_file_marks fs d)) \<noteq> length (xd_file_marks d) \<Longrightarrow> retain_file_marks fs d = d"
  by (simp_all add: retain_marks_def retain_file_marks_def retained_all)

lemma run_or_return_unit:
  assumes "run_state (or_return m (\<lambda>_. done_with ())) s = (r, s')"
  obtains r0 where "run_state m s = (r0, s')" and "isl r0 = isl r"
proof (cases "run_state m s")
  case (Pair r0 t)
  then show ?thesis using assms that [of r0] by (cases r0) (auto simp: or_return_def done_with_def)
qed

lemma add_regex_stored:
  "data_ok (push_name_regex pattern at (stored s)) \<Longrightarrow> run_state (add_name_regex pattern at) s = (r, s') \<Longrightarrow>
    stored s' = (if isl r then stored s else push_name_regex pattern at (stored s)) \<and>
    (case r of Inl _ \<Rightarrow> True | Inr i \<Rightarrow> i = next_id (map nr_id (xd_name_regexes (stored s))))"
  "data_ok (push_path_regex pattern at (stored s)) \<Longrightarrow> run_state (add_path_regex pattern at) s = (q, s') \<Longrightarrow>
    stored s' = (if isl q then stored s else push_path_regex pattern at (stored s)) \<and>
    (case q of Inl _ \<Rightarrow> True | Inr i \<Rightarrow> i = next_id (map pr_id (xd_path_regexes (stored s))))"
  unfolding add_name_regex_def add_path_regex_def by (rule externals_file.change_returning; assumption)+

lemma prune_stored:
  "data_ok (retain_marks us (stored s)) \<Longrightarrow> run_state (prune_marks us) s = (r, s') \<Longrightarrow>
    stored s' = (if isl r then stored s else retain_marks us (stored s))"
  "data_ok (retain_file_marks fs (stored s)) \<Longrightarrow> run_state (prune_file_marks fs) s = (r, s') \<Longrightarrow>
    stored s' = (if isl r then stored s else retain_file_marks fs (stored s))"
  unfolding prune_marks_def prune_file_marks_def Let_def
  by (rule externals_file.change_if; (assumption | erule retain_unchanged))+

lemma run_request_stored:
  assumes "admissible q" and "data_ok (stored s)" and run: "run_state (run_request q) s = (r, s')"
  shows "stored s' = (if isl r then stored s else request_on_data q (stored s))"
proof -
  note ok = admissible_data_ok [OF assms(1,2)]
  show ?thesis
  proof (cases q)
    case (AddNameRegex pattern at)
    obtain r0 where "run_state (add_name_regex pattern at) s = (r0, s')" "isl r0 = isl r"
      using run [unfolded AddNameRegex run_request.simps] by (rule run_or_return_unit)
    with add_regex_stored [of pattern at s] ok AddNameRegex show ?thesis by auto
  next
    case (AddPathRegex pattern at)
    obtain r0 where "run_state (add_path_regex pattern at) s = (r0, s')" "isl r0 = isl r"
      using run [unfolded AddPathRegex run_request.simps] by (rule run_or_return_unit)
    with add_regex_stored [of pattern at s] ok AddPathRegex show ?thesis by auto
  next
    case (PruneMarks us)
    with ok run show ?thesis by (auto simp: prune_stored(1))
  next
    case (PruneFileMarks fs)
    with ok run show ?thesis by (auto simp: prune_stored(2))
  next
    case (SetMark m)
    with ok run externals_file.change [of "upsert_mark m" s r s'] show ?thesis by (auto simp: set_mark_def)
  next
    case (RemoveNameRegex i)
    with ok run externals_file.change [of "drop_name_regex i" s r s'] show ?thesis by (auto simp: remove_name_regex_def)
  next
    case (RemovePathRegex i)
    with ok run externals_file.change [of "drop_path_regex i" s r s'] show ?thesis by (auto simp: remove_path_regex_def)
  next
    case (SetFileMark f external at)
    with ok run externals_file.change [of "upsert_file_mark f external at" s r s']
    show ?thesis by (auto simp: set_file_mark_def)
  qed
qed

text \<open>A run of requests is, on the data, the requests that succeeded.\<close>

definition succeeded :: "store_request list \<Rightarrow> (persistence_error + unit) list \<Rightarrow> store_request list" where
  "succeeded qs rs = map fst (filter (\<lambda>(_, r). \<not> isl r) (zip qs rs))"

lemma serve_stored:
  assumes "list_all admissible qs" and "data_ok (stored s)" and "run_state (serve qs) s = (rs, s')"
  shows "stored s' = fold request_on_data (succeeded qs rs) (stored s) \<and> data_ok (stored s') \<and> length rs = length qs"
  using assms
proof (induction qs arbitrary: s rs s')
  case (Cons q qs)
  obtain r t where q: "run_state (run_request q) s = (r, t)" by force
  obtain rs0 t' where qs: "run_state (serve qs) t = (rs0, t')" by force
  have out: "rs = r # rs0" "s' = t'" using Cons.prems(3) q qs by simp_all
  have t: "stored t = (if isl r then stored s else request_on_data q (stored s))"
    using run_request_stored [OF _ Cons.prems(2) q] Cons.prems(1) by simp
  then have "data_ok (stored t)" using admissible_data_ok [of q "stored s"] Cons.prems(1,2) by simp
  moreover have "list_all admissible qs" using Cons.prems(1) by simp
  ultimately have "stored t' = fold request_on_data (succeeded qs rs0) (stored t) \<and> data_ok (stored t') \<and> length rs0 = length qs"
    using Cons.IH qs by blast
  then show ?case using t by (cases "isl r") (auto simp: out succeeded_def)
qed (simp add: succeeded_def)

section \<open>Order and uniqueness\<close>

text \<open>
  Marks are in the order of what they mark, one for each; the identifiers of rules go up from one, and no two
  rules of a kind have the same.
\<close>

definition ids_up :: "nat \<Rightarrow> i64 list \<Rightarrow> bool" where
  "ids_up n ids \<longleftrightarrow> sorted_wrt (<) (map sint ids) \<and> list_all (\<lambda>i. 1 \<le> sint i \<and> sint i \<le> int n) ids"

definition well_kept :: "nat \<Rightarrow> externals_data \<Rightarrow> bool" where
  "well_kept n data \<longleftrightarrow>
     sorted_wrt (<) (map xm_usr (xd_marks data)) \<and> sorted_wrt (<) (map fm_file (xd_file_marks data)) \<and>
     ids_up n (map nr_id (xd_name_regexes data)) \<and> ids_up n (map pr_id (xd_path_regexes data))"

lemma sint_increment: "sint (i :: i64) < 2 ^ 63 - 1 \<Longrightarrow> sint (i + 1) = sint i + 1"
  using sint_greater_eq [of i]
  by (simp add: sint_word_ariths signed_take_bit_int_eq_self)

lemma fold_i64_max: "fold i64_max js i \<in> insert i (set js) \<and> (\<forall>j \<in> insert i (set js). sint j \<le> sint (fold i64_max js i))"
proof (induction js arbitrary: i)
  case (Cons j js)
  have "i64_max j i \<in> {i, j}" "sint i \<le> sint (i64_max j i)" "sint j \<le> sint (i64_max j i)" by (auto simp: i64_max_def)
  with Cons [of "i64_max j i"] show ?case by (auto intro: order_trans)
qed simp

lemma next_id_above:
  assumes "ids_up n ids" and "n < 2 ^ 63 - 1"
  shows "ids_up (n + 1) (ids @ [next_id ids])"
proof (cases ids)
  case Nil
  then show ?thesis by (simp add: ids_up_def next_id_def)
next
  case (Cons i js)
  let ?m = "fold i64_max js i"
  have m: "?m \<in> set ids" "\<And>j. j \<in> set ids \<Longrightarrow> sint j \<le> sint ?m" using fold_i64_max [of js i] Cons by auto
  then have range: "1 \<le> sint ?m" "sint ?m \<le> int n" using assms(1) by (auto simp: ids_up_def list_all_iff)
  have "next_id ids = ?m + 1" by (simp add: next_id_def Cons)
  then have above: "sint (next_id ids) = sint ?m + 1" using range(2) assms(2) by (simp add: sint_increment)
  have "\<And>j. j \<in> set ids \<Longrightarrow> sint j < sint (next_id ids)" using m(2) unfolding above by (simp add: add1_zle_eq zle_add1_eq_le)
  then show ?thesis using assms(1) range above unfolding ids_up_def by (auto simp: sorted_wrt_append list_all_iff)
qed

lemma ids_up_mono: "ids_up n ids \<Longrightarrow> n \<le> m \<Longrightarrow> ids_up m ids"
  by (auto simp: ids_up_def list_all_iff)

lemma sorted_wrt_map_filter: "sorted_wrt (<) (map f xs) \<Longrightarrow> sorted_wrt (<) (map f (filter P xs))"
  by (induction xs) auto

lemma ids_up_filter: "ids_up n (map f xs) \<Longrightarrow> ids_up n (map f (filter P xs))"
  using sorted_wrt_map_filter [of "sint o f" xs P] by (auto simp: ids_up_def list_all_iff comp_def)

text \<open>An upsert: what has the key goes, the new entry comes, and the list is sorted by key.\<close>

lemma sorted_wrt_less_iff: "sorted_wrt (<) (xs :: 'a::linorder list) \<longleftrightarrow> sorted xs \<and> distinct xs"
  by (rule strict_sorted_iff)

lemma upsert_sorted:
  assumes "sorted_wrt (<) (map key xs)"
  shows "sorted_wrt (<) (map key (sort_key key (filter (\<lambda>y. key y \<noteq> key x) xs @ [x])))"
proof -
  have "distinct (map key (filter (\<lambda>y. key y \<noteq> key x) xs @ [x]))"
    using assms by (auto simp: sorted_wrt_less_iff distinct_map inj_on_def)
  moreover have "mset (map key (sort_key key ys)) = mset (map key ys)" for ys by simp
  ultimately show ?thesis by (metis sorted_wrt_less_iff sorted_sort_key mset_eq_imp_distinct_iff)
qed

lemma request_well_kept:
  assumes "well_kept n d" and "n < 2 ^ 63 - 1"
  shows "well_kept (n + 1) (request_on_data q d)"
  using assms
  by (cases q)
    (auto simp: well_kept_def on_data_defs Let_def next_id_above [simplified] sorted_wrt_map_filter
      intro: ids_up_mono ids_up_filter upsert_sorted upsert_sorted [of fm_file _ "\<lparr>fm_file = f, fm_decided_at = t\<rparr>" for f t, simplified])

lemma requests_well_kept:
  "well_kept n d \<Longrightarrow> n + length qs < 2 ^ 63 \<Longrightarrow> well_kept (n + length qs) (fold request_on_data qs d)"
proof (induction qs arbitrary: n d)
  case (Cons q qs)
  then show ?case using request_well_kept [of n d q] Cons.IH [of "n + 1" "request_on_data q d"] by simp
qed simp

lemmas store_runs = set_mark_def add_name_regex_def migrate_from_legacy_def store_exists_def next_call_def read_store_def
  write_store_def create_dir_all_def write_tmp_def rename_tmp_def done_with_def or_return_def run_system_call

section \<open>Properties\<close>

text \<open>
  C36. The file of external marks stores what admissible requests say: those whose fields hold no tab and no
  line break and whose time is not empty and ends with a visible character. From a project without the file, whatever errors the system
  calls of each request meet and wherever, a next reading gives exactly the data of the requests that were
  answered with success, in their order: a request that failed has changed nothing, not even in part, and no
  temporary file is ever read. Of other requests it does not hold; the last section has examples.
\<close>

theorem store_refines_data:
  assumes "list_all admissible qs" and "externals_txt s = None" and "run_state (serve qs) s = (rs, s')"
  shows "length rs = length qs \<and>
    fst (run_state read_store (s'\<lparr>faults := []\<rparr>)) = Inr (fold request_on_data (succeeded qs rs) default_externals)"
proof -
  have "stored s = default_externals" "data_ok (stored s)"
    using assms(2) by (simp_all add: stored_def data_ok_def default_externals_def)
  then show ?thesis using serve_stored [OF assms(1) _ assms(3)]
    by (simp add: read_store_def run_system_call stored_def split: option.splits)
qed

definition sample_disk :: "io_fault option list \<Rightarrow> disk" where
  "sample_disk fs = \<lparr>externals_txt = None, externals_tmp = None, faults = fs\<rparr>"

definition sample_mark :: "string \<Rightarrow> external_mark" where
  "sample_mark usr = \<lparr>xm_usr = usr, xm_external = True, xm_decided_at = ''17''\<rparr>"

text \<open>The disk is full in the middle of the second request, whose mark is then not there.\<close>

definition sample_requests :: "store_request list" where
  "sample_requests = [SetMark (sample_mark ''b''), SetMark (sample_mark ''c''), AddNameRegex ''^lib::'' ''18'', SetMark (sample_mark ''a'')]"

definition sample_faults :: "io_fault option list" where
  "sample_faults = [None, None, None, None, None, None, Some \<lparr>fault_text = ''disk full'', fault_left = ''# synt''\<rparr>]"

lemma sample_answers:
  "map isl (fst (run_state (serve sample_requests) (sample_disk sample_faults))) = [False, True, False, False]"
  by (simp add: sample_requests_def sample_disk_def sample_faults_def store_runs)

theorem store_refines_data_witness:
  "fst (run_state read_store (snd (run_state (serve sample_requests) (sample_disk sample_faults))\<lparr>faults := []\<rparr>)) =
    Inr (default_externals\<lparr>xd_marks := map sample_mark [''a'', ''b''],
      xd_name_regexes := [\<lparr>nr_id = 1, nr_pattern = ''^lib::'', nr_created_at = ''18''\<rparr>]\<rparr>)"
proof -
  obtain rs s' where run: "run_state (serve sample_requests) (sample_disk sample_faults) = (rs, s')" by force
  have "list_all admissible sample_requests" "externals_txt (sample_disk sample_faults) = None" by code_simp+
  note refined = store_refines_data [OF this run]
  have "map isl rs = [False, True, False, False]" using sample_answers run by simp
  then have "succeeded sample_requests rs = [SetMark (sample_mark ''b''), AddNameRegex ''^lib::'' ''18'', SetMark (sample_mark ''a'')]"
    by (auto simp: succeeded_def sample_requests_def)
  moreover have "fold request_on_data [SetMark (sample_mark ''b''), AddNameRegex ''^lib::'' ''18'', SetMark (sample_mark ''a'')] default_externals =
      default_externals\<lparr>xd_marks := map sample_mark [''a'', ''b''],
        xd_name_regexes := [\<lparr>nr_id = 1, nr_pattern = ''^lib::'', nr_created_at = ''18''\<rparr>]\<rparr>"
    by code_simp
  ultimately show ?thesis using refined run by simp
qed

text \<open>
  C37. What is stored is in order: from a project without the file, after fewer than 2^63 admissible requests
  with any errors, marks are sorted by what they mark, with at most one for each USR and each file, and the
  identifiers of the rules of each kind go up, so that removing by identifier removes one rule and none has
  wrapped around. A pattern with line breaks, which is not admissible, can store two rules with one identifier.
\<close>

theorem store_well_kept:
  assumes "list_all admissible qs" and "externals_txt s = None" and "run_state (serve qs) s = (rs, s')"
    and "length qs < 2 ^ 63"
  shows "well_kept (length qs) (stored s')"
proof -
  have init: "stored s = default_externals" "data_ok (stored s)"
    using assms(2) by (simp_all add: stored_def data_ok_def default_externals_def)
  have kept0: "well_kept 0 default_externals" by (simp add: well_kept_def default_externals_def ids_up_def)
  have len: "length (succeeded qs rs) \<le> length qs" unfolding succeeded_def by (metis length_map length_filter_le length_zip min.cobounded1 le_trans)
  then have "well_kept (length (succeeded qs rs)) (stored s')"
    using requests_well_kept [OF kept0, of "succeeded qs rs"] serve_stored [OF assms(1) init(2) assms(3)] init(1) assms(4) by simp
  then show ?thesis using len by (auto simp: well_kept_def intro: ids_up_mono)
qed

theorem store_well_kept_witness:
  "well_kept 4 (stored (snd (run_state (serve sample_requests) (sample_disk sample_faults))))"
proof -
  obtain rs s' where run: "run_state (serve sample_requests) (sample_disk sample_faults) = (rs, s')" by force
  have "list_all admissible sample_requests" "externals_txt (sample_disk sample_faults) = None" by code_simp+
  moreover have "length sample_requests = 4" by (simp add: sample_requests_def)
  ultimately show ?thesis using store_well_kept [OF _ _ run] by (simp add: run)
qed

section \<open>What is not admissible\<close>

text \<open>What is read after a write, with the header skipped.\<close>

lemma read_after_write:
  "parse (serialize data) = fold parse_line (str_lines (concat (map mark_line (xd_marks data)) @
     concat (map name_regex_line (xd_name_regexes data)) @ concat (map path_regex_line (xd_path_regexes data)) @
     concat (map file_line (xd_file_marks data)))) default_externals"
  by (simp add: parse_def serialize_def read_header)

lemma add_name_regex_fresh:
  "run_state (add_name_regex pattern at) (sample_disk []) =
    (Inr 1, \<lparr>externals_txt = Some (serialize (push_name_regex pattern at default_externals)), externals_tmp = None, faults = []\<rparr>)"
  by (simp add: sample_disk_def store_runs default_externals_def next_id_def)

text \<open>
  A pattern may hold a tab, which is not escaped: the rule is answered with success and an identifier, and the
  next reading skips its line.
\<close>

theorem pattern_with_tab_is_lost:
  "(case run_state (add_name_regex (''a'' @ [tab] @ ''b'') ''17'') (sample_disk []) of
      (answer, s) \<Rightarrow> answer = Inr 1 \<and> xd_name_regexes (stored s) = [])"
  unfolding add_name_regex_fresh prod.case stored_def disk.select_convs option.case read_after_write by code_simp

text \<open>A pattern with a line break writes a line of its own: here a mark that nobody made.\<close>

theorem pattern_with_line_break_marks:
  "(case run_state (add_name_regex (''x'' @ [line_break] @ ''mark'' @ [tab] @ ''exclude'' @ [tab] @ ''c:@F@f'' @ [tab] @ ''1'' @
        [line_break] @ ''#'') ''17'') (sample_disk []) of
      (answer, s) \<Rightarrow> answer = Inr 1 \<and> xd_name_regexes (stored s) = [] \<and>
        xd_marks (stored s) = [\<lparr>xm_usr = ''c:@F@f'', xm_external = False, xm_decided_at = ''1''\<rparr>])"
  unfolding add_name_regex_fresh prod.case stored_def disk.select_convs option.case read_after_write by code_simp

text \<open>Or two rules with one identifier: the later lines of the pattern are read as rules of their own.\<close>

definition rules_in_pattern :: string where
  "rules_in_pattern =
     (let rule = ''name_regex'' @ [tab] @ ''5'' @ [tab] @ ''p'' @ [tab] @ ''1''
      in ''x'' @ [line_break] @ rule @ [line_break] @ rule @ [line_break] @ ''#'')"

theorem pattern_with_line_breaks_repeats_identifiers:
  "(case run_state (add_name_regex rules_in_pattern ''17'') (sample_disk []) of
      (answer, s) \<Rightarrow> answer = Inr 1 \<and> map nr_id (xd_name_regexes (stored s)) = [5, 5])"
  unfolding add_name_regex_fresh prod.case stored_def disk.select_convs option.case read_after_write by code_simp

text \<open>The rows of an old database are not taken over once a mark has made the file.\<close>

theorem mark_before_migration:
  "(case run_state (or_return (set_mark (sample_mark ''new'')) (\<lambda>_. migrate_from_legacy [sample_mark ''old''] [] [])) (sample_disk []) of
      (answer, s) \<Rightarrow> answer = Inr () \<and> xd_marks (stored s) = [sample_mark ''new''])"
proof -
  have "data_ok (upsert_mark (sample_mark ''new'') default_externals)" by code_simp
  then show ?thesis
    by (simp add: sample_disk_def store_runs stored_def parse_serialize) (simp add: upsert_mark_def default_externals_def)
qed

text \<open>What the user has written in a comment is gone after the next write.\<close>

theorem comments_are_dropped:
  "(case run_state (set_mark (sample_mark ''u'')) (sample_disk []\<lparr>externals_txt := Some ''# mine''\<rparr>) of
      (answer, s) \<Rightarrow> answer = Inr () \<and> map_option (\<lambda>t. str_contains t ''mine'') (externals_txt s) = Some False)"
  by code_simp

end
