(* ===== verification/Lower_Bodies.thy ===== *)
theory Lower_Bodies
  imports Lower_Names
begin

text \<open>
  What \<^verbatim>\<open>lower/cpp.rs\<close> does to the bodies it has lowered: the bridge that returns out-parameters in a tuple,
  the default values of locals such a bridged call reads, the signature of \<^verbatim>\<open>main\<close>, the cut after a terminator,
  and the small questions and adaptations on expressions. What libclang says of a function, its
  out-parameters, is an argument. A pass that mutates a body in place is a function from the old to the new.
\<close>

section \<open>Out-parameters in the returned tuple\<close>

text \<open>The values of the out-parameters, in order; none where an index would panic.\<close>

definition out_param_tuple_values :: "nat list \<Rightarrow> param list \<Rightarrow> origin \<Rightarrow> expr list option" where
  "out_param_tuple_values indices params og =
     those (map (\<lambda>i. if i < length params then Some (ERef (p_name (params ! i)) (p_ty (params ! i)) og) else None) indices)"

text \<open>The tuple is the same at every return, so the recursion has its values as an argument.\<close>

function replace_return_with_out_param_tuple :: "expr list \<Rightarrow> origin \<Rightarrow> stmt \<Rightarrow> stmt" where
  "replace_return_with_out_param_tuple outs og s =
     (case s of
        SReturn value sog \<Rightarrow> SReturn (Some (ETuple ((case value of None \<Rightarrow> [] | Some v \<Rightarrow> [v]) @ outs) og)) sog
      | SIf c a b sog \<Rightarrow>
          SIf c (map (replace_return_with_out_param_tuple outs og) a) (map (replace_return_with_out_param_tuple outs og) b) sog
      | SWhile c b sog \<Rightarrow> SWhile c (map (replace_return_with_out_param_tuple outs og) b) sog
      | SDoWhile b c sog \<Rightarrow> SDoWhile (map (replace_return_with_out_param_tuple outs og) b) c sog
      | SFor i c n b sog \<Rightarrow>
          SFor (map_option (replace_return_with_out_param_tuple outs og) i) c
            (map_option (replace_return_with_out_param_tuple outs og) n) (map (replace_return_with_out_param_tuple outs og) b) sog
      | SForEach name t is_final write_back iterable b sog \<Rightarrow>
          SForEach name t is_final write_back iterable (map (replace_return_with_out_param_tuple outs og) b) sog
      | STryCatch b t name c sog \<Rightarrow>
          STryCatch (map (replace_return_with_out_param_tuple outs og) b) t name
            (map (replace_return_with_out_param_tuple outs og) c) sog
      | STryFinally b f sog \<Rightarrow>
          STryFinally (map (replace_return_with_out_param_tuple outs og) b) (map (replace_return_with_out_param_tuple outs og) f) sog
      | SSwitch e cs d sog \<Rightarrow>
          SSwitch e (map (\<lambda>c. case c of SwitchCase vs b l \<Rightarrow> SwitchCase vs (map (replace_return_with_out_param_tuple outs og) b) l) cs)
            (map_option (map (replace_return_with_out_param_tuple outs og)) d) sog
      | _ \<Rightarrow> s)"
  by pat_completeness auto
termination by lexicographic_order

declare replace_return_with_out_param_tuple.simps [simp del]

definition replace_returns_with_out_param_tuple :: "stmt list \<Rightarrow> nat list \<Rightarrow> param list \<Rightarrow> origin \<Rightarrow> stmt list option" where
  "replace_returns_with_out_param_tuple stmts indices params og =
     map_option (\<lambda>outs. map (replace_return_with_out_param_tuple outs og) stmts) (out_param_tuple_values indices params og)"

text \<open>
  The bridge of a function, with what libclang says of it: which parameters are out-parameters, whether all
  of them are pointers, and for each that is a pointer the lowered type it points to. The result is the
  parameters, the return type and the body; none is a panic.
\<close>

definition set_param_ty :: "nat \<Rightarrow> ty \<Rightarrow> param list \<Rightarrow> param list option" where
  "set_param_ty i t params =
     (if i < length params then Some (params[i := Param (p_name (params ! i)) t (p_default (params ! i))]) else None)"

definition retype_out_param :: "(nat \<Rightarrow> ty option) \<Rightarrow> nat \<Rightarrow> param list option \<Rightarrow> param list option" where
  "retype_out_param pointee_ty i params =
     (case pointee_ty i of None \<Rightarrow> params | Some t \<Rightarrow> Option.bind params (set_param_ty i t))"

definition apply_out_param_bridge ::
  "nat list \<Rightarrow> bool \<Rightarrow> (nat \<Rightarrow> ty option) \<Rightarrow> param list \<times> ty \<times> stmt list \<Rightarrow> origin \<Rightarrow> (param list \<times> ty \<times> stmt list) option" where
  "apply_out_param_bridge indices all_pointer_form pointee_ty func og =
     (case func of (params, return_type, body) \<Rightarrow>
        let had_void_return = (return_type = TVoid)
        in if indices = [] then Some func
           else if \<not> had_void_return \<and> \<not> all_pointer_form then Some func
           else (case fold (retype_out_param pointee_ty) indices (Some params) of
               None \<Rightarrow> None
             | Some params' \<Rightarrow>
                 (case out_param_tuple_values indices params' og of
                    None \<Rightarrow> None
                  | Some outs \<Rightarrow>
                      Some (params',
                        TTuple ((if had_void_return then [] else [return_type]) @ map (\<lambda>i. p_ty (params' ! i)) indices),
                        map (replace_return_with_out_param_tuple outs og) body @
                          (if had_void_return then [SReturn (Some (ETuple outs og)) og] else [])))))"

section \<open>Locals a bridged call reads\<close>

definition is_ref_to :: "string \<Rightarrow> expr \<Rightarrow> bool" where
  "is_ref_to name e = (case e of ERef n _ _ \<Rightarrow> n = name | _ \<Rightarrow> False)"

definition expr_assigns_to_var :: "expr \<Rightarrow> string \<Rightarrow> bool" where
  "expr_assigns_to_var e name = (case e of EAssign target _ _ _ \<Rightarrow> is_ref_to name target | _ \<Rightarrow> False)"

function stmt_definitely_assigns_var :: "string \<Rightarrow> stmt \<Rightarrow> bool" where
  "stmt_definitely_assigns_var name s =
     (case s of
        SAssign assigned_name _ _ \<Rightarrow> assigned_name = name
      | SExprAssign target _ _ \<Rightarrow> is_ref_to name target
      | SExprStmt e _ \<Rightarrow> expr_assigns_to_var e name
      | STupleAssign targets _ _ \<Rightarrow> list_ex (is_ref_to name) targets
      | SIf _ a b _ \<Rightarrow> b \<noteq> [] \<and> list_ex id (map (stmt_definitely_assigns_var name) a) \<and> list_ex id (map (stmt_definitely_assigns_var name) b)
      | SDoWhile b _ _ \<Rightarrow> list_ex id (map (stmt_definitely_assigns_var name) b)
      | STryFinally b f _ \<Rightarrow>
          list_ex id (map (stmt_definitely_assigns_var name) f) \<or> list_ex id (map (stmt_definitely_assigns_var name) b)
      | STryCatch b _ _ c _ \<Rightarrow>
          list_ex id (map (stmt_definitely_assigns_var name) b) \<and> list_ex id (map (stmt_definitely_assigns_var name) c)
      | SSwitch _ cs (Some d) _ \<Rightarrow>
          cs \<noteq> [] \<and>
          list_all id (map (\<lambda>c. case c of SwitchCase _ b _ \<Rightarrow> list_ex id (map (stmt_definitely_assigns_var name) b)) cs) \<and>
          list_ex id (map (stmt_definitely_assigns_var name) d)
      | SReturn _ _ \<Rightarrow> True
      | SThrow _ _ \<Rightarrow> True
      | _ \<Rightarrow> False)"
  by pat_completeness auto
termination by lexicographic_order

declare stmt_definitely_assigns_var.simps [simp del]

definition block_definitely_assigns_var :: "stmt list \<Rightarrow> string \<Rightarrow> bool" where
  "block_definitely_assigns_var stmts name = list_ex (stmt_definitely_assigns_var name) stmts"

text \<open>
  The scan of the statements after a declaration. A statement either ends the scan, with its result, or leaves
  whether the variable is assigned after it.
\<close>

definition tuple_call_reads :: "string \<Rightarrow> expr \<Rightarrow> bool" where
  "tuple_call_reads name value = (case value of ECall _ _ _ _ args _ _ \<Rightarrow> list_ex (is_ref_to name) args | _ \<Rightarrow> False)"

function scan_for_unassigned_tuple_use :: "string \<Rightarrow> bool \<Rightarrow> stmt list \<Rightarrow> bool \<times> bool"
  and scan_stmt :: "string \<Rightarrow> bool \<Rightarrow> stmt \<Rightarrow> (bool \<times> bool) + bool"
  and scan_cases :: "string \<Rightarrow> bool \<Rightarrow> switch_case list \<Rightarrow> bool \<times> bool" where
  "scan_for_unassigned_tuple_use name assigned [] = (False, assigned)"
| "scan_for_unassigned_tuple_use name assigned (s # rest) =
     (case scan_stmt name assigned s of
        Inl result \<Rightarrow> result
      | Inr assigned' \<Rightarrow> scan_for_unassigned_tuple_use name assigned' rest)"
| "scan_stmt name assigned s =
     (case s of
        SVarDecl decl_name _ _ _ \<Rightarrow> if decl_name = name then Inl (False, assigned) else Inr assigned
      | STupleAssign targets value _ \<Rightarrow>
          if tuple_call_reads name value \<and> list_ex (is_ref_to name) targets \<and> \<not> assigned then Inl (True, True)
          else Inr (assigned \<or> list_ex (is_ref_to name) targets)
      | SAssign assigned_name _ _ \<Rightarrow> Inr (assigned \<or> assigned_name = name)
      | SExprAssign target _ _ \<Rightarrow> Inr (assigned \<or> is_ref_to name target)
      | SExprStmt e _ \<Rightarrow> Inr (assigned \<or> expr_assigns_to_var e name)
      | SIf _ a b _ \<Rightarrow>
          (let (then_found, then_assigned) = scan_for_unassigned_tuple_use name assigned a
           in if then_found then Inl (True, assigned)
              else let (else_found, else_assigned) = scan_for_unassigned_tuple_use name assigned b
                in if else_found then Inl (True, assigned)
                   else Inr (assigned \<or> b \<noteq> [] \<and> then_assigned \<and> else_assigned))
      | SWhile _ b _ \<Rightarrow>
          (if fst (scan_for_unassigned_tuple_use name assigned b) then Inl (True, assigned) else Inr assigned)
      | SForEach _ _ _ _ _ b _ \<Rightarrow>
          (if fst (scan_for_unassigned_tuple_use name assigned b) then Inl (True, assigned) else Inr assigned)
      | SDoWhile b _ _ \<Rightarrow>
          (let (body_found, body_assigned) = scan_for_unassigned_tuple_use name assigned b
           in if body_found then Inl (True, assigned) else Inr (assigned \<or> body_assigned))
      | SFor i _ n b _ \<Rightarrow>
          (let for_assigned = (assigned \<or> (case i of None \<Rightarrow> False | Some i \<Rightarrow> stmt_definitely_assigns_var name i))
           in if fst (scan_for_unassigned_tuple_use name for_assigned b) then Inl (True, assigned)
              else if (case n of None \<Rightarrow> False
                       | Some n \<Rightarrow> (case scan_stmt name for_assigned n of Inl result \<Rightarrow> fst result | Inr _ \<Rightarrow> False))
              then Inl (True, assigned)
              else Inr (assigned \<or> for_assigned))
      | STryCatch b _ _ c _ \<Rightarrow>
          (let (try_found, try_assigned) = scan_for_unassigned_tuple_use name assigned b
           in if try_found then Inl (True, assigned)
              else let (catch_found, catch_assigned) = scan_for_unassigned_tuple_use name assigned c
                in if catch_found then Inl (True, assigned) else Inr (assigned \<or> try_assigned \<and> catch_assigned))
      | STryFinally b f _ \<Rightarrow>
          (let (try_found, try_assigned) = scan_for_unassigned_tuple_use name assigned b
           in if try_found then Inl (True, assigned)
              else let (finally_found, finally_assigned) = scan_for_unassigned_tuple_use name try_assigned f
                in if finally_found then Inl (True, assigned) else Inr (assigned \<or> finally_assigned \<or> try_assigned))
      | SSwitch _ cs d _ \<Rightarrow>
          (let (case_found, all_cases_assigned) = scan_cases name assigned cs
           in if case_found then Inl (True, assigned)
              else case d of
                None \<Rightarrow> Inr assigned
              | Some d \<Rightarrow>
                  (let (def_found, def_assigned) = scan_for_unassigned_tuple_use name assigned d
                   in if def_found then Inl (True, assigned) else Inr (assigned \<or> all_cases_assigned \<and> def_assigned)))
      | SReturn _ _ \<Rightarrow> Inl (False, True)
      | SThrow _ _ \<Rightarrow> Inl (False, True)
      | _ \<Rightarrow> Inr assigned)"
| "scan_cases name assigned [] = (False, True)"
| "scan_cases name assigned (c # cs) =
     (case c of SwitchCase _ b _ \<Rightarrow>
        let (case_found, case_assigned) = scan_for_unassigned_tuple_use name assigned b
        in if case_found then (True, assigned)
           else let (found, all_assigned) = scan_cases name assigned cs in (found, case_assigned \<and> all_assigned))"
  by pat_completeness auto
termination by lexicographic_order

declare scan_stmt.simps [simp del]

text \<open>The value a declaration gets that has none and is read: of its type, or a marked gap.\<close>

definition empty_call :: "string \<Rightarrow> expr list \<Rightarrow> ty \<Rightarrow> origin \<Rightarrow> expr" where
  "empty_call callee args t og = ECall None None [] callee args t og"

definition default_scalar_value :: "ty \<Rightarrow> origin \<Rightarrow> expr" where
  "default_scalar_value t og =
     (case t of
        TInt \<Rightarrow> EIntLiteral 0 og | TDouble \<Rightarrow> EIntLiteral 0 og
      | TBool \<Rightarrow> EBoolLiteral False og
      | TStr \<Rightarrow> EStringLiteral [] og
      | TList _ \<Rightarrow> empty_call ''List.empty'' [] t og
      | TSet _ \<Rightarrow> empty_call ''Set.empty'' [] t og
      | TMap _ _ \<Rightarrow> empty_call ''Map'' [] t og
      | TBytes \<Rightarrow> empty_call ''Uint8List'' [EIntLiteral 0 og] t og
      | TNullable _ \<Rightarrow> ENullLiteral og
      | _ \<Rightarrow> EUnsupportedTyped ''no default value available for this field's type yet'' t og)"

text \<open>A declaration of a block looks at the statements after it.\<close>

definition neutralize_declaration :: "stmt list \<Rightarrow> stmt \<Rightarrow> stmt" where
  "neutralize_declaration rest s =
     (case s of
        SVarDecl name t None og \<Rightarrow>
          if fst (scan_for_unassigned_tuple_use name False rest) then SVarDecl name t (Some (default_scalar_value t og)) og else s
      | _ \<Rightarrow> s)"

text \<open>
  A block: its declarations, and the blocks of its other statements; the declaration of a \<^verbatim>\<open>for\<close> looks at its
  body. The code first sets the declarations of a block and then goes into its statements: no declaration
  is gone into, and no scan reads an initial value, so each statement is done once here.
\<close>

function neutralize_out_param_call_input_locals :: "stmt list \<Rightarrow> stmt list"
  and recurse_neutralize_out_param_call_input_locals :: "stmt \<Rightarrow> stmt" where
  "neutralize_out_param_call_input_locals [] = []"
| "neutralize_out_param_call_input_locals (s # rest) =
     (case s of SVarDecl _ _ _ _ \<Rightarrow> neutralize_declaration rest s
      | _ \<Rightarrow> recurse_neutralize_out_param_call_input_locals s) # neutralize_out_param_call_input_locals rest"
| "recurse_neutralize_out_param_call_input_locals s =
     (case s of
        SIf c a b og \<Rightarrow> SIf c (neutralize_out_param_call_input_locals a) (neutralize_out_param_call_input_locals b) og
      | SWhile c b og \<Rightarrow> SWhile c (neutralize_out_param_call_input_locals b) og
      | SDoWhile b c og \<Rightarrow> SDoWhile (neutralize_out_param_call_input_locals b) c og
      | SFor i c n b og \<Rightarrow>
          SFor (map_option (neutralize_declaration b) i) c n (neutralize_out_param_call_input_locals b) og
      | SForEach name t is_final write_back iterable b og \<Rightarrow>
          SForEach name t is_final write_back iterable (neutralize_out_param_call_input_locals b) og
      | STryCatch b t name c og \<Rightarrow>
          STryCatch (neutralize_out_param_call_input_locals b) t name (neutralize_out_param_call_input_locals c) og
      | STryFinally b f og \<Rightarrow>
          STryFinally (neutralize_out_param_call_input_locals b) (neutralize_out_param_call_input_locals f) og
      | SSwitch e cs d og \<Rightarrow>
          SSwitch e (map (\<lambda>c. case c of SwitchCase vs b l \<Rightarrow> SwitchCase vs (neutralize_out_param_call_input_locals b) l) cs)
            (map_option neutralize_out_param_call_input_locals d) og
      | _ \<Rightarrow> s)"
  by pat_completeness auto
termination by lexicographic_order

declare recurse_neutralize_out_param_call_input_locals.simps [simp del]

section \<open>The entry point\<close>

function strip_return_value :: "stmt \<Rightarrow> stmt" where
  "strip_return_value s =
     (case s of
        SReturn _ og \<Rightarrow> SReturn None og
      | SIf c a b og \<Rightarrow> SIf c (map strip_return_value a) (map strip_return_value b) og
      | SWhile c b og \<Rightarrow> SWhile c (map strip_return_value b) og
      | SDoWhile b c og \<Rightarrow> SDoWhile (map strip_return_value b) c og
      | SFor i c n b og \<Rightarrow> SFor i c n (map strip_return_value b) og
      | SForEach name t is_final write_back iterable b og \<Rightarrow>
          SForEach name t is_final write_back iterable (map strip_return_value b) og
      | STryCatch b t name c og \<Rightarrow> STryCatch (map strip_return_value b) t name (map strip_return_value c) og
      | STryFinally b f og \<Rightarrow> STryFinally (map strip_return_value b) (map strip_return_value f) og
      | SSwitch e cs d og \<Rightarrow>
          SSwitch e (map (\<lambda>c. case c of SwitchCase vs b l \<Rightarrow> SwitchCase vs (map strip_return_value b) l) cs)
            (map_option (map strip_return_value) d) og
      | _ \<Rightarrow> s)"
  by pat_completeness auto
termination by lexicographic_order

declare strip_return_value.simps [simp del]

abbreviation strip_return_values :: "stmt list \<Rightarrow> stmt list" where
  "strip_return_values \<equiv> map strip_return_value"

definition args_type :: ty where "args_type = TList TStr"

definition main_prologue :: "string \<Rightarrow> string option \<Rightarrow> origin \<Rightarrow> stmt list" where
  "main_prologue argc_name argv_name og =
     SVarDecl argc_name TInt (Some (EFieldAccess (ERef ''args'' args_type og) ''length'' TInt og)) og #
     (case argv_name of None \<Rightarrow> [] | Some name \<Rightarrow> [SVarDecl name args_type (Some (ERef ''args'' args_type og)) og])"

definition apply_main_entry_point_signature :: "param list \<times> ty \<times> stmt list \<Rightarrow> origin \<Rightarrow> param list \<times> ty \<times> stmt list" where
  "apply_main_entry_point_signature func og =
     (case func of
        ([], _, body) \<Rightarrow> ([], TVoid, strip_return_values body)
      | (argc # rest, _, body) \<Rightarrow>
          ([Param ''args'' args_type None], TVoid,
           main_prologue (p_name argc) (case rest of [] \<Rightarrow> None | argv # _ \<Rightarrow> Some (p_name argv)) og @ strip_return_values body))"

section \<open>After a terminator\<close>

lemma last_smaller: "xs \<noteq> [] \<Longrightarrow> size (last xs) \<le> size_list size xs"
  by (induction xs) auto

function is_case_terminator :: "stmt \<Rightarrow> bool" where
  "is_case_terminator s =
     (case s of
        SBreak _ \<Rightarrow> True | SContinue _ \<Rightarrow> True | SContinueLabel _ _ \<Rightarrow> True | SReturn _ _ \<Rightarrow> True | SThrow _ _ \<Rightarrow> True
      | SIf _ a b _ \<Rightarrow> if a = [] \<or> b = [] then False else is_case_terminator (last a) \<and> is_case_terminator (last b)
      | _ \<Rightarrow> False)"
  by pat_completeness auto

termination
proof (relation "measure size")
  fix s :: stmt and c a b og
  assume "s = SIf c a b og" "\<not> (a = [] \<or> b = [])"
  then show "(last a, s) \<in> measure size" "(last b, s) \<in> measure size"
    using last_smaller [of a] last_smaller [of b] by simp_all
qed simp

declare is_case_terminator.simps [simp del]

fun truncate_after_case_terminator :: "stmt list \<Rightarrow> stmt list" where
  "truncate_after_case_terminator [] = []"
| "truncate_after_case_terminator (s # rest) = (if is_case_terminator s then [s] else s # truncate_after_case_terminator rest)"

section \<open>Questions and adaptations on expressions\<close>

text \<open>\<^verbatim>\<open>str::trim_end_matches\<close> and the aliases that are a span of bytes.\<close>

function trim_end_matches :: "string \<Rightarrow> string \<Rightarrow> string" where
  "trim_end_matches s p = (if p \<noteq> [] \<and> suffix p s then trim_end_matches (take (length s - length p) s) p else s)"
  by pat_completeness auto
termination by (relation "measure (\<lambda>(s, p). length s)") (auto simp: suffix_def)

declare trim_end_matches.simps [simp del]

definition is_known_byte_buffer_type :: "string \<Rightarrow> bool" where
  "is_known_byte_buffer_type spelling =
     (let trimmed = str_trim spelling;
          without = (case strip_prefix trimmed ''const '' of Some rest \<Rightarrow> rest | None \<Rightarrow> trimmed)
      in str_trim (trim_end_matches without '' const'') \<in> {''uint8_t'', ''std::uint8_t'', ''mz_uint8'', ''unsigned char'', ''uint8''})"

definition normalized_parameter_name :: "string \<Rightarrow> string" where
  "normalized_parameter_name name =
     map (\<lambda>c. if ascii_upper c then char_of ((of_char c :: nat) + 32) else c)
       (concat (filter (\<lambda>c. case c of [b] \<Rightarrow> ascii_alnum b | _ \<Rightarrow> False) (utf8_chars name)))"

definition variadic_args_type :: ty where "variadic_args_type = TList (TNullable TObject)"

definition conversion_operator_dart_method_name :: "ty \<Rightarrow> string option" where
  "conversion_operator_dart_method_name target_type =
     (case target_type of
        TStr \<Rightarrow> Some ''toStr'' | TBool \<Rightarrow> Some ''toBool'' | TInt \<Rightarrow> Some ''toInt'' | TDouble \<Rightarrow> Some ''toDouble''
      | TBytes \<Rightarrow> Some ''toBytes'' | _ \<Rightarrow> None)"

definition unassignable_target_reason :: "expr \<Rightarrow> string option" where
  "unassignable_target_reason target =
     (if is_assignable_lvalue target \<or> (case target of EMapIndexOrInsert _ _ _ _ _ \<Rightarrow> True | _ \<Rightarrow> False) then None
      else if (case target of EConvert operand _ _ \<Rightarrow> is_assignable_lvalue operand | _ \<Rightarrow> False) then None
      else Some (case target of
          EUnsupported reason _ \<Rightarrow> reason
        | EUnsupportedTyped reason _ _ \<Rightarrow> reason
        | _ \<Rightarrow> ''assignment target is not representable as a Dart assignment target''))"

fun is_repeatable_expr :: "expr \<Rightarrow> bool" where
  "is_repeatable_expr (EIntLiteral _ _) = True"
| "is_repeatable_expr (EDoubleLiteral _ _) = True"
| "is_repeatable_expr (EBoolLiteral _ _) = True"
| "is_repeatable_expr (ENullLiteral _) = True"
| "is_repeatable_expr (EStringLiteral _ _) = True"
| "is_repeatable_expr (ERef _ _ _) = True"
| "is_repeatable_expr (EThis _ _) = True"
| "is_repeatable_expr (EFieldAccess target _ _ _) = is_repeatable_expr target"
| "is_repeatable_expr (EIndex target index _ _) = (is_repeatable_expr target \<and> is_repeatable_expr index)"
| "is_repeatable_expr (EMapIndexOrInsert target index default_value _ _) =
     (is_repeatable_expr target \<and> is_repeatable_expr index \<and> is_repeatable_expr default_value)"
| "is_repeatable_expr _ = False"

definition preserve_expected_bailout_type :: "expr \<Rightarrow> ty \<Rightarrow> expr" where
  "preserve_expected_bailout_type e expected =
     (case e of EUnsupportedTyped reason TVoid og \<Rightarrow> EUnsupportedTyped reason expected og | _ \<Rightarrow> e)"

definition coerce_map_literal_key :: "expr \<Rightarrow> ty \<Rightarrow> expr" where
  "coerce_map_literal_key key declared_key_ty =
     (if declared_key_ty = TInt \<and> (case expr_ty key of Some (TEnum _ _) \<Rightarrow> True | _ \<Rightarrow> False)
      then EConvert key TInt (expr_origin key) else key)"

definition is_npos_expr :: "expr \<Rightarrow> bool" where
  "is_npos_expr e =
     (case e of
        EIntLiteral v _ \<Rightarrow> v = - 1
      | ERef name _ _ \<Rightarrow> name = ''-1'' \<or> suffix ''npos'' name
      | _ \<Rightarrow> False)"

definition container_element_type :: "expr \<Rightarrow> ty option" where
  "container_element_type receiver =
     (let element = (\<lambda>t. case t of TList e \<Rightarrow> Some e | TSet e \<Rightarrow> Some e | _ \<Rightarrow> None)
      in case receiver of ERef _ t _ \<Rightarrow> element t | EFieldAccess _ _ t _ \<Rightarrow> element t | _ \<Rightarrow> None)"

text \<open>A C++ ordering, which says less or greater, as the three-way comparison Dart sorts by.\<close>

definition three_way :: "binary_op \<Rightarrow> expr \<Rightarrow> expr \<Rightarrow> expr \<Rightarrow> origin \<Rightarrow> expr" where
  "three_way op lhs rhs value og =
     EConditional value (EIntLiteral (- 1) og)
       (EConditional (EBinary op rhs lhs TBool og) (EIntLiteral 1 og) (EIntLiteral 0 og) TInt og) TInt og"

definition adapt_inline_sort_comparator :: "expr \<Rightarrow> expr" where
  "adapt_inline_sort_comparator comparator =
     (case comparator of
        ELambda params [SReturn (Some (EBinary op lhs rhs t cog)) rog] lty og \<Rightarrow>
          if op = OpLt \<or> op = OpGt then
            ELambda params [SReturn (Some (three_way op lhs rhs (EBinary op lhs rhs t cog) cog)) og]
              (TCallback TInt (map p_ty params)) og
          else comparator
      | _ \<Rightarrow> comparator)"

text \<open>The escapes of a C string literal; one that is not known stays as it is.\<close>

fun unescape_c_string_literal :: "string \<Rightarrow> string" where
  "unescape_c_string_literal [] = []"
| "unescape_c_string_literal (c # cs) =
     (if c \<noteq> CHR 0x5C then c # unescape_c_string_literal cs
      else (case cs of
          [] \<Rightarrow> [c]
        | d # rest \<Rightarrow>
            (if d = CHR ''n'' then CHR 0x0A # unescape_c_string_literal rest
             else if d = CHR ''t'' then CHR 0x09 # unescape_c_string_literal rest
             else if d = CHR ''r'' then CHR 0x0D # unescape_c_string_literal rest
             else if d = CHR 0x5C then CHR 0x5C # unescape_c_string_literal rest
             else if d = CHR 0x22 then CHR 0x22 # unescape_c_string_literal rest
             else c # d # unescape_c_string_literal rest)))"

end
