(* ===== verification/Lower_Paths.thy ===== *)
theory Lower_Paths
  imports Lower_Bodies
begin

text \<open>
  What the passes of \<open>Lower_Bodies\<close> do to the executions of a body. A path is what an execution of a body does,
  in order: the simple statements it runs, the conditions it tests, the bindings of loops and handlers, the
  jumps and exceptions on the way; every branch, iteration and exception is possible. Two bodies with the
  same paths behave the same whatever their expressions mean.
\<close>

section \<open>Paths\<close>

datatype event = Ran stmt | Tested expr | Bound string | Jumped | Threw

datatype outcome = ONormal | OBreak | OContinue | OContinueLabel string | OReturn "expr option" | OThrow

text \<open>The statements without parts: each runs, or throws before it is done.\<close>

fun simple :: "stmt \<Rightarrow> bool" where
  "simple (SVarDecl _ _ _ _) = True"
| "simple (SAssign _ _ _) = True"
| "simple (SFieldAssign _ _ _ _) = True"
| "simple (SExprAssign _ _ _) = True"
| "simple (SExprStmt _ _) = True"
| "simple (STupleAssign _ _ _) = True"
| "simple (SUnsupported _ _) = True"
| "simple _ = False"

text \<open>Names and literals, and tuples of them, are values; anything else may throw when it is evaluated.\<close>

fun may_throw :: "expr \<Rightarrow> bool" where
  "may_throw (ERef _ _ _) = False"
| "may_throw (EIntLiteral _ _) = False"
| "may_throw (EDoubleLiteral _ _) = False"
| "may_throw (EBoolLiteral _ _) = False"
| "may_throw (ENullLiteral _) = False"
| "may_throw (EStringLiteral _ _) = False"
| "may_throw (EThis _ _) = False"
| "may_throw (ETuple es _) = list_ex id (map may_throw es)"
| "may_throw _ = True"

definition value_throws :: "expr option \<Rightarrow> bool" where
  "value_throws v = (case v of None \<Rightarrow> False | Some e \<Rightarrow> may_throw e)"

text \<open>How the outcome of a body ends, or does not end, the loop or switch around it.\<close>

definition again :: "outcome \<Rightarrow> bool" where
  "again out \<longleftrightarrow> out = ONormal \<or> out = OContinue"

definition after_break :: "outcome \<Rightarrow> outcome" where
  "after_break out = (if out = OBreak then ONormal else out)"

text \<open>
  \<open>SBreak\<close> leaves the loop or switch around it, \<open>SContinue\<close> begins the next iteration, \<open>SContinueLabel\<close> goes
  on in the case of the switch that has the label, a \<^verbatim>\<open>finally\<close> that ends in a jump of its own overrides
  the outcome of its body.
\<close>

inductive run_stmt :: "stmt \<Rightarrow> event list \<Rightarrow> outcome \<Rightarrow> bool"
  and run_block :: "stmt list \<Rightarrow> event list \<Rightarrow> outcome \<Rightarrow> bool"
  and run_for :: "expr option \<Rightarrow> stmt option \<Rightarrow> stmt list \<Rightarrow> event list \<Rightarrow> outcome \<Rightarrow> bool"
  and run_each :: "string \<Rightarrow> stmt list \<Rightarrow> event list \<Rightarrow> outcome \<Rightarrow> bool"
  and run_arm :: "switch_case list \<Rightarrow> stmt list \<Rightarrow> event list \<Rightarrow> outcome \<Rightarrow> bool" where
  block_nil: "run_block [] [] ONormal"
| block_cons: "run_stmt s p ONormal \<Longrightarrow> run_block r q out \<Longrightarrow> run_block (s # r) (p @ q) out"
| block_leave: "run_stmt s p out \<Longrightarrow> out \<noteq> ONormal \<Longrightarrow> run_block (s # r) p out"
| simple_runs: "simple s \<Longrightarrow> run_stmt s [Ran s] ONormal"
| simple_throws: "simple s \<Longrightarrow> run_stmt s [Threw] OThrow"
| return_value: "run_stmt (SReturn v og) [] (OReturn v)"
| return_throws: "value_throws v \<Longrightarrow> run_stmt (SReturn v og) [Threw] OThrow"
| throw_throws: "run_stmt (SThrow e og) [Threw] OThrow"
| break_jumps: "run_stmt (SBreak og) [Jumped] OBreak"
| continue_jumps: "run_stmt (SContinue og) [Jumped] OContinue"
| continue_label: "run_stmt (SContinueLabel l og) [Jumped] (OContinueLabel l)"
| if_throws: "run_stmt (SIf c a b og) [Threw] OThrow"
| if_then: "run_block a p out \<Longrightarrow> run_stmt (SIf c a b og) (Tested c # p) out"
| if_else: "run_block b p out \<Longrightarrow> run_stmt (SIf c a b og) (Tested c # p) out"
| while_throws: "run_stmt (SWhile c b og) [Threw] OThrow"
| while_exit: "run_stmt (SWhile c b og) [Tested c] ONormal"
| while_again: "run_block b p out0 \<Longrightarrow> again out0 \<Longrightarrow> run_stmt (SWhile c b og) q out \<Longrightarrow>
    run_stmt (SWhile c b og) (Tested c # p @ q) out"
| while_leave: "run_block b p out \<Longrightarrow> \<not> again out \<Longrightarrow> run_stmt (SWhile c b og) (Tested c # p) (after_break out)"
| do_throws: "run_block b p out0 \<Longrightarrow> again out0 \<Longrightarrow> run_stmt (SDoWhile b c og) (p @ [Threw]) OThrow"
| do_exit: "run_block b p out0 \<Longrightarrow> again out0 \<Longrightarrow> run_stmt (SDoWhile b c og) (p @ [Tested c]) ONormal"
| do_again: "run_block b p out0 \<Longrightarrow> again out0 \<Longrightarrow> run_stmt (SDoWhile b c og) q out \<Longrightarrow>
    run_stmt (SDoWhile b c og) (p @ Tested c # q) out"
| do_leave: "run_block b p out \<Longrightarrow> \<not> again out \<Longrightarrow> run_stmt (SDoWhile b c og) p (after_break out)"
| for_no_init: "run_for c n b p out \<Longrightarrow> run_stmt (SFor None c n b og) p out"
| for_init: "run_stmt i p ONormal \<Longrightarrow> run_for c n b q out \<Longrightarrow> run_stmt (SFor (Some i) c n b og) (p @ q) out"
| for_init_leave: "run_stmt i p out \<Longrightarrow> out \<noteq> ONormal \<Longrightarrow> run_stmt (SFor (Some i) c n b og) p out"
| for_throws: "run_for (Some c) n b [Threw] OThrow"
| for_exit: "run_for (Some c) n b [Tested c] ONormal"
| for_leave: "run_block b p out \<Longrightarrow> \<not> again out \<Longrightarrow>
    run_for c n b (map Tested (case c of None \<Rightarrow> [] | Some c \<Rightarrow> [c]) @ p) (after_break out)"
| for_again: "run_block b p out0 \<Longrightarrow> again out0 \<Longrightarrow> run_block (case n of None \<Rightarrow> [] | Some n \<Rightarrow> [n]) q ONormal \<Longrightarrow>
    run_for c n b r out \<Longrightarrow> run_for c n b (map Tested (case c of None \<Rightarrow> [] | Some c \<Rightarrow> [c]) @ p @ q @ r) out"
| for_step_leave: "run_block b p out0 \<Longrightarrow> again out0 \<Longrightarrow> run_block (case n of None \<Rightarrow> [] | Some n \<Rightarrow> [n]) q out \<Longrightarrow> out \<noteq> ONormal \<Longrightarrow>
    run_for c n b (map Tested (case c of None \<Rightarrow> [] | Some c \<Rightarrow> [c]) @ p @ q) out"
| each_throws: "run_stmt (SForEach name t fin wb it b og) [Threw] OThrow"
| each_starts: "run_each name b p out \<Longrightarrow> run_stmt (SForEach name t fin wb it b og) (Tested it # p) out"
| each_exit: "run_each name b [] ONormal"
| each_again: "run_block b p out0 \<Longrightarrow> again out0 \<Longrightarrow> run_each name b q out \<Longrightarrow> run_each name b (Bound name # p @ q) out"
| each_leave: "run_block b p out \<Longrightarrow> \<not> again out \<Longrightarrow> run_each name b (Bound name # p) (after_break out)"
| try_passes: "run_block b p out \<Longrightarrow> run_stmt (STryCatch b t name c og) p out"
| try_catches: "run_block b p OThrow \<Longrightarrow> run_block c q out \<Longrightarrow> run_stmt (STryCatch b t name c og) (p @ Bound name # q) out"
| finally_runs: "run_block b p out0 \<Longrightarrow> run_block f q out \<Longrightarrow>
    run_stmt (STryFinally b f og) (p @ q) (if out = ONormal then out0 else out)"
| switch_throws: "run_stmt (SSwitch e cs d og) [Threw] OThrow"
| switch_case: "c \<in> set cs \<Longrightarrow> run_arm cs (sc_body c) p out \<Longrightarrow> run_stmt (SSwitch e cs d og) (Tested e # p) (after_break out)"
| switch_default: "run_arm cs d p out \<Longrightarrow> run_stmt (SSwitch e cs (Some d) og) (Tested e # p) (after_break out)"
| switch_none: "run_stmt (SSwitch e cs None og) [Tested e] ONormal"
| arm: "run_block b p out \<Longrightarrow> run_arm cs b p out"
| arm_jumps: "run_block b p (OContinueLabel l) \<Longrightarrow> c \<in> set cs \<Longrightarrow> sc_label c = Some l \<Longrightarrow> run_arm cs (sc_body c) q out \<Longrightarrow>
    run_arm cs b (p @ q) out"

inductive_cases run_simple: "run_stmt s p out"
inductive_cases run_cons: "run_block (s # r) p out"
inductive_cases run_nil: "run_block [] p out"
inductive_cases run_if: "run_stmt (SIf c a b og) p out"

lemma run_cons_iff:
  "run_block (s # r) p out \<longleftrightarrow>
    (\<exists>p1 q. p = p1 @ q \<and> run_stmt s p1 ONormal \<and> run_block r q out) \<or> run_stmt s p out \<and> out \<noteq> ONormal"
  by (auto elim: run_cons intro: block_cons block_leave)

section \<open>Dead code\<close>

text \<open>A terminator never completes normally, so what follows it does not run.\<close>

lemma terminator_last:
  "run_stmt s p out \<Longrightarrow> is_case_terminator s \<Longrightarrow> out \<noteq> ONormal"
  "run_block b p out \<Longrightarrow> b \<noteq> [] \<Longrightarrow> is_case_terminator (last b) \<Longrightarrow> out \<noteq> ONormal"
  "run_for c n b p out \<Longrightarrow> True" "run_each name b p out \<Longrightarrow> True" "run_arm cs b p out \<Longrightarrow> True"
proof (induction rule: run_stmt_run_block_run_for_run_each_run_arm.inducts)
  case (simple_runs s)
  then show ?case by (cases s) (simp_all add: is_case_terminator.simps)
next
  case (block_cons s p r q out)
  then show ?case by (cases "r = []") (auto elim: run_nil)
qed (auto simp: is_case_terminator.simps split: if_splits)

lemma terminator_leaves: "is_case_terminator s \<Longrightarrow> run_block (s # r) p out \<longleftrightarrow> run_stmt s p out \<and> out \<noteq> ONormal"
  by (auto elim: run_cons dest: terminator_last(1) intro: block_leave)

lemma same_rest:
  assumes "\<And>p out. run_block r p out \<longleftrightarrow> run_block r' p out"
  shows "run_block (s # r) p out \<longleftrightarrow> run_block (s # r') p out"
  using assms by (auto elim!: run_cons intro: block_cons block_leave)

section \<open>Other values returned\<close>

text \<open>
  \<open>returns R s s'\<close>: the two statements differ in the values of their returns only, which are related by \<open>R\<close>.
\<close>

inductive returns :: "(expr option \<Rightarrow> expr option \<Rightarrow> bool) \<Rightarrow> stmt \<Rightarrow> stmt \<Rightarrow> bool" for R where
  returns_same: "simple s \<or> (case s of SThrow _ _ \<Rightarrow> True | SBreak _ \<Rightarrow> True | SContinue _ \<Rightarrow> True | SContinueLabel _ _ \<Rightarrow> True | _ \<Rightarrow> False) \<Longrightarrow>
    returns R s s"
| returns_value: "R v v' \<Longrightarrow> returns R (SReturn v og) (SReturn v' og)"
| returns_if: "list_all2 (returns R) a a' \<Longrightarrow> list_all2 (returns R) b b' \<Longrightarrow> returns R (SIf c a b og) (SIf c a' b' og)"
| returns_while: "list_all2 (returns R) b b' \<Longrightarrow> returns R (SWhile c b og) (SWhile c b' og)"
| returns_do: "list_all2 (returns R) b b' \<Longrightarrow> returns R (SDoWhile b c og) (SDoWhile b' c og)"
| returns_for: "rel_option (returns R) i i' \<Longrightarrow> rel_option (returns R) n n' \<Longrightarrow> list_all2 (returns R) b b' \<Longrightarrow>
    returns R (SFor i c n b og) (SFor i' c n' b' og)"
| returns_each: "list_all2 (returns R) b b' \<Longrightarrow> returns R (SForEach name t fin wb it b og) (SForEach name t fin wb it b' og)"
| returns_try: "list_all2 (returns R) b b' \<Longrightarrow> list_all2 (returns R) c c' \<Longrightarrow>
    returns R (STryCatch b t name c og) (STryCatch b' t name c' og)"
| returns_finally: "list_all2 (returns R) b b' \<Longrightarrow> list_all2 (returns R) f f' \<Longrightarrow>
    returns R (STryFinally b f og) (STryFinally b' f' og)"
| returns_switch: "list_all2 (\<lambda>c c'. list_all2 (returns R) (sc_body c) (sc_body c') \<and> sc_label c = sc_label c') cs cs' \<Longrightarrow>
    rel_option (list_all2 (returns R)) d d' \<Longrightarrow> returns R (SSwitch e cs d og) (SSwitch e cs' d' og)"
monos list.rel_mono_strong option.rel_mono_strong

text \<open>The outcomes of bodies that differ so, and that they have the same paths.\<close>

fun outcomes :: "(expr option \<Rightarrow> expr option \<Rightarrow> bool) \<Rightarrow> outcome \<Rightarrow> outcome \<Rightarrow> bool" where
  "outcomes R (OReturn v) (OReturn v') = R v v'"
| "outcomes R out out' = (out = out')"

lemma outcomes_simps [simp]:
  "outcomes R ONormal out \<longleftrightarrow> out = ONormal" "outcomes R OThrow out \<longleftrightarrow> out = OThrow"
  "outcomes R OBreak out \<longleftrightarrow> out = OBreak" "outcomes R OContinue out \<longleftrightarrow> out = OContinue"
  "outcomes R (OContinueLabel l) out \<longleftrightarrow> out = OContinueLabel l"
  by (cases out; auto)+

lemma outcomes_kept:
  "outcomes R out out' \<Longrightarrow> out = ONormal \<longleftrightarrow> out' = ONormal" "outcomes R out out' \<Longrightarrow> again out \<longleftrightarrow> again out'"
  "outcomes R out out' \<Longrightarrow> outcomes R (after_break out) (after_break out')"
  by (cases out; cases out'; simp add: again_def after_break_def)+

inductive_cases returns_of:
  "returns R (SVarDecl x1 x2 x3 x4) s'" "returns R (SReturn v og) s'" "returns R (SThrow e og) s'" "returns R (SBreak og) s'"
  "returns R (SContinue og) s'" "returns R (SContinueLabel l og) s'" "returns R (SIf c a b og) s'" "returns R (SWhile c b og) s'"
  "returns R (SDoWhile b c og) s'" "returns R (SFor i c n b og) s'" "returns R (SForEach name t fin wb it b og) s'"
  "returns R (STryCatch b t name c og) s'" "returns R (STryFinally b f og) s'" "returns R (SSwitch e cs d og) s'"

lemma returns_simple: "returns R s s' \<Longrightarrow> simple s \<Longrightarrow> s' = s"
  by (erule returns.cases) auto

lemma list_all2_in: "list_all2 P xs ys \<Longrightarrow> x \<in> set xs \<Longrightarrow> \<exists>y \<in> set ys. P x y"
  by (auto simp: list_all2_conv_all_nth in_set_conv_nth) (metis nth_mem)

lemma option_block:
  "rel_option (returns R) n n' \<Longrightarrow> list_all2 (returns R) (case n of None \<Rightarrow> [] | Some n \<Rightarrow> [n]) (case n' of None \<Rightarrow> [] | Some n \<Rightarrow> [n])"
  by (cases n; cases n') auto

lemma simulation:
  assumes "\<And>v v'. R v v' \<Longrightarrow> value_throws v \<Longrightarrow> value_throws v'"
  shows "run_stmt s p out \<Longrightarrow> \<forall>s'. returns R s s' \<longrightarrow> (\<exists>out'. run_stmt s' p out' \<and> outcomes R out out')"
  "run_block b p out \<Longrightarrow> \<forall>b'. list_all2 (returns R) b b' \<longrightarrow> (\<exists>out'. run_block b' p out' \<and> outcomes R out out')"
  "run_for c n b p out \<Longrightarrow> \<forall>n' b'. rel_option (returns R) n n' \<longrightarrow> list_all2 (returns R) b b' \<longrightarrow>
     (\<exists>out'. run_for c n' b' p out' \<and> outcomes R out out')"
  "run_each name b p out \<Longrightarrow> \<forall>b'. list_all2 (returns R) b b' \<longrightarrow> (\<exists>out'. run_each name b' p out' \<and> outcomes R out out')"
  "run_arm cs b p out \<Longrightarrow> \<forall>cs' b'. list_all2 (\<lambda>c c'. list_all2 (returns R) (sc_body c) (sc_body c') \<and> sc_label c = sc_label c') cs cs' \<longrightarrow>
     list_all2 (returns R) b b' \<longrightarrow> (\<exists>out'. run_arm cs' b' p out' \<and> outcomes R out out')"
proof (induction rule: run_stmt_run_block_run_for_run_each_run_arm.inducts)
  case block_nil
  then show ?case by (fastforce elim!: returns_of simp: list_all2_Cons1 option_rel_Some1 outcomes_kept dest: returns_simple intro: returns.intros run_stmt_run_block_run_for_run_each_run_arm.block_nil)
next
  case block_cons
  then show ?case by (fastforce elim!: returns_of simp: list_all2_Cons1 option_rel_Some1 outcomes_kept dest: returns_simple intro: returns.intros run_stmt_run_block_run_for_run_each_run_arm.block_cons)
next
  case block_leave
  then show ?case by (fastforce elim!: returns_of simp: list_all2_Cons1 option_rel_Some1 outcomes_kept dest: returns_simple intro: returns.intros run_stmt_run_block_run_for_run_each_run_arm.block_leave)
next
  case simple_runs
  then show ?case by (fastforce elim!: returns_of simp: list_all2_Cons1 option_rel_Some1 outcomes_kept dest: returns_simple intro: returns.intros run_stmt_run_block_run_for_run_each_run_arm.simple_runs)
next
  case simple_throws
  then show ?case by (fastforce elim!: returns_of simp: list_all2_Cons1 option_rel_Some1 outcomes_kept dest: returns_simple intro: returns.intros run_stmt_run_block_run_for_run_each_run_arm.simple_throws)
next
  case return_value
  then show ?case by (fastforce elim!: returns_of simp: list_all2_Cons1 option_rel_Some1 outcomes_kept dest: returns_simple intro: returns.intros run_stmt_run_block_run_for_run_each_run_arm.return_value)
next
  case return_throws
  then show ?case
    by (fastforce elim!: returns_of dest: assms intro: run_stmt_run_block_run_for_run_each_run_arm.return_throws)
next
  case throw_throws
  then show ?case by (fastforce elim!: returns_of simp: list_all2_Cons1 option_rel_Some1 outcomes_kept dest: returns_simple intro: returns.intros run_stmt_run_block_run_for_run_each_run_arm.throw_throws)
next
  case break_jumps
  then show ?case by (fastforce elim!: returns_of simp: list_all2_Cons1 option_rel_Some1 outcomes_kept dest: returns_simple intro: returns.intros run_stmt_run_block_run_for_run_each_run_arm.break_jumps)
next
  case continue_jumps
  then show ?case by (fastforce elim!: returns_of simp: list_all2_Cons1 option_rel_Some1 outcomes_kept dest: returns_simple intro: returns.intros run_stmt_run_block_run_for_run_each_run_arm.continue_jumps)
next
  case continue_label
  then show ?case by (fastforce elim!: returns_of simp: list_all2_Cons1 option_rel_Some1 outcomes_kept dest: returns_simple intro: returns.intros run_stmt_run_block_run_for_run_each_run_arm.continue_label)
next
  case if_throws
  then show ?case by (fastforce elim!: returns_of simp: list_all2_Cons1 option_rel_Some1 outcomes_kept dest: returns_simple intro: returns.intros run_stmt_run_block_run_for_run_each_run_arm.if_throws)
next
  case if_then
  then show ?case by (fastforce elim!: returns_of simp: list_all2_Cons1 option_rel_Some1 outcomes_kept dest: returns_simple intro: returns.intros run_stmt_run_block_run_for_run_each_run_arm.if_then)
next
  case if_else
  then show ?case by (fastforce elim!: returns_of simp: list_all2_Cons1 option_rel_Some1 outcomes_kept dest: returns_simple intro: returns.intros run_stmt_run_block_run_for_run_each_run_arm.if_else)
next
  case while_throws
  then show ?case by (fastforce elim!: returns_of simp: list_all2_Cons1 option_rel_Some1 outcomes_kept dest: returns_simple intro: returns.intros run_stmt_run_block_run_for_run_each_run_arm.while_throws)
next
  case while_exit
  then show ?case by (fastforce elim!: returns_of simp: list_all2_Cons1 option_rel_Some1 outcomes_kept dest: returns_simple intro: returns.intros run_stmt_run_block_run_for_run_each_run_arm.while_exit)
next
  case while_again
  then show ?case by (fastforce elim!: returns_of simp: list_all2_Cons1 option_rel_Some1 outcomes_kept dest: returns_simple intro: returns.intros run_stmt_run_block_run_for_run_each_run_arm.while_again)
next
  case while_leave
  then show ?case by (fastforce elim!: returns_of simp: list_all2_Cons1 option_rel_Some1 outcomes_kept dest: returns_simple intro: returns.intros run_stmt_run_block_run_for_run_each_run_arm.while_leave)
next
  case do_throws
  then show ?case by (fastforce elim!: returns_of simp: list_all2_Cons1 option_rel_Some1 outcomes_kept dest: returns_simple intro: returns.intros run_stmt_run_block_run_for_run_each_run_arm.do_throws)
next
  case do_exit
  then show ?case by (fastforce elim!: returns_of simp: list_all2_Cons1 option_rel_Some1 outcomes_kept dest: returns_simple intro: returns.intros run_stmt_run_block_run_for_run_each_run_arm.do_exit)
next
  case do_again
  then show ?case by (fastforce elim!: returns_of simp: list_all2_Cons1 option_rel_Some1 outcomes_kept dest: returns_simple intro: returns.intros run_stmt_run_block_run_for_run_each_run_arm.do_again)
next
  case do_leave
  then show ?case by (fastforce elim!: returns_of simp: list_all2_Cons1 option_rel_Some1 outcomes_kept dest: returns_simple intro: returns.intros run_stmt_run_block_run_for_run_each_run_arm.do_leave)
next
  case for_no_init
  then show ?case by (fastforce elim!: returns_of simp: list_all2_Cons1 option_rel_Some1 outcomes_kept dest: returns_simple intro: returns.intros run_stmt_run_block_run_for_run_each_run_arm.for_no_init)
next
  case for_init
  then show ?case by (fastforce elim!: returns_of simp: list_all2_Cons1 option_rel_Some1 outcomes_kept dest: returns_simple intro: returns.intros run_stmt_run_block_run_for_run_each_run_arm.for_init)
next
  case for_init_leave
  then show ?case by (fastforce elim!: returns_of simp: list_all2_Cons1 option_rel_Some1 outcomes_kept dest: returns_simple intro: returns.intros run_stmt_run_block_run_for_run_each_run_arm.for_init_leave)
next
  case for_throws
  then show ?case by (fastforce elim!: returns_of simp: list_all2_Cons1 option_rel_Some1 outcomes_kept dest: returns_simple intro: returns.intros run_stmt_run_block_run_for_run_each_run_arm.for_throws)
next
  case for_exit
  then show ?case by (fastforce elim!: returns_of simp: list_all2_Cons1 option_rel_Some1 outcomes_kept dest: returns_simple intro: returns.intros run_stmt_run_block_run_for_run_each_run_arm.for_exit)
next
  case for_leave
  then show ?case by (fastforce elim!: returns_of simp: list_all2_Cons1 option_rel_Some1 outcomes_kept dest: returns_simple intro: returns.intros run_stmt_run_block_run_for_run_each_run_arm.for_leave dest!: option_block)
next
  case (for_again b p out0 n q c r out)
  show ?case
  proof (intro allI impI)
    fix n' b' assume rel: "rel_option (returns R) n n'" "list_all2 (returns R) b b'"
    obtain out0' where "run_block b' p out0'" "again out0'"
      using for_again rel by (fastforce simp: outcomes_kept)
    moreover have "run_block (case n' of None \<Rightarrow> [] | Some n \<Rightarrow> [n]) q ONormal"
      using for_again option_block [OF rel(1)] by fastforce
    moreover obtain out' where "run_for c n' b' r out'" "outcomes R out out'" using for_again rel by blast
    ultimately show "\<exists>out'. run_for c n' b' (map Tested (case c of None \<Rightarrow> [] | Some c \<Rightarrow> [c]) @ p @ q @ r) out' \<and> outcomes R out out'"
      using run_stmt_run_block_run_for_run_each_run_arm.for_again by blast
  qed
next
  case (for_step_leave b p out0 n q out c)
  show ?case
  proof (intro allI impI)
    fix n' b' assume rel: "rel_option (returns R) n n'" "list_all2 (returns R) b b'"
    obtain out0' where "run_block b' p out0'" "again out0'"
      using for_step_leave rel by (fastforce simp: outcomes_kept)
    moreover obtain out' where "run_block (case n' of None \<Rightarrow> [] | Some n \<Rightarrow> [n]) q out'" "outcomes R out out'"
      using for_step_leave option_block [OF rel(1)] by blast
    moreover then have "out' \<noteq> ONormal" using for_step_leave outcomes_kept(1) by blast
    ultimately show "\<exists>out'. run_for c n' b' (map Tested (case c of None \<Rightarrow> [] | Some c \<Rightarrow> [c]) @ p @ q) out' \<and> outcomes R out out'"
      using run_stmt_run_block_run_for_run_each_run_arm.for_step_leave by blast
  qed
next
  case each_throws
  then show ?case by (fastforce elim!: returns_of simp: list_all2_Cons1 option_rel_Some1 outcomes_kept dest: returns_simple intro: returns.intros run_stmt_run_block_run_for_run_each_run_arm.each_throws)
next
  case each_starts
  then show ?case by (fastforce elim!: returns_of simp: list_all2_Cons1 option_rel_Some1 outcomes_kept dest: returns_simple intro: returns.intros run_stmt_run_block_run_for_run_each_run_arm.each_starts)
next
  case each_exit
  then show ?case by (fastforce elim!: returns_of simp: list_all2_Cons1 option_rel_Some1 outcomes_kept dest: returns_simple intro: returns.intros run_stmt_run_block_run_for_run_each_run_arm.each_exit)
next
  case each_again
  then show ?case by (fastforce elim!: returns_of simp: list_all2_Cons1 option_rel_Some1 outcomes_kept dest: returns_simple intro: returns.intros run_stmt_run_block_run_for_run_each_run_arm.each_again)
next
  case each_leave
  then show ?case by (fastforce elim!: returns_of simp: list_all2_Cons1 option_rel_Some1 outcomes_kept dest: returns_simple intro: returns.intros run_stmt_run_block_run_for_run_each_run_arm.each_leave)
next
  case try_passes
  then show ?case by (fastforce elim!: returns_of simp: list_all2_Cons1 option_rel_Some1 outcomes_kept dest: returns_simple intro: returns.intros run_stmt_run_block_run_for_run_each_run_arm.try_passes)
next
  case try_catches
  then show ?case by (fastforce elim!: returns_of simp: list_all2_Cons1 option_rel_Some1 outcomes_kept dest: returns_simple intro: returns.intros run_stmt_run_block_run_for_run_each_run_arm.try_catches)
next
  case finally_runs
  then show ?case by (fastforce elim!: returns_of simp: list_all2_Cons1 option_rel_Some1 outcomes_kept dest: returns_simple intro: returns.intros run_stmt_run_block_run_for_run_each_run_arm.finally_runs)
next
  case switch_throws
  then show ?case by (fastforce elim!: returns_of simp: list_all2_Cons1 option_rel_Some1 outcomes_kept dest: returns_simple intro: returns.intros run_stmt_run_block_run_for_run_each_run_arm.switch_throws)
next
  case (switch_case c cs p out e d og)
  show ?case
  proof (intro allI impI)
    fix s' assume "returns R (SSwitch e cs d og) s'"
    then obtain cs' d' where s': "s' = SSwitch e cs' d' og"
      and cs: "list_all2 (\<lambda>c c'. list_all2 (returns R) (sc_body c) (sc_body c') \<and> sc_label c = sc_label c') cs cs'"
      by (auto elim: returns_of)
    obtain c' where "c' \<in> set cs'" "list_all2 (returns R) (sc_body c) (sc_body c')"
      using list_all2_in [OF cs switch_case(1)] by blast
    then show "\<exists>out'. run_stmt s' (Tested e # p) out' \<and> outcomes R (after_break out) out'"
      using switch_case cs unfolding s'
      by (blast intro: run_stmt_run_block_run_for_run_each_run_arm.switch_case outcomes_kept(3))
  qed
next
  case (switch_default cs d p out e og)
  show ?case
  proof (intro allI impI)
    fix s' assume "returns R (SSwitch e cs (Some d) og) s'"
    then obtain cs' d' where s': "s' = SSwitch e cs' (Some d') og" and "list_all2 (returns R) d d'"
      and "list_all2 (\<lambda>c c'. list_all2 (returns R) (sc_body c) (sc_body c') \<and> sc_label c = sc_label c') cs cs'"
      by (auto elim!: returns_of simp: option_rel_Some1)
    then show "\<exists>out'. run_stmt s' (Tested e # p) out' \<and> outcomes R (after_break out) out'"
      using switch_default unfolding s'
      by (blast intro: run_stmt_run_block_run_for_run_each_run_arm.switch_default outcomes_kept(3))
  qed
next
  case switch_none
  then show ?case by (fastforce elim!: returns_of simp: list_all2_Cons1 option_rel_Some1 outcomes_kept dest: returns_simple intro: returns.intros run_stmt_run_block_run_for_run_each_run_arm.switch_none)
next
  case arm
  then show ?case by (fastforce elim!: returns_of simp: list_all2_Cons1 option_rel_Some1 outcomes_kept dest: returns_simple intro: returns.intros run_stmt_run_block_run_for_run_each_run_arm.arm)
next
  case (arm_jumps b p l c cs q out)
  show ?case
  proof (intro allI impI)
    fix cs' b' assume cs: "list_all2 (\<lambda>c c'. list_all2 (returns R) (sc_body c) (sc_body c') \<and> sc_label c = sc_label c') cs cs'"
      and "list_all2 (returns R) b b'"
    then have "run_block b' p (OContinueLabel l)" using arm_jumps by fastforce
    moreover obtain c' where "c' \<in> set cs'" "list_all2 (returns R) (sc_body c) (sc_body c')" "sc_label c' = Some l"
      using list_all2_in [OF cs arm_jumps(2)] arm_jumps(3) by auto
    moreover from this obtain out' where "run_arm cs' (sc_body c') q out'" "outcomes R out out'" using arm_jumps cs by blast
    ultimately show "\<exists>out'. run_arm cs' b' (p @ q) out' \<and> outcomes R out out'"
      using run_stmt_run_block_run_for_run_each_run_arm.arm_jumps by blast
  qed
qed

lemma returns_converse: "returns R s s' \<Longrightarrow> returns (\<lambda>v v'. R v' v) s' s"
proof (induction rule: returns.induct)
  case (returns_switch cs cs' d d' e og)
  then show ?case
    by (intro returns.returns_switch) (auto simp: list_all2_conv_all_nth rel_option_iff split: option.splits)
qed (auto intro: returns.intros simp: list_all2_conv_all_nth rel_option_iff split: option.splits)

lemma outcomes_converse: "outcomes (\<lambda>v v'. R v' v) out' out = outcomes R out out'"
  by (cases out; cases out') auto

text \<open>When each value returned is replaced by a function of it, the paths are the same and the outcomes are replaced.\<close>

fun map_outcome :: "(expr option \<Rightarrow> expr option) \<Rightarrow> outcome \<Rightarrow> outcome" where
  "map_outcome g (OReturn v) = OReturn (g v)"
| "map_outcome g out = out"

lemma outcomes_map: "outcomes (\<lambda>v v'. v' = g v) out out' \<longleftrightarrow> out' = map_outcome g out"
  by (cases out; cases out') auto

lemma mapped_forward:
  assumes "list_all2 (returns (\<lambda>v v'. v' = g v)) b b'" and "\<And>v. value_throws v \<Longrightarrow> value_throws (g v)"
    and "run_block b p out"
  shows "run_block b' p (map_outcome g out)"
  using simulation(2) [of "\<lambda>v v'. v' = g v" b p out] assms unfolding outcomes_map by blast

lemma mapped_backward:
  assumes "list_all2 (returns (\<lambda>v v'. v' = g v)) b b'" and "\<And>v. value_throws (g v) \<Longrightarrow> value_throws v"
    and "run_block b' p out'"
  shows "\<exists>out. run_block b p out \<and> out' = map_outcome g out"
proof -
  have "list_all2 (returns (\<lambda>v v'. v = g v')) b' b"
    using assms(1) by (auto simp: list_all2_conv_all_nth intro: returns_converse)
  then obtain out where "run_block b p out" "outcomes (\<lambda>v v'. v = g v') out' out"
    using simulation(2) [of "\<lambda>v v'. v = g v'" b' p out'] assms(2,3) by blast
  then show ?thesis using outcomes_converse [of "\<lambda>v v'. v' = g v" out' out] by (auto simp: outcomes_map)
qed

section \<open>The bridge of out-parameters\<close>

definition with_outs :: "expr list \<Rightarrow> origin \<Rightarrow> expr option \<Rightarrow> expr option" where
  "with_outs outs og v = Some (ETuple ((case v of None \<Rightarrow> [] | Some e \<Rightarrow> [e]) @ outs) og)"

lemma list_all2_map_self: "(\<And>x. x \<in> set xs \<Longrightarrow> P x (f x)) \<Longrightarrow> list_all2 P xs (map f xs)"
  by (simp add: list_all2_conv_all_nth)

lemma rel_option_map_self: "(\<And>x. y = Some x \<Longrightarrow> P x (f x)) \<Longrightarrow> rel_option P y (map_option f y)"
  by (cases y) auto

lemma replaced_returns:
  "returns (\<lambda>v v'. v' = with_outs outs og v) s (replace_return_with_out_param_tuple outs og s)"
proof (induction outs og s rule: replace_return_with_out_param_tuple.induct)
  case (1 outs og s)
  show ?case unfolding replace_return_with_out_param_tuple.simps [of outs og s]
    by (cases s; insert 1)
      (auto simp: with_outs_def intro!: returns.intros list_all2_map_self rel_option_map_self split: switch_case.split)
qed

lemma out_params_harmless: "out_param_tuple_values indices params og = Some outs \<Longrightarrow> \<not> list_ex id (map may_throw outs)"
  unfolding out_param_tuple_values_def
  by (induction indices arbitrary: outs) (auto split: if_splits option.splits)

lemma with_outs_throws: "\<not> list_ex id (map may_throw outs) \<Longrightarrow> value_throws (with_outs outs og v) = value_throws v"
  by (cases v) (simp_all add: value_throws_def with_outs_def)

text \<open>What the outcome of a bridged function is, of the outcome the function had.\<close>

definition bridged_outcome :: "bool \<Rightarrow> expr list \<Rightarrow> origin \<Rightarrow> outcome \<Rightarrow> outcome" where
  "bridged_outcome had_void_return outs og out =
     (case out of
        OReturn v \<Rightarrow> OReturn (with_outs outs og v)
      | ONormal \<Rightarrow> if had_void_return then OReturn (Some (ETuple outs og)) else ONormal
      | _ \<Rightarrow> out)"

lemma run_snoc_return:
  assumes "\<not> value_throws v"
  shows "run_block (b @ [SReturn v og]) p out' \<longleftrightarrow>
    (\<exists>out. run_block b p out \<and> out' = (if out = ONormal then OReturn v else out))"
proof (induction b arbitrary: p out')
  case Nil
  have "run_block [SReturn v og] p out' \<longleftrightarrow> p = [] \<and> out' = OReturn v"
    using assms by (auto elim!: run_cons run_simple run_nil intro: block_leave return_value)
  then show ?case by (auto elim: run_nil intro: block_nil)
next
  case (Cons s b)
  show ?case unfolding append_Cons run_cons_iff Cons.IH by (auto split: if_splits)
qed

lemma bridged_body:
  assumes "out_param_tuple_values indices params og = Some outs"
  shows "run_block (map (replace_return_with_out_param_tuple outs og) body @ (if v then [SReturn (Some (ETuple outs og)) og] else [])) p out' \<longleftrightarrow>
    (\<exists>out. run_block body p out \<and> out' = bridged_outcome v outs og out)"
proof -
  let ?g = "with_outs outs og" and ?body = "map (replace_return_with_out_param_tuple outs og) body"
  have rel: "list_all2 (returns (\<lambda>v v'. v' = ?g v)) body ?body" by (simp add: list_all2_map_self replaced_returns)
  note throws = with_outs_throws [OF out_params_harmless [OF assms]]
  have body: "run_block ?body p out0 \<longleftrightarrow> (\<exists>out. run_block body p out \<and> out0 = map_outcome ?g out)" for p out0
    using mapped_forward [OF rel] mapped_backward [OF rel] throws by blast
  have no_throw: "\<not> value_throws (Some (ETuple outs og))"
    using out_params_harmless [OF assms] by (simp add: value_throws_def)
  have snoc: "run_block (?body @ [SReturn (Some (ETuple outs og)) og]) p out' \<longleftrightarrow>
      (\<exists>out. run_block body p out \<and> out' = (if map_outcome ?g out = ONormal then OReturn (Some (ETuple outs og)) else map_outcome ?g out))"
    unfolding run_snoc_return [OF no_throw] body by blast
  have "(if map_outcome ?g out = ONormal then OReturn (Some (ETuple outs og)) else map_outcome ?g out) = bridged_outcome True outs og out"
    "map_outcome ?g out = bridged_outcome False outs og out" for out
    by (cases out; simp add: bridged_outcome_def)+
  with snoc body show ?thesis by (cases v) simp_all
qed

section \<open>Definite assignment\<close>

text \<open>The events that assign a variable, and the jumps.\<close>

definition assigns_or_jumps :: "string \<Rightarrow> event \<Rightarrow> bool" where
  "assigns_or_jumps name e = (case e of Ran s \<Rightarrow> stmt_definitely_assigns_var name s | Jumped \<Rightarrow> True | _ \<Rightarrow> False)"

definition jumps :: "outcome \<Rightarrow> bool" where
  "jumps out = (case out of OBreak \<Rightarrow> True | OContinue \<Rightarrow> True | OContinueLabel _ \<Rightarrow> True | _ \<Rightarrow> False)"

lemma jumps_simps [simp]: "\<not> jumps ONormal" "\<not> jumps OThrow" "\<not> jumps (OReturn v)" "jumps OBreak" "jumps OContinue" "jumps (OContinueLabel l)"
  by (simp_all add: jumps_def)

lemma after_break_cases: "after_break out = out \<or> out = OBreak \<and> after_break out = ONormal"
  by (simp add: after_break_def)

text \<open>An execution that ends in a jump has jumped.\<close>

lemma jumped:
  "run_stmt s p out \<Longrightarrow> jumps out \<longrightarrow> Jumped \<in> set p"
  "run_block b p out \<Longrightarrow> jumps out \<longrightarrow> Jumped \<in> set p"
  "run_for c n b p out \<Longrightarrow> jumps out \<longrightarrow> Jumped \<in> set p"
  "run_each name b p out \<Longrightarrow> jumps out \<longrightarrow> Jumped \<in> set p"
  "run_arm cs b p out \<Longrightarrow> jumps out \<longrightarrow> Jumped \<in> set p"
  by (induction rule: run_stmt_run_block_run_for_run_each_run_arm.inducts) (auto simp: after_break_def split: if_splits)

lemma jumped_path:
  "run_stmt s p out \<Longrightarrow> jumps out \<Longrightarrow> list_ex (assigns_or_jumps x) p"
  "run_block b p out \<Longrightarrow> jumps out \<Longrightarrow> list_ex (assigns_or_jumps x) p"
  "run_for c n b p out \<Longrightarrow> jumps out \<Longrightarrow> list_ex (assigns_or_jumps x) p"
  "run_each name b p out \<Longrightarrow> jumps out \<Longrightarrow> list_ex (assigns_or_jumps x) p"
  "run_arm cs b p out \<Longrightarrow> jumps out \<Longrightarrow> list_ex (assigns_or_jumps x) p"
  by (auto simp: list_ex_iff assigns_or_jumps_def dest!: jumped intro!: bexI [of _ Jumped])

lemma list_ex_id_map: "list_ex id (map f xs) = list_ex f xs"
  by (induction xs) auto

lemma definitely_assigns_simps [simp]:
  "stmt_definitely_assigns_var x (SIf c a b og) \<longleftrightarrow>
    b \<noteq> [] \<and> list_ex (stmt_definitely_assigns_var x) a \<and> list_ex (stmt_definitely_assigns_var x) b"
  "stmt_definitely_assigns_var x (SDoWhile b c og) \<longleftrightarrow> list_ex (stmt_definitely_assigns_var x) b"
  "stmt_definitely_assigns_var x (STryFinally b f og) \<longleftrightarrow>
    list_ex (stmt_definitely_assigns_var x) f \<or> list_ex (stmt_definitely_assigns_var x) b"
  "stmt_definitely_assigns_var x (STryCatch b t name d og) \<longleftrightarrow>
    list_ex (stmt_definitely_assigns_var x) b \<and> list_ex (stmt_definitely_assigns_var x) d"
  "stmt_definitely_assigns_var x (SSwitch e cs (Some d) og) \<longleftrightarrow> cs \<noteq> [] \<and>
    list_all (\<lambda>c. list_ex (stmt_definitely_assigns_var x) (sc_body c)) cs \<and> list_ex (stmt_definitely_assigns_var x) d"
  "\<not> stmt_definitely_assigns_var x (SSwitch e cs None og)"
  "\<not> stmt_definitely_assigns_var x (SWhile c b og)" "\<not> stmt_definitely_assigns_var x (SFor i c' n b og)"
  "\<not> stmt_definitely_assigns_var x (SForEach name t fin wb it b og)"
  "\<not> stmt_definitely_assigns_var x (SBreak og)" "\<not> stmt_definitely_assigns_var x (SContinue og)"
  "\<not> stmt_definitely_assigns_var x (SContinueLabel l og)"
  by (simp_all add: stmt_definitely_assigns_var.simps list_ex_id_map list_all_iff split: switch_case.split)
    (metis switch_case.collapse switch_case.sel(2))

lemma assigned_path:
  "run_stmt s p out \<Longrightarrow> stmt_definitely_assigns_var x s \<longrightarrow> out = ONormal \<longrightarrow> list_ex (assigns_or_jumps x) p"
  "run_block b p out \<Longrightarrow> list_ex (stmt_definitely_assigns_var x) b \<longrightarrow> out = ONormal \<longrightarrow> list_ex (assigns_or_jumps x) p"
  "run_for c n b p out \<Longrightarrow> True" "run_each name b p out \<Longrightarrow> True"
  "run_arm cs b p out \<Longrightarrow> list_all (\<lambda>c. list_ex (stmt_definitely_assigns_var x) (sc_body c)) cs \<longrightarrow>
     list_ex (stmt_definitely_assigns_var x) b \<longrightarrow> out = ONormal \<longrightarrow> list_ex (assigns_or_jumps x) p"
proof (induction rule: run_stmt_run_block_run_for_run_each_run_arm.inducts)
  case (simple_runs s)
  then show ?case by (simp add: assigns_or_jumps_def)
next
  case (do_exit b p out0 c og)
  then show ?case using jumped_path(2) [OF do_exit(1)] by (auto simp: again_def)
next
  case (do_again b p out0 c og q out)
  then show ?case using jumped_path(2) [OF do_again(1)] by (auto simp: again_def)
next
  case (do_leave b p out c og)
  then show ?case using jumped_path(2) [OF do_leave(1)] by (auto simp: after_break_def)
next
  case (switch_case c cs p out e d og)
  then show ?case using jumped_path(5) [OF switch_case(2)] by (cases d) (auto simp: after_break_def list_all_iff)
next
  case (switch_default cs d p out e og)
  then show ?case using jumped_path(5) [OF switch_default(1)] by (auto simp: after_break_def)
next
  case (arm_jumps b p l c cs q out)
  then show ?case by (auto simp: list_all_iff)
qed (auto split: if_splits)

lemma out_param_types:
  assumes "out_param_tuple_values indices params og = Some outs"
  shows "map expr_ty outs = map Some (map (\<lambda>i. p_ty (params ! i)) indices)"
  using assms unfolding out_param_tuple_values_def
  by (induction indices arbitrary: outs) (auto split: if_splits option.splits)

lemma retyped_name: "retype_out_param pointee i (Some params) = Some params' \<Longrightarrow> map p_name params' = map p_name params"
  by (auto simp: retype_out_param_def set_param_ty_def map_update list_update_same_conv split: option.splits if_splits)

lemma retype_none: "fold (retype_out_param pointee) indices None \<noteq> Some x"
  by (induction indices) (auto simp: retype_out_param_def split: option.splits)

lemma retyped_names:
  "fold (retype_out_param pointee) indices (Some params) = Some params' \<Longrightarrow> map p_name params' = map p_name params"
proof (induction indices arbitrary: params)
  case (Cons i indices)
  then show ?case
    using retyped_name [of pointee i params] by (cases "retype_out_param pointee i (Some params)") (auto simp: retype_none)
qed simp

section \<open>Properties\<close>

text \<open>
  C33. A bridged function returns its out-parameters. Its executions are those of the body it had, event for event;
  where the body returned, it returns the tuple of that value and the out-parameters, where a void body
  ended it returns the tuple of the out-parameters, and jumps and exceptions stay. The return type is the
  tuple of the types of what is returned, and the parameters keep their number and names.
\<close>

theorem bridge_returns_out_params:
  assumes "apply_out_param_bridge indices all_pointer pointee (params, rt, body) og = Some (params', rt', body')"
    and "indices \<noteq> []" and "rt = TVoid \<or> all_pointer"
  shows "\<exists>outs. out_param_tuple_values indices params' og = Some outs \<and>
    map p_name params' = map p_name params \<and>
    (\<exists>ts. map expr_ty outs = map Some ts \<and> rt' = TTuple ((if rt = TVoid then [] else [rt]) @ ts)) \<and>
    (\<forall>p out'. run_block body' p out' \<longleftrightarrow> (\<exists>out. run_block body p out \<and> out' = bridged_outcome (rt = TVoid) outs og out))"
proof -
  obtain outs where fold: "fold (retype_out_param pointee) indices (Some params) = Some params'"
    and outs: "out_param_tuple_values indices params' og = Some outs"
    and rt': "rt' = TTuple ((if rt = TVoid then [] else [rt]) @ map (\<lambda>i. p_ty (params' ! i)) indices)"
    and body': "body' = map (replace_return_with_out_param_tuple outs og) body @ (if rt = TVoid then [SReturn (Some (ETuple outs og)) og] else [])"
    using assms by (auto simp: apply_out_param_bridge_def Let_def split: option.splits if_splits)
  show ?thesis
    using outs retyped_names [OF fold] out_param_types [OF outs] bridged_body [OF outs, where v = "rt = TVoid"] rt' body'
    by (intro exI [of _ outs] conjI) auto
qed

definition sample_status :: "param list \<times> ty \<times> stmt list" where
  "sample_status =
     ([Param ''x'' (TUnsupported ''int *'') None, Param ''ok'' TBool None], TBool,
      [SIf (ERef ''ok'' TBool sample_origin) [SAssign ''x'' (EIntLiteral 1 sample_origin) sample_origin] [] sample_origin,
       SReturn (Some (ERef ''ok'' TBool sample_origin)) sample_origin])"

definition sample_outs :: "expr list" where "sample_outs = [ERef ''x'' TInt sample_origin]"

lemma sample_bridge:
  "apply_out_param_bridge [0] True (\<lambda>i. if i = 0 then Some TInt else None) sample_status sample_origin =
    Some ([Param ''x'' TInt None, Param ''ok'' TBool None], TTuple [TBool, TInt],
      map (replace_return_with_out_param_tuple sample_outs sample_origin) (snd (snd sample_status)))"
  by (simp add: apply_out_param_bridge_def sample_status_def retype_out_param_def set_param_ty_def out_param_tuple_values_def
      sample_outs_def)

text \<open>The status is the first component and the out-parameter the second.\<close>

theorem bridge_returns_out_params_witness:
  "\<exists>outs. out_param_tuple_values [0] [Param ''x'' TInt None, Param ''ok'' TBool None] sample_origin = Some outs \<and>
    run_block (map (replace_return_with_out_param_tuple sample_outs sample_origin) (snd (snd sample_status)))
      [Tested (ERef ''ok'' TBool sample_origin)] (OReturn (Some (ETuple (ERef ''ok'' TBool sample_origin # outs) sample_origin)))"
proof -
  have bridge: "apply_out_param_bridge [0] True (\<lambda>i. if i = 0 then Some TInt else None)
      (fst sample_status, fst (snd sample_status), snd (snd sample_status)) sample_origin =
    Some ([Param ''x'' TInt None, Param ''ok'' TBool None], TTuple [TBool, TInt],
      map (replace_return_with_out_param_tuple sample_outs sample_origin) (snd (snd sample_status)))"
    using sample_bridge by simp
  obtain outs where outs: "out_param_tuple_values [0] [Param ''x'' TInt None, Param ''ok'' TBool None] sample_origin = Some outs"
    and paths: "\<And>p out'. run_block (map (replace_return_with_out_param_tuple sample_outs sample_origin) (snd (snd sample_status))) p out' \<longleftrightarrow>
      (\<exists>out. run_block (snd (snd sample_status)) p out \<and> out' = bridged_outcome False outs sample_origin out)"
    using bridge_returns_out_params [OF bridge] by (auto simp: sample_status_def)
  let ?ok = "ERef ''ok'' TBool sample_origin"
  have "run_block (snd (snd sample_status)) ([Tested ?ok] @ []) (OReturn (Some ?ok))"
    unfolding sample_status_def snd_conv
    by (intro block_cons if_else block_nil block_leave return_value) simp
  then have "run_block (map (replace_return_with_out_param_tuple sample_outs sample_origin) (snd (snd sample_status))) [Tested ?ok]
      (OReturn (Some (ETuple (?ok # outs) sample_origin)))"
    unfolding paths by (intro exI [of _ "OReturn (Some ?ok)"]) (simp add: bridged_outcome_def with_outs_def)
  with outs show ?thesis by blast
qed

text \<open>
  C35. What is cut after a terminator is dead: a block and the block cut after its first unconditional jump have the
  same executions.
\<close>

theorem truncation_keeps_paths:
  "run_block (truncate_after_case_terminator b) p out \<longleftrightarrow> run_block b p out"
proof (induction b arbitrary: p out)
  case (Cons s b)
  then show ?case by (cases "is_case_terminator s") (simp_all add: terminator_leaves same_rest [OF Cons.IH])
qed simp

text \<open>
  A block that definitely assigns a variable assigns it, on every execution that completes normally, unless
  the execution jumps first: some event on its path is an assignment of the variable or a jump.
\<close>

theorem definitely_assigned_or_jumped:
  assumes "block_definitely_assigns_var b x" and "run_block b p ONormal"
  shows "list_ex (assigns_or_jumps x) p"
  using assigned_path(2) [OF assms(2), of x] assms(1) by (simp add: block_definitely_assigns_var_def)

definition sample_set :: "string \<Rightarrow> stmt" where
  "sample_set x = SAssign x (EIntLiteral 1 sample_origin) sample_origin"

definition sample_test :: expr where "sample_test = ERef ''c'' TBool sample_origin"

theorem definitely_assigned_or_jumped_witness:
  "list_ex (assigns_or_jumps ''x'') [Tested sample_test, Threw, Bound ''e'', Ran (sample_set ''x'')]"
proof -
  let ?b = "[STryCatch [SIf sample_test [SExprStmt sample_test sample_origin] [] sample_origin, sample_set ''x''] TObject ''e''
      [sample_set ''x''] sample_origin]"
  let ?body = "[SIf sample_test [SExprStmt sample_test sample_origin] [] sample_origin, sample_set ''x'']"
  have "run_block [SExprStmt sample_test sample_origin] [Threw] OThrow"
    by (rule block_leave [OF simple_throws]) simp_all
  from block_leave [OF if_then [OF this]] have thrown: "run_block ?body [Tested sample_test, Threw] OThrow" by simp
  have "run_block [sample_set ''x''] ([Ran (sample_set ''x'')] @ []) ONormal"
    by (rule block_cons [OF simple_runs block_nil]) (simp add: sample_set_def)
  from block_cons [OF try_catches [OF thrown this] block_nil]
  have "run_block ?b [Tested sample_test, Threw, Bound ''e'', Ran (sample_set ''x'')] ONormal" by simp
  moreover have "block_definitely_assigns_var ?b ''x''"
    by (simp add: block_definitely_assigns_var_def sample_set_def stmt_definitely_assigns_var.simps)
  ultimately show ?thesis by (intro definitely_assigned_or_jumped)
qed

text \<open>
  Without the jump it is not so: this loop is taken to assign the variable, and one of its executions leaves it
  unassigned.
\<close>

theorem break_before_assignment:
  "let b = [SDoWhile [SIf sample_test [SBreak sample_origin] [] sample_origin, sample_set ''x''] sample_test sample_origin]
   in block_definitely_assigns_var b ''x'' \<and> run_block b [Tested sample_test, Jumped] ONormal"
proof -
  let ?body = "[SIf sample_test [SBreak sample_origin] [] sample_origin, sample_set ''x'']"
  have "run_block ?body (Tested sample_test # [Jumped]) OBreak"
    by (intro block_leave if_then break_jumps) simp_all
  from do_leave [OF this, of sample_test sample_origin]
  have "run_stmt (SDoWhile ?body sample_test sample_origin) [Tested sample_test, Jumped] ONormal"
    by (simp add: again_def after_break_def)
  from block_cons [OF this block_nil]
  show ?thesis by (simp add: block_definitely_assigns_var_def sample_set_def stmt_definitely_assigns_var.simps)
qed

text \<open>The call whose result \<^verbatim>\<open>main\<close> returns is not made any more.\<close>

theorem exit_code_call_is_dropped:
  "snd (snd (apply_main_entry_point_signature
      ([], TInt, [SReturn (Some (ECall None None ''c:@F@run'' ''run'' [] TInt og)) og]) og)) = [SReturn None og]"
  by (simp add: apply_main_entry_point_signature_def strip_return_value.simps)

text \<open>A second parameter called as Dart's own is declared from itself.\<close>

theorem argv_called_args:
  "snd (snd (apply_main_entry_point_signature ([Param ''n'' TInt None, Param ''args'' args_type None], TInt, []) og)) =
    [SVarDecl ''n'' TInt (Some (EFieldAccess (ERef ''args'' args_type og) ''length'' TInt og)) og,
     SVarDecl ''args'' args_type (Some (ERef ''args'' args_type og)) og]"
  by (simp add: apply_main_entry_point_signature_def main_prologue_def)

end
