(* ===== verification/Lower_Locals.thy ===== *)
theory Lower_Locals
  imports Lower_Paths
begin

text \<open>
  The locals a bridged call reads, of \<open>Lower_Bodies\<close>, on the paths of \<open>Lower_Paths\<close>: where the scan after a
  declaration finds nothing, no execution reads the variable in a bridged call before something has
  assigned it; so after the pass a local without a value is not read there.
\<close>

section \<open>Reads on a path\<close>

text \<open>
  A bridged call that has the variable among its arguments and its results reads it; an assignment, another
  declaration of the name or a jump stops the search.
\<close>

definition reads :: "string \<Rightarrow> event \<Rightarrow> bool" where
  "reads x e = (case e of Ran (STupleAssign targets v _) \<Rightarrow> tuple_call_reads x v \<and> list_ex (is_ref_to x) targets | _ \<Rightarrow> False)"

definition stops :: "string \<Rightarrow> event \<Rightarrow> bool" where
  "stops x e =
     (case e of
        Ran s \<Rightarrow> stmt_definitely_assigns_var x s \<or> (case s of SVarDecl n _ _ _ \<Rightarrow> n = x | _ \<Rightarrow> False)
      | Jumped \<Rightarrow> True | _ \<Rightarrow> False)"

primrec unassigned_read :: "string \<Rightarrow> event list \<Rightarrow> bool" where
  "unassigned_read x [] = False"
| "unassigned_read x (e # p) = (reads x e \<or> \<not> stops x e \<and> unassigned_read x p)"

abbreviation stopped :: "string \<Rightarrow> event list \<Rightarrow> bool" where
  "stopped x \<equiv> list_ex (stops x)"

lemma unassigned_read_append [simp]:
  "unassigned_read x (p @ q) \<longleftrightarrow> unassigned_read x p \<or> \<not> stopped x p \<and> unassigned_read x q"
  by (induction p) auto

lemma path_simps [simp]:
  "\<not> reads x (Tested e)" "\<not> reads x (Bound n)" "\<not> reads x Jumped" "\<not> reads x Threw"
  "\<not> stops x (Tested e)" "\<not> stops x (Bound n)" "stops x Jumped" "\<not> stops x Threw"
  by (simp_all add: reads_def stops_def)

lemma tested_simps [simp]:
  "\<not> unassigned_read x (map Tested es)" "\<not> stopped x (map Tested es)"
  by (induction es) simp_all

lemma jumps_stopped:
  "run_stmt s p out \<Longrightarrow> jumps out \<Longrightarrow> stopped x p" "run_block b p out \<Longrightarrow> jumps out \<Longrightarrow> stopped x p"
  "run_arm cs b p out \<Longrightarrow> jumps out \<Longrightarrow> stopped x p"
  by (auto simp: list_ex_iff dest!: jumped intro!: bexI [of _ Jumped])

lemma again_jumps: "again out \<Longrightarrow> out = ONormal \<or> jumps out"
  by (auto simp: again_def)

section \<open>The scan\<close>

text \<open>
  The statements the scan is sound for: no \<^verbatim>\<open>finally\<close>, which C++ does not have and a later pass adds, and
  headers of \<^verbatim>\<open>for\<close> that are simple, where a bridged call is not the first part. The lowering makes others:
  \<^verbatim>\<open>lower_stmt\<close> lowers the first part of a \<^verbatim>\<open>for\<close> as any statement, so it can be a bridged call, which the scan
  does not look at (\<open>for_header_reads_unassigned\<close> below).
\<close>

definition header_part :: "stmt option \<Rightarrow> bool" where
  "header_part s = (case s of None \<Rightarrow> True | Some s \<Rightarrow> simple s)"

definition tuple_header :: "stmt option \<Rightarrow> bool" where
  "tuple_header s = (case s of Some (STupleAssign _ _ _) \<Rightarrow> True | _ \<Rightarrow> False)"

function scannable :: "stmt \<Rightarrow> bool" where
  "scannable s =
     (case s of
        SIf _ a b _ \<Rightarrow> list_all id (map scannable a) \<and> list_all id (map scannable b)
      | SWhile _ b _ \<Rightarrow> list_all id (map scannable b)
      | SDoWhile b _ _ \<Rightarrow> list_all id (map scannable b)
      | SFor i _ n b _ \<Rightarrow> header_part i \<and> header_part n \<and> \<not> tuple_header i \<and> list_all id (map scannable b)
      | SForEach _ _ _ _ _ b _ \<Rightarrow> list_all id (map scannable b)
      | STryCatch b _ _ c _ \<Rightarrow> list_all id (map scannable b) \<and> list_all id (map scannable c)
      | STryFinally _ _ _ \<Rightarrow> False
      | SSwitch _ cs d _ \<Rightarrow>
          list_all id (map (\<lambda>c. case c of SwitchCase _ b _ \<Rightarrow> list_all id (map scannable b)) cs) \<and>
          (case d of None \<Rightarrow> True | Some d \<Rightarrow> list_all id (map scannable d))
      | _ \<Rightarrow> True)"
  by pat_completeness auto
termination by lexicographic_order

declare scannable.simps [simp del]

lemma list_all_id_map: "list_all id (map f xs) = list_all f xs"
  by (induction xs) auto

lemma case_body: "(\<lambda>c. case c of SwitchCase _ b _ \<Rightarrow> list_all f b) = (\<lambda>c. list_all f (sc_body c))"
  by (rule ext) (simp split: switch_case.split)

lemma scannable_switch [simp]:
  "scannable (SSwitch e cs d og) \<longleftrightarrow> list_all (\<lambda>c. list_all scannable (sc_body c)) cs \<and>
     (case d of None \<Rightarrow> True | Some d \<Rightarrow> list_all scannable d)"
  by (subst scannable.simps) (simp add: case_body list_all_id_map cong: option.case_cong)

lemma scannable_simps [simp]:
  "scannable (SIf c a b og) \<longleftrightarrow> list_all scannable a \<and> list_all scannable b"
  "scannable (SWhile c b og) \<longleftrightarrow> list_all scannable b" "scannable (SDoWhile b c og) \<longleftrightarrow> list_all scannable b"
  "scannable (SFor i c' n b og) \<longleftrightarrow> header_part i \<and> header_part n \<and> \<not> tuple_header i \<and> list_all scannable b"
  "scannable (SForEach name t fin wb it b og) \<longleftrightarrow> list_all scannable b"
  "scannable (STryCatch b t name d og) \<longleftrightarrow> list_all scannable b \<and> list_all scannable d"
  "\<not> scannable (STryFinally b f og)"
  by (simp_all add: scannable.simps list_all_id_map)

lemma simple_scannable: "simple s \<Longrightarrow> scannable s"
  by (cases s) (simp_all add: scannable.simps)

lemma scan_cases_iff:
  "fst (scan_cases x a cs) \<longleftrightarrow> list_ex (\<lambda>c. fst (scan_for_unassigned_tuple_use x a (sc_body c))) cs"
  "\<not> fst (scan_cases x a cs) \<Longrightarrow> snd (scan_cases x a cs) \<longleftrightarrow> list_all (\<lambda>c. snd (scan_for_unassigned_tuple_use x a (sc_body c))) cs"
  by (induction cs) (auto simp: Let_def split: switch_case.splits prod.splits if_splits)

text \<open>
  What a scan that found nothing says of an execution. A scan ends at a jump or another declaration of the name.
\<close>

definition after_stmt :: "(bool \<times> bool) + bool \<Rightarrow> bool \<times> bool" where
  "after_stmt r = (case r of Inl (found, _) \<Rightarrow> (found, True) | Inr assigned \<Rightarrow> (False, assigned))"

definition clear :: "string \<Rightarrow> bool \<times> bool \<Rightarrow> event list \<Rightarrow> outcome \<Rightarrow> bool" where
  "clear x result p out \<longleftrightarrow> (\<not> fst result \<longrightarrow> \<not> unassigned_read x p \<and> (snd result \<longrightarrow> out = ONormal \<longrightarrow> stopped x p))"

abbreviation scan :: "string \<Rightarrow> stmt list \<Rightarrow> bool \<times> bool" where
  "scan x \<equiv> scan_for_unassigned_tuple_use x False"

abbreviation scan1 :: "string \<Rightarrow> stmt \<Rightarrow> bool \<times> bool" where
  "scan1 x s \<equiv> after_stmt (scan_stmt x False s)"

lemma simple_clear: "simple s \<Longrightarrow> clear x (scan1 x s) [Ran s] ONormal"
  by (cases s) (auto simp: scan_stmt.simps after_stmt_def clear_def reads_def stops_def stmt_definitely_assigns_var.simps)

lemma if_clear:
  "\<not> fst (scan1 x (SIf c a b og)) \<longleftrightarrow> \<not> fst (scan x a) \<and> \<not> fst (scan x b)"
  "\<not> fst (scan1 x (SIf c a b og)) \<Longrightarrow> snd (scan1 x (SIf c a b og)) \<longleftrightarrow> b \<noteq> [] \<and> snd (scan x a) \<and> snd (scan x b)"
  by (auto simp: scan_stmt.simps after_stmt_def split: prod.splits)

lemma loop_clear:
  "fst (scan1 x (SWhile c b og)) \<longleftrightarrow> fst (scan x b)" "\<not> fst (scan x b) \<Longrightarrow> \<not> snd (scan1 x (SWhile c b og))"
  "fst (scan1 x (SForEach name t fin wb it b og)) \<longleftrightarrow> fst (scan x b)"
  "\<not> fst (scan x b) \<Longrightarrow> \<not> snd (scan1 x (SForEach name t fin wb it b og))"
  "fst (scan1 x (SDoWhile b c og)) \<longleftrightarrow> fst (scan x b)" "\<not> fst (scan x b) \<Longrightarrow> snd (scan1 x (SDoWhile b c og)) \<longleftrightarrow> snd (scan x b)"
  by (auto simp: scan_stmt.simps after_stmt_def split: prod.splits)

lemma try_clear:
  "fst (scan1 x (STryCatch b t name d og)) \<longleftrightarrow> fst (scan x b) \<or> fst (scan x d)"
  "\<not> fst (scan1 x (STryCatch b t name d og)) \<Longrightarrow> snd (scan1 x (STryCatch b t name d og)) \<longleftrightarrow> snd (scan x b) \<and> snd (scan x d)"
  by (auto simp: scan_stmt.simps after_stmt_def split: prod.splits)

lemma switch_clear:
  "fst (scan1 x (SSwitch e cs None og)) \<longleftrightarrow> fst (scan_cases x False cs)"
  "\<not> fst (scan1 x (SSwitch e cs None og)) \<Longrightarrow> \<not> snd (scan1 x (SSwitch e cs None og))"
  "fst (scan1 x (SSwitch e cs (Some d) og)) \<longleftrightarrow> fst (scan_cases x False cs) \<or> fst (scan x d)"
  "\<not> fst (scan1 x (SSwitch e cs (Some d) og)) \<Longrightarrow>
    snd (scan1 x (SSwitch e cs (Some d) og)) \<longleftrightarrow> snd (scan_cases x False cs) \<and> snd (scan x d)"
  by (auto simp: scan_stmt.simps after_stmt_def split: prod.splits)

lemma block_clear: "scan x (s # r) = (case scan_stmt x False s of Inl result \<Rightarrow> result | Inr a \<Rightarrow> scan_for_unassigned_tuple_use x a r)"
  by simp

lemma return_clear: "scan_stmt x a (SReturn v og) = Inl (False, True)" "scan_stmt x a (SThrow e og) = Inl (False, True)"
  "scan_stmt x a (SBreak og) = Inr a" "scan_stmt x a (SContinue og) = Inr a" "scan_stmt x a (SContinueLabel l og) = Inr a"
  by (simp_all add: scan_stmt.simps)


definition init_assigns :: "string \<Rightarrow> stmt option \<Rightarrow> bool" where
  "init_assigns x i = (case i of None \<Rightarrow> False | Some i \<Rightarrow> stmt_definitely_assigns_var x i)"

lemma found_after: "(case r of Inl result \<Rightarrow> fst result | Inr _ \<Rightarrow> False) = fst (after_stmt r)"
  by (auto simp: after_stmt_def split: sum.split)

lemma scan_for:
  "scan_stmt x a (SFor i c n b og) =
    (if fst (scan_for_unassigned_tuple_use x (a \<or> init_assigns x i) b) \<or>
        (case n of None \<Rightarrow> False | Some n \<Rightarrow> fst (after_stmt (scan_stmt x (a \<or> init_assigns x i) n)))
     then Inl (True, a) else Inr (a \<or> init_assigns x i))"
  unfolding scan_stmt.simps [of x a "SFor i c n b og"] stmt.case found_after init_assigns_def [symmetric] Let_def
  by simp

lemma for_clear:
  assumes "\<not> fst (scan1 x (SFor i c n b og))"
  shows "snd (scan1 x (SFor i c n b og)) \<longleftrightarrow> init_assigns x i"
    and "\<not> init_assigns x i \<Longrightarrow> \<not> fst (scan x b) \<and> (case n of None \<Rightarrow> True | Some n \<Rightarrow> \<not> fst (scan1 x n))"
  using assms by (auto simp: scan_for after_stmt_def split: if_splits option.splits)

lemma init_clear:
  assumes "simple i" and "\<not> tuple_header (Some i)"
  shows "\<not> reads x (Ran i)" and "stmt_definitely_assigns_var x i \<Longrightarrow> stops x (Ran i)"
  unfolding stops_def
  using assms by (cases i; simp add: reads_def tuple_header_def)+


lemma header_ran: "run_stmt i p ONormal \<Longrightarrow> simple i \<Longrightarrow> p = [Ran i]"
  by (erule run_simple) auto

lemma header_ran': "run_stmt i p out \<Longrightarrow> out \<noteq> ONormal \<Longrightarrow> simple i \<Longrightarrow> p = [Threw]"
  by (erule run_simple) auto

text \<open>Where the scan finds nothing, no execution reads the variable too early.\<close>

lemma scan_sound:
  "run_stmt s p out \<Longrightarrow> scannable s \<longrightarrow> clear x (scan1 x s) p out"
  "run_block b p out \<Longrightarrow> list_all scannable b \<longrightarrow> clear x (scan x b) p out"
  "run_for c n b p out \<Longrightarrow> header_part n \<and> list_all scannable b \<and> \<not> fst (scan x b) \<and>
     (case n of None \<Rightarrow> True | Some n \<Rightarrow> \<not> fst (scan1 x n)) \<longrightarrow> \<not> unassigned_read x p"
  "run_each name b p out \<Longrightarrow> list_all scannable b \<and> \<not> fst (scan x b) \<longrightarrow> \<not> unassigned_read x p"
  "run_arm cs b p out \<Longrightarrow> list_all (\<lambda>c. list_all scannable (sc_body c)) cs \<and> list_all scannable b \<and>
     \<not> fst (scan_cases x False cs) \<and> \<not> fst (scan x b) \<longrightarrow>
     \<not> unassigned_read x p \<and> (snd (scan_cases x False cs) \<and> snd (scan x b) \<longrightarrow> out = ONormal \<longrightarrow> stopped x p)"
proof (induction rule: run_stmt_run_block_run_for_run_each_run_arm.inducts)
  case block_nil
  then show ?case by (simp add: clear_def)
next
  case (block_cons s p r q out)
  show ?case
  proof (cases "scan_stmt x False s")
    case (Inl result)
    then show ?thesis using block_cons.IH(1) by (cases result) (auto simp: clear_def after_stmt_def)
  next
    case (Inr assigned)
    then show ?thesis using block_cons.IH by (cases assigned) (auto simp: clear_def after_stmt_def)
  qed
next
  case (block_leave s p out r)
  then show ?case
    by (cases "scan_stmt x False s") (auto simp: clear_def after_stmt_def split: prod.splits)
next
  case (simple_runs s)
  then show ?case by (simp add: simple_clear)
next
  case (if_then a p out c b og)
  then show ?case by (auto simp: clear_def if_clear)
next
  case (if_else b p out c a og)
  then show ?case by (auto simp: clear_def if_clear)
next
  case (while_exit c b og)
  then show ?case by (auto simp: clear_def loop_clear)
next
  case (while_again b p out0 c og q out)
  then show ?case by (auto simp: clear_def loop_clear)
next
  case (while_leave b p out c og)
  then show ?case by (auto simp: clear_def loop_clear)
next
  case (do_throws b p out0 c og)
  then show ?case by (auto simp: clear_def loop_clear)
next
  case (do_exit b p out0 c og)
  then show ?case using jumps_stopped(2) [OF do_exit(1)] by (auto simp: clear_def loop_clear dest!: again_jumps)
next
  case (do_again b p out0 c og q out)
  then show ?case using jumps_stopped(2) [OF do_again(1)] by (auto simp: clear_def loop_clear dest!: again_jumps)
next
  case (do_leave b p out c og)
  then show ?case using jumps_stopped(2) [OF do_leave(1)] by (auto simp: clear_def loop_clear after_break_def)
next
  case (for_no_init c n b p out og)
  then show ?case using for_clear [of x None c n b og] by (auto simp: clear_def init_assigns_def)
next
  case (for_init i p c n b q out og)
  show ?case
  proof (intro impI)
    assume "scannable (SFor (Some i) c n b og)"
    then have header: "simple i" "\<not> tuple_header (Some i)" and rest: "header_part n" "list_all scannable b"
      by (simp_all add: header_part_def)
    moreover from header_ran [OF for_init(1)] header have "p = [Ran i]" by simp
    ultimately show "clear x (scan1 x (SFor (Some i) c n b og)) (p @ q) out"
      using for_clear [of x "Some i" c n b og] init_clear [OF header, of x] for_init.IH(2)
      unfolding clear_def init_assigns_def by auto
  qed
next
  case (for_init_leave i p out c n b og)
  then show ?case
    using header_ran' [OF for_init_leave(1)] by (auto simp: clear_def header_part_def)
next
  case (for_leave b p out c n)
  then show ?case by (auto simp: clear_def)
next
  case (for_again b p out0 n q c r out)
  then show ?case
    by (auto simp: clear_def header_part_def simple_scannable after_stmt_def split: option.splits sum.splits)
next
  case (for_step_leave b p out0 n q out c)
  then show ?case
    by (auto simp: clear_def header_part_def simple_scannable after_stmt_def split: option.splits sum.splits)
next
  case (each_starts name b p out t fin wb it og)
  then show ?case by (auto simp: clear_def loop_clear)
next
  case (each_again b p out0 name q out)
  then show ?case by (auto simp: clear_def)
next
  case (each_leave b p out name)
  then show ?case by (auto simp: clear_def)
next
  case (try_passes b p out t name c og)
  then show ?case by (auto simp: clear_def try_clear)
next
  case (try_catches b p c q out t name og)
  then show ?case by (auto simp: clear_def try_clear)
next
  case (finally_runs b p out0 f q out og)
  then show ?case by simp
next
  case (switch_case c cs p out e d og)
  then show ?case
    using jumps_stopped(3) [OF switch_case(2)]
    by (cases d) (auto simp: clear_def switch_clear after_break_def list_all_iff list_ex_iff scan_cases_iff)
next
  case (switch_default cs d p out e og)
  then show ?case using jumps_stopped(3) [OF switch_default(1)] by (auto simp: clear_def switch_clear after_break_def)
next
  case (switch_none e cs og)
  then show ?case by (auto simp: clear_def switch_clear)
next
  case (arm b p out cs)
  then show ?case by (auto simp: clear_def)
next
  case (arm_jumps b p l c cs q out)
  then show ?case
    using jumps_stopped(2) [OF arm_jumps(1)] by (auto simp: clear_def list_all_iff list_ex_iff scan_cases_iff)
qed (auto simp: clear_def return_clear after_stmt_def)


section \<open>The pass\<close>

text \<open>The scan does not see the initial values the pass adds, so it answers the same before and after it.\<close>

lemma declared_scan [simp]:
  "scan_stmt x a (neutralize_declaration r s) = scan_stmt x a s"
  "stmt_definitely_assigns_var x (neutralize_declaration r s) = stmt_definitely_assigns_var x s"
  by (cases s; auto simp: neutralize_declaration_def scan_stmt.simps stmt_definitely_assigns_var.simps split: option.split)+

lemma scan_cases_map:
  assumes "\<And>c a. c \<in> set cs \<Longrightarrow> scan_for_unassigned_tuple_use x a (f (sc_body c)) = scan_for_unassigned_tuple_use x a (sc_body c)"
  shows "scan_cases x a (map (\<lambda>c. case c of SwitchCase vs b l \<Rightarrow> SwitchCase vs (f b) l) cs) = scan_cases x a cs"
  using assms
proof (induction cs)
  case (Cons c cs)
  have "scan_for_unassigned_tuple_use x a (f (sc_body c)) = scan_for_unassigned_tuple_use x a (sc_body c)"
    by (rule Cons.prems) simp
  with Cons show ?case by (cases c) (simp add: case_prod_beta Let_def)
qed simp

lemma neutralized_nil [simp]: "neutralize_out_param_call_input_locals b = [] \<longleftrightarrow> b = []"
  by (cases b) simp_all

lemma neutralized_scan:
  "scan_for_unassigned_tuple_use x a (neutralize_out_param_call_input_locals b) = scan_for_unassigned_tuple_use x a b"
  "scan_stmt x a (recurse_neutralize_out_param_call_input_locals s) = scan_stmt x a s"
proof (induction b and s arbitrary: a and a rule: neutralize_out_param_call_input_locals_recurse_neutralize_out_param_call_input_locals.induct)
  case (2 s rest)
  then show ?case by (cases s) (simp_all split: sum.split)
next
  case (3 s)
  show ?case
  proof (cases s)
    case (SSwitch e cs d og)
    have arms: "scan_cases x a (map (\<lambda>c. case c of SwitchCase vs b l \<Rightarrow> SwitchCase vs (neutralize_out_param_call_input_locals b) l) cs) =
        scan_cases x a cs"
      by (rule scan_cases_map) (use SSwitch 3 in \<open>metis switch_case.collapse\<close>)
    have "d = Some d' \<Longrightarrow> scan_for_unassigned_tuple_use x a (neutralize_out_param_call_input_locals d') = scan_for_unassigned_tuple_use x a d'" for d'
      using SSwitch 3 by simp
    then show ?thesis
      unfolding SSwitch recurse_neutralize_out_param_call_input_locals.simps [of "SSwitch e cs d og"] stmt.case
        scan_stmt.simps [of x a "SSwitch e cs d og"] scan_stmt.simps [of x a "SSwitch e (map f cs) d' og" for f d'] arms
      by (cases d) (simp_all add: case_prod_beta Let_def)
  next
    case (SFor i c n b og)
    have "init_assigns x (map_option (neutralize_declaration b) i) = init_assigns x i"
      by (cases i) (simp_all add: init_assigns_def)
    moreover have "scan_for_unassigned_tuple_use x a (neutralize_out_param_call_input_locals b) = scan_for_unassigned_tuple_use x a b" for a
      using SFor 3 by simp
    ultimately show ?thesis
      unfolding SFor recurse_neutralize_out_param_call_input_locals.simps [of "SFor i c n b og"] stmt.case by (cases n) (simp_all add: scan_for)
  qed (use 3 in \<open>simp_all add: scan_stmt.simps recurse_neutralize_out_param_call_input_locals.simps case_prod_beta Let_def
      split: option.split\<close>)
qed simp

lemma no_declaration: "recurse_neutralize_out_param_call_input_locals s = SVarDecl x t v og \<Longrightarrow> s = SVarDecl x t v og"
  by (cases s) (simp_all add: recurse_neutralize_out_param_call_input_locals.simps)

lemma neutralized_at:
  "neutralize_out_param_call_input_locals b = xs @ SVarDecl x t None og # rest \<Longrightarrow> \<not> fst (scan x rest)"
proof (induction xs arbitrary: b)
  case Nil
  then obtain s r where b: "b = s # r" and rest: "rest = neutralize_out_param_call_input_locals r" by (cases b) auto
  have "\<not> fst (scan x r)"
    using Nil b by (cases s) (auto simp: neutralize_declaration_def dest: no_declaration split: if_splits option.splits)
  then show ?case by (simp add: rest neutralized_scan)
next
  case (Cons y xs)
  then show ?case by (cases b) auto
qed

text \<open>
  C34. After the pass, what a declaration of a block that has no value declares is assigned before a bridged call reads
  it: on no execution of the statements after it does a bridged call that takes the variable and returns it come
  before an assignment of the variable, another declaration of its name or a jump. The statements after it have
  no \<^verbatim>\<open>finally\<close>, and their \<^verbatim>\<open>for\<close> headers are simple and do not begin with a bridged call.
\<close>

theorem no_unassigned_read:
  assumes "neutralize_out_param_call_input_locals b = xs @ SVarDecl x t None og # rest" and "list_all scannable rest"
    and "run_block rest p out"
  shows "\<not> unassigned_read x p"
  using scan_sound(2) [OF assms(3), of x] neutralized_at [OF assms(1)] assms(2) by (simp add: clear_def)

definition sample_local :: "string \<Rightarrow> expr" where "sample_local x = ERef x TInt sample_origin"

definition sample_tuple_call :: "string \<Rightarrow> stmt" where
  "sample_tuple_call x = STupleAssign [sample_local x] (empty_call ''f'' [sample_local x] TInt sample_origin) sample_origin"

definition sample_locals :: "stmt list" where
  "sample_locals =
    [SVarDecl ''x'' TInt None sample_origin, SVarDecl ''y'' TInt None sample_origin,
     SIf sample_test [sample_set ''x''] [sample_set ''x''] sample_origin, sample_tuple_call ''x'', sample_tuple_call ''y'']"

lemmas sample_local_defs =
  sample_locals_def sample_tuple_call_def sample_local_def sample_set_def sample_test_def empty_call_def tuple_call_reads_def
  is_ref_to_def scan_stmt.simps neutralize_declaration_def recurse_neutralize_out_param_call_input_locals.simps
  default_scalar_value_def

lemma sample_neutralized:
  "neutralize_out_param_call_input_locals sample_locals =
    [] @ SVarDecl ''x'' TInt None sample_origin # SVarDecl ''y'' TInt (Some (EIntLiteral 0 sample_origin)) sample_origin #
      drop 2 sample_locals"
  by (simp add: sample_local_defs)

text \<open>The first local is assigned in both branches and stays without a value; the second gets one.\<close>

theorem no_unassigned_read_witness:
  "\<not> unassigned_read ''x'' [Ran (SVarDecl ''y'' TInt (Some (EIntLiteral 0 sample_origin)) sample_origin), Tested sample_test,
     Ran (sample_set ''x''), Ran (sample_tuple_call ''x''), Ran (sample_tuple_call ''y'')]"
proof -
  let ?rest = "SVarDecl ''y'' TInt (Some (EIntLiteral 0 sample_origin)) sample_origin # drop 2 sample_locals"
  have ran: "simple s \<Longrightarrow> run_block r q ONormal \<Longrightarrow> run_block (s # r) (Ran s # q) ONormal" for s r q
    using block_cons [OF simple_runs] by fastforce
  have branch: "run_block [sample_set ''x''] [Ran (sample_set ''x'')] ONormal"
    by (rule ran [OF _ block_nil]) (simp add: sample_set_def)
  have calls: "run_block [sample_tuple_call ''x'', sample_tuple_call ''y''] [Ran (sample_tuple_call ''x''), Ran (sample_tuple_call ''y'')] ONormal"
    by (intro ran block_nil) (simp_all add: sample_tuple_call_def)
  have "run_block (drop 2 sample_locals)
     ([Tested sample_test, Ran (sample_set ''x'')] @ [Ran (sample_tuple_call ''x''), Ran (sample_tuple_call ''y'')]) ONormal"
    unfolding sample_locals_def using block_cons [OF if_then [OF branch] calls] by simp
  from ran [OF _ this] have "run_block ?rest [Ran (SVarDecl ''y'' TInt (Some (EIntLiteral 0 sample_origin)) sample_origin),
      Tested sample_test, Ran (sample_set ''x''), Ran (sample_tuple_call ''x''), Ran (sample_tuple_call ''y'')] ONormal"
    by simp
  moreover have "list_all scannable ?rest" by (simp add: sample_local_defs simple_scannable)
  ultimately show ?thesis by (intro no_unassigned_read [OF sample_neutralized])
qed

text \<open>
  The scan does not look at the first part of a \<^verbatim>\<open>for\<close> for a call that reads, only for one that assigns. Of
  \<^verbatim>\<open>int x; for (f(x);;) break;\<close> with a bridged \<^verbatim>\<open>f\<close> the declaration stays without a value, and the call reads it.
\<close>

theorem for_header_reads_unassigned:
  "let b = [SVarDecl ''x'' TInt None sample_origin,
       SFor (Some (sample_tuple_call ''x'')) None None [SBreak sample_origin] sample_origin];
       p = [Ran (sample_tuple_call ''x''), Jumped]
   in neutralize_out_param_call_input_locals b = b \<and> run_block (tl b) p ONormal \<and> unassigned_read ''x'' p"
proof -
  have "run_block [SBreak sample_origin] [Jumped] OBreak" by (intro block_leave break_jumps) simp
  from for_leave [OF this, of None None]
  have loop: "run_for None None [SBreak sample_origin] [Jumped] ONormal" by (simp add: again_def after_break_def)
  have "run_stmt (sample_tuple_call ''x'') [Ran (sample_tuple_call ''x'')] ONormal"
    by (rule simple_runs) (simp add: sample_tuple_call_def)
  from block_cons [OF for_init [OF this loop] block_nil]
  have "run_block [SFor (Some (sample_tuple_call ''x'')) None None [SBreak sample_origin] sample_origin]
      [Ran (sample_tuple_call ''x''), Jumped] ONormal" by simp
  moreover have "unassigned_read ''x'' [Ran (sample_tuple_call ''x''), Jumped]"
    by (simp add: reads_def sample_local_defs)
  ultimately show ?thesis by (simp add: sample_local_defs)
qed

text \<open>
  A jump before the assignment is not seen: this local stays without a value, and one execution reads it in the
  call before anything has assigned it.
\<close>

theorem break_leaves_unassigned:
  "let loop = SDoWhile [SIf sample_test [SBreak sample_origin] [] sample_origin, sample_set ''x''] sample_test sample_origin;
       b = [SVarDecl ''x'' TInt None sample_origin, loop, sample_tuple_call ''x'']
   in neutralize_out_param_call_input_locals b = b \<and> run_block (tl b) [Tested sample_test, Jumped, Ran (sample_tuple_call ''x'')] ONormal"
proof -
  let ?body = "[SIf sample_test [SBreak sample_origin] [] sample_origin, sample_set ''x'']"
  have "run_block ?body (Tested sample_test # [Jumped]) OBreak"
    by (intro block_leave if_then break_jumps) simp_all
  from do_leave [OF this, of sample_test sample_origin]
  have loop: "run_stmt (SDoWhile ?body sample_test sample_origin) [Tested sample_test, Jumped] ONormal"
    by (simp add: again_def after_break_def)
  have "run_stmt (sample_tuple_call ''x'') [Ran (sample_tuple_call ''x'')] ONormal"
    by (rule simple_runs) (simp add: sample_tuple_call_def)
  from block_cons [OF loop block_cons [OF this block_nil]]
  show ?thesis by (simp add: sample_local_defs)
qed

end
