(* ===== verification/Sql_Tables.thy ===== *)
theory Sql_Tables
  imports Externals_Store
begin

text \<open>
  The statements of SQL the project's database is used with, over tables as lists of rows. A row has a value
  per column; rows stand in the order of their ids, which only grow, so \<^verbatim>\<open>ORDER BY id\<close> is that order. A
  statement that fails changes nothing. The state holds the files of a project: the database, the texts of
  SQLite's errors, the statements to fail by themselves (a full disk, a lock), and the disk of the
  externals file.
\<close>

section \<open>Tables\<close>

datatype sql_value = SqlNull | SqlInteger int | SqlText string

datatype sql_column = Column (col_name: string) (col_not_null: bool) (col_default: sql_value)

type_synonym sql_row = "(string \<times> sql_value) list"

record sql_table =
  t_columns :: "sql_column list"
  t_unique :: "string option"
  t_rows :: "sql_row list"

record sql_db =
  db_tables :: "string \<rightharpoonup> sql_table"
  db_user_version :: int

definition empty_db :: sql_db where
  "empty_db = \<lparr>db_tables = Map.empty, db_user_version = 0\<rparr>"

datatype sql_problem = NoSuchTable string | NoSuchColumn string | DuplicateColumn string | ConstraintFailed string | InvalidColumnType

definition column_names :: "sql_table \<Rightarrow> string list" where
  "column_names t = map col_name (t_columns t)"

definition value_at :: "sql_row \<Rightarrow> string \<Rightarrow> sql_value" where
  "value_at row c = (case map_of row c of Some v \<Rightarrow> v | None \<Rightarrow> SqlNull)"

text \<open>A new row: the values given, and the defaults of the other columns.\<close>

definition new_row :: "sql_table \<Rightarrow> string list \<Rightarrow> sql_value list \<Rightarrow> sql_row" where
  "new_row t cols vals =
     map (\<lambda>c. (col_name c, case map_of (zip cols vals) (col_name c) of Some v \<Rightarrow> v | None \<Rightarrow> col_default c)) (t_columns t)"

definition missing_column :: "sql_table \<Rightarrow> string list \<Rightarrow> string option" where
  "missing_column t cols = List.find (\<lambda>c. c \<notin> set (column_names t)) cols"

definition null_violation :: "sql_table \<Rightarrow> sql_row \<Rightarrow> string option" where
  "null_violation t row = map_option col_name (List.find (\<lambda>c. col_not_null c \<and> value_at row (col_name c) = SqlNull) (t_columns t))"

definition key_taken :: "sql_table \<Rightarrow> sql_row \<Rightarrow> bool" where
  "key_taken t row = (case t_unique t of None \<Rightarrow> False | Some k \<Rightarrow> list_ex (\<lambda>r. value_at r k = value_at row k) (t_rows t))"

section \<open>Statements\<close>

text \<open>What a statement does to the database: a problem, or a result and the database after it.\<close>

type_synonym 'a sql_statement = "sql_db \<Rightarrow> sql_problem + 'a \<times> sql_db"

definition put_table :: "string \<Rightarrow> sql_table \<Rightarrow> sql_db \<Rightarrow> sql_db" where
  "put_table name t db = db\<lparr>db_tables := (db_tables db)(name \<mapsto> t)\<rparr>"

definition on_table :: "string \<Rightarrow> (sql_table \<Rightarrow> sql_problem + 'a \<times> sql_table) \<Rightarrow> 'a sql_statement" where
  "on_table name f db =
     (case db_tables db name of
        None \<Rightarrow> Inl (NoSuchTable name)
      | Some t \<Rightarrow> (case f t of Inl p \<Rightarrow> Inl p | Inr (x, t') \<Rightarrow> Inr (x, put_table name t' db)))"

text \<open>\<^verbatim>\<open>CREATE TABLE IF NOT EXISTS\<close>, \<^verbatim>\<open>DROP TABLE IF EXISTS\<close>, \<^verbatim>\<open>ALTER TABLE ... ADD COLUMN\<close>.\<close>

definition create_table :: "string \<Rightarrow> sql_column list \<Rightarrow> string option \<Rightarrow> unit sql_statement" where
  "create_table name columns unique db =
     Inr ((), if db_tables db name = None then put_table name \<lparr>t_columns = columns, t_unique = unique, t_rows = []\<rparr> db else db)"

definition drop_table :: "string \<Rightarrow> unit sql_statement" where
  "drop_table name db = Inr ((), db\<lparr>db_tables := (db_tables db)(name := None)\<rparr>)"

definition add_column :: "string \<Rightarrow> sql_column \<Rightarrow> unit sql_statement" where
  "add_column name c = on_table name (\<lambda>t.
     if col_name c \<in> set (column_names t) then Inl (DuplicateColumn (col_name c))
     else Inr ((), t\<lparr>t_columns := t_columns t @ [c], t_rows := map (\<lambda>r. r @ [(col_name c, col_default c)]) (t_rows t)\<rparr>))"

text \<open>\<^verbatim>\<open>PRAGMA table_info\<close> and the count of tables of a name in \<^verbatim>\<open>sqlite_master\<close>.\<close>

definition table_info :: "string \<Rightarrow> (string list) sql_statement" where
  "table_info name db = Inr (case db_tables db name of None \<Rightarrow> [] | Some t \<Rightarrow> column_names t, db)"

definition count_tables :: "string \<Rightarrow> int sql_statement" where
  "count_tables name db = Inr (if db_tables db name = None then 0 else 1, db)"

definition delete_from :: "string \<Rightarrow> (sql_row \<Rightarrow> bool) \<Rightarrow> nat sql_statement" where
  "delete_from name p = on_table name (\<lambda>t. Inr (length (filter p (t_rows t)), t\<lparr>t_rows := filter (\<lambda>r. \<not> p r) (t_rows t)\<rparr>))"

definition insert_into :: "string \<Rightarrow> string list \<Rightarrow> sql_value list \<Rightarrow> unit sql_statement" where
  "insert_into name cols vals = on_table name (\<lambda>t.
     case missing_column t cols of
       Some c \<Rightarrow> Inl (NoSuchColumn c)
     | None \<Rightarrow>
         (let row = new_row t cols vals
          in case null_violation t row of
               Some c \<Rightarrow> Inl (ConstraintFailed c)
             | None \<Rightarrow>
                 if key_taken t row then Inl (ConstraintFailed (the (t_unique t)))
                 else Inr ((), t\<lparr>t_rows := t_rows t @ [row]\<rparr>)))"

text \<open>\<^verbatim>\<open>INSERT ... ON CONFLICT(key) DO UPDATE SET\<close>: the columns set in the row that has the key.\<close>

definition set_values :: "string list \<Rightarrow> sql_row \<Rightarrow> sql_row \<Rightarrow> sql_row" where
  "set_values cols excluded row = map (\<lambda>(c, v). (c, if c \<in> set cols then value_at excluded c else v)) row"

definition upsert_into :: "string \<Rightarrow> string list \<Rightarrow> sql_value list \<Rightarrow> string list \<Rightarrow> unit sql_statement" where
  "upsert_into name cols vals updated = on_table name (\<lambda>t.
     case missing_column t cols of
       Some c \<Rightarrow> Inl (NoSuchColumn c)
     | None \<Rightarrow>
         (let row = new_row t cols vals
          in case null_violation t row of
               Some c \<Rightarrow> Inl (ConstraintFailed c)
             | None \<Rightarrow>
                 if key_taken t row then
                   Inr ((), t\<lparr>t_rows := map (\<lambda>r. if value_at r (the (t_unique t)) = value_at row (the (t_unique t))
                     then set_values updated row r else r) (t_rows t)\<rparr>)
                 else Inr ((), t\<lparr>t_rows := t_rows t @ [row]\<rparr>)))"

text \<open>
  \<^verbatim>\<open>SELECT cols FROM name WHERE p ORDER BY ...\<close>: the order is a function on the rows that stand in the order of
  their ids. \<^verbatim>\<open>WHERE c = ?\<close> is false where the column is null.
\<close>

definition select_from :: "string list \<Rightarrow> string \<Rightarrow> (sql_row \<Rightarrow> bool) \<Rightarrow> (sql_row list \<Rightarrow> sql_row list) \<Rightarrow> (sql_value list list) sql_statement" where
  "select_from cols name p order = on_table name (\<lambda>t.
     case missing_column t cols of
       Some c \<Rightarrow> Inl (NoSuchColumn c)
     | None \<Rightarrow> Inr (map (\<lambda>r. map (value_at r) cols) (order (filter p (t_rows t))), t))"

definition where_text :: "string \<Rightarrow> string \<Rightarrow> sql_row \<Rightarrow> bool" where
  "where_text c value row \<longleftrightarrow> value_at row c = SqlText value"

text \<open>\<^verbatim>\<open>ORDER BY\<close> columns: null before integers before texts, which are compared by their bytes.\<close>

fun sql_less_eq :: "sql_value \<Rightarrow> sql_value \<Rightarrow> bool" where
  "sql_less_eq SqlNull _ = True"
| "sql_less_eq (SqlInteger i) SqlNull = False"
| "sql_less_eq (SqlInteger i) (SqlInteger j) = (i \<le> j)"
| "sql_less_eq (SqlInteger i) (SqlText s) = True"
| "sql_less_eq (SqlText s) (SqlText t) = (s \<le> t)"
| "sql_less_eq (SqlText s) _ = False"

fun row_less_eq :: "string list \<Rightarrow> sql_row \<Rightarrow> sql_row \<Rightarrow> bool" where
  "row_less_eq [] r q = True"
| "row_less_eq (c # cs) r q =
     (if value_at r c = value_at q c then row_less_eq cs r q else sql_less_eq (value_at r c) (value_at q c))"

primrec insert_row :: "(sql_row \<Rightarrow> sql_row \<Rightarrow> bool) \<Rightarrow> sql_row \<Rightarrow> sql_row list \<Rightarrow> sql_row list" where
  "insert_row le r [] = [r]"
| "insert_row le r (q # qs) = (if le r q then r # q # qs else q # insert_row le r qs)"

definition order_by :: "string list \<Rightarrow> sql_row list \<Rightarrow> sql_row list" where
  "order_by cols rows = foldr (insert_row (row_less_eq cols)) rows []"

text \<open>\<^verbatim>\<open>GROUP BY c\<close> with \<^verbatim>\<open>COUNT(*)\<close>, the groups in the order of their values.\<close>

definition count_groups :: "string \<Rightarrow> string \<Rightarrow> (sql_row \<Rightarrow> bool) \<Rightarrow> ((sql_value \<times> nat) list) sql_statement" where
  "count_groups c name p = on_table name (\<lambda>t.
     case missing_column t [c] of
       Some c \<Rightarrow> Inl (NoSuchColumn c)
     | None \<Rightarrow>
         (let rows = filter p (t_rows t); keys = remdups (map (\<lambda>r. value_at r c) (order_by [c] rows))
          in Inr (map (\<lambda>v. (v, length (filter (\<lambda>r. value_at r c = v) rows))) keys, t)))"

section \<open>Reading a row\<close>

datatype row_error = RowSql sql_problem | RowJson string

type_synonym 'a from_column = "sql_value \<Rightarrow> row_error + 'a"

definition get_text :: "string from_column" where
  "get_text v = (case v of SqlText s \<Rightarrow> Inr s | _ \<Rightarrow> Inl (RowSql InvalidColumnType))"

definition get_text_option :: "string option from_column" where
  "get_text_option v = (case v of SqlText s \<Rightarrow> Inr (Some s) | SqlNull \<Rightarrow> Inr None | _ \<Rightarrow> Inl (RowSql InvalidColumnType))"

definition get_u32 :: "u32 from_column" where
  "get_u32 v = (case v of SqlInteger i \<Rightarrow> if 0 \<le> i \<and> i < 2 ^ 32 then Inr (word_of_int i) else Inl (RowSql InvalidColumnType)
     | _ \<Rightarrow> Inl (RowSql InvalidColumnType))"

definition get_i64 :: "i64 from_column" where
  "get_i64 v = (case v of SqlInteger i \<Rightarrow> Inr (word_of_int i) | _ \<Rightarrow> Inl (RowSql InvalidColumnType))"

definition get_bool :: "bool from_column" where
  "get_bool v = (case v of SqlInteger i \<Rightarrow> Inr (i \<noteq> 0) | _ \<Rightarrow> Inl (RowSql InvalidColumnType))"

definition get_bool_option :: "bool option from_column" where
  "get_bool_option v =
     (case v of SqlInteger i \<Rightarrow> Inr (Some (i \<noteq> 0)) | SqlNull \<Rightarrow> Inr None | _ \<Rightarrow> Inl (RowSql InvalidColumnType))"

definition sql_u32 :: "u32 \<Rightarrow> sql_value" where "sql_u32 n = SqlInteger (uint n)"

definition sql_bool :: "bool \<Rightarrow> sql_value" where "sql_bool b = SqlInteger (if b then 1 else 0)"

definition sql_text_option :: "string option \<Rightarrow> sql_value" where
  "sql_text_option s = (case s of None \<Rightarrow> SqlNull | Some s \<Rightarrow> SqlText s)"

definition sql_bool_option :: "bool option \<Rightarrow> sql_value" where
  "sql_bool_option b = (case b of None \<Rightarrow> SqlNull | Some b \<Rightarrow> sql_bool b)"

lemma get_values [simp]:
  "get_text (SqlText s) = Inr s" "get_text_option (sql_text_option t) = Inr t" "get_u32 (sql_u32 n) = Inr n"
  "get_bool (sql_bool b) = Inr b" "get_bool_option (sql_bool_option c) = Inr c"
  using uint_lt2p [of n]
  by (simp_all add: get_text_def get_text_option_def sql_text_option_def get_u32_def sql_u32_def get_bool_def sql_bool_def
      get_bool_option_def sql_bool_option_def split: option.split)

text \<open>Rust's \<^verbatim>\<open>?\<close> outside a state, and the loop that collects the rows, in which a row may be skipped.\<close>

definition and_then :: "'e + 'a \<Rightarrow> ('a \<Rightarrow> 'e + 'b) \<Rightarrow> 'e + 'b" where
  "and_then r k = (case r of Inl e \<Rightarrow> Inl e | Inr x \<Rightarrow> k x)"

lemma and_then_simps [simp]: "and_then (Inr x) k = k x" "and_then (Inl e) k = Inl e"
  by (simp_all add: and_then_def)

primrec collect_rows :: "('r \<Rightarrow> row_error + 'a option) \<Rightarrow> 'r list \<Rightarrow> row_error + 'a list" where
  "collect_rows f [] = Inr []"
| "collect_rows f (r # rs) =
     and_then (f r) (\<lambda>x. and_then (collect_rows f rs) (\<lambda>xs. Inr (case x of None \<Rightarrow> xs | Some x \<Rightarrow> x # xs)))"

lemma collect_rows_map: "(\<And>x. x \<in> set xs \<Longrightarrow> f (g x) = Inr (Some x)) \<Longrightarrow> collect_rows f (map g xs) = Inr xs"
  by (induction xs) auto

section \<open>The files of a project\<close>

record project_files =
  project_db :: "sql_db option"
  sql_faults :: "string option list"
  sql_texts :: "sql_problem \<Rightarrow> string"
  externals_disk :: disk

type_synonym 'a project_op = "(project_files, persistence_error + 'a) state"

definition database :: "project_files \<Rightarrow> sql_db" where
  "database s = (case project_db s of None \<Rightarrow> empty_db | Some db \<Rightarrow> db)"

text \<open>A call of the engine fails by itself, or its statement decides.\<close>

definition sql_call :: "'a sql_statement \<Rightarrow> 'a project_op" where
  "sql_call statement = State_Monad.State (\<lambda>s.
     let s' = s\<lparr>sql_faults := tl (sql_faults s)\<rparr>
     in case (if sql_faults s = [] then None else hd (sql_faults s)) of
          Some e \<Rightarrow> (Inl (Sqlite e), s')
        | None \<Rightarrow>
            (case statement (database s) of
               Inl p \<Rightarrow> (Inl (Sqlite (sql_texts s p)), s')
             | Inr (x, db) \<Rightarrow> (Inr x, s'\<lparr>project_db := Some db\<rparr>)))"

definition no_statement :: "unit sql_statement" where
  "no_statement db = Inr ((), db)"

text \<open>A statement is prepared, which finds missing tables and columns, before it is executed.\<close>

definition prepare :: "string \<Rightarrow> string list \<Rightarrow> unit project_op" where
  "prepare name cols = sql_call (\<lambda>db. map_sum (\<lambda>p. p) (\<lambda>_. ((), db)) (select_from cols name (\<lambda>_. False) (\<lambda>rows. rows) db))"

definition read_row :: "row_error + 'a \<Rightarrow> 'a project_op" where
  "read_row r = State_Monad.State (\<lambda>s. (case r of
      Inl (RowSql p) \<Rightarrow> Inl (Sqlite (sql_texts s p)) | Inl (RowJson e) \<Rightarrow> Inl (PersistenceJson e) | Inr x \<Rightarrow> Inr x, s))"

definition query_rows ::
  "string \<Rightarrow> string list \<Rightarrow> (sql_row \<Rightarrow> bool) \<Rightarrow> (sql_row list \<Rightarrow> sql_row list) \<Rightarrow> (sql_value list \<Rightarrow> row_error + 'a option) \<Rightarrow> ('a list) project_op" where
  "query_rows name cols p order from_row =
     or_return (prepare name cols) (\<lambda>_. or_return (sql_call (select_from cols name p order)) (\<lambda>rows.
       read_row (collect_rows from_row rows)))"

primrec for_each :: "('a \<Rightarrow> (unit) project_op) \<Rightarrow> 'a list \<Rightarrow> unit project_op" where
  "for_each f [] = done_with ()"
| "for_each f (x # xs) = or_return (f x) (\<lambda>_. for_each f xs)"

text \<open>
  A transaction that is not committed is rolled back when it is dropped: on an error of its body, and on an
  error of the commit.
\<close>

definition roll_back :: "project_files \<Rightarrow> persistence_error \<Rightarrow> unit project_op" where
  "roll_back old e = State_Monad.State (\<lambda>s. (Inl e, s\<lparr>project_db := project_db old\<rparr>))"

definition transaction :: "unit project_op \<Rightarrow> unit project_op" where
  "transaction body = do {
     old \<leftarrow> State_Monad.get;
     or_return (sql_call no_statement) (\<lambda>_. do {
       r \<leftarrow> body;
       case r of
         Inl e \<Rightarrow> roll_back old e
       | Inr _ \<Rightarrow> do { c \<leftarrow> sql_call no_statement; case c of Inl e \<Rightarrow> roll_back old e | Inr _ \<Rightarrow> done_with () } }) }"

definition in_externals :: "'a store_op \<Rightarrow> 'a project_op" where
  "in_externals m = State_Monad.State (\<lambda>s. let (r, d) = run_state m (externals_disk s) in (r, s\<lparr>externals_disk := d\<rparr>))"

end
