(* ===== verification/Project_Store.thy ===== *)
theory Project_Store
  imports Sql_Tables Project_Extraction
begin

text \<open>
  The database of a project, \<^verbatim>\<open>crates/server/src/persistence/project_store.rs\<close>: its tables, the migrations of
  the databases of older versions, the operations that replace the catalogs and those that list them.
  JSON is a parameter: what \<^verbatim>\<open>serde_json\<close> writes for a value, or its error, and what it reads back.
\<close>

section \<open>JSON\<close>

record serde =
  strings_to_json :: "string list \<Rightarrow> string + string"
  strings_from_json :: "string \<Rightarrow> string + string list"
  function_to_json :: "ir_function \<Rightarrow> string + string"
  function_from_json :: "string \<Rightarrow> string + ir_function"
  record_to_json :: "ir_record \<Rightarrow> string + string"
  record_from_json :: "string \<Rightarrow> string + ir_record"
  enum_to_json :: "ir_enum \<Rightarrow> string + string"
  enum_from_json :: "string \<Rightarrow> string + ir_enum"

section \<open>The tables\<close>

definition text_column :: "string \<Rightarrow> sql_column" where "text_column c = Column c True SqlNull"
definition text_default :: "string \<Rightarrow> string \<Rightarrow> sql_column" where "text_default c v = Column c True (SqlText v)"
definition text_nullable :: "string \<Rightarrow> sql_column" where "text_nullable c = Column c False SqlNull"
definition integer_column :: "string \<Rightarrow> sql_column" where "integer_column c = Column c True SqlNull"
definition integer_default :: "string \<Rightarrow> int \<Rightarrow> sql_column" where "integer_default c v = Column c True (SqlInteger v)"
definition integer_nullable :: "string \<Rightarrow> sql_column" where "integer_nullable c = Column c False SqlNull"

definition SCHEMA :: "(string \<times> sql_column list \<times> string option) list" where
  "SCHEMA =
    [(''compilation_units'',
       [text_column ''directory'', text_column ''file'', text_nullable ''command'', text_column ''arguments_json''], None),
     (''type_declarations'',
       [text_column ''name'', text_column ''kind'', text_column ''namespace'', text_column ''file'',
        integer_column ''line'', integer_column ''column'', integer_column ''end_line'', integer_column ''end_column'',
        text_default ''usr'' ''''], None),
     (''type_dependencies'',
       [text_column ''caller_name'', text_column ''caller_kind'', text_column ''caller_namespace'', text_column ''caller_file'',
        integer_column ''caller_line'', integer_column ''caller_column'', integer_column ''caller_end_line'',
        integer_column ''caller_end_column'', text_default ''caller_usr'' '''',
        text_column ''callee_name'', text_column ''callee_kind'', text_column ''callee_namespace'', text_column ''callee_file'',
        integer_column ''callee_line'', integer_column ''callee_column'', integer_column ''callee_end_line'',
        integer_column ''callee_end_column'', text_default ''callee_usr'' ''''], None),
     (''source_files'', [text_column ''path'', text_column ''kind''], None),
     (''type_usages'',
       [text_column ''type_usr'', text_column ''kind'', text_column ''file'', integer_column ''line'', integer_column ''column''], None),
     (''function_declarations'',
       [text_column ''name'', text_column ''kind'', text_column ''namespace'', text_nullable ''owning_class_usr'',
        text_column ''signature'', text_column ''file'', integer_column ''line'', integer_column ''column'',
        integer_column ''end_line'', integer_column ''end_column'', text_default ''usr'' '''',
        integer_default ''is_static'' 0, integer_column ''is_virtual'', integer_default ''is_pure_virtual'' 0,
        integer_default ''is_defaulted'' 0, text_default ''overridden_usrs_json'' ''[]'', integer_default ''has_definition'' 1], None),
     (''call_edges'',
       [text_column ''caller_usr'', text_nullable ''callee_usr'', integer_nullable ''is_dynamic_dispatch'',
        text_nullable ''unresolved_reason'', text_column ''file'', integer_column ''line'', integer_column ''column''], None),
     (''type_mappings'',
       [text_nullable ''type_usr'', text_column ''option_id'', text_column ''decided_at''], Some ''type_usr''),
     (''ir_functions'', [text_nullable ''usr'', text_column ''data''], Some ''usr''),
     (''ir_records'', [text_nullable ''usr'', text_column ''data''], Some ''usr''),
     (''ir_enums'', [text_nullable ''usr'', text_column ''data''], Some ''usr''),
     (''pointer_declarations'',
       [text_column ''kind'', text_column ''shape'', text_column ''name'', text_column ''pointee_type_name'',
        text_default ''pointee_usr'' '''', text_column ''file'', integer_column ''line'', integer_column ''column'',
        text_default ''usr'' ''''], None)]"

definition SCHEMA_VERSION :: int where "SCHEMA_VERSION = 2"

section \<open>Migrations\<close>

definition table_has_column :: "string \<Rightarrow> string \<Rightarrow> bool project_op" where
  "table_has_column t c = or_return (sql_call (table_info t)) (\<lambda>names. done_with (c \<in> set names))"

definition ensure_column :: "string \<Rightarrow> sql_column \<Rightarrow> unit project_op" where
  "ensure_column t c =
     or_return (table_has_column t (col_name c)) (\<lambda>there. if there then done_with () else sql_call (add_column t c))"

definition type_migrations :: "(string \<times> sql_column) list" where
  "type_migrations =
     map (Pair ''type_declarations'')
       [text_default ''namespace'' '''', integer_default ''end_line'' 0, integer_default ''end_column'' 0, text_default ''usr'' ''''] @
     concat (map (\<lambda>side. map (Pair ''type_dependencies'')
       [text_default (side @ ''_namespace'') '''', integer_default (side @ ''_end_line'') 0,
        integer_default (side @ ''_end_column'') 0, text_default (side @ ''_usr'') '''']) [''caller'', ''callee''])"

definition migrate_type_columns :: "unit project_op" where
  "migrate_type_columns = for_each (\<lambda>(t, c). ensure_column t c) type_migrations"

definition function_migrations :: "(string \<times> sql_column) list" where
  "function_migrations = map (Pair ''function_declarations'')
     [text_default ''overridden_usrs_json'' ''[]'', integer_default ''is_pure_virtual'' 0, integer_default ''is_defaulted'' 0,
      integer_default ''is_static'' 0, integer_default ''has_definition'' 1]"

definition migrate_function_columns :: "unit project_op" where
  "migrate_function_columns = for_each (\<lambda>(t, c). ensure_column t c) function_migrations"

definition table_exists :: "string \<Rightarrow> bool project_op" where
  "table_exists name = or_return (sql_call (count_tables name)) (\<lambda>count. done_with (0 < count))"

definition query_if_exists ::
  "string \<Rightarrow> string list \<Rightarrow> (sql_value list \<Rightarrow> row_error + 'a option) \<Rightarrow> ('a list) project_op" where
  "query_if_exists name cols from_row = or_return (table_exists name) (\<lambda>there.
     if there then query_rows name cols (\<lambda>_. True) (\<lambda>rows. rows) from_row else done_with [])"

definition mark_from_row :: "sql_value list \<Rightarrow> row_error + external_mark option" where
  "mark_from_row r =
     and_then (get_text (r ! 0)) (\<lambda>usr. and_then (get_bool (r ! 1)) (\<lambda>external. and_then (get_text (r ! 2)) (\<lambda>decided_at.
       Inr (Some \<lparr>xm_usr = usr, xm_external = external, xm_decided_at = decided_at\<rparr>))))"

definition name_regex_from_row :: "sql_value list \<Rightarrow> row_error + name_regex_rule option" where
  "name_regex_from_row r =
     and_then (get_i64 (r ! 0)) (\<lambda>i. and_then (get_text (r ! 1)) (\<lambda>pattern. and_then (get_text (r ! 2)) (\<lambda>created_at.
       Inr (Some \<lparr>nr_id = i, nr_pattern = pattern, nr_created_at = created_at\<rparr>))))"

definition path_regex_from_row :: "sql_value list \<Rightarrow> row_error + path_regex_rule option" where
  "path_regex_from_row r =
     and_then (get_i64 (r ! 0)) (\<lambda>i. and_then (get_text (r ! 1)) (\<lambda>pattern. and_then (get_text (r ! 2)) (\<lambda>created_at.
       Inr (Some \<lparr>pr_id = i, pr_pattern = pattern, pr_created_at = created_at\<rparr>))))"

definition migrate_externals_to_text_file :: "unit project_op" where
  "migrate_externals_to_text_file =
     or_return (query_if_exists ''external_marks'' [''usr'', ''external'', ''decided_at''] mark_from_row) (\<lambda>marks.
     or_return (query_if_exists ''external_name_regexes'' [''id'', ''pattern'', ''created_at''] name_regex_from_row) (\<lambda>name_regexes.
     or_return (query_if_exists ''external_path_regexes'' [''id'', ''pattern'', ''created_at''] path_regex_from_row) (\<lambda>path_regexes.
     or_return (in_externals (migrate_from_legacy marks name_regexes path_regexes)) (\<lambda>_.
       for_each (\<lambda>t. sql_call (drop_table t)) [''external_marks'', ''external_name_regexes'', ''external_path_regexes'']))))"

definition open_connection :: "unit project_op" where
  "open_connection = sql_call no_statement"

text \<open>
  The tables of the schema. Its three indexes are left out: they change no answer, and their columns are
  in every database of \<open>openable\<close>, where creating them cannot fail.
\<close>

definition create_tables :: "unit project_op" where
  "create_tables = for_each (\<lambda>(name, columns, unique). sql_call (create_table name columns unique)) SCHEMA"

definition get_version :: "int project_op" where
  "get_version = sql_call (\<lambda>db. Inr (db_user_version db, db))"

definition set_version :: "int \<Rightarrow> unit project_op" where
  "set_version v = sql_call (\<lambda>db. Inr ((), db\<lparr>db_user_version := v\<rparr>))"

text \<open>The two pragmas for the journal change nothing that is read back.\<close>

definition open_store :: "unit project_op" where
  "open_store =
     or_return (in_externals create_dir_all) (\<lambda>_.
     or_return open_connection (\<lambda>_.
     or_return (sql_call no_statement) (\<lambda>_.
     or_return (sql_call no_statement) (\<lambda>_.
     or_return create_tables (\<lambda>_.
     or_return get_version (\<lambda>current_version.
       if current_version < SCHEMA_VERSION then
         or_return migrate_type_columns (\<lambda>_.
         or_return migrate_function_columns (\<lambda>_.
         or_return (if current_version < 2 then migrate_externals_to_text_file else done_with ()) (\<lambda>_.
           set_version SCHEMA_VERSION)))
       else done_with ()))))))"

section \<open>Rows and what they hold\<close>

definition unit_columns :: "string list" where
  "unit_columns = [''directory'', ''file'', ''command'', ''arguments_json'']"

definition unit_row :: "serde \<Rightarrow> compilation_unit \<Rightarrow> string + sql_value list" where
  "unit_row J u = and_then (strings_to_json J (cu_arguments u)) (\<lambda>arguments_json.
     Inr [SqlText (cu_directory u), SqlText (cu_file u), sql_text_option (cu_command u), SqlText arguments_json])"

definition json_value :: "string + 'a \<Rightarrow> row_error + 'a" where
  "json_value r = (case r of Inl e \<Rightarrow> Inl (RowJson e) | Inr x \<Rightarrow> Inr x)"

definition unit_from_row :: "serde \<Rightarrow> sql_value list \<Rightarrow> row_error + compilation_unit option" where
  "unit_from_row J r =
     and_then (get_text (r ! 0)) (\<lambda>directory. and_then (get_text (r ! 1)) (\<lambda>f.
     and_then (get_text_option (r ! 2)) (\<lambda>command. and_then (get_text (r ! 3)) (\<lambda>arguments_json.
     and_then (json_value (strings_from_json J arguments_json)) (\<lambda>arguments.
       Inr (Some \<lparr>cu_directory = directory, cu_file = f, cu_command = command, cu_arguments = arguments\<rparr>))))))"

definition type_columns :: "string list" where
  "type_columns =
     [''name'', ''kind'', ''namespace'', ''file'', ''line'', ''column'', ''end_line'', ''end_column'', ''usr'']"

definition type_row :: "type_declaration \<Rightarrow> sql_value list" where
  "type_row d =
     [SqlText (td_name d), SqlText (tdk_as_str (td_kind d)), SqlText (td_namespace d), SqlText (td_file d),
      sql_u32 (td_line d), sql_u32 (td_column d), sql_u32 (td_end_line d), sql_u32 (td_end_column d), SqlText (td_usr d)]"

text \<open>The columns of a type: the declaration, or none where its kind is not one of today's.\<close>

definition type_from_values :: "sql_value list \<Rightarrow> row_error + type_declaration option" where
  "type_from_values r =
     and_then (get_text (r ! 0)) (\<lambda>name. and_then (get_text (r ! 1)) (\<lambda>kind. and_then (get_text (r ! 2)) (\<lambda>namespace.
     and_then (get_text (r ! 3)) (\<lambda>f. and_then (get_u32 (r ! 4)) (\<lambda>line. and_then (get_u32 (r ! 5)) (\<lambda>column.
     and_then (get_u32 (r ! 6)) (\<lambda>end_line. and_then (get_u32 (r ! 7)) (\<lambda>end_column. and_then (get_text (r ! 8)) (\<lambda>usr.
       Inr (map_option (\<lambda>k. \<lparr>td_name = name, td_kind = k, td_namespace = namespace, td_file = f, td_line = line,
         td_column = column, td_end_line = end_line, td_end_column = end_column, td_usr = usr\<rparr>) (tdk_parse kind)))))))))))"

definition dependency_columns :: "string list" where
  "dependency_columns = map (\<lambda>c. ''caller_'' @ c) type_columns @ map (\<lambda>c. ''callee_'' @ c) type_columns"

definition dependency_row :: "type_dependency \<Rightarrow> sql_value list" where
  "dependency_row d = type_row (dp_caller d) @ type_row (dp_callee d)"

text \<open>The code reads all eighteen columns before it looks at the kinds, as here: an error comes first.\<close>

definition dependency_from_row :: "sql_value list \<Rightarrow> row_error + type_dependency option" where
  "dependency_from_row r =
     and_then (type_from_values (take 9 r)) (\<lambda>caller. and_then (type_from_values (drop 9 r)) (\<lambda>callee.
       Inr (case (caller, callee) of (Some a, Some b) \<Rightarrow> Some \<lparr>dp_caller = a, dp_callee = b\<rparr> | _ \<Rightarrow> None)))"

definition pointer_columns :: "string list" where
  "pointer_columns = [''kind'', ''shape'', ''name'', ''pointee_type_name'', ''pointee_usr'', ''file'', ''line'', ''column'', ''usr'']"

definition pointer_row :: "pointer_declaration \<Rightarrow> sql_value list" where
  "pointer_row d =
     [SqlText (pdk_as_str (pd_kind d)), SqlText (psh_as_str (pd_shape d)), SqlText (pd_name d), SqlText (pd_pointee_type_name d),
      SqlText (pd_pointee_usr d), SqlText (pd_file d), sql_u32 (pd_line d), sql_u32 (pd_column d), SqlText (pd_usr d)]"

definition pointer_from_row :: "sql_value list \<Rightarrow> row_error + pointer_declaration option" where
  "pointer_from_row r =
     and_then (get_text (r ! 0)) (\<lambda>kind. and_then (get_text (r ! 1)) (\<lambda>shape. and_then (get_text (r ! 2)) (\<lambda>name.
     and_then (get_text (r ! 3)) (\<lambda>pointee_type_name. and_then (get_text (r ! 4)) (\<lambda>pointee_usr.
     and_then (get_text (r ! 5)) (\<lambda>f. and_then (get_u32 (r ! 6)) (\<lambda>line. and_then (get_u32 (r ! 7)) (\<lambda>column.
     and_then (get_text (r ! 8)) (\<lambda>usr.
       Inr (case (pdk_parse kind, psh_parse shape) of
           (Some k, Some sh) \<Rightarrow> Some \<lparr>pd_kind = k, pd_shape = sh, pd_name = name, pd_pointee_type_name = pointee_type_name,
             pd_pointee_usr = pointee_usr, pd_file = f, pd_line = line, pd_column = column, pd_usr = usr\<rparr>
         | _ \<Rightarrow> None))))))))))"

definition source_columns :: "string list" where "source_columns = [''path'', ''kind'']"

definition source_row :: "source_file \<Rightarrow> sql_value list" where
  "source_row f = [SqlText (sf_path f), SqlText (sfk_as_str (sf_kind f))]"

definition source_from_row :: "sql_value list \<Rightarrow> row_error + source_file option" where
  "source_from_row r =
     and_then (get_text (r ! 0)) (\<lambda>path. and_then (get_text (r ! 1)) (\<lambda>kind.
       Inr (map_option (\<lambda>k. \<lparr>sf_path = path, sf_kind = k\<rparr>) (sfk_parse kind))))"

definition usage_columns :: "string list" where "usage_columns = [''type_usr'', ''kind'', ''file'', ''line'', ''column'']"

definition usage_row :: "type_usage \<Rightarrow> sql_value list" where
  "usage_row u = [SqlText (tu_type_usr u), SqlText (tuk_as_str (tu_kind u)), SqlText (tu_file u), sql_u32 (tu_line u), sql_u32 (tu_column u)]"

definition usage_from_row :: "sql_value list \<Rightarrow> row_error + type_usage option" where
  "usage_from_row r =
     and_then (get_text (r ! 0)) (\<lambda>type_usr. and_then (get_text (r ! 1)) (\<lambda>kind. and_then (get_text (r ! 2)) (\<lambda>f.
     and_then (get_u32 (r ! 3)) (\<lambda>line. and_then (get_u32 (r ! 4)) (\<lambda>column.
       Inr (map_option (\<lambda>k. \<lparr>tu_type_usr = type_usr, tu_kind = k, tu_file = f, tu_line = line, tu_column = column\<rparr>)
         (tuk_parse kind)))))))"

definition function_columns :: "string list" where
  "function_columns =
     [''name'', ''kind'', ''namespace'', ''owning_class_usr'', ''signature'', ''file'', ''line'', ''column'',
      ''end_line'', ''end_column'', ''usr'', ''is_static'', ''is_virtual'', ''is_pure_virtual'', ''is_defaulted'',
      ''overridden_usrs_json'', ''has_definition'']"

definition function_row :: "serde \<Rightarrow> function_declaration \<Rightarrow> string + sql_value list" where
  "function_row J d = and_then (strings_to_json J (fd_overridden_usrs d)) (\<lambda>overridden_usrs_json.
     Inr [SqlText (fd_name d), SqlText (fdk_as_str (fd_kind d)), SqlText (fd_namespace d), sql_text_option (fd_owning_class_usr d),
      SqlText (fd_signature d), SqlText (fd_file d), sql_u32 (fd_line d), sql_u32 (fd_column d), sql_u32 (fd_end_line d),
      sql_u32 (fd_end_column d), SqlText (fd_usr d), sql_bool (fd_is_static d), sql_bool (fd_is_virtual d),
      sql_bool (fd_is_pure_virtual d), sql_bool (fd_is_defaulted d), SqlText overridden_usrs_json, sql_bool (fd_has_definition d)])"

definition function_from_row :: "serde \<Rightarrow> sql_value list \<Rightarrow> row_error + function_declaration option" where
  "function_from_row J r =
     and_then (get_text (r ! 0)) (\<lambda>name. and_then (get_text (r ! 1)) (\<lambda>kind. and_then (get_text (r ! 2)) (\<lambda>namespace.
     and_then (get_text_option (r ! 3)) (\<lambda>owning_class_usr. and_then (get_text (r ! 4)) (\<lambda>signature.
     and_then (get_text (r ! 5)) (\<lambda>f. and_then (get_u32 (r ! 6)) (\<lambda>line. and_then (get_u32 (r ! 7)) (\<lambda>column.
     and_then (get_u32 (r ! 8)) (\<lambda>end_line. and_then (get_u32 (r ! 9)) (\<lambda>end_column. and_then (get_text (r ! 10)) (\<lambda>usr.
     and_then (get_bool (r ! 11)) (\<lambda>is_static. and_then (get_bool (r ! 12)) (\<lambda>is_virtual.
     and_then (get_bool (r ! 13)) (\<lambda>is_pure_virtual. and_then (get_bool (r ! 14)) (\<lambda>is_defaulted.
     and_then (get_text (r ! 15)) (\<lambda>overridden_usrs_json. and_then (get_bool (r ! 16)) (\<lambda>has_definition.
       case fdk_parse kind of
         None \<Rightarrow> Inr None
       | Some k \<Rightarrow>
           and_then (json_value (strings_from_json J overridden_usrs_json)) (\<lambda>overridden_usrs.
             Inr (Some \<lparr>fd_name = name, fd_kind = k, fd_namespace = namespace, fd_owning_class_usr = owning_class_usr,
               fd_signature = signature, fd_file = f, fd_line = line, fd_column = column, fd_end_line = end_line,
               fd_end_column = end_column, fd_usr = usr, fd_is_static = is_static, fd_is_virtual = is_virtual,
               fd_is_pure_virtual = is_pure_virtual, fd_is_defaulted = is_defaulted, fd_overridden_usrs = overridden_usrs,
               fd_has_definition = has_definition\<rparr>)))))))))))))))))))"

definition call_columns :: "string list" where
  "call_columns =
     [''caller_usr'', ''callee_usr'', ''is_dynamic_dispatch'', ''unresolved_reason'', ''file'', ''line'', ''column'']"

definition call_row :: "call_edge \<Rightarrow> sql_value list" where
  "call_row c =
     (let (callee_usr, is_dynamic_dispatch, unresolved_reason) =
        (case ce_resolution c of Resolved callee_usr dynamic \<Rightarrow> (Some callee_usr, Some dynamic, None)
         | Unresolved reason \<Rightarrow> (None, None, Some reason))
      in [SqlText (ce_caller_usr c), sql_text_option callee_usr, sql_bool_option is_dynamic_dispatch,
          sql_text_option unresolved_reason, SqlText (ce_file c), sql_u32 (ce_line c), sql_u32 (ce_column c)])"

definition row_to_call_edge :: "sql_value list \<Rightarrow> row_error + call_edge option" where
  "row_to_call_edge r =
     and_then (get_text (r ! 0)) (\<lambda>caller_usr. and_then (get_text_option (r ! 1)) (\<lambda>callee_usr.
     and_then (get_bool_option (r ! 2)) (\<lambda>is_dynamic_dispatch. and_then (get_text_option (r ! 3)) (\<lambda>unresolved_reason.
     and_then (get_text (r ! 4)) (\<lambda>f. and_then (get_u32 (r ! 5)) (\<lambda>line. and_then (get_u32 (r ! 6)) (\<lambda>column.
       Inr (Some \<lparr>ce_caller_usr = caller_usr,
         ce_resolution = (case callee_usr of
             Some callee_usr \<Rightarrow> Resolved callee_usr (case is_dynamic_dispatch of Some b \<Rightarrow> b | None \<Rightarrow> False)
           | None \<Rightarrow> Unresolved (case unresolved_reason of Some reason \<Rightarrow> reason | None \<Rightarrow> [])),
         ce_file = f, ce_line = line, ce_column = column\<rparr>))))))))"

definition mapping_columns :: "string list" where "mapping_columns = [''type_usr'', ''option_id'', ''decided_at'']"

definition mapping_row :: "mapping_decision \<Rightarrow> sql_value list" where
  "mapping_row d = [SqlText (de_type_usr d), SqlText (de_option_id d), SqlText (de_decided_at d)]"

definition mapping_from_row :: "sql_value list \<Rightarrow> row_error + mapping_decision option" where
  "mapping_from_row r =
     and_then (get_text (r ! 0)) (\<lambda>type_usr. and_then (get_text (r ! 1)) (\<lambda>option_id. and_then (get_text (r ! 2)) (\<lambda>decided_at.
       Inr (Some \<lparr>de_type_usr = type_usr, de_option_id = option_id, de_decided_at = decided_at\<rparr>))))"

section \<open>Replacing the catalogs\<close>

text \<open>The loop every catalog is written with: all rows are deleted, then one is inserted per element.\<close>

definition replace_rows :: "string \<Rightarrow> string list \<Rightarrow> ('a \<Rightarrow> string + sql_value list) \<Rightarrow> 'a list \<Rightarrow> unit project_op" where
  "replace_rows name cols row_of xs =
     or_return (sql_call (delete_from name (\<lambda>_. True))) (\<lambda>_.
     or_return (prepare name cols) (\<lambda>_.
       for_each (\<lambda>x. case row_of x of
           Inl e \<Rightarrow> State_Monad.return (Inl (PersistenceJson e))
         | Inr vals \<Rightarrow> sql_call (insert_into name cols vals)) xs))"

definition replace_compilation_units_tx :: "serde \<Rightarrow> compilation_unit list \<Rightarrow> unit project_op" where
  "replace_compilation_units_tx J = replace_rows ''compilation_units'' unit_columns (unit_row J)"

text \<open>\<^verbatim>\<open>NOT IN\<close> is true over no rows at all, and unknown, which deletes nothing, where a null is compared.\<close>

definition prune_mappings :: "nat sql_statement" where
  "prune_mappings db =
     (case db_tables db ''type_declarations'' of
        None \<Rightarrow> Inl (NoSuchTable ''type_declarations'')
      | Some t \<Rightarrow>
          (case missing_column t [''usr''] of
             Some c \<Rightarrow> Inl (NoSuchColumn c)
           | None \<Rightarrow>
               (let usrs = map (\<lambda>r. value_at r ''usr'') (t_rows t)
                in delete_from ''type_mappings'' (\<lambda>r. usrs = [] \<or>
                     value_at r ''type_usr'' \<noteq> SqlNull \<and> SqlNull \<notin> set usrs \<and> value_at r ''type_usr'' \<notin> set usrs) db)))"

definition replace_type_declarations_tx :: "type_declaration list \<Rightarrow> unit project_op" where
  "replace_type_declarations_tx declarations =
     or_return (replace_rows ''type_declarations'' type_columns (\<lambda>d. Inr (type_row d)) declarations) (\<lambda>_.
     or_return (sql_call prune_mappings) (\<lambda>_. done_with ()))"

definition replace_pointer_declarations_tx :: "pointer_declaration list \<Rightarrow> unit project_op" where
  "replace_pointer_declarations_tx = replace_rows ''pointer_declarations'' pointer_columns (\<lambda>d. Inr (pointer_row d))"

definition replace_type_dependencies_tx :: "type_dependency list \<Rightarrow> unit project_op" where
  "replace_type_dependencies_tx = replace_rows ''type_dependencies'' dependency_columns (\<lambda>d. Inr (dependency_row d))"

definition replace_source_files_tx :: "source_file list \<Rightarrow> unit project_op" where
  "replace_source_files_tx = replace_rows ''source_files'' source_columns (\<lambda>f. Inr (source_row f))"

definition replace_type_usages_tx :: "type_usage list \<Rightarrow> unit project_op" where
  "replace_type_usages_tx = replace_rows ''type_usages'' usage_columns (\<lambda>u. Inr (usage_row u))"

definition replace_function_declarations_tx :: "serde \<Rightarrow> function_declaration list \<Rightarrow> unit project_op" where
  "replace_function_declarations_tx J = replace_rows ''function_declarations'' function_columns (function_row J)"

definition replace_call_edges_tx :: "call_edge list \<Rightarrow> unit project_op" where
  "replace_call_edges_tx = replace_rows ''call_edges'' call_columns (\<lambda>c. Inr (call_row c))"

text \<open>The representation: all texts are made before anything is deleted.\<close>

primrec serialize_ir_values :: "('a \<Rightarrow> string + string) \<Rightarrow> 'a list \<Rightarrow> string + string list" where
  "serialize_ir_values to_json [] = Inr []"
| "serialize_ir_values to_json (v # vs) =
     and_then (to_json v) (\<lambda>t. and_then (serialize_ir_values to_json vs) (\<lambda>ts. Inr (t # ts)))"

primrec deserialize_ir_values :: "(string \<Rightarrow> string + 'a) \<Rightarrow> string list \<Rightarrow> string + 'a list" where
  "deserialize_ir_values from_json [] = Inr []"
| "deserialize_ir_values from_json (t # ts) =
     and_then (from_json t) (\<lambda>v. and_then (deserialize_ir_values from_json ts) (\<lambda>vs. Inr (v # vs)))"

definition json_result :: "string + 'a \<Rightarrow> 'a project_op" where
  "json_result r = State_Monad.return (case r of Inl e \<Rightarrow> Inl (PersistenceJson e) | Inr x \<Rightarrow> Inr x)"

definition insert_ir :: "string \<Rightarrow> (string \<times> string) list \<Rightarrow> unit project_op" where
  "insert_ir name rows =
     or_return (prepare name [''usr'', ''data'']) (\<lambda>_.
       for_each (\<lambda>(usr, data). sql_call (insert_into name [''usr'', ''data''] [SqlText usr, SqlText data])) rows)"

definition replace_ir_tx :: "serde \<Rightarrow> ir_function list \<Rightarrow> ir_record list \<Rightarrow> ir_enum list \<Rightarrow> unit project_op" where
  "replace_ir_tx J functions records enums =
     or_return (json_result (serialize_ir_values (function_to_json J) functions)) (\<lambda>function_data.
     or_return (json_result (serialize_ir_values (record_to_json J) records)) (\<lambda>record_data.
     or_return (json_result (serialize_ir_values (enum_to_json J) enums)) (\<lambda>enum_data.
     or_return (sql_call (delete_from ''ir_functions'' (\<lambda>_. True))) (\<lambda>_.
     or_return (sql_call (delete_from ''ir_records'' (\<lambda>_. True))) (\<lambda>_.
     or_return (sql_call (delete_from ''ir_enums'' (\<lambda>_. True))) (\<lambda>_.
     or_return (insert_ir ''ir_functions'' (zip (map f_usr functions) function_data)) (\<lambda>_.
     or_return (insert_ir ''ir_records'' (zip (map r_usr records) record_data)) (\<lambda>_.
       insert_ir ''ir_enums'' (zip (map en_usr enums) enum_data)))))))))"

record project_catalogs =
  pc_compilation_units :: "compilation_unit list"
  pc_type_declarations :: "type_declaration list"
  pc_type_dependencies :: "type_dependency list"
  pc_type_usages :: "type_usage list"
  pc_source_files :: "source_file list"
  pc_function_declarations :: "function_declaration list"
  pc_call_edges :: "call_edge list"
  pc_ir_functions :: "ir_function list"
  pc_ir_records :: "ir_record list"
  pc_ir_enums :: "ir_enum list"
  pc_pointer_declarations :: "pointer_declaration list"

definition replace_compilation_units :: "serde \<Rightarrow> compilation_unit list \<Rightarrow> unit project_op" where
  "replace_compilation_units J units = transaction (replace_compilation_units_tx J units)"

definition replace_type_declarations :: "type_declaration list \<Rightarrow> unit project_op" where
  "replace_type_declarations declarations = transaction (replace_type_declarations_tx declarations)"

definition replace_pointer_declarations :: "pointer_declaration list \<Rightarrow> unit project_op" where
  "replace_pointer_declarations declarations = transaction (replace_pointer_declarations_tx declarations)"

definition replace_type_dependencies :: "type_dependency list \<Rightarrow> unit project_op" where
  "replace_type_dependencies dependencies = transaction (replace_type_dependencies_tx dependencies)"

definition replace_source_files :: "source_file list \<Rightarrow> unit project_op" where
  "replace_source_files files = transaction (replace_source_files_tx files)"

definition replace_type_usages :: "type_usage list \<Rightarrow> unit project_op" where
  "replace_type_usages usages = transaction (replace_type_usages_tx usages)"

definition replace_function_declarations :: "serde \<Rightarrow> function_declaration list \<Rightarrow> unit project_op" where
  "replace_function_declarations J declarations = transaction (replace_function_declarations_tx J declarations)"

definition replace_call_edges :: "call_edge list \<Rightarrow> unit project_op" where
  "replace_call_edges calls = transaction (replace_call_edges_tx calls)"

definition replace_ir :: "serde \<Rightarrow> ir_function list \<Rightarrow> ir_record list \<Rightarrow> ir_enum list \<Rightarrow> unit project_op" where
  "replace_ir J functions records enums = transaction (replace_ir_tx J functions records enums)"

definition replace_all :: "serde \<Rightarrow> project_catalogs \<Rightarrow> unit project_op" where
  "replace_all J c = transaction (
     or_return (replace_compilation_units_tx J (pc_compilation_units c)) (\<lambda>_.
     or_return (replace_type_declarations_tx (pc_type_declarations c)) (\<lambda>_.
     or_return (replace_type_dependencies_tx (pc_type_dependencies c)) (\<lambda>_.
     or_return (replace_type_usages_tx (pc_type_usages c)) (\<lambda>_.
     or_return (replace_source_files_tx (pc_source_files c)) (\<lambda>_.
     or_return (replace_function_declarations_tx J (pc_function_declarations c)) (\<lambda>_.
     or_return (replace_call_edges_tx (pc_call_edges c)) (\<lambda>_.
     or_return (replace_ir_tx J (pc_ir_functions c) (pc_ir_records c) (pc_ir_enums c)) (\<lambda>_.
       replace_pointer_declarations_tx (pc_pointer_declarations c))))))))))"

section \<open>Listing what is stored\<close>

definition by_id :: "sql_row list \<Rightarrow> sql_row list" where
  "by_id rows = rows"

definition all_rows :: "sql_row \<Rightarrow> bool" where
  "all_rows row = True"

definition list_compilation_units :: "serde \<Rightarrow> (compilation_unit list) project_op" where
  "list_compilation_units J = query_rows ''compilation_units'' unit_columns all_rows by_id (unit_from_row J)"

definition list_type_declarations :: "(type_declaration list) project_op" where
  "list_type_declarations = query_rows ''type_declarations'' type_columns all_rows by_id type_from_values"

definition list_pointer_declarations :: "(pointer_declaration list) project_op" where
  "list_pointer_declarations = query_rows ''pointer_declarations'' pointer_columns all_rows by_id pointer_from_row"

definition list_type_dependencies :: "(type_dependency list) project_op" where
  "list_type_dependencies = query_rows ''type_dependencies'' dependency_columns all_rows by_id dependency_from_row"

definition list_source_files :: "(source_file list) project_op" where
  "list_source_files = query_rows ''source_files'' source_columns all_rows by_id source_from_row"

definition list_type_usages :: "(type_usage list) project_op" where
  "list_type_usages = query_rows ''type_usages'' usage_columns all_rows by_id usage_from_row"

definition list_type_usages_for :: "string \<Rightarrow> (type_usage list) project_op" where
  "list_type_usages_for type_usr =
     query_rows ''type_usages'' usage_columns (where_text ''type_usr'' type_usr) (order_by [''file'', ''line'', ''column'']) usage_from_row"

text \<open>The counts: a group per value of the column that is a text.\<close>

primrec count_values :: "(sql_value \<times> nat) list \<Rightarrow> row_error + (string \<times> nat) list" where
  "count_values [] = Inr []"
| "count_values (g # gs) =
     and_then (get_text (fst g)) (\<lambda>k. and_then (count_values gs) (\<lambda>counts. Inr ((k, snd g) # counts)))"

definition query_counts :: "string \<Rightarrow> string \<Rightarrow> (sql_row \<Rightarrow> bool) \<Rightarrow> (string \<rightharpoonup> nat) project_op" where
  "query_counts c name p =
     or_return (prepare name [c]) (\<lambda>_. or_return (sql_call (count_groups c name p)) (\<lambda>groups.
     or_return (read_row (count_values groups)) (\<lambda>counts. done_with (map_of (rev counts)))))"

definition type_usage_counts :: "(string \<rightharpoonup> nat) project_op" where
  "type_usage_counts = query_counts ''type_usr'' ''type_usages'' all_rows"

definition list_function_declarations :: "serde \<Rightarrow> (function_declaration list) project_op" where
  "list_function_declarations J =
     query_rows ''function_declarations'' function_columns all_rows by_id (function_from_row J)"

definition list_call_edges :: "(call_edge list) project_op" where
  "list_call_edges = query_rows ''call_edges'' call_columns all_rows by_id row_to_call_edge"

definition list_callers_for :: "string \<Rightarrow> (call_edge list) project_op" where
  "list_callers_for callee_usr =
     query_rows ''call_edges'' call_columns (where_text ''callee_usr'' callee_usr) (order_by [''file'', ''line'', ''column'']) row_to_call_edge"

definition list_calls_in_file :: "string \<Rightarrow> (call_edge list) project_op" where
  "list_calls_in_file f =
     query_rows ''call_edges'' call_columns (where_text ''file'' f) (order_by [''line'', ''column'']) row_to_call_edge"

definition call_counts :: "(string \<rightharpoonup> nat) project_op" where
  "call_counts = query_counts ''callee_usr'' ''call_edges'' (\<lambda>row. value_at row ''callee_usr'' \<noteq> SqlNull)"

definition set_type_mapping :: "mapping_decision \<Rightarrow> unit project_op" where
  "set_type_mapping d =
     sql_call (upsert_into ''type_mappings'' mapping_columns (mapping_row d) [''option_id'', ''decided_at''])"

definition list_type_mappings :: "(mapping_decision list) project_op" where
  "list_type_mappings = query_rows ''type_mappings'' mapping_columns all_rows (order_by [''type_usr'']) mapping_from_row"

definition data_from_row :: "sql_value list \<Rightarrow> row_error + string option" where
  "data_from_row r = and_then (get_text (r ! 0)) (\<lambda>data. Inr (Some data))"

definition list_ir :: "serde \<Rightarrow> (ir_function list \<times> ir_record list \<times> ir_enum list) project_op" where
  "list_ir J =
     or_return (query_rows ''ir_functions'' [''data''] all_rows (order_by [''usr'']) data_from_row) (\<lambda>function_rows.
     or_return (query_rows ''ir_records'' [''data''] all_rows (order_by [''usr'']) data_from_row) (\<lambda>record_rows.
     or_return (query_rows ''ir_enums'' [''data''] all_rows (order_by [''usr'']) data_from_row) (\<lambda>enum_rows.
     or_return (json_result (deserialize_ir_values (function_from_json J) function_rows)) (\<lambda>functions.
     or_return (json_result (deserialize_ir_values (record_from_json J) record_rows)) (\<lambda>records.
     or_return (json_result (deserialize_ir_values (enum_from_json J) enum_rows)) (\<lambda>enums.
       done_with (functions, records, enums)))))))"

end
