(* ===== verification/Store_Laws.thy ===== *)
theory Store_Laws
  imports Project_Store
begin

text \<open>
  The laws of the statements and of the operations built from them: what an operation does to the database
  as a partial function, apart from the errors of the engine; that a transaction is all or nothing; and,
  as a locale over the tables whose rows are elements of a catalog, that what is written is what is listed.
\<close>

section \<open>Operations as partial functions on the database\<close>

text \<open>
  An operation implements a function when it does what the function says, and fails only where the function
  does or by an error of the engine or of the system.
\<close>

definition engine_error :: "project_files \<Rightarrow> persistence_error \<Rightarrow> bool" where
  "engine_error s e \<longleftrightarrow> (\<exists>f. Some f \<in> set (sql_faults s) \<and> e = Sqlite f) \<or>
     (\<exists>f. Some f \<in> set (faults (externals_disk s)) \<and> e = PersistenceIo (fault_text f))"

definition fewer_faults :: "project_files \<Rightarrow> project_files \<Rightarrow> bool" where
  "fewer_faults s s' \<longleftrightarrow> sql_texts s' = sql_texts s \<and> set (sql_faults s') \<subseteq> set (sql_faults s) \<and>
     set (faults (externals_disk s')) \<subseteq> set (faults (externals_disk s))"

lemma fewer_faults_refl [simp]: "fewer_faults s s" "fewer_faults s (t\<lparr>project_db := db\<rparr>) = fewer_faults s t"
  by (simp_all add: fewer_faults_def)

lemma fewer_faults_trans: "fewer_faults s t \<Longrightarrow> fewer_faults t u \<Longrightarrow> fewer_faults s u"
  by (auto simp: fewer_faults_def)

lemma fewer_errors: "fewer_faults s t \<Longrightarrow> engine_error t e \<Longrightarrow> engine_error s e"
  by (auto simp: fewer_faults_def engine_error_def)

definition implements :: "'a project_op \<Rightarrow> (sql_db \<Rightarrow> ('a \<times> sql_db) option) \<Rightarrow> bool" where
  "implements m g \<longleftrightarrow> (\<forall>s r s'. run_state m s = (r, s') \<longrightarrow>
     fewer_faults s s' \<and>
     (case r of Inl e \<Rightarrow> engine_error s e \<or> g (database s) = None | Inr x \<Rightarrow> g (database s) = Some (x, database s')))"

definition of_statement :: "'a sql_statement \<Rightarrow> sql_db \<Rightarrow> ('a \<times> sql_db) option" where
  "of_statement st db = (case st db of Inl _ \<Rightarrow> None | Inr r \<Rightarrow> Some r)"

definition after :: "(sql_db \<Rightarrow> ('a \<times> sql_db) option) \<Rightarrow> ('a \<Rightarrow> sql_db \<Rightarrow> ('b \<times> sql_db) option) \<Rightarrow> sql_db \<Rightarrow> ('b \<times> sql_db) option" where
  "after g h db = Option.bind (g db) (\<lambda>(x, d). h x d)"

definition yields :: "'a \<Rightarrow> sql_db \<Rightarrow> ('a \<times> sql_db) option" where
  "yields x db = Some (x, db)"

lemma after_yields [simp]: "after (yields x) h = h x"
  by (rule ext) (simp add: after_def yields_def)

lemma implementsD:
  assumes "implements m g" and "run_state m s = (r, s')"
  shows "fewer_faults s s'"
    and "r = Inl e \<Longrightarrow> engine_error s e \<or> g (database s) = None"
    and "r = Inr x \<Longrightarrow> g (database s) = Some (x, database s')"
  using assms unfolding implements_def by (fastforce split: sum.splits)+

lemma run_or_return:
  "run_state (or_return m k) s = (case run_state m s of (Inl e, s') \<Rightarrow> (Inl e, s') | (Inr x, s') \<Rightarrow> run_state (k x) s')"
  by (simp add: or_return_def run_state_return split: prod.split sum.split)

lemma run_done [simp]: "run_state (done_with x) s = (Inr x, s)"
  by (simp add: done_with_def run_state_return)

lemma implements_call [intro]: "implements (sql_call st) (of_statement st)"
  unfolding implements_def
proof (intro allI impI)
  fix s r s' assume "run_state (sql_call st) s = (r, s')"
  then show "fewer_faults s s' \<and>
     (case r of Inl e \<Rightarrow> engine_error s e \<or> of_statement st (database s) = None
      | Inr x \<Rightarrow> of_statement st (database s) = Some (x, database s'))"
    by (cases "sql_faults s"; cases "hd (sql_faults s)"; cases "st (database s)")
      (auto simp: sql_call_def engine_error_def fewer_faults_def of_statement_def database_def Let_def)
qed

lemma implements_done [intro]: "implements (done_with x) (yields x)"
  by (simp add: implements_def yields_def)

lemma implements_bind [intro]:
  assumes "implements m g" and "\<And>x. implements (k x) (h x)"
  shows "implements (or_return m k) (after g h)"
  unfolding implements_def
proof (intro allI impI)
  fix s r s' assume run: "run_state (or_return m k) s = (r, s')"
  obtain q t where m: "run_state m s = (q, t)" by force
  note first = implementsD [OF assms(1) m]
  show "fewer_faults s s' \<and>
     (case r of Inl e \<Rightarrow> engine_error s e \<or> after g h (database s) = None | Inr x \<Rightarrow> after g h (database s) = Some (x, database s'))"
  proof (cases q)
    case (Inl e)
    then show ?thesis using run m first by (auto simp: run_or_return after_def)
  next
    case (Inr x)
    with run m have "run_state (k x) t = (r, s')" by (simp add: run_or_return)
    note second = implementsD [OF assms(2) this]
    show ?thesis using first second Inr by (cases r) (auto simp: after_def intro: fewer_faults_trans fewer_errors)
  qed
qed

primrec each :: "('a \<Rightarrow> sql_db \<Rightarrow> (unit \<times> sql_db) option) \<Rightarrow> 'a list \<Rightarrow> sql_db \<Rightarrow> (unit \<times> sql_db) option" where
  "each g [] = yields ()"
| "each g (x # xs) = after (g x) (\<lambda>_. each g xs)"

lemma implements_for_each [intro]: "(\<And>x. implements (f x) (g x)) \<Longrightarrow> implements (for_each f xs) (each g xs)"
  by (induction xs) auto

lemma implements_error: "implements (State_Monad.return (Inl e)) (\<lambda>_. None)"
  by (simp add: implements_def run_state_return)

lemma implements_result: "implements (json_result r) (\<lambda>db. case r of Inl _ \<Rightarrow> None | Inr x \<Rightarrow> Some (x, db))"
  by (simp add: implements_def json_result_def run_state_return split: sum.split)

lemma implements_read_row: "implements (read_row r) (\<lambda>db. case r of Inl _ \<Rightarrow> None | Inr x \<Rightarrow> Some (x, db))"
  by (simp add: implements_def read_row_def split: sum.split row_error.split)

text \<open>A transaction does what its body does, or nothing.\<close>

lemma run_call_no_statement:
  "run_state (sql_call no_statement) s = (r, s') \<Longrightarrow> database s' = database s \<and> (isl r \<longrightarrow> project_db s' = project_db s)"
  by (auto simp: sql_call_def no_statement_def database_def Let_def split: if_splits option.splits)

lemma run_transaction:
  "run_state (transaction body) s =
    (case run_state (sql_call no_statement) s of
       (Inl e, s1) \<Rightarrow> (Inl e, s1)
     | (Inr _, s1) \<Rightarrow>
         (case run_state body s1 of
            (Inl e, s2) \<Rightarrow> (Inl e, s2\<lparr>project_db := project_db s\<rparr>)
          | (Inr _, s2) \<Rightarrow>
              (case run_state (sql_call no_statement) s2 of
                 (Inl e, s3) \<Rightarrow> (Inl e, s3\<lparr>project_db := project_db s\<rparr>)
               | (Inr _, s3) \<Rightarrow> (Inr (), s3))))"
  by (simp add: transaction_def run_or_return roll_back_def State_Monad.get_def split: prod.split sum.split)

lemma transaction_atomic: "run_state (transaction body) s = (Inl e, s') \<Longrightarrow> project_db s' = project_db s"
  by (auto simp: run_transaction split: prod.splits sum.splits dest: run_call_no_statement)

lemma implements_transaction [intro]:
  assumes "implements body g"
  shows "implements (transaction body) g"
  unfolding implements_def
proof (intro allI impI)
  fix s r s' assume run: "run_state (transaction body) s = (r, s')"
  obtain q1 s1 where 1: "run_state (sql_call no_statement) s = (q1, s1)" by force
  obtain q2 s2 where 2: "run_state body s1 = (q2, s2)" by force
  obtain q3 s3 where 3: "run_state (sql_call no_statement) s2 = (q3, s3)" by force
  note begin' = implementsD [OF implements_call 1] run_call_no_statement [OF 1]
    and body' = implementsD [OF assms 2] and commit = implementsD [OF implements_call 3] run_call_no_statement [OF 3]
  show "fewer_faults s s' \<and>
     (case r of Inl e \<Rightarrow> engine_error s e \<or> g (database s) = None | Inr x \<Rightarrow> g (database s) = Some (x, database s'))"
  proof (cases q1)
    case (Inl e)
    then show ?thesis using run 1 begin' by (auto simp: run_transaction of_statement_def no_statement_def)
  next
    case begun: (Inr x)
    show ?thesis
    proof (cases q2)
      case (Inl e)
      then have "r = Inl e" "s' = s2\<lparr>project_db := project_db s\<rparr>" using run 1 2 begun by (simp_all add: run_transaction)
      then show ?thesis using begin' body' Inl by (auto intro: fewer_errors fewer_faults_trans)
    next
      case ran: (Inr y)
      show ?thesis
      proof (cases q3)
        case (Inl e)
        then have "r = Inl e" "s' = s3\<lparr>project_db := project_db s\<rparr>"
          using run 1 2 3 begun ran by (simp_all add: run_transaction)
        moreover have "engine_error s2 e" using commit(2) Inl by (simp add: of_statement_def no_statement_def)
        ultimately show ?thesis using begin'(1) body'(1) commit(1) by (auto intro: fewer_errors fewer_faults_trans)
      next
        case (Inr z)
        then have "r = Inr ()" "s' = s3" using run 1 2 3 begun ran by (simp_all add: run_transaction)
        then show ?thesis using begin' body' commit ran by (auto intro: fewer_faults_trans)
      qed
    qed
  qed
qed

section \<open>Tables\<close>

lemma put_table_simps [simp]:
  "db_tables (put_table n t db) = (db_tables db)(n \<mapsto> t)" "db_user_version (put_table n t db) = db_user_version db"
  by (simp_all add: put_table_def)

text \<open>A table a catalog can be written to: its columns are there, once, and the others can be left out.\<close>

definition writable :: "string list \<Rightarrow> sql_table \<Rightarrow> bool" where
  "writable cols t \<longleftrightarrow> distinct (column_names t) \<and> set cols \<subseteq> set (column_names t) \<and>
     (\<forall>c \<in> set (t_columns t). col_name c \<notin> set cols \<longrightarrow> \<not> (col_not_null c \<and> col_default c = SqlNull))"

lemma missing_column_None [simp]: "missing_column t cols = None \<longleftrightarrow> set cols \<subseteq> set (column_names t)"
  by (auto simp: missing_column_def find_None_iff)

lemma all_columns [simp]: "set cols \<subseteq> set (column_names t) \<Longrightarrow> missing_column t cols = None"
  by simp

lemma some_missing: "\<not> set cols \<subseteq> set (column_names t) \<Longrightarrow> \<exists>c. missing_column t cols = Some c"
  by (metis missing_column_None option.exhaust)

lemma value_at_map:
  "c \<in> set cs \<Longrightarrow> distinct (map col_name cs) \<Longrightarrow> value_at (map (\<lambda>c. (col_name c, f c)) cs) (col_name c) = f c"
proof (induction cs)
  case (Cons d cs)
  then show ?case by (cases "c = d") (auto simp: value_at_def rev_image_eqI)
qed simp

lemma new_row_value:
  assumes "distinct (column_names t)" and "c \<in> set (t_columns t)"
  shows "value_at (new_row t cols vals) (col_name c) =
    (case map_of (zip cols vals) (col_name c) of Some v \<Rightarrow> v | None \<Rightarrow> col_default c)"
  unfolding new_row_def using assms by (intro value_at_map) (simp_all add: column_names_def)

lemma new_row_values:
  assumes "distinct (column_names t)" and "set cols \<subseteq> set (column_names t)" and "distinct cols" and "length vals = length cols"
  shows "map (value_at (new_row t cols vals)) cols = vals"
proof (rule nth_equalityI)
  fix i assume i: "i < length (map (value_at (new_row t cols vals)) cols)"
  then have "cols ! i \<in> set (column_names t)" using assms(2) by (simp add: subset_iff)
  then obtain c where c: "c \<in> set (t_columns t)" "cols ! i = col_name c" by (auto simp: column_names_def)
  have "map_of (zip cols vals) (cols ! i) = Some (vals ! i)"
    using i assms(3,4) by (simp add: map_of_zip_nth)
  then show "map (value_at (new_row t cols vals)) cols ! i = vals ! i"
    using i c new_row_value [OF assms(1) c(1), of cols vals] by simp
qed (use assms in simp)

text \<open>What an insertion can fail on.\<close>

definition no_nulls :: "sql_table \<Rightarrow> string list \<Rightarrow> sql_value list \<Rightarrow> bool" where
  "no_nulls t cols vals \<longleftrightarrow> (\<forall>c \<in> set (t_columns t). \<forall>v. (col_name c, v) \<in> set (zip cols vals) \<longrightarrow> col_not_null c \<longrightarrow> v \<noteq> SqlNull)"

lemma null_violation_None:
  assumes "writable cols t" and "no_nulls t cols vals" and "length vals = length cols"
  shows "null_violation t (new_row t cols vals) = None"
proof -
  have "value_at (new_row t cols vals) (col_name c) \<noteq> SqlNull" if "c \<in> set (t_columns t)" "col_not_null c" for c
  proof (cases "map_of (zip cols vals) (col_name c)")
    case None
    then have "col_name c \<notin> set cols" using assms(3) by (simp add: map_of_zip_is_None)
    then show ?thesis using that assms(1) new_row_value [of t c cols vals] None by (auto simp: writable_def)
  next
    case (Some v)
    then show ?thesis using that assms(1,2) new_row_value [of t c cols vals] map_of_SomeD [OF Some]
      by (auto simp: writable_def no_nulls_def)
  qed
  then show ?thesis by (simp add: null_violation_def find_None_iff)
qed

lemma insert_writes:
  assumes "of_statement (insert_into name cols vals) db = Some (x, db')"
  shows "\<exists>t. db_tables db name = Some t \<and> set cols \<subseteq> set (column_names t) \<and> \<not> key_taken t (new_row t cols vals) \<and>
    db' = put_table name (t\<lparr>t_rows := t_rows t @ [new_row t cols vals]\<rparr>) db"
  using assms by (auto simp: of_statement_def insert_into_def on_table_def Let_def split: option.splits sum.splits if_splits)

lemma insert_succeeds:
  assumes "db_tables db name = Some t" and "writable cols t" and "no_nulls t cols vals" and "length vals = length cols"
    and "\<not> key_taken t (new_row t cols vals)"
  shows "of_statement (insert_into name cols vals) db =
    Some ((), put_table name (t\<lparr>t_rows := t_rows t @ [new_row t cols vals]\<rparr>) db)"
proof -
  have "set cols \<subseteq> set (column_names t)" using assms(2) by (simp add: writable_def)
  then show ?thesis
    using assms null_violation_None [OF assms(2-4)] by (simp add: of_statement_def insert_into_def on_table_def)
qed

lemma delete_all:
  "of_statement (delete_from name (\<lambda>_. True)) db =
    (case db_tables db name of None \<Rightarrow> None | Some t \<Rightarrow> Some (length (t_rows t), put_table name (t\<lparr>t_rows := []\<rparr>) db))"
  by (simp add: of_statement_def delete_from_def on_table_def split: option.split)

lemma put_same: "db_tables db name = Some t \<Longrightarrow> put_table name t db = db"
  by (cases db) (simp add: put_table_def map_upd_triv)

definition prepared :: "string \<Rightarrow> string list \<Rightarrow> sql_db \<Rightarrow> (unit \<times> sql_db) option" where
  "prepared name cols db =
     (case db_tables db name of None \<Rightarrow> None | Some t \<Rightarrow> if set cols \<subseteq> set (column_names t) then Some ((), db) else None)"

lemma implements_prepare [intro]: "implements (prepare name cols) (prepared name cols)"
proof -
  have "of_statement (\<lambda>db. map_sum (\<lambda>p. p) (\<lambda>_. ((), db)) (select_from cols name (\<lambda>_. False) (\<lambda>rows. rows) db)) = prepared name cols"
  proof (rule ext)
    fix db
    show "of_statement (\<lambda>db. map_sum (\<lambda>p. p) (\<lambda>_. ((), db)) (select_from cols name (\<lambda>_. False) (\<lambda>rows. rows) db)) db = prepared name cols db"
    proof (cases "db_tables db name")
      case (Some t)
      then show ?thesis using some_missing [of cols t]
        by (cases "set cols \<subseteq> set (column_names t)")
          (simp_all add: of_statement_def prepared_def select_from_def on_table_def split: option.split)
    qed (simp add: of_statement_def prepared_def select_from_def on_table_def)
  qed
  with implements_call show ?thesis unfolding prepare_def by (rule subst [rotated])
qed

lemma same_columns [simp]:
  "column_names (t\<lparr>t_rows := rs\<rparr>) = column_names t" "new_row (t\<lparr>t_rows := rs\<rparr>) = new_row t"
  "writable cols (t\<lparr>t_rows := rs\<rparr>) = writable cols t" "no_nulls (t\<lparr>t_rows := rs\<rparr>) cols vals = no_nulls t cols vals"
  by (simp_all add: column_names_def new_row_def writable_def no_nulls_def fun_eq_iff)

lemma put_put [simp]: "put_table n t' (put_table n t db) = put_table n t' db"
  by (simp add: put_table_def)

section \<open>Replacing and listing\<close>

definition inserts :: "string \<Rightarrow> string list \<Rightarrow> ('a \<Rightarrow> string + sql_value list) \<Rightarrow> 'a \<Rightarrow> sql_db \<Rightarrow> (unit \<times> sql_db) option" where
  "inserts name cols row_of x =
     (case row_of x of Inl e \<Rightarrow> (\<lambda>_. None) | Inr vals \<Rightarrow> of_statement (insert_into name cols vals))"

definition replaces :: "string \<Rightarrow> string list \<Rightarrow> ('a \<Rightarrow> string + sql_value list) \<Rightarrow> 'a list \<Rightarrow> sql_db \<Rightarrow> (unit \<times> sql_db) option" where
  "replaces name cols row_of xs =
     after (of_statement (delete_from name (\<lambda>_. True))) (\<lambda>_. after (prepared name cols) (\<lambda>_. each (inserts name cols row_of) xs))"

lemma implements_replace [intro]: "implements (replace_rows name cols row_of xs) (replaces name cols row_of xs)"
proof -
  have "implements (case row_of x of Inl e \<Rightarrow> State_Monad.return (Inl (PersistenceJson e))
      | Inr vals \<Rightarrow> sql_call (insert_into name cols vals)) (inserts name cols row_of x)" for x
    by (cases "row_of x") (simp_all add: inserts_def implements_error implements_call)
  then show ?thesis unfolding replace_rows_def replaces_def by blast
qed

lemma inserts_written:
  assumes "each (inserts name cols row_of) xs db = Some (u, db')" and "db_tables db name = Some t"
  shows "\<exists>vss. map row_of xs = map Inr vss \<and> db' = put_table name (t\<lparr>t_rows := t_rows t @ map (new_row t cols) vss\<rparr>) db"
  using assms
proof (induction xs arbitrary: db t)
  case Nil
  then show ?case by (simp add: yields_def put_same)
next
  case (Cons x xs)
  from Cons.prems(1) obtain d where x: "inserts name cols row_of x db = Some ((), d)"
    and xs: "each (inserts name cols row_of) xs d = Some (u, db')"
    by (auto simp: after_def bind_eq_Some_conv)
  from x obtain vals where vals: "row_of x = Inr vals" "of_statement (insert_into name cols vals) db = Some ((), d)"
    by (cases "row_of x") (auto simp: inserts_def)
  from insert_writes [OF vals(2)] Cons.prems(2)
  have d: "d = put_table name (t\<lparr>t_rows := t_rows t @ [new_row t cols vals]\<rparr>) db" by auto
  then have "db_tables d name = Some (t\<lparr>t_rows := t_rows t @ [new_row t cols vals]\<rparr>)" by simp
  from Cons.IH [OF xs this] obtain vss where "map row_of xs = map Inr vss"
    "db' = put_table name (t\<lparr>t_rows := (t_rows t @ [new_row t cols vals]) @ map (new_row t cols) vss\<rparr>) d"
    by auto
  then show ?case using vals(1) d by (intro exI [of _ "vals # vss"]) simp
qed

lemma replaced:
  assumes "replaces name cols row_of xs db = Some (u, db')"
  shows "\<exists>t vss. db_tables db name = Some t \<and> set cols \<subseteq> set (column_names t) \<and> map row_of xs = map Inr vss \<and>
    db' = put_table name (t\<lparr>t_rows := map (new_row t cols) vss\<rparr>) db"
proof -
  from assms obtain t where t: "db_tables db name = Some t" "set cols \<subseteq> set (column_names t)"
    and "each (inserts name cols row_of) xs (put_table name (t\<lparr>t_rows := []\<rparr>) db) = Some (u, db')"
    by (auto simp: replaces_def after_def delete_all prepared_def bind_eq_Some_conv split: option.splits if_splits)
  from inserts_written [OF this(3), of "t\<lparr>t_rows := []\<rparr>"]
  show ?thesis using t by auto
qed

lemma insertions_succeed:
  assumes "db_tables db name = Some t" and "writable cols t" and "t_unique t = None" and "map row_of xs = map Inr vss"
    and "\<And>vals. vals \<in> set vss \<Longrightarrow> length vals = length cols \<and> no_nulls t cols vals"
  shows "each (inserts name cols row_of) xs db = Some ((), put_table name (t\<lparr>t_rows := t_rows t @ map (new_row t cols) vss\<rparr>) db)"
  using assms
proof (induction xs arbitrary: db t vss)
  case Nil
  then show ?case by (simp add: yields_def put_same)
next
  case (Cons x xs)
  from Cons.prems(4) obtain vals rest where v: "vss = vals # rest" "row_of x = Inr vals" "map row_of xs = map Inr rest"
    by (cases vss) auto
  let ?t = "t\<lparr>t_rows := t_rows t @ [new_row t cols vals]\<rparr>"
  have "inserts name cols row_of x db = Some ((), put_table name ?t db)"
    using Cons.prems v insert_succeeds [OF Cons.prems(1,2), of vals] by (simp add: inserts_def key_taken_def)
  moreover have "each (inserts name cols row_of) xs (put_table name ?t db) =
      Some ((), put_table name (?t\<lparr>t_rows := t_rows ?t @ map (new_row ?t cols) rest\<rparr>) (put_table name ?t db))"
    using Cons.prems v by (intro Cons.IH) simp_all
  ultimately show ?case using v by (simp add: after_def)
qed

lemma replace_succeeds:
  assumes "db_tables db name = Some t" and "writable cols t" and "t_unique t = None" and "map row_of xs = map Inr vss"
    and "\<And>vals. vals \<in> set vss \<Longrightarrow> length vals = length cols \<and> no_nulls t cols vals"
  shows "replaces name cols row_of xs db = Some ((), put_table name (t\<lparr>t_rows := map (new_row t cols) vss\<rparr>) db)"
  using assms insertions_succeed [of "put_table name (t\<lparr>t_rows := []\<rparr>) db" name "t\<lparr>t_rows := []\<rparr>" cols row_of xs vss]
  by (simp add: replaces_def after_def delete_all prepared_def writable_def)

definition queries ::
  "string \<Rightarrow> string list \<Rightarrow> (sql_row \<Rightarrow> bool) \<Rightarrow> (sql_row list \<Rightarrow> sql_row list) \<Rightarrow> (sql_value list \<Rightarrow> row_error + 'a option) \<Rightarrow>
   sql_db \<Rightarrow> ('a list \<times> sql_db) option" where
  "queries name cols p order from_row db =
     (case db_tables db name of
        None \<Rightarrow> None
      | Some t \<Rightarrow>
          if set cols \<subseteq> set (column_names t) then
            (case collect_rows from_row (map (\<lambda>r. map (value_at r) cols) (order (filter p (t_rows t)))) of
               Inl e \<Rightarrow> None | Inr xs \<Rightarrow> Some (xs, db))
          else None)"

lemma select_rows:
  "of_statement (select_from cols name p order) db =
    (case db_tables db name of None \<Rightarrow> None
     | Some t \<Rightarrow> if set cols \<subseteq> set (column_names t) then Some (map (\<lambda>r. map (value_at r) cols) (order (filter p (t_rows t))), db) else None)"
proof (cases "db_tables db name")
  case (Some t)
  then show ?thesis using some_missing [of cols t]
    by (cases "set cols \<subseteq> set (column_names t)")
      (auto simp: of_statement_def select_from_def on_table_def put_same)
qed (simp add: of_statement_def select_from_def on_table_def)

lemma implements_query [intro]: "implements (query_rows name cols p order from_row) (queries name cols p order from_row)"
proof -
  have "after (prepared name cols) (\<lambda>_. after (of_statement (select_from cols name p order)) (\<lambda>rows db.
      case collect_rows from_row rows of Inl _ \<Rightarrow> None | Inr x \<Rightarrow> Some (x, db))) = queries name cols p order from_row"
    by (rule ext) (simp add: after_def prepared_def select_rows queries_def split: option.split)
  moreover have "implements (query_rows name cols p order from_row) (after (prepared name cols) (\<lambda>_.
      after (of_statement (select_from cols name p order)) (\<lambda>rows db.
      case collect_rows from_row rows of Inl _ \<Rightarrow> None | Inr x \<Rightarrow> Some (x, db))))"
    unfolding query_rows_def by (intro implements_bind implements_prepare implements_call implements_read_row)
  ultimately show ?thesis by simp
qed

text \<open>A listing answers with what the database holds and changes nothing; an error can only be the engine's.\<close>

definition answers :: "'a project_op \<Rightarrow> project_files \<Rightarrow> 'a \<Rightarrow> bool" where
  "answers m s x \<longleftrightarrow> (\<forall>r s'. run_state m s = (r, s') \<longrightarrow>
     database s' = database s \<and> r = Inr x \<or> (\<exists>e. r = Inl e \<and> engine_error s e))"

lemma answersI: "implements m g \<Longrightarrow> g (database s) = Some (x, database s) \<Longrightarrow> answers m s x"
  unfolding answers_def
proof (intro allI impI)
  fix r s' assume "implements m g" "g (database s) = Some (x, database s)" "run_state m s = (r, s')"
  then show "database s' = database s \<and> r = Inr x \<or> (\<exists>e. r = Inl e \<and> engine_error s e)"
    by (cases r) (auto dest: implementsD)
qed

section \<open>Tables of catalogs\<close>

definition proper_db :: "sql_db \<Rightarrow> bool" where
  "proper_db db \<longleftrightarrow> (\<forall>name t. db_tables db name = Some t \<longrightarrow> distinct (column_names t))"

text \<open>
  What a catalog relies on: the rows have the columns of the statement, and a row that was written reads back
  as the element, if JSON reads back what it wrote for it.
\<close>

locale catalog_table =
  fixes cols :: "string list"
    and row_of :: "'a \<Rightarrow> string + sql_value list"
    and from_row :: "sql_value list \<Rightarrow> row_error + 'a option"
    and readable :: "'a \<Rightarrow> bool"
  assumes distinct_columns: "distinct cols"
    and width: "row_of x = Inr vals \<Longrightarrow> length vals = length cols"
    and read_back: "readable x \<Longrightarrow> row_of x = Inr vals \<Longrightarrow> from_row vals = Inr (Some x)"
begin

lemma rows_read_back:
  assumes "map row_of xs = map Inr vss" and "\<And>x. x \<in> set xs \<Longrightarrow> readable x"
  shows "collect_rows from_row vss = Inr xs"
  using assms
proof (induction xs arbitrary: vss)
  case (Cons x xs)
  then obtain vals rest where v: "vss = vals # rest" "row_of x = Inr vals" "map row_of xs = map Inr rest" by (cases vss) auto
  moreover have "from_row vals = Inr (Some x)" using Cons.prems(2) v(2) by (intro read_back) simp_all
  ultimately show ?case using Cons by simp
qed simp

lemma list_after_replace:
  assumes "replaces name cols row_of xs db = Some (u, db')" and "proper_db db" and "\<And>x. x \<in> set xs \<Longrightarrow> readable x"
    and "db_tables d name = db_tables db' name"
  shows "queries name cols all_rows by_id from_row d = Some (xs, d)"
proof -
  from replaced [OF assms(1)] obtain t vss where t: "db_tables db name = Some t" "set cols \<subseteq> set (column_names t)"
    and vss: "map row_of xs = map Inr vss" and db': "db' = put_table name (t\<lparr>t_rows := map (new_row t cols) vss\<rparr>) db"
    by blast
  have proper: "distinct (column_names t)" using assms(2) t(1) by (auto simp: proper_db_def)
  have "\<And>vals. vals \<in> set vss \<Longrightarrow> length vals = length cols"
  proof -
    fix vals assume "vals \<in> set vss"
    then have "Inr vals \<in> set (map row_of xs)" using vss by simp
    then show "length vals = length cols" by (auto dest: width [OF sym])
  qed
  then have "map (\<lambda>r. map (value_at r) cols) (map (new_row t cols) vss) = vss"
    using new_row_values [OF proper t(2) distinct_columns] by (simp add: map_idI)
  then show ?thesis
    using assms(4) t db' rows_read_back [OF vss assms(3)]
    by (simp add: queries_def all_rows_def by_id_def)
qed

end

definition json_reads :: "('a \<Rightarrow> string + string) \<Rightarrow> (string \<Rightarrow> string + 'a) \<Rightarrow> 'a \<Rightarrow> bool" where
  "json_reads to_json from_json x \<longleftrightarrow> (\<forall>t. to_json x = Inr t \<longrightarrow> from_json t = Inr x)"

abbreviation strings_read :: "serde \<Rightarrow> string list \<Rightarrow> bool" where
  "strings_read J \<equiv> json_reads (strings_to_json J) (strings_from_json J)"

lemma parse_as_str [simp]:
  "tdk_parse (tdk_as_str k) = Some k" "tuk_parse (tuk_as_str u) = Some u" "fdk_parse (fdk_as_str f) = Some f"
  "pdk_parse (pdk_as_str p) = Some p" "psh_parse (psh_as_str h) = Some h" "sfk_parse (sfk_as_str s) = Some s"
  by (simp_all only: tdk_inverse tuk_inverse fdk_inverse pdk_inverse psh_inverse) (cases s; simp add: sfk_parse_def)

interpretation units: catalog_table unit_columns "unit_row J" "unit_from_row J" "\<lambda>u. strings_read J (cu_arguments u)" for J
  by unfold_locales
    (auto simp: unit_columns_def unit_row_def unit_from_row_def json_reads_def json_value_def and_then_def split: sum.splits)

lemma type_reads [simp]: "type_from_values (type_row d) = Inr (Some d)"
  by (simp add: type_from_values_def type_row_def)

lemma type_row_width [simp]: "length (type_row d) = 9"
  by (simp add: type_row_def)

interpretation types: catalog_table type_columns "\<lambda>d. Inr (type_row d)" type_from_values "\<lambda>_. True"
  by unfold_locales (auto simp: type_columns_def)

interpretation dependencies: catalog_table dependency_columns "\<lambda>d. Inr (dependency_row d)" dependency_from_row "\<lambda>_. True"
  by unfold_locales (auto simp: dependency_columns_def type_columns_def dependency_row_def dependency_from_row_def)

interpretation pointers: catalog_table pointer_columns "\<lambda>d. Inr (pointer_row d)" pointer_from_row "\<lambda>_. True"
  by unfold_locales (auto simp: pointer_columns_def pointer_row_def pointer_from_row_def)

interpretation sources: catalog_table source_columns "\<lambda>f. Inr (source_row f)" source_from_row "\<lambda>_. True"
  by unfold_locales (auto simp: source_columns_def source_row_def source_from_row_def)

interpretation usages: catalog_table usage_columns "\<lambda>u. Inr (usage_row u)" usage_from_row "\<lambda>_. True"
  by unfold_locales (auto simp: usage_columns_def usage_row_def usage_from_row_def)

interpretation callables: catalog_table function_columns "function_row J" "function_from_row J"
    "\<lambda>d. strings_read J (fd_overridden_usrs d)" for J
  by unfold_locales
    (auto simp: function_columns_def function_row_def function_from_row_def json_reads_def json_value_def and_then_def split: sum.splits)

interpretation calls: catalog_table call_columns "\<lambda>c. Inr (call_row c)" row_to_call_edge "\<lambda>_. True"
  by unfold_locales (auto simp: call_columns_def call_row_def row_to_call_edge_def split: call_resolution.split)

section \<open>The representation\<close>

abbreviation ir_columns :: "string list" where
  "ir_columns \<equiv> [''usr'', ''data'']"

definition ir_row :: "sql_table \<Rightarrow> string \<times> string \<Rightarrow> sql_row" where
  "ir_row t r = new_row t ir_columns [SqlText (fst r), SqlText (snd r)]"

definition inserts_ir :: "string \<Rightarrow> string \<times> string \<Rightarrow> sql_db \<Rightarrow> (unit \<times> sql_db) option" where
  "inserts_ir name r = of_statement (insert_into name ir_columns [SqlText (fst r), SqlText (snd r)])"

definition writes_ir :: "string \<Rightarrow> (string \<times> string) list \<Rightarrow> sql_db \<Rightarrow> (unit \<times> sql_db) option" where
  "writes_ir name rows = after (prepared name ir_columns) (\<lambda>_. each (inserts_ir name) rows)"

lemma implements_insert_ir [intro]: "implements (insert_ir name rows) (writes_ir name rows)"
  unfolding insert_ir_def writes_ir_def inserts_ir_def case_prod_beta by (intro implements_bind implements_prepare implements_for_each implements_call)

lemma same_ir_row [simp]: "ir_row (t\<lparr>t_rows := rs\<rparr>) = ir_row t"
  by (simp add: ir_row_def fun_eq_iff)

lemma ir_written:
  assumes "each (inserts_ir name) rows db = Some (u, db')" and "db_tables db name = Some t"
  shows "db' = put_table name (t\<lparr>t_rows := t_rows t @ map (ir_row t) rows\<rparr>) db"
  using assms
proof (induction rows arbitrary: db t)
  case Nil
  then show ?case by (simp add: yields_def put_same)
next
  case (Cons r rows)
  from Cons.prems(1) obtain d where r: "inserts_ir name r db = Some ((), d)" and rows: "each (inserts_ir name) rows d = Some (u, db')"
    by (auto simp: after_def bind_eq_Some_conv)
  from insert_writes [OF r [unfolded inserts_ir_def]] Cons.prems(2)
  have d: "d = put_table name (t\<lparr>t_rows := t_rows t @ [ir_row t r]\<rparr>) db" by (auto simp: ir_row_def)
  then have "db_tables d name = Some (t\<lparr>t_rows := t_rows t @ [ir_row t r]\<rparr>)" by simp
  from Cons.IH [OF rows this] d show ?case by simp
qed

text \<open>Sorting rows by a column of texts is sorting by the texts.\<close>

lemma order_by_text:
  assumes "\<And>r. r \<in> set rows \<Longrightarrow> value_at r c = SqlText (k r)"
  shows "order_by [c] rows = sort_key k rows"
proof -
  have *: "insert_row (row_less_eq [c]) r rs = insort_key k r rs"
    if "value_at r c = SqlText (k r)" "\<And>q. q \<in> set rs \<Longrightarrow> value_at q c = SqlText (k q)" for r rs
    using that by (induction rs) auto
  have "foldr (insert_row (row_less_eq [c])) rs [] = sort_key k rs" if "set rs \<subseteq> set rows" for rs
    using that
  proof (induction rs)
    case (Cons r rs)
    then show ?case using * [of r "sort_key k rs"] assms by (auto simp del: row_less_eq.simps)
  qed simp
  then show ?thesis by (simp add: order_by_def)
qed

lemma ir_listed:
  assumes "distinct (column_names t)" and "set ir_columns \<subseteq> set (column_names t)"
    and "db_tables d name = Some (t\<lparr>t_rows := map (ir_row t) rows\<rparr>)"
  shows "queries name [''data''] all_rows (order_by [''usr'']) data_from_row d = Some (map snd (sort_key fst rows), d)"
proof -
  have vals: "value_at (ir_row t r) ''usr'' = SqlText (fst r)" "value_at (ir_row t r) ''data'' = SqlText (snd r)" for r
    using new_row_values [OF assms(1,2), of "[SqlText (fst r), SqlText (snd r)]"] by (simp_all add: ir_row_def)
  let ?key = "\<lambda>row. case value_at row ''usr'' of SqlText s \<Rightarrow> s | _ \<Rightarrow> []"
  have "order_by [''usr''] (map (ir_row t) rows) = sort_key ?key (map (ir_row t) rows)"
    by (rule order_by_text) (auto simp: vals)
  then have sorted: "order_by [''usr''] (map (ir_row t) rows) = map (ir_row t) (sort_key fst rows)"
    by (simp add: sort_key_map comp_def vals)
  have "collect_rows data_from_row (map (\<lambda>r. [SqlText (snd r)]) rs) = Inr (map snd rs)" for rs :: "(string \<times> string) list"
    by (induction rs) (simp_all add: data_from_row_def)
  then show ?thesis using assms(2,3) by (simp add: queries_def all_rows_def sorted vals comp_def)
qed

lemma serialized:
  assumes "serialize_ir_values to_json xs = Inr texts" and "\<And>x. x \<in> set xs \<Longrightarrow> json_reads to_json from_json x"
  shows "deserialize_ir_values from_json (map snd (sort_key fst (zip (map key xs) texts))) = Inr (sort_key key xs)"
proof -
  have texts: "texts = map (\<lambda>x. projr (to_json x)) xs \<and> (\<forall>x \<in> set xs. \<not> isl (to_json x))"
    using assms(1) by (induction xs arbitrary: texts) (auto simp: and_then_def split: sum.splits)
  have "deserialize_ir_values from_json (map (\<lambda>x. projr (to_json x)) ys) = Inr ys" if "set ys \<subseteq> set xs" for ys
    using that
  proof (induction ys)
    case (Cons y ys)
    then have "to_json y = Inr (projr (to_json y))" using texts by simp
    then have "from_json (projr (to_json y)) = Inr y" using Cons.prems assms(2) [of y] by (simp add: json_reads_def)
    then show ?case using Cons by simp
  qed simp
  moreover have "zip (map key xs) texts = map (\<lambda>x. (key x, projr (to_json x))) xs"
    using texts by (simp add: zip_map_map zip_same_conv_map)
  ultimately show ?thesis by (simp add: sort_key_map comp_def)
qed

end
