(* ===== verification/Store_Catalogs.thy ===== *)
theory Store_Catalogs
  imports Store_Laws
begin

text \<open>
  The catalogs of a project in its database: replacing all of them is one transaction, and what was replaced is
  what every listing answers, in the order the listing promises.
\<close>

section \<open>What an operation leaves alone\<close>

definition only_changes :: "string set \<Rightarrow> sql_db \<Rightarrow> sql_db \<Rightarrow> bool" where
  "only_changes names db db' \<longleftrightarrow> (\<forall>n. n \<notin> names \<longrightarrow> db_tables db' n = db_tables db n) \<and> (proper_db db \<longrightarrow> proper_db db')"

lemma only_changesD:
  "only_changes names db db' \<Longrightarrow> n \<notin> names \<Longrightarrow> db_tables db' n = db_tables db n"
  "only_changes names db db' \<Longrightarrow> proper_db db \<Longrightarrow> proper_db db'"
  by (simp_all add: only_changes_def)

lemma put_only_changes: "db_tables db name = Some t \<Longrightarrow> column_names t' = column_names t \<Longrightarrow> only_changes {name} db (put_table name t' db)"
  by (auto simp: only_changes_def proper_db_def)

lemma replaces_only_changes: "replaces name cols row_of xs db = Some (u, db') \<Longrightarrow> only_changes {name} db db'"
  by (auto dest!: replaced intro: put_only_changes)

lemma delete_only_changes: "of_statement (delete_from name p) db = Some (k, db') \<Longrightarrow> only_changes {name} db db'"
  by (auto simp: of_statement_def delete_from_def on_table_def intro: put_only_changes split: option.splits)

lemma prune_deletes:
  assumes "of_statement prune_mappings db = Some (k, db')"
  obtains p where "of_statement (delete_from ''type_mappings'' p) db = Some (k, db')"
  using assms by (auto simp: of_statement_def prune_mappings_def Let_def split: option.splits sum.splits)

lemma prune_only_changes: "of_statement prune_mappings db = Some (k, db') \<Longrightarrow> only_changes {''type_mappings''} db db'"
  by (auto elim: prune_deletes dest: delete_only_changes)

section \<open>The representation\<close>

definition result_of :: "string + 'a \<Rightarrow> sql_db \<Rightarrow> ('a \<times> sql_db) option" where
  "result_of r db = (case r of Inl _ \<Rightarrow> None | Inr x \<Rightarrow> Some (x, db))"

lemma implements_json [intro]: "implements (json_result r) (result_of r)"
  using implements_result [of r] by (simp add: result_of_def [abs_def])

definition deletes :: "string \<Rightarrow> sql_db \<Rightarrow> (nat \<times> sql_db) option" where
  "deletes name = of_statement (delete_from name (\<lambda>_. True))"

lemma implements_delete [intro]: "implements (sql_call (delete_from name (\<lambda>_. True))) (deletes name)"
  unfolding deletes_def by blast

definition replaces_ir :: "serde \<Rightarrow> ir_function list \<Rightarrow> ir_record list \<Rightarrow> ir_enum list \<Rightarrow> sql_db \<Rightarrow> (unit \<times> sql_db) option" where
  "replaces_ir J fs rs es =
     after (result_of (serialize_ir_values (function_to_json J) fs)) (\<lambda>fd.
     after (result_of (serialize_ir_values (record_to_json J) rs)) (\<lambda>rd.
     after (result_of (serialize_ir_values (enum_to_json J) es)) (\<lambda>ed.
     after (deletes ''ir_functions'') (\<lambda>_. after (deletes ''ir_records'') (\<lambda>_. after (deletes ''ir_enums'') (\<lambda>_.
     after (writes_ir ''ir_functions'' (zip (map f_usr fs) fd)) (\<lambda>_.
     after (writes_ir ''ir_records'' (zip (map r_usr rs) rd)) (\<lambda>_.
       writes_ir ''ir_enums'' (zip (map en_usr es) ed)))))))))"

lemma implements_replace_ir [intro]: "implements (replace_ir_tx J fs rs es) (replaces_ir J fs rs es)"
  unfolding replace_ir_tx_def replaces_ir_def
  by (intro implements_bind implements_json implements_delete implements_insert_ir)

text \<open>A table that holds these texts by their keys.\<close>

definition holds_ir :: "sql_db \<Rightarrow> string \<Rightarrow> (string \<times> string) list \<Rightarrow> bool" where
  "holds_ir db name rows \<longleftrightarrow> (\<exists>t. db_tables db name = Some (t\<lparr>t_rows := map (ir_row t) rows\<rparr>) \<and> set ir_columns \<subseteq> set (column_names t))"

lemma deleted: "deletes name db = Some (k, db') \<Longrightarrow> only_changes {name} db db' \<and> (\<exists>t. db_tables db' name = Some t \<and> t_rows t = [])"
  unfolding deletes_def by (auto simp: delete_all intro: put_only_changes split: option.splits)

lemma written_ir:
  assumes "writes_ir name rows db = Some (u, db')"
  shows "only_changes {name} db db'" and "db_tables db name = Some t \<Longrightarrow> t_rows t = [] \<Longrightarrow> holds_ir db' name rows"
proof -
  from assms obtain t' where t': "db_tables db name = Some t'" "set ir_columns \<subseteq> set (column_names t')"
    and each: "each (inserts_ir name) rows db = Some (u, db')"
    by (auto simp: writes_ir_def after_def prepared_def bind_eq_Some_conv split: option.splits if_splits)
  note db' = ir_written [OF each t'(1)]
  show "only_changes {name} db db'" unfolding db' using t'(1) by (rule put_only_changes) simp
  show "holds_ir db' name rows" if "db_tables db name = Some t" "t_rows t = []"
    using that t' unfolding db' holds_ir_def by (intro exI [of _ t]) simp
qed

lemma replaced_ir:
  assumes "replaces_ir J fs rs es db = Some (u, db')"
  obtains fd rd ed where
    "serialize_ir_values (function_to_json J) fs = Inr fd" "holds_ir db' ''ir_functions'' (zip (map f_usr fs) fd)"
    "serialize_ir_values (record_to_json J) rs = Inr rd" "holds_ir db' ''ir_records'' (zip (map r_usr rs) rd)"
    "serialize_ir_values (enum_to_json J) es = Inr ed" "holds_ir db' ''ir_enums'' (zip (map en_usr es) ed)"
    "only_changes {''ir_functions'', ''ir_records'', ''ir_enums''} db db'"
proof -
  from assms obtain fd rd ed d1 d2 d3 d4 d5 k1 k2 k3 where
    texts: "serialize_ir_values (function_to_json J) fs = Inr fd" "serialize_ir_values (record_to_json J) rs = Inr rd"
      "serialize_ir_values (enum_to_json J) es = Inr ed"
    and del: "deletes ''ir_functions'' db = Some (k1, d1)" "deletes ''ir_records'' d1 = Some (k2, d2)" "deletes ''ir_enums'' d2 = Some (k3, d3)"
    and wrote: "writes_ir ''ir_functions'' (zip (map f_usr fs) fd) d3 = Some ((), d4)"
      "writes_ir ''ir_records'' (zip (map r_usr rs) rd) d4 = Some ((), d5)"
      "writes_ir ''ir_enums'' (zip (map en_usr es) ed) d5 = Some (u, db')"
    by (auto simp: replaces_ir_def after_def result_of_def bind_eq_Some_conv split: sum.splits)
  note deleted' = del [THEN deleted] and kept' = wrote [THEN written_ir(1)]
  note same = deleted' [THEN conjunct1, THEN only_changesD(1)] kept' [THEN only_changesD(1)]
  obtain t1 t2 t3 where "db_tables d3 ''ir_functions'' = Some t1" "t_rows t1 = []"
    "db_tables d4 ''ir_records'' = Some t2" "t_rows t2 = []" "db_tables d5 ''ir_enums'' = Some t3" "t_rows t3 = []"
    using deleted' by (auto simp: same)
  then have "holds_ir d4 ''ir_functions'' (zip (map f_usr fs) fd)" "holds_ir d5 ''ir_records'' (zip (map r_usr rs) rd)"
    "holds_ir db' ''ir_enums'' (zip (map en_usr es) ed)"
    using wrote written_ir(2) by blast+
  then have "holds_ir db' ''ir_functions'' (zip (map f_usr fs) fd)" "holds_ir db' ''ir_records'' (zip (map r_usr rs) rd)"
    "holds_ir db' ''ir_enums'' (zip (map en_usr es) ed)"
    by (simp_all add: holds_ir_def same)
  moreover have "only_changes {''ir_functions'', ''ir_records'', ''ir_enums''} db db'"
    using deleted' kept' by (auto simp: only_changes_def)
  ultimately show thesis using texts that by blast
qed

section \<open>All catalogs\<close>

definition replaces_types :: "type_declaration list \<Rightarrow> sql_db \<Rightarrow> (unit \<times> sql_db) option" where
  "replaces_types ds =
     after (replaces ''type_declarations'' type_columns (\<lambda>d. Inr (type_row d)) ds) (\<lambda>_.
     after (of_statement prune_mappings) (\<lambda>_. yields ()))"

definition replaces_all :: "serde \<Rightarrow> project_catalogs \<Rightarrow> sql_db \<Rightarrow> (unit \<times> sql_db) option" where
  "replaces_all J c =
     after (replaces ''compilation_units'' unit_columns (unit_row J) (pc_compilation_units c)) (\<lambda>_.
     after (replaces_types (pc_type_declarations c)) (\<lambda>_.
     after (replaces ''type_dependencies'' dependency_columns (\<lambda>d. Inr (dependency_row d)) (pc_type_dependencies c)) (\<lambda>_.
     after (replaces ''type_usages'' usage_columns (\<lambda>u. Inr (usage_row u)) (pc_type_usages c)) (\<lambda>_.
     after (replaces ''source_files'' source_columns (\<lambda>f. Inr (source_row f)) (pc_source_files c)) (\<lambda>_.
     after (replaces ''function_declarations'' function_columns (function_row J) (pc_function_declarations c)) (\<lambda>_.
     after (replaces ''call_edges'' call_columns (\<lambda>c. Inr (call_row c)) (pc_call_edges c)) (\<lambda>_.
     after (replaces_ir J (pc_ir_functions c) (pc_ir_records c) (pc_ir_enums c)) (\<lambda>_.
       replaces ''pointer_declarations'' pointer_columns (\<lambda>d. Inr (pointer_row d)) (pc_pointer_declarations c)))))))))"

lemma implements_replace_types [intro]: "implements (replace_type_declarations_tx ds) (replaces_types ds)"
  unfolding replace_type_declarations_tx_def replaces_types_def
  by (intro implements_bind implements_replace implements_call implements_done)

lemma implements_replace_all [intro]: "implements (replace_all J c) (replaces_all J c)"
  unfolding replace_all_def replaces_all_def replace_compilation_units_tx_def replace_type_dependencies_tx_def
    replace_type_usages_tx_def replace_source_files_tx_def replace_function_declarations_tx_def replace_call_edges_tx_def
    replace_pointer_declarations_tx_def
  by (intro implements_transaction implements_bind implements_replace implements_replace_types implements_replace_ir)

lemma replaces_types_Some:
  assumes "replaces_types ds db = Some (u, db')"
  obtains d where "replaces ''type_declarations'' type_columns (\<lambda>d. Inr (type_row d)) ds db = Some ((), d)"
    and "only_changes {''type_mappings''} d db'"
proof -
  from assms obtain d k where "replaces ''type_declarations'' type_columns (\<lambda>d. Inr (type_row d)) ds db = Some ((), d)"
    and "of_statement prune_mappings d = Some (k, db')"
    by (auto simp: replaces_types_def after_def yields_def bind_eq_Some_conv)
  then show thesis using that prune_only_changes by blast
qed

text \<open>What JSON has to read back of a catalog: what it writes for the values of this catalog.\<close>

definition json_reads_catalogs :: "serde \<Rightarrow> project_catalogs \<Rightarrow> bool" where
  "json_reads_catalogs J c \<longleftrightarrow>
     list_all (\<lambda>u. strings_read J (cu_arguments u)) (pc_compilation_units c) \<and>
     list_all (\<lambda>d. strings_read J (fd_overridden_usrs d)) (pc_function_declarations c) \<and>
     list_all (json_reads (function_to_json J) (function_from_json J)) (pc_ir_functions c) \<and>
     list_all (json_reads (record_to_json J) (record_from_json J)) (pc_ir_records c) \<and>
     list_all (json_reads (enum_to_json J) (enum_from_json J)) (pc_ir_enums c)"

definition lists_ir :: "serde \<Rightarrow> sql_db \<Rightarrow> ((ir_function list \<times> ir_record list \<times> ir_enum list) \<times> sql_db) option" where
  "lists_ir J =
     after (queries ''ir_functions'' [''data''] all_rows (order_by [''usr'']) data_from_row) (\<lambda>fr.
     after (queries ''ir_records'' [''data''] all_rows (order_by [''usr'']) data_from_row) (\<lambda>rr.
     after (queries ''ir_enums'' [''data''] all_rows (order_by [''usr'']) data_from_row) (\<lambda>er.
     after (result_of (deserialize_ir_values (function_from_json J) fr)) (\<lambda>fs.
     after (result_of (deserialize_ir_values (record_from_json J) rr)) (\<lambda>rs.
     after (result_of (deserialize_ir_values (enum_from_json J) er)) (\<lambda>es. yields (fs, rs, es)))))))"

lemma implements_list_ir [intro]: "implements (list_ir J) (lists_ir J)"
  unfolding list_ir_def lists_ir_def by (intro implements_bind implements_query implements_json implements_done)

lemma holds_ir_listed:
  assumes "holds_ir d name rows" and "proper_db d"
  shows "queries name [''data''] all_rows (order_by [''usr'']) data_from_row d = Some (map snd (sort_key fst rows), d)"
proof -
  from assms(1) obtain t where t: "db_tables d name = Some (t\<lparr>t_rows := map (ir_row t) rows\<rparr>)" "set ir_columns \<subseteq> set (column_names t)"
    unfolding holds_ir_def by blast
  moreover have "distinct (column_names t)"
    using assms(2) t(1) unfolding proper_db_def by (metis same_columns(1))
  ultimately show ?thesis by (intro ir_listed)
qed

lemma ir_read_back:
  assumes "replaces_ir J fs rs es db = Some (u, db')" and "proper_db d"
    and "list_all (json_reads (function_to_json J) (function_from_json J)) fs"
    and "list_all (json_reads (record_to_json J) (record_from_json J)) rs"
    and "list_all (json_reads (enum_to_json J) (enum_from_json J)) es"
    and same: "\<And>n. n \<in> {''ir_functions'', ''ir_records'', ''ir_enums''} \<Longrightarrow> db_tables d n = db_tables db' n"
  shows "lists_ir J d = Some ((sort_key f_usr fs, sort_key r_usr rs, sort_key en_usr es), d)"
proof -
  from assms(1) obtain fd rd ed where
    f: "serialize_ir_values (function_to_json J) fs = Inr fd" "holds_ir db' ''ir_functions'' (zip (map f_usr fs) fd)" and
    r: "serialize_ir_values (record_to_json J) rs = Inr rd" "holds_ir db' ''ir_records'' (zip (map r_usr rs) rd)" and
    e: "serialize_ir_values (enum_to_json J) es = Inr ed" "holds_ir db' ''ir_enums'' (zip (map en_usr es) ed)"
    by (rule replaced_ir)
  have held: "holds_ir d ''ir_functions'' (zip (map f_usr fs) fd)" "holds_ir d ''ir_records'' (zip (map r_usr rs) rd)"
    "holds_ir d ''ir_enums'' (zip (map en_usr es) ed)"
    using f(2) r(2) e(2) by (simp_all add: holds_ir_def same)
  note read = held [THEN holds_ir_listed, OF assms(2)]
  have "deserialize_ir_values (function_from_json J) (map snd (sort_key fst (zip (map f_usr fs) fd))) = Inr (sort_key f_usr fs)"
    by (rule serialized [OF f(1)]) (use assms(3) in \<open>simp add: list_all_iff\<close>)
  moreover have "deserialize_ir_values (record_from_json J) (map snd (sort_key fst (zip (map r_usr rs) rd))) = Inr (sort_key r_usr rs)"
    by (rule serialized [OF r(1)]) (use assms(4) in \<open>simp add: list_all_iff\<close>)
  moreover have "deserialize_ir_values (enum_from_json J) (map snd (sort_key fst (zip (map en_usr es) ed))) = Inr (sort_key en_usr es)"
    by (rule serialized [OF e(1)]) (use assms(5) in \<open>simp add: list_all_iff\<close>)
  ultimately show ?thesis by (simp add: lists_ir_def after_def read result_of_def yields_def)
qed

lemma all_listed:
  assumes "replaces_all J c db = Some (u, db')" and "proper_db db" and json: "json_reads_catalogs J c"
  shows "queries ''compilation_units'' unit_columns all_rows by_id (unit_from_row J) db' = Some (pc_compilation_units c, db')"
    and "queries ''type_declarations'' type_columns all_rows by_id type_from_values db' = Some (pc_type_declarations c, db')"
    and "queries ''type_dependencies'' dependency_columns all_rows by_id dependency_from_row db' = Some (pc_type_dependencies c, db')"
    and "queries ''type_usages'' usage_columns all_rows by_id usage_from_row db' = Some (pc_type_usages c, db')"
    and "queries ''source_files'' source_columns all_rows by_id source_from_row db' = Some (pc_source_files c, db')"
    and "queries ''function_declarations'' function_columns all_rows by_id (function_from_row J) db' = Some (pc_function_declarations c, db')"
    and "queries ''call_edges'' call_columns all_rows by_id row_to_call_edge db' = Some (pc_call_edges c, db')"
    and "lists_ir J db' = Some ((sort_key f_usr (pc_ir_functions c), sort_key r_usr (pc_ir_records c), sort_key en_usr (pc_ir_enums c)), db')"
    and "queries ''pointer_declarations'' pointer_columns all_rows by_id pointer_from_row db' = Some (pc_pointer_declarations c, db')"
proof -
  from assms(1) obtain d1 d2 d3 d4 d5 d6 d7 d8 where
    r1: "replaces ''compilation_units'' unit_columns (unit_row J) (pc_compilation_units c) db = Some ((), d1)" and
    types: "replaces_types (pc_type_declarations c) d1 = Some ((), d2)" and
    r3: "replaces ''type_dependencies'' dependency_columns (\<lambda>d. Inr (dependency_row d)) (pc_type_dependencies c) d2 = Some ((), d3)" and
    r4: "replaces ''type_usages'' usage_columns (\<lambda>u. Inr (usage_row u)) (pc_type_usages c) d3 = Some ((), d4)" and
    r5: "replaces ''source_files'' source_columns (\<lambda>f. Inr (source_row f)) (pc_source_files c) d4 = Some ((), d5)" and
    r6: "replaces ''function_declarations'' function_columns (function_row J) (pc_function_declarations c) d5 = Some ((), d6)" and
    r7: "replaces ''call_edges'' call_columns (\<lambda>c. Inr (call_row c)) (pc_call_edges c) d6 = Some ((), d7)" and
    r8: "replaces_ir J (pc_ir_functions c) (pc_ir_records c) (pc_ir_enums c) d7 = Some ((), d8)" and
    r9: "replaces ''pointer_declarations'' pointer_columns (\<lambda>d. Inr (pointer_row d)) (pc_pointer_declarations c) d8 = Some (u, db')"
    by (auto simp: replaces_all_def after_def bind_eq_Some_conv)
  obtain d where r2: "replaces ''type_declarations'' type_columns (\<lambda>d. Inr (type_row d)) (pc_type_declarations c) d1 = Some ((), d)"
    and pruned: "only_changes {''type_mappings''} d d2"
    using types by (rule replaces_types_Some)
  have ir: "only_changes {''ir_functions'', ''ir_records'', ''ir_enums''} d7 d8" using r8 by (rule replaced_ir)
  note changes = r1 [THEN replaces_only_changes] r2 [THEN replaces_only_changes] pruned r3 [THEN replaces_only_changes]
    r4 [THEN replaces_only_changes] r5 [THEN replaces_only_changes] r6 [THEN replaces_only_changes]
    r7 [THEN replaces_only_changes] ir r9 [THEN replaces_only_changes]
  note same = changes [THEN only_changesD(1)] and proper = changes [THEN only_changesD(2)]
  have p: "proper_db d1" "proper_db d" "proper_db d2" "proper_db d3" "proper_db d4" "proper_db d5" "proper_db d6" "proper_db d7"
    "proper_db d8" "proper_db db'"
    using assms(2) proper by blast+
  note json' = json [unfolded json_reads_catalogs_def list_all_iff]
  show "queries ''compilation_units'' unit_columns all_rows by_id (unit_from_row J) db' = Some (pc_compilation_units c, db')"
    by (rule units.list_after_replace [OF r1 assms(2)]) (use json' in \<open>simp_all add: same\<close>)
  show "queries ''type_declarations'' type_columns all_rows by_id type_from_values db' = Some (pc_type_declarations c, db')"
    by (rule types.list_after_replace [OF r2 p(1)]) (simp_all add: same)
  show "queries ''type_dependencies'' dependency_columns all_rows by_id dependency_from_row db' = Some (pc_type_dependencies c, db')"
    by (rule dependencies.list_after_replace [OF r3 p(3)]) (simp_all add: same)
  show "queries ''type_usages'' usage_columns all_rows by_id usage_from_row db' = Some (pc_type_usages c, db')"
    by (rule usages.list_after_replace [OF r4 p(4)]) (simp_all add: same)
  show "queries ''source_files'' source_columns all_rows by_id source_from_row db' = Some (pc_source_files c, db')"
    by (rule sources.list_after_replace [OF r5 p(5)]) (simp_all add: same)
  show "queries ''function_declarations'' function_columns all_rows by_id (function_from_row J) db' = Some (pc_function_declarations c, db')"
    by (rule callables.list_after_replace [OF r6 p(6)]) (use json' in \<open>simp_all add: same\<close>)
  show "queries ''call_edges'' call_columns all_rows by_id row_to_call_edge db' = Some (pc_call_edges c, db')"
    by (rule calls.list_after_replace [OF r7 p(7)]) (simp_all add: same)
  show "lists_ir J db' = Some ((sort_key f_usr (pc_ir_functions c), sort_key r_usr (pc_ir_records c), sort_key en_usr (pc_ir_enums c)), db')"
    by (rule ir_read_back [OF r8 p(10)]) (use json in \<open>auto simp: json_reads_catalogs_def same\<close>)
  show "queries ''pointer_declarations'' pointer_columns all_rows by_id pointer_from_row db' = Some (pc_pointer_declarations c, db')"
    by (rule pointers.list_after_replace [OF r9 p(9)]) simp_all
qed

text \<open>What all listings answer.\<close>

definition answers_catalogs :: "serde \<Rightarrow> project_files \<Rightarrow> project_catalogs \<Rightarrow> bool" where
  "answers_catalogs J s c \<longleftrightarrow>
     answers (list_compilation_units J) s (pc_compilation_units c) \<and>
     answers list_type_declarations s (pc_type_declarations c) \<and>
     answers list_type_dependencies s (pc_type_dependencies c) \<and>
     answers list_type_usages s (pc_type_usages c) \<and>
     answers list_source_files s (pc_source_files c) \<and>
     answers (list_function_declarations J) s (pc_function_declarations c) \<and>
     answers list_call_edges s (pc_call_edges c) \<and>
     answers (list_ir J) s (sort_key f_usr (pc_ir_functions c), sort_key r_usr (pc_ir_records c), sort_key en_usr (pc_ir_enums c)) \<and>
     answers list_pointer_declarations s (pc_pointer_declarations c)"

lemma replaced_answers:
  assumes "replaces_all J c db = Some (u, database s')" and "proper_db db" and "json_reads_catalogs J c"
  shows "answers_catalogs J s' c"
  unfolding answers_catalogs_def list_compilation_units_def list_type_declarations_def list_type_dependencies_def
    list_type_usages_def list_source_files_def list_function_declarations_def list_call_edges_def list_pointer_declarations_def
  using all_listed [OF assms] by (intro conjI answersI [OF implements_query] answersI [OF implements_list_ir])

end
