(* ===== verification/Store_Open.thy ===== *)
theory Store_Open
  imports Store_Catalogs
begin

text \<open>
  Opening the database of a project: whatever version wrote it, afterwards every table has the columns the
  statements name and the rows it had, and the marks of the old tables are in the externals file. A database
  that is open takes every catalog the passes produce.
\<close>

section \<open>The other file\<close>

lemma call_fault:
  assumes "run_state (system_call works fails) d = (r, d')"
    and "\<And>d. faults (snd (works d)) = faults d" and "\<And>l d. faults (fails l d) = faults d"
  shows "set (faults d') \<subseteq> set (faults d)" and "r = Inl e \<Longrightarrow> \<exists>f. Some f \<in> set (faults d) \<and> e = PersistenceIo (fault_text f)"
  using assms(1) by (auto simp: run_system_call assms(2,3) map_prod_def split_def split: list.splits option.splits)

definition io_only :: "'a store_op \<Rightarrow> bool" where
  "io_only m \<longleftrightarrow> (\<forall>d r d'. run_state m d = (r, d') \<longrightarrow> set (faults d') \<subseteq> set (faults d) \<and>
     (\<forall>e. r = Inl e \<longrightarrow> (\<exists>f. Some f \<in> set (faults d) \<and> e = PersistenceIo (fault_text f))))"

lemma io_only_call:
  assumes "\<And>d. faults (snd (works d)) = faults d" and "\<And>l d. faults (fails l d) = faults d"
  shows "io_only (system_call works fails)"
  unfolding io_only_def using call_fault [where works = works and fails = fails] assms by blast

lemma io_only_bind: "io_only m \<Longrightarrow> (\<And>x. io_only (k x)) \<Longrightarrow> io_only (or_return m k)"
  unfolding io_only_def by (fastforce simp: run_or_return split: prod.splits sum.splits)

lemma io_only_done [simp]: "io_only (done_with x)"
  by (simp add: io_only_def)

lemma io_only_create [simp]: "io_only create_dir_all"
  unfolding create_dir_all_def by (rule io_only_call) simp_all

lemma io_only_write [simp]: "io_only (write_store data)"
  unfolding write_store_def create_dir_all_def write_tmp_def rename_tmp_def by (intro io_only_bind io_only_call) simp_all

lemma io_only_migrate [simp]: "io_only (migrate_from_legacy marks names paths)"
  unfolding io_only_def
proof (intro allI impI)
  fix d r d' assume run: "run_state (migrate_from_legacy marks names paths) d = (r, d')"
  obtain there d1 where 1: "run_state store_exists d = (there, d1)" by force
  then have fewer: "set (faults d1) \<subseteq> set (faults d)"
    by (auto simp: store_exists_def next_call_def run_state_return State_Monad.get_def split: list.splits)
  show "set (faults d') \<subseteq> set (faults d) \<and> (\<forall>e. r = Inl e \<longrightarrow> (\<exists>f. Some f \<in> set (faults d) \<and> e = PersistenceIo (fault_text f)))"
  proof (cases "there \<or> marks = [] \<and> names = [] \<and> paths = []")
    case True
    then show ?thesis using run 1 fewer by (auto simp: migrate_from_legacy_def split: if_splits)
  next
    case False
    then have "run_state (write_store \<lparr>xd_marks = marks, xd_name_regexes = names, xd_path_regexes = paths, xd_file_marks = []\<rparr>) d1 = (r, d')"
      using run 1 by (auto simp: migrate_from_legacy_def)
    with io_only_write show ?thesis using fewer unfolding io_only_def by blast
  qed
qed

lemma implements_externals [intro]:
  assumes "io_only m"
  shows "implements (in_externals (m :: unit store_op)) (yields ())"
  unfolding implements_def
proof (intro allI impI)
  fix s r s' assume run: "run_state (in_externals m) s = (r, s')"
  obtain q d where m: "run_state m (externals_disk s) = (q, d)" by force
  then have "r = q" "s' = s\<lparr>externals_disk := d\<rparr>" using run by (simp_all add: in_externals_def)
  then show "fewer_faults s s' \<and>
      (case r of Inl e \<Rightarrow> engine_error s e \<or> yields () (database s) = None | Inr x \<Rightarrow> yields () (database s) = Some (x, database s'))"
    using m assms unfolding io_only_def
    by (fastforce simp: fewer_faults_def engine_error_def yields_def database_def split: sum.split)
qed

section \<open>Columns that are added\<close>

definition extend :: "sql_column list \<Rightarrow> sql_table \<Rightarrow> sql_table" where
  "extend cs t = t\<lparr>t_columns := t_columns t @ cs, t_rows := map (\<lambda>r. r @ map (\<lambda>c. (col_name c, col_default c)) cs) (t_rows t)\<rparr>"

lemma extend_simps [simp]:
  "t_columns (extend cs t) = t_columns t @ cs" "t_unique (extend cs t) = t_unique t"
  "column_names (extend cs t) = column_names t @ map col_name cs" "extend [] t = t" "extend ds (extend cs t) = extend (cs @ ds) t"
  by (simp_all add: extend_def column_names_def comp_def)

definition ensured :: "sql_column \<Rightarrow> sql_table \<Rightarrow> sql_table" where
  "ensured c t = (if col_name c \<in> set (column_names t) then t else extend [c] t)"

definition ensures :: "string \<times> sql_column \<Rightarrow> sql_db \<Rightarrow> (unit \<times> sql_db) option" where
  "ensures tc = after (of_statement (table_info (fst tc))) (\<lambda>names.
     if col_name (snd tc) \<in> set names then yields () else of_statement (add_column (fst tc) (snd tc)))"

lemma implements_ensure: "implements (ensure_column t c) (ensures (t, c))"
proof -
  have "implements (ensure_column t c) (after (after (of_statement (table_info t)) (\<lambda>names. yields (col_name c \<in> set names)))
      (\<lambda>there. if there then yields () else of_statement (add_column t c)))"
    unfolding ensure_column_def table_has_column_def
    by (intro implements_bind implements_call implements_done) (simp add: implements_call implements_done)
  moreover have "after (after (of_statement (table_info t)) (\<lambda>names. yields (col_name c \<in> set names)))
      (\<lambda>there. if there then yields () else of_statement (add_column t c)) = ensures (t, c)"
    by (rule ext) (auto simp: ensures_def after_def yields_def split: bind_splits)
  ultimately show ?thesis by simp
qed

lemma ensures_there:
  assumes "db_tables db n = Some t"
  shows "ensures (n, c) db = Some ((), put_table n (ensured c t) db)"
  using assms by (auto simp: ensures_def after_def of_statement_def table_info_def add_column_def on_table_def ensured_def
      extend_def yields_def put_same)

definition ensured_all :: "(string \<times> sql_column) list \<Rightarrow> string \<Rightarrow> sql_table \<Rightarrow> sql_table" where
  "ensured_all ms n t = fold (\<lambda>(m, c). if m = n then ensured c else id) ms t"

lemma ensured_all_simps [simp]:
  "ensured_all [] n t = t" "ensured_all ((m, c) # ms) n t = ensured_all ms n (if m = n then ensured c t else t)"
  by (simp_all add: ensured_all_def)

lemma each_ensured:
  assumes "\<And>m. m \<in> fst ` set ms \<Longrightarrow> db_tables db m \<noteq> None"
  shows "\<exists>db'. each ensures ms db = Some ((), db') \<and> (\<forall>n. db_tables db' n = map_option (ensured_all ms n) (db_tables db n)) \<and>
    db_user_version db' = db_user_version db"
  using assms
proof (induction ms arbitrary: db)
  case Nil
  then show ?case by (simp add: yields_def option.map_ident)
next
  case (Cons mc ms)
  obtain m c where mc: "mc = (m, c)" by force
  with Cons.prems obtain t where t: "db_tables db m = Some t" by fastforce
  let ?db = "put_table m (ensured c t) db"
  have "\<And>k. k \<in> fst ` set ms \<Longrightarrow> db_tables ?db k \<noteq> None" using Cons.prems by auto
  from Cons.IH [OF this] obtain db' where "each ensures ms ?db = Some ((), db')"
    "\<forall>n. db_tables db' n = map_option (ensured_all ms n) (db_tables ?db n)" "db_user_version db' = db_user_version ?db"
    by blast
  then show ?case using t mc ensures_there [OF t, of c]
    by (intro exI [of _ db']) (auto simp: after_def option.map_comp comp_def)
qed

text \<open>The tables afterwards: more columns, the rows longer by the defaults, and every column that was asked for.\<close>

lemma ensured_all_extends:
  "\<exists>cs. ensured_all ms n t = extend cs t \<and> set cs \<subseteq> {c. (n, c) \<in> set ms} \<and> (distinct (column_names t) \<longrightarrow> distinct (column_names (extend cs t)))"
proof (induction ms arbitrary: t)
  case Nil
  then show ?case by (intro exI [of _ "[]"]) simp
next
  case (Cons mc ms)
  obtain m c where mc: "mc = (m, c)" by force
  let ?t = "if m = n then ensured c t else t"
  have first: "\<exists>ds. ?t = extend ds t \<and> set ds \<subseteq> (if m = n then {c} else {}) \<and> (distinct (column_names t) \<longrightarrow> distinct (column_names ?t))"
    by (cases "m = n \<and> col_name c \<notin> set (column_names t)")
      (auto simp: ensured_def intro: exI [of _ "[c]"] exI [of _ "[]"])
  from Cons.IH [of ?t] obtain cs where cs: "ensured_all ms n ?t = extend cs ?t" "set cs \<subseteq> {c. (n, c) \<in> set ms}"
    "distinct (column_names ?t) \<longrightarrow> distinct (column_names (extend cs ?t))" by blast
  from first obtain ds where ds: "?t = extend ds t" "set ds \<subseteq> (if m = n then {c} else {})"
    "distinct (column_names t) \<longrightarrow> distinct (column_names ?t)" by blast
  have both: "extend cs ?t = extend (ds @ cs) t" by (simp only: ds(1) extend_simps(5))
  have "ensured_all (mc # ms) n t = ensured_all ms n ?t" by (simp add: mc)
  then have "ensured_all (mc # ms) n t = extend (ds @ cs) t" unfolding cs(1) both .
  moreover have "set (ds @ cs) \<subseteq> {c. (n, c) \<in> set (mc # ms)}" using cs(2) ds(2) mc by (auto split: if_splits)
  moreover have "distinct (column_names t) \<longrightarrow> distinct (column_names (extend (ds @ cs) t))"
    using cs(3) ds(3) unfolding both by blast
  ultimately show ?case by blast
qed

lemma ensured_all_has: "(n, c) \<in> set ms \<Longrightarrow> col_name c \<in> set (column_names (ensured_all ms n t))"
proof (induction ms arbitrary: t)
  case (Cons mc ms)
  obtain m d where mc: "mc = (m, d)" by force
  show ?case
  proof (cases "(n, c) = mc")
    case True
    then have "col_name c \<in> set (column_names (ensured d t))" "m = n" using mc by (auto simp: ensured_def)
    moreover obtain cs where "ensured_all ms n (ensured d t) = extend cs (ensured d t)" using ensured_all_extends by blast
    ultimately show ?thesis using mc by simp
  next
    case False
    then show ?thesis using Cons.prems mc by (auto intro: Cons.IH)
  qed
qed simp

section \<open>A database that is ready\<close>

text \<open>The columns of a table against those of the schema: what a statement does not name can be left out.\<close>

definition compatible :: "sql_column list \<Rightarrow> sql_table \<Rightarrow> bool" where
  "compatible cols t \<longleftrightarrow> (\<forall>c \<in> set (t_columns t).
     case List.find (\<lambda>d. col_name d = col_name c) cols of
       None \<Rightarrow> \<not> (col_not_null c \<and> col_default c = SqlNull)
     | Some d \<Rightarrow> col_not_null c \<longrightarrow> col_not_null d)"

definition ready :: "sql_db \<Rightarrow> bool" where
  "ready db \<longleftrightarrow> proper_db db \<and> (\<forall>n cols u. map_of SCHEMA n = Some (cols, u) \<longrightarrow>
     (\<exists>t. db_tables db n = Some t \<and> t_unique t = u \<and> set (map col_name cols) \<subseteq> set (column_names t) \<and> compatible cols t))"

definition all_migrations :: "(string \<times> sql_column) list" where
  "all_migrations = type_migrations @ function_migrations"

definition legacy_rows :: "sql_db \<Rightarrow> string \<Rightarrow> string list \<Rightarrow> (sql_value list \<Rightarrow> row_error + 'a option) \<Rightarrow> bool" where
  "legacy_rows db n cols from_row \<longleftrightarrow> (\<forall>t. db_tables db n = Some t \<longrightarrow> set cols \<subseteq> set (column_names t) \<and>
     (\<forall>r \<in> set (t_rows t). \<exists>x. from_row (map (value_at r) cols) = Inr x))"

text \<open>
  What any version may have left: no table, or a table without columns that were added since, or with columns
  that nothing writes any more.
\<close>

definition openable :: "sql_db \<Rightarrow> bool" where
  "openable db \<longleftrightarrow> proper_db db \<and>
     (\<forall>n cols u t. map_of SCHEMA n = Some (cols, u) \<longrightarrow> db_tables db n = Some t \<longrightarrow> t_unique t = u \<and> compatible cols t \<and>
       (\<forall>c \<in> set cols. col_name c \<in> set (column_names t) \<or>
         db_user_version db < SCHEMA_VERSION \<and> (\<exists>d. (n, d) \<in> set all_migrations \<and> col_name d = col_name c))) \<and>
     (db_user_version db < SCHEMA_VERSION \<longrightarrow>
       legacy_rows db ''external_marks'' [''usr'', ''external'', ''decided_at''] mark_from_row \<and>
       legacy_rows db ''external_name_regexes'' [''id'', ''pattern'', ''created_at''] name_regex_from_row \<and>
       legacy_rows db ''external_path_regexes'' [''id'', ''pattern'', ''created_at''] path_regex_from_row)"

lemma schema_distinct: "distinct (map fst SCHEMA)" "list_all (\<lambda>(n, cols, u). distinct (map col_name cols)) SCHEMA"
  by code_simp+

lemma migrations_in_schema:
  "list_all (\<lambda>(n, c). case map_of SCHEMA n of None \<Rightarrow> False
     | Some (cols, u) \<Rightarrow> list_ex (\<lambda>d. col_name d = col_name c \<and> col_not_null d) cols) all_migrations"
  by code_simp

lemma legacy_not_in_schema:
  "map_of SCHEMA ''external_marks'' = None" "map_of SCHEMA ''external_name_regexes'' = None" "map_of SCHEMA ''external_path_regexes'' = None"
  by code_simp+

lemma schema_columns: "map_of SCHEMA n = Some (cols, u) \<Longrightarrow> distinct (map col_name cols)"
  using schema_distinct(2) by (auto simp: list_all_iff dest!: map_of_SomeD)

lemma find_column: "distinct (map col_name cols) \<Longrightarrow> d \<in> set cols \<Longrightarrow> List.find (\<lambda>e. col_name e = col_name d) cols = Some d"
  by (induction cols) auto

lemma new_compatible: "distinct (map col_name cols) \<Longrightarrow> compatible cols \<lparr>t_columns = cols, t_unique = u, t_rows = []\<rparr>"
  by (auto simp: compatible_def find_column)

lemma extended_compatible:
  assumes "map_of SCHEMA n = Some (cols, u)" and "compatible cols t" and "set cs \<subseteq> {c. (n, c) \<in> set all_migrations}"
  shows "compatible cols (extend cs t)"
  unfolding compatible_def
proof
  fix c assume "c \<in> set (t_columns (extend cs t))"
  then consider "c \<in> set (t_columns t)" | "(n, c) \<in> set all_migrations" using assms(3) by auto
  then show "case List.find (\<lambda>d. col_name d = col_name c) cols of
       None \<Rightarrow> \<not> (col_not_null c \<and> col_default c = SqlNull) | Some d \<Rightarrow> col_not_null c \<longrightarrow> col_not_null d"
  proof cases
    case 1
    then show ?thesis using assms(2) by (simp add: compatible_def)
  next
    case 2
    with migrations_in_schema assms(1) obtain d where "d \<in> set cols" "col_name d = col_name c" "col_not_null d"
      by (fastforce simp: list_all_iff list_ex_iff)
    then show ?thesis using find_column [OF schema_columns [OF assms(1)], of d] by simp
  qed
qed

section \<open>Creating and migrating\<close>

lemma created:
  "\<exists>db'. each (\<lambda>(n, cols, u). of_statement (create_table n cols u)) L db = Some ((), db') \<and>
    db_user_version db' = db_user_version db \<and>
    (\<forall>n. db_tables db' n = (case db_tables db n of Some t \<Rightarrow> Some t
       | None \<Rightarrow> map_option (\<lambda>(cols, u). \<lparr>t_columns = cols, t_unique = u, t_rows = []\<rparr>) (map_of L n)))"
proof (induction L arbitrary: db)
  case Nil
  then show ?case by (simp add: yields_def split: option.split)
next
  case (Cons x L)
  obtain n cols u where x: "x = (n, cols, u)" by (cases x)
  let ?db = "snd (projr (create_table n cols u db))"
  from Cons.IH [of ?db] obtain db' where db': "each (\<lambda>(n, cols, u). of_statement (create_table n cols u)) L ?db = Some ((), db')"
    "db_user_version db' = db_user_version ?db"
    "\<forall>m. db_tables db' m = (case db_tables ?db m of Some t \<Rightarrow> Some t
       | None \<Rightarrow> map_option (\<lambda>(cols, u). \<lparr>t_columns = cols, t_unique = u, t_rows = []\<rparr>) (map_of L m))"
    by blast
  have "of_statement (create_table n cols u) db = Some ((), ?db)" by (simp add: of_statement_def create_table_def)
  with db'(1) have "each (\<lambda>(n, cols, u). of_statement (create_table n cols u)) (x # L) db = Some ((), db')"
    by (simp add: x after_def)
  moreover have "db_user_version ?db = db_user_version db"
    "db_tables ?db m = (if m = n \<and> db_tables db n = None then Some \<lparr>t_columns = cols, t_unique = u, t_rows = []\<rparr> else db_tables db m)" for m
    by (simp_all add: create_table_def)
  ultimately show ?case using db'(2,3) x
    by (intro exI [of _ db']) (auto split: option.splits if_splits)
qed

definition creates :: "sql_db \<Rightarrow> (unit \<times> sql_db) option" where
  "creates = each (\<lambda>(n, cols, u). of_statement (create_table n cols u)) SCHEMA"

lemma implements_create: "implements create_tables creates"
  unfolding create_tables_def creates_def by (rule implements_for_each) (simp add: case_prod_beta implements_call)

lemma implements_migrations:
  "implements migrate_type_columns (each ensures type_migrations)"
  "implements migrate_function_columns (each ensures function_migrations)"
  unfolding migrate_type_columns_def migrate_function_columns_def
  by (intro implements_for_each; simp add: case_prod_beta implements_ensure [of "fst x" "snd x" for x, simplified])+

lemma each_append: "each g (xs @ ys) = after (each g xs) (\<lambda>_. each g ys)"
  by (induction xs) (auto simp: fun_eq_iff after_def yields_def split: bind_splits)

text \<open>All migrations on a database with every table.\<close>

lemma migrated:
  assumes "proper_db db" and "\<And>n cols u. map_of SCHEMA n = Some (cols, u) \<Longrightarrow> \<exists>t. db_tables db n = Some t \<and> t_unique t = u \<and>
      compatible cols t \<and> (\<forall>c \<in> set cols. col_name c \<in> set (column_names t) \<or> (\<exists>d. (n, d) \<in> set all_migrations \<and> col_name d = col_name c))"
  shows "\<exists>db'. each ensures all_migrations db = Some ((), db') \<and> ready db' \<and> db_user_version db' = db_user_version db \<and>
    (\<forall>n t. db_tables db n = Some t \<longrightarrow> (\<exists>cs. db_tables db' n = Some (extend cs t))) \<and>
    (\<forall>n. map_of SCHEMA n = None \<longrightarrow> db_tables db' n = db_tables db n)"
proof -
  have "db_tables db m \<noteq> None" if "m \<in> fst ` set all_migrations" for m
    using that migrations_in_schema assms(2) by (fastforce simp: list_all_iff split: option.splits)
  then obtain db' where db': "each ensures all_migrations db = Some ((), db')" "db_user_version db' = db_user_version db"
    "\<And>n. db_tables db' n = map_option (ensured_all all_migrations n) (db_tables db n)"
    using each_ensured by blast
  have ext: "\<exists>cs. ensured_all all_migrations n t = extend cs t \<and> set cs \<subseteq> {c. (n, c) \<in> set all_migrations} \<and>
      (distinct (column_names t) \<longrightarrow> distinct (column_names (extend cs t)))" for n t
    by (rule ensured_all_extends)
  have "ready db'"
    unfolding ready_def
  proof (intro conjI allI impI)
    show "proper_db db'" using assms(1) ext unfolding proper_db_def db'(3) by (metis map_option_eq_Some)
    fix n cols u assume schema: "map_of SCHEMA n = Some (cols, u)"
    with assms(2) obtain t where t: "db_tables db n = Some t" "t_unique t = u" "compatible cols t"
      "\<forall>c \<in> set cols. col_name c \<in> set (column_names t) \<or> (\<exists>d. (n, d) \<in> set all_migrations \<and> col_name d = col_name c)" by blast
    from ext [of n t] obtain cs where cs: "ensured_all all_migrations n t = extend cs t" "set cs \<subseteq> {c. (n, c) \<in> set all_migrations}" by blast
    have "col_name c \<in> set (column_names (extend cs t))" if "c \<in> set cols" for c
      using t(4) that ensured_all_has [of n _ all_migrations t] unfolding cs(1) by fastforce
    then show "\<exists>t. db_tables db' n = Some t \<and> t_unique t = u \<and> set (map col_name cols) \<subseteq> set (column_names t) \<and> compatible cols t"
      using t(1,2) cs(1) extended_compatible [OF schema t(3) cs(2)] by (auto simp: db'(3))
  qed
  moreover have "ensured_all all_migrations n t = t" if "map_of SCHEMA n = None" for n t
  proof -
    have "{c. (n, c) \<in> set all_migrations} = {}" using migrations_in_schema that by (force simp: list_all_iff)
    then show ?thesis using ext [of n t] by auto
  qed
  ultimately show ?thesis using db' ext by (fastforce simp: option.map_ident_strong)
qed

section \<open>The old marks\<close>

definition legacy_list :: "sql_db \<Rightarrow> string \<Rightarrow> string list \<Rightarrow> (sql_value list \<Rightarrow> row_error + 'a option) \<Rightarrow> 'a list" where
  "legacy_list db n cols from_row =
     (case db_tables db n of
        None \<Rightarrow> []
      | Some t \<Rightarrow> (case collect_rows from_row (map (\<lambda>r. map (value_at r) cols) (t_rows t)) of Inl _ \<Rightarrow> [] | Inr xs \<Rightarrow> xs))"

definition queries_legacy ::
  "string \<Rightarrow> string list \<Rightarrow> (sql_value list \<Rightarrow> row_error + 'a option) \<Rightarrow> sql_db \<Rightarrow> ('a list \<times> sql_db) option" where
  "queries_legacy n cols from_row =
     after (after (of_statement (count_tables n)) (\<lambda>k. yields (0 < k))) (\<lambda>there.
       if there then queries n cols (\<lambda>_. True) (\<lambda>rows. rows) from_row else yields [])"

lemma implements_query_legacy [intro]: "implements (query_if_exists n cols from_row) (queries_legacy n cols from_row)"
proof -
  have "implements (if there then query_rows n cols (\<lambda>_. True) (\<lambda>rows. rows) from_row else done_with [])
      (if there then queries n cols (\<lambda>_. True) (\<lambda>rows. rows) from_row else yields [])" for there
    by (simp add: implements_query implements_done)
  then show ?thesis unfolding query_if_exists_def table_exists_def queries_legacy_def
    by (intro implements_bind implements_call implements_done)
qed

lemma collects: "(\<And>r. r \<in> set rs \<Longrightarrow> \<exists>x. f r = Inr x) \<Longrightarrow> \<exists>xs. collect_rows f rs = Inr xs"
proof (induction rs)
  case (Cons r rs)
  then obtain x xs where "f r = Inr x" "collect_rows f rs = Inr xs" by (metis list.set_intros)
  then show ?case by simp
qed simp

lemma queried_legacy:
  assumes "legacy_rows db n cols from_row"
  shows "queries_legacy n cols from_row db = Some (legacy_list db n cols from_row, db)"
proof (cases "db_tables db n")
  case None
  then show ?thesis by (simp add: queries_legacy_def after_def of_statement_def count_tables_def yields_def legacy_list_def)
next
  case (Some t)
  with assms have "\<exists>xs. collect_rows from_row (map (\<lambda>r. map (value_at r) cols) (t_rows t)) = Inr xs"
    by (intro collects) (auto simp: legacy_rows_def)
  with Some assms show ?thesis
    by (auto simp: queries_legacy_def after_def of_statement_def count_tables_def yields_def legacy_list_def queries_def legacy_rows_def)
qed

abbreviation old_marks :: "sql_db \<Rightarrow> external_mark list" where
  "old_marks db \<equiv> legacy_list db ''external_marks'' [''usr'', ''external'', ''decided_at''] mark_from_row"

abbreviation old_names :: "sql_db \<Rightarrow> name_regex_rule list" where
  "old_names db \<equiv> legacy_list db ''external_name_regexes'' [''id'', ''pattern'', ''created_at''] name_regex_from_row"

abbreviation old_paths :: "sql_db \<Rightarrow> path_regex_rule list" where
  "old_paths db \<equiv> legacy_list db ''external_path_regexes'' [''id'', ''pattern'', ''created_at''] path_regex_from_row"

definition drops :: "string list \<Rightarrow> sql_db \<Rightarrow> (unit \<times> sql_db) option" where
  "drops = each (\<lambda>t. of_statement (drop_table t))"

lemma implements_drop [intro]: "implements (for_each (\<lambda>t. sql_call (drop_table t)) ts) (drops ts)"
  unfolding drops_def by (intro implements_for_each implements_call)

lemma dropped:
  "\<exists>db'. drops ts db = Some ((), db') \<and> db_user_version db' = db_user_version db \<and>
    (\<forall>n. db_tables db' n = (if n \<in> set ts then None else db_tables db n))"
proof (induction ts arbitrary: db)
  case Nil
  then show ?case by (simp add: drops_def yields_def)
next
  case (Cons t ts)
  let ?db = "db\<lparr>db_tables := (db_tables db)(t := None)\<rparr>"
  from Cons.IH [of ?db] show ?case
    by (fastforce simp: drops_def after_def of_statement_def drop_table_def)
qed

definition migrates :: "sql_db \<Rightarrow> (unit \<times> sql_db) option" where
  "migrates =
     after (queries_legacy ''external_marks'' [''usr'', ''external'', ''decided_at''] mark_from_row) (\<lambda>_.
     after (queries_legacy ''external_name_regexes'' [''id'', ''pattern'', ''created_at''] name_regex_from_row) (\<lambda>_.
     after (queries_legacy ''external_path_regexes'' [''id'', ''pattern'', ''created_at''] path_regex_from_row) (\<lambda>_.
     after (yields ()) (\<lambda>_. drops [''external_marks'', ''external_name_regexes'', ''external_path_regexes'']))))"

lemma implements_migrate: "implements migrate_externals_to_text_file migrates"
  unfolding migrate_externals_to_text_file_def migrates_def
  by (intro implements_bind implements_query_legacy implements_externals implements_drop io_only_migrate)

section \<open>Opening\<close>

definition gets_version :: "sql_db \<Rightarrow> (int \<times> sql_db) option" where
  "gets_version db = Some (db_user_version db, db)"

definition sets_version :: "int \<Rightarrow> sql_db \<Rightarrow> (unit \<times> sql_db) option" where
  "sets_version v db = Some ((), db\<lparr>db_user_version := v\<rparr>)"

definition opens :: "sql_db \<Rightarrow> (unit \<times> sql_db) option" where
  "opens = after creates (\<lambda>_. after gets_version (\<lambda>v.
     if v < SCHEMA_VERSION then
       after (each ensures type_migrations) (\<lambda>_. after (each ensures function_migrations) (\<lambda>_.
       after (if v < 2 then migrates else yields ()) (\<lambda>_. sets_version SCHEMA_VERSION)))
     else yields ()))"

lemma implements_nothing: "implements (sql_call no_statement) (yields ())"
  using implements_call [of no_statement] by (simp add: of_statement_def [abs_def] no_statement_def [abs_def] yields_def [abs_def])

lemma implements_version: "implements get_version gets_version" "implements (set_version v) (sets_version v)"
  using implements_call [of "\<lambda>db. Inr (db_user_version db, db)"] implements_call [of "\<lambda>db. Inr ((), db\<lparr>db_user_version := v\<rparr>)"]
  by (simp_all add: get_version_def set_version_def gets_version_def [abs_def] sets_version_def [abs_def] of_statement_def [abs_def])

lemma implements_open: "implements open_store opens"
proof -
  have "implements (if v < SCHEMA_VERSION then
         or_return migrate_type_columns (\<lambda>_.
         or_return migrate_function_columns (\<lambda>_.
         or_return (if v < 2 then migrate_externals_to_text_file else done_with ()) (\<lambda>_. set_version SCHEMA_VERSION)))
       else done_with ())
     (if v < SCHEMA_VERSION then
       after (each ensures type_migrations) (\<lambda>_. after (each ensures function_migrations) (\<lambda>_.
       after (if v < 2 then migrates else yields ()) (\<lambda>_. sets_version SCHEMA_VERSION)))
     else yields ())" for v
  proof -
    have "implements (if v < 2 then migrate_externals_to_text_file else done_with ()) (if v < 2 then migrates else yields ())"
      by (simp add: implements_migrate implements_done)
    then have "implements (or_return migrate_type_columns (\<lambda>_. or_return migrate_function_columns (\<lambda>_.
         or_return (if v < 2 then migrate_externals_to_text_file else done_with ()) (\<lambda>_. set_version SCHEMA_VERSION))))
       (after (each ensures type_migrations) (\<lambda>_. after (each ensures function_migrations) (\<lambda>_.
       after (if v < 2 then migrates else yields ()) (\<lambda>_. sets_version SCHEMA_VERSION))))"
      by (intro implements_bind implements_migrations implements_version(2))
    then show ?thesis by (simp add: implements_done)
  qed
  then have "implements open_store (after (yields ()) (\<lambda>_. after (yields ()) (\<lambda>_. after (yields ()) (\<lambda>_. after (yields ()) (\<lambda>_. opens)))))"
    unfolding open_store_def opens_def open_connection_def
    by (intro implements_bind implements_externals io_only_create implements_nothing implements_create implements_version(1))
  then show ?thesis by simp
qed

text \<open>The database with every table, which the migrations start from.\<close>

lemma created_schema:
  assumes "openable db"
  obtains db1 where "creates db = Some ((), db1)" and "db_user_version db1 = db_user_version db" and "proper_db db1"
    and "\<And>n t. db_tables db n = Some t \<Longrightarrow> db_tables db1 n = Some t"
    and "\<And>n. map_of SCHEMA n = None \<Longrightarrow> db_tables db1 n = db_tables db n"
    and "\<And>n cols u. map_of SCHEMA n = Some (cols, u) \<Longrightarrow> \<exists>t. db_tables db1 n = Some t \<and> t_unique t = u \<and> compatible cols t \<and>
      (\<forall>c \<in> set cols. col_name c \<in> set (column_names t) \<or>
        db_user_version db < SCHEMA_VERSION \<and> (\<exists>d. (n, d) \<in> set all_migrations \<and> col_name d = col_name c))"
proof -
  from created [of SCHEMA db] obtain db1 where db1: "creates db = Some ((), db1)" "db_user_version db1 = db_user_version db"
    "\<And>n. db_tables db1 n = (case db_tables db n of Some t \<Rightarrow> Some t
       | None \<Rightarrow> map_option (\<lambda>(cols, u). \<lparr>t_columns = cols, t_unique = u, t_rows = []\<rparr>) (map_of SCHEMA n))"
    unfolding creates_def by blast
  show thesis
  proof (rule that [OF db1(1,2)])
    show "proper_db db1"
      using assms schema_columns
      by (auto simp: proper_db_def openable_def db1(3) column_names_def split: option.splits)
    show "\<exists>t. db_tables db1 n = Some t \<and> t_unique t = u \<and> compatible cols t \<and>
        (\<forall>c \<in> set cols. col_name c \<in> set (column_names t) \<or>
          db_user_version db < SCHEMA_VERSION \<and> (\<exists>d. (n, d) \<in> set all_migrations \<and> col_name d = col_name c))"
      if "map_of SCHEMA n = Some (cols, u)" for n cols u
    proof (cases "db_tables db n")
      case None
      then show ?thesis using that new_compatible [OF schema_columns [OF that]]
        by (simp add: db1(3) column_names_def)
    next
      case (Some t)
      then show ?thesis using that assms by (auto simp: db1(3) openable_def)
    qed
  qed (simp_all add: db1(3) split: option.splits)
qed

lemma ready_after:
  assumes "ready db" and "\<And>n. db_tables db' n = (if n \<in> N then None else db_tables db n)" and "\<And>n. n \<in> N \<Longrightarrow> map_of SCHEMA n = None"
  shows "ready db'"
  unfolding ready_def
proof (intro conjI allI impI)
  show "proper_db db'" using assms(1) by (simp add: ready_def proper_db_def assms(2))
  fix n cols u assume "map_of SCHEMA n = Some (cols, u)"
  with assms(1,3) show "\<exists>t. db_tables db' n = Some t \<and> t_unique t = u \<and> set (map col_name cols) \<subseteq> set (column_names t) \<and> compatible cols t"
    unfolding ready_def assms(2) by fastforce
qed

lemma opened:
  assumes "openable db"
  shows "\<exists>db'. opens db = Some ((), db') \<and> ready db' \<and> SCHEMA_VERSION \<le> db_user_version db' \<and>
    (\<forall>n t. map_of SCHEMA n \<noteq> None \<longrightarrow> db_tables db n = Some t \<longrightarrow> (\<exists>cs. db_tables db' n = Some (extend cs t)))"
proof -
  obtain db1 where db1: "creates db = Some ((), db1)" "db_user_version db1 = db_user_version db" "proper_db db1"
    "\<And>n t. db_tables db n = Some t \<Longrightarrow> db_tables db1 n = Some t" "\<And>n. map_of SCHEMA n = None \<Longrightarrow> db_tables db1 n = db_tables db n"
    "\<And>n cols u. map_of SCHEMA n = Some (cols, u) \<Longrightarrow> \<exists>t. db_tables db1 n = Some t \<and> t_unique t = u \<and> compatible cols t \<and>
      (\<forall>c \<in> set cols. col_name c \<in> set (column_names t) \<or>
        db_user_version db < SCHEMA_VERSION \<and> (\<exists>d. (n, d) \<in> set all_migrations \<and> col_name d = col_name c))"
    using created_schema [OF assms] by blast
  show ?thesis
  proof (cases "db_user_version db < SCHEMA_VERSION")
    case False
    then have "opens db = Some ((), db1)" using db1(1,2) by (simp add: opens_def after_def gets_version_def yields_def)
    moreover have "ready db1" unfolding ready_def using db1(3,6) False by fastforce
    moreover have "\<exists>cs. db_tables db1 n = Some (extend cs t)" if "db_tables db n = Some t" for n t
      using db1(4) [OF that] by (intro exI [of _ "[]"]) simp
    ultimately show ?thesis using False db1(2) by (intro exI [of _ db1]) auto
  next
    case True
    have "\<exists>t. db_tables db1 n = Some t \<and> t_unique t = u \<and> compatible cols t \<and>
        (\<forall>c \<in> set cols. col_name c \<in> set (column_names t) \<or> (\<exists>d. (n, d) \<in> set all_migrations \<and> col_name d = col_name c))"
      if "map_of SCHEMA n = Some (cols, u)" for n cols u
      using db1(6) [OF that] by blast
    from migrated [OF db1(3) this] obtain db2 where db2: "each ensures all_migrations db1 = Some ((), db2)" "ready db2"
      "db_user_version db2 = db_user_version db1"
      "\<And>n t. db_tables db1 n = Some t \<Longrightarrow> \<exists>cs. db_tables db2 n = Some (extend cs t)"
      "\<And>n. map_of SCHEMA n = None \<Longrightarrow> db_tables db2 n = db_tables db1 n"
      by blast
    have same: "db_tables db2 n = db_tables db n" if "map_of SCHEMA n = None" for n
      using db1(5) db2(5) that by simp
    have legacy: "legacy_rows db2 ''external_marks'' [''usr'', ''external'', ''decided_at''] mark_from_row"
      "legacy_rows db2 ''external_name_regexes'' [''id'', ''pattern'', ''created_at''] name_regex_from_row"
      "legacy_rows db2 ''external_path_regexes'' [''id'', ''pattern'', ''created_at''] path_regex_from_row"
      using assms True unfolding openable_def legacy_rows_def by (simp_all add: same legacy_not_in_schema)
    let ?old = "[''external_marks'', ''external_name_regexes'', ''external_path_regexes'']"
    obtain db3 where db3: "drops ?old db2 = Some ((), db3)" "db_user_version db3 = db_user_version db2"
      "\<And>n. db_tables db3 n = (if n \<in> set ?old then None else db_tables db2 n)"
      using dropped by blast
    have "migrates db2 = Some ((), db3)"
      using legacy [THEN queried_legacy] db3(1) by (simp add: migrates_def after_def)
    moreover have "each ensures type_migrations db1 \<bind> (\<lambda>(x, d). each ensures function_migrations d) = Some ((), db2)"
      using db2(1) by (simp add: all_migrations_def each_append after_def)
    ultimately have "opens db = Some ((), db3\<lparr>db_user_version := SCHEMA_VERSION\<rparr>)"
      using db1(1,2) True by (auto simp: opens_def after_def gets_version_def sets_version_def SCHEMA_VERSION_def bind_eq_Some_conv)
    moreover have "ready (db3\<lparr>db_user_version := SCHEMA_VERSION\<rparr>)"
      by (rule ready_after [OF db2(2), of _ "set ?old"]) (auto simp: db3(3) legacy_not_in_schema)
    moreover have "\<exists>cs. db_tables db3 n = Some (extend cs t)" if "db_tables db n = Some t" "map_of SCHEMA n \<noteq> None" for n t
      using db2(4) [OF db1(4) [OF that(1)]] that(2) legacy_not_in_schema by (auto simp: db3(3))
    ultimately show ?thesis by (intro exI [of _ "db3\<lparr>db_user_version := SCHEMA_VERSION\<rparr>"]) auto
  qed
qed

end
