(* ===== verification/Store_Ready.thy ===== *)
theory Store_Ready
  imports Store_Open
begin

text \<open>
  A database that is ready takes the catalogs: replacing them fails by errors of the engine only, when JSON can
  write their values and no two functions, records or enums share an identity.
\<close>

lemma ready_table:
  assumes "ready db" and "map_of SCHEMA name = Some (scols, u)"
  obtains t where "db_tables db name = Some t" and "t_unique t = u" and "writable (map col_name scols) t" and "compatible scols t"
proof -
  from assms obtain t where t: "db_tables db name = Some t" "t_unique t = u" "set (map col_name scols) \<subseteq> set (column_names t)"
    "compatible scols t" unfolding ready_def by blast
  have "distinct (column_names t)" using assms(1) t(1) by (auto simp: ready_def proper_db_def)
  moreover have "\<not> (col_not_null c \<and> col_default c = SqlNull)"
    if "c \<in> set (t_columns t)" "col_name c \<notin> set (map col_name scols)" for c
  proof -
    have "List.find (\<lambda>d. col_name d = col_name c) scols = None" using that(2) by (simp add: find_None_iff) (metis imageI)
    then show ?thesis using t(4) that(1) by (auto simp: compatible_def)
  qed
  ultimately have "writable (map col_name scols) t" using t(3) by (auto simp: writable_def)
  with t that show thesis by blast
qed

lemma ready_put:
  assumes "ready db" and "db_tables db name = Some t"
  shows "ready (put_table name (t\<lparr>t_rows := rows\<rparr>) db)"
  unfolding ready_def
proof (intro conjI allI impI)
  show "proper_db (put_table name (t\<lparr>t_rows := rows\<rparr>) db)" using assms by (auto simp: ready_def proper_db_def)
  fix n cols u assume "map_of SCHEMA n = Some (cols, u)"
  with assms(1) obtain q where q: "db_tables db n = Some q" "t_unique q = u" "set (map col_name cols) \<subseteq> set (column_names q)"
    "compatible cols q" unfolding ready_def by blast
  show "\<exists>q. db_tables (put_table name (t\<lparr>t_rows := rows\<rparr>) db) n = Some q \<and> t_unique q = u \<and>
      set (map col_name cols) \<subseteq> set (column_names q) \<and> compatible cols q"
  proof (cases "n = name")
    case True
    then have "q = t" using q(1) assms(2) by simp
    with True q show ?thesis by (simp add: compatible_def)
  qed (use q in auto)
qed

text \<open>Values that are null only where the schema lets them be.\<close>

definition fit :: "sql_column list \<Rightarrow> sql_value list \<Rightarrow> bool" where
  "fit scols vals \<longleftrightarrow> list_all2 (\<lambda>d v. col_not_null d \<longrightarrow> v \<noteq> SqlNull) scols vals"

lemma fit_no_nulls:
  assumes "fit scols vals" and "compatible scols t" and "distinct (map col_name scols)"
  shows "length vals = length (map col_name scols)" and "no_nulls t (map col_name scols) vals"
proof -
  show len: "length vals = length (map col_name scols)" using assms(1) by (auto simp: fit_def dest: list_all2_lengthD)
  show "no_nulls t (map col_name scols) vals"
    unfolding no_nulls_def
  proof (intro ballI allI impI)
    fix c v assume c: "c \<in> set (t_columns t)" "col_not_null c" and "(col_name c, v) \<in> set (zip (map col_name scols) vals)"
    then obtain i where i: "i < length scols" "col_name (scols ! i) = col_name c" "vals ! i = v"
      using len by (auto simp: set_zip)
    have "List.find (\<lambda>d. col_name d = col_name c) scols = Some (scols ! i)"
      using find_column [OF assms(3), of "scols ! i"] i by simp
    then have "col_not_null (scols ! i)" using assms(2) c by (auto simp: compatible_def)
    then show "v \<noteq> SqlNull" using assms(1) i by (auto simp: fit_def list_all2_conv_all_nth)
  qed
qed

lemma replace_ready:
  assumes "ready db" and "map_of SCHEMA name = Some (scols, None)" and "cols = map col_name scols"
    and "list_all (\<lambda>x. \<exists>vals. row_of x = Inr vals \<and> fit scols vals) xs"
  shows "\<exists>db'. replaces name cols row_of xs db = Some ((), db') \<and> ready db'"
proof -
  obtain t where t: "db_tables db name = Some t" "t_unique t = None" "writable (map col_name scols) t" "compatible scols t"
    using ready_table [OF assms(1,2)] .
  let ?vss = "map (\<lambda>x. projr (row_of x)) xs"
  have "map row_of xs = map Inr ?vss" using assms(4) by (induction xs) auto
  moreover have "fit scols vals" if "vals \<in> set ?vss" for vals using that assms(4) by (auto simp: list_all_iff)
  ultimately have "replaces name cols row_of xs db = Some ((), put_table name (t\<lparr>t_rows := map (new_row t cols) ?vss\<rparr>) db)"
    using t fit_no_nulls [OF _ t(4) schema_columns [OF assms(2)]] unfolding assms(3) by (intro replace_succeeds) auto
  then show ?thesis using ready_put [OF assms(1) t(1)] by blast
qed

lemma schema_of_types:
  "case map_of SCHEMA ''type_declarations'' of Some (scols, None) \<Rightarrow> ''usr'' \<in> set (map col_name scols) | _ \<Rightarrow> False"
  "case map_of SCHEMA ''type_mappings'' of Some (_, Some u) \<Rightarrow> u = ''type_usr'' | _ \<Rightarrow> False"
  by code_simp+

lemma prune_ready:
  assumes "ready db"
  shows "\<exists>k db'. of_statement prune_mappings db = Some (k, db') \<and> ready db'"
proof -
  obtain scols where types: "map_of SCHEMA ''type_declarations'' = Some (scols, None)" "''usr'' \<in> set (map col_name scols)"
    using schema_of_types(1) by (cases "map_of SCHEMA ''type_declarations''") (auto split: option.splits)
  obtain mcols u where mappings: "map_of SCHEMA ''type_mappings'' = Some (mcols, u)"
    using schema_of_types(2) by (cases "map_of SCHEMA ''type_mappings''") auto
  obtain t where t: "db_tables db ''type_declarations'' = Some t" "writable (map col_name scols) t"
    using ready_table [OF assms types(1)] .
  then have "set [''usr''] \<subseteq> set (column_names t)" using types(2) by (auto simp: writable_def)
  moreover obtain m where m: "db_tables db ''type_mappings'' = Some m" using ready_table [OF assms mappings] .
  ultimately show ?thesis using t(1) ready_put [OF assms m]
    by (auto simp: of_statement_def prune_mappings_def delete_from_def on_table_def Let_def)
qed

lemma delete_ready:
  assumes "ready db" and "map_of SCHEMA name = Some (scols, u)"
  shows "\<exists>k db'. deletes name db = Some (k, db') \<and> ready db'"
proof -
  obtain t where "db_tables db name = Some t" using ready_table [OF assms] .
  then show ?thesis using ready_put [OF assms(1)] by (auto simp: deletes_def delete_all)
qed

lemma ir_inserts_succeed:
  assumes "db_tables db name = Some t" and "writable ir_columns t" and "t_unique t = Some ''usr''" and "compatible scols t"
    and "map col_name scols = ir_columns" and "distinct (map fst rows)"
    and "\<And>r q. r \<in> set rows \<Longrightarrow> q \<in> set (t_rows t) \<Longrightarrow> value_at q ''usr'' \<noteq> SqlText (fst r)"
  shows "each (inserts_ir name) rows db = Some ((), put_table name (t\<lparr>t_rows := t_rows t @ map (ir_row t) rows\<rparr>) db)"
  using assms
proof (induction rows arbitrary: db t)
  case Nil
  then show ?case by (simp add: yields_def put_same)
next
  case (Cons r rows)
  have w: "distinct (column_names t)" "set ir_columns \<subseteq> set (column_names t)" using Cons.prems(2) by (simp_all add: writable_def)
  have usr: "value_at (ir_row t q) ''usr'' = SqlText (fst q)" for q
    using new_row_values [OF w, of "[SqlText (fst q), SqlText (snd q)]"] by (simp add: ir_row_def)
  have "\<not> key_taken t (ir_row t r)" using Cons.prems(3,7) by (auto simp: key_taken_def list_ex_iff usr)
  moreover have "no_nulls t ir_columns [SqlText (fst r), SqlText (snd r)]" by (auto simp: no_nulls_def)
  ultimately have first: "inserts_ir name r db = Some ((), put_table name (t\<lparr>t_rows := t_rows t @ [ir_row t r]\<rparr>) db)"
    using Cons.prems(1,2) unfolding inserts_ir_def ir_row_def by (intro insert_succeeds) simp_all
  let ?t = "t\<lparr>t_rows := t_rows t @ [ir_row t r]\<rparr>"
  have "each (inserts_ir name) rows (put_table name ?t db) =
      Some ((), put_table name (?t\<lparr>t_rows := t_rows ?t @ map (ir_row ?t) rows\<rparr>) (put_table name ?t db))"
    using Cons.prems by (intro Cons.IH) (auto simp: usr compatible_def rev_image_eqI)
  then show ?case by (simp add: after_def first)
qed

lemma writes_ready:
  assumes "ready db" and "map_of SCHEMA name = Some (scols, Some ''usr'')" and "map col_name scols = ir_columns"
    and "distinct (map fst rows)" and "\<And>t. db_tables db name = Some t \<Longrightarrow> t_rows t = []"
  shows "\<exists>db'. writes_ir name rows db = Some ((), db') \<and> ready db'"
proof -
  obtain t where t: "db_tables db name = Some t" "t_unique t = Some ''usr''" "writable ir_columns t" "compatible scols t"
    using ready_table [OF assms(1,2)] unfolding assms(3) .
  have "each (inserts_ir name) rows db = Some ((), put_table name (t\<lparr>t_rows := t_rows t @ map (ir_row t) rows\<rparr>) db)"
    using t assms(3-5) by (intro ir_inserts_succeed) auto
  moreover have "set ir_columns \<subseteq> set (column_names t)" using t(3) by (simp add: writable_def)
  ultimately show ?thesis using t(1) ready_put [OF assms(1) t(1)]
    by (auto simp: writes_ir_def after_def prepared_def)
qed

lemma schema_of_ir:
  "map_of SCHEMA ''ir_functions'' = Some ([text_nullable ''usr'', text_column ''data''], Some ''usr'')"
  "map_of SCHEMA ''ir_records'' = Some ([text_nullable ''usr'', text_column ''data''], Some ''usr'')"
  "map_of SCHEMA ''ir_enums'' = Some ([text_nullable ''usr'', text_column ''data''], Some ''usr'')"
  by code_simp+

lemma ir_names: "map col_name [text_nullable ''usr'', text_column ''data''] = ir_columns"
  by (simp add: text_nullable_def text_column_def)

lemma replaces_ir_ready:
  assumes "ready db" and texts: "serialize_ir_values (function_to_json J) fs = Inr fd" "serialize_ir_values (record_to_json J) rs = Inr rd"
      "serialize_ir_values (enum_to_json J) es = Inr ed"
    and distinct: "distinct (map f_usr fs)" "distinct (map r_usr rs)" "distinct (map en_usr es)"
  shows "\<exists>db'. replaces_ir J fs rs es db = Some ((), db') \<and> ready db'"
proof -
  obtain k1 d1 where d1: "deletes ''ir_functions'' db = Some (k1, d1)" "ready d1"
    using delete_ready [OF assms(1) schema_of_ir(1)] by blast
  obtain k2 d2 where d2: "deletes ''ir_records'' d1 = Some (k2, d2)" "ready d2"
    using delete_ready [OF d1(2) schema_of_ir(2)] by blast
  obtain k3 d3 where d3: "deletes ''ir_enums'' d2 = Some (k3, d3)" "ready d3"
    using delete_ready [OF d2(2) schema_of_ir(3)] by blast
  note del = d1(1) [THEN deleted] d2(1) [THEN deleted] d3(1) [THEN deleted]
  note same = del [THEN conjunct1, THEN only_changesD(1)]
  have empty: "db_tables d3 ''ir_functions'' = Some t \<Longrightarrow> t_rows t = []" "db_tables d3 ''ir_records'' = Some t \<Longrightarrow> t_rows t = []"
    "db_tables d3 ''ir_enums'' = Some t \<Longrightarrow> t_rows t = []" for t
    using del by (auto simp: same)
  have keys: "map fst (zip (map key xs) ts) = map key xs" if "serialize_ir_values to_json xs = Inr ts"
    for to_json :: "'x \<Rightarrow> string + string" and key :: "'x \<Rightarrow> string" and xs ts
  proof -
    have "length ts = length xs" using that by (induction xs arbitrary: ts) (auto simp: and_then_def split: sum.splits)
    then show ?thesis by simp
  qed
  obtain e1 where e1: "writes_ir ''ir_functions'' (zip (map f_usr fs) fd) d3 = Some ((), e1)" "ready e1"
    using writes_ready [OF d3(2) schema_of_ir(1) ir_names _ empty(1)] keys [OF texts(1)] distinct(1) by metis
  have empty2: "db_tables e1 ''ir_records'' = Some t \<Longrightarrow> t_rows t = []" "db_tables e1 ''ir_enums'' = Some t \<Longrightarrow> t_rows t = []" for t
    using empty(2,3) only_changesD(1) [OF written_ir(1) [OF e1(1)]] by simp_all
  obtain e2 where e2: "writes_ir ''ir_records'' (zip (map r_usr rs) rd) e1 = Some ((), e2)" "ready e2"
    using writes_ready [OF e1(2) schema_of_ir(2) ir_names _ empty2(1)] keys [OF texts(2)] distinct(2) by metis
  have empty3: "db_tables e2 ''ir_enums'' = Some t \<Longrightarrow> t_rows t = []" for t
    using empty2(2) only_changesD(1) [OF written_ir(1) [OF e2(1)]] by simp
  obtain e3 where e3: "writes_ir ''ir_enums'' (zip (map en_usr es) ed) e2 = Some ((), e3)" "ready e3"
    using writes_ready [OF e2(2) schema_of_ir(3) ir_names _ empty3] keys [OF texts(3)] distinct(3) by metis
  show ?thesis using texts d1(1) d2(1) d3(1) e1(1) e2(1) e3 by (simp add: replaces_ir_def after_def result_of_def)
qed

section \<open>Every catalog\<close>

definition null_pattern :: "string \<Rightarrow> (string list \<times> bool list \<times> string option) option" where
  "null_pattern n = map_option (\<lambda>(scols, u). (map col_name scols, map col_not_null scols, u)) (map_of SCHEMA n)"

lemma fit_pattern: "fit scols vals \<longleftrightarrow> list_all2 (\<lambda>b v. b \<longrightarrow> v \<noteq> SqlNull) (map col_not_null scols) vals"
  by (simp add: fit_def list_all2_map1)

lemma replace_fits:
  assumes "ready db" and "null_pattern name = Some (cols, bs, None)"
    and "list_all (\<lambda>x. \<exists>vals. row_of x = Inr vals \<and> list_all2 (\<lambda>b v. b \<longrightarrow> v \<noteq> SqlNull) bs vals) xs"
  shows "\<exists>db'. replaces name cols row_of xs db = Some ((), db') \<and> ready db'"
  using assms by (auto simp: null_pattern_def fit_pattern [symmetric] intro!: replace_ready)

lemma sql_not_null [simp]: "sql_u32 n \<noteq> SqlNull" "sql_bool b \<noteq> SqlNull"
  by (simp_all add: sql_u32_def sql_bool_def)

lemma patterns:
  "null_pattern ''compilation_units'' = Some (unit_columns, [True, True, False, True], None)"
  "null_pattern ''type_declarations'' = Some (type_columns, replicate 9 True, None)"
  "null_pattern ''type_dependencies'' = Some (dependency_columns, replicate 18 True, None)"
  "null_pattern ''type_usages'' = Some (usage_columns, replicate 5 True, None)"
  "null_pattern ''source_files'' = Some (source_columns, replicate 2 True, None)"
  "null_pattern ''function_declarations'' = Some (function_columns, replicate 3 True @ False # replicate 13 True, None)"
  "null_pattern ''call_edges'' = Some (call_columns, [True, False, False, False, True, True, True], None)"
  "null_pattern ''pointer_declarations'' = Some (pointer_columns, replicate 9 True, None)"
  by code_simp+

text \<open>What JSON has to be able to write: the values of this catalog.\<close>

definition json_writes :: "('a \<Rightarrow> string + string) \<Rightarrow> 'a \<Rightarrow> bool" where
  "json_writes to_json x \<longleftrightarrow> \<not> isl (to_json x)"

definition storable :: "serde \<Rightarrow> project_catalogs \<Rightarrow> bool" where
  "storable J c \<longleftrightarrow>
     list_all (\<lambda>u. json_writes (strings_to_json J) (cu_arguments u)) (pc_compilation_units c) \<and>
     list_all (\<lambda>d. json_writes (strings_to_json J) (fd_overridden_usrs d)) (pc_function_declarations c) \<and>
     list_all (json_writes (function_to_json J)) (pc_ir_functions c) \<and> distinct (map f_usr (pc_ir_functions c)) \<and>
     list_all (json_writes (record_to_json J)) (pc_ir_records c) \<and> distinct (map r_usr (pc_ir_records c)) \<and>
     list_all (json_writes (enum_to_json J)) (pc_ir_enums c) \<and> distinct (map en_usr (pc_ir_enums c))"

lemma serializes: "list_all (json_writes to_json) xs \<Longrightarrow> \<exists>ts. serialize_ir_values to_json xs = Inr ts"
proof (induction xs)
  case (Cons x xs)
  then obtain ts where "serialize_ir_values to_json xs = Inr ts" by auto
  with Cons.prems show ?case by (cases "to_json x") (auto simp: json_writes_def)
qed simp

lemma rows_fit:
  "list_all2 (\<lambda>b v. b \<longrightarrow> v \<noteq> SqlNull) (replicate 18 True) (dependency_row d)"
  "list_all2 (\<lambda>b v. b \<longrightarrow> v \<noteq> SqlNull) (replicate 5 True) (usage_row u)"
  "list_all2 (\<lambda>b v. b \<longrightarrow> v \<noteq> SqlNull) (replicate 2 True) (source_row f)"
  "list_all2 (\<lambda>b v. b \<longrightarrow> v \<noteq> SqlNull) [True, False, False, False, True, True, True] (call_row c)"
  "list_all2 (\<lambda>b v. b \<longrightarrow> v \<noteq> SqlNull) (replicate 9 True) (pointer_row p)"
  "list_all2 (\<lambda>b v. b \<longrightarrow> v \<noteq> SqlNull) (replicate 9 True) (type_row t)"
  by (simp_all add: numeral_eq_Suc dependency_row_def type_row_def usage_row_def source_row_def call_row_def pointer_row_def Let_def split: call_resolution.split)

lemma replaces_types_ready: "ready db \<Longrightarrow> \<exists>db'. replaces_types ds db = Some ((), db') \<and> ready db'"
proof -
  assume "ready db"
  then obtain d where d: "replaces ''type_declarations'' type_columns (\<lambda>d. Inr (type_row d)) ds db = Some ((), d)" "ready d"
    using replace_fits [OF _ patterns(2), of db "\<lambda>d. Inr (type_row d)" ds] rows_fit(6) by (auto simp: list_all_iff)
  with prune_ready obtain k e where "of_statement prune_mappings d = Some (k, e)" "ready e" by blast
  with d show ?thesis by (simp add: replaces_types_def after_def yields_def)
qed

lemma json_rows_fit:
  "json_writes (strings_to_json J) (cu_arguments u) \<Longrightarrow>
    \<exists>vals. unit_row J u = Inr vals \<and> list_all2 (\<lambda>b v. b \<longrightarrow> v \<noteq> SqlNull) [True, True, False, True] vals"
  "json_writes (strings_to_json J) (fd_overridden_usrs d) \<Longrightarrow>
    \<exists>vals. function_row J d = Inr vals \<and> list_all2 (\<lambda>b v. b \<longrightarrow> v \<noteq> SqlNull) (replicate 3 True @ False # replicate 13 True) vals"
  by (auto simp: json_writes_def unit_row_def function_row_def and_then_def numeral_eq_Suc split: sum.splits)

lemma replaces_all_ready:
  assumes "ready db" and "storable J c"
  shows "\<exists>db'. replaces_all J c db = Some ((), db') \<and> ready db'"
proof -
  note writes = assms(2) [unfolded storable_def]
  obtain fd rd ed where texts: "serialize_ir_values (function_to_json J) (pc_ir_functions c) = Inr fd"
    "serialize_ir_values (record_to_json J) (pc_ir_records c) = Inr rd" "serialize_ir_values (enum_to_json J) (pc_ir_enums c) = Inr ed"
    using writes serializes by metis
  obtain d1 where d1: "replaces ''compilation_units'' unit_columns (unit_row J) (pc_compilation_units c) db = Some ((), d1)" "ready d1"
    using replace_fits [OF assms(1) patterns(1), of "unit_row J" "pc_compilation_units c"] json_rows_fit(1) writes by (auto simp: list_all_iff)
  obtain d2 where d2: "replaces_types (pc_type_declarations c) d1 = Some ((), d2)" "ready d2"
    using replaces_types_ready [OF d1(2)] by blast
  obtain d3 where d3: "replaces ''type_dependencies'' dependency_columns (\<lambda>d. Inr (dependency_row d)) (pc_type_dependencies c) d2 = Some ((), d3)" "ready d3"
    using replace_fits [OF d2(2) patterns(3), of "\<lambda>d. Inr (dependency_row d)" "pc_type_dependencies c"] rows_fit(1) by (auto simp: list_all_iff)
  obtain d4 where d4: "replaces ''type_usages'' usage_columns (\<lambda>u. Inr (usage_row u)) (pc_type_usages c) d3 = Some ((), d4)" "ready d4"
    using replace_fits [OF d3(2) patterns(4), of "\<lambda>u. Inr (usage_row u)" "pc_type_usages c"] rows_fit(2) by (auto simp: list_all_iff)
  obtain d5 where d5: "replaces ''source_files'' source_columns (\<lambda>f. Inr (source_row f)) (pc_source_files c) d4 = Some ((), d5)" "ready d5"
    using replace_fits [OF d4(2) patterns(5), of "\<lambda>f. Inr (source_row f)" "pc_source_files c"] rows_fit(3) by (auto simp: list_all_iff)
  obtain d6 where d6: "replaces ''function_declarations'' function_columns (function_row J) (pc_function_declarations c) d5 = Some ((), d6)" "ready d6"
    using replace_fits [OF d5(2) patterns(6), of "function_row J" "pc_function_declarations c"] json_rows_fit(2) writes by (auto simp: list_all_iff)
  obtain d7 where d7: "replaces ''call_edges'' call_columns (\<lambda>c. Inr (call_row c)) (pc_call_edges c) d6 = Some ((), d7)" "ready d7"
    using replace_fits [OF d6(2) patterns(7), of "\<lambda>c. Inr (call_row c)" "pc_call_edges c"] rows_fit(4) by (auto simp: list_all_iff)
  obtain d8 where d8: "replaces_ir J (pc_ir_functions c) (pc_ir_records c) (pc_ir_enums c) d7 = Some ((), d8)" "ready d8"
    using replaces_ir_ready [OF d7(2) texts] writes by blast
  obtain d9 where d9: "replaces ''pointer_declarations'' pointer_columns (\<lambda>d. Inr (pointer_row d)) (pc_pointer_declarations c) d8 = Some ((), d9)" "ready d9"
    using replace_fits [OF d8(2) patterns(8), of "\<lambda>d. Inr (pointer_row d)" "pc_pointer_declarations c"] rows_fit(5) by (auto simp: list_all_iff)
  show ?thesis
    using d1(1) d2(1) d3(1) d4(1) d5(1) d6(1) d7(1) d8(1) d9 by (simp add: replaces_all_def after_def)
qed

section \<open>The marks of old databases\<close>

definition keeps_disk :: "'a project_op \<Rightarrow> bool" where
  "keeps_disk m \<longleftrightarrow> (\<forall>s r s'. run_state m s = (r, s') \<longrightarrow> externals_disk s' = externals_disk s)"

lemma keeps_disk_call [simp]: "keeps_disk (sql_call st)"
  by (auto simp: keeps_disk_def sql_call_def Let_def split: option.splits sum.splits)

lemma keeps_disk_done [simp]: "keeps_disk (done_with x)"
  by (simp add: keeps_disk_def)

lemma keeps_disk_read [simp]: "keeps_disk (read_row r)"
  by (auto simp: keeps_disk_def read_row_def)

lemma keeps_disk_bind: "keeps_disk m \<Longrightarrow> (\<And>x. keeps_disk (k x)) \<Longrightarrow> keeps_disk (or_return m k)"
  unfolding keeps_disk_def by (fastforce simp: run_or_return split: prod.splits sum.splits)

lemma keeps_disk_each: "(\<And>x. keeps_disk (f x)) \<Longrightarrow> keeps_disk (for_each f xs)"
  by (induction xs) (auto intro: keeps_disk_bind)

lemma keeps_disk_parts [simp]:
  "keeps_disk create_tables" "keeps_disk migrate_type_columns" "keeps_disk migrate_function_columns" "keeps_disk get_version"
  "keeps_disk (set_version v)" "keeps_disk (query_if_exists n cols from_row)" "keeps_disk open_connection"
  unfolding create_tables_def migrate_type_columns_def migrate_function_columns_def get_version_def set_version_def
    query_if_exists_def table_exists_def query_rows_def prepare_def open_connection_def ensure_column_def table_has_column_def case_prod_beta
  by (auto intro!: keeps_disk_each keeps_disk_bind)

lemma keeps_diskD: "keeps_disk m \<Longrightarrow> run_state m s = (r, s') \<Longrightarrow> externals_disk s' = externals_disk s"
  by (simp add: keeps_disk_def)

lemma run_bind:
  assumes "run_state (or_return m k) s = (Inr y, s')"
  obtains x t where "run_state m s = (Inr x, t)" and "run_state (k x) t = (Inr y, s')"
  using assms by (auto simp: run_or_return split: prod.splits sum.splits)

definition old_data :: "sql_db \<Rightarrow> externals_data" where
  "old_data db = \<lparr>xd_marks = old_marks db, xd_name_regexes = old_names db, xd_path_regexes = old_paths db, xd_file_marks = []\<rparr>"

text \<open>The migration itself, on a database that has the old tables.\<close>

lemma moves_old_marks:
  assumes "run_state migrate_externals_to_text_file s = (Inr (), s')"
    and legacy: "legacy_rows (database s) ''external_marks'' [''usr'', ''external'', ''decided_at''] mark_from_row"
      "legacy_rows (database s) ''external_name_regexes'' [''id'', ''pattern'', ''created_at''] name_regex_from_row"
      "legacy_rows (database s) ''external_path_regexes'' [''id'', ''pattern'', ''created_at''] path_regex_from_row"
    and "externals_txt (externals_disk s) = None" and "data_ok (old_data (database s))"
  shows "stored (externals_disk s') = old_data (database s)"
proof -
  from assms(1) obtain marks names paths s1 s2 s3 s4 where
    1: "run_state (query_if_exists ''external_marks'' [''usr'', ''external'', ''decided_at''] mark_from_row) s = (Inr marks, s1)" and
    2: "run_state (query_if_exists ''external_name_regexes'' [''id'', ''pattern'', ''created_at''] name_regex_from_row) s1 = (Inr names, s2)" and
    3: "run_state (query_if_exists ''external_path_regexes'' [''id'', ''pattern'', ''created_at''] path_regex_from_row) s2 = (Inr paths, s3)" and
    4: "run_state (in_externals (migrate_from_legacy marks names paths)) s3 = (Inr (), s4)" and
    5: "run_state (for_each (\<lambda>t. sql_call (drop_table t)) [''external_marks'', ''external_name_regexes'', ''external_path_regexes'']) s4 = (Inr (), s')"
    unfolding migrate_externals_to_text_file_def by (elim run_bind) auto
  have m: "marks = old_marks (database s)" "database s1 = database s"
    using implementsD(3) [OF implements_query_legacy 1 refl] queried_legacy [OF legacy(1)] by auto
  have n: "names = old_names (database s)" "database s2 = database s"
    using implementsD(3) [OF implements_query_legacy 2 refl] queried_legacy [OF legacy(2)] m(2) by auto
  have p: "paths = old_paths (database s)" "database s3 = database s"
    using implementsD(3) [OF implements_query_legacy 3 refl] queried_legacy [OF legacy(3)] n(2) by auto
  have disk: "externals_disk s3 = externals_disk s"
    using 1 2 3 keeps_disk_parts(6) unfolding keeps_disk_def by metis
  obtain there d1 where exists: "run_state store_exists (externals_disk s3) = (there, d1)" by force
  then have none: "\<not> there" "externals_txt d1 = None"
    using assms(5) disk by (auto simp: store_exists_def next_call_def run_state_return State_Monad.get_def split: list.splits)
  obtain q d where q: "run_state (migrate_from_legacy marks names paths) (externals_disk s3) = (q, d)" by force
  then have "q = Inr ()" "externals_disk s4 = d" using 4 by (auto simp: in_externals_def)
  moreover have "externals_disk s' = externals_disk s4"
    using 5 keeps_disk_each [of "\<lambda>t. sql_call (drop_table t)"] unfolding keeps_disk_def by (metis keeps_disk_call keeps_disk_def)
  moreover have "stored d = old_data (database s)"
  proof (cases "marks = [] \<and> names = [] \<and> paths = []")
    case True
    then have "d = d1" using q exists none(1) by (auto simp: migrate_from_legacy_def)
    then show ?thesis using True none(2) m(1) n(1) p(1) by (simp add: stored_def default_externals_def old_data_def)
  next
    case False
    then have "run_state (write_store (old_data (database s))) d1 = (q, d)"
      using q exists none(1) m(1) n(1) p(1) by (auto simp: migrate_from_legacy_def old_data_def)
    from write_stored [OF assms(6) this] show ?thesis using \<open>q = Inr ()\<close> by simp
  qed
  ultimately show ?thesis by simp
qed

end
