(* ===== verification/Store_Properties.thy ===== *)
theory Store_Properties
  imports Store_Ready
begin

text \<open>
  The properties of the database of a project, with a database of an older version as an example.
\<close>

section \<open>An old database\<close>

text \<open>A table of call edges of today with one row, and marks that still were rows.\<close>

definition sample_edges :: sql_table where
  "sample_edges =
     \<lparr>t_columns =
        [text_column ''caller_usr'', text_nullable ''callee_usr'', integer_nullable ''is_dynamic_dispatch'',
         text_nullable ''unresolved_reason'', text_column ''file'', integer_column ''line'', integer_column ''column''],
      t_unique = None,
      t_rows =
        [[(''caller_usr'', SqlText ''c:@F@main''), (''callee_usr'', SqlText ''c:@F@run''),
          (''is_dynamic_dispatch'', SqlInteger 0), (''unresolved_reason'', SqlNull), (''file'', SqlText ''a.cpp''),
          (''line'', SqlInteger 3), (''column'', SqlInteger 5)]]\<rparr>"

text \<open>Types as the first version kept them: without a namespace, an end and a USR.\<close>

definition sample_types :: sql_table where
  "sample_types =
     \<lparr>t_columns =
        [text_column ''name'', text_column ''kind'', text_column ''file'', integer_column ''line'', integer_column ''column''],
      t_unique = None,
      t_rows =
        [[(''name'', SqlText ''S''), (''kind'', SqlText ''struct''), (''file'', SqlText ''a.h''), (''line'', SqlInteger 1),
          (''column'', SqlInteger 1)]]\<rparr>"

definition sample_marks :: sql_table where
  "sample_marks =
     \<lparr>t_columns = [text_column ''usr'', integer_column ''external'', text_column ''decided_at''],
      t_unique = Some ''usr'',
      t_rows = [[(''usr'', SqlText ''c:@F@run''), (''external'', SqlInteger 1), (''decided_at'', SqlText ''17'')]]\<rparr>"

definition sample_db :: sql_db where
  "sample_db =
     \<lparr>db_tables = [''call_edges'' \<mapsto> sample_edges, ''type_declarations'' \<mapsto> sample_types, ''external_marks'' \<mapsto> sample_marks],
      db_user_version = 0\<rparr>"

definition sample_files :: project_files where
  "sample_files =
     \<lparr>project_db = Some sample_db, sql_faults = [], sql_texts = \<lambda>_. ''SQL error'', externals_disk = sample_disk []\<rparr>"

lemma sample_database: "database sample_files = sample_db"
  by (simp add: database_def sample_files_def)

lemma no_engine_error: "sql_faults s = [] \<Longrightarrow> faults (externals_disk s) = [] \<Longrightarrow> \<not> engine_error s e"
  by (simp add: engine_error_def)

lemma sample_no_error: "\<not> engine_error sample_files e"
  by (rule no_engine_error) (simp_all add: sample_files_def sample_disk_def)

lemma sample_tables:
  "db_tables sample_db n = Some t \<Longrightarrow>
    n = ''call_edges'' \<and> t = sample_edges \<or> n = ''type_declarations'' \<and> t = sample_types \<or>
    n = ''external_marks'' \<and> t = sample_marks"
  by (auto simp: sample_db_def split: if_splits)

lemma table_columns_ok:
  assumes "map_of SCHEMA n = Some (cols, u)" and "t_unique t = u" and "compatible cols t"
    and "list_all (\<lambda>c. c \<in> set (column_names t) \<or> (n, c) \<in> set (map (\<lambda>m. (fst m, col_name (snd m))) all_migrations)) (map col_name cols)"
    and "db_user_version db < SCHEMA_VERSION"
  shows "t_unique t = u \<and> compatible cols t \<and>
       (\<forall>c \<in> set cols. col_name c \<in> set (column_names t) \<or>
         db_user_version db < SCHEMA_VERSION \<and> (\<exists>d. (n, d) \<in> set all_migrations \<and> col_name d = col_name c))"
  using assms by (fastforce simp: list_all_iff image_iff)

definition compatible_columns :: "sql_column list \<Rightarrow> sql_column list \<Rightarrow> bool" where
  "compatible_columns cols cs \<longleftrightarrow> list_all (\<lambda>c.
     case List.find (\<lambda>d. col_name d = col_name c) cols of
       None \<Rightarrow> \<not> (col_not_null c \<and> col_default c = SqlNull)
     | Some d \<Rightarrow> col_not_null c \<longrightarrow> col_not_null d) cs"

lemma compatible_columns: "compatible cols t \<longleftrightarrow> compatible_columns cols (t_columns t)"
  by (simp add: compatible_def compatible_columns_def list_all_iff)

definition table_ok :: "string \<Rightarrow> sql_table \<Rightarrow> bool" where
  "table_ok n t \<longleftrightarrow>
     (case map_of SCHEMA n of
        None \<Rightarrow> True
      | Some (cols, u) \<Rightarrow> t_unique t = u \<and> compatible_columns cols (t_columns t) \<and>
          list_all (\<lambda>c. c \<in> set (column_names t) \<or> (n, c) \<in> set (map (\<lambda>m. (fst m, col_name (snd m))) all_migrations))
            (map col_name cols))"

lemma sample_tables_ok:
  "table_ok ''call_edges'' sample_edges" "table_ok ''type_declarations'' sample_types" "table_ok ''external_marks'' sample_marks"
  by code_simp+

lemma sample_proper: "proper_db sample_db"
proof -
  have "distinct (column_names sample_edges)" "distinct (column_names sample_types)" "distinct (column_names sample_marks)"
    by code_simp+
  then show ?thesis unfolding proper_db_def by (auto dest!: sample_tables)
qed

lemma sample_openable: "openable sample_db"
proof -
  have "t_unique t = u \<and> compatible cols t \<and>
       (\<forall>c \<in> set cols. col_name c \<in> set (column_names t) \<or>
         db_user_version sample_db < SCHEMA_VERSION \<and> (\<exists>d. (n, d) \<in> set all_migrations \<and> col_name d = col_name c))"
    if "map_of SCHEMA n = Some (cols, u)" "db_tables sample_db n = Some t" for n cols u t
  proof -
    have "table_ok n t" using sample_tables [OF that(2)] sample_tables_ok by blast
    then show ?thesis using that(1)
      by (intro table_columns_ok)
        (simp_all add: table_ok_def compatible_columns sample_db_def SCHEMA_VERSION_def)
  qed
  moreover have "legacy_rows sample_db ''external_marks'' [''usr'', ''external'', ''decided_at''] mark_from_row"
    by (simp add: legacy_rows_def sample_db_def sample_marks_def column_names_def text_column_def integer_column_def
        value_at_def mark_from_row_def get_text_def get_bool_def)
  moreover have "legacy_rows sample_db ''external_name_regexes'' cs f" "legacy_rows sample_db ''external_path_regexes'' ds g"
    for cs ds and f g :: "sql_value list \<Rightarrow> row_error + 'a option"
    by (simp_all add: legacy_rows_def sample_db_def)
  ultimately show ?thesis using sample_proper by (auto simp: openable_def legacy_rows_def sample_db_def)
qed

lemma sample_opens:
  obtains s' where "run_state open_store sample_files = (Inr (), s')" and "ready (database s')"
proof -
  obtain r s' where run: "run_state open_store sample_files = (r, s')" by force
  obtain db' where db': "opens sample_db = Some ((), db')" "ready db'" using opened [OF sample_openable] by blast
  show thesis
  proof (cases r)
    case (Inl e)
    then show thesis using implementsD(2) [OF implements_open run] db'(1) sample_no_error by (auto simp: sample_database)
  next
    case (Inr u)
    then have "opens sample_db = Some ((), database s')" using implementsD(3) [OF implements_open run] by (simp add: sample_database)
    then show thesis using that run Inr db' by simp
  qed
qed

lemma new_database_openable: "openable empty_db"
  by (simp add: openable_def empty_db_def proper_db_def legacy_rows_def)

text \<open>A catalog of two elements, and JSON enough for it.\<close>

definition sample_json :: serde where
  "sample_json =
     \<lparr>strings_to_json = \<lambda>ss. if ss = [''g++''] then Inr ''[g++]'' else Inl ''no such list'',
      strings_from_json = \<lambda>t. if t = ''[g++]'' then Inr [''g++''] else Inl ''expected value'',
      function_to_json = \<lambda>f. Inr (f_usr f), function_from_json = \<lambda>t. Inl ''expected value'',
      record_to_json = \<lambda>r. Inr (r_usr r), record_from_json = \<lambda>t. Inl ''expected value'',
      enum_to_json = \<lambda>e. Inr (en_usr e), enum_from_json = \<lambda>t. if t = en_usr sample_enum then Inr sample_enum else Inl ''expected value''\<rparr>"

definition sample_catalogs :: project_catalogs where
  "sample_catalogs =
     \<lparr>pc_compilation_units = [\<lparr>cu_directory = ''/p'', cu_file = ''a.cpp'', cu_command = None, cu_arguments = [''g++'']\<rparr>],
      pc_type_declarations = [], pc_type_dependencies = [], pc_type_usages = [],
      pc_source_files = [\<lparr>sf_path = ''a.cpp'', sf_kind = SfTranslationUnit\<rparr>, \<lparr>sf_path = ''a.h'', sf_kind = SfHeader\<rparr>],
      pc_function_declarations = [],
      pc_call_edges = [\<lparr>ce_caller_usr = ''c:@F@main'', ce_resolution = Unresolved ''function pointer'', ce_file = ''a.cpp'',
        ce_line = 3, ce_column = 5\<rparr>],
      pc_ir_functions = [], pc_ir_records = [], pc_ir_enums = [sample_enum], pc_pointer_declarations = []\<rparr>"

lemma sample_catalogs_fit: "json_reads_catalogs sample_json sample_catalogs" "storable sample_json sample_catalogs"
  by (simp_all add: json_reads_catalogs_def json_reads_def storable_def json_writes_def sample_json_def sample_catalogs_def)

lemma sample_opened_no_error: "run_state open_store sample_files = (r, s') \<Longrightarrow> \<not> engine_error s' e"
  using implementsD(1) [OF implements_open, of sample_files r s']
  by (intro no_engine_error) (simp_all add: fewer_faults_def sample_files_def sample_disk_def)

text \<open>Opening an old database reaches the migration of the marks with the file and the old tables as they were.\<close>

lemma create_dir_keeps_file:
  assumes "run_state (in_externals create_dir_all) s = (r, s')"
  shows "externals_txt (externals_disk s') = externals_txt (externals_disk s)"
proof -
  obtain q d where "run_state create_dir_all (externals_disk s) = (q, d)" by force
  moreover from this have "externals_txt d = externals_txt (externals_disk s)"
    unfolding create_dir_all_def by (rule call_cases) simp_all
  ultimately show ?thesis using assms by (auto simp: in_externals_def)
qed

lemma migrations_keep_old_tables:
  assumes "openable db" and "db_user_version db < SCHEMA_VERSION" and "creates db = Some ((), db1)"
    and "each ensures all_migrations db1 = Some ((), db2)" and "map_of SCHEMA n = None"
  shows "db_tables db2 n = db_tables db n"
proof -
  obtain d where d: "creates db = Some ((), d)" "db_user_version d = db_user_version db" "proper_db d"
    "\<And>n t. db_tables db n = Some t \<Longrightarrow> db_tables d n = Some t"
    "\<And>n. map_of SCHEMA n = None \<Longrightarrow> db_tables d n = db_tables db n"
    "\<And>n cols u. map_of SCHEMA n = Some (cols, u) \<Longrightarrow> \<exists>t. db_tables d n = Some t \<and> t_unique t = u \<and> compatible cols t \<and>
      (\<forall>c \<in> set cols. col_name c \<in> set (column_names t) \<or>
        db_user_version db < SCHEMA_VERSION \<and> (\<exists>d. (n, d) \<in> set all_migrations \<and> col_name d = col_name c))"
    using created_schema [OF assms(1)] by blast
  have "d = db1" using d(1) assms(3) by simp
  have "\<exists>t. db_tables d n = Some t \<and> t_unique t = u \<and> compatible cols t \<and>
        (\<forall>c \<in> set cols. col_name c \<in> set (column_names t) \<or> (\<exists>d. (n, d) \<in> set all_migrations \<and> col_name d = col_name c))"
    if "map_of SCHEMA n = Some (cols, u)" for n cols u
    using d(6) [OF that] by blast
  from migrated [OF d(3) this] obtain e where e: "each ensures all_migrations d = Some ((), e)"
    "\<And>n. map_of SCHEMA n = None \<Longrightarrow> db_tables e n = db_tables d n" by blast
  have "e = db2" using e(1) assms(4) \<open>d = db1\<close> by simp
  then show ?thesis using d(5) e(2) assms(5) by simp
qed

lemma open_reaches_migration:
  assumes "openable (database s)" and "db_user_version (database s) < SCHEMA_VERSION"
    and "run_state open_store s = (Inr (), s')"
  obtains t u where "run_state migrate_externals_to_text_file t = (Inr (), u)" and "externals_disk s' = externals_disk u"
    and "externals_txt (externals_disk t) = externals_txt (externals_disk s)"
    and "\<And>n. map_of SCHEMA n = None \<Longrightarrow> db_tables (database t) n = db_tables (database s) n"
proof -
  let ?db = "database s"
  from assms(3) obtain s1 s2 s3 s4 s5 v s6 where
    1: "run_state (in_externals create_dir_all) s = (Inr (), s1)" and 2: "run_state open_connection s1 = (Inr (), s2)" and
    3: "run_state (sql_call no_statement) s2 = (Inr (), s3)" and 4: "run_state (sql_call no_statement) s3 = (Inr (), s4)" and
    5: "run_state create_tables s4 = (Inr (), s5)" and 6: "run_state get_version s5 = (Inr v, s6)" and
    rest: "run_state (if v < SCHEMA_VERSION then
         or_return migrate_type_columns (\<lambda>_. or_return migrate_function_columns (\<lambda>_.
         or_return (if v < 2 then migrate_externals_to_text_file else done_with ()) (\<lambda>_. set_version SCHEMA_VERSION)))
       else done_with ()) s6 = (Inr (), s')"
    unfolding open_store_def by (elim run_bind) auto
  have "database s4 = ?db"
    using implementsD(3) [OF implements_externals [OF io_only_create] 1 refl] implementsD(3) [OF implements_nothing 2 [unfolded open_connection_def] refl]
      implementsD(3) [OF implements_nothing 3 refl] implementsD(3) [OF implements_nothing 4 refl] by (simp add: yields_def)
  then have db1: "creates ?db = Some ((), database s5)" using implementsD(3) [OF implements_create 5 refl] by simp
  moreover have "db_user_version (database s5) = db_user_version ?db"
    by (rule created_schema [OF assms(1)]) (use db1 in simp)
  ultimately have v: "v = db_user_version ?db" and s6: "database s6 = database s5"
    using implementsD(3) [OF implements_version(1) 6 refl] by (simp_all add: gets_version_def)
  from rest assms(2) v obtain s7 s8 s9 where
    7: "run_state migrate_type_columns s6 = (Inr (), s7)" and 8: "run_state migrate_function_columns s7 = (Inr (), s8)" and
    9: "run_state migrate_externals_to_text_file s8 = (Inr (), s9)" and 10: "run_state (set_version SCHEMA_VERSION) s9 = (Inr (), s')"
    by (auto simp: SCHEMA_VERSION_def elim!: run_bind)
  have "each ensures all_migrations (database s5) = Some ((), database s8)"
    using implementsD(3) [OF implements_migrations(1) 7 refl] implementsD(3) [OF implements_migrations(2) 8 refl]
    by (simp add: all_migrations_def each_append after_def s6)
  then have "db_tables (database s8) n = db_tables ?db n" if "map_of SCHEMA n = None" for n
    using migrations_keep_old_tables [OF assms(1,2) db1 _ that] by blast
  moreover have "externals_disk s8 = externals_disk s1"
    using keeps_diskD [OF keeps_disk_parts(7) 2] keeps_diskD [OF keeps_disk_call 3] keeps_diskD [OF keeps_disk_call 4]
      keeps_diskD [OF keeps_disk_parts(1) 5] keeps_diskD [OF keeps_disk_parts(4) 6] keeps_diskD [OF keeps_disk_parts(2) 7]
      keeps_diskD [OF keeps_disk_parts(3) 8] by simp
  ultimately show thesis
    using that [OF 9 keeps_diskD [OF keeps_disk_parts(5) 10]] create_dir_keeps_file [OF 1] by simp
qed

section \<open>Properties\<close>

text \<open>
  C38. The catalogs of a project land as a whole or not at all: where replacing them fails, by whatever error of the
  engine, of JSON or of the database, the database is the one before; where it succeeds, every listing
  answers the catalog it was given, element for element and in its order (the representation in the order of
  its identities), and fails by errors of the engine only. A database that is ready takes every catalog whose
  functions, records and enums have identities of their own and whose values JSON can write: replacing fails by
  errors of the engine only, and leaves the database ready. That JSON reads back what it wrote for these values
  is assumed.
\<close>

theorem catalogs_stored:
  assumes "run_state (replace_all J c) s = (r, s')" and "proper_db (database s)" and "json_reads_catalogs J c"
  shows "(if isl r then project_db s' = project_db s else answers_catalogs J s' c) \<and>
    (ready (database s) \<and> storable J c \<longrightarrow> (\<exists>e. r = Inl e \<and> engine_error s e) \<or> r = Inr () \<and> ready (database s'))"
proof (cases r)
  case (Inl e)
  have "project_db s' = project_db s" using assms(1) Inl transaction_atomic by (auto simp: replace_all_def)
  then show ?thesis using Inl implementsD(2) [OF implements_replace_all assms(1)] replaces_all_ready by fastforce
next
  case (Inr u)
  with implementsD(3) [OF implements_replace_all assms(1)]
  have "replaces_all J c (database s) = Some (u, database s')" by simp
  then show ?thesis using Inr assms(2,3) replaces_all_ready [of "database s" J c] by (auto simp: replaced_answers)
qed

theorem catalogs_stored_witness:
  "\<exists>s s'. run_state open_store sample_files = (Inr (), s) \<and> run_state (replace_all sample_json sample_catalogs) s = (Inr (), s') \<and>
    answers_catalogs sample_json s' sample_catalogs \<and> ready (database s')"
proof -
  obtain s where s: "run_state open_store sample_files = (Inr (), s)" "ready (database s)" by (rule sample_opens)
  obtain r s' where run: "run_state (replace_all sample_json sample_catalogs) s = (r, s')" by force
  have "proper_db (database s)" using s(2) by (simp add: ready_def)
  note stored = catalogs_stored [OF run this sample_catalogs_fit(1)]
  then have "r = Inr ()" "ready (database s')" using s sample_catalogs_fit(2) sample_opened_no_error by blast+
  then show ?thesis using s(1) run stored by auto
qed



text \<open>
  C40. The marks and rules of an old database move to the externals file: opening it where there is no such file
  leaves in the file what the three old tables held, however the disk behaves before the end. Their texts hold
  no tab and no line break, as the file needs.
\<close>

theorem old_marks_move:
  assumes "openable (database s)" and "db_user_version (database s) < SCHEMA_VERSION"
    and "externals_txt (externals_disk s) = None" and "data_ok (old_data (database s))"
    and "run_state open_store s = (Inr (), s')"
  shows "stored (externals_disk s') = old_data (database s)"
proof -
  obtain t u where moved: "run_state migrate_externals_to_text_file t = (Inr (), u)" "externals_disk s' = externals_disk u"
    and t: "externals_txt (externals_disk t) = externals_txt (externals_disk s)"
      "\<And>n. map_of SCHEMA n = None \<Longrightarrow> db_tables (database t) n = db_tables (database s) n"
    using open_reaches_migration [OF assms(1,2,5)] by blast
  have old: "old_data (database t) = old_data (database s)"
    by (simp add: old_data_def legacy_list_def t(2) legacy_not_in_schema)
  have "stored (externals_disk u) = old_data (database t)"
    using assms t unfolding openable_def legacy_rows_def
    by (intro moves_old_marks [OF moved(1)]) (simp_all add: old legacy_rows_def legacy_not_in_schema)
  then show ?thesis by (simp only: old moved(2))
qed

lemma sample_old_data:
  "old_data sample_db = \<lparr>xd_marks = [\<lparr>xm_usr = ''c:@F@run'', xm_external = True, xm_decided_at = ''17''\<rparr>], xd_name_regexes = [],
     xd_path_regexes = [], xd_file_marks = []\<rparr>"
  by code_simp

theorem old_marks_move_witness:
  "\<exists>s'. run_state open_store sample_files = (Inr (), s') \<and>
    xd_marks (stored (externals_disk s')) = [\<lparr>xm_usr = ''c:@F@run'', xm_external = True, xm_decided_at = ''17''\<rparr>]"
proof -
  obtain s' where run: "run_state open_store sample_files = (Inr (), s')" by (rule sample_opens)
  have "data_ok (old_data sample_db)" unfolding sample_old_data by code_simp
  moreover have "externals_txt (externals_disk sample_files) = None" by (simp add: sample_files_def sample_disk_def)
  moreover have "db_user_version sample_db < SCHEMA_VERSION" by (simp add: sample_db_def SCHEMA_VERSION_def)
  ultimately have "stored (externals_disk s') = old_data sample_db"
    using old_marks_move [OF _ _ _ _ run, unfolded sample_database, OF sample_openable] by blast
  then show ?thesis using run by (simp add: sample_old_data)
qed

end
