(* ===== verification/Spec2Isabelle.thy ===== *)
theory Spec2Isabelle
  imports Prelude Ir Ir_Nodes Renames Ir_Visitor Disambiguation Enum_Refs Catalog Externals Facts
    Type_Options Overload_Options Pointer_Options
    Keyed_Merge Catalog_Merge Lower_Names Overloads Record_Graph
    Mixin_Forms Base_Calls Raii Outlines Function_Pipeline
    Project_Extraction Jobs
    Dart_Text Dart_Scan Dart_Expr Dart_Copy Dart_Refs Dart_Decl Dart_Support Dart_Files Dart_Emission
    Dart_Bodies Dart_Total Dart_Copies Dart_Syntax Dart_Imports Dart_Values
    Externals_Store Lower_Bodies Lower_Paths Lower_Locals
    Sql_Tables Project_Store Store_Laws Store_Catalogs Store_Open Store_Ready Store_Properties
begin

text \<open>
  A model of the core of \<^verbatim>\<open>syntaxbridge\<close>, a server that transpiles C++ projects to Dart. The server
  extracts catalogs of a project's types, functions, calls and pointers through libclang, lowers the
  function bodies to an intermediate representation, runs a sequence of passes over it, decides which
  Dart representation each C++ construct gets, and emits Dart. What is modelled is the code between
  the libclang callbacks and the files: pure Rust over the catalogs and the representation, under
  \<^verbatim>\<open>crates/server/src\<close>.

  The theories and the code:

  \<^item> \<open>Prelude\<close>: strings as UTF-8 byte lists with the operations of \<^verbatim>\<open>str\<close> the code calls, hash maps and
    ordered maps as association lists behind the locale of an updatable map, indexed groups.
  \<^item> \<open>Ir\<close>: \<^verbatim>\<open>ir/mod.rs\<close>, one datatype per enum and one record per struct. \<open>Ir_Nodes\<close>: the nodes of a
    body in the order they are walked, and the locale of the passes that rewrite bodies node by node.
  \<^item> \<open>Renames\<close>, \<open>Ir_Visitor\<close>, \<open>Disambiguation\<close>, \<open>Enum_Refs\<close>: the passes of \<^verbatim>\<open>function_catalog.rs\<close> of the
    same names (\<^verbatim>\<open>apply_renames\<close>, \<^verbatim>\<open>apply_reserved_word_renames\<close>, \<^verbatim>\<open>IrRefVisitor\<close>,
    \<^verbatim>\<open>apply_record_name_disambiguation\<close>, \<^verbatim>\<open>reject_undeclared_enum_refs\<close>). A pass that mutates its
    arguments in place is a function from the old value to the new one; a visitor with hooks is a
    state transformer over the hooks' state.
  \<^item> \<open>Catalog\<close>: the records of \<^verbatim>\<open>type_catalog.rs\<close>, \<^verbatim>\<open>function_catalog.rs\<close> and \<^verbatim>\<open>pointer_catalog.rs\<close>, and
    the texts their kinds are stored under.
  \<^item> \<open>Externals\<close>: \<^verbatim>\<open>externals.rs\<close>, which declarations are external to the conversion.
  \<^item> \<open>Facts\<close>, \<open>Type_Options\<close>, \<open>Overload_Options\<close>, \<open>Pointer_Options\<close>: \<^verbatim>\<open>mapping.rs\<close>, the decisions and
    the texts that explain them.
  \<^item> \<open>Keyed_Merge\<close>: the loops that merge what the workers found, one entry per key, as instances of one
    locale; \<open>Catalog_Merge\<close>: \<^verbatim>\<open>finish_type_catalog\<close>, \<^verbatim>\<open>finish_pointer_catalog\<close>, \<^verbatim>\<open>finish_source_files\<close> and
    the merge loop of \<^verbatim>\<open>finish_function_catalog\<close>.
  \<^item> \<open>Lower_Names\<close>: the pure naming functions of \<^verbatim>\<open>lower/cpp.rs\<close>; \<open>Overloads\<close>: the overload renaming of
    \<^verbatim>\<open>function_catalog.rs\<close>.
  \<^item> \<open>Record_Graph\<close>: mixins, mixin chains and ancestors (\<^verbatim>\<open>emit/dart.rs\<close>, \<^verbatim>\<open>function_catalog.rs\<close>);
    \<open>Mixin_Forms\<close>, \<open>Base_Calls\<close>, \<open>Raii\<close>: \<^verbatim>\<open>apply_mixin_forms\<close>, \<^verbatim>\<open>resolve_qualified_base_calls\<close>,
    \<^verbatim>\<open>apply_raii_scope_guards\<close>; \<open>Outlines\<close>: what of a function and a record no pass changes, statement by
    statement; \<open>Function_Pipeline\<close>: \<^verbatim>\<open>finish_function_catalog\<close>, which runs all of them.
  \<^item> \<open>Project_Extraction\<close>: \<^verbatim>\<open>extraction.rs\<close> and \<^verbatim>\<open>progress.rs\<close>. A state holds the shared cursor, the flag, the
    counters and where each worker thread is; a step is one access to shared state by one worker, so
    every interleaving is a run. Relaxed atomics are modelled as sequentially consistent.
  \<^item> \<open>Jobs\<close>: \<^verbatim>\<open>jobs.rs\<close>, the error types of the jobs, and the handlers of \<^verbatim>\<open>server.rs\<close> that start, poll and
    cancel them. A poll reads the counters as they are at one moment; the handler reads them one after
    another while the workers go on.
  \<^item> \<^verbatim>\<open>emit/dart.rs\<close>, the emitter of Dart: \<open>Dart_Text\<close> (names, types, literals, default and mocked values, file
    stems), \<open>Dart_Scan\<close> (the questions about statements and expressions the emitter asks before it prints),
    \<open>Dart_Expr\<close> (expressions, statements and bodies), \<open>Dart_Copy\<close> (copies of records and copy constructors),
    \<open>Dart_Refs\<close> (the declarations a declaration refers to), \<open>Dart_Decl\<close> (enums, constructors, methods,
    functions and records), \<open>Dart_Support\<close> (the texts of the support file) and \<open>Dart_Files\<close> (a module to its
    files). What the code keeps in an emission state is threaded by a state monad whose steps may panic:
    an emission returns none where \<^verbatim>\<open>expect\<close>, \<^verbatim>\<open>unreachable!\<close> or an index would panic.
  \<^item> \<open>Dart_Emission\<close>: the locale of what every emission keeps of its state, proved once over the mutual
    recursion of the emitter and interpreted at the flags it sets and at the facts it promotes;
    \<open>Dart_Bodies\<close>, \<open>Dart_Total\<close>, \<open>Dart_Copies\<close>, \<open>Dart_Syntax\<close>, \<open>Dart_Imports\<close>, \<open>Dart_Values\<close>: a body is
    printed or replaced by its first unsupported construct, no module makes the emitter panic, copies that
    remain have constructors to call, operators read back with the structure they were printed from,
    every name is imported from the file that declares it, and made-up values have their types. What Dart
    reads (strings, operators by its own precedence, values) is specified there as inductive relations.
    A copy finds its constructor where it spells its record as declared, which disambiguation does not
    keep for copies in bodies; made-up values are typed where all records are classes one can construct.
  \<^item> \<open>Externals_Store\<close>: \<^verbatim>\<open>persistence/externals_store.rs\<close>, the text file of external marks and rules. The state
    is a disk with the file, its temporary file and what the next system calls do: each may fail and leave a
    part of what it wrote. The locale of an atomic storage, interpreted at the file, gives that every sequence
    of requests acts on the data as the requests that succeeded do, for fields the format can hold: no tab,
    no line break.
  \<^item> \<open>Sql_Tables\<close>, \<open>Project_Store\<close>: \<^verbatim>\<open>persistence/project_store.rs\<close>, the database of a project: the statements
    of SQL it uses, over tables as lists of rows, and its schema, migrations, and the operations that replace
    and list the catalogs. The state holds the database, the disk of the externals file, and the statements
    to fail by themselves; JSON is a parameter. \<open>Store_Laws\<close>: each operation implements a partial function on
    the database, and the locale of a table of elements, interpreted at each catalog, gives that what is
    replaced is what is listed. \<open>Store_Catalogs\<close>, \<open>Store_Open\<close>, \<open>Store_Ready\<close>, \<open>Store_Properties\<close>: all catalogs
    are replaced or none, a database of any version opens with its rows, and its old marks move to the file.
  \<^item> \<open>Lower_Bodies\<close>: the passes of \<^verbatim>\<open>lower/cpp.rs\<close> over bodies it has lowered. \<open>Lower_Paths\<close>: the executions of
    a body as inductively defined paths of events, and what the passes do to them: the bridge of
    out-parameters keeps every path and returns the tuple, what is cut after a jump is dead.
    \<open>Lower_Locals\<close>: the scan of the pass that gives locals default values is sound on paths of statements
    without \<^verbatim>\<open>finally\<close> whose \<^verbatim>\<open>for\<close> headers are simple and do not begin with a bridged call; in others it is not.

  What the lemmas show: every pass keeps what it does not mean to change (the representation is walked
  node for node, and a node outside the pass's purpose is unchanged), declarations and the sites that
  refer to them stay in agreement, indexes answer as scans, searches and worklists end and find
  exactly what they look for, and each decision is characterised in every case. Where the code does
  less than its comments say, a lemma shows it on a concrete module.

  Parameters of the model: the file system (\<open>file_reader\<close>, the contents of a path or none), the regex
  engine (\<open>regex_new\<close>, an error or a matcher), the Unicode tables of the standard library (\<open>unicode\<close>) and
  its \<^verbatim>\<open>char::to_lowercase\<close> and \<^verbatim>\<open>f64\<close>'s \<^verbatim>\<open>Display\<close> (\<open>rust_std\<close>), which the theorems leave open; witnesses
  instantiate them at ASCII; what libclang says of the out-parameters of a function, the errors of system
  calls and of SQLite, and what \<^verbatim>\<open>serde_json\<close> writes and reads. Loops that are not
  structural have termination proofs, or return an option whose \<open>None\<close> is not returning, with a theorem
  that says when they return; no fuel is used. Line numbers are 32-bit words, indexes and
  counters natural numbers: the code's \<^verbatim>\<open>usize\<close> counts elements of vectors in memory.

  Not modelled: the libclang callbacks, the handlers of the HTTP server other than those of jobs, the global
  list of projects, the thread with a large stack JSON runs on (its start may fail), the client, and the
  lowering of bodies from libclang cursors.
\<close>

end
